(* ===== verification/Prelude.thy ===== *)
theory Prelude
  imports Main "HOL-Library.AList" "HOL-Library.List_Lexorder" "HOL-Library.Char_ord" "HOL-Library.Product_Lexorder"
begin

text \<open>
  Shared by every theory of the development: the state-and-exception monad the
  asynchronous TypeScript code is translated to, the relational preservation rules that
  carry the invariant proofs, a stable sort for \<open>Array.prototype.sort\<close>, and generic
  lemmas on association lists and strings.
\<close>

named_theorems run_simps
  \<open>equations that execute a monadic program on a given state\<close>
named_theorems step_rules
  \<open>rules showing that a program moves the state along a preorder\<close>

subsection \<open>State and exceptions\<close>

text \<open>
  An \<open>async\<close> function that reads and writes the database and may throw is a function
  from the state to the thrown value or the result, and the state reached in either case:
  a throw does not undo what was committed before it.
\<close>

type_synonym ('s, 'e, 'a) prog = "'s \<Rightarrow> ('e + 'a) \<times> 's"

definition ret :: "'a \<Rightarrow> ('s, 'e, 'a) prog" where
  "ret x s = (Inr x, s)"

definition throw :: "'e \<Rightarrow> ('s, 'e, 'a) prog" where
  "throw e s = (Inl e, s)"

definition bindM :: "('s, 'e, 'a) prog \<Rightarrow> ('a \<Rightarrow> ('s, 'e, 'b) prog) \<Rightarrow> ('s, 'e, 'b) prog" where
  "bindM m f s = (case m s of (Inl e, s') \<Rightarrow> (Inl e, s') | (Inr x, s') \<Rightarrow> f x s')"

definition catchM :: "('s, 'e, 'a) prog \<Rightarrow> ('e \<Rightarrow> ('s, 'e, 'a) prog) \<Rightarrow> ('s, 'e, 'a) prog" where
  "catchM m h s = (case m s of (Inl e, s') \<Rightarrow> h e s' | (Inr x, s') \<Rightarrow> (Inr x, s'))"

definition seqM :: "('s, 'e, 'a) prog \<Rightarrow> ('s, 'e, 'b) prog \<Rightarrow> ('s, 'e, 'b) prog" where
  "seqM m k = bindM m (\<lambda>_. k)"

definition liftE :: "'e + 'a \<Rightarrow> ('s, 'e, 'a) prog" where
  "liftE r = (case r of Inl e \<Rightarrow> throw e | Inr x \<Rightarrow> ret x)"

fun foldM :: "('b \<Rightarrow> 'a \<Rightarrow> ('s, 'e, 'b) prog) \<Rightarrow> 'b \<Rightarrow> 'a list \<Rightarrow> ('s, 'e, 'b) prog" where
  "foldM f acc [] = ret acc"
| "foldM f acc (x # xs) = bindM (f acc x) (\<lambda>acc'. foldM f acc' xs)"

lemma run_ret [run_simps]: "ret x s = (Inr x, s)"
  by (simp add: ret_def)

lemma run_throw [run_simps]: "throw e s = (Inl e, s)"
  by (simp add: throw_def)

lemma run_bindM [run_simps]:
  "bindM m f s = (case m s of (Inl e, s') \<Rightarrow> (Inl e, s') | (Inr x, s') \<Rightarrow> f x s')"
  by (simp add: bindM_def)

lemma run_catchM [run_simps]:
  "catchM m h s = (case m s of (Inl e, s') \<Rightarrow> h e s' | (Inr x, s') \<Rightarrow> (Inr x, s'))"
  by (simp add: catchM_def)

lemma run_seqM [run_simps]:
  "seqM m k s = (case m s of (Inl e, s') \<Rightarrow> (Inl e, s') | (Inr _, s') \<Rightarrow> k s')"
  by (simp add: seqM_def bindM_def)

lemma run_liftE_Inl [run_simps]: "liftE (Inl e) s = (Inl e, s)"
  by (simp add: liftE_def throw_def)

lemma run_liftE_Inr [run_simps]: "liftE (Inr x) s = (Inr x, s)"
  by (simp add: liftE_def ret_def)

lemma bindM_ret [simp]: "bindM (ret x) f = f x"
  by (rule ext) (simp add: run_simps)

lemma bindM_throw [simp]: "bindM (throw e) f = throw e"
  by (rule ext) (simp add: run_simps)

lemma bindM_ret_right [simp]: "bindM m ret = m"
  by (rule ext) (simp add: run_simps split: prod.split sum.split)

lemma bindM_assoc: "bindM (bindM m f) g = bindM m (\<lambda>x. bindM (f x) g)"
  by (rule ext) (simp add: run_simps split: prod.split sum.split)

lemma bindM_InrE:
  assumes "bindM m f s = (Inr y, s')"
  obtains x t where "m s = (Inr x, t)" "f x t = (Inr y, s')"
  using assms by (auto simp: bindM_def split: prod.splits sum.splits)

subsection \<open>Running to a postcondition\<close>

text \<open>
  \<open>runs m s Q\<close>: running \<open>m\<close> from \<open>s\<close> ends, with a result or a thrown value, in a state
  that satisfies \<open>Q\<close>. The equations push the postcondition through a program.
\<close>

definition runs :: "('s, 'e, 'a) prog \<Rightarrow> 's \<Rightarrow> ('e + 'a \<Rightarrow> 's \<Rightarrow> bool) \<Rightarrow> bool" where
  "runs m s Q \<longleftrightarrow> (case m s of (r, s') \<Rightarrow> Q r s')"

lemma runsD: "runs m s Q \<Longrightarrow> m s = (r, s') \<Longrightarrow> Q r s'"
  by (simp add: runs_def)

lemma runsI: "(\<And>r s'. m s = (r, s') \<Longrightarrow> Q r s') \<Longrightarrow> runs m s Q"
  by (cases "m s") (simp add: runs_def)

lemma runs_mono: "runs m s P \<Longrightarrow> (\<And>r s'. P r s' \<Longrightarrow> Q r s') \<Longrightarrow> runs m s Q"
  by (auto simp: runs_def split: prod.splits)

lemma runs_conj: "runs m s P \<Longrightarrow> runs m s Q \<Longrightarrow> runs m s (\<lambda>r s'. P r s' \<and> Q r s')"
  by (auto simp: runs_def split: prod.splits)

lemma runs_ret [simp]: "runs (ret x) s Q \<longleftrightarrow> Q (Inr x) s"
  by (simp add: runs_def run_simps)

lemma runs_throw [simp]: "runs (throw e) s Q \<longleftrightarrow> Q (Inl e) s"
  by (simp add: runs_def run_simps)

lemma runs_liftE [simp]: "runs (liftE r) s Q \<longleftrightarrow> Q r s"
  by (cases r) (simp_all add: liftE_def)

lemma runs_bindM:
  "runs (bindM m f) s Q \<longleftrightarrow>
   runs m s (\<lambda>r t. case r of Inl e \<Rightarrow> Q (Inl e) t | Inr x \<Rightarrow> runs (f x) t Q)"
  by (auto simp: runs_def bindM_def split: prod.splits sum.splits)

lemma runs_seqM:
  "runs (seqM m k) s Q \<longleftrightarrow> runs m s (\<lambda>r t. case r of Inl e \<Rightarrow> Q (Inl e) t | Inr _ \<Rightarrow> runs k t Q)"
  by (simp add: seqM_def runs_bindM)

lemma runs_catchM:
  "runs (catchM m h) s Q \<longleftrightarrow>
   runs m s (\<lambda>r t. case r of Inl e \<Rightarrow> runs (h e) t Q | Inr x \<Rightarrow> Q (Inr x) t)"
  by (auto simp: runs_def catchM_def split: prod.splits sum.splits)

lemma runs_bindI:
  "runs m s (\<lambda>r t. case r of Inl e \<Rightarrow> Q (Inl e) t | Inr x \<Rightarrow> runs (f x) t Q) \<Longrightarrow> runs (bindM m f) s Q"
  by (simp add: runs_bindM)

lemma runs_seqI:
  "runs m s (\<lambda>r t. case r of Inl e \<Rightarrow> Q (Inl e) t | Inr _ \<Rightarrow> runs k t Q) \<Longrightarrow> runs (seqM m k) s Q"
  by (simp add: runs_seqM)

lemma runs_catchI:
  "runs m s (\<lambda>r t. case r of Inl e \<Rightarrow> runs (h e) t Q | Inr x \<Rightarrow> Q (Inr x) t) \<Longrightarrow> runs (catchM m h) s Q"
  by (simp add: runs_catchM)

lemmas runs_simps = runs_bindM runs_seqM runs_catchM

subsection \<open>Moving along a preorder\<close>

text \<open>
  \<open>moves R m\<close>: from any state, and whether \<open>m\<close> returns or throws, the state it leaves
  is related by \<open>R\<close> to the one it started in. With \<open>R\<close> an implication of an invariant
  this is preservation; with an equality of a field it is a frame property; with an order
  on a field it is monotonicity.
\<close>

definition moves :: "('s \<Rightarrow> 's \<Rightarrow> bool) \<Rightarrow> ('s, 'e, 'a) prog \<Rightarrow> bool" where
  "moves R m \<longleftrightarrow> (\<forall>s. R s (snd (m s)))"

lemma movesD: "moves R m \<Longrightarrow> m s = (r, s') \<Longrightarrow> R s s'"
  by (metis moves_def snd_conv)

lemma moves_pointwise: "(\<And>s. R s (snd (m s))) \<Longrightarrow> moves R m"
  by (simp add: moves_def)

lemma moves_mono: "moves R m \<Longrightarrow> (\<And>s t. R s t \<Longrightarrow> S s t) \<Longrightarrow> moves S m"
  by (auto simp: moves_def)

lemma moves_runs: "moves R m \<longleftrightarrow> (\<forall>s. runs m s (\<lambda>_. R s))"
  by (simp add: moves_def runs_def case_prod_beta)

lemma runs_moves: "moves R m \<Longrightarrow> runs m s (\<lambda>_. R s)"
  by (simp add: moves_runs)

locale state_preorder =
  fixes R :: "'s \<Rightarrow> 's \<Rightarrow> bool"
  assumes R_refl: "R s s"
    and R_trans: "R s t \<Longrightarrow> R t u \<Longrightarrow> R s u"
begin

lemma mv_ret: "moves R (ret x)"
  by (simp add: moves_def ret_def R_refl)

lemma mv_throw: "moves R (throw e)"
  by (simp add: moves_def throw_def R_refl)

lemma mv_liftE: "moves R (liftE r)"
  by (cases r) (simp_all add: liftE_def mv_ret mv_throw)

lemma mv_bind:
  assumes "moves R m" and "\<And>x. moves R (f x)"
  shows "moves R (bindM m f)"
  unfolding moves_def
proof
  fix s
  obtain r t where m: "m s = (r, t)" by (cases "m s")
  with assms(1) have "R s t" by (rule movesD)
  moreover have "R t (snd (f x t))" for x using assms(2) by (simp add: moves_def)
  ultimately show "R s (snd (bindM m f s))"
    using m by (auto simp: bindM_def intro: R_trans split: sum.split)
qed

lemma mv_seq: "moves R m \<Longrightarrow> moves R k \<Longrightarrow> moves R (seqM m k)"
  by (simp add: seqM_def mv_bind)

lemma mv_catch:
  assumes "moves R m" and "\<And>e. moves R (h e)"
  shows "moves R (catchM m h)"
  unfolding moves_def
proof
  fix s
  obtain r t where m: "m s = (r, t)" by (cases "m s")
  with assms(1) have "R s t" by (rule movesD)
  moreover have "R t (snd (h e t))" for e using assms(2) by (simp add: moves_def)
  ultimately show "R s (snd (catchM m h s))"
    using m by (auto simp: catchM_def intro: R_trans split: sum.split)
qed

lemma mv_fold: "(\<And>acc x. moves R (f acc x)) \<Longrightarrow> moves R (foldM f acc xs)"
  by (induction xs arbitrary: acc) (auto intro: mv_ret mv_bind)

lemma mv_if: "(b \<Longrightarrow> moves R m) \<Longrightarrow> (\<not> b \<Longrightarrow> moves R k) \<Longrightarrow> moves R (if b then m else k)"
  by simp

lemma mv_option:
  "(x = None \<Longrightarrow> moves R m) \<Longrightarrow> (\<And>y. x = Some y \<Longrightarrow> moves R (f y)) \<Longrightarrow>
   moves R (case x of None \<Rightarrow> m | Some y \<Rightarrow> f y)"
  by (cases x) auto

lemma mv_sum:
  "(\<And>e. x = Inl e \<Longrightarrow> moves R (g e)) \<Longrightarrow> (\<And>y. x = Inr y \<Longrightarrow> moves R (f y)) \<Longrightarrow>
   moves R (case x of Inl e \<Rightarrow> g e | Inr y \<Rightarrow> f y)"
  by (cases x) auto

lemma mv_list:
  "(xs = [] \<Longrightarrow> moves R m) \<Longrightarrow> (\<And>y ys. xs = y # ys \<Longrightarrow> moves R (f y ys)) \<Longrightarrow>
   moves R (case xs of [] \<Rightarrow> m | y # ys \<Rightarrow> f y ys)"
  by (cases xs) auto

lemma mv_prod: "(\<And>a b. x = (a, b) \<Longrightarrow> moves R (f a b)) \<Longrightarrow> moves R (case x of (a, b) \<Rightarrow> f a b)"
  by (cases x) auto

lemma mv_let: "(\<And>y. y = x \<Longrightarrow> moves R (f y)) \<Longrightarrow> moves R (let y = x in f y)"
  by (simp add: Let_def)

lemmas mv_rules =
  mv_ret mv_throw mv_liftE mv_bind mv_seq mv_catch mv_fold mv_if mv_option mv_sum
  mv_list mv_prod mv_let

end

text \<open>Preservation of a predicate is such a preorder.\<close>

definition keeps :: "('s \<Rightarrow> bool) \<Rightarrow> 's \<Rightarrow> 's \<Rightarrow> bool" where
  "keeps I s t \<longleftrightarrow> (I s \<longrightarrow> I t)"

interpretation keeps: state_preorder "keeps I" for I
  by unfold_locales (auto simp: keeps_def)

text \<open>So is leaving a field of the state as it was.\<close>

definition frames :: "('s \<Rightarrow> 'f) \<Rightarrow> 's \<Rightarrow> 's \<Rightarrow> bool" where
  "frames f s t \<longleftrightarrow> f t = f s"

interpretation frames: state_preorder "frames f" for f
  by unfold_locales (auto simp: frames_def)

lemma moves_keepsD: "moves (keeps I) m \<Longrightarrow> m s = (r, s') \<Longrightarrow> I s \<Longrightarrow> I s'"
  by (auto dest: movesD simp: keeps_def)

lemma moves_framesD: "moves (frames f) m \<Longrightarrow> m s = (r, s') \<Longrightarrow> f s' = f s"
  by (auto dest: movesD simp: frames_def)

subsection \<open>Stable sorting by a comparison\<close>

text \<open>
  \<open>Array.prototype.sort\<close> is stable. \<open>lt y x\<close> says that the comparator puts \<open>y\<close>
  strictly before \<open>x\<close>; an element moves past those that precede it strictly, and no other.
\<close>

fun insort_lt :: "('a \<Rightarrow> 'a \<Rightarrow> bool) \<Rightarrow> 'a \<Rightarrow> 'a list \<Rightarrow> 'a list" where
  "insort_lt lt x [] = [x]"
| "insort_lt lt x (y # ys) = (if lt y x then y # insort_lt lt x ys else x # y # ys)"

definition sort_lt :: "('a \<Rightarrow> 'a \<Rightarrow> bool) \<Rightarrow> 'a list \<Rightarrow> 'a list" where
  "sort_lt lt xs = foldr (insort_lt lt) xs []"

lemma set_insort_lt [simp]: "set (insort_lt lt x xs) = insert x (set xs)"
  by (induction xs) auto

lemma length_insort_lt [simp]: "length (insort_lt lt x xs) = Suc (length xs)"
  by (induction xs) auto

lemma distinct_insort_lt [simp]:
  "distinct (insort_lt lt x xs) \<longleftrightarrow> x \<notin> set xs \<and> distinct xs"
  by (induction xs) auto

lemma sort_lt_Nil [simp]: "sort_lt lt [] = []"
  by (simp add: sort_lt_def)

lemma sort_lt_Cons [simp]: "sort_lt lt (x # xs) = insort_lt lt x (sort_lt lt xs)"
  by (simp add: sort_lt_def)

lemma set_sort_lt [simp]: "set (sort_lt lt xs) = set xs"
  by (induction xs) auto

lemma length_sort_lt [simp]: "length (sort_lt lt xs) = length xs"
  by (induction xs) auto

lemma distinct_sort_lt [simp]: "distinct (sort_lt lt xs) = distinct xs"
  by (induction xs) auto

text \<open>A comparator given by a key of a linear order sorts by that key.\<close>

lemma sorted_insort_lt_key:
  fixes k :: "'a \<Rightarrow> 'k::linorder"
  assumes "\<And>x y. lt x y \<longleftrightarrow> k x < k y" and "sorted (map k xs)"
  shows "sorted (map k (insort_lt lt x xs))"
  using assms(2) by (induction xs) (auto simp: assms(1))

lemma sorted_sort_lt_key:
  fixes k :: "'a \<Rightarrow> 'k::linorder"
  assumes "\<And>x y. lt x y \<longleftrightarrow> k x < k y"
  shows "sorted (map k (sort_lt lt xs))"
  by (induction xs) (auto intro: sorted_insort_lt_key [OF assms])

text \<open>A key that tells the elements apart leaves one sorted order.\<close>

lemma sort_lt_key_unique:
  fixes k :: "'a \<Rightarrow> 'k::linorder"
  assumes lt: "\<And>x y. lt x y \<longleftrightarrow> k x < k y"
    and same: "set xs = set ys" and "distinct xs" "distinct ys" and inj: "inj_on k (set xs)"
  shows "sort_lt lt xs = sort_lt lt ys"
proof -
  have sx: "sorted (map k (sort_lt lt xs))" and sy: "sorted (map k (sort_lt lt ys))"
    by (rule sorted_sort_lt_key, rule lt)+
  have dx: "distinct (map k (sort_lt lt xs))" "distinct (map k (sort_lt lt ys))"
    using assms by (simp_all add: distinct_map)
  have "map k (sort_lt lt xs) = map k (sort_lt lt ys)"
    by (rule sorted_distinct_set_unique [OF sx dx(1) sy dx(2)]) (simp add: same)
  then show ?thesis using inj same by (auto intro: map_inj_on)
qed

subsection \<open>The earliest entry of each key wins\<close>

text \<open>The least second component paired with a key.\<close>

definition earliest_of :: "('k \<times> 'o::linorder) set \<Rightarrow> 'k \<Rightarrow> 'o option" where
  "earliest_of S k = (if \<exists>b. (k, b) \<in> S then Some (LEAST b. (k, b) \<in> S) else None)"

text \<open>
  Three parts of the program keep one record per repository out of a scan: the vote tally,
  the objection count, and the offline verifier. Each adds a row to a map when the row is
  acceptable and strictly earlier than the one held for its key. The interface states that
  step; what the scan computes is proved once here.
\<close>

locale earliest_wins =
  fixes start :: "'m"
    and add :: "'m \<Rightarrow> 'r \<Rightarrow> 'm"
    and held :: "'m \<Rightarrow> 'k \<Rightarrow> ('o::linorder \<times> 'v) option"
    and ok :: "'r \<Rightarrow> bool"
    and key :: "'r \<Rightarrow> 'k"
    and ord :: "'r \<Rightarrow> 'o"
    and val :: "'r \<Rightarrow> 'v"
  assumes held_start: "held start k = None"
    and held_add: "held (add m r) k =
      (if ok r \<and> key r = k \<and> (case held m k of None \<Rightarrow> True | Some (b, _) \<Rightarrow> ord r < b)
       then Some (ord r, val r) else held m k)"
begin

definition scan :: "'r list \<Rightarrow> 'm" where
  "scan rows = foldl add start rows"

lemma scan_snoc: "scan (rows @ [r]) = add (scan rows) r"
  by (simp add: scan_def)

lemma scan_Nil: "scan [] = start"
  by (simp add: scan_def)

lemma scan_None: "held (scan rows) k = None \<longleftrightarrow> (\<forall>r \<in> set rows. ok r \<longrightarrow> key r \<noteq> k)"
  by (induction rows rule: rev_induct)
     (auto simp: scan_Nil scan_snoc held_start held_add split: option.splits if_splits)

lemma scan_Some:
  assumes "held (scan rows) k = Some (b, v)"
  shows "(\<exists>r \<in> set rows. ok r \<and> key r = k \<and> ord r = b \<and> val r = v) \<and>
         (\<forall>r \<in> set rows. ok r \<and> key r = k \<longrightarrow> b \<le> ord r)"
  using assms
proof (induction rows arbitrary: b v rule: rev_induct)
  case Nil
  then show ?case by (simp add: scan_Nil held_start)
next
  case (snoc r rows)
  show ?case
  proof (cases "ok r \<and> key r = k")
    case False
    with snoc.prems have "held (scan rows) k = Some (b, v)"
      by (simp add: scan_snoc held_add split: if_splits)
    from snoc.IH [OF this] False show ?thesis by auto
  next
    case True
    show ?thesis
    proof (cases "held (scan rows) k")
      case None
      with True snoc.prems have "b = ord r" "v = val r" by (auto simp: scan_snoc held_add)
      moreover from None have "\<forall>r' \<in> set rows. ok r' \<longrightarrow> key r' \<noteq> k" by (simp add: scan_None)
      ultimately show ?thesis using True by auto
    next
      case (Some bv)
      obtain b' v' where bv: "bv = (b', v')" by (cases bv)
      from snoc.IH Some bv
      have ih: "(\<exists>r \<in> set rows. ok r \<and> key r = k \<and> ord r = b' \<and> val r = v') \<and>
        (\<forall>r \<in> set rows. ok r \<and> key r = k \<longrightarrow> b' \<le> ord r)" by simp
      from True Some bv snoc.prems
      have "(ord r < b' \<and> b = ord r \<and> v = val r) \<or> (\<not> ord r < b' \<and> b = b' \<and> v = v')"
        by (auto simp: scan_snoc held_add split: if_splits)
      then show ?thesis using ih True by force
    qed
  qed
qed

lemma scan_exists:
  assumes "r \<in> set rows" "ok r"
  shows "\<exists>b v. held (scan rows) (key r) = Some (b, v) \<and> b \<le> ord r"
proof (cases "held (scan rows) (key r)")
  case None
  with assms show ?thesis by (auto simp: scan_None)
next
  case (Some bv)
  then show ?thesis using scan_Some assms by (cases bv) blast
qed

text \<open>Two scans of the same rows in any order hold the same, if no two rows tie.\<close>

lemma scan_order_irrelevant:
  assumes same: "set rows = set rows'"
    and inj: "\<And>r r'. \<lbrakk>r \<in> set rows; r' \<in> set rows; ok r; ok r'; key r = key r'; ord r = ord r'\<rbrakk>
      \<Longrightarrow> val r = val r'"
  shows "held (scan rows) k = held (scan rows') k"
proof (cases "held (scan rows) k")
  case None
  with same show ?thesis by (metis scan_None)
next
  case (Some bv)
  obtain b v where bv: "bv = (b, v)" by (cases bv)
  from Some same have "held (scan rows') k \<noteq> None" by (metis option.simps(3) scan_None)
  then obtain b' v' where s': "held (scan rows') k = Some (b', v')" by auto
  from scan_Some Some bv
  obtain r where r: "r \<in> set rows" "ok r" "key r = k" "ord r = b" "val r = v"
    and least: "\<forall>r \<in> set rows. ok r \<and> key r = k \<longrightarrow> b \<le> ord r" by blast
  from scan_Some [OF s']
  obtain r' where r': "r' \<in> set rows'" "ok r'" "key r' = k" "ord r' = b'" "val r' = v'"
    and least': "\<forall>r \<in> set rows'. ok r \<and> key r = k \<longrightarrow> b' \<le> ord r" by blast
  have "b = b'" using r r' least least' same by (metis order_antisym)
  moreover have "v = v'" using inj [of r r'] r r' same calculation by simp
  ultimately show ?thesis using Some bv s' by simp
qed

lemma scan_order: "map_option fst (held (scan rows) k) = earliest_of {(key r, ord r) | r. r \<in> set rows \<and> ok r} k"
proof (cases "held (scan rows) k")
  case None
  then show ?thesis by (force simp: earliest_of_def scan_None)
next
  case (Some bv)
  obtain b v where bv: "bv = (b, v)" by (cases bv)
  from scan_Some Some bv have "(k, b) \<in> {(key r, ord r) | r. r \<in> set rows \<and> ok r}"
    and "\<forall>b'. (k, b') \<in> {(key r, ord r) | r. r \<in> set rows \<and> ok r} \<longrightarrow> b \<le> b'" by blast+
  then have "(LEAST b. (k, b) \<in> {(key r, ord r) | r. r \<in> set rows \<and> ok r}) = b"
    by (intro Least_equality) auto
  with \<open>(k, b) \<in> _\<close> Some bv show ?thesis by (auto simp: earliest_of_def)
qed

end

subsection \<open>Functions that may throw\<close>

fun bindE :: "'e + 'a \<Rightarrow> ('a \<Rightarrow> 'e + 'b) \<Rightarrow> 'e + 'b" where
  "bindE (Inl e) f = Inl e"
| "bindE (Inr x) f = f x"

fun foldE :: "('b \<Rightarrow> 'a \<Rightarrow> 'e + 'b) \<Rightarrow> 'b \<Rightarrow> 'a list \<Rightarrow> 'e + 'b" where
  "foldE f acc [] = Inr acc"
| "foldE f acc (x # xs) = bindE (f acc x) (\<lambda>acc'. foldE f acc' xs)"

lemma bindE_Inr_iff: "bindE m f = Inr y \<longleftrightarrow> (\<exists>x. m = Inr x \<and> f x = Inr y)"
  by (cases m) auto

subsection \<open>Insertion-ordered maps\<close>

text \<open>
  A JavaScript \<open>Map\<close> and the own properties of an object are association lists:
  setting a present key keeps its position, setting a new one appends
  (\<^const>\<open>AList.update\<close>).
\<close>

lemma map_of_update [simp]: "map_of (AList.update k v al) k' = (if k' = k then Some v else map_of al k')"
  by (simp add: AList.update_conv')

lemma map_of_foldl_update:
  "map_of (foldl (\<lambda>al (k, v). AList.update k v al) al kvs) k' =
   (case map_of (rev kvs) k' of None \<Rightarrow> map_of al k' | Some v \<Rightarrow> Some v)"
  by (induction kvs arbitrary: al) (auto simp: map_add_def split: option.split)

lemma distinct_keys_update [simp]:
  "distinct (map fst al) \<Longrightarrow> distinct (map fst (AList.update k v al))"
  by (rule AList.distinct_update)

lemma set_update_subset: "set (AList.update k v al) \<subseteq> insert (k, v) (set al)"
  by (induction al) auto

end
