(* ===== verification/JsValue.thy ===== *)
theory JsValue
  imports Complex_Main Prelude
begin

text \<open>
  The JavaScript values the program handles dynamically: records of the repositories are
  JSON (\<open>any\<close> in the source), so the code's \<open>typeof\<close>, \<open>Array.isArray\<close>,
  \<open>?.\<close>, \<open>||\<close>, \<open>??\<close> and spread expressions are translated literally.

  Numbers are the finite rationals with the two infinities and NaN; arithmetic on them is
  exact (double rounding is not modelled). Strings are sequences of code units.
  Objects are association lists of their own properties, in insertion order.
\<close>

subsection \<open>Values\<close>

datatype jnum = NaN | PInf | NInf | Fin rat

datatype jv =
    JUndef
  | JNull
  | JBool bool
  | JNum jnum
  | JStr string
  | JArr "jv list"
  | JObj "(string \<times> jv) list"

abbreviation jint :: "int \<Rightarrow> jv" where
  "jint i \<equiv> JNum (Fin (of_int i))"

abbreviation jnat :: "nat \<Rightarrow> jv" where
  "jnat n \<equiv> JNum (Fin (of_nat n))"

subsection \<open>Thrown values\<close>

datatype exn =
    TypeError string
  | RangeError
  | Failure string
  | Unapplicable string
  | HttpError nat string string

fun exn_message :: "exn \<Rightarrow> string" where
  "exn_message (TypeError m) = m"
| "exn_message RangeError = ''Invalid time value''"
| "exn_message (Failure m) = m"
| "exn_message (Unapplicable m) = m"
| "exn_message (HttpError _ _ m) = m"

subsection \<open>Type tests and truthiness\<close>

fun is_str :: "jv \<Rightarrow> bool" where
  "is_str (JStr _) = True"
| "is_str _ = False"

fun is_num :: "jv \<Rightarrow> bool" where
  "is_num (JNum _) = True"
| "is_num _ = False"

fun is_bool :: "jv \<Rightarrow> bool" where
  "is_bool (JBool _) = True"
| "is_bool _ = False"

fun is_array :: "jv \<Rightarrow> bool" where
  "is_array (JArr _) = True"
| "is_array _ = False"

text \<open>\<open>typeof v === 'object'\<close> holds of \<open>null\<close> and of arrays too.\<close>

fun typeof_object :: "jv \<Rightarrow> bool" where
  "typeof_object (JArr _) = True"
| "typeof_object (JObj _) = True"
| "typeof_object JNull = True"
| "typeof_object _ = False"

fun is_obj :: "jv \<Rightarrow> bool" where
  "is_obj (JObj _) = True"
| "is_obj _ = False"

fun truthy :: "jv \<Rightarrow> bool" where
  "truthy JUndef = False"
| "truthy JNull = False"
| "truthy (JBool b) = b"
| "truthy (JNum NaN) = False"
| "truthy (JNum (Fin q)) = (q \<noteq> 0)"
| "truthy (JNum _) = True"
| "truthy (JStr s) = (s \<noteq> [])"
| "truthy (JArr _) = True"
| "truthy (JObj _) = True"

fun nullish :: "jv \<Rightarrow> bool" where
  "nullish JUndef = True"
| "nullish JNull = True"
| "nullish _ = False"

definition js_or :: "jv \<Rightarrow> jv \<Rightarrow> jv" where
  "js_or a b = (if truthy a then a else b)"

definition js_nullish :: "jv \<Rightarrow> jv \<Rightarrow> jv" where
  "js_nullish a b = (if nullish a then b else a)"

lemma is_str_iff: "is_str v \<longleftrightarrow> (\<exists>s. v = JStr s)" by (cases v) auto
lemma is_num_iff: "is_num v \<longleftrightarrow> (\<exists>n. v = JNum n)" by (cases v) auto
lemma is_array_iff: "is_array v \<longleftrightarrow> (\<exists>xs. v = JArr xs)" by (cases v) auto
lemma is_obj_iff: "is_obj v \<longleftrightarrow> (\<exists>ps. v = JObj ps)" by (cases v) auto

lemma is_obj_alt: "is_obj v \<longleftrightarrow> truthy v \<and> typeof_object v \<and> \<not> is_array v"
  by (cases v) auto

subsection \<open>Properties\<close>

text \<open>
  \<open>v?.k\<close>: the own property \<open>k\<close>, \<open>undefined\<close> when there is none and when \<open>v\<close> is
  not an object. Properties inherited from a prototype are outside the model.
\<close>

fun jget :: "jv \<Rightarrow> string \<Rightarrow> jv" where
  "jget (JObj ps) k = (case map_of ps k of None \<Rightarrow> JUndef | Some v \<Rightarrow> v)"
| "jget _ k = JUndef"

text \<open>\<open>v.k\<close> throws on \<open>null\<close> and \<open>undefined\<close>.\<close>

definition jdot :: "jv \<Rightarrow> string \<Rightarrow> exn + jv" where
  "jdot v k = (if nullish v then Inl (TypeError ''Cannot read properties'') else Inr (jget v k))"

fun entries :: "jv \<Rightarrow> (string \<times> jv) list" where
  "entries (JObj ps) = ps"
| "entries _ = []"

text \<open>\<open>{ ...v, k1: x1, k2: x2 }\<close>.\<close>

definition jassign :: "jv \<Rightarrow> (string \<times> jv) list \<Rightarrow> jv" where
  "jassign v kvs = JObj (foldl (\<lambda>al (k, x). AList.update k x al) (entries v) kvs)"

text \<open>\<open>...(c ? { k: x } : {})\<close> inside an object literal.\<close>

definition opt_field :: "bool \<Rightarrow> string \<Rightarrow> jv \<Rightarrow> (string \<times> jv) list" where
  "opt_field c k x = (if c then [(k, x)] else [])"

definition str_or_null :: "string option \<Rightarrow> jv" where
  "str_or_null o' = (case o' of None \<Rightarrow> JNull | Some s \<Rightarrow> JStr s)"

lemma opt_field_simps [simp]:
  "opt_field True k x = [(k, x)]" "opt_field False k x = []"
  by (simp_all add: opt_field_def)

lemma jget_entries: "jget v k = (case map_of (entries v) k of None \<Rightarrow> JUndef | Some x \<Rightarrow> x)"
  by (cases v) simp_all

lemma jget_jassign:
  "jget (jassign v kvs) k = (case map_of (rev kvs) k of None \<Rightarrow> jget v k | Some x \<Rightarrow> x)"
  by (simp add: jassign_def map_of_foldl_update jget_entries split: option.split)

lemma jget_jassign_Nil [simp]: "jget (jassign v []) k = jget v k"
  by (simp add: jget_jassign)

lemma jget_jassign_Cons [simp]:
  "jget (jassign v ((k, x) # kvs)) k' =
   (case map_of (rev kvs) k' of None \<Rightarrow> (if k' = k then x else jget v k') | Some y \<Rightarrow> y)"
  by (simp add: jget_jassign map_add_def split: option.split)

lemma jassign_is_obj [simp]: "is_obj (jassign v kvs)"
  by (simp add: jassign_def)

lemma jassign_truthy [simp]: "truthy (jassign v kvs)"
  by (simp add: jassign_def)

lemma jget_nonobj: "\<not> is_obj v \<Longrightarrow> jget v k = JUndef"
  by (cases v) simp_all

subsection \<open>Arrays\<close>

text \<open>
  \<open>Array.isArray(v) ? v : []\<close>, \<open>[...v]\<close> and \<open>v.includes(s)\<close> for a string \<open>s\<close>;
  spreading or searching a string works on its characters, anything else throws.
\<close>

fun arr_or_nil :: "jv \<Rightarrow> jv list" where
  "arr_or_nil (JArr xs) = xs"
| "arr_or_nil _ = []"

fun js_spread :: "jv \<Rightarrow> exn + jv list" where
  "js_spread (JArr xs) = Inr xs"
| "js_spread (JStr s) = Inr (map (\<lambda>c. JStr [c]) s)"
| "js_spread _ = Inl (TypeError ''not iterable'')"

fun is_substring :: "string \<Rightarrow> string \<Rightarrow> bool" where
  "is_substring p [] = (p = [])"
| "is_substring p (c # s) = (take (length p) (c # s) = p \<or> is_substring p s)"

fun js_includes :: "jv \<Rightarrow> string \<Rightarrow> exn + bool" where
  "js_includes (JArr xs) s = Inr (JStr s \<in> set xs)"
| "js_includes (JStr t) s = Inr (is_substring s t)"
| "js_includes _ s = Inl (TypeError ''includes is not a function'')"

text \<open>\<open>v?.includes(s)\<close> as a condition: \<open>undefined\<close> is falsy.\<close>

definition opt_includes :: "jv \<Rightarrow> string \<Rightarrow> exn + bool" where
  "opt_includes v s = (if nullish v then Inr False else js_includes v s)"

text \<open>The strings among the elements: \<open>chain.filter((c): c is string => ...)\<close>.\<close>

fun strings_of :: "jv list \<Rightarrow> string list" where
  "strings_of [] = []"
| "strings_of (JStr s # xs) = s # strings_of xs"
| "strings_of (_ # xs) = strings_of xs"

lemma set_strings_of: "s \<in> set (strings_of xs) \<longleftrightarrow> JStr s \<in> set xs"
  by (induction xs rule: strings_of.induct) auto

lemma strings_of_map_JStr [simp]: "strings_of (map JStr ss) = ss"
  by (induction ss) auto

subsection \<open>Numbers\<close>

definition is_finite :: "jv \<Rightarrow> bool" where
  "is_finite v = (case v of JNum (Fin _) \<Rightarrow> True | _ \<Rightarrow> False)"

definition is_integer :: "jv \<Rightarrow> bool" where
  "is_integer v = (case v of JNum (Fin q) \<Rightarrow> of_int \<lfloor>q\<rfloor> = q | _ \<Rightarrow> False)"

fun num_lt :: "jnum \<Rightarrow> jnum \<Rightarrow> bool" where
  "num_lt NaN _ = False"
| "num_lt _ NaN = False"
| "num_lt (Fin a) (Fin b) = (a < b)"
| "num_lt NInf NInf = False"
| "num_lt NInf _ = True"
| "num_lt _ PInf = True"
| "num_lt _ _ = False"

fun num_le :: "jnum \<Rightarrow> jnum \<Rightarrow> bool" where
  "num_le NaN _ = False"
| "num_le _ NaN = False"
| "num_le a b = (\<not> num_lt b a)"

lemma num_lt_Fin [simp]: "num_lt (Fin a) n \<longleftrightarrow> n = PInf \<or> (\<exists>b. n = Fin b \<and> a < b)"
  by (cases n) auto

lemma is_integer_jnat [simp]: "is_integer (jnat n)"
  by (simp add: is_integer_def)

subsection \<open>Numbers read out of other values\<close>

text \<open>
  A comparison such as \<open>votes < quorum\<close> converts its operands with \<open>ToNumber\<close>.
  A string is a numeric literal with surrounding white space, or NaN.
\<close>

fun digit :: "char \<Rightarrow> nat option" where
  "digit c = (let n = of_char c in if 48 \<le> n \<and> n \<le> (57::nat) then Some (n - 48) else None)"

fun digits_value :: "string \<Rightarrow> nat option" where
  "digits_value cs = foldl (\<lambda>acc c. case (acc, digit c) of (Some a, Some d) \<Rightarrow> Some (10 * a + d) | _ \<Rightarrow> None)
     (Some 0) cs"

definition is_space :: "char \<Rightarrow> bool" where
  "is_space c = (let n = of_char c :: nat in n = 32 \<or> n = 160 \<or> (9 \<le> n \<and> n \<le> 13))"

definition js_trim :: "string \<Rightarrow> string" where
  "js_trim s = rev (dropWhile is_space (rev (dropWhile is_space s)))"

definition is_digit :: "char \<Rightarrow> bool" where
  "is_digit c = (digit c \<noteq> None)"

text \<open>The exponent part \<open>e+12\<close>, and the fraction part before it.\<close>

definition exponent_value :: "string \<Rightarrow> int option" where
  "exponent_value cs = (case cs of
      [] \<Rightarrow> Some 0
    | e # r \<Rightarrow>
        if e = CHR ''e'' \<or> e = CHR ''E'' then
          (case r of
             CHR ''+'' # d # ds \<Rightarrow> map_option int (digits_value (d # ds))
           | CHR ''-'' # d # ds \<Rightarrow> map_option (\<lambda>n. - int n) (digits_value (d # ds))
           | d # ds \<Rightarrow> map_option int (digits_value (d # ds))
           | [] \<Rightarrow> None)
        else None)"

definition pow10 :: "int \<Rightarrow> rat" where
  "pow10 i = (if 0 \<le> i then 10 ^ nat i else 1 / 10 ^ nat (- i))"

definition decimal_value :: "string \<Rightarrow> rat option" where
  "decimal_value cs = (let
      whole = takeWhile is_digit cs; r = dropWhile is_digit cs;
      frac = (case r of CHR ''.'' # t \<Rightarrow> takeWhile is_digit t | _ \<Rightarrow> []);
      r' = (case r of CHR ''.'' # t \<Rightarrow> dropWhile is_digit t | _ \<Rightarrow> r)
    in if whole = [] \<and> frac = [] then None
       else (case (digits_value (whole @ frac), exponent_value r') of
          (Some m, Some e) \<Rightarrow> Some (of_nat m * pow10 (e - int (length frac)))
        | _ \<Rightarrow> None))"

fun radix_digit :: "nat \<Rightarrow> char \<Rightarrow> nat option" where
  "radix_digit b c = (let n = of_char c;
      d = (if 48 \<le> n \<and> n \<le> 57 then n - 48 else if 97 \<le> n \<and> n \<le> 102 then n - 87
           else if 65 \<le> n \<and> n \<le> (70::nat) then n - 55 else b)
    in if d < b then Some d else None)"

definition radix_value :: "nat \<Rightarrow> string \<Rightarrow> jnum" where
  "radix_value b cs = (if cs = [] then NaN else
     (case foldl (\<lambda>acc c. case (acc, radix_digit b c) of (Some a, Some d) \<Rightarrow> Some (b * a + d) | _ \<Rightarrow> None)
        (Some 0) cs of None \<Rightarrow> NaN | Some n \<Rightarrow> Fin (of_nat n)))"

definition unsigned_value :: "string \<Rightarrow> jnum" where
  "unsigned_value cs = (if cs = ''Infinity'' then PInf
     else case decimal_value cs of None \<Rightarrow> NaN | Some q \<Rightarrow> Fin q)"

fun num_neg :: "jnum \<Rightarrow> jnum" where
  "num_neg (Fin q) = Fin (- q)"
| "num_neg PInf = NInf"
| "num_neg NInf = PInf"
| "num_neg NaN = NaN"

definition string_number :: "string \<Rightarrow> jnum" where
  "string_number s = (case js_trim s of
      [] \<Rightarrow> Fin 0
    | CHR ''+'' # r \<Rightarrow> unsigned_value r
    | CHR ''-'' # r \<Rightarrow> num_neg (unsigned_value r)
    | CHR ''0'' # x # r \<Rightarrow>
        if x = CHR ''x'' \<or> x = CHR ''X'' then radix_value 16 r
        else if x = CHR ''o'' \<or> x = CHR ''O'' then radix_value 8 r
        else if x = CHR ''b'' \<or> x = CHR ''B'' then radix_value 2 r
        else unsigned_value (CHR ''0'' # x # r)
    | r \<Rightarrow> unsigned_value r)"

text \<open>
  An array converts through its comma-separated string: empty is 0, one element is that
  element's string read as a number, two or more hold a comma and are NaN. Any other object
  is NaN.
\<close>

fun elem_number :: "jv \<Rightarrow> jnum" where
  "elem_number JUndef = Fin 0"
| "elem_number JNull = Fin 0"
| "elem_number (JBool _) = NaN"
| "elem_number (JNum n) = n"
| "elem_number (JStr s) = string_number s"
| "elem_number (JArr []) = Fin 0"
| "elem_number (JArr [x]) = elem_number x"
| "elem_number (JArr (_ # _ # _)) = NaN"
| "elem_number (JObj _) = NaN"

fun to_number :: "jv \<Rightarrow> jnum" where
  "to_number JUndef = NaN"
| "to_number JNull = Fin 0"
| "to_number (JBool b) = (if b then Fin 1 else Fin 0)"
| "to_number v = elem_number v"

text \<open>\<open>n < v\<close> and \<open>n >= v\<close> for a count \<open>n\<close>.\<close>

definition count_lt :: "nat \<Rightarrow> jv \<Rightarrow> bool" where
  "count_lt n v = num_lt (Fin (of_nat n)) (to_number v)"

definition count_ge :: "nat \<Rightarrow> jv \<Rightarrow> bool" where
  "count_ge n v = num_le (to_number v) (Fin (of_nat n))"

lemma count_lt_jnat [simp]: "count_lt n (jnat q) \<longleftrightarrow> n < q"
  by (simp add: count_lt_def)

lemma count_ge_jnat [simp]: "count_ge n (jnat q) \<longleftrightarrow> q \<le> n"
  by (simp add: count_ge_def not_less)

lemma count_lt_Fin: "count_lt n (JNum (Fin q)) \<longleftrightarrow> of_nat n < q"
  by (simp add: count_lt_def)

lemma count_ge_Fin: "count_ge n (JNum (Fin q)) \<longleftrightarrow> q \<le> of_nat n"
  by (simp add: count_ge_def not_less)

end
