(* ===== verification/JsDate.thy ===== *)
theory JsDate
  imports JsValue
begin

text \<open>
  \<open>Date.prototype.toISOString\<close> and the arithmetic of instants. The program compares
  timestamps as strings; the last lemmas show that for the years 0 to 9999 this is the
  order of the instants, and where it stops being so.
\<close>

subsection \<open>The calendar\<close>

text \<open>Days from 1 January of year 0 to 1 January of year \<open>y\<close> (proleptic Gregorian).\<close>

definition year_start :: "int \<Rightarrow> int" where
  "year_start y = 365 * y + (y + 3) div 4 - (y + 99) div 100 + (y + 399) div 400"

definition leap :: "int \<Rightarrow> bool" where
  "leap y = (y mod 4 = 0 \<and> (y mod 100 \<noteq> 0 \<or> y mod 400 = 0))"

definition year_of_day :: "int \<Rightarrow> int" where
  "year_of_day z = (let y = (z * 400) div 146097 in
     if year_start (y + 1) \<le> z then y + 1 else if z < year_start y then y - 1 else y)"

text \<open>Days before the month \<open>m\<close> (from 1) of a year.\<close>

definition month_start :: "bool \<Rightarrow> nat \<Rightarrow> int" where
  "month_start l m = [0, 31, 59, 90, 120, 151, 181, 212, 243, 273, 304, 334] ! (m - 1)
     + (if l \<and> 3 \<le> m then 1 else 0)"

definition month_of_day :: "bool \<Rightarrow> int \<Rightarrow> nat" where
  "month_of_day l d = length (filter (\<lambda>m. month_start l m \<le> d) [1..<13])"

lemma ceil_div:
  assumes "0 < (c::int)" and "k = c - 1"
  shows "(y + k) div c = y div c + (if y mod c = 0 then 0 else 1)"
proof (cases "y mod c = 0")
  case True
  have "y + k = c * (y div c) + k" using True div_mult_mod_eq [of y c] by (simp add: mult.commute)
  then have "(y + k) div c = y div c" by (rule int_div_pos_eq) (use assms in auto)
  with True show ?thesis by simp
next
  case False
  have r: "0 \<le> y mod c" "y mod c < c" using assms by simp_all
  have "y + k = c * (y div c + 1) + (y mod c - 1)"
    using div_mult_mod_eq [of y c] assms(2) by (simp add: algebra_simps)
  then have "(y + k) div c = y div c + 1" by (rule int_div_pos_eq) (use r False in auto)
  with False show ?thesis by simp
qed

lemma div_next:
  assumes "0 < (c::int)" and "k = c - 1"
  shows "(y + 1 + k) div c = y div c + 1"
proof -
  have "y + 1 + k = c * (y div c + 1) + y mod c"
    using div_mult_mod_eq [of y c] assms(2) by (simp add: algebra_simps)
  then show ?thesis by (rule int_div_pos_eq) (use assms in auto)
qed

lemma year_start_Suc: "year_start (y + 1) = year_start y + (if leap y then 366 else 365)"
proof -
  have c: "(y + 3) div 4 = y div 4 + (if y mod 4 = 0 then 0 else 1)"
    "(y + 99) div 100 = y div 100 + (if y mod 100 = 0 then 0 else 1)"
    "(y + 399) div 400 = y div 400 + (if y mod 400 = 0 then 0 else 1)"
    by (rule ceil_div; simp)+
  have d: "(y + 1 + 3) div 4 = y div 4 + 1" "(y + 1 + 99) div 100 = y div 100 + 1"
    "(y + 1 + 399) div 400 = y div 400 + 1"
    by (rule div_next; simp)+
  have "y mod 400 mod 100 = y mod 100" and "y mod 100 mod 4 = y mod 4"
    by (simp_all add: mod_mod_cancel)
  then have "y mod 400 = 0 \<Longrightarrow> y mod 100 = 0" and "y mod 100 = 0 \<Longrightarrow> y mod 4 = 0"
    by (metis mod_0)+
  then show ?thesis
    unfolding year_start_def leap_def c d
    by (cases "y mod 4 = 0"; cases "y mod 100 = 0"; cases "y mod 400 = 0") simp_all
qed

text \<open>400 years have 146097 days, so the estimate of \<open>year_of_day\<close> is off by at most one.\<close>

lemma floor_bounds:
  "0 < (c::int) \<Longrightarrow> (x div c) * c \<le> x \<and> x < (x div c) * c + c"
  using div_mult_mod_eq [of x c] pos_mod_bound [of c x] pos_mod_sign [of c x] by linarith

lemma year_start_estimate:
  "146097 * y - 396 \<le> 400 * year_start y \<and> 400 * year_start y \<le> 146097 * y + 699"
proof -
  define a b c where "a = (y + 3) div 4" and "b = (y + 99) div 100" and "c = (y + 399) div 400"
  have "a * 4 \<le> y + 3" "y + 3 < a * 4 + 4" "b * 100 \<le> y + 99" "y + 99 < b * 100 + 100"
    "c * 400 \<le> y + 399" "y + 399 < c * 400 + 400"
    using floor_bounds [of 4 "y + 3"] floor_bounds [of 100 "y + 99"] floor_bounds [of 400 "y + 399"]
    by (simp_all add: a_def b_def c_def)
  moreover have "year_start y = 365 * y + a - b + c"
    by (simp add: year_start_def a_def b_def c_def)
  ultimately show ?thesis by (simp add: algebra_simps)
qed

lemma year_start_step: "year_start y < year_start (y + 1)"
  by (simp add: year_start_Suc)

lemma year_start_mono_nat: "year_start y + int n \<le> year_start (y + int n)"
proof (induction n)
  case (Suc n)
  have "year_start (y + int n) < year_start (y + int n + 1)" by (rule year_start_step)
  with Suc show ?case by (simp add: algebra_simps)
qed simp

lemma year_start_mono: "y \<le> y' \<Longrightarrow> year_start y \<le> year_start y'"
  using year_start_mono_nat [of y "nat (y' - y)"] by simp

lemma year_of_day_bounds:
  "year_start (year_of_day z) \<le> z \<and> z < year_start (year_of_day z + 1)"
proof -
  define y where "y = (z * 400) div 146097"
  have "z * 400 = y * 146097 + (z * 400) mod 146097" unfolding y_def by simp
  then have y1: "y * 146097 \<le> z * 400" and y2: "z * 400 < y * 146097 + 146097"
    using pos_mod_bound [of 146097 "z * 400"] pos_mod_sign [of 146097 "z * 400"] by linarith+
  have "400 * year_start (y - 1) \<le> 146097 * y - 145398"
    using year_start_estimate [of "y - 1"] by (simp add: algebra_simps)
  then have lo: "year_start (y - 1) \<le> z" using y1 by linarith
  have "146097 * y + 291798 \<le> 400 * year_start (y + 2)"
    using year_start_estimate [of "y + 2"] by (simp add: algebra_simps)
  then have hi: "z < year_start (y + 2)" using y2 by linarith
  show ?thesis
    using lo hi unfolding year_of_day_def Let_def y_def [symmetric] by (auto simp: algebra_simps)
qed

text \<open>The date \<open>(year, month, day)\<close> of a day number counted from 1 January of year 0.\<close>

definition civil :: "int \<Rightarrow> int \<times> nat \<times> int" where
  "civil z = (let y = year_of_day z; d = z - year_start y; m = month_of_day (leap y) d
     in (y, m, d - month_start (leap y) m + 1))"

lemma month_of_day_cases:
  assumes "0 \<le> d" "d < (if l then 366 else 365)"
  shows "1 \<le> month_of_day l d \<and> month_of_day l d \<le> 12 \<and>
    month_start l (month_of_day l d) \<le> d \<and>
    (month_of_day l d < 12 \<longrightarrow> d < month_start l (month_of_day l d + 1))"
  using assms unfolding month_of_day_def
  by (cases l) (simp_all add: upt_conv_Cons month_start_def)

lemma month_start_next:
  assumes "1 \<le> m" "m < 12"
  shows "month_start l m \<le> month_start l (Suc m) \<and> month_start l (Suc m) \<le> month_start l m + 31"
proof -
  have "\<forall>m \<in> set [1..<12]. month_start l m \<le> month_start l (Suc m) \<and>
      month_start l (Suc m) \<le> month_start l m + 31"
    by (cases l) (simp_all add: upt_conv_Cons month_start_def)
  with assms show ?thesis by simp
qed

lemma month_start_mono:
  "m \<le> m' \<Longrightarrow> 1 \<le> m \<Longrightarrow> m' \<le> 12 \<Longrightarrow> month_start l m \<le> month_start l m'"
proof (induction m' rule: dec_induct)
  case (step k)
  with month_start_next [of k l] show ?case by simp
qed simp

lemma civil_day_range:
  assumes "civil z = (y, m, d)"
  shows "1 \<le> m \<and> m \<le> 12 \<and> 1 \<le> d \<and> d \<le> 31 \<and> y = year_of_day z"
proof -
  define l e where "l = leap (year_of_day z)" and "e = z - year_start (year_of_day z)"
  have e: "0 \<le> e" "e < (if l then 366 else 365)"
    using year_of_day_bounds [of z] by (auto simp: e_def l_def year_start_Suc)
  have m: "m = month_of_day l e" and d: "d = e - month_start l m + 1" and y: "y = year_of_day z"
    using assms by (auto simp: civil_def Let_def l_def e_def)
  from month_of_day_cases [OF e] m
  have c: "1 \<le> m" "m \<le> 12" "month_start l m \<le> e" "m < 12 \<longrightarrow> e < month_start l (m + 1)" by simp_all
  have "m < 12 \<longrightarrow> month_start l (m + 1) \<le> month_start l m + 31"
    using month_start_next [of m l] c by simp
  moreover have "e \<le> month_start l 12 + 30" using e by (cases l) (simp_all add: month_start_def)
  ultimately have "d \<le> 31" using c d by (cases "m = 12") force+
  with c d y show ?thesis by simp
qed

text \<open>A later day has a lexicographically later date.\<close>

lemma civil_less:
  assumes "z < z'" and c: "civil z = (y, m, d)" and c': "civil z' = (y', m', d')"
  shows "y < y' \<or> y = y' \<and> (m < m' \<or> m = m' \<and> d < d')"
proof -
  have y: "y = year_of_day z" and y': "y' = year_of_day z'"
    using c c' by (auto simp: civil_def Let_def)
  have b: "year_start y \<le> z" "z < year_start (y + 1)" "year_start y' \<le> z'" "z' < year_start (y' + 1)"
    using year_of_day_bounds y y' by simp_all
  have "\<not> y' < y" using year_start_mono [of "y' + 1" y] b assms(1) by auto
  moreover have "m < m' \<or> m = m' \<and> d < d'" if eq: "y = y'"
  proof -
    define l e e' where "l = leap y" and "e = z - year_start y" and "e' = z' - year_start y"
    have e: "0 \<le> e" "e < (if l then 366 else 365)" "0 \<le> e'" "e' < (if l then 366 else 365)"
      and ee: "e < e'"
      using b eq assms(1) by (auto simp: e_def e'_def l_def year_start_Suc)
    have m: "m = month_of_day l e" "m' = month_of_day l e'"
      and d: "d = e - month_start l m + 1" "d' = e' - month_start l m' + 1"
      using c c' eq by (auto simp: civil_def Let_def l_def e_def e'_def)
    note M = month_of_day_cases [OF e(1,2)] month_of_day_cases [OF e(3,4)]
    have "\<not> m' < m"
    proof
      assume lt: "m' < m"
      then have "e' < month_start l (m' + 1)" using M m by simp
      also have "\<dots> \<le> month_start l m" using lt M m by (intro month_start_mono) auto
      also have "\<dots> \<le> e" using M m by simp
      finally show False using ee by simp
    qed
    with ee d show ?thesis by auto
  qed
  ultimately show ?thesis by auto
qed

subsection \<open>Fixed-width decimals\<close>

definition digit_char :: "nat \<Rightarrow> char" where
  "digit_char k = char_of (48 + k)"

fun dec :: "nat \<Rightarrow> nat \<Rightarrow> string" where
  "dec 0 n = []"
| "dec (Suc w) n = dec w (n div 10) @ [digit_char (n mod 10)]"

lemma length_dec [simp]: "length (dec w n) = w"
  by (induction w arbitrary: n) auto

lemma digit_char_less: "a < 10 \<Longrightarrow> b < 10 \<Longrightarrow> digit_char a < digit_char b \<longleftrightarrow> a < b"
  by (simp add: digit_char_def less_char_def)

lemma digit_char_eq: "a < 10 \<Longrightarrow> b < 10 \<Longrightarrow> digit_char a = digit_char b \<longleftrightarrow> a = b"
  by (metis digit_char_less less_irrefl linorder_neqE_nat)

lemma div_mod_less:
  fixes n m b :: nat
  assumes "0 < b"
  shows "n < m \<longleftrightarrow> n div b < m div b \<or> n div b = m div b \<and> n mod b < m mod b"
proof -
  have n: "n = b * (n div b) + n mod b" and m: "m = b * (m div b) + m mod b" by simp_all
  have lt: "x div b < y div b \<Longrightarrow> x < y" for x y using div_le_mono [of y x b] by linarith
  consider "n div b < m div b" | "m div b < n div b" | "n div b = m div b" by linarith
  then show ?thesis
  proof cases
    case 3
    then have "n < m \<longleftrightarrow> n mod b < m mod b" using n m by (metis nat_add_left_cancel_less)
    with 3 show ?thesis by simp
  qed (use lt [of n m] lt [of m n] in auto)
qed

lemma div_mod_eq:
  fixes n m b :: nat
  shows "n = m \<longleftrightarrow> n div b = m div b \<and> n mod b = m mod b"
  by (metis div_mult_mod_eq)

lemma dec_less:
  "n < 10 ^ w \<Longrightarrow> m < 10 ^ w \<Longrightarrow>
   dec w n @ xs < dec w m @ ys \<longleftrightarrow> n < m \<or> n = m \<and> xs < ys"
proof (induction w arbitrary: n m xs ys)
  case 0
  then show ?case by simp
next
  case (Suc w)
  let ?c = "digit_char (n mod 10)" and ?c' = "digit_char (m mod 10)"
  have lim: "n div 10 < 10 ^ w" "m div 10 < 10 ^ w"
    using Suc.prems by (simp_all add: less_mult_imp_div_less)
  have "dec (Suc w) n @ xs < dec (Suc w) m @ ys \<longleftrightarrow>
    dec w (n div 10) @ (?c # xs) < dec w (m div 10) @ (?c' # ys)" by simp
  also have "\<dots> \<longleftrightarrow> n div 10 < m div 10 \<or> n div 10 = m div 10 \<and> ?c # xs < ?c' # ys"
    by (rule Suc.IH [OF lim])
  also have "?c # xs < ?c' # ys \<longleftrightarrow> n mod 10 < m mod 10 \<or> n mod 10 = m mod 10 \<and> xs < ys"
    by (simp add: digit_char_less digit_char_eq)
  also have "n div 10 < m div 10 \<or> n div 10 = m div 10 \<and>
      (n mod 10 < m mod 10 \<or> n mod 10 = m mod 10 \<and> xs < ys) \<longleftrightarrow> n < m \<or> n = m \<and> xs < ys"
    using div_mod_less [of 10 n m] div_mod_eq [of n m 10] by auto
  finally show ?case .
qed

lemma digits_value_snoc:
  "digits_value (cs @ [c]) = (case (digits_value cs, digit c) of (Some a, Some d) \<Rightarrow> Some (10 * a + d) | _ \<Rightarrow> None)"
  by simp

lemma digit_digit_char: "k < 10 \<Longrightarrow> digit (digit_char k) = Some k"
  by (simp add: digit_char_def Let_def)

lemma digits_value_dec: "n < 10 ^ w \<Longrightarrow> digits_value (dec w n) = Some n"
proof (induction w arbitrary: n)
  case (Suc w)
  then have "n div 10 < 10 ^ w" by (simp add: less_mult_imp_div_less)
  with Suc.IH have "digits_value (dec w (n div 10)) = Some (n div 10)" by blast
  then show ?case
    unfolding dec.simps digits_value_snoc by (simp add: digit_digit_char del: digit.simps digits_value.simps)
qed simp

subsection \<open>toISOString\<close>

definition ms_per_day :: int where "ms_per_day = 86400000"

text \<open>The day number of 1 January 1970.\<close>

definition epoch_day :: int where "epoch_day = 719528"

definition year_part :: "int \<Rightarrow> string" where
  "year_part y = (if 0 \<le> y \<and> y \<le> 9999 then dec 4 (nat y)
     else (if y < 0 then CHR ''-'' else CHR ''+'') # dec 6 (nat \<bar>y\<bar>))"

definition time_part :: "int \<Rightarrow> string" where
  "time_part r = dec 2 (nat (r div 3600000)) @ '':'' @ dec 2 (nat (r div 60000 mod 60)) @ '':''
     @ dec 2 (nat (r div 1000 mod 60)) @ ''.'' @ dec 3 (nat (r mod 1000)) @ ''Z''"

definition iso :: "int \<Rightarrow> string" where
  "iso t = (let (y, m, d) = civil (t div ms_per_day + epoch_day)
     in year_part y @ ''-'' @ dec 2 m @ ''-'' @ dec 2 (nat d) @ ''T'' @ time_part (t mod ms_per_day))"

text \<open>An instant out of the range of \<open>Date\<close> is invalid, and \<open>toISOString\<close> throws on it.\<close>

definition max_instant :: int where "max_instant = 8640000000000000"

definition to_iso :: "int \<Rightarrow> exn + string" where
  "to_iso t = (if \<bar>t\<bar> \<le> max_instant then Inr (iso t) else Inl RangeError)"

text \<open>\<open>new Date(x)\<close> of a number truncates towards zero.\<close>

definition trunc :: "rat \<Rightarrow> int" where
  "trunc q = (if 0 \<le> q then \<lfloor>q\<rfloor> else \<lceil>q\<rceil>)"

definition date_of_num :: "jnum \<Rightarrow> int option" where
  "date_of_num n = (case n of Fin q \<Rightarrow> (if \<bar>trunc q\<bar> \<le> max_instant then Some (trunc q) else None) | _ \<Rightarrow> None)"

definition num_to_iso :: "jnum \<Rightarrow> exn + string" where
  "num_to_iso n = (case date_of_num n of None \<Rightarrow> Inl RangeError | Some t \<Rightarrow> Inr (iso t))"

text \<open>
  Reading back the strings \<open>toISOString\<close> writes for the years 0 to 9999. How
  \<open>Date.parse\<close> reads other strings is left to the implementation.
\<close>

definition iso_parse :: "string \<Rightarrow> int option" where
  "iso_parse s = (if length s \<noteq> 24 then None else
     (case map digits_value [take 4 s, take 2 (drop 5 s), take 2 (drop 8 s), take 2 (drop 11 s),
        take 2 (drop 14 s), take 2 (drop 17 s), take 3 (drop 20 s)] of
        [Some y, Some m, Some d, Some h, Some mi, Some sec, Some ms] \<Rightarrow>
          let t = (year_start (int y) + month_start (leap (int y)) m + int d - 1 - epoch_day) * ms_per_day
            + ((int h * 60 + int mi) * 60 + int sec) * 1000 + int ms
          in if iso t = s then Some t else None
      | _ \<Rightarrow> None))"

subsection \<open>The order of the strings is the order of the instants\<close>

definition min_4digit :: int where "min_4digit = -62167219200000"
definition max_4digit :: int where "max_4digit = 253402300800000"

lemma time_part_less:
  assumes "0 \<le> r" "r < ms_per_day" "0 \<le> r'" "r' < ms_per_day"
  shows "time_part r < time_part r' \<longleftrightarrow> r < r'"
proof -
  define n n' where "n = nat r" and "n' = nat r'"
  have r: "r = int n" "r' = int n'" using assms by (simp_all add: n_def n'_def)
  have lim: "n < 86400000" "n' < 86400000" using assms by (simp_all add: r ms_per_day_def)
  have conv: "nat (int k div 3600000) = k div 3600000" "nat (int k div 60000 mod 60) = k div 60000 mod 60"
    "nat (int k div 1000 mod 60) = k div 1000 mod 60" "nat (int k mod 1000) = k mod 1000" for k
    by (simp_all add: nat_div_distrib nat_mod_distrib)
  have b: "k div 3600000 < 10 ^ 2" "k div 60000 mod 60 < 10 ^ 2" "k div 1000 mod 60 < 10 ^ 2"
    "k mod 1000 < 10 ^ 3" if "k < 86400000" for k :: nat
    using that by (auto simp: less_mult_imp_div_less intro: less_trans [of _ 60])
  have "time_part r < time_part r' \<longleftrightarrow>
    n div 3600000 < n' div 3600000 \<or> n div 3600000 = n' div 3600000 \<and>
    (n div 60000 mod 60 < n' div 60000 mod 60 \<or> n div 60000 mod 60 = n' div 60000 mod 60 \<and>
    (n div 1000 mod 60 < n' div 1000 mod 60 \<or> n div 1000 mod 60 = n' div 1000 mod 60 \<and>
     n mod 1000 < n' mod 1000))"
    unfolding time_part_def r conv
    by (simp only: dec_less [OF b(1) b(1)] dec_less [OF b(2) b(2)] dec_less [OF b(3) b(3)]
        dec_less [OF b(4) b(4)] lim append.simps Cons_less_Cons) simp
  also have "\<dots> \<longleftrightarrow> n < n'"
    using div_mod_less [of 1000 n n'] div_mod_less [of 60 "n div 1000" "n' div 1000"]
      div_mod_less [of 60 "n div 60000" "n' div 60000"]
      div_mod_eq [of "n div 1000" "n' div 1000" 60] div_mod_eq [of "n div 60000" "n' div 60000" 60]
    by (simp add: div_mult2_eq [symmetric]) blast
  finally show ?thesis by (simp add: r)
qed

lemma four_digit_day:
  assumes "min_4digit \<le> t" "t < max_4digit"
  shows "0 \<le> year_of_day (t div ms_per_day + epoch_day) \<and>
    year_of_day (t div ms_per_day + epoch_day) < 10000"
proof -
  define z where "z = t div ms_per_day + epoch_day"
  have "0 \<le> z" "z < 3652425"
    using assms unfolding z_def min_4digit_def max_4digit_def ms_per_day_def epoch_day_def by linarith+
  moreover have "year_start 0 = 0" "year_start 10000 = 3652425" by (simp_all add: year_start_def)
  ultimately show ?thesis
    using year_of_day_bounds [of z] year_start_mono [of "year_of_day z + 1" 0]
      year_start_mono [of 10000 "year_of_day z"]
    unfolding z_def [symmetric] by linarith
qed

lemma iso_fields:
  assumes "min_4digit \<le> t" "t < max_4digit"
  obtains y m d where
    "civil (t div ms_per_day + epoch_day) = (int y, m, int d)" "y < 10 ^ 4" "m < 10 ^ 2" "d < 10 ^ 2"
    "1 \<le> m" "m \<le> 12" "1 \<le> d"
    "iso t = dec 4 y @ ''-'' @ dec 2 m @ ''-'' @ dec 2 d @ ''T'' @ time_part (t mod ms_per_day)"
proof -
  obtain yi m di where c: "civil (t div ms_per_day + epoch_day) = (yi, m, di)"
    by (cases "civil (t div ms_per_day + epoch_day)")
  from civil_day_range [OF c] four_digit_day [OF assms]
  have b: "0 \<le> yi" "yi < 10000" "1 \<le> m" "m \<le> 12" "1 \<le> di" "di \<le> 31" by auto
  show thesis
    by (rule that [of "nat yi" m "nat di"]) (use b c in \<open>auto simp: iso_def year_part_def\<close>)
qed

lemma iso_mono:
  assumes t: "min_4digit \<le> t" "t < t'" "t' < max_4digit"
  shows "iso t < iso t'"
proof -
  obtain y m d where f: "civil (t div ms_per_day + epoch_day) = (int y, m, int d)"
    and b: "y < 10 ^ 4" "m < 10 ^ 2" "d < 10 ^ 2"
    and i: "iso t = dec 4 y @ ''-'' @ dec 2 m @ ''-'' @ dec 2 d @ ''T'' @ time_part (t mod ms_per_day)"
    by (rule iso_fields [of t]) (use t in auto)
  obtain y' m' d' where f': "civil (t' div ms_per_day + epoch_day) = (int y', m', int d')"
    and b': "y' < 10 ^ 4" "m' < 10 ^ 2" "d' < 10 ^ 2"
    and i': "iso t' = dec 4 y' @ ''-'' @ dec 2 m' @ ''-'' @ dec 2 d' @ ''T'' @ time_part (t' mod ms_per_day)"
    by (rule iso_fields [of t']) (use t in auto)
  note cmp = dec_less [OF b(1) b'(1)] dec_less [OF b(2) b'(2)] dec_less [OF b(3) b'(3)]
  have ge: "t div ms_per_day \<le> t' div ms_per_day"
    using t by (intro zdiv_mono1) (auto simp: ms_per_day_def)
  show ?thesis
  proof (cases "t div ms_per_day = t' div ms_per_day")
    case True
    with f f' have same: "y' = y" "m' = m" "d' = d" by simp_all
    have "t mod ms_per_day < t' mod ms_per_day"
      using t True by (simp add: minus_div_mult_eq_mod [symmetric])
    then have "time_part (t mod ms_per_day) < time_part (t' mod ms_per_day)"
      by (subst time_part_less) (auto simp: ms_per_day_def)
    then show ?thesis unfolding i i' same
      by (simp add: dec_less [OF b(1) b(1)] dec_less [OF b(2) b(2)] dec_less [OF b(3) b(3)])
  next
    case False
    with ge have "t div ms_per_day + epoch_day < t' div ms_per_day + epoch_day" by simp
    from civil_less [OF this f f'] show ?thesis unfolding i i' by (auto simp: cmp)
  qed
qed

lemma iso_less:
  assumes "min_4digit \<le> t" "t < max_4digit" "min_4digit \<le> t'" "t' < max_4digit"
  shows "iso t < iso t' \<longleftrightarrow> t < t'"
  using iso_mono [of t t'] iso_mono [of t' t] assms by (cases t t' rule: linorder_cases) auto

lemma iso_le:
  assumes "min_4digit \<le> t" "t < max_4digit" "min_4digit \<le> t'" "t' < max_4digit"
  shows "iso t \<le> iso t' \<longleftrightarrow> t \<le> t'"
  using iso_less [of t' t] assms by (simp add: not_less [symmetric])

lemma civil_inverse:
  assumes "civil z = (y, m, d)"
  shows "year_start y + month_start (leap y) m + d - 1 = z"
  using assms by (auto simp: civil_def Let_def)

lemma time_of_fields:
  assumes "0 \<le> (r::int)"
  shows "((r div 3600000 * 60 + r div 60000 mod 60) * 60 + r div 1000 mod 60) * 1000 + r mod 1000 = r"
proof -
  have "r div 3600000 = r div 60000 div 60" "r div 60000 = r div 1000 div 60"
    by (simp_all add: zdiv_zmult2_eq [symmetric])
  then have "r div 3600000 * 60 + r div 60000 mod 60 = r div 60000"
    "r div 60000 * 60 + r div 1000 mod 60 = r div 1000"
    by (simp_all only: div_mult_mod_eq)
  then show ?thesis by (simp only: div_mult_mod_eq)
qed

lemma iso_parse_iso:
  assumes t: "min_4digit \<le> t" "t < max_4digit"
  shows "iso_parse (iso t) = Some t"
proof -
  obtain y m d where f: "civil (t div ms_per_day + epoch_day) = (int y, m, int d)"
    and b: "y < 10 ^ 4" "m < 10 ^ 2" "d < 10 ^ 2"
    and i: "iso t = dec 4 y @ ''-'' @ dec 2 m @ ''-'' @ dec 2 d @ ''T'' @ time_part (t mod ms_per_day)"
    by (rule iso_fields [OF t])
  define r where "r = t mod ms_per_day"
  have r: "0 \<le> r" "r < 86400000" unfolding r_def ms_per_day_def by simp_all
  define h mi sec ms where "h = nat (r div 3600000)" and "mi = nat (r div 60000 mod 60)"
    and "sec = nat (r div 1000 mod 60)" and "ms = nat (r mod 1000)"
  have n: "int h = r div 3600000" "int mi = r div 60000 mod 60" "int sec = r div 1000 mod 60" "int ms = r mod 1000"
    using r by (simp_all add: h_def mi_def sec_def ms_def pos_imp_zdiv_nonneg_iff)
  have lim: "h < 10 ^ 2" "mi < 10 ^ 2" "sec < 10 ^ 2" "ms < 10 ^ 3"
    using r n by (auto simp: h_def mi_def sec_def ms_def)
  have s: "iso t = dec 4 y @ ''-'' @ dec 2 m @ ''-'' @ dec 2 d @ ''T'' @ dec 2 h @ '':'' @ dec 2 mi @ '':''
     @ dec 2 sec @ ''.'' @ dec 3 ms @ ''Z''"
    unfolding i time_part_def r_def [symmetric] by (simp add: h_def mi_def sec_def ms_def)
  have fields: "length (iso t) = 24" "take 4 (iso t) = dec 4 y" "take 2 (drop 5 (iso t)) = dec 2 m"
    "take 2 (drop 8 (iso t)) = dec 2 d" "take 2 (drop 11 (iso t)) = dec 2 h"
    "take 2 (drop 14 (iso t)) = dec 2 mi" "take 2 (drop 17 (iso t)) = dec 2 sec"
    "take 3 (drop 20 (iso t)) = dec 3 ms"
    unfolding s by simp_all
  have "(year_start (int y) + month_start (leap (int y)) m + int d - 1 - epoch_day) * ms_per_day
      + ((int h * 60 + int mi) * 60 + int sec) * 1000 + int ms = t"
  proof -
    have "year_start (int y) + month_start (leap (int y)) m + int d - 1 - epoch_day = t div ms_per_day"
      using civil_inverse [OF f] by simp
    moreover have "((int h * 60 + int mi) * 60 + int sec) * 1000 + int ms = r"
      unfolding n by (rule time_of_fields [OF r(1)])
    ultimately show ?thesis using div_mult_mod_eq [of t ms_per_day] by (simp only: r_def add.assoc)
  qed
  then show ?thesis
    unfolding iso_parse_def fields list.map digits_value_dec [OF b(1)] digits_value_dec [OF b(2)]
      digits_value_dec [OF b(3)] digits_value_dec [OF lim(1)] digits_value_dec [OF lim(2)]
      digits_value_dec [OF lim(3)] digits_value_dec [OF lim(4)]
    by simp
qed

end
