(* ===== verification/DecisionRules.thy ===== *)
theory DecisionRules
  imports JsDate
begin

text \<open>
  The governance rules of \<^verbatim>\<open>src/governance/decision-rules.ts\<close>: what a vote or an
  objection record has to say to count, the quorum rule, the contest window and the bar of
  an override round. Resolution and offline verification both apply these definitions.
\<close>

subsection \<open>Names\<close>

definition PROPOSAL_COLLECTION :: string where
  "PROPOSAL_COLLECTION = ''net.openfederation.community.proposal''"
definition VOTE_COLLECTION :: string where
  "VOTE_COLLECTION = ''net.openfederation.governance.vote''"
definition DECISION_COLLECTION :: string where
  "DECISION_COLLECTION = ''net.openfederation.governance.decision''"
definition OBJECTION_COLLECTION :: string where
  "OBJECTION_COLLECTION = ''net.openfederation.governance.objection''"
definition SETTINGS_COLLECTION :: string where
  "SETTINGS_COLLECTION = ''net.openfederation.community.settings''"
definition EVIDENCE_MODEL_VOTE_RECORDS :: string where
  "EVIDENCE_MODEL_VOTE_RECORDS = ''vote-records''"
definition DEFAULT_QUORUM :: nat where "DEFAULT_QUORUM = 3"
definition MAX_CID_CHAIN :: nat where "MAX_CID_CHAIN = 500"
definition DEFAULT_TIMELOCK_HOURS :: rat where "DEFAULT_TIMELOCK_HOURS = 24"
definition DEFAULT_OBJECTION_THRESHOLD :: int where "DEFAULT_OBJECTION_THRESHOLD = 1"
definition DEFAULT_OBJECTION_OVERRIDE_DAYS :: rat where "DEFAULT_OBJECTION_OVERRIDE_DAYS = 7"

lemmas collection_defs =
  PROPOSAL_COLLECTION_def VOTE_COLLECTION_def DECISION_COLLECTION_def OBJECTION_COLLECTION_def
  SETTINGS_COLLECTION_def

lemma collections_distinct [simp]:
  "PROPOSAL_COLLECTION \<noteq> VOTE_COLLECTION" "VOTE_COLLECTION \<noteq> PROPOSAL_COLLECTION"
  "PROPOSAL_COLLECTION \<noteq> DECISION_COLLECTION" "DECISION_COLLECTION \<noteq> PROPOSAL_COLLECTION"
  "PROPOSAL_COLLECTION \<noteq> OBJECTION_COLLECTION" "OBJECTION_COLLECTION \<noteq> PROPOSAL_COLLECTION"
  "PROPOSAL_COLLECTION \<noteq> SETTINGS_COLLECTION" "SETTINGS_COLLECTION \<noteq> PROPOSAL_COLLECTION"
  "VOTE_COLLECTION \<noteq> DECISION_COLLECTION" "DECISION_COLLECTION \<noteq> VOTE_COLLECTION"
  "VOTE_COLLECTION \<noteq> OBJECTION_COLLECTION" "OBJECTION_COLLECTION \<noteq> VOTE_COLLECTION"
  "VOTE_COLLECTION \<noteq> SETTINGS_COLLECTION" "SETTINGS_COLLECTION \<noteq> VOTE_COLLECTION"
  "DECISION_COLLECTION \<noteq> OBJECTION_COLLECTION" "OBJECTION_COLLECTION \<noteq> DECISION_COLLECTION"
  "DECISION_COLLECTION \<noteq> SETTINGS_COLLECTION" "SETTINGS_COLLECTION \<noteq> DECISION_COLLECTION"
  "OBJECTION_COLLECTION \<noteq> SETTINGS_COLLECTION" "SETTINGS_COLLECTION \<noteq> OBJECTION_COLLECTION"
  by (simp_all add: collection_defs)

datatype vote_choice = For | Against
datatype outcome = Approved | Rejected

fun choice_str :: "vote_choice \<Rightarrow> string" where
  "choice_str For = ''for''"
| "choice_str Against = ''against''"

fun outcome_str :: "outcome \<Rightarrow> string" where
  "outcome_str Approved = ''approved''"
| "outcome_str Rejected = ''rejected''"

definition at_uri :: "string \<Rightarrow> string \<Rightarrow> string \<Rightarrow> string" where
  "at_uri repo coll rkey = ''at://'' @ repo @ ''/'' @ coll @ ''/'' @ rkey"

definition proposalUri :: "string \<Rightarrow> string \<Rightarrow> string" where
  "proposalUri communityDid proposalRkey = at_uri communityDid PROPOSAL_COLLECTION proposalRkey"

definition usesVoteRecordEvidence :: "jv \<Rightarrow> bool" where
  "usesVoteRecordEvidence proposal \<longleftrightarrow>
     jget proposal ''evidenceModel'' = JStr EVIDENCE_MODEL_VOTE_RECORDS"

subsection \<open>What a vote may cite\<close>

definition knownProposalCids :: "jv \<Rightarrow> string \<Rightarrow> string set" where
  "knownProposalCids proposal currentCid =
     insert currentCid (set (strings_of (arr_or_nil (jget proposal ''cidChain''))))"

text \<open>\<open>amendments[amendments.length - 1]\<close>, \<open>undefined\<close> of an empty array.\<close>

definition last_or_undef :: "jv list \<Rightarrow> jv" where
  "last_or_undef xs = (if xs = [] then JUndef else last xs)"

definition tallyEpoch :: "jv \<Rightarrow> string option" where
  "tallyEpoch proposal =
     (case jget proposal ''overrideOpenedAt'' of
        JStr s \<Rightarrow> Some s
      | _ \<Rightarrow>
        (let lst = last_or_undef (arr_or_nil (jget proposal ''amendments''));
             epoch = js_nullish (jget lst ''amendedAt'') (jget proposal ''createdAt'')
         in (case epoch of JStr s \<Rightarrow> Some s | _ \<Rightarrow> None)))"

record vote_ctx =
  vc_proposalUri :: string
  vc_knownCids :: "string set"
  vc_epoch :: "string option"

datatype vote_eligibility =
    VoteCountable vote_choice string string
  | VoteRefused string

text \<open>\<open>typeof record?.createdAt === 'string' ? record.createdAt : ''\<close>.\<close>

definition created_at :: "jv \<Rightarrow> string" where
  "created_at record' = (case jget record' ''createdAt'' of JStr s \<Rightarrow> s | _ \<Rightarrow> [])"

definition checkVoteRecord :: "jv \<Rightarrow> vote_ctx \<Rightarrow> vote_eligibility" where
  "checkVoteRecord rec ctx =
     (let vote = jget rec ''vote'';
          cid = jget (jget rec ''proposal'') ''cid'';
          createdAt = created_at rec
      in if vote \<noteq> JStr ''for'' \<and> vote \<noteq> JStr ''against'' then VoteRefused ''invalid-vote-value''
         else if jget (jget rec ''proposal'') ''uri'' \<noteq> JStr (vc_proposalUri ctx)
              \<or> jget rec ''proposalCollection'' \<noteq> JStr PROPOSAL_COLLECTION
           then VoteRefused ''proposal-uri-mismatch''
         else (case cid of
             JStr c \<Rightarrow>
               if c \<notin> vc_knownCids ctx then VoteRefused ''unknown-proposal-cid''
               else if (case vc_epoch ctx of None \<Rightarrow> False | Some e \<Rightarrow> e \<noteq> [] \<and> createdAt < e)
                 then VoteRefused ''stale-vote-record''
               else VoteCountable (if vote = JStr ''for'' then For else Against) c createdAt
           | _ \<Rightarrow> VoteRefused ''unknown-proposal-cid''))"

definition voteOrderKey :: "string \<Rightarrow> string \<Rightarrow> string" where
  "voteOrderKey createdAt rkey = createdAt @ ''|'' @ rkey"

definition decideOutcome :: "nat \<Rightarrow> nat \<Rightarrow> jv \<Rightarrow> outcome option" where
  "decideOutcome votesFor votesAgainst quorum =
     (if count_lt (votesFor + votesAgainst) quorum then None
      else Some (if votesAgainst < votesFor then Approved else Rejected))"

subsection \<open>Timelock and objection window\<close>

definition governance_config :: "jv \<Rightarrow> jv" where
  "governance_config settings = jget settings ''governanceConfig''"

definition timelockHours :: "jv \<Rightarrow> rat" where
  "timelockHours settings =
     (case jget (governance_config settings) ''timelockHours'' of
        JNum (Fin q) \<Rightarrow> if q < 0 then DEFAULT_TIMELOCK_HOURS else q
      | _ \<Rightarrow> DEFAULT_TIMELOCK_HOURS)"

definition objectionThreshold :: "jv \<Rightarrow> int" where
  "objectionThreshold settings =
     (case jget (governance_config settings) ''objectionThreshold'' of
        JNum (Fin q) \<Rightarrow> if of_int \<lfloor>q\<rfloor> \<noteq> q \<or> q < 1 then DEFAULT_OBJECTION_THRESHOLD else \<lfloor>q\<rfloor>
      | _ \<Rightarrow> DEFAULT_OBJECTION_THRESHOLD)"

text \<open>
  \<open>new Date(s)\<close>: \<open>D\<close> reads the strings other than those \<open>toISOString\<close> writes.
\<close>

definition parse_date :: "(string \<Rightarrow> int option) \<Rightarrow> string \<Rightarrow> int option" where
  "parse_date D s = (case iso_parse s of Some t \<Rightarrow> Some t | None \<Rightarrow> D s)"

text \<open>\<open>new Date(new Date(s).getTime() + ms).toISOString()\<close>.\<close>

definition iso_after :: "(string \<Rightarrow> int option) \<Rightarrow> string \<Rightarrow> rat \<Rightarrow> exn + string" where
  "iso_after D s ms = (case parse_date D s of
      None \<Rightarrow> Inl RangeError
    | Some t \<Rightarrow> num_to_iso (Fin (of_int t + ms)))"

definition applyAtFrom :: "(string \<Rightarrow> int option) \<Rightarrow> string \<Rightarrow> rat \<Rightarrow> exn + string" where
  "applyAtFrom D resolvedAt hours = iso_after D resolvedAt (hours * 60 * 60 * 1000)"

record objection_ctx =
  oc_proposalUri :: string
  oc_decisionUri :: string
  oc_decisionCid :: string
  oc_resolvedAt :: string
  oc_applyAt :: string

datatype objection_eligibility =
    ObjectionCountable string
  | ObjectionRefused string

definition checkObjectionRecord :: "jv \<Rightarrow> objection_ctx \<Rightarrow> objection_eligibility" where
  "checkObjectionRecord rec ctx =
     (let createdAt = created_at rec
      in if jget (jget rec ''proposal'') ''uri'' \<noteq> JStr (oc_proposalUri ctx)
              \<or> jget rec ''proposalCollection'' \<noteq> JStr PROPOSAL_COLLECTION
           then ObjectionRefused ''proposal-uri-mismatch''
         else if jget (jget rec ''decision'') ''uri'' \<noteq> JStr (oc_decisionUri ctx)
              \<or> jget (jget rec ''decision'') ''cid'' \<noteq> JStr (oc_decisionCid ctx)
           then ObjectionRefused ''decision-mismatch''
         else if createdAt = [] \<or> createdAt < oc_resolvedAt ctx
           then ObjectionRefused ''objection-predates-decision''
         else if oc_applyAt ctx \<le> createdAt then ObjectionRefused ''late-objection''
         else ObjectionCountable createdAt)"

subsection \<open>The override round\<close>

datatype objection_review = Review_override | Review_none

definition objectionReviewMode :: "jv \<Rightarrow> objection_review" where
  "objectionReviewMode settings =
     (if jget (governance_config settings) ''objectionReview'' = JStr ''none'' then Review_none
      else Review_override)"

definition objectionOverrideDays :: "jv \<Rightarrow> rat" where
  "objectionOverrideDays settings =
     (case jget (governance_config settings) ''objectionOverrideDays'' of
        JNum (Fin q) \<Rightarrow> if q \<le> 0 then DEFAULT_OBJECTION_OVERRIDE_DAYS else q
      | _ \<Rightarrow> DEFAULT_OBJECTION_OVERRIDE_DAYS)"

text \<open>\<open>Math.max\<close> and \<open>Math.min\<close>.\<close>

definition num_max :: "jnum \<Rightarrow> jnum \<Rightarrow> jnum" where
  "num_max a b = (if a = NaN \<or> b = NaN then NaN else if num_lt a b then b else a)"

definition num_min :: "jnum \<Rightarrow> jnum \<Rightarrow> jnum" where
  "num_min a b = (if a = NaN \<or> b = NaN then NaN else if num_lt b a then b else a)"

text \<open>
  \<open>quorum + 1\<close>, read as a number. On a string \<open>+\<close> concatenates; an array or another
  object gives a text that is taken not to be a number.
\<close>

fun plus_one :: "jv \<Rightarrow> jnum" where
  "plus_one (JNum (Fin q)) = Fin (q + 1)"
| "plus_one (JNum n) = n"
| "plus_one (JBool b) = Fin (if b then 2 else 1)"
| "plus_one JNull = Fin 1"
| "plus_one (JStr s) = string_number (s @ ''1'')"
| "plus_one _ = NaN"

definition overrideQuorumFrom :: "jv \<Rightarrow> jv \<Rightarrow> nat \<Rightarrow> jnum" where
  "overrideQuorumFrom settings quorum eligibleVoters =
     (let computed =
        (let target = num_max (plus_one quorum) (Fin (of_int \<lceil>of_nat (eligibleVoters * 2) / (3 :: rat)\<rceil>))
         in num_max (Fin 1) (num_min target (Fin (of_nat eligibleVoters))))
      in case jget (governance_config settings) ''objectionOverrideQuorum'' of
        JNum (Fin q) \<Rightarrow> if of_int \<lfloor>q\<rfloor> = q \<and> 1 \<le> q then Fin q else computed
      | _ \<Rightarrow> computed)"

definition overrideExpiresAt :: "(string \<Rightarrow> int option) \<Rightarrow> string \<Rightarrow> rat \<Rightarrow> exn + string" where
  "overrideExpiresAt D openedAt days = iso_after D openedAt (days * 24 * 60 * 60 * 1000)"

definition decideOverride :: "nat \<Rightarrow> jnum \<Rightarrow> outcome option" where
  "decideOverride votesFor overrideQuorum =
     (if num_le overrideQuorum (Fin (of_nat votesFor)) then Some Approved else None)"

text \<open>\<open>T\<close> renders the threshold in the template literal.\<close>

definition quorumRule :: "(jv \<Rightarrow> string) \<Rightarrow> jv \<Rightarrow> jv \<Rightarrow> jv" where
  "quorumRule T model threshold = JObj
     [(''model'', model), (''threshold'', threshold),
      (''rule'', JStr (''resolves once counted votes >= '' @ T threshold
         @ ''; approved when votes for exceed votes against''))]"

subsection \<open>Permissions\<close>

definition GOVERNANCE_WRITE_PERMISSION :: string where
  "GOVERNANCE_WRITE_PERMISSION = ''community.governance.write''"

definition LEGACY_ROLE_PERMISSIONS :: "string \<Rightarrow> string list option" where
  "LEGACY_ROLE_PERMISSIONS = map_of
     [(''owner'',
        [''community.settings.write'', ''community.profile.write'', ''community.member.read'',
         ''community.member.write'', ''community.member.delete'', ''community.role.read'',
         ''community.role.write'', ''community.attestation.write'', ''community.attestation.delete'',
         ''community.application.write'', ''community.application.delete'',
         ''community.governance.write'', ''community.forum.write'', ''community.forum.moderate'',
         ''community.calendar.write'']),
      (''moderator'',
        [''community.profile.write'', ''community.member.read'', ''community.member.write'',
         ''community.member.delete'', ''community.role.read'', ''community.attestation.write'',
         ''community.attestation.delete'', ''community.governance.write'', ''community.forum.write'',
         ''community.forum.moderate'']),
      (''member'', [''community.member.read'', ''community.role.read''])]"

subsection \<open>The contest window on the clock\<close>

lemma four_digit_nonneg: "0 \<le> t \<Longrightarrow> min_4digit \<le> t"
  by (simp add: min_4digit_def)

lemma iso_after_whole:
  assumes "0 \<le> t" "t < max_4digit" "0 \<le> ms"
  shows "iso_after D (iso t) ms = (if t + \<lfloor>ms\<rfloor> \<le> max_instant then Inr (iso (t + \<lfloor>ms\<rfloor>)) else Inl RangeError)"
proof -
  have "trunc (of_int t + ms) = t + \<lfloor>ms\<rfloor>"
    using assms by (simp add: trunc_def add_nonneg_nonneg)
  moreover have "0 \<le> \<lfloor>ms\<rfloor>" using assms by simp
  ultimately show ?thesis
    using assms iso_parse_iso [OF four_digit_nonneg [OF assms(1)] assms(2)]
    by (simp add: iso_after_def parse_date_def num_to_iso_def date_of_num_def)
qed

text \<open>The instant at which a window that opened at \<open>t\<close> closes.\<close>

definition window_end :: "int \<Rightarrow> rat \<Rightarrow> int" where
  "window_end t hours = t + \<lfloor>hours * 60 * 60 * 1000\<rfloor>"

lemma applyAtFrom_iso:
  assumes "0 \<le> t" "t < max_4digit" "0 \<le> hours"
  shows "applyAtFrom D (iso t) hours =
    (if window_end t hours \<le> max_instant then Inr (iso (window_end t hours)) else Inl RangeError)"
  using iso_after_whole [OF assms(1,2), of "hours * 60 * 60 * 1000"] assms(3)
  by (simp add: applyAtFrom_def window_end_def)


lemma iso_head_digit:
  assumes "min_4digit \<le> t" "t < max_4digit"
  shows "\<exists>k s. k < 10 \<and> iso t = digit_char k # s"
proof -
  obtain y m d where "y < 10 ^ 4"
    and i: "iso t = dec 4 y @ ''-'' @ dec 2 m @ ''-'' @ dec 2 d @ ''T'' @ time_part (t mod ms_per_day)"
    by (rule iso_fields [OF assms])
  have "\<exists>k s. k < 10 \<and> dec (Suc w) n = digit_char k # s" if "n < 10 ^ Suc w" for w n
    using that
  proof (induction w arbitrary: n)
    case 0
    then show ?case by auto
  next
    case (Suc w)
    have "n div 10 < 10 ^ Suc w" using Suc.prems by (simp add: div_less_iff_less_mult)
    from Suc.IH [OF this] obtain k s where "k < 10" "dec (Suc w) (n div 10) = digit_char k # s" by blast
    then show ?case by (intro exI [of _ k]) (simp add: dec.simps(2) [of "Suc w"] del: dec.simps)
  qed
  from this [of y 3] \<open>y < 10 ^ 4\<close> obtain k s where "k < 10" "dec 4 y = digit_char k # s"
    by (auto simp del: dec.simps)
  then show ?thesis unfolding i by auto
qed

lemma year_past_9999:
  assumes "max_4digit \<le> t"
  shows "10000 \<le> year_of_day (t div ms_per_day + epoch_day)"
proof -
  define z where "z = t div ms_per_day + epoch_day"
  have "3652425 \<le> z"
    using assms unfolding z_def max_4digit_def ms_per_day_def epoch_day_def by linarith
  moreover have "year_start 10000 = 3652425" by (simp add: year_start_def)
  ultimately show ?thesis
    using year_of_day_bounds [of z] year_start_mono [of "year_of_day z + 1" 10000]
    unfolding z_def [symmetric] by linarith
qed


lemma iso_past_9999:
  assumes "max_4digit \<le> t"
  shows "\<exists>s. iso t = CHR ''+'' # s"
proof -
  obtain y m d where c: "civil (t div ms_per_day + epoch_day) = (y, m, d)"
    by (cases "civil (t div ms_per_day + epoch_day)")
  then have "y = year_of_day (t div ms_per_day + epoch_day)" by (simp add: civil_def Let_def)
  with year_past_9999 [OF assms] c show ?thesis by (simp add: iso_def year_part_def)
qed

lemma plus_before_digits: "k < 10 \<Longrightarrow> CHR ''+'' < digit_char k"
  by (simp add: digit_char_def less_char_def)

text \<open>
  The window is only as long as the strings allow. When it would close after the year 9999,
  the time is written with a leading \<open>+\<close>, which sorts before every digit: the change is
  due at once and every objection is late.
\<close>

theorem far_window_closes_at_once:
  assumes "0 \<le> t" "t < max_4digit" "0 \<le> hours" "max_4digit \<le> window_end t hours" "window_end t hours \<le> max_instant"
    and "0 \<le> now" "now < max_4digit" "jget rec ''createdAt'' = JStr (iso now)"
  shows "\<exists>applyAt. applyAtFrom D (iso t) hours = Inr applyAt \<and> applyAt \<le> iso now \<and>
    (\<nexists>x. checkObjectionRecord rec \<lparr>oc_proposalUri = p, oc_decisionUri = u, oc_decisionCid = c,
        oc_resolvedAt = iso t, oc_applyAt = applyAt\<rparr> = ObjectionCountable x)"
proof -
  obtain k s where n: "k < 10" "iso now = digit_char k # s"
    using iso_head_digit [OF four_digit_nonneg [OF assms(6)] assms(7)] by blast
  obtain r where w: "iso (window_end t hours) = CHR ''+'' # r" using iso_past_9999 [OF assms(4)] by blast
  have "iso (window_end t hours) < iso now" unfolding n w using plus_before_digits [OF n(1)] by simp
  with applyAtFrom_iso [OF assms(1-3)] assms show ?thesis
    by (auto simp: checkObjectionRecord_def created_at_def Let_def)
qed

definition sample_objection :: "int \<Rightarrow> jv" where
  "sample_objection t = JObj
     [(''proposal'', JObj [(''uri'', JStr ''at://p'')]), (''proposalCollection'', JStr PROPOSAL_COLLECTION),
      (''decision'', JObj [(''uri'', JStr ''at://d''), (''cid'', JStr ''cid1'')]), (''createdAt'', JStr (iso t))]"


theorem far_window_closes_at_once_witness:
  "\<exists>applyAt. applyAtFrom (\<lambda>_. None) (iso 1767225600000) 80000000 = Inr applyAt \<and> applyAt \<le> iso 1767229200000"
proof -
  have e: "window_end 1767225600000 80000000 = 289767225600000" by (simp add: window_end_def)
  show ?thesis
    using far_window_closes_at_once [of 1767225600000 80000000 1767229200000 "sample_objection 1767229200000"
        "\<lambda>_. None" "''at://p''" "''at://d''" "''cid1''"]
    unfolding e by (auto simp: sample_objection_def max_4digit_def max_instant_def)
qed

end
