(* ===== verification/SettingsRules.thy ===== *)
theory SettingsRules
  imports DecisionRules
begin

text \<open>
  What a community's governance settings may say: \<^verbatim>\<open>src/governance/settings-rules.ts\<close>.
  A problem is a constructor; \<open>problem_message\<close> gives the text of the source. The check
  normalizes the configuration object it is given in place, so its model also returns the
  settings as the caller sees them afterwards.
\<close>

subsection \<open>Problems\<close>

datatype settings_problem =
    BadModel
  | ConfigRequiredSimpleMajority
  | ConfigRequiredOnChain
  | BadQuorum
  | VoterRoleRequired
  | BadTimelockHours
  | BadObjectionThreshold
  | BadObjectionReview
  | BadOverrideQuorum
  | BadOverrideDays
  | ProtectedNotArray
  | ProtectedNotStrings
  | ProtectedMissing string
  | AnchoringNotObject
  | AnchoringEnabledNotBoolean
  | AnchoringChainIdNotString
  | AnchoringChainIdRequired
  | ChainIdRequired

fun problem_message :: "settings_problem \<Rightarrow> string" where
  "problem_message BadModel =
     ''governanceModel must be one of: benevolent-dictator, simple-majority, on-chain''"
| "problem_message ConfigRequiredSimpleMajority =
     ''governanceConfig is required for simple-majority (quorum, voterRole)''"
| "problem_message ConfigRequiredOnChain =
     ''governanceConfig is required for on-chain (chainId, and the quorum config governance runs on)''"
| "problem_message BadQuorum = ''governanceConfig.quorum must be a positive integer''"
| "problem_message VoterRoleRequired = ''governanceConfig.voterRole is required''"
| "problem_message BadTimelockHours =
     ''governanceConfig.timelockHours must be a non-negative number of hours (0 applies changes immediately)''"
| "problem_message BadObjectionThreshold =
     ''governanceConfig.objectionThreshold must be a positive integer '' @
     ''(1, the default, means a single eligible objection holds the change)''"
| "problem_message BadObjectionReview =
     ''governanceConfig.objectionReview must be 'override' (a held proposal opens one override round) '' @
     ''or 'none' (a hold is final)''"
| "problem_message BadOverrideQuorum =
     ''governanceConfig.objectionOverrideQuorum must be a positive integer '' @
     ''(absent means two-thirds of the electorate, never below quorum + 1)''"
| "problem_message BadOverrideDays =
     ''governanceConfig.objectionOverrideDays must be a positive number of days '' @
     ''(a round with no window could never expire, so 0 is not allowed)''"
| "problem_message ProtectedNotArray = ''protectedCollections must be an array''"
| "problem_message ProtectedNotStrings =
     ''protectedCollections must contain only collection name strings''"
| "problem_message (ProtectedMissing c) = ''protectedCollections must include '' @ c"
| "problem_message AnchoringNotObject =
     ''governanceConfig.anchoring must be an object with { enabled, chainId }''"
| "problem_message AnchoringEnabledNotBoolean =
     ''governanceConfig.anchoring.enabled must be a boolean''"
| "problem_message AnchoringChainIdNotString =
     ''governanceConfig.anchoring.chainId must be a CAIP-2 chain id string''"
| "problem_message AnchoringChainIdRequired =
     ''governanceConfig.anchoring.chainId is required when anchoring is enabled''"
| "problem_message ChainIdRequired = ''governanceConfig.chainId is required''"

text \<open>Early returns in order: the first condition that holds decides.\<close>

fun first_problem :: "(bool \<times> settings_problem) list \<Rightarrow> settings_problem option" where
  "first_problem [] = None"
| "first_problem ((c, p) # rest) = (if c then Some p else first_problem rest)"

lemma first_problem_None: "first_problem cs = None \<longleftrightarrow> (\<forall>(c, p) \<in> set cs. \<not> c)"
  by (induction cs rule: first_problem.induct) (auto split: if_splits)

lemma first_problem_append:
  "first_problem (cs @ ds) = (case first_problem cs of None \<Rightarrow> first_problem ds | Some p \<Rightarrow> Some p)"
  by (induction cs rule: first_problem.induct) auto

subsection \<open>The voting configuration\<close>

definition VALID_GOVERNANCE_MODELS :: "string list" where
  "VALID_GOVERNANCE_MODELS = [''benevolent-dictator'', ''simple-majority'', ''on-chain'']"

definition VOTING_MODELS :: "string list" where
  "VOTING_MODELS = [''simple-majority'', ''on-chain'']"

definition MANDATORY_PROTECTED_COLLECTIONS :: "string list" where
  "MANDATORY_PROTECTED_COLLECTIONS = [SETTINGS_COLLECTION, ''net.openfederation.community.role'']"

definition isChainId :: "jv \<Rightarrow> bool" where
  "isChainId value = (case value of JStr s \<Rightarrow> js_trim s \<noteq> [] | _ \<Rightarrow> False)"

definition isVotingModel :: "string \<Rightarrow> bool" where
  "isVotingModel model \<longleftrightarrow> model \<in> set VOTING_MODELS"

definition community_prefix :: string where
  "community_prefix = ''net.openfederation.community.''"

definition qualify :: "string \<Rightarrow> string" where
  "qualify c = (if take (length community_prefix) c = community_prefix then c else community_prefix @ c)"

text \<open>The loop that adds the mandatory entries, or reports the first one missing.\<close>

fun add_mandatory :: "bool \<Rightarrow> string list \<Rightarrow> string list \<Rightarrow> settings_problem + string list" where
  "add_mandatory nrm [] qualified = Inr qualified"
| "add_mandatory nrm (m # ms) qualified =
     (if m \<in> set qualified then add_mandatory nrm ms qualified
      else if \<not> nrm then Inl (ProtectedMissing m)
      else add_mandatory nrm ms (qualified @ [m]))"

definition positive_num :: "jv \<Rightarrow> bool" where
  "positive_num v = (case v of JNum n \<Rightarrow> \<not> num_lt n (Fin 1) | _ \<Rightarrow> False)"

definition positive_int :: "jv \<Rightarrow> bool" where
  "positive_int v \<longleftrightarrow> is_integer v \<and> positive_num v"

definition quorum_checks :: "jv \<Rightarrow> bool \<Rightarrow> (bool \<times> settings_problem) list" where
  "quorum_checks cfg requireQuorum =
     (let quorum = jget cfg ''quorum''; voterRole = jget cfg ''voterRole''
      in if requireQuorum then
           [(\<not> truthy quorum \<or> \<not> positive_num quorum, BadQuorum),
            (\<not> truthy voterRole \<or> \<not> is_str voterRole, VoterRoleRequired)]
         else [(quorum \<noteq> JUndef \<and> \<not> positive_num quorum, BadQuorum)])"

definition window_checks :: "jv \<Rightarrow> (bool \<times> settings_problem) list" where
  "window_checks cfg =
     (let hours = jget cfg ''timelockHours''; threshold = jget cfg ''objectionThreshold'';
          review = jget cfg ''objectionReview''; bar = jget cfg ''objectionOverrideQuorum'';
          days = jget cfg ''objectionOverrideDays''
      in [(hours \<noteq> JUndef \<and> \<not> (case hours of JNum (Fin q) \<Rightarrow> 0 \<le> q | _ \<Rightarrow> False), BadTimelockHours),
          (threshold \<noteq> JUndef \<and> \<not> positive_int threshold, BadObjectionThreshold),
          (review \<noteq> JUndef \<and> review \<noteq> JStr ''override'' \<and> review \<noteq> JStr ''none'', BadObjectionReview),
          (bar \<noteq> JUndef \<and> \<not> positive_int bar, BadOverrideQuorum),
          (days \<noteq> JUndef \<and> \<not> (case days of JNum (Fin q) \<Rightarrow> 0 < q | _ \<Rightarrow> False), BadOverrideDays)])"

text \<open>The result is the first problem, or the configuration after normalization.\<close>

definition checkVotingConfig :: "jv \<Rightarrow> bool \<Rightarrow> bool \<Rightarrow> settings_problem + jv" where
  "checkVotingConfig cfg requireQuorum nrm =
     (case first_problem (quorum_checks cfg requireQuorum @ window_checks cfg) of
        Some p \<Rightarrow> Inl p
      | None \<Rightarrow>
        (case jget cfg ''protectedCollections'' of
           JUndef \<Rightarrow> Inr cfg
         | JArr cs \<Rightarrow>
             if \<exists>c \<in> set cs. \<not> is_str c then Inl ProtectedNotStrings
             else (case add_mandatory nrm MANDATORY_PROTECTED_COLLECTIONS (map qualify (strings_of cs)) of
                 Inl p \<Rightarrow> Inl p
               | Inr qualified \<Rightarrow>
                   Inr (if nrm then jassign cfg [(''protectedCollections'', JArr (map JStr qualified))]
                        else cfg))
         | _ \<Rightarrow> Inl ProtectedNotArray))"

definition checkAnchoring :: "jv \<Rightarrow> settings_problem option" where
  "checkAnchoring cfg =
     (let anchoring = jget cfg ''anchoring''; enabled = jget anchoring ''enabled'';
          chainId = jget anchoring ''chainId''
      in if anchoring = JUndef then None
         else first_problem
           [(\<not> is_obj anchoring, AnchoringNotObject),
            (\<not> is_bool enabled, AnchoringEnabledNotBoolean),
            (chainId \<noteq> JUndef \<and> \<not> is_str chainId, AnchoringChainIdNotString),
            (enabled = JBool True \<and> \<not> truthy chainId \<and> \<not> isChainId (jget cfg ''chainId''),
             AnchoringChainIdRequired)])"

definition has_removals :: "jv \<Rightarrow> bool" where
  "has_removals cfg \<longleftrightarrow> is_obj cfg \<and> (\<exists>(k, v) \<in> set (entries cfg). v = JNull)"

definition stripRemovals :: "jv \<Rightarrow> jv" where
  "stripRemovals settings =
     (let cfg = jget settings ''governanceConfig''
      in if \<not> has_removals cfg then settings
         else jassign settings
           [(''governanceConfig'', JObj (filter (\<lambda>(k, v). v \<noteq> JNull) (entries cfg)))])"

text \<open>
  The settings as the caller holds them after the call: normalization writes into the
  configuration object that was passed, unless \<open>stripRemovals\<close> made a copy of it.
\<close>

definition checkGovernanceSettings :: "jv \<Rightarrow> bool \<Rightarrow> settings_problem option \<times> jv" where
  "checkGovernanceSettings settings0 nrm =
     (let settings = stripRemovals settings0;
          copied = has_removals (jget settings0 ''governanceConfig'');
          cfg = jget settings ''governanceConfig''
      in case js_nullish (jget settings ''governanceModel'') (JStr ''benevolent-dictator'') of
           JStr model \<Rightarrow>
             if model \<notin> set VALID_GOVERNANCE_MODELS then (Some BadModel, settings0)
             else if isVotingModel model then
               (if \<not> is_obj cfg then
                  (Some (if model = ''simple-majority'' then ConfigRequiredSimpleMajority
                         else ConfigRequiredOnChain), settings0)
                else (case checkVotingConfig cfg (model = ''simple-majority'') nrm of
                    Inl p \<Rightarrow> (Some p, settings0)
                  | Inr cfg' \<Rightarrow>
                      (if model = ''on-chain'' \<and> \<not> isChainId (jget cfg' ''chainId'')
                         then Some ChainIdRequired else checkAnchoring cfg',
                       if copied \<or> cfg' = cfg then settings0
                       else jassign settings0 [(''governanceConfig'', cfg')])))
             else (if is_obj cfg then checkAnchoring cfg else None, settings0)
         | _ \<Rightarrow> (Some BadModel, settings0))"

definition settings_problem_of :: "jv \<Rightarrow> settings_problem option" where
  "settings_problem_of settings = fst (checkGovernanceSettings settings False)"

subsection \<open>The bar of an override round\<close>

lemma two_thirds: "2 * int n \<le> 3 * \<lceil>of_nat (n * 2) / (3 :: rat)\<rceil>" "\<lceil>of_nat (n * 2) / (3 :: rat)\<rceil> \<le> int n"
proof -
  define c where "c = \<lceil>of_nat (n * 2) / (3 :: rat)\<rceil>"
  have "of_nat (n * 2) / (3 :: rat) \<le> of_int c" unfolding c_def by (rule le_of_int_ceiling)
  then have "of_int (2 * int n) \<le> (of_int (3 * c) :: rat)" by (simp add: divide_le_eq mult.commute)
  then show "2 * int n \<le> 3 * \<lceil>of_nat (n * 2) / (3 :: rat)\<rceil>" by (simp only: of_int_le_iff c_def)
  show "\<lceil>of_nat (n * 2) / (3 :: rat)\<rceil> \<le> int n" by (simp add: ceiling_le_iff)
qed

lemma num_max_int: "num_max (Fin (of_int a)) (Fin (of_int b)) = Fin (of_int (max a b))"
  by (simp add: num_max_def max_def)

lemma num_min_int: "num_min (Fin (of_int a)) (Fin (of_int b)) = Fin (of_int (min a b))"
  by (simp add: num_min_def min_def)

lemma bar_arith:
  assumes "2 * n \<le> 3 * c" "c \<le> (n :: int)"
  shows "1 \<le> max 1 (min (max (q + 1) c) n) \<and> max 1 (min (max (q + 1) c) n) \<le> max 1 n \<and>
    2 * n \<le> 3 * max 1 (min (max (q + 1) c) n) \<and> (q < n \<longrightarrow> q < max 1 (min (max (q + 1) c) n))"
  using assms by (intro conjI impI; simp add: max_def min_def split: if_splits; linarith?)

text \<open>
  The bar an override round has to reach, when the community set none of its own: it is a whole
  number of votes that the electorate can cast, at least one and at least two thirds of the
  electorate, and above the ordinary quorum unless the electorate is too small for that.
\<close>

theorem override_quorum_bounds:
  assumes "\<not> positive_int (jget (governance_config settings) ''objectionOverrideQuorum'')"
  shows "\<exists>bar. overrideQuorumFrom settings (jint q) voters = Fin (of_int bar) \<and>
    1 \<le> bar \<and> bar \<le> max 1 (int voters) \<and> 2 * int voters \<le> 3 * bar \<and> (q < int voters \<longrightarrow> q < bar)"
proof -
  let ?two = "\<lceil>of_nat (voters * 2) / (3 :: rat)\<rceil>"
  let ?bar = "max 1 (min (max (q + 1) ?two) (int voters))"
  have "overrideQuorumFrom settings (jint q) voters =
      num_max (Fin 1) (num_min (num_max (Fin (of_int q + 1)) (Fin (of_int ?two))) (Fin (of_nat voters)))"
    using assms by (auto simp: overrideQuorumFrom_def positive_int_def positive_num_def is_integer_def
        split: jv.splits jnum.splits)
  also have "\<dots> = num_max (Fin (of_int 1)) (num_min (num_max (Fin (of_int (q + 1))) (Fin (of_int ?two)))
      (Fin (of_int (int voters))))" by simp
  also have "\<dots> = Fin (of_int ?bar)" by (simp only: num_max_int num_min_int)
  finally have bar: "overrideQuorumFrom settings (jint q) voters = Fin (of_int ?bar)" .
  have "1 \<le> ?bar \<and> ?bar \<le> max 1 (int voters) \<and> 2 * int voters \<le> 3 * ?bar \<and> (q < int voters \<longrightarrow> q < ?bar)"
    using bar_arith [OF two_thirds] .
  with bar show ?thesis by blast
qed

subsection \<open>Accepted settings\<close>

text \<open>An object has one value per key.\<close>

definition keys_distinct :: "jv \<Rightarrow> bool" where
  "keys_distinct v \<longleftrightarrow> distinct (map fst (entries v))"

lemma map_of_filter_values:
  "distinct (map fst ps) \<Longrightarrow>
   map_of (filter (\<lambda>(k, v). P v) ps) k = (case map_of ps k of Some v \<Rightarrow> if P v then Some v else None | None \<Rightarrow> None)"
proof (induction ps)
  case (Cons p ps)
  obtain a v where p: "p = (a, v)" by (cases p)
  have "map_of ps a = None" using Cons.prems p by (simp add: map_of_eq_None_iff)
  with Cons p show ?case by (auto split: option.split)
qed simp

text \<open>What validation judges: the configuration with its removals dropped.\<close>

definition judged_config :: "jv \<Rightarrow> jv" where
  "judged_config settings = governance_config (stripRemovals settings)"

lemma jget_judged_config:
  assumes "keys_distinct (governance_config settings)"
  shows "jget (judged_config settings) k =
    (if jget (governance_config settings) k = JNull then JUndef else jget (governance_config settings) k)"
proof (cases "has_removals (governance_config settings)")
  case True
  then obtain ps where ps: "governance_config settings = JObj ps" by (auto simp: has_removals_def is_obj_iff)
  with assms True show ?thesis
    by (auto simp: judged_config_def stripRemovals_def governance_config_def keys_distinct_def Let_def
        map_of_filter_values split: option.split)
next
  case False
  then have same: "judged_config settings = governance_config settings"
    by (simp add: judged_config_def stripRemovals_def governance_config_def Let_def)
  have "jget (governance_config settings) k \<noteq> JNull"
  proof
    assume n: "jget (governance_config settings) k = JNull"
    then obtain ps where "governance_config settings = JObj ps" "map_of ps k = Some JNull"
      by (cases "governance_config settings") (auto split: option.splits)
    with False show False by (auto simp: has_removals_def dest: map_of_SomeD)
  qed
  with same show ?thesis by simp
qed

lemma judged_model: "k \<noteq> ''governanceConfig'' \<Longrightarrow> jget (stripRemovals settings) k = jget settings k"
  by (simp add: stripRemovals_def Let_def)

lemma checkVotingConfig_checks:
  assumes "checkVotingConfig cfg r nrm = Inr cfg'"
  shows "\<forall>(c, p) \<in> set (quorum_checks cfg r @ window_checks cfg). \<not> c"
proof -
  have "first_problem (quorum_checks cfg r @ window_checks cfg) = None"
    using assms by (simp add: checkVotingConfig_def split: option.splits)
  then show ?thesis by (simp only: first_problem_None)
qed

lemma accepted_votingD:
  assumes "settings_problem_of settings = None"
    and "jget settings ''governanceModel'' = JStr m" "isVotingModel m"
  shows "is_obj (judged_config settings) \<and>
    checkVotingConfig (judged_config settings) (m = ''simple-majority'') False = Inr (judged_config settings) \<and>
    (m = ''on-chain'' \<longrightarrow> isChainId (jget (judged_config settings) ''chainId''))"
proof -
  have same: "cfg' = cfg" if "checkVotingConfig cfg r False = Inr cfg'" for cfg r cfg'
    using that by (auto simp: checkVotingConfig_def split: option.splits jv.splits sum.splits if_splits)
  show ?thesis
    using assms judged_model [of "''governanceModel''" settings]
    by (auto simp: settings_problem_of_def checkGovernanceSettings_def judged_config_def governance_config_def
        js_nullish_def Let_def dest: same split: if_splits sum.splits)
qed

lemma window_checks_accepted:
  assumes "checkVotingConfig cfg r nrm = Inr cfg'"
  shows "jget cfg ''timelockHours'' = JUndef \<or> (\<exists>q\<ge>0. jget cfg ''timelockHours'' = JNum (Fin q))"
    and "jget cfg ''objectionThreshold'' = JUndef \<or> positive_int (jget cfg ''objectionThreshold'')"
    and "jget cfg ''objectionReview'' \<in> {JUndef, JStr ''override'', JStr ''none''}"
    and "jget cfg ''objectionOverrideQuorum'' = JUndef \<or> positive_int (jget cfg ''objectionOverrideQuorum'')"
    and "jget cfg ''objectionOverrideDays'' = JUndef \<or> (\<exists>q>0. jget cfg ''objectionOverrideDays'' = JNum (Fin q))"
  using checkVotingConfig_checks [OF assms]
  by (auto simp: window_checks_def Let_def split: jv.splits jnum.splits)

lemma positive_intD: "positive_int v \<Longrightarrow> \<exists>i\<ge>1. v = JNum (Fin (of_int i))"
proof -
  assume "positive_int v"
  then obtain q where q: "v = JNum (Fin q)" "of_int \<lfloor>q\<rfloor> = q" "\<not> q < 1"
    by (auto simp: positive_int_def positive_num_def is_integer_def split: jv.splits jnum.splits)
  then have "1 \<le> \<lfloor>q\<rfloor>" by simp
  with q show ?thesis by metis
qed

lemma nullish_iff: "nullish v \<longleftrightarrow> v = JUndef \<or> v = JNull"
  by (cases v) auto

text \<open>The shape of every window parameter of accepted settings.\<close>

lemma accepted_parameters:
  assumes "settings_problem_of settings = None" "keys_distinct (governance_config settings)"
    and "jget settings ''governanceModel'' = JStr m" "isVotingModel m"
  defines "conf \<equiv> \<lambda>k. jget (governance_config settings) k"
  shows "nullish (conf ''timelockHours'') \<or> (\<exists>q\<ge>0. conf ''timelockHours'' = JNum (Fin q))"
    and "nullish (conf ''objectionThreshold'') \<or> (\<exists>i\<ge>1. conf ''objectionThreshold'' = jint i)"
    and "nullish (conf ''objectionReview'') \<or> conf ''objectionReview'' \<in> {JStr ''override'', JStr ''none''}"
    and "nullish (conf ''objectionOverrideDays'') \<or> (\<exists>q>0. conf ''objectionOverrideDays'' = JNum (Fin q))"
    and "nullish (conf ''objectionOverrideQuorum'') \<or> (\<exists>i\<ge>1. conf ''objectionOverrideQuorum'' = jint i)"
proof -
  have j: "nullish (conf k) \<or> conf k = jget (judged_config settings) k \<and> conf k \<noteq> JUndef" for k
    by (simp add: conf_def nullish_iff jget_judged_config [OF assms(2)])
  from accepted_votingD [OF assms(1,3,4)]
  have "checkVotingConfig (judged_config settings) (m = ''simple-majority'') False = Inr (judged_config settings)" by simp
  note ok = window_checks_accepted [OF this]
  show "nullish (conf ''timelockHours'') \<or> (\<exists>q\<ge>0. conf ''timelockHours'' = JNum (Fin q))"
    using ok(1) j [of "''timelockHours''"] by auto
  show "nullish (conf ''objectionThreshold'') \<or> (\<exists>i\<ge>1. conf ''objectionThreshold'' = jint i)"
    using ok(2) j [of "''objectionThreshold''"] by (auto dest: positive_intD)
  show "nullish (conf ''objectionReview'') \<or> conf ''objectionReview'' \<in> {JStr ''override'', JStr ''none''}"
    using ok(3) j [of "''objectionReview''"] by auto
  show "nullish (conf ''objectionOverrideDays'') \<or> (\<exists>q>0. conf ''objectionOverrideDays'' = JNum (Fin q))"
    using ok(5) j [of "''objectionOverrideDays''"] by auto
  show "nullish (conf ''objectionOverrideQuorum'') \<or> (\<exists>i\<ge>1. conf ''objectionOverrideQuorum'' = jint i)"
    using ok(4) j [of "''objectionOverrideQuorum''"] by (auto dest: positive_intD)
qed

lemma readers_nullish:
  "nullish (jget (governance_config s) ''timelockHours'') \<Longrightarrow> timelockHours s = 24"
  "nullish (jget (governance_config s) ''objectionThreshold'') \<Longrightarrow> objectionThreshold s = 1"
  "nullish (jget (governance_config s) ''objectionReview'') \<Longrightarrow> objectionReviewMode s = Review_override"
  "nullish (jget (governance_config s) ''objectionOverrideDays'') \<Longrightarrow> objectionOverrideDays s = 7"
  by (auto simp: nullish_iff timelockHours_def DEFAULT_TIMELOCK_HOURS_def objectionThreshold_def
      DEFAULT_OBJECTION_THRESHOLD_def objectionReviewMode_def objectionOverrideDays_def
      DEFAULT_OBJECTION_OVERRIDE_DAYS_def)

lemma readers_configured:
  "jget (governance_config s) ''timelockHours'' = JNum (Fin q) \<Longrightarrow> 0 \<le> q \<Longrightarrow> timelockHours s = q"
  "jget (governance_config s) ''objectionThreshold'' = jint i \<Longrightarrow> 1 \<le> i \<Longrightarrow> objectionThreshold s = i"
  "jget (governance_config s) ''objectionOverrideDays'' = JNum (Fin q) \<Longrightarrow> 0 < q \<Longrightarrow> objectionOverrideDays s = q"
  "jget (governance_config s) ''objectionOverrideQuorum'' = jint i \<Longrightarrow> 1 \<le> i \<Longrightarrow>
    overrideQuorumFrom s quorum voters = Fin (of_int i)"
  by (simp_all add: timelockHours_def objectionThreshold_def objectionOverrideDays_def overrideQuorumFrom_def)

text \<open>
  The readers of the configuration never substitute a default for a value that validation
  accepted: under a voting model the contest window, the objection threshold, the review
  mode, the length of an override round and its bar are the configured ones, and the
  documented defaults when they are absent or removed.
\<close>

theorem accepted_settings_mean_what_they_say:
  assumes "settings_problem_of settings = None" "keys_distinct (governance_config settings)"
    and "jget settings ''governanceModel'' = JStr m" "isVotingModel m"
  shows "let conf = (\<lambda>k. jget (governance_config settings) k) in
    (if nullish (conf ''timelockHours'') then timelockHours settings = 24
     else conf ''timelockHours'' = JNum (Fin (timelockHours settings)) \<and> 0 \<le> timelockHours settings) \<and>
    (if nullish (conf ''objectionThreshold'') then objectionThreshold settings = 1
     else conf ''objectionThreshold'' = jint (objectionThreshold settings) \<and> 1 \<le> objectionThreshold settings) \<and>
    (if nullish (conf ''objectionReview'') then objectionReviewMode settings = Review_override
     else conf ''objectionReview'' = JStr (case objectionReviewMode settings of
       Review_override \<Rightarrow> ''override'' | Review_none \<Rightarrow> ''none'')) \<and>
    (if nullish (conf ''objectionOverrideDays'') then objectionOverrideDays settings = 7
     else conf ''objectionOverrideDays'' = JNum (Fin (objectionOverrideDays settings)) \<and> 0 < objectionOverrideDays settings) \<and>
    (nullish (conf ''objectionOverrideQuorum'') \<or>
      conf ''objectionOverrideQuorum'' = JNum (overrideQuorumFrom settings quorum voters))"
  unfolding Let_def
proof (intro conjI, goal_cases)
  case 1 then show ?case
    using accepted_parameters(1) [OF assms] readers_nullish(1) by (auto simp: readers_configured(1))
next
  case 2 then show ?case
    using accepted_parameters(2) [OF assms] readers_nullish(2) by (auto simp: readers_configured(2))
next
  case 3 then show ?case
    using accepted_parameters(3) [OF assms] readers_nullish(3) by (auto simp: objectionReviewMode_def)
next
  case 4 then show ?case
    using accepted_parameters(4) [OF assms] readers_nullish(4) by (auto simp: readers_configured(3))
next
  case 5 then show ?case
    using accepted_parameters(5) [OF assms] by (auto simp: readers_configured(4))
qed

subsection \<open>Normalization\<close>

lemma update_same: "map_of al k = Some v \<Longrightarrow> AList.update k v al = al"
  by (induction al) (auto split: if_splits)

lemma qualify_idem [simp]: "qualify (qualify c) = qualify c"
  by (auto simp: qualify_def)

lemma qualify_mandatory: "m \<in> set MANDATORY_PROTECTED_COLLECTIONS \<Longrightarrow> qualify m = m"
  by (auto simp: MANDATORY_PROTECTED_COLLECTIONS_def qualify_def community_prefix_def SETTINGS_COLLECTION_def)

lemma add_mandatory_all:
  "add_mandatory nrm ms q = Inr q' \<Longrightarrow> set q' = set q \<union> set ms"
  by (induction nrm ms q rule: add_mandatory.induct) (auto split: if_splits)

lemma add_mandatory_present: "set ms \<subseteq> set q \<Longrightarrow> add_mandatory nrm ms q = Inr q"
  by (induction nrm ms q rule: add_mandatory.induct) auto

lemma add_mandatory_qualified:
  assumes "add_mandatory nrm MANDATORY_PROTECTED_COLLECTIONS (map qualify cs) = Inr q"
  shows "map qualify q = q"
  using add_mandatory_all [OF assms] qualify_mandatory by (auto intro!: map_idI)

lemma checks_cong:
  assumes "\<And>k. k \<noteq> ''protectedCollections'' \<Longrightarrow> jget cfg' k = jget cfg k"
  shows "quorum_checks cfg' r = quorum_checks cfg r" "window_checks cfg' = window_checks cfg"
    "checkAnchoring cfg' = checkAnchoring cfg"
proof -
  have "jget cfg' ''chainId'' = jget cfg ''chainId''" "jget cfg' ''anchoring'' = jget cfg ''anchoring''"
    by (simp_all add: assms)
  then show "checkAnchoring cfg' = checkAnchoring cfg" by (simp only: checkAnchoring_def)
qed (simp_all add: assms quorum_checks_def window_checks_def)

lemma add_mandatory_True: "add_mandatory True ms q \<noteq> Inl p"
  by (induction True ms q rule: add_mandatory.induct) auto

text \<open>Normalizing a configuration gives one that passes the check as it is.\<close>

lemma checkVotingConfig_normalized:
  assumes "checkVotingConfig cfg r True = Inr cfg'"
  shows "checkVotingConfig cfg' r nrm = Inr cfg'"
    and "k \<noteq> ''protectedCollections'' \<Longrightarrow> jget cfg' k = jget cfg k"
    and "is_obj cfg \<Longrightarrow> is_obj cfg'"
    and "has_removals cfg' \<Longrightarrow> is_obj cfg \<Longrightarrow> has_removals cfg"
proof -
  have fp: "first_problem (quorum_checks cfg r @ window_checks cfg) = None"
    using assms by (simp add: checkVotingConfig_def split: option.splits)
  consider (absent) "jget cfg ''protectedCollections'' = JUndef" "cfg' = cfg"
    | (present) cs q where "jget cfg ''protectedCollections'' = JArr cs"
      "add_mandatory True MANDATORY_PROTECTED_COLLECTIONS (map qualify (strings_of cs)) = Inr q"
      "cfg' = jassign cfg [(''protectedCollections'', JArr (map JStr q))]"
    using assms fp by (auto simp: checkVotingConfig_def split: jv.splits sum.splits if_splits)
  note cases = this
  show other: "jget cfg' k = jget cfg k" if "k \<noteq> ''protectedCollections''" for k
    using cases that by cases simp_all
  show "is_obj cfg'" if "is_obj cfg" using cases that by cases simp_all
  show "has_removals cfg" if "has_removals cfg'" "is_obj cfg"
    using cases that by cases
      (use set_update_subset in \<open>fastforce simp: has_removals_def jassign_def\<close>)+
  have fp': "first_problem (quorum_checks cfg' r @ window_checks cfg') = None"
  proof -
    have "quorum_checks cfg' r = quorum_checks cfg r" by (rule checks_cong(1)) (rule other)
    moreover have "window_checks cfg' = window_checks cfg" by (rule checks_cong(2)) (rule other)
    ultimately show ?thesis using fp by simp
  qed
  from cases show "checkVotingConfig cfg' r nrm = Inr cfg'"
  proof cases
    case absent
    with fp show ?thesis by (simp add: checkVotingConfig_def)
  next
    case present
    have "set MANDATORY_PROTECTED_COLLECTIONS \<subseteq> set q" using add_mandatory_all [OF present(2)] by simp
    then have "add_mandatory nrm MANDATORY_PROTECTED_COLLECTIONS q = Inr q" by (rule add_mandatory_present)
    moreover have "map qualify q = q" by (rule add_mandatory_qualified [OF present(2)])
    moreover have "jassign cfg' [(''protectedCollections'', JArr (map JStr q))] = cfg'"
      by (simp add: present(3) jassign_def update_same)
    ultimately show ?thesis
      using fp' by (simp add: checkVotingConfig_def present(3))
  qed
qed

text \<open>
  A proposal or a change of model that passes the authoring check is stored in a form that passes
  the check made again when it is applied: normalization leaves settings that validate as
  they are, and normalizing them again changes nothing.
\<close>

theorem normalized_settings_pass_the_apply_check:
  assumes "checkGovernanceSettings settings True = (None, settings')"
    and "\<not> has_removals (governance_config settings)"
  shows "checkGovernanceSettings settings' False = (None, settings') \<and>
    checkGovernanceSettings settings' True = (None, settings')"
proof -
  let ?cfg = "governance_config settings"
  have strip: "stripRemovals s = s" if "\<not> has_removals (governance_config s)" for s
    using that by (simp add: stripRemovals_def governance_config_def Let_def)
  obtain model where m: "js_nullish (jget settings ''governanceModel'') (JStr ''benevolent-dictator'') = JStr model"
      "model \<in> set VALID_GOVERNANCE_MODELS"
    using assms strip [OF assms(2)]
    by (auto simp: checkGovernanceSettings_def Let_def split: jv.splits if_splits)
  show ?thesis
  proof (cases "isVotingModel model")
    case False
    with assms m strip [OF assms(2)] show ?thesis
      by (auto simp: checkGovernanceSettings_def governance_config_def Let_def)
  next
    case True
    with assms m strip [OF assms(2)] obtain cfg' where c: "is_obj ?cfg"
      "checkVotingConfig ?cfg (model = ''simple-majority'') True = Inr cfg'"
      "model = ''on-chain'' \<longrightarrow> isChainId (jget cfg' ''chainId'')" "checkAnchoring cfg' = None"
      "settings' = (if cfg' = ?cfg then settings else jassign settings [(''governanceConfig'', cfg')])"
      by (auto simp: checkGovernanceSettings_def governance_config_def Let_def split: if_splits sum.splits)
    note n = checkVotingConfig_normalized [OF c(2)]
    have s': "governance_config settings' = cfg'" "jget settings' ''governanceModel'' = jget settings ''governanceModel''"
      using c(5) by (auto simp: governance_config_def)
    have "\<not> has_removals cfg'" using n(4) c(1) assms(2) by blast
    with s' have "stripRemovals settings' = settings'" by (intro strip) simp
    moreover have "is_obj cfg'" using n(3) c(1) by blast
    ultimately show ?thesis
      using s' m True c(3,4) n(1) \<open>\<not> has_removals cfg'\<close>
      by (simp add: checkGovernanceSettings_def governance_config_def Let_def)
  qed
qed

subsection \<open>Examples\<close>

definition sample_settings :: jv where
  "sample_settings = JObj
     [(''governanceModel'', JStr ''simple-majority''),
      (''governanceConfig'', JObj [(''quorum'', jnat 2), (''voterRole'', JStr ''member''),
         (''timelockHours'', jnat 48), (''objectionThreshold'', JNull)])]"

definition sample_settings_short :: jv where
  "sample_settings_short = JObj
     [(''governanceModel'', JStr ''simple-majority''),
      (''governanceConfig'', JObj [(''quorum'', jnat 2), (''voterRole'', JStr ''member''),
         (''protectedCollections'', JArr [JStr ''forum''])])]"

theorem override_quorum_bounds_witness:
  "\<exists>bar. overrideQuorumFrom sample_settings (jint 2) 10 = Fin (of_int bar) \<and> 7 \<le> bar"
proof -
  have "\<not> positive_int (jget (governance_config sample_settings) ''objectionOverrideQuorum'')"
    by (simp add: sample_settings_def governance_config_def positive_int_def is_integer_def)
  from override_quorum_bounds [OF this, of 2 10] show ?thesis by force
qed

lemma sample_settings_accepted: "settings_problem_of sample_settings = None"
  unfolding settings_problem_of_def sample_settings_def by code_simp

theorem accepted_settings_mean_what_they_say_witness:
  "timelockHours sample_settings = 48 \<and> objectionThreshold sample_settings = 1"
proof -
  have "keys_distinct (governance_config sample_settings)"
    by (simp add: keys_distinct_def governance_config_def sample_settings_def)
  moreover have "jget sample_settings ''governanceModel'' = JStr ''simple-majority''" "isVotingModel ''simple-majority''"
    by (simp_all add: sample_settings_def isVotingModel_def VOTING_MODELS_def)
  ultimately show ?thesis
    using accepted_settings_mean_what_they_say [OF sample_settings_accepted]
    by (auto simp: Let_def governance_config_def sample_settings_def)
qed

theorem normalized_settings_pass_the_apply_check_witness:
  "settings_problem_of sample_settings_short = Some (ProtectedMissing SETTINGS_COLLECTION) \<and>
   settings_problem_of (snd (checkGovernanceSettings sample_settings_short True)) = None"
proof -
  have a: "fst (checkGovernanceSettings sample_settings_short True) = None"
    and b: "\<not> has_removals (governance_config sample_settings_short)"
    and c: "settings_problem_of sample_settings_short = Some (ProtectedMissing SETTINGS_COLLECTION)"
    unfolding settings_problem_of_def sample_settings_short_def by code_simp+
  from a have "checkGovernanceSettings sample_settings_short True =
      (None, snd (checkGovernanceSettings sample_settings_short True))" by (metis prod.collapse)
  from normalized_settings_pass_the_apply_check [OF this b] c show ?thesis
    by (simp add: settings_problem_of_def)
qed

end
