(* ===== verification/Store.thy ===== *)
theory Store
  imports SettingsRules
begin

text \<open>
  The state the server keeps and the statements that touch it:
  \<^verbatim>\<open>src/repo/repo-engine.ts\<close>, \<^verbatim>\<open>src/db/client.ts\<close>, \<^verbatim>\<open>src/db/audit.ts\<close> and the
  membership projection of \<^verbatim>\<open>src/community/projections.ts\<close>.

  A repository is the set of records its signed tree holds; \<open>w_index\<close> is the table
  \<open>records_index\<close>, the read cache every query goes to. Both are kept, because they are
  written by different statements and a crash falls between them.
\<close>

subsection \<open>Values in the database\<close>

text \<open>\<open>JSON.parse(JSON.stringify(v))\<close>, which is what a \<open>jsonb\<close> column returns.\<close>

primrec json_clean :: "jv \<Rightarrow> jv" where
  "json_clean JUndef = JUndef"
| "json_clean JNull = JNull"
| "json_clean (JBool b) = JBool b"
| "json_clean (JNum n) = (case n of Fin q \<Rightarrow> JNum (Fin q) | _ \<Rightarrow> JNull)"
| "json_clean (JStr s) = JStr s"
| "json_clean (JArr xs) = JArr (map (\<lambda>v. if v = JUndef then JNull else v) (map json_clean xs))"
| "json_clean (JObj ps) = JObj (filter (\<lambda>p. snd p \<noteq> JUndef) (map (map_prod id json_clean) ps))"

text \<open>\<open>record->>'k'\<close>: SQL \<open>NULL\<close> for a missing or null member, the text otherwise.\<close>

definition json_text :: "(jv \<Rightarrow> string) \<Rightarrow> jv \<Rightarrow> string option" where
  "json_text T v = (case v of
      JUndef \<Rightarrow> None | JNull \<Rightarrow> None | JStr s \<Rightarrow> Some s
    | JBool b \<Rightarrow> Some (if b then ''true'' else ''false'') | _ \<Rightarrow> Some (T v))"

lemma json_text_simps [simp]:
  "json_text T JUndef = None" "json_text T JNull = None" "json_text T (JStr s) = Some s"
  by (simp_all add: json_text_def)

lemma json_clean_JUndef_iff [simp]: "json_clean v = JUndef \<longleftrightarrow> v = JUndef"
  by (cases v) (auto split: jnum.split)

lemma map_of_dropping_undef:
  assumes "distinct (map fst ps)"
  shows "map_of (filter (\<lambda>p. snd p \<noteq> JUndef) (map (map_prod id json_clean) ps)) k =
    (case map_of ps k of None \<Rightarrow> None | Some v \<Rightarrow> if v = JUndef then None else Some (json_clean v))"
  using assms
proof (induction ps)
  case (Cons p ps)
  obtain a v where p: "p = (a, v)" by (cases p)
  have "map_of ps a = None" using Cons.prems p by (simp add: map_of_eq_None_iff)
  with Cons p show ?case by (auto split: option.split)
qed simp

lemma jget_json_clean:
  assumes "distinct (map fst (entries v))"
  shows "jget (json_clean v) k = json_clean (jget v k)"
proof (cases v)
  case (JNum n)
  then show ?thesis by (cases n) simp_all
qed (use assms in \<open>simp_all add: map_of_dropping_undef split: option.split\<close>)

subsection \<open>The tables\<close>

type_synonym mst = "((string \<times> string) \<times> jv) list"

record member_row =
  m_record_rkey :: string
  m_handle :: "string option"
  m_role :: "string option"
  m_role_rkey :: "string option"
  m_kind :: "string option"
  m_tags :: jv
  m_attributes :: jv
  m_display_name :: "string option"
  m_avatar_url :: "string option"
  m_created_at :: int

record community_row =
  c_handle :: string
  c_created_by :: "string option"
  c_owner_did :: "string option"
  c_status :: string
  c_exported_at :: "string option"
  c_did_method :: string
  c_created_at :: int
  c_status_reason :: "string option"

record join_row =
  jr_id :: string
  jr_user_did :: string
  jr_status :: string

record user_row =
  u_id :: string
  u_did :: string
  u_handle :: string
  u_auth_type :: string
  u_created_at :: int

record audit_entry =
  au_action :: string
  au_actor :: "string option"
  au_target :: "string option"
  au_meta :: jv

text \<open>
  \<open>w_ops\<close>, \<open>w_ticks\<close> and \<open>w_tids\<close> count the statements executed, the readings of the
  clock and the record keys generated; \<open>w_probation\<close> is the process's count of the writes a
  new pseudonymous account made on a day.
\<close>

record world =
  w_ops :: nat
  w_ticks :: nat
  w_tids :: nat
  w_repos :: "(string \<times> mst) list"
  w_index :: "((string \<times> string \<times> string) \<times> (string \<times> jv)) list"
  w_members :: "((string \<times> string) \<times> member_row) list"
  w_communities :: "(string \<times> community_row) list"
  w_joins :: "((string \<times> string) \<times> join_row) list"
  w_users :: "user_row list"
  w_audit :: "audit_entry list"
  w_probation :: "(string \<times> (string \<times> nat)) list"

text \<open>The operations of the repository library, and those of the engine around it.\<close>

datatype write_op =
    CreateOp string string jv
  | UpdateOp string string jv
  | DeleteOp string string

datatype engine_op =
    WriteRec string string jv
  | DelRec string string

text \<open>
  How a statement fails: refused before it took effect, or executed with the
  acknowledgement lost, so that the caller sees an error all the same.
\<close>

datatype fault = Refused exn | Unacked exn

text \<open>
  What the code takes from outside: the clock, generated keys, the database's failures,
  what other requests do while this one waits for an advisory lock, the content
  identifier of a record and the effect of a signed commit (the repository library), the
  key store, date strings other than canonical ones, the text of a number,
  \<open>localeCompare\<close>, the e-mail policy, the notary registered for a chain with the time
  an attempt may take, the probation of new pseudonymous accounts, and the protocol and the
  normal form the platform's URL parser finds in a string, if it accepts it.
\<close>

record env =
  e_clock :: "nat \<Rightarrow> int"
  e_tid :: "nat \<Rightarrow> string"
  e_uuid :: "nat \<Rightarrow> string"
  e_fault :: "nat \<Rightarrow> fault option"
  e_wait :: "nat \<Rightarrow> world \<Rightarrow> world"
  e_cid :: "jv \<Rightarrow> exn + string"
  e_commit :: "mst \<Rightarrow> write_op list \<Rightarrow> exn + mst"
  e_nokey :: "string \<Rightarrow> exn option"
  e_date :: "string \<Rightarrow> int option"
  e_text :: "jv \<Rightarrow> string"
  e_locale_lt :: "string \<Rightarrow> string \<Rightarrow> bool"
  e_write_gate :: bool
  e_anchor :: "string \<Rightarrow> (nat \<Rightarrow> string \<Rightarrow> exn + jv) option"
  e_anchor_timeout :: int
  e_probationDays :: int
  e_probationWrites :: int
  e_url :: "string \<Rightarrow> (string \<times> string) option"

type_synonym 'a io = "(world, exn, 'a) prog"

subsection \<open>Statements\<close>

definition dbTxn :: "env \<Rightarrow> (world \<Rightarrow> exn + world) \<Rightarrow> unit io" where
  "dbTxn env f s =
     (let s1 = s\<lparr>w_ops := Suc (w_ops s)\<rparr>
      in case e_fault env (w_ops s) of
           Some (Refused e) \<Rightarrow> (Inl e, s1)
         | Some (Unacked e) \<Rightarrow> (Inl e, case f s1 of Inl _ \<Rightarrow> s1 | Inr s2 \<Rightarrow> s2)
         | None \<Rightarrow> (case f s1 of Inl e \<Rightarrow> (Inl e, s1) | Inr s2 \<Rightarrow> (Inr (), s2)))"

definition dbWrite :: "env \<Rightarrow> (world \<Rightarrow> world) \<Rightarrow> unit io" where
  "dbWrite env f = dbTxn env (\<lambda>s. Inr (f s))"

definition dbRead :: "env \<Rightarrow> (world \<Rightarrow> 'a) \<Rightarrow> 'a io" where
  "dbRead env f s =
     (let s1 = s\<lparr>w_ops := Suc (w_ops s)\<rparr>
      in case e_fault env (w_ops s) of
           Some (Refused e) \<Rightarrow> (Inl e, s1)
         | Some (Unacked e) \<Rightarrow> (Inl e, s1)
         | None \<Rightarrow> (Inr (f s), s1))"

text \<open>
  \<open>withAdvisoryLock\<close>: other requests run while this one waits for the lock; nothing that
  takes the same lock runs while it is held. Releasing it never fails.
\<close>

definition withAdvisoryLock :: "env \<Rightarrow> string \<Rightarrow> 'a io \<Rightarrow> 'a io" where
  "withAdvisoryLock env key operation =
     bindM (dbRead env (\<lambda>_. ())) (\<lambda>_ s. operation (e_wait env (w_ops s) s))"

definition nowMs :: "env \<Rightarrow> int io" where
  "nowMs env s = (Inr (e_clock env (w_ticks s)), s\<lparr>w_ticks := Suc (w_ticks s)\<rparr>)"

definition nowIso :: "env \<Rightarrow> string io" where
  "nowIso env = bindM (nowMs env) (\<lambda>t. ret (iso t))"

definition generateTid :: "env \<Rightarrow> string io" where
  "generateTid env s = (Inr (e_tid env (w_tids s)), s\<lparr>w_tids := Suc (w_tids s)\<rparr>)"

text \<open>\<open>getKeypairForDid\<close>, as far as a caller can tell: it returns or throws.\<close>

definition getKeypairForDid :: "env \<Rightarrow> string \<Rightarrow> unit io" where
  "getKeypairForDid env did = (case e_nokey env did of None \<Rightarrow> ret () | Some e \<Rightarrow> throw e)"

definition cidForRecord :: "env \<Rightarrow> jv \<Rightarrow> string io" where
  "cidForRecord env rec = liftE (e_cid env rec)"

subsection \<open>The audit log\<close>

definition is_pseudonym :: "world \<Rightarrow> string option \<Rightarrow> string option \<Rightarrow> bool" where
  "is_pseudonym s actor target \<longleftrightarrow>
     (\<exists>u \<in> set (w_users s). u_auth_type u = ''pseudonym'' \<and>
        (Some (u_id u) = actor \<or> Some (u_id u) = target \<or> Some (u_did u) = target))"

definition auditLog :: "env \<Rightarrow> string \<Rightarrow> string option \<Rightarrow> string option \<Rightarrow> jv \<Rightarrow> unit io" where
  "auditLog env action actor target meta =
     catchM (dbWrite env (\<lambda>s. if is_pseudonym s actor target then s
        else s\<lparr>w_audit := w_audit s @ [\<lparr>au_action = action, au_actor = actor, au_target = target,
               au_meta = (if truthy meta then json_clean meta else JNull)\<rparr>]\<rparr>))
       (\<lambda>_. ret ())"

subsection \<open>The read cache\<close>

definition MEMBER_COLLECTION :: string where
  "MEMBER_COLLECTION = ''net.openfederation.community.member''"
definition ROLE_COLLECTION :: string where
  "ROLE_COLLECTION = ''net.openfederation.community.role''"

lemma member_collection_distinct [simp]:
  "MEMBER_COLLECTION \<noteq> PROPOSAL_COLLECTION" "PROPOSAL_COLLECTION \<noteq> MEMBER_COLLECTION"
  "MEMBER_COLLECTION \<noteq> VOTE_COLLECTION" "VOTE_COLLECTION \<noteq> MEMBER_COLLECTION"
  "MEMBER_COLLECTION \<noteq> DECISION_COLLECTION" "DECISION_COLLECTION \<noteq> MEMBER_COLLECTION"
  "MEMBER_COLLECTION \<noteq> OBJECTION_COLLECTION" "OBJECTION_COLLECTION \<noteq> MEMBER_COLLECTION"
  "MEMBER_COLLECTION \<noteq> SETTINGS_COLLECTION" "SETTINGS_COLLECTION \<noteq> MEMBER_COLLECTION"
  "MEMBER_COLLECTION \<noteq> ROLE_COLLECTION" "ROLE_COLLECTION \<noteq> MEMBER_COLLECTION"
  by (simp_all add: collection_defs MEMBER_COLLECTION_def ROLE_COLLECTION_def)

definition indexed :: "world \<Rightarrow> string \<Rightarrow> string \<Rightarrow> string \<Rightarrow> (string \<times> jv) option" where
  "indexed s did coll rkey = map_of (w_index s) (did, coll, rkey)"

definition index_put :: "string \<Rightarrow> string \<Rightarrow> string \<Rightarrow> string \<Rightarrow> jv \<Rightarrow> world \<Rightarrow> world" where
  "index_put did coll rkey cid rec s =
     s\<lparr>w_index := AList.update (did, coll, rkey) (cid, json_clean rec) (w_index s)\<rparr>"

definition index_del :: "string \<Rightarrow> string \<Rightarrow> string \<Rightarrow> world \<Rightarrow> world" where
  "index_del did coll rkey s = s\<lparr>w_index := AList.delete (did, coll, rkey) (w_index s)\<rparr>"

definition coalesce :: "'a option \<Rightarrow> 'a option \<Rightarrow> 'a option" where
  "coalesce a b = (case a of None \<Rightarrow> b | Some _ \<Rightarrow> a)"

definition projectMemberRow :: "env \<Rightarrow> string \<Rightarrow> string \<Rightarrow> jv \<Rightarrow> world \<Rightarrow> world" where
  "projectMemberRow env communityDid rkey rec s =
     (let did = jget rec ''did'';
          col = (\<lambda>k. json_text (e_text env) (jget rec k));
          json = (\<lambda>k. if truthy (jget rec k) then json_clean (jget rec k) else JNull)
      in case json_text (e_text env) did of
           None \<Rightarrow> s
         | Some member \<Rightarrow>
           if \<not> truthy did then s
           else (let old = map_of (w_members s) (communityDid, member);
                     row = \<lparr>m_record_rkey = rkey,
                            m_handle = coalesce (col ''handle'') (Option.bind old m_handle),
                            m_role = coalesce (col ''role'') (Option.bind old m_role),
                            m_role_rkey = col ''roleRkey'',
                            m_kind = col ''kind'',
                            m_tags = json ''tags'',
                            m_attributes = json ''attributes'',
                            m_display_name = Option.bind old m_display_name,
                            m_avatar_url = Option.bind old m_avatar_url,
                            m_created_at = (case old of None \<Rightarrow> e_clock env (w_ticks s) | Some r \<Rightarrow> m_created_at r)\<rparr>
                 in s\<lparr>w_members := AList.update (communityDid, member) row (w_members s)\<rparr>))"

text \<open>One transaction; the content identifier is computed only when the caller has none.\<close>

fun sync_ops :: "env \<Rightarrow> string \<Rightarrow> (write_op \<times> string option) list \<Rightarrow> world \<Rightarrow> exn + world" where
  "sync_ops env did [] s = Inr s"
| "sync_ops env did ((DeleteOp coll rkey, _) # ops) s = sync_ops env did ops (index_del did coll rkey s)"
| "sync_ops env did ((CreateOp coll rkey rec, cid) # ops) s =
     (case (case cid of Some c \<Rightarrow> Inr c | None \<Rightarrow> e_cid env rec) of
        Inl e \<Rightarrow> Inl e
      | Inr c \<Rightarrow>
        (let s1 = index_put did coll rkey c rec s
         in sync_ops env did ops
              (if coll = MEMBER_COLLECTION then projectMemberRow env did rkey rec s1 else s1)))"
| "sync_ops env did ((UpdateOp coll rkey rec, cid) # ops) s =
     (case (case cid of Some c \<Rightarrow> Inr c | None \<Rightarrow> e_cid env rec) of
        Inl e \<Rightarrow> Inl e
      | Inr c \<Rightarrow>
        (let s1 = index_put did coll rkey c rec s
         in sync_ops env did ops
              (if coll = MEMBER_COLLECTION then projectMemberRow env did rkey rec s1 else s1)))"

definition syncRecordsIndex :: "env \<Rightarrow> string \<Rightarrow> (write_op \<times> string option) list \<Rightarrow> unit io" where
  "syncRecordsIndex env did ops = dbTxn env (sync_ops env did ops)"

definition removeFromRecordsIndex :: "env \<Rightarrow> string \<Rightarrow> string \<Rightarrow> string \<Rightarrow> unit io" where
  "removeFromRecordsIndex env did coll rkey =
     seqM (dbWrite env (index_del did coll rkey))
       (if coll = MEMBER_COLLECTION then
          dbWrite env (\<lambda>s. s\<lparr>w_members :=
            filter (\<lambda>((c, _), row). \<not> (c = did \<and> m_record_rkey row = rkey)) (w_members s)\<rparr>)
        else ret ())"

subsection \<open>The repository engine\<close>

definition hasRepo :: "env \<Rightarrow> string \<Rightarrow> bool io" where
  "hasRepo env did = dbRead env (\<lambda>s. map_of (w_repos s) did \<noteq> None)"

text \<open>\<open>Repo.load\<close> reads the root of the storage and throws when there is none.\<close>

definition loadRepo :: "env \<Rightarrow> string \<Rightarrow> mst io" where
  "loadRepo env did =
     bindM (dbRead env (\<lambda>s. map_of (w_repos s) did))
       (\<lambda>r. case r of None \<Rightarrow> throw (Failure ''No cid provided and none in storage'') | Some t \<Rightarrow> ret t)"

text \<open>
  \<open>repo.applyWrites\<close> computes the new tree from the loaded one, and the storage writes
  its blocks and root in one transaction.
\<close>

definition commitRepo :: "env \<Rightarrow> string \<Rightarrow> mst \<Rightarrow> write_op list \<Rightarrow> unit io" where
  "commitRepo env did t ops =
     bindM (liftE (e_commit env t ops))
       (\<lambda>t'. dbWrite env (\<lambda>s. s\<lparr>w_repos := AList.update did t' (w_repos s)\<rparr>))"

definition putRecord :: "env \<Rightarrow> string \<Rightarrow> string \<Rightarrow> string \<Rightarrow> jv \<Rightarrow> (string \<times> string) io" where
  "putRecord env did coll rkey rec =
     bindM (loadRepo env did) (\<lambda>t.
     bindM (dbRead env (\<lambda>s. indexed s did coll rkey \<noteq> None)) (\<lambda>existing.
     bindM (cidForRecord env rec) (\<lambda>cid.
       let wop = (if existing then UpdateOp coll rkey rec else CreateOp coll rkey rec)
       in seqM (commitRepo env did t [wop])
            (seqM (syncRecordsIndex env did [(wop, Some cid)])
               (ret (cid, at_uri did coll rkey))))))"

definition joined_key :: "string \<Rightarrow> string \<Rightarrow> string" where
  "joined_key coll rkey = coll @ ''/'' @ rkey"

definition existing_keys :: "world \<Rightarrow> string \<Rightarrow> string list \<Rightarrow> string list" where
  "existing_keys s did keys =
     filter (\<lambda>k. k \<in> set keys)
       (map (\<lambda>((_, coll, rkey), _). joined_key coll rkey)
          (filter (\<lambda>((d, _, _), _). d = did) (w_index s)))"

text \<open>The loop of \<open>applyWrites\<close> that prepares the operations, in order.\<close>

fun prepare_ops :: "env \<Rightarrow> string list \<Rightarrow> engine_op list \<Rightarrow> exn + (write_op \<times> string option) list" where
  "prepare_ops env existing [] = Inr []"
| "prepare_ops env existing (DelRec coll rkey # ops) =
     (case prepare_ops env existing ops of
        Inl e \<Rightarrow> Inl e | Inr rest \<Rightarrow> Inr ((DeleteOp coll rkey, None) # rest))"
| "prepare_ops env existing (WriteRec coll rkey rec # ops) =
     (case e_cid env rec of
        Inl e \<Rightarrow> Inl e
      | Inr cid \<Rightarrow>
        (case prepare_ops env existing ops of
           Inl e \<Rightarrow> Inl e
         | Inr rest \<Rightarrow>
             Inr ((if joined_key coll rkey \<in> set existing then UpdateOp coll rkey rec
                   else CreateOp coll rkey rec, Some cid) # rest)))"

fun write_keys :: "engine_op list \<Rightarrow> string list" where
  "write_keys [] = []"
| "write_keys (WriteRec coll rkey _ # ops) = joined_key coll rkey # write_keys ops"
| "write_keys (DelRec _ _ # ops) = write_keys ops"

definition sync_one :: "env \<Rightarrow> string \<Rightarrow> write_op \<times> string option \<Rightarrow> unit io" where
  "sync_one env did op = (case fst op of
      DeleteOp coll rkey \<Rightarrow> removeFromRecordsIndex env did coll rkey
    | _ \<Rightarrow> syncRecordsIndex env did [op])"

text \<open>
  The results are the record's URI and, for a write, its content identifier, in the order
  of the operations.
\<close>

definition op_result :: "string \<Rightarrow> write_op \<times> string option \<Rightarrow> string \<times> string option" where
  "op_result did op = (case fst op of
      DeleteOp coll rkey \<Rightarrow> (at_uri did coll rkey, None)
    | CreateOp coll rkey _ \<Rightarrow> (at_uri did coll rkey, snd op)
    | UpdateOp coll rkey _ \<Rightarrow> (at_uri did coll rkey, snd op))"

definition applyWrites :: "env \<Rightarrow> string \<Rightarrow> engine_op list \<Rightarrow> (string \<times> string option) list io" where
  "applyWrites env did ops =
     (if ops = [] then ret []
      else bindM (loadRepo env did) (\<lambda>t.
           bindM (if write_keys ops = [] then ret []
                  else dbRead env (\<lambda>s. existing_keys s did (write_keys ops))) (\<lambda>existing.
           bindM (liftE (prepare_ops env existing ops)) (\<lambda>prepared.
           seqM (commitRepo env did t (map fst prepared))
             (seqM (foldM (\<lambda>_ op. sync_one env did op) () prepared)
                (ret (map (op_result did) prepared)))))))"

definition deleteRecord :: "env \<Rightarrow> string \<Rightarrow> string \<Rightarrow> string \<Rightarrow> unit io" where
  "deleteRecord env did coll rkey =
     bindM (loadRepo env did) (\<lambda>t.
       seqM (commitRepo env did t [DeleteOp coll rkey]) (removeFromRecordsIndex env did coll rkey))"

definition createRepo :: "env \<Rightarrow> string \<Rightarrow> (string \<times> string \<times> jv) list option \<Rightarrow> unit io" where
  "createRepo env did initialWrites =
     (let creates = map (\<lambda>(coll, rkey, rec). CreateOp coll rkey rec)
                      (case initialWrites of None \<Rightarrow> [] | Some ws \<Rightarrow> ws)
      in seqM (commitRepo env did [] creates)
           (if initialWrites = None then ret ()
            else syncRecordsIndex env did (map (\<lambda>c. (c, None)) creates)))"

definition getRecord :: "env \<Rightarrow> string \<Rightarrow> string \<Rightarrow> string \<Rightarrow> (string \<times> jv) option io" where
  "getRecord env did coll rkey = dbRead env (\<lambda>s. indexed s did coll rkey)"

text \<open>The rows of one collection of one repository, as \<open>(rkey, cid, record)\<close>.\<close>

definition coll_rows :: "world \<Rightarrow> string \<Rightarrow> string \<Rightarrow> (string \<times> string \<times> jv) list" where
  "coll_rows s did coll =
     map (\<lambda>((_, _, rkey), (cid, rec)). (rkey, cid, rec))
       (filter (\<lambda>((d, c, _), _). d = did \<and> c = coll) (w_index s))"

definition listRecords ::
  "env \<Rightarrow> string \<Rightarrow> string \<Rightarrow> nat \<Rightarrow> string \<Rightarrow> bool
   \<Rightarrow> ((string \<times> string \<times> jv) list \<times> string option) io" where
  "listRecords env did coll limit cursor reverse =
     bindM (dbRead env (\<lambda>s.
        take (limit + 1)
          (sort_lt (\<lambda>a b. if reverse then fst b < fst a else fst a < fst b)
             (filter (\<lambda>(rkey, _). cursor = [] \<or> (if reverse then rkey < cursor else cursor < rkey))
                (coll_rows s did coll)))))
       (\<lambda>rows.
          if length rows \<le> limit then ret (rows, None)
          else if limit = 0 then throw (TypeError ''Cannot read properties'')
          else ret (take limit rows, Some (fst (last (take limit rows)))))"

definition exportAllRecords ::
  "env \<Rightarrow> string \<Rightarrow> nat option \<Rightarrow> (string \<times> string \<times> string \<times> jv) list io" where
  "exportAllRecords env did limit =
     dbRead env (\<lambda>s.
       let rows = sort_lt (\<lambda>(c, r, _) (c', r', _). c < c' \<or> (c = c' \<and> r < r'))
             (map (\<lambda>((_, coll, rkey), (cid, rec)). (coll, rkey, cid, rec))
                (filter (\<lambda>((d, _, _), _). d = did) (w_index s)))
       in case limit of None \<Rightarrow> rows | Some n \<Rightarrow> take n rows)"

subsection \<open>Executing statements\<close>

lemma runs_dbTxn:
  "runs (dbTxn env f) s Q \<longleftrightarrow>
   (case e_fault env (w_ops s) of
      Some (Refused e) \<Rightarrow> Q (Inl e) (s\<lparr>w_ops := Suc (w_ops s)\<rparr>)
    | Some (Unacked e) \<Rightarrow> Q (Inl e) (case f (s\<lparr>w_ops := Suc (w_ops s)\<rparr>) of
        Inl _ \<Rightarrow> s\<lparr>w_ops := Suc (w_ops s)\<rparr> | Inr s2 \<Rightarrow> s2)
    | None \<Rightarrow> (case f (s\<lparr>w_ops := Suc (w_ops s)\<rparr>) of
        Inl e \<Rightarrow> Q (Inl e) (s\<lparr>w_ops := Suc (w_ops s)\<rparr>) | Inr s2 \<Rightarrow> Q (Inr ()) s2))"
  by (simp add: runs_def dbTxn_def Let_def split: option.split fault.split sum.split)

lemma runs_dbTxnI:
  assumes "\<And>e. Q (Inl e) (s\<lparr>w_ops := Suc (w_ops s)\<rparr>)"
    and "\<And>s2. f (s\<lparr>w_ops := Suc (w_ops s)\<rparr>) = Inr s2 \<Longrightarrow> Q (Inr ()) s2"
    and "\<And>s2 e. f (s\<lparr>w_ops := Suc (w_ops s)\<rparr>) = Inr s2 \<Longrightarrow> Q (Inl e) s2"
  shows "runs (dbTxn env f) s Q"
  using assms by (auto simp: runs_dbTxn split: option.split fault.split sum.split)

lemma runs_dbWriteI:
  assumes "\<And>e. Q (Inl e) (s\<lparr>w_ops := Suc (w_ops s)\<rparr>)"
    and "Q (Inr ()) (f (s\<lparr>w_ops := Suc (w_ops s)\<rparr>))"
    and "\<And>e. Q (Inl e) (f (s\<lparr>w_ops := Suc (w_ops s)\<rparr>))"
  shows "runs (dbWrite env f) s Q"
  unfolding dbWrite_def by (rule runs_dbTxnI) (use assms in auto)

lemma runs_dbReadI:
  assumes "\<And>e. Q (Inl e) (s\<lparr>w_ops := Suc (w_ops s)\<rparr>)"
    and "Q (Inr (f s)) (s\<lparr>w_ops := Suc (w_ops s)\<rparr>)"
  shows "runs (dbRead env f) s Q"
  using assms by (auto simp: runs_def dbRead_def Let_def split: option.split fault.split)

lemma runs_nowMs [simp]:
  "runs (nowMs env) s Q \<longleftrightarrow> Q (Inr (e_clock env (w_ticks s))) (s\<lparr>w_ticks := Suc (w_ticks s)\<rparr>)"
  by (simp add: runs_def nowMs_def)

lemma runs_nowIso [simp]:
  "runs (nowIso env) s Q \<longleftrightarrow> Q (Inr (iso (e_clock env (w_ticks s)))) (s\<lparr>w_ticks := Suc (w_ticks s)\<rparr>)"
  by (simp add: nowIso_def runs_bindM)

lemma runs_generateTid [simp]:
  "runs (generateTid env) s Q \<longleftrightarrow> Q (Inr (e_tid env (w_tids s))) (s\<lparr>w_tids := Suc (w_tids s)\<rparr>)"
  by (simp add: runs_def generateTid_def)

lemma runs_getKeypairForDid [simp]:
  "runs (getKeypairForDid env did) s Q \<longleftrightarrow>
   (case e_nokey env did of None \<Rightarrow> Q (Inr ()) s | Some e \<Rightarrow> Q (Inl e) s)"
  by (simp add: getKeypairForDid_def split: option.split)

lemma runs_cidForRecord [simp]: "runs (cidForRecord env rec) s Q \<longleftrightarrow> Q (e_cid env rec) s"
  by (simp add: cidForRecord_def)

subsection \<open>Relations every statement respects\<close>

text \<open>
  A preorder on the state that ignores the counters is respected by a program once it is
  respected by the writes it makes.
\<close>

locale world_preorder = state_preorder R for R :: "world \<Rightarrow> world \<Rightarrow> bool" +
  assumes R_ops: "R s (s\<lparr>w_ops := n\<rparr>)"
    and R_ticks: "R s (s\<lparr>w_ticks := n\<rparr>)"
    and R_tids: "R s (s\<lparr>w_tids := n\<rparr>)"
begin

lemma mv_dbRead: "moves R (dbRead env f)"
  by (auto simp: moves_runs intro: runs_dbReadI R_ops)

lemma mv_dbTxn: "(\<And>s s'. f s = Inr s' \<Longrightarrow> R s s') \<Longrightarrow> moves R (dbTxn env f)"
  unfolding moves_runs by (auto intro!: runs_dbTxnI R_ops intro: R_trans [OF R_ops])

lemma mv_dbWrite: "(\<And>s. R s (f s)) \<Longrightarrow> moves R (dbWrite env f)"
  unfolding moves_runs by (auto intro!: runs_dbWriteI R_ops intro: R_trans [OF R_ops])

lemma mv_nowMs: "moves R (nowMs env)"
  by (simp add: moves_runs R_ticks)

lemma mv_nowIso: "moves R (nowIso env)"
  by (simp add: moves_runs R_ticks)

lemma mv_generateTid: "moves R (generateTid env)"
  by (simp add: moves_runs R_tids)

lemma mv_getKeypairForDid: "moves R (getKeypairForDid env did)"
  by (simp add: moves_runs R_refl split: option.split)

lemma mv_cidForRecord: "moves R (cidForRecord env rec)"
  by (simp add: cidForRecord_def mv_liftE)

lemma mv_hasRepo: "moves R (hasRepo env did)"
  by (simp add: hasRepo_def mv_dbRead)

lemma mv_loadRepo: "moves R (loadRepo env did)"
  unfolding loadRepo_def by (intro mv_bind mv_dbRead) (auto intro: mv_rules split: option.split)

lemma mv_withAdvisoryLock:
  assumes "\<And>n s. R s (e_wait env n s)" and "moves R operation"
  shows "moves R (withAdvisoryLock env key operation)"
  unfolding withAdvisoryLock_def
proof (rule mv_bind [OF mv_dbRead])
  fix x :: unit
  show "moves R (\<lambda>s. operation (e_wait env (w_ops s) s))"
    using assms by (auto simp: moves_def intro: R_trans)
qed

lemmas mv_reads =
  mv_dbRead mv_nowMs mv_nowIso mv_generateTid mv_getKeypairForDid mv_cidForRecord mv_hasRepo mv_loadRepo

end

text \<open>The audit log only grows.\<close>

definition audit_grows :: "world \<Rightarrow> world \<Rightarrow> bool" where
  "audit_grows s t \<longleftrightarrow> (\<exists>more. w_audit t = w_audit s @ more)"

interpretation audit_grows: world_preorder audit_grows
  by unfold_locales (auto simp: audit_grows_def)

interpretation frame_repos: world_preorder "frames w_repos"
  by unfold_locales (auto simp: frames_def)

interpretation frame_index: world_preorder "frames w_index"
  by unfold_locales (auto simp: frames_def)

interpretation frame_audit: world_preorder "frames w_audit"
  by unfold_locales (auto simp: frames_def)

text \<open>
  A relation that also holds across a write to the repositories, to the two derived tables
  and to the log holds across every operation below, and across every handler built of
  them.
\<close>

locale store_preorder = world_preorder R for R :: "world \<Rightarrow> world \<Rightarrow> bool" +
  assumes R_repos: "R s (s\<lparr>w_repos := x\<rparr>)"
    and R_index: "R s (s\<lparr>w_index := y\<rparr>)"
    and R_members: "R s (s\<lparr>w_members := z\<rparr>)"
    and R_log: "\<not> is_pseudonym s (au_actor a) (au_target a) \<Longrightarrow> R s (s\<lparr>w_audit := w_audit s @ [a]\<rparr>)"
begin

lemma R_index_put: "R s (index_put did coll rkey cid rec s)"
  by (simp add: index_put_def R_index)

lemma R_index_del: "R s (index_del did coll rkey s)"
  by (simp add: index_del_def R_index)

lemma R_project: "R s (projectMemberRow env did rkey rec s)"
  by (simp add: projectMemberRow_def Let_def R_refl R_members split: option.split)

lemma R_sync_ops: "sync_ops env did ops s = Inr s' \<Longrightarrow> R s s'"
proof (induction env did ops s rule: sync_ops.induct)
  case (2 env did coll rkey cid ops s)
  then show ?case by (auto intro: R_trans R_index_del)
next
  case (3 env did coll rkey rec cid ops s)
  from "3.prems" obtain c where c: "(case cid of Some c \<Rightarrow> Inr c | None \<Rightarrow> e_cid env rec) = Inr c"
    by (auto split: sum.splits)
  let ?s1 = "index_put did coll rkey c rec s"
  let ?s2 = "if coll = MEMBER_COLLECTION then projectMemberRow env did rkey rec ?s1 else ?s1"
  have "R s ?s2" by (auto intro: R_trans [OF R_index_put R_project] R_index_put)
  moreover from "3.IH" [OF c refl] "3.prems" c have "R ?s2 s'" by (simp add: Let_def)
  ultimately show ?case by (rule R_trans)
next
  case (4 env did coll rkey rec cid ops s)
  from "4.prems" obtain c where c: "(case cid of Some c \<Rightarrow> Inr c | None \<Rightarrow> e_cid env rec) = Inr c"
    by (auto split: sum.splits)
  let ?s1 = "index_put did coll rkey c rec s"
  let ?s2 = "if coll = MEMBER_COLLECTION then projectMemberRow env did rkey rec ?s1 else ?s1"
  have "R s ?s2" by (auto intro: R_trans [OF R_index_put R_project] R_index_put)
  moreover from "4.IH" [OF c refl] "4.prems" c have "R ?s2 s'" by (simp add: Let_def)
  ultimately show ?case by (rule R_trans)
qed (auto simp: R_refl)

lemma mv_auditLog: "moves R (auditLog env action actor target meta)"
  unfolding auditLog_def by (intro mv_catch mv_ret mv_dbWrite) (auto simp: R_refl R_log)

lemma mv_syncRecordsIndex: "moves R (syncRecordsIndex env did ops)"
  unfolding syncRecordsIndex_def by (rule mv_dbTxn) (rule R_sync_ops)

lemma mv_removeFromRecordsIndex: "moves R (removeFromRecordsIndex env did coll rkey)"
  unfolding removeFromRecordsIndex_def
  by (intro mv_seq mv_if mv_ret mv_dbWrite R_index_del R_members)

lemma mv_commitRepo: "moves R (commitRepo env did t ops)"
  unfolding commitRepo_def by (intro mv_bind mv_liftE mv_dbWrite R_repos)

lemma mv_putRecord: "moves R (putRecord env did coll rkey rec)"
  unfolding putRecord_def Let_def
  by (intro mv_bind mv_seq mv_reads mv_ret mv_commitRepo mv_syncRecordsIndex)

lemma mv_sync_one: "moves R (sync_one env did op)"
  unfolding sync_one_def
  by (auto intro: mv_syncRecordsIndex mv_removeFromRecordsIndex split: write_op.split)

lemma mv_applyWrites: "moves R (applyWrites env did ops)"
  unfolding applyWrites_def
  by (intro mv_if mv_bind mv_seq mv_fold mv_reads mv_ret mv_liftE mv_commitRepo mv_sync_one)

lemma mv_deleteRecord: "moves R (deleteRecord env did coll rkey)"
  unfolding deleteRecord_def
  by (intro mv_bind mv_seq mv_reads mv_commitRepo mv_removeFromRecordsIndex)

lemma mv_createRepo: "moves R (createRepo env did ws)"
  unfolding createRepo_def Let_def
  by (intro mv_seq mv_if mv_ret mv_commitRepo mv_syncRecordsIndex)

lemmas mv_store =
  mv_auditLog mv_syncRecordsIndex mv_removeFromRecordsIndex mv_commitRepo mv_putRecord
  mv_applyWrites mv_deleteRecord mv_createRepo

end

interpretation audit_log: store_preorder audit_grows
  by unfold_locales (auto simp: audit_grows_def)

text \<open>Accounts, communities and join requests are tables these programs only read.\<close>

interpretation users_fixed: store_preorder "frames w_users"
  by unfold_locales (auto simp: frames_def)

interpretation communities_fixed: store_preorder "frames w_communities"
  by unfold_locales (auto simp: frames_def)

text \<open>No entry of the log names the account of a pseudonymous user.\<close>

definition no_pseudonym_logged :: "world \<Rightarrow> bool" where
  "no_pseudonym_logged s \<longleftrightarrow> (\<forall>a \<in> set (w_audit s). \<not> is_pseudonym s (au_actor a) (au_target a))"

lemma is_pseudonym_frame: "w_users t = w_users s \<Longrightarrow> is_pseudonym t = is_pseudonym s"
  by (simp add: is_pseudonym_def fun_eq_iff)

interpretation pseudonyms: store_preorder "keeps no_pseudonym_logged"
  by unfold_locales
    (auto simp: keeps_def no_pseudonym_logged_def is_pseudonym_def)

subsection \<open>The cache as an image of the signed repository\<close>

text \<open>
  What a table of records promises its users: a record written is the record read, a
  record deleted is gone, and nothing else moves. Both the read cache and the set of
  records a commit produces are such tables, so a batch of operations means the same to
  both.
\<close>

datatype ('k, 'v) table_op = Put 'k 'v | Del 'k

fun op_effect :: "('k, 'v) table_op \<Rightarrow> ('k \<Rightarrow> 'v option) \<Rightarrow> 'k \<Rightarrow> 'v option" where
  "op_effect (Put k v) m = m(k \<mapsto> v)"
| "op_effect (Del k) m = m(k := None)"

definition ops_effect :: "('k, 'v) table_op list \<Rightarrow> ('k \<Rightarrow> 'v option) \<Rightarrow> 'k \<Rightarrow> 'v option" where
  "ops_effect ops m = fold op_effect ops m"

fun op_key :: "('k, 'v) table_op \<Rightarrow> 'k" where
  "op_key (Put k _) = k"
| "op_key (Del k) = k"

fun op_map :: "('v \<Rightarrow> 'w) \<Rightarrow> ('k, 'v) table_op \<Rightarrow> ('k, 'w) table_op" where
  "op_map f (Put k v) = Put k (f v)"
| "op_map f (Del k) = Del k"

lemma ops_effect_simps [simp]:
  "ops_effect [] m = m" "ops_effect (x # xs) m = ops_effect xs (op_effect x m)"
  by (simp_all add: ops_effect_def)

lemma ops_effect_other: "k \<notin> op_key ` set ops \<Longrightarrow> ops_effect ops m k = m k"
proof (induction ops arbitrary: m)
  case (Cons x xs)
  then show ?case by (cases x) auto
qed simp

lemma ops_effect_map:
  "ops_effect (map (op_map f) ops) (\<lambda>k. map_option f (m k)) k = map_option f (ops_effect ops m k)"
proof (induction ops arbitrary: m)
  case (Cons x xs)
  have "op_effect (op_map f x) (\<lambda>k. map_option f (m k)) = (\<lambda>k. map_option f (op_effect x m k))"
    by (cases x) (auto simp: fun_eq_iff)
  with Cons.IH [of "op_effect x m"] show ?case by simp
qed simp

locale record_table =
  fixes look :: "'s \<Rightarrow> 'k \<Rightarrow> 'v option"
    and put :: "'k \<Rightarrow> 'v \<Rightarrow> 's \<Rightarrow> 's"
    and del :: "'k \<Rightarrow> 's \<Rightarrow> 's"
  assumes look_put: "look (put k v s) k' = (if k' = k then Some v else look s k')"
    and look_del: "look (del k s) k' = (if k' = k then None else look s k')"
begin

fun perform :: "('k, 'v) table_op \<Rightarrow> 's \<Rightarrow> 's" where
  "perform (Put k v) s = put k v s"
| "perform (Del k) s = del k s"

lemma look_perform: "look (perform x s) = op_effect x (look s)"
  by (cases x) (auto simp: look_put look_del fun_eq_iff)

lemma look_performs: "look (fold perform ops s) = ops_effect ops (look s)"
  by (induction ops arbitrary: s) (simp_all add: look_perform)

lemma performs_other: "k \<notin> op_key ` set ops \<Longrightarrow> look (fold perform ops s) k = look s k"
  by (simp add: look_performs ops_effect_other)

end

definition look_index :: "world \<Rightarrow> string \<times> string \<times> string \<Rightarrow> (string \<times> jv) option" where
  "look_index s k = map_of (w_index s) k"

definition put_index :: "string \<times> string \<times> string \<Rightarrow> string \<times> jv \<Rightarrow> world \<Rightarrow> world" where
  "put_index k v s = s\<lparr>w_index := AList.update k v (w_index s)\<rparr>"

definition del_index :: "string \<times> string \<times> string \<Rightarrow> world \<Rightarrow> world" where
  "del_index k s = s\<lparr>w_index := AList.delete k (w_index s)\<rparr>"

lemma map_of_delete [simp]: "map_of (AList.delete k al) k' = (if k' = k then None else map_of al k')"
  by (simp add: AList.delete_conv')

interpretation index_table: record_table look_index put_index del_index
  by unfold_locales (auto simp: look_index_def put_index_def del_index_def)

interpretation tree_table: record_table "map_of :: mst \<Rightarrow> string \<times> string \<Rightarrow> jv option" AList.update AList.delete
  by unfold_locales auto

lemma indexed_look: "indexed s d c k = look_index s (d, c, k)"
  by (simp add: indexed_def look_index_def)

lemma index_put_put: "index_put d c k cid rec = put_index (d, c, k) (cid, json_clean rec)"
  by (simp add: index_put_def put_index_def fun_eq_iff)

lemma index_del_del: "index_del d c k = del_index (d, c, k)"
  by (simp add: index_del_def del_index_def fun_eq_iff)

lemma indexed_index_put [simp]:
  "indexed (index_put d c k cid rec s) d' c' k' =
   (if (d', c', k') = (d, c, k) then Some (cid, json_clean rec) else indexed s d' c' k')"
  by (simp add: indexed_look index_put_put index_table.look_put)

lemma indexed_index_del [simp]:
  "indexed (index_del d c k s) d' c' k' = (if (d', c', k') = (d, c, k) then None else indexed s d' c' k')"
  by (simp add: indexed_look index_del_del index_table.look_del)

text \<open>
  The documented effect of a commit: the operations are performed on the set of records,
  and the commit is refused when a record to create exists, or one to update or delete
  does not.
\<close>

fun tree_op :: "write_op \<Rightarrow> (string \<times> string, jv) table_op" where
  "tree_op (CreateOp c k rec) = Put (c, k) rec"
| "tree_op (UpdateOp c k rec) = Put (c, k) rec"
| "tree_op (DeleteOp c k) = Del (c, k)"

fun op_valid :: "mst \<Rightarrow> write_op \<Rightarrow> bool" where
  "op_valid t (CreateOp c k _) \<longleftrightarrow> map_of t (c, k) = None"
| "op_valid t (UpdateOp c k _) \<longleftrightarrow> map_of t (c, k) \<noteq> None"
| "op_valid t (DeleteOp c k) \<longleftrightarrow> map_of t (c, k) \<noteq> None"

fun ops_valid :: "mst \<Rightarrow> write_op list \<Rightarrow> bool" where
  "ops_valid t [] = True"
| "ops_valid t (w # ws) \<longleftrightarrow> op_valid t w \<and> ops_valid (tree_table.perform (tree_op w) t) ws"

definition commit_refuses_invalid :: "env \<Rightarrow> bool" where
  "commit_refuses_invalid env \<longleftrightarrow> (\<forall>t ws t'. e_commit env t ws = Inr t' \<longrightarrow> ops_valid t ws)"

definition commit_performs :: "env \<Rightarrow> bool" where
  "commit_performs env \<longleftrightarrow>
     (\<forall>t ws t'. e_commit env t ws = Inr t' \<longrightarrow> map_of t' = ops_effect (map tree_op ws) (map_of t))"

text \<open>A library that does exactly this.\<close>

definition reference_commit :: "mst \<Rightarrow> write_op list \<Rightarrow> exn + mst" where
  "reference_commit t ws =
     (if ops_valid t ws then Inr (fold tree_table.perform (map tree_op ws) t)
      else Inl (Failure ''invalid write''))"

lemma reference_commit_ok:
  assumes "e_commit env = reference_commit"
  shows "commit_performs env" "commit_refuses_invalid env"
  using assms by (auto simp: commit_performs_def commit_refuses_invalid_def reference_commit_def
      tree_table.look_performs split: if_splits)

subsection \<open>What the engine leaves behind\<close>

fun index_op :: "string \<Rightarrow> write_op \<times> string option \<Rightarrow> (string \<times> string \<times> string, string \<times> jv) table_op" where
  "index_op did (DeleteOp c k, _) = Del (did, c, k)"
| "index_op did (CreateOp c k rec, cid) = Put (did, c, k) (the cid, json_clean rec)"
| "index_op did (UpdateOp c k rec, cid) = Put (did, c, k) (the cid, json_clean rec)"

text \<open>A prepared operation carries the identifier of its record.\<close>

fun prepared :: "env \<Rightarrow> write_op \<times> string option \<Rightarrow> bool" where
  "prepared env (DeleteOp _ _, _) = True"
| "prepared env (CreateOp _ _ rec, cid) \<longleftrightarrow> (\<exists>c. cid = Some c \<and> e_cid env rec = Inr c)"
| "prepared env (UpdateOp _ _ rec, cid) \<longleftrightarrow> (\<exists>c. cid = Some c \<and> e_cid env rec = Inr c)"

lemma look_project [simp]: "look_index (projectMemberRow env did rkey rec s) = look_index s"
  by (simp add: projectMemberRow_def look_index_def Let_def fun_eq_iff split: option.split)

lemma repos_project [simp]: "w_repos (projectMemberRow env did rkey rec s) = w_repos s"
  by (simp add: projectMemberRow_def Let_def split: option.split)

lemma look_index_put [simp]: "look_index (index_put d c k cid rec s) = (look_index s)((d, c, k) \<mapsto> (cid, json_clean rec))"
  by (auto simp: index_put_put index_table.look_put fun_eq_iff)

lemma look_index_del [simp]: "look_index (index_del d c k s) = (look_index s)((d, c, k) := None)"
  by (auto simp: index_del_del index_table.look_del fun_eq_iff)

lemma repos_put_del [simp]:
  "w_repos (index_put d c k cid rec s) = w_repos s" "w_repos (index_del d c k s) = w_repos s"
  by (simp_all add: index_put_def index_del_def)

lemma look_index_counters [simp]:
  "look_index (s\<lparr>w_ops := n\<rparr>) = look_index s" "look_index (s\<lparr>w_ticks := n\<rparr>) = look_index s"
  "look_index (s\<lparr>w_tids := n\<rparr>) = look_index s" "look_index (s\<lparr>w_members := ms\<rparr>) = look_index s"
  "look_index (s\<lparr>w_audit := as\<rparr>) = look_index s" "look_index (s\<lparr>w_repos := rs\<rparr>) = look_index s"
  by (simp_all add: look_index_def fun_eq_iff)

lemma runs_sync_one:
  assumes "prepared env op"
  shows "runs (sync_one env did op) s (\<lambda>r s'. w_repos s' = w_repos s \<and>
     (look_index s' = look_index s \<or> look_index s' = op_effect (index_op did op) (look_index s)) \<and>
     (r = Inr () \<longrightarrow> look_index s' = op_effect (index_op did op) (look_index s)))"
proof -
  obtain w cid where op: "op = (w, cid)" by (cases op)
  show ?thesis
  proof (cases w)
    case (DeleteOp c k)
    have "runs (removeFromRecordsIndex env did c k) s (\<lambda>r s'. w_repos s' = w_repos s \<and>
       (look_index s' = look_index s \<or> look_index s' = (look_index s)((did, c, k) := None)) \<and>
       (r = Inr () \<longrightarrow> look_index s' = (look_index s)((did, c, k) := None)))"
      unfolding removeFromRecordsIndex_def runs_seqM
      by (intro runs_dbWriteI; simp; intro impI runs_dbWriteI; simp)
    then show ?thesis using op DeleteOp by (simp add: sync_one_def)
  next
    case (CreateOp c k rec)
    with assms op obtain d where "cid = Some d" by auto
    with op CreateOp show ?thesis
      unfolding sync_one_def syncRecordsIndex_def
      by simp (rule runs_dbTxnI; auto simp: Let_def split: if_splits)
  next
    case (UpdateOp c k rec)
    with assms op obtain d where "cid = Some d" by auto
    with op UpdateOp show ?thesis
      unfolding sync_one_def syncRecordsIndex_def
      by simp (rule runs_dbTxnI; auto simp: Let_def split: if_splits)
  qed
qed

lemma index_op_other: "k \<noteq> op_key (index_op did op) \<Longrightarrow> op_effect (index_op did op) m k = m k"
  by (cases "index_op did op") auto

lemma runs_sync_all:
  assumes "\<forall>op \<in> set ops. prepared env op"
  shows "runs (foldM (\<lambda>_ op. sync_one env did op) () ops) s (\<lambda>r s'. w_repos s' = w_repos s \<and>
     (\<forall>k. k \<notin> op_key ` set (map (index_op did) ops) \<longrightarrow> look_index s' k = look_index s k) \<and>
     (r = Inr () \<longrightarrow> look_index s' = ops_effect (map (index_op did) ops) (look_index s)))"
  using assms
proof (induction ops arbitrary: s)
  case (Cons op ops)
  from Cons.prems have op: "prepared env op" and ops: "\<forall>x \<in> set ops. prepared env x" by auto
  show ?case
    unfolding foldM.simps runs_bindM
  proof (rule runs_mono [OF runs_sync_one [OF op]])
    fix r s1
    assume r: "w_repos s1 = w_repos s \<and>
      (look_index s1 = look_index s \<or> look_index s1 = op_effect (index_op did op) (look_index s)) \<and>
      (r = Inr () \<longrightarrow> look_index s1 = op_effect (index_op did op) (look_index s))"
    show "case r of
        Inl e \<Rightarrow> w_repos s1 = w_repos s \<and>
          (\<forall>k. k \<notin> op_key ` set (map (index_op did) (op # ops)) \<longrightarrow> look_index s1 k = look_index s k) \<and>
          (Inl e = Inr () \<longrightarrow> look_index s1 = ops_effect (map (index_op did) (op # ops)) (look_index s))
      | Inr x \<Rightarrow> runs (foldM (\<lambda>_ op. sync_one env did op) x ops) s1 (\<lambda>r s'. w_repos s' = w_repos s \<and>
          (\<forall>k. k \<notin> op_key ` set (map (index_op did) (op # ops)) \<longrightarrow> look_index s' k = look_index s k) \<and>
          (r = Inr () \<longrightarrow> look_index s' = ops_effect (map (index_op did) (op # ops)) (look_index s)))"
    proof (cases r)
      case (Inl e)
      with r show ?thesis by (auto simp: index_op_other)
    next
      case (Inr x)
      with r have s1: "look_index s1 = op_effect (index_op did op) (look_index s)" by simp
      have "runs (foldM (\<lambda>_ op. sync_one env did op) () ops) s1 (\<lambda>r s'. w_repos s' = w_repos s \<and>
          (\<forall>k. k \<notin> op_key ` set (map (index_op did) (op # ops)) \<longrightarrow> look_index s' k = look_index s k) \<and>
          (r = Inr () \<longrightarrow> look_index s' = ops_effect (map (index_op did) (op # ops)) (look_index s)))"
        by (rule runs_mono [OF Cons.IH [OF ops]]) (use r s1 in \<open>auto simp: index_op_other\<close>)
      then show ?thesis using Inr by simp
    qed
  qed
qed simp

lemma prepare_ops_prepared:
  "prepare_ops env existing ops = Inr ps \<Longrightarrow> \<forall>p \<in> set ps. prepared env p"
  by (induction env existing ops arbitrary: ps rule: prepare_ops.induct) (auto split: sum.splits if_splits)

text \<open>Nothing, or the whole batch in one commit.\<close>

definition one_commit ::
  "env \<Rightarrow> string \<Rightarrow> (write_op \<times> string option) list \<Rightarrow> world \<Rightarrow> world \<Rightarrow> bool" where
  "one_commit env did ps s s' \<longleftrightarrow>
     (\<exists>t t'. map_of (w_repos s) did = Some t \<and> e_commit env t (map fst ps) = Inr t' \<and>
        w_repos s' = AList.update did t' (w_repos s) \<and>
        (\<forall>k. k \<notin> op_key ` set (map (index_op did) ps) \<longrightarrow> look_index s' k = look_index s k))"

definition indexed_after ::
  "string \<Rightarrow> (write_op \<times> string option) list \<Rightarrow> world \<Rightarrow> world \<Rightarrow> bool" where
  "indexed_after did ps s s' \<longleftrightarrow> look_index s' = ops_effect (map (index_op did) ps) (look_index s)"

definition untouched :: "world \<Rightarrow> world \<Rightarrow> bool" where
  "untouched s s' \<longleftrightarrow> w_repos s' = w_repos s \<and> w_index s' = w_index s"

lemma untouched_look: "untouched s s' \<Longrightarrow> look_index s' = look_index s"
  by (simp add: untouched_def look_index_def fun_eq_iff)

definition known_keys :: "world \<Rightarrow> string \<Rightarrow> engine_op list \<Rightarrow> string list" where
  "known_keys s did ops = (if write_keys ops = [] then [] else existing_keys s did (write_keys ops))"

lemma runs_commit_and_sync:
  assumes "map_of (w_repos s) did = Some t" and "\<forall>p \<in> set ps. prepared env p"
    and "\<And>e s'. untouched s s' \<Longrightarrow> Q (Inl e) s'"
    and "\<And>e s'. one_commit env did ps s s' \<Longrightarrow> Q (Inl e) s'"
    and "\<And>s'. one_commit env did ps s s' \<Longrightarrow> indexed_after did ps s s' \<Longrightarrow> Q (Inr x) s'"
  shows "runs (seqM (commitRepo env did t (map fst ps))
     (seqM (foldM (\<lambda>_ op. sync_one env did op) () ps) (ret x))) s Q"
proof (cases "e_commit env t (map fst ps)")
  case (Inl e)
  then show ?thesis
    by (auto simp: runs_seqM commitRepo_def runs_bindM untouched_def intro: assms(3))
next
  case (Inr t')
  let ?s = "s\<lparr>w_ops := Suc (w_ops s), w_repos := AList.update did t' (w_repos s)\<rparr>"
  have *: "runs (foldM (\<lambda>_ op. sync_one env did op) () ps) ?s
     (\<lambda>r s'. case r of Inl e \<Rightarrow> Q (Inl e) s' | Inr _ \<Rightarrow> runs (ret x) s' Q)"
    by (rule runs_mono [OF runs_sync_all [OF assms(2)]])
      (use assms(1, 4, 5) Inr in \<open>auto simp: one_commit_def indexed_after_def split: sum.split\<close>)
  have **: "one_commit env did ps s ?s"
    using Inr assms(1) by (auto simp: one_commit_def)
  show ?thesis
    unfolding runs_seqM commitRepo_def runs_bindM runs_liftE Inr sum.case
  proof (rule runs_dbWriteI)
    show "case Inl e of Inl e \<Rightarrow> Q (Inl e) (s\<lparr>w_ops := Suc (w_ops s)\<rparr>)
       | Inr _ \<Rightarrow> runs (foldM (\<lambda>_ op. sync_one env did op) () ps) (s\<lparr>w_ops := Suc (w_ops s)\<rparr>)
           (\<lambda>r t. case r of Inl e \<Rightarrow> Q (Inl e) t | Inr _ \<Rightarrow> runs (ret x) t Q)" for e
      by (simp add: assms(3) untouched_def)
  qed (use * ** assms(4) in \<open>simp_all\<close>)
qed

lemma runs_applyWrites:
  assumes "ops \<noteq> []"
    and fail: "\<And>e s'. untouched s s' \<Longrightarrow> Q (Inl e) s'"
    and crash: "\<And>ps e s'. \<lbrakk>prepare_ops env (known_keys s did ops) ops = Inr ps;
        one_commit env did ps s s'\<rbrakk> \<Longrightarrow> Q (Inl e) s'"
    and good: "\<And>ps s'. \<lbrakk>prepare_ops env (known_keys s did ops) ops = Inr ps; one_commit env did ps s s';
        indexed_after did ps s s'\<rbrakk> \<Longrightarrow> Q (Inr (map (op_result did) ps)) s'"
  shows "runs (applyWrites env did ops) s Q"
proof -
  let ?body = "\<lambda>t existing. bindM (liftE (prepare_ops env existing ops)) (\<lambda>prepared.
       seqM (commitRepo env did t (map fst prepared))
         (seqM (foldM (\<lambda>_ op. sync_one env did op) () prepared)
            (ret (map (op_result did) prepared))))"
  have body: "runs (?body t existing) s1 Q"
    if "map_of (w_repos s1) did = Some t" "untouched s s1" "existing = known_keys s did ops" for s1 t existing
  proof (cases "prepare_ops env existing ops")
    case (Inl e)
    then show ?thesis using that fail by (simp add: runs_bindM)
  next
    case (Inr ps)
    from that(2) untouched_look [OF that(2)] have eq: "one_commit env did ps s1 s' = one_commit env did ps s s'"
      "indexed_after did ps s1 s' = indexed_after did ps s s'" "untouched s1 s' = untouched s s'" for s'
      by (simp_all add: one_commit_def indexed_after_def untouched_def)
    show ?thesis
      unfolding runs_bindM runs_liftE Inr sum.case
      by (rule runs_commit_and_sync [OF that(1) prepare_ops_prepared [OF Inr]])
        (use fail crash [OF Inr [unfolded that(3)]] good [OF Inr [unfolded that(3)]] eq in auto)
  qed
  have "runs (bindM (if write_keys ops = [] then ret []
                     else dbRead env (\<lambda>s. existing_keys s did (write_keys ops))) (?body t)) s1 Q"
    if "map_of (w_repos s1) did = Some t" "untouched s s1" for s1 t
  proof (rule runs_bindI)
    have bump: "runs (?body t (existing_keys s1 did (write_keys ops))) (s1\<lparr>w_ops := Suc (w_ops s1)\<rparr>) Q"
      if "write_keys ops \<noteq> []"
      by (rule body) (use that \<open>untouched s s1\<close> \<open>map_of (w_repos s1) did = Some t\<close>
          in \<open>simp_all add: untouched_def known_keys_def existing_keys_def\<close>)
    have lost: "Q (Inl e) (s1\<lparr>w_ops := Suc (w_ops s1)\<rparr>)" for e
      by (rule fail) (use that in \<open>simp_all add: untouched_def\<close>)
    show "runs (if write_keys ops = [] then ret []
                else dbRead env (\<lambda>s. existing_keys s did (write_keys ops))) s1
        (\<lambda>r t'. case r of Inl e \<Rightarrow> Q (Inl e) t' | Inr x \<Rightarrow> runs (?body t x) t' Q)"
      using body [OF that, of "[]"] bump lost by (auto intro!: runs_dbReadI simp: known_keys_def)
  qed
  note step = this
  have load: "runs (loadRepo env did) s (\<lambda>r s1. untouched s s1 \<and>
      (case r of Inl _ \<Rightarrow> True | Inr t \<Rightarrow> map_of (w_repos s1) did = Some t))"
    unfolding loadRepo_def
    by (rule runs_bindI, rule runs_dbReadI) (auto simp: untouched_def split: option.split)
  show ?thesis
    unfolding applyWrites_def if_not_P [OF \<open>ops \<noteq> []\<close>]
    by (rule runs_bindI, rule runs_mono [OF load]) (use step fail in \<open>auto split: sum.split\<close>)
qed


lemma foldM_one: "foldM (\<lambda>_ op. sync_one env did op) () [p] = sync_one env did p"
  by (rule ext) (simp add: run_simps split: prod.split sum.split)

lemma runs_loadRepo:
  "runs (loadRepo env did) s (\<lambda>r s1. untouched s s1 \<and>
     (case r of Inl _ \<Rightarrow> True | Inr t \<Rightarrow> map_of (w_repos s1) did = Some t))"
  unfolding loadRepo_def
  by (rule runs_bindI, rule runs_dbReadI) (auto simp: untouched_def split: option.split)

definition put_op :: "bool \<Rightarrow> string \<Rightarrow> string \<Rightarrow> jv \<Rightarrow> string \<Rightarrow> write_op \<times> string option" where
  "put_op existing coll rkey rec cid =
     (if existing then UpdateOp coll rkey rec else CreateOp coll rkey rec, Some cid)"

lemma put_op_simps [simp]:
  "prepared env (put_op b coll rkey rec cid) \<longleftrightarrow> e_cid env rec = Inr cid"
  "index_op did (put_op b coll rkey rec cid) = Put (did, coll, rkey) (cid, json_clean rec)"
  "tree_op (fst (put_op b coll rkey rec cid)) = Put (coll, rkey) rec"
  by (simp_all add: put_op_def)

lemma runs_putRecord:
  assumes fail: "\<And>e s'. untouched s s' \<Longrightarrow> Q (Inl e) s'"
    and crash: "\<And>b cid e s'. \<lbrakk>e_cid env rec = Inr cid;
        one_commit env did [put_op b coll rkey rec cid] s s'\<rbrakk> \<Longrightarrow> Q (Inl e) s'"
    and good: "\<And>b cid s'. \<lbrakk>e_cid env rec = Inr cid; b = (indexed s did coll rkey \<noteq> None);
        one_commit env did [put_op b coll rkey rec cid] s s';
        indexed_after did [put_op b coll rkey rec cid] s s'\<rbrakk> \<Longrightarrow> Q (Inr (cid, at_uri did coll rkey)) s'"
  shows "runs (putRecord env did coll rkey rec) s Q"
proof -
  have commit: "runs (seqM (commitRepo env did t [fst (put_op b coll rkey rec cid)])
       (seqM (syncRecordsIndex env did [put_op b coll rkey rec cid]) (ret (cid, at_uri did coll rkey)))) s1 Q"
    if t: "map_of (w_repos s1) did = Some t" and s1: "untouched s s1" and cid: "e_cid env rec = Inr cid"
      and b: "b = (indexed s did coll rkey \<noteq> None)" for s1 t cid b
  proof -
    let ?p = "put_op b coll rkey rec cid"
    from s1 untouched_look [OF s1] have eq: "one_commit env did [?p] s1 s' = one_commit env did [?p] s s'"
      "indexed_after did [?p] s1 s' = indexed_after did [?p] s s'" "untouched s1 s' = untouched s s'" for s'
      by (simp_all add: one_commit_def indexed_after_def untouched_def)
    have sync: "syncRecordsIndex env did [?p] = foldM (\<lambda>_ op. sync_one env did op) () [?p]"
      unfolding foldM_one by (simp add: sync_one_def put_op_def)
    show ?thesis
      using runs_commit_and_sync [OF t, where ps = "[?p]" and Q = Q and x = "(cid, at_uri did coll rkey)" and env = env]
        cid fail crash [OF cid] good [OF cid b] unfolding eq sync by simp
  qed
  have read: "runs (dbRead env (\<lambda>s. indexed s did coll rkey \<noteq> None)) s1
     (\<lambda>r s2. untouched s s2 \<and> w_repos s2 = w_repos s1 \<and>
        (case r of Inl _ \<Rightarrow> True | Inr b \<Rightarrow> b = (indexed s did coll rkey \<noteq> None)))"
    if "untouched s s1" for s1
    by (rule runs_dbReadI) (use that in \<open>simp_all add: untouched_def indexed_def\<close>)
  have body: "runs (bindM (cidForRecord env rec) (\<lambda>cid.
       let wop = (if b then UpdateOp coll rkey rec else CreateOp coll rkey rec)
       in seqM (commitRepo env did t [wop])
            (seqM (syncRecordsIndex env did [(wop, Some cid)]) (ret (cid, at_uri did coll rkey))))) s1 Q"
    if "map_of (w_repos s1) did = Some t" "untouched s s1" "b = (indexed s did coll rkey \<noteq> None)" for s1 t b
    using that commit [OF that(1,2) _ that(3)] fail
    by (cases "e_cid env rec") (auto intro!: runs_bindI simp: put_op_def Let_def)
  have inner: "runs (bindM (dbRead env (\<lambda>s. indexed s did coll rkey \<noteq> None)) (\<lambda>existing.
      bindM (cidForRecord env rec) (\<lambda>cid.
        let wop = (if existing then UpdateOp coll rkey rec else CreateOp coll rkey rec)
        in seqM (commitRepo env did t [wop])
             (seqM (syncRecordsIndex env did [(wop, Some cid)]) (ret (cid, at_uri did coll rkey)))))) s1 Q"
    if "map_of (w_repos s1) did = Some t" "untouched s s1" for s1 t
    by (rule runs_bindI, rule runs_mono [OF read [OF that(2)]])
      (use that body fail in \<open>auto split: sum.split\<close>)
  show ?thesis
    unfolding putRecord_def
    by (rule runs_bindI, rule runs_mono [OF runs_loadRepo]) (use inner fail in \<open>auto split: sum.split\<close>)
qed

lemma runs_deleteRecord:
  assumes fail: "\<And>e s'. untouched s s' \<Longrightarrow> Q (Inl e) s'"
    and crash: "\<And>e s'. one_commit env did [(DeleteOp coll rkey, None)] s s' \<Longrightarrow> Q (Inl e) s'"
    and good: "\<And>s'. \<lbrakk>one_commit env did [(DeleteOp coll rkey, None)] s s';
        indexed_after did [(DeleteOp coll rkey, None)] s s'\<rbrakk> \<Longrightarrow> Q (Inr ()) s'"
  shows "runs (deleteRecord env did coll rkey) s Q"
proof -
  let ?p = "(DeleteOp coll rkey, None)"
  have sync: "removeFromRecordsIndex env did coll rkey =
      seqM (foldM (\<lambda>_ op. sync_one env did op) () [?p]) (ret ())"
    unfolding foldM_one by (rule ext) (simp add: sync_one_def run_simps split: prod.split sum.split)
  have "runs (seqM (commitRepo env did t [DeleteOp coll rkey]) (removeFromRecordsIndex env did coll rkey)) s1 Q"
    if t: "map_of (w_repos s1) did = Some t" and s1: "untouched s s1" for s1 t
  proof -
    from s1 untouched_look [OF s1] have eq: "one_commit env did [?p] s1 s' = one_commit env did [?p] s s'"
      "indexed_after did [?p] s1 s' = indexed_after did [?p] s s'" "untouched s1 s' = untouched s s'" for s'
      by (simp_all add: one_commit_def indexed_after_def untouched_def)
    show ?thesis
      using runs_commit_and_sync [OF t, where ps = "[?p]" and Q = Q and x = "()" and env = env]
        fail crash good unfolding eq sync by simp
  qed
  note body = this
  show ?thesis
    unfolding deleteRecord_def
    by (rule runs_bindI, rule runs_mono [OF runs_loadRepo]) (use body fail in \<open>auto split: sum.split\<close>)
qed


subsection \<open>Properties of the engine\<close>

definition cache_of :: "env \<Rightarrow> jv \<Rightarrow> (string \<times> jv) option" where
  "cache_of env rec = (case e_cid env rec of Inl _ \<Rightarrow> None | Inr cid \<Rightarrow> Some (cid, json_clean rec))"

text \<open>The cache of a repository holds exactly its records, under their identifiers.\<close>

definition in_sync :: "env \<Rightarrow> string \<Rightarrow> world \<Rightarrow> bool" where
  "in_sync env did s \<longleftrightarrow> (case map_of (w_repos s) did of
      None \<Rightarrow> True
    | Some t \<Rightarrow> \<forall>c k. indexed s did c k = Option.bind (map_of t (c, k)) (cache_of env))"

lemma cache_of_Inr: "e_cid env rec = Inr cid \<Longrightarrow> cache_of env rec = Some (cid, json_clean rec)"
  by (simp add: cache_of_def)

lemma ops_effect_cache:
  assumes "\<forall>p \<in> set ps. prepared env p"
    and "\<forall>c k. i (did, c, k) = Option.bind (m (c, k)) (cache_of env)"
  shows "ops_effect (map (index_op did) ps) i (did, c, k) =
    Option.bind (ops_effect (map tree_op (map fst ps)) m (c, k)) (cache_of env)"
  using assms
proof (induction ps arbitrary: i m)
  case (Cons p ps)
  obtain w cid where p: "p = (w, cid)" by (cases p)
  have "\<forall>c k. op_effect (index_op did p) i (did, c, k) =
      Option.bind (op_effect (tree_op w) m (c, k)) (cache_of env)"
    using Cons.prems p by (cases w) (auto simp: cache_of_Inr)
  with Cons.IH [of "op_effect (index_op did p) i" "op_effect (tree_op w) m"] Cons.prems p
  show ?case by simp
qed simp

lemma index_op_did: "op_key (index_op did p) = (d, c, k) \<Longrightarrow> d = did"
  by (cases p; cases "fst p") auto

lemma commit_keeps_sync:
  assumes lib: "commit_performs env" and sync: "in_sync env did' s"
    and ps: "\<forall>p \<in> set ps. prepared env p"
    and after: "one_commit env did ps s s'" "indexed_after did ps s s'"
  shows "in_sync env did' s'"
proof -
  from after(1) obtain t t' where t: "map_of (w_repos s) did = Some t" "e_commit env t (map fst ps) = Inr t'"
      "w_repos s' = AList.update did t' (w_repos s)" by (auto simp: one_commit_def)
  from lib t(2) have eff: "map_of t' = ops_effect (map tree_op (map fst ps)) (map_of t)"
    by (simp add: commit_performs_def)
  show ?thesis
  proof (cases "did' = did")
    case True
    with sync t(1) have "\<forall>c k. look_index s (did, c, k) = Option.bind (map_of t (c, k)) (cache_of env)"
      by (simp add: in_sync_def indexed_look)
    from ops_effect_cache [OF ps this] after(2) show ?thesis
      by (simp add: in_sync_def indexed_look indexed_after_def t(3) True eff)
  next
    case False
    have "(did', c, k) \<notin> op_key ` set (map (index_op did) ps)" for c k
      using False by (auto dest: index_op_did [OF sym])
    then have "look_index s' (did', c, k) = look_index s (did', c, k)" for c k
      using after(1) unfolding one_commit_def by blast
    with sync False t(3) show ?thesis by (simp add: in_sync_def indexed_look split: option.splits)
  qed
qed

lemma untouched_sync:
  assumes "untouched s s'" shows "in_sync env did s' = in_sync env did s"
proof -
  have "indexed s' = indexed s"
    by (simp add: indexed_look untouched_look [OF assms] fun_eq_iff)
  moreover have "w_repos s' = w_repos s" using assms by (simp add: untouched_def)
  ultimately show ?thesis unfolding in_sync_def by (simp only:)
qed

lemma create_of_present_invalid:
  assumes "distinct (map (op_key \<circ> tree_op) ws)" "CreateOp c k rec \<in> set ws" "map_of t (c, k) \<noteq> None"
  shows "\<not> ops_valid t ws"
  using assms
proof (induction ws arbitrary: t)
  case (Cons w ws)
  show ?case
  proof (cases "w = CreateOp c k rec")
    case False
    with Cons.prems have "CreateOp c k rec \<in> set ws" by auto
    moreover from this Cons.prems have "(c, k) \<noteq> op_key (tree_op w)"
      by (auto simp: image_iff dest: bspec [where x = "CreateOp c k rec"])
    then have "map_of (tree_table.perform (tree_op w) t) (c, k) = map_of t (c, k)"
      using tree_table.performs_other [of "(c, k)" "[tree_op w]" t] by simp
    ultimately show ?thesis using Cons.IH [of "tree_table.perform (tree_op w) t"] Cons.prems by simp
  qed (use Cons.prems in simp)
qed simp

fun engine_key :: "engine_op \<Rightarrow> string \<times> string" where
  "engine_key (WriteRec c k _) = (c, k)"
| "engine_key (DelRec c k) = (c, k)"

lemma prepare_ops_keys:
  "prepare_ops env existing ops = Inr ps \<Longrightarrow> map (op_key \<circ> tree_op \<circ> fst) ps = map engine_key ops"
  by (induction env existing ops arbitrary: ps rule: prepare_ops.induct) (auto split: sum.splits if_splits)

lemma prepare_ops_create:
  assumes "prepare_ops env existing ops = Inr ps" "WriteRec c k rec \<in> set ops" "joined_key c k \<notin> set existing"
  shows "CreateOp c k rec \<in> set (map fst ps)"
  using assms by (induction env existing ops arbitrary: ps rule: prepare_ops.induct) (auto split: sum.splits if_splits)


definition batch_committed :: "env \<Rightarrow> string \<Rightarrow> engine_op list \<Rightarrow> world \<Rightarrow> world \<Rightarrow> bool" where
  "batch_committed env did ops s s' \<longleftrightarrow>
     (\<exists>ps. prepare_ops env (known_keys s did ops) ops = Inr ps \<and> one_commit env did ps s s')"

text \<open>
  C1. A batch of writes is atomic under every failure: whatever statement fails, with or without
  having taken effect, the repository has all of the batch or none of it; and a batch that
  is reported as written is in the repository.
\<close>

theorem engine_batch_atomic:
  "case applyWrites env did ops s of
     (Inl _, s') \<Rightarrow> untouched s s' \<or> batch_committed env did ops s s'
   | (Inr _, s') \<Rightarrow> (if ops = [] then s' = s else batch_committed env did ops s s')"
proof (cases "ops = []")
  case True
  then show ?thesis by (simp add: applyWrites_def run_simps)
next
  case False
  have "runs (applyWrites env did ops) s (\<lambda>r s'. case r of
      Inl _ \<Rightarrow> untouched s s' \<or> batch_committed env did ops s s' | Inr _ \<Rightarrow> batch_committed env did ops s s')"
    by (rule runs_applyWrites [OF False]) (auto simp: batch_committed_def)
  with False show ?thesis by (simp add: runs_def split: prod.splits sum.splits)
qed

text \<open>
  C2. The read cache refines the signed repository: when the cache of a repository holds exactly
  the records of its tree, it does so after every write, deletion or batch that returns.
\<close>

theorem cache_tracks_repository:
  assumes "commit_performs env" "in_sync env d s"
  shows "(case putRecord env did c k rec s of (Inl _, _) \<Rightarrow> True | (Inr _, s') \<Rightarrow> in_sync env d s') \<and>
     (case deleteRecord env did c k s of (Inl _, _) \<Rightarrow> True | (Inr _, s') \<Rightarrow> in_sync env d s') \<and>
     (case applyWrites env did ops s of (Inl _, _) \<Rightarrow> True | (Inr _, s') \<Rightarrow> in_sync env d s')"
proof -
  let ?Q = "\<lambda>r s'. case r of Inl _ \<Rightarrow> True | Inr _ \<Rightarrow> in_sync env d s'"
  have keep: "in_sync env d s'"
    if "\<forall>p \<in> set ps. prepared env p" "one_commit env did ps s s'" "indexed_after did ps s s'" for ps s'
    using assms that by (rule commit_keeps_sync)
  have p: "runs (putRecord env did c k rec) s ?Q"
  proof (rule runs_putRecord)
    fix b cid s'
    assume "e_cid env rec = Inr cid" "one_commit env did [put_op b c k rec cid] s s'"
      "indexed_after did [put_op b c k rec cid] s s'"
    then show "?Q (Inr (cid, at_uri did c k)) s'" using keep [of "[put_op b c k rec cid]"] by simp
  qed simp_all
  have d: "runs (deleteRecord env did c k) s ?Q"
    by (rule runs_deleteRecord) (use keep [of "[(DeleteOp c k, None)]"] in simp_all)
  have w: "runs (applyWrites env did ops) s ?Q"
  proof (cases "ops = []")
    case False
    show ?thesis
      by (rule runs_applyWrites [OF False]) (simp_all add: keep [OF prepare_ops_prepared])
  qed (use assms(2) in \<open>simp add: applyWrites_def\<close>)
  from p d w show ?thesis by (simp add: runs_def split: prod.splits)
qed

text \<open>
  A crash between the commit and the cache can block a batch for good: once a record is in the
  repository and not in the cache, every batch that writes it again is refused, because the
  engine asks for a creation and the library refuses to create a record that exists.
\<close>

theorem missing_cache_row_blocks_batch:
  assumes "commit_refuses_invalid env" "map_of (w_repos s) did = Some t" "map_of t (c, k) \<noteq> None"
    and "WriteRec c k rec \<in> set ops" "distinct (map engine_key ops)"
    and "joined_key c k \<notin> set (existing_keys s did (write_keys ops))"
  shows "case applyWrites env did ops s of (Inl _, s') \<Rightarrow> w_repos s' = w_repos s | (Inr _, _) \<Rightarrow> False"
proof -
  have ne: "ops \<noteq> []" using assms(4) by auto
  have no: "\<not> one_commit env did ps s s'" if "prepare_ops env (known_keys s did ops) ops = Inr ps" for ps s'
  proof
    assume "one_commit env did ps s s'"
    with assms(1,2) have valid: "ops_valid t (map fst ps)"
      by (auto simp: one_commit_def commit_refuses_invalid_def)
    from prepare_ops_keys [OF that] assms(5) have "distinct (map (op_key \<circ> tree_op) (map fst ps))"
      by (simp add: comp_assoc)
    moreover have "CreateOp c k rec \<in> set (map fst ps)"
      by (rule prepare_ops_create [OF that assms(4)]) (use assms(6) in \<open>simp add: known_keys_def\<close>)
    ultimately show False using valid create_of_present_invalid assms(3) by blast
  qed
  have "runs (applyWrites env did ops) s (\<lambda>r s'. case r of Inl _ \<Rightarrow> w_repos s' = w_repos s | Inr _ \<Rightarrow> False)"
    by (rule runs_applyWrites [OF ne]) (use no in \<open>auto simp: untouched_def\<close>)
  then show ?thesis by (simp add: runs_def split: prod.splits sum.splits)
qed

text \<open>
  Two commits to one repository that were computed from the same tree: the storage replaces the
  root without comparing it with the one the commit was built on, so the later commit
  removes the records of the earlier one.
\<close>

theorem concurrent_commit_is_lost:
  assumes "commit_performs env" "map_of (w_repos s) did = Some t" "map_of t (c, k) = None" "(c, k) \<noteq> (c', k')"
    and "commitRepo env did t [CreateOp c k rec] s = (Inr (), s1)"
    and "commitRepo env did t [UpdateOp c' k' rec'] s1 = (Inr (), s2)"
  shows "\<exists>t1 t2. map_of (w_repos s1) did = Some t1 \<and> map_of t1 (c, k) = Some rec \<and>
      map_of (w_repos s2) did = Some t2 \<and> map_of t2 (c, k) = None"
proof -
  have commit: "\<exists>t'. e_commit env t ws = Inr t' \<and> map_of (w_repos u') did = Some t'"
    if "commitRepo env did t ws u = (Inr (), u')" for ws u u'
    using that by (cases "e_commit env t ws")
      (auto simp: commitRepo_def run_simps dbWrite_def dbTxn_def Let_def split: option.splits fault.splits)
  from commit [OF assms(5)] commit [OF assms(6)] obtain t1 t2
    where t1: "e_commit env t [CreateOp c k rec] = Inr t1" "map_of (w_repos s1) did = Some t1"
      and t2: "e_commit env t [UpdateOp c' k' rec'] = Inr t2" "map_of (w_repos s2) did = Some t2" by blast
  from assms(1) t1(1) t2(1) have "map_of t1 = (map_of t)((c, k) \<mapsto> rec)" "map_of t2 = (map_of t)((c', k') \<mapsto> rec')"
    by (auto simp: commit_performs_def)
  with t1(2) t2(2) assms(3,4) show ?thesis by auto
qed

subsection \<open>A concrete environment\<close>

text \<open>The environment and state the examples run in: no failures, a clock that ticks.\<close>

definition sample_env :: env where
  "sample_env = \<lparr>e_clock = (\<lambda>n. 1767225600000 + int n), e_tid = (\<lambda>n. ''t'' @ replicate n CHR ''x''), e_uuid = (\<lambda>n. ''u'' @ replicate n CHR ''x''),
     e_fault = (\<lambda>_. None), e_wait = (\<lambda>_ s. s), e_cid = (\<lambda>_. Inr ''cid''), e_commit = reference_commit,
     e_nokey = (\<lambda>_. None), e_date = (\<lambda>_. None), e_text = (\<lambda>_. ''?''), e_locale_lt = (\<lambda>a b. a < b),
     e_write_gate = False, e_anchor = (\<lambda>_. None), e_anchor_timeout = 5000,
     e_probationDays = 0, e_probationWrites = 20, e_url = (\<lambda>_. None)\<rparr>"

definition empty_world :: world where
  "empty_world = \<lparr>w_ops = 0, w_ticks = 0, w_tids = 0, w_repos = [], w_index = [], w_members = [],
     w_communities = [], w_joins = [], w_users = [], w_audit = [], w_probation = []\<rparr>"

lemma sample_env_commit [simp]: "e_commit sample_env = reference_commit"
  by (simp add: sample_env_def)

theorem cache_tracks_repository_witness:
  "case putRecord sample_env ''d'' ''c'' ''k'' (JStr ''v'') (empty_world\<lparr>w_repos := [(''d'', [])]\<rparr>) of
     (Inl _, _) \<Rightarrow> True | (Inr _, s') \<Rightarrow> in_sync sample_env ''d'' s'"
  by (rule cache_tracks_repository [THEN conjunct1])
    (simp_all add: reference_commit_ok in_sync_def empty_world_def indexed_def)

theorem missing_cache_row_blocks_batch_witness:
  "case applyWrites sample_env ''d'' [WriteRec ''c'' ''k'' (JStr ''v'')]
       (empty_world\<lparr>w_repos := [(''d'', [((''c'', ''k''), JStr ''v'')])]\<rparr>) of
     (Inl _, s') \<Rightarrow> w_repos s' = w_repos (empty_world\<lparr>w_repos := [(''d'', [((''c'', ''k''), JStr ''v'')])]\<rparr>)
   | (Inr _, _) \<Rightarrow> False"
  by (rule missing_cache_row_blocks_batch [where rec = "JStr ''v''" and c = "''c''" and k = "''k''"
        and t = "[((''c'', ''k''), JStr ''v'')]"])
    (simp_all add: reference_commit_ok existing_keys_def empty_world_def)

definition race_tree :: mst where
  "race_tree = [((''c'', ''other''), JNull)]"

definition race_first :: "(exn + unit) \<times> world" where
  "race_first = commitRepo sample_env ''d'' race_tree [CreateOp ''c'' ''k'' JNull]
     (empty_world\<lparr>w_repos := [(''d'', race_tree)]\<rparr>)"

definition race_second :: "(exn + unit) \<times> world" where
  "race_second = commitRepo sample_env ''d'' race_tree [UpdateOp ''c'' ''other'' (JStr ''v'')] (snd race_first)"

theorem concurrent_commit_is_lost_witness:
  "\<exists>t1 t2. map_of (w_repos (snd race_first)) ''d'' = Some t1 \<and> map_of t1 (''c'', ''k'') = Some JNull \<and>
      map_of (w_repos (snd race_second)) ''d'' = Some t2 \<and> map_of t2 (''c'', ''k'') = None"
proof (rule concurrent_commit_is_lost)
  show "commitRepo sample_env ''d'' race_tree [CreateOp ''c'' ''k'' JNull]
      (empty_world\<lparr>w_repos := [(''d'', race_tree)]\<rparr>) = (Inr (), snd race_first)"
    by (simp add: race_first_def commitRepo_def run_simps reference_commit_def race_tree_def
        dbWrite_def dbTxn_def sample_env_def Let_def)
  show "commitRepo sample_env ''d'' race_tree [UpdateOp ''c'' ''other'' (JStr ''v'')] (snd race_first)
      = (Inr (), snd race_second)"
    by (simp add: race_second_def commitRepo_def run_simps reference_commit_def race_tree_def
        dbWrite_def dbTxn_def sample_env_def Let_def)
qed (simp_all add: reference_commit_ok race_tree_def empty_world_def)

end
