(* ===== verification/Permissions.thy ===== *)
theory Permissions
  imports Store
begin

text \<open>
  Who may do what in a community: \<^verbatim>\<open>src/auth/guards.ts\<close>, \<^verbatim>\<open>src/auth/permissions.ts\<close>,
  \<^verbatim>\<open>src/community/visibility.ts\<close>, \<^verbatim>\<open>src/governance/electorate.ts\<close> and
  \<^verbatim>\<open>src/repo/collection-policy.ts\<close>.

  A guard that writes to the response returns it (\<open>Inl\<close>); the caller then returns. The
  bodies of error responses are modelled by their status and error code, without the
  message for people.
\<close>

subsection \<open>Requests and responses\<close>

record auth =
  a_userId :: string
  a_did :: string
  a_handle :: string
  a_status :: string
  a_roles :: "string list"
  a_emailVerified :: "bool option"

record request =
  q_auth :: "auth option"
  q_serviceAuthError :: "(nat \<times> string) option"
  q_partner :: "string list option"
  q_partnerError :: "(nat \<times> string) option"
  q_body :: jv

datatype reply = Reply nat jv

definition err :: "nat \<Rightarrow> string \<Rightarrow> reply" where
  "err status code = Reply status (JObj [(''error'', JStr code)])"

fun reply_status :: "reply \<Rightarrow> nat" where
  "reply_status (Reply n _) = n"

fun reply_body :: "reply \<Rightarrow> jv" where
  "reply_body (Reply _ b) = b"

definition ok :: "(string \<times> jv) list \<Rightarrow> reply" where
  "ok props = Reply 200 (JObj props)"

text \<open>A guard that answered ends the handler.\<close>

definition guardM :: "(reply + 'a) io \<Rightarrow> ('a \<Rightarrow> reply io) \<Rightarrow> reply io" where
  "guardM g k = bindM g (\<lambda>r. case r of Inl rep \<Rightarrow> ret rep | Inr x \<Rightarrow> k x)"

text \<open>The string a JavaScript value has as a property key.\<close>

definition prop_key :: "env \<Rightarrow> jv \<Rightarrow> string" where
  "prop_key env v = (case v of JStr s \<Rightarrow> s | _ \<Rightarrow> e_text env v)"

subsection \<open>Permission names\<close>

definition ALL_PERMISSIONS :: "string list" where
  "ALL_PERMISSIONS =
     [''community.settings.write'', ''community.profile.write'', ''community.member.read'',
      ''community.member.write'', ''community.member.delete'', ''community.role.read'',
      ''community.role.write'', ''community.attestation.write'', ''community.attestation.delete'',
      ''community.application.write'', ''community.application.delete'',
      ''community.governance.write'', ''community.forum.write'', ''community.forum.moderate'',
      ''community.calendar.write'']"

definition OWNER_REQUIRED_PERMISSIONS :: "string list" where
  "OWNER_REQUIRED_PERMISSIONS = [''community.role.write'', ''community.settings.write'']"

definition getDefaultRoleRecords :: "(string \<times> jv) list" where
  "getDefaultRoleRecords = (let role = (\<lambda>name description permissions.
       (name, JObj [(''name'', JStr name), (''description'', JStr description),
                    (''permissions'', JArr (map JStr permissions))]))
     in [role ''owner'' ''Community owner with full permissions'' ALL_PERMISSIONS,
         role ''moderator'' ''Community moderator''
           [''community.profile.write'', ''community.member.read'', ''community.member.write'',
            ''community.member.delete'', ''community.role.read'', ''community.attestation.write'',
            ''community.attestation.delete'', ''community.governance.write'', ''community.forum.write'',
            ''community.forum.moderate'', ''community.calendar.write''],
         role ''member'' ''Regular community member''
           [''community.member.read'', ''community.role.read'', ''community.forum.write'',
            ''community.calendar.write'']])"

definition findRoleRkeyByName :: "env \<Rightarrow> string \<Rightarrow> string \<Rightarrow> string option io" where
  "findRoleRkeyByName env communityDid roleName =
     dbRead env (\<lambda>s. case filter (\<lambda>(_, _, rec). json_text (e_text env) (jget rec ''name'') = Some roleName)
                       (coll_rows s communityDid ROLE_COLLECTION) of
        [] \<Rightarrow> None | (rkey, _) # _ \<Rightarrow> if rkey = [] then None else Some rkey)"

subsection \<open>The caller's standing in a community\<close>

record community_ctx =
  x_created_by :: "string option"
  x_owner_did :: "string option"
  x_visibility :: "string option"
  x_member_rkey :: "string option"
  x_member_record :: jv
  x_role_record :: jv
  x_join_status :: "string option"

definition record_or_null :: "(string \<times> jv) option \<Rightarrow> jv" where
  "record_or_null r = (case r of None \<Rightarrow> JNull | Some (_, rec) \<Rightarrow> rec)"

text \<open>The join of one statement; each joined table is unique in the joined columns.\<close>

definition community_context :: "env \<Rightarrow> world \<Rightarrow> string \<Rightarrow> auth option \<Rightarrow> community_ctx option" where
  "community_context env s communityDid caller =
     (case map_of (w_communities s) communityDid of
        None \<Rightarrow> None
      | Some c \<Rightarrow>
        (let T = e_text env;
             settings = record_or_null (indexed s communityDid SETTINGS_COLLECTION ''self'');
             mu = Option.bind caller (\<lambda>a. map_of (w_members s) (communityDid, a_did a));
             mr = record_or_null (Option.bind mu (\<lambda>m. indexed s communityDid MEMBER_COLLECTION (m_record_rkey m)));
             rr = record_or_null (Option.bind (json_text T (jget mr ''roleRkey''))
                    (\<lambda>k. indexed s communityDid ROLE_COLLECTION k))
         in Some \<lparr>x_created_by = c_created_by c, x_owner_did = c_owner_did c,
               x_visibility = json_text T (jget settings ''visibility''),
               x_member_rkey = map_option m_record_rkey mu,
               x_member_record = mr, x_role_record = rr,
               x_join_status = Option.bind caller (\<lambda>a. map_option jr_status (map_of (w_joins s) (communityDid, a_userId a)))\<rparr>))"

definition loadCommunityContext :: "env \<Rightarrow> string \<Rightarrow> auth option \<Rightarrow> community_ctx option io" where
  "loadCommunityContext env communityDid caller =
     dbRead env (\<lambda>s. community_context env s communityDid caller)"

record membership =
  ms_status :: string
  ms_role :: jv
  ms_roleRkey :: jv
  ms_kind :: jv
  ms_tags :: jv
  ms_attributes :: jv

fun has_keys :: "jv \<Rightarrow> bool" where
  "has_keys (JObj ps) = (ps \<noteq> [])"
| "has_keys (JArr xs) = (xs \<noteq> [])"
| "has_keys (JStr s) = (s \<noteq> [])"
| "has_keys _ = False"

definition nonempty_str :: "string option \<Rightarrow> bool" where
  "nonempty_str o' \<longleftrightarrow> (case o' of None \<Rightarrow> False | Some s \<Rightarrow> s \<noteq> [])"

definition membershipFromRow :: "community_ctx option \<Rightarrow> membership option" where
  "membershipFromRow row = (case row of
      None \<Rightarrow> None
    | Some r \<Rightarrow>
      if nonempty_str (x_member_rkey r) then
        (let member = x_member_record r;
             roleRkey = jget member ''roleRkey'';
             role = js_nullish (jget member ''role'')
                      (JStr (if truthy roleRkey then ''custom'' else ''member''));
             roleName = jget (x_role_record r) ''name'';
             tags = jget member ''tags''; attributes = jget member ''attributes''
         in Some \<lparr>ms_status = ''member'',
              ms_role = (if truthy roleRkey \<and> truthy roleName then roleName else role),
              ms_roleRkey = (if truthy roleRkey then roleRkey else JUndef),
              ms_kind = (if truthy (jget member ''kind'') then jget member ''kind'' else JUndef),
              ms_tags = (if arr_or_nil tags \<noteq> [] then tags else JUndef),
              ms_attributes = (if truthy attributes \<and> has_keys attributes then attributes else JUndef)\<rparr>)
      else (case x_join_status r of
          Some j \<Rightarrow> if j = [] then None
            else Some \<lparr>ms_status = j, ms_role = JUndef, ms_roleRkey = JUndef, ms_kind = JUndef,
                       ms_tags = JUndef, ms_attributes = JUndef\<rparr>
        | None \<Rightarrow> None))"

definition getCallerMembership :: "env \<Rightarrow> string \<Rightarrow> auth option \<Rightarrow> membership option io" where
  "getCallerMembership env communityDid caller =
     (if caller = None then ret None
      else bindM (loadCommunityContext env communityDid caller) (\<lambda>row. ret (membershipFromRow row)))"

record capabilities =
  cp_exists :: bool
  cp_visibility :: string
  cp_isAdmin :: bool
  cp_isOwner :: bool
  cp_membership :: "membership option"
  cp_all :: bool
  cp_permissions :: jv

definition visibility_of :: "community_ctx \<Rightarrow> string" where
  "visibility_of r = (case x_visibility r of Some v \<Rightarrow> if v = [] then ''public'' else v | None \<Rightarrow> ''public'')"

definition community_access :: "community_ctx option \<Rightarrow> auth option \<Rightarrow> capabilities" where
  "community_access row caller =
     (let ms = (if caller = None then None else membershipFromRow row)
      in case row of
           None \<Rightarrow> \<lparr>cp_exists = False, cp_visibility = [], cp_isAdmin = False, cp_isOwner = False,
                   cp_membership = ms, cp_all = False, cp_permissions = JArr []\<rparr>
         | Some r \<Rightarrow> \<lparr>cp_exists = True, cp_visibility = visibility_of r,
                   cp_isAdmin = (case caller of None \<Rightarrow> False | Some a \<Rightarrow> ''admin'' \<in> set (a_roles a)),
                   cp_isOwner = (case caller of None \<Rightarrow> False | Some a \<Rightarrow> x_owner_did r = Some (a_did a)),
                   cp_membership = ms, cp_all = False, cp_permissions = JArr []\<rparr>)"

definition getCommunityAccess :: "env \<Rightarrow> string \<Rightarrow> auth option \<Rightarrow> capabilities io" where
  "getCommunityAccess env communityDid caller =
     bindM (loadCommunityContext env communityDid caller) (\<lambda>row. ret (community_access row caller))"

definition legacy_permissions :: "string \<Rightarrow> jv" where
  "legacy_permissions role =
     JArr (map JStr (case LEGACY_ROLE_PERMISSIONS role of None \<Rightarrow> [] | Some ps \<Rightarrow> ps))"

definition caller_capabilities :: "env \<Rightarrow> community_ctx option \<Rightarrow> auth \<Rightarrow> capabilities" where
  "caller_capabilities env row caller =
     (let access = community_access row (Some caller)
      in case row of
           None \<Rightarrow> access
         | Some r \<Rightarrow>
           if cp_isAdmin access \<or> cp_isOwner access then
             access\<lparr>cp_all := True, cp_permissions := JArr (map JStr ALL_PERMISSIONS)\<rparr>
           else (case cp_membership access of
               None \<Rightarrow> access
             | Some ms \<Rightarrow>
               if ms_status ms \<noteq> ''member'' then access
               else if truthy (ms_roleRkey ms) then
                 access\<lparr>cp_permissions := js_or (jget (x_role_record r) ''permissions'') (JArr [])\<rparr>
               else access\<lparr>cp_permissions :=
                      legacy_permissions (prop_key env (js_or (ms_role ms) (JStr ''member'')))\<rparr>))"

definition getCallerCommunityCapabilities :: "env \<Rightarrow> string \<Rightarrow> auth \<Rightarrow> capabilities io" where
  "getCallerCommunityCapabilities env communityDid caller =
     bindM (loadCommunityContext env communityDid (Some caller))
       (\<lambda>row. ret (caller_capabilities env row caller))"

definition canViewPrivateCommunity :: "capabilities \<Rightarrow> bool" where
  "canViewPrivateCommunity access \<longleftrightarrow> cp_isAdmin access \<or> cp_isOwner access \<or>
     map_option ms_status (cp_membership access) = Some ''member''"

text \<open>\<open>hasAllPermissions || permissions.includes(p)\<close>.\<close>

definition has_permission :: "capabilities \<Rightarrow> string \<Rightarrow> exn + bool" where
  "has_permission caps p = (if cp_all caps then Inr True else js_includes (cp_permissions caps) p)"

definition callerCanModerateForum :: "env \<Rightarrow> string \<Rightarrow> auth option \<Rightarrow> bool io" where
  "callerCanModerateForum env communityDid caller = (case caller of
      None \<Rightarrow> ret False
    | Some a \<Rightarrow> bindM (getCallerCommunityCapabilities env communityDid a)
                 (\<lambda>caps. liftE (has_permission caps ''community.forum.moderate'')))"

subsection \<open>Guards\<close>

definition requireAuth :: "request \<Rightarrow> reply + auth" where
  "requireAuth req = (case q_auth req of
      Some a \<Rightarrow> Inr a
    | None \<Rightarrow> (case q_serviceAuthError req of
        Some (status, code) \<Rightarrow> Inl (err status code)
      | None \<Rightarrow> Inl (err 401 ''Unauthorized'')))"

definition requireRole :: "request \<Rightarrow> string list \<Rightarrow> reply + auth" where
  "requireRole req roles = (case requireAuth req of
      Inl r \<Rightarrow> Inl r
    | Inr a \<Rightarrow> if \<exists>role \<in> set roles. role \<in> set (a_roles a) then Inr a else Inl (err 403 ''Forbidden''))"

definition status_problem :: "string \<Rightarrow> (nat \<times> string) option" where
  "status_problem status =
     (if status = ''suspended'' then Some (403, ''AccountSuspended'')
      else if status = ''takendown'' then Some (410, ''AccountTakenDown'')
      else if status = ''deactivated'' then Some (403, ''AccountDeactivated'')
      else if status \<noteq> ''approved'' then Some (403, ''AccountNotApproved'')
      else None)"

definition requireApprovedUser :: "env \<Rightarrow> request \<Rightarrow> reply + auth" where
  "requireApprovedUser env req = (case requireAuth req of
      Inl r \<Rightarrow> Inl r
    | Inr a \<Rightarrow>
      if e_write_gate env \<and> a_emailVerified a = Some False then Inl (err 403 ''EmailNotVerified'')
      else (case status_problem (a_status a) of
          Some (status, code) \<Rightarrow> Inl (err status code)
        | None \<Rightarrow> Inr a))"

definition requireActiveCommunity :: "env \<Rightarrow> string \<Rightarrow> (reply + community_row) io" where
  "requireActiveCommunity env communityDid =
     bindM (dbRead env (\<lambda>s. map_of (w_communities s) communityDid)) (\<lambda>row. ret (case row of
        None \<Rightarrow> Inl (err 404 ''NotFound'')
      | Some c \<Rightarrow>
        if c_status c = ''suspended'' then Inl (err 403 ''CommunitySuspended'')
        else if c_status c = ''takendown'' then Inl (err 410 ''CommunityTakenDown'')
        else if c_status c = ''moved'' then Inl (err 403 ''CommunityMoved'')
        else if c_status c = ''importing'' then Inl (err 403 ''CommunityImporting'')
        else Inr c))"

definition writableStatus :: "string \<Rightarrow> reply option" where
  "writableStatus status =
     (if status = ''moved'' then Some (err 403 ''CommunityMoved'')
      else if status = ''importing'' then Some (err 403 ''CommunityImporting'')
      else None)"

definition role_level :: "string \<Rightarrow> nat" where
  "role_level role = (if role = ''owner'' then 3 else if role = ''moderator'' then 2
     else if role = ''member'' then 1 else 0)"

text \<open>\<open>Math.min\<close> of no levels is \<open>Infinity\<close>, which no caller reaches.\<close>

definition reaches_level :: "nat \<Rightarrow> string list \<Rightarrow> bool" where
  "reaches_level callerLevel requiredRoles \<longleftrightarrow>
     (\<exists>role \<in> set requiredRoles. role_level role \<le> callerLevel)"

definition requireCommunityRole :: "env \<Rightarrow> auth \<Rightarrow> string \<Rightarrow> string list \<Rightarrow> (reply + jv) io" where
  "requireCommunityRole env a communityDid requiredRoles =
     (if ''admin'' \<in> set (a_roles a) then ret (Inr (JStr ''owner''))
      else bindM (dbRead env (\<lambda>s. map_of (w_communities s) communityDid)) (\<lambda>row. case row of
          None \<Rightarrow> ret (Inl (err 404 ''NotFound''))
        | Some c \<Rightarrow>
          (case writableStatus (c_status c) of
             Some r \<Rightarrow> ret (Inl r)
           | None \<Rightarrow>
             (let isOwner = (c_owner_did c = Some (a_did a))
              in if isOwner \<and> ''owner'' \<in> set requiredRoles then ret (Inr (JStr ''owner''))
                 else bindM (dbRead env (\<lambda>s. map_of (w_members s) (communityDid, a_did a))) (\<lambda>m. case m of
                     None \<Rightarrow> ret (Inl (err 403 (if ''member'' \<in> set requiredRoles then ''NotMember''
                                               else ''Forbidden'')))
                   | Some mrow \<Rightarrow>
                     if isOwner then ret (Inr (JStr ''owner''))
                     else bindM (dbRead env (\<lambda>s. indexed s communityDid MEMBER_COLLECTION (m_record_rkey mrow)))
                       (\<lambda>r. let memberRole = js_or (jget (record_or_null r) ''role'') (JStr ''member'')
                            in ret (if reaches_level (role_level (prop_key env memberRole)) requiredRoles
                                    then Inr memberRole else Inl (err 403 ''Forbidden''))))))))"

definition community_status :: "world \<Rightarrow> string \<Rightarrow> string option" where
  "community_status s communityDid = map_option c_status (map_of (w_communities s) communityDid)"

definition requireCommunityPermission :: "env \<Rightarrow> auth \<Rightarrow> string \<Rightarrow> string \<Rightarrow> (reply + unit) io" where
  "requireCommunityPermission env a communityDid permission =
     bindM (getCallerCommunityCapabilities env communityDid a) (\<lambda>caps.
       if \<not> cp_exists caps then ret (Inl (err 404 ''NotFound''))
       else bindM (dbRead env (\<lambda>s. community_status s communityDid)) (\<lambda>status.
         case Option.bind status writableStatus of
           Some r \<Rightarrow> ret (Inl r)
         | None \<Rightarrow>
           bindM (liftE (has_permission caps permission)) (\<lambda>granted.
             ret (if granted then Inr ()
                  else if map_option ms_status (cp_membership caps) \<noteq> Some ''member''
                    then Inl (err 403 ''NotMember'')
                  else Inl (err 403 ''Forbidden'')))))"

definition requireCommunityReadable :: "env \<Rightarrow> request \<Rightarrow> string \<Rightarrow> (reply + unit) io" where
  "requireCommunityReadable env req communityDid =
     bindM (getCommunityAccess env communityDid (q_auth req)) (\<lambda>access.
       ret (if \<not> cp_exists access \<or> (cp_visibility access = ''private'' \<and> \<not> canViewPrivateCommunity access)
            then Inl (err 404 ''NotFound'') else Inr ()))"

definition requireRepoReadable :: "env \<Rightarrow> request \<Rightarrow> string \<Rightarrow> (reply + unit) io" where
  "requireRepoReadable env req did =
     bindM (getCommunityAccess env did (q_auth req)) (\<lambda>access.
       ret (if cp_exists access \<and> cp_visibility access = ''private'' \<and> \<not> canViewPrivateCommunity access
            then Inl (err 404 ''RepoNotFound'') else Inr ()))"

definition requirePartnerAuth :: "request \<Rightarrow> string \<Rightarrow> reply + unit" where
  "requirePartnerAuth req requiredPermission = (case q_partner req of
      None \<Rightarrow> (case q_partnerError req of
          Some (status, code) \<Rightarrow> Inl (err status code)
        | None \<Rightarrow> Inl (err 401 ''AuthRequired''))
    | Some permissions \<Rightarrow>
        if requiredPermission \<in> set permissions then Inr () else Inl (err 403 ''Forbidden''))"

subsection \<open>Guards that throw\<close>

definition assertAuth :: "request \<Rightarrow> exn + auth" where
  "assertAuth req = (case q_auth req of
      Some a \<Rightarrow> Inr a
    | None \<Rightarrow> (case q_serviceAuthError req of
        Some (status, code) \<Rightarrow> Inl (HttpError status code [])
      | None \<Rightarrow> Inl (HttpError 401 ''Unauthorized'' [])))"

definition assertRole :: "request \<Rightarrow> string list \<Rightarrow> exn + auth" where
  "assertRole req roles = (case assertAuth req of
      Inl e \<Rightarrow> Inl e
    | Inr a \<Rightarrow> if \<exists>role \<in> set roles. role \<in> set (a_roles a) then Inr a
              else Inl (HttpError 403 ''Forbidden'' ''Insufficient privileges''))"

definition assertApprovedUser :: "request \<Rightarrow> exn + auth" where
  "assertApprovedUser req = (case assertAuth req of
      Inl e \<Rightarrow> Inl e
    | Inr a \<Rightarrow> (case status_problem (a_status a) of
        Some (status, code) \<Rightarrow> Inl (HttpError status code [])
      | None \<Rightarrow> Inr a))"

definition assertCommunityPermission :: "env \<Rightarrow> auth \<Rightarrow> string \<Rightarrow> string \<Rightarrow> unit io" where
  "assertCommunityPermission env a communityDid permission =
     bindM (getCallerCommunityCapabilities env communityDid a) (\<lambda>caps.
       if \<not> cp_exists caps then throw (HttpError 404 ''NotFound'' ''Community not found'')
       else bindM (liftE (has_permission caps permission)) (\<lambda>granted.
         if granted then ret ()
         else if map_option ms_status (cp_membership caps) \<noteq> Some ''member''
           then throw (HttpError 403 ''NotMember'' ''You must be a member of this community'')
         else throw (HttpError 403 ''Forbidden'' ''Insufficient community privileges'')))"

subsection \<open>Who could vote\<close>

definition eligible_row :: "env \<Rightarrow> world \<Rightarrow> string \<Rightarrow> jv \<Rightarrow> bool" where
  "eligible_row env s communityDid mr =
     (let role = json_text (e_text env) (jget mr ''role'');
          roleRkey = json_text (e_text env) (jget mr ''roleRkey'');
          rr = record_or_null (Option.bind roleRkey (\<lambda>k. indexed s communityDid ROLE_COLLECTION k));
          permissions =
            (if nonempty_str roleRkey then arr_or_nil (jget rr ''permissions'')
             else arr_or_nil (legacy_permissions (if nonempty_str role then the role else ''member'')))
      in JStr GOVERNANCE_WRITE_PERMISSION \<in> set permissions)"

definition eligible_voters :: "env \<Rightarrow> world \<Rightarrow> string \<Rightarrow> nat" where
  "eligible_voters env s communityDid =
     length (filter (\<lambda>(_, _, mr). eligible_row env s communityDid mr)
       (coll_rows s communityDid MEMBER_COLLECTION))"

definition countEligibleVoters :: "env \<Rightarrow> string \<Rightarrow> nat io" where
  "countEligibleVoters env communityDid = dbRead env (\<lambda>s. eligible_voters env s communityDid)"

subsection \<open>Collections written through their own endpoint\<close>

datatype mutation = Create | Update | Delete

text \<open>The permission of each operation, for the collections with a policy.\<close>

definition write_policy :: "string \<Rightarrow> string \<Rightarrow> mutation \<Rightarrow> string" where
  "write_policy write delete op' = (if op' = Delete then delete else write)"

definition PROTECTED_COLLECTION_POLICIES :: "string \<Rightarrow> (mutation \<Rightarrow> string) option" where
  "PROTECTED_COLLECTION_POLICIES = map_of
     [(''net.openfederation.community.settings'',
         write_policy ''community.settings.write'' ''community.settings.write''),
      (''net.openfederation.community.profile'',
         write_policy ''community.profile.write'' ''community.profile.write''),
      (''net.openfederation.community.member'',
         write_policy ''community.member.write'' ''community.member.delete''),
      (''net.openfederation.community.role'',
         write_policy ''community.role.write'' ''community.role.write''),
      (''net.openfederation.community.attestation'',
         write_policy ''community.attestation.write'' ''community.attestation.delete''),
      (''net.openfederation.community.application'',
         write_policy ''community.application.write'' ''community.application.delete''),
      (''net.openfederation.community.proposal'',
         write_policy ''community.governance.write'' ''community.governance.write''),
      (''net.openfederation.governance.decision'',
         write_policy ''community.governance.write'' ''community.governance.write''),
      (''net.openfederation.community.delegation'',
         write_policy ''community.governance.write'' ''community.governance.write'')]"

definition SELF_REPO_DEDICATED_ENDPOINT_COLLECTIONS :: "string list" where
  "SELF_REPO_DEDICATED_ENDPOINT_COLLECTIONS =
     [''net.openfederation.governance.vote'', ''net.openfederation.governance.objection'',
      ''net.openfederation.governance.decision'']"

definition FALLBACK_PERMISSIONS :: "mutation \<Rightarrow> string" where
  "FALLBACK_PERMISSIONS = write_policy ''community.member.write'' ''community.member.delete''"

text \<open>
  The collection is whatever the request body holds: a set is asked for the value itself, a
  property of an object for its text.
\<close>

definition authorizeCollectionMutation ::
  "env \<Rightarrow> auth \<Rightarrow> string \<Rightarrow> jv \<Rightarrow> mutation \<Rightarrow> unit io" where
  "authorizeCollectionMutation env actor repo coll operation =
     bindM (getCallerCommunityCapabilities env repo actor) (\<lambda>caps.
       if \<not> cp_exists caps then
         (if repo = a_did actor then
            (if coll \<in> JStr ` set SELF_REPO_DEDICATED_ENDPOINT_COLLECTIONS
             then throw (HttpError 400 ''UseDedicatedEndpoint'' []) else ret ())
          else throw (HttpError 403 ''Forbidden'' ''Cannot mutate another repository''))
       else
         (let policy = PROTECTED_COLLECTION_POLICIES (prop_key env coll);
              required = (case policy of None \<Rightarrow> FALLBACK_PERMISSIONS | Some p \<Rightarrow> p) operation
          in bindM (liftE (has_permission caps required)) (\<lambda>granted.
               if granted then
                 (if policy \<noteq> None then throw (HttpError 400 ''UseDedicatedEndpoint'' []) else ret ())
               else throw (HttpError 403 ''Forbidden'' ''Insufficient community privileges''))))"

end
