(* ===== verification/VoteRecords.thy ===== *)
theory VoteRecords
  imports Permissions
begin

text \<open>
  The records members sign in their own repositories: votes with the membership evidence
  they carry, and objections. \<^verbatim>\<open>src/governance/vote-records.ts\<close>,
  \<^verbatim>\<open>src/governance/eligibility-evidence.ts\<close>, \<^verbatim>\<open>src/governance/objection-records.ts\<close>.
\<close>

definition strong_ref :: "string \<Rightarrow> string \<Rightarrow> jv" where
  "strong_ref uri cid = JObj [(''uri'', JStr uri), (''cid'', JStr cid)]"

lemma jget_strong_ref [simp]:
  "jget (strong_ref uri cid) ''uri'' = JStr uri" "jget (strong_ref uri cid) ''cid'' = JStr cid"
  by (simp_all add: strong_ref_def)

subsection \<open>Membership evidence\<close>

definition evidence :: "jv \<Rightarrow> jv \<Rightarrow> jv \<Rightarrow> bool \<Rightarrow> string option \<Rightarrow> jv" where
  "evidence member roleRecord roleName granted unresolved = JObj
     ([(''member'', member), (''roleRecord'', roleRecord), (''roleName'', roleName),
       (''grantedGovernanceWrite'', JBool granted)]
      @ (case unresolved of None \<Rightarrow> [] | Some u \<Rightarrow> [(''unresolved'', JStr u)]))"

definition no_evidence :: "string \<Rightarrow> jv" where
  "no_evidence unresolved = evidence JNull JNull JNull False (Some unresolved)"

definition includes_permission :: "jv \<Rightarrow> bool" where
  "includes_permission permissions \<longleftrightarrow> JStr GOVERNANCE_WRITE_PERMISSION \<in> set (arr_or_nil permissions)"

text \<open>The member record the membership row names, with its key and content identifier.\<close>

definition member_lookup :: "world \<Rightarrow> string \<Rightarrow> string \<Rightarrow> (string \<times> string \<times> jv) option" where
  "member_lookup s communityDid voterDid =
     Option.bind (map_of (w_members s) (communityDid, voterDid)) (\<lambda>m.
       map_option (\<lambda>(cid, rec). (m_record_rkey m, cid, rec))
         (indexed s communityDid MEMBER_COLLECTION (m_record_rkey m)))"

definition collectEligibilityEvidence :: "env \<Rightarrow> string \<Rightarrow> string \<Rightarrow> jv io" where
  "collectEligibilityEvidence env communityDid voterDid =
     catchM
       (bindM (dbRead env (\<lambda>s. member_lookup s communityDid voterDid)) (\<lambda>m. case m of
          None \<Rightarrow> ret (no_evidence ''no-member-record'')
        | Some (rkey, cid, memberRecord) \<Rightarrow>
          (let memberRef = strong_ref (at_uri communityDid MEMBER_COLLECTION rkey) cid;
               roleRkey = jget memberRecord ''roleRkey''; role = jget memberRecord ''role''
           in if truthy roleRkey then
                bindM (dbRead env (\<lambda>s. indexed s communityDid ROLE_COLLECTION (prop_key env roleRkey))) (\<lambda>r.
                  ret (case r of
                    None \<Rightarrow> evidence memberRef JNull (js_nullish role JNull) False (Some ''role-record-missing'')
                  | Some (rcid, rec) \<Rightarrow>
                      evidence memberRef
                        (strong_ref (at_uri communityDid ROLE_COLLECTION (prop_key env roleRkey)) rcid)
                        (js_nullish (jget rec ''name'') (js_nullish role JNull))
                        (includes_permission (jget rec ''permissions'')) None))
              else
                (let roleName = js_nullish role (JStr ''member'')
                 in ret (evidence memberRef JNull roleName
                      (includes_permission (legacy_permissions (prop_key env roleName))) None)))))
       (\<lambda>e. ret (no_evidence (exn_message e)))"

subsection \<open>Vote records\<close>

record vote_input =
  vi_voterDid :: string
  vi_communityDid :: string
  vi_proposalRkey :: string
  vi_proposalCid :: string
  vi_vote :: vote_choice
  vi_castBy :: "string option"
  vi_delegation :: "(string \<times> string) option"

record vote_result =
  vr_voterDid :: string
  vr_uri :: string
  vr_cid :: string
  vr_rkey :: string

text \<open>\<open>...(s ? { k: s } : {})\<close>\<close>

definition opt_str :: "string \<Rightarrow> string option \<Rightarrow> (string \<times> jv) list" where
  "opt_str k v = (case v of None \<Rightarrow> [] | Some s \<Rightarrow> opt_field (s \<noteq> []) k (JStr s))"

definition opt_ref :: "string \<Rightarrow> (string \<times> string) option \<Rightarrow> (string \<times> jv) list" where
  "opt_ref k v = (case v of None \<Rightarrow> [] | Some (uri, cid) \<Rightarrow> [(k, strong_ref uri cid)])"

definition auditMissingVoteRecord :: "env \<Rightarrow> vote_input \<Rightarrow> string \<Rightarrow> unit io" where
  "auditMissingVoteRecord env input reason =
     auditLog env ''community.proposal.vote.recordFailed''
       (if length (vi_voterDid input) \<le> 36 then Some (vi_voterDid input) else None)
       (Some (vi_communityDid input))
       (JObj ([(''voterDid'', JStr (vi_voterDid input)),
               (''proposalRkey'', JStr (vi_proposalRkey input)),
               (''proposalCid'', JStr (vi_proposalCid input)),
               (''vote'', JStr (choice_str (vi_vote input)))]
              @ opt_str ''castBy'' (vi_castBy input) @ [(''reason'', JStr reason)]))"

definition canRecordVote :: "env \<Rightarrow> string \<Rightarrow> bool io" where
  "canRecordVote env voterDid = hasRepo env voterDid"

definition auditUnrecordableVote :: "env \<Rightarrow> vote_input \<Rightarrow> unit io" where
  "auditUnrecordableVote env input = auditMissingVoteRecord env input ''no-repo''"

definition vote_record :: "vote_input \<Rightarrow> jv \<Rightarrow> string \<Rightarrow> jv" where
  "vote_record input eligibility createdAt = JObj
     ([(''$type'', JStr VOTE_COLLECTION),
       (''community'', JStr (vi_communityDid input)),
       (''proposal'', strong_ref (proposalUri (vi_communityDid input) (vi_proposalRkey input)) (vi_proposalCid input)),
       (''proposalCollection'', JStr PROPOSAL_COLLECTION),
       (''proposalRkey'', JStr (vi_proposalRkey input)),
       (''vote'', JStr (choice_str (vi_vote input)))]
      @ opt_str ''castBy'' (vi_castBy input) @ opt_ref ''delegation'' (vi_delegation input)
      @ [(''eligibility'', eligibility), (''createdAt'', JStr createdAt)])"

definition writeVoteRecord :: "env \<Rightarrow> vote_input \<Rightarrow> vote_result option io" where
  "writeVoteRecord env input =
     catchM
       (bindM (hasRepo env (vi_voterDid input)) (\<lambda>has.
          if \<not> has then seqM (auditMissingVoteRecord env input ''no-repo'') (ret None)
          else
            seqM (getKeypairForDid env (vi_voterDid input))
             (bindM (generateTid env) (\<lambda>rkey.
              bindM (collectEligibilityEvidence env (vi_communityDid input) (vi_voterDid input)) (\<lambda>eligibility.
              bindM (nowIso env) (\<lambda>now.
              bindM (putRecord env (vi_voterDid input) VOTE_COLLECTION rkey (vote_record input eligibility now))
                (\<lambda>(cid, uri). ret (Some \<lparr>vr_voterDid = vi_voterDid input, vr_uri = uri, vr_cid = cid,
                                       vr_rkey = rkey\<rparr>))))))))
       (\<lambda>e. seqM (auditMissingVoteRecord env input (exn_message e)) (ret None))"

definition writeVoteRecords :: "env \<Rightarrow> vote_input list \<Rightarrow> vote_result list io" where
  "writeVoteRecords env inputs =
     foldM (\<lambda>results input. bindM (writeVoteRecord env input)
              (\<lambda>r. ret (case r of None \<Rightarrow> results | Some x \<Rightarrow> results @ [x]))) [] inputs"

subsection \<open>Objection records\<close>

record objection_input =
  oi_objectorDid :: string
  oi_communityDid :: string
  oi_proposalRkey :: string
  oi_proposalCid :: string
  oi_decision :: jv
  oi_reason :: "string option"

record objection_result =
  or_uri :: string
  or_cid :: string
  or_rkey :: string
  or_createdAt :: string

definition canRecordObjection :: "env \<Rightarrow> string \<Rightarrow> bool io" where
  "canRecordObjection env objectorDid = hasRepo env objectorDid"

definition objection_record :: "objection_input \<Rightarrow> string \<Rightarrow> jv" where
  "objection_record input createdAt = JObj
     ([(''$type'', JStr OBJECTION_COLLECTION),
       (''community'', JStr (oi_communityDid input)),
       (''proposal'', strong_ref (proposalUri (oi_communityDid input) (oi_proposalRkey input)) (oi_proposalCid input)),
       (''proposalCollection'', JStr PROPOSAL_COLLECTION),
       (''proposalRkey'', JStr (oi_proposalRkey input)),
       (''decision'', oi_decision input)]
      @ opt_str ''reason'' (oi_reason input)
      @ [(''createdAt'', JStr createdAt)])"

definition writeObjectionRecord :: "env \<Rightarrow> objection_input \<Rightarrow> objection_result io" where
  "writeObjectionRecord env input =
     seqM (getKeypairForDid env (oi_objectorDid input))
      (bindM (generateTid env) (\<lambda>rkey.
       bindM (nowIso env) (\<lambda>createdAt.
       bindM (putRecord env (oi_objectorDid input) OBJECTION_COLLECTION rkey (objection_record input createdAt))
         (\<lambda>(cid, uri). ret \<lparr>or_uri = uri, or_cid = cid, or_rkey = rkey, or_createdAt = createdAt\<rparr>))))"

end
