(* ===== verification/Resolution.thy ===== *)
theory Resolution
  imports VoteRecords
begin

text \<open>
  Deciding a proposal from the vote records its voters signed:
  \<^verbatim>\<open>src/governance/proposal-resolution.ts\<close>. The tally is a scan of the index that keeps the
  earliest countable record of every repository; it is compared with the vote cache on the
  proposal before anything is decided.
\<close>

subsection \<open>Writing a proposal\<close>

definition string_list :: "jv \<Rightarrow> string list" where
  "string_list v = strings_of (arr_or_nil v)"

definition last_n :: "nat \<Rightarrow> 'a list \<Rightarrow> 'a list" where
  "last_n n xs = drop (length xs - n) xs"

definition extend_chain :: "jv \<Rightarrow> string option \<Rightarrow> string list" where
  "extend_chain record' previous =
     (let existing = string_list (jget record' ''cidChain'')
      in last_n MAX_CID_CHAIN
           (case previous of
              None \<Rightarrow> existing
            | Some c \<Rightarrow> if c \<noteq> [] \<and> c \<notin> set existing then existing @ [c] else existing))"

definition proposalWriteOp :: "env \<Rightarrow> string \<Rightarrow> string \<Rightarrow> jv \<Rightarrow> jv io" where
  "proposalWriteOp env communityDid proposalRkey record' =
     (if \<not> usesVoteRecordEvidence record' then ret record'
      else bindM (dbRead env (\<lambda>s. map_option fst (indexed s communityDid PROPOSAL_COLLECTION proposalRkey)))
        (\<lambda>current. ret (jassign record'
            [(''cidChain'', JArr (map JStr (extend_chain record' current)))])))"

definition putProposalRecord :: "env \<Rightarrow> string \<Rightarrow> string \<Rightarrow> jv \<Rightarrow> (string \<times> string) io" where
  "putProposalRecord env communityDid proposalRkey record' =
     bindM (proposalWriteOp env communityDid proposalRkey record')
       (\<lambda>rec. putRecord env communityDid PROPOSAL_COLLECTION proposalRkey rec)"

subsection \<open>The tally\<close>

record vote_row =
  r_repo :: string
  r_rkey :: string
  r_cid :: string
  r_record :: jv

record counted_vote =
  cv_voter :: string
  cv_vote :: vote_choice
  cv_uri :: string
  cv_cid :: string
  cv_proposalCid :: string
  cv_castBy :: "string option"

record uncounted_vote =
  uv_voter :: jv
  uv_vote :: vote_choice
  uv_reason :: string

record tally =
  t_for :: "counted_vote list"
  t_against :: "counted_vote list"
  t_uncounted :: "uncounted_vote list"

text \<open>The three maps of the loop.\<close>

record tally_state =
  ts_counted :: "(string \<times> counted_vote) list"
  ts_rejected :: "(string \<times> string) list"
  ts_orderKey :: "(string \<times> string) list"

definition tally_start :: tally_state where
  "tally_start = \<lparr>ts_counted = [], ts_rejected = [], ts_orderKey = []\<rparr>"

definition str_or_none :: "jv \<Rightarrow> string option" where
  "str_or_none v = (case v of JStr s \<Rightarrow> Some s | _ \<Rightarrow> None)"

definition counted_vote_of :: "vote_row \<Rightarrow> vote_choice \<Rightarrow> string \<Rightarrow> counted_vote" where
  "counted_vote_of row vote cid =
     \<lparr>cv_voter = r_repo row, cv_vote = vote, cv_uri = at_uri (r_repo row) VOTE_COLLECTION (r_rkey row),
      cv_cid = r_cid row, cv_proposalCid = cid, cv_castBy = str_or_none (jget (r_record row) ''castBy'')\<rparr>"

definition tally_row :: "vote_ctx \<Rightarrow> tally_state \<Rightarrow> vote_row \<Rightarrow> tally_state" where
  "tally_row ctx st row =
     (let voter = r_repo row
      in case checkVoteRecord (r_record row) ctx of
           VoteRefused reason \<Rightarrow>
             if map_of (ts_counted st) voter = None \<and> map_of (ts_rejected st) voter = None
             then st\<lparr>ts_rejected := AList.update voter reason (ts_rejected st)\<rparr> else st
         | VoteCountable vote cid createdAt \<Rightarrow>
             (let key = voteOrderKey createdAt (r_rkey row)
              in if (case map_of (ts_orderKey st) voter of None \<Rightarrow> False | Some previous \<Rightarrow> previous \<le> key)
                 then st
                 else st\<lparr>ts_orderKey := AList.update voter key (ts_orderKey st),
                         ts_rejected := AList.delete voter (ts_rejected st),
                         ts_counted := AList.update voter (counted_vote_of row vote cid) (ts_counted st)\<rparr>))"

definition tally_scan :: "vote_ctx \<Rightarrow> vote_row list \<Rightarrow> tally_state" where
  "tally_scan ctx rows = foldl (tally_row ctx) tally_start rows"

definition order_key_of :: "tally_state \<Rightarrow> string \<Rightarrow> string" where
  "order_key_of st voter = (case map_of (ts_orderKey st) voter of None \<Rightarrow> [] | Some k \<Rightarrow> k)"

text \<open>The comparator of the final sort: the order key, ties broken by the voter.\<close>

definition vote_before :: "tally_state \<Rightarrow> counted_vote \<Rightarrow> counted_vote \<Rightarrow> bool" where
  "vote_before st a b =
     (let ka = order_key_of st (cv_voter a); kb = order_key_of st (cv_voter b)
      in if ka \<noteq> kb then ka < kb else cv_voter a < cv_voter b)"

definition cached_votes :: "jv \<Rightarrow> (jv \<times> vote_choice) list" where
  "cached_votes proposal =
     map (\<lambda>v. (v, For)) (arr_or_nil (jget proposal ''votesFor''))
     @ map (\<lambda>v. (v, Against)) (arr_or_nil (jget proposal ''votesAgainst''))"

definition is_counted :: "tally_state \<Rightarrow> jv \<Rightarrow> bool" where
  "is_counted st voter = (case voter of JStr s \<Rightarrow> map_of (ts_counted st) s \<noteq> None | _ \<Rightarrow> False)"

definition reject_reason :: "tally_state \<Rightarrow> jv \<Rightarrow> string" where
  "reject_reason st voter = (case voter of
      JStr s \<Rightarrow> (case map_of (ts_rejected st) s of None \<Rightarrow> ''no-vote-record'' | Some r \<Rightarrow> r)
    | _ \<Rightarrow> ''no-vote-record'')"

definition tally_of :: "jv \<Rightarrow> vote_ctx \<Rightarrow> vote_row list \<Rightarrow> tally" where
  "tally_of proposal ctx rows =
     (let st = tally_scan ctx rows;
          votes = sort_lt (vote_before st) (map snd (ts_counted st))
      in \<lparr>t_for = filter (\<lambda>v. cv_vote v = For) votes,
          t_against = filter (\<lambda>v. cv_vote v = Against) votes,
          t_uncounted = map (\<lambda>(voter, vote). \<lparr>uv_voter = voter, uv_vote = vote,
                                              uv_reason = reject_reason st voter\<rparr>)
            (filter (\<lambda>(voter, _). \<not> is_counted st voter) (cached_votes proposal))\<rparr>)"

definition record_rows :: "env \<Rightarrow> world \<Rightarrow> string \<Rightarrow> string \<Rightarrow> string \<Rightarrow> vote_row list" where
  "record_rows env s coll communityDid proposalRkey =
     map (\<lambda>((d, _, rkey), (cid, rec)). \<lparr>r_repo = d, r_rkey = rkey, r_cid = cid, r_record = rec\<rparr>)
       (filter (\<lambda>((_, c, _), (_, rec)). c = coll
            \<and> json_text (e_text env) (jget rec ''community'') = Some communityDid
            \<and> json_text (e_text env) (jget rec ''proposalRkey'') = Some proposalRkey) (w_index s))"

definition vote_rows :: "env \<Rightarrow> world \<Rightarrow> string \<Rightarrow> string \<Rightarrow> vote_row list" where
  "vote_rows env s communityDid proposalRkey =
     sort_lt (\<lambda>a b. r_repo a < r_repo b \<or> (r_repo a = r_repo b \<and> r_rkey a < r_rkey b))
       (record_rows env s VOTE_COLLECTION communityDid proposalRkey)"

definition vote_ctx_of :: "string \<Rightarrow> string \<Rightarrow> jv \<Rightarrow> string \<Rightarrow> vote_ctx" where
  "vote_ctx_of communityDid proposalRkey proposal proposalCid =
     \<lparr>vc_proposalUri = proposalUri communityDid proposalRkey,
      vc_knownCids = knownProposalCids proposal proposalCid, vc_epoch = tallyEpoch proposal\<rparr>"

definition tallyFromVoteRecords :: "env \<Rightarrow> string \<Rightarrow> string \<Rightarrow> jv \<Rightarrow> string \<Rightarrow> tally io" where
  "tallyFromVoteRecords env communityDid proposalRkey proposal proposalCid =
     bindM (dbRead env (\<lambda>s. vote_rows env s communityDid proposalRkey))
       (\<lambda>rows. ret (tally_of proposal (vote_ctx_of communityDid proposalRkey proposal proposalCid) rows))"

subsection \<open>The outcome\<close>

record decided =
  d_outcome :: "outcome option"
  d_deferred :: bool
  d_cacheOutcome :: "outcome option"

definition cached_count :: "jv \<Rightarrow> string \<Rightarrow> nat" where
  "cached_count proposal k = length (arr_or_nil (jget proposal k))"

definition decideFromRecords :: "tally \<Rightarrow> jv \<Rightarrow> jv \<Rightarrow> decided" where
  "decideFromRecords tly proposal quorum =
     (let recordOutcome = decideOutcome (length (t_for tly)) (length (t_against tly)) quorum;
          cacheOutcome = decideOutcome (cached_count proposal ''votesFor'')
                           (cached_count proposal ''votesAgainst'') quorum
      in if recordOutcome \<noteq> cacheOutcome
         then \<lparr>d_outcome = None, d_deferred = True, d_cacheOutcome = cacheOutcome\<rparr>
         else \<lparr>d_outcome = recordOutcome, d_deferred = False, d_cacheOutcome = cacheOutcome\<rparr>)"

subsection \<open>The decision record\<close>

definition citedVoteCids :: "jv \<Rightarrow> string list" where
  "citedVoteCids record' =
     remdups (strings_of (map (\<lambda>v. jget (jget v ''record'') ''cid'') (arr_or_nil (jget record' ''votes''))))"

definition vote_json :: "counted_vote \<Rightarrow> jv" where
  "vote_json v = JObj
     ([(''voter'', JStr (cv_voter v)), (''vote'', JStr (choice_str (cv_vote v))),
       (''record'', strong_ref (cv_uri v) (cv_cid v)), (''proposalCid'', JStr (cv_proposalCid v))]
      @ (case cv_castBy v of None \<Rightarrow> [] | Some c \<Rightarrow> [(''castBy'', JStr c)]))"

definition uncounted_json :: "uncounted_vote \<Rightarrow> jv" where
  "uncounted_json u = JObj
     [(''voter'', uv_voter u), (''vote'', JStr (choice_str (uv_vote u))), (''reason'', JStr (uv_reason u))]"

record decision_ref =
  dr_uri :: string
  dr_cid :: string
  dr_rkey :: string

definition decision_record ::
  "string \<Rightarrow> string \<Rightarrow> string \<Rightarrow> jv \<Rightarrow> tally \<Rightarrow> jv \<Rightarrow> outcome \<Rightarrow> jv option \<Rightarrow> string \<Rightarrow> jv" where
  "decision_record communityDid proposalRkey proposalCid proposal tly quorum out supersedes resolvedAt =
     (let votes = t_for tly @ t_against tly;
          tc = jget proposal ''targetCollection''; tr = jget proposal ''targetRkey''; act = jget proposal ''action''
      in JObj
        ([(''$type'', JStr DECISION_COLLECTION),
          (''community'', JStr communityDid),
          (''proposal'', strong_ref (proposalUri communityDid proposalRkey) proposalCid),
          (''proposalCollection'', JStr PROPOSAL_COLLECTION),
          (''proposalRkey'', JStr proposalRkey),
          (''outcome'', JStr (outcome_str out)),
          (''quorum'', quorum),
          (''tally'', JObj [(''votesFor'', jnat (length (t_for tly))),
                          (''votesAgainst'', jnat (length (t_against tly))), (''total'', jnat (length votes))]),
          (''votes'', JArr (map vote_json votes))]
         @ opt_field (t_uncounted tly \<noteq> []) ''uncountedVotes'' (JArr (map uncounted_json (t_uncounted tly)))
         @ [(''evidenceComplete'', JBool (t_uncounted tly = []))]
         @ (case supersedes of None \<Rightarrow> [] | Some r \<Rightarrow> [(''supersedes'', r)])
         @ opt_field (truthy tc \<and> truthy tr \<and> truthy act) ''action''
             (JObj [(''targetCollection'', tc), (''targetRkey'', tr), (''action'', act)])
         @ [(''resolvedAt'', JStr resolvedAt)]))"

text \<open>The decision with the greatest record key for this proposal.\<close>

definition latest_decision :: "env \<Rightarrow> world \<Rightarrow> string \<Rightarrow> string \<Rightarrow> (string \<times> string \<times> jv) option" where
  "latest_decision env s communityDid proposalRkey =
     (case sort_lt (\<lambda>a b. fst b < fst a)
             (filter (\<lambda>(_, _, rec). json_text (e_text env) (jget rec ''proposalRkey'') = Some proposalRkey)
                (coll_rows s communityDid DECISION_COLLECTION)) of
        [] \<Rightarrow> None | row # _ \<Rightarrow> Some row)"

definition same_evidence :: "jv \<Rightarrow> string list \<Rightarrow> bool" where
  "same_evidence record' countedCids \<longleftrightarrow> set (citedVoteCids record') = set countedCids"

definition superseded_meta ::
  "string \<Rightarrow> string \<Rightarrow> string \<Rightarrow> jv \<Rightarrow> outcome \<Rightarrow> string list \<Rightarrow> jv" where
  "superseded_meta proposalRkey uri cid record' out countedCids = JObj
     [(''rkey'', JStr proposalRkey), (''supersededUri'', JStr uri), (''supersededCid'', JStr cid),
      (''previousOutcome'', js_nullish (jget record' ''outcome'') JNull),
      (''outcome'', JStr (outcome_str out)),
      (''reason'', JStr (if jget record' ''outcome'' \<noteq> JStr (outcome_str out)
                       then ''outcome-changed'' else ''evidence-changed'')),
      (''previousVoteCids'', JArr (map JStr (citedVoteCids record'))),
      (''countedVoteCids'', JArr (map JStr countedCids))]"

definition fresh_decision ::
  "env \<Rightarrow> string \<Rightarrow> string \<Rightarrow> string \<Rightarrow> jv \<Rightarrow> tally \<Rightarrow> jv \<Rightarrow> outcome \<Rightarrow> jv option
   \<Rightarrow> (decision_ref \<times> engine_op option) io" where
  "fresh_decision env communityDid proposalRkey proposalCid proposal tly quorum out supersedes =
     bindM (generateTid env) (\<lambda>rkey.
     bindM (nowIso env) (\<lambda>resolvedAt.
       let rec = decision_record communityDid proposalRkey proposalCid proposal tly quorum out supersedes resolvedAt
       in bindM (cidForRecord env rec) (\<lambda>cid.
            ret (\<lparr>dr_uri = at_uri communityDid DECISION_COLLECTION rkey, dr_cid = cid, dr_rkey = rkey\<rparr>,
                 Some (WriteRec DECISION_COLLECTION rkey rec)))))"

definition prepareDecisionRecord ::
  "env \<Rightarrow> string \<Rightarrow> string \<Rightarrow> string \<Rightarrow> jv \<Rightarrow> tally \<Rightarrow> jv \<Rightarrow> outcome
   \<Rightarrow> (decision_ref \<times> engine_op option) io" where
  "prepareDecisionRecord env communityDid proposalRkey proposalCid proposal tly quorum out =
     bindM (dbRead env (\<lambda>s. latest_decision env s communityDid proposalRkey)) (\<lambda>existing.
       let countedCids = remdups (map cv_cid (t_for tly @ t_against tly));
           fresh = fresh_decision env communityDid proposalRkey proposalCid proposal tly quorum out
       in case existing of
            None \<Rightarrow> fresh None
          | Some (rkey, cid, rec) \<Rightarrow>
            (let uri = at_uri communityDid DECISION_COLLECTION rkey
             in if jget rec ''proposalRkey'' = JStr proposalRkey
                   \<and> jget rec ''outcome'' = JStr (outcome_str out) \<and> same_evidence rec countedCids
                then ret (\<lparr>dr_uri = uri, dr_cid = cid, dr_rkey = rkey\<rparr>, None)
                else seqM (auditLog env ''community.proposal.decision.superseded'' None (Some communityDid)
                             (superseded_meta proposalRkey uri cid rec out countedCids))
                       (fresh (Some (strong_ref uri cid)))))"

definition outcome_json :: "outcome option \<Rightarrow> jv" where
  "outcome_json o' = (case o' of None \<Rightarrow> JNull | Some x \<Rightarrow> JStr (outcome_str x))"

definition auditDeferredResolution ::
  "env \<Rightarrow> string \<Rightarrow> string \<Rightarrow> tally \<Rightarrow> outcome option \<Rightarrow> outcome option \<Rightarrow> jv \<Rightarrow> unit io" where
  "auditDeferredResolution env communityDid proposalRkey tly recordOutcome cacheOutcome quorum =
     auditLog env ''community.proposal.resolution.deferred'' None (Some communityDid)
       (JObj [(''rkey'', JStr proposalRkey), (''quorum'', quorum),
              (''recordOutcome'', outcome_json recordOutcome), (''cacheOutcome'', outcome_json cacheOutcome),
              (''countedFor'', jnat (length (t_for tly))), (''countedAgainst'', jnat (length (t_against tly))),
              (''uncountedVotes'', JArr (map uncounted_json (t_uncounted tly)))])"

subsection \<open>What the tally counts\<close>

text \<open>The vote a row counts as, and the key its voter's rows are compared by.\<close>

definition countable :: "vote_ctx \<Rightarrow> vote_row \<Rightarrow> bool" where
  "countable ctx row = (case checkVoteRecord (r_record row) ctx of VoteCountable _ _ _ \<Rightarrow> True | VoteRefused _ \<Rightarrow> False)"

definition row_vote :: "vote_ctx \<Rightarrow> vote_row \<Rightarrow> counted_vote" where
  "row_vote ctx row = (case checkVoteRecord (r_record row) ctx of
      VoteCountable vote cid _ \<Rightarrow> counted_vote_of row vote cid
    | VoteRefused _ \<Rightarrow> counted_vote_of row Against [])"

definition row_key :: "vote_row \<Rightarrow> string" where
  "row_key row = voteOrderKey (created_at (r_record row)) (r_rkey row)"

definition held_vote :: "tally_state \<Rightarrow> string \<Rightarrow> (string \<times> counted_vote) option" where
  "held_vote st voter = map_option (\<lambda>b. (b, the (map_of (ts_counted st) voter))) (map_of (ts_orderKey st) voter)"

lemma checkVoteRecord_createdAt:
  "checkVoteRecord rec ctx = VoteCountable vote cid t \<Longrightarrow> t = created_at rec"
  by (auto simp: checkVoteRecord_def Let_def split: if_splits jv.splits)

lemma cv_voter_row_vote [simp]: "cv_voter (row_vote ctx row) = r_repo row"
  by (simp add: row_vote_def counted_vote_of_def split: vote_eligibility.split)

lemma tally_row_countable:
  assumes "countable ctx row"
  shows "tally_row ctx st row =
    (if (case map_of (ts_orderKey st) (r_repo row) of None \<Rightarrow> True | Some b \<Rightarrow> row_key row < b)
     then st\<lparr>ts_orderKey := AList.update (r_repo row) (row_key row) (ts_orderKey st),
             ts_rejected := AList.delete (r_repo row) (ts_rejected st),
             ts_counted := AList.update (r_repo row) (row_vote ctx row) (ts_counted st)\<rparr>
     else st)"
proof -
  from assms obtain vote cid t where c: "checkVoteRecord (r_record row) ctx = VoteCountable vote cid t"
    by (auto simp: countable_def split: vote_eligibility.splits)
  with checkVoteRecord_createdAt show ?thesis
    by (auto simp: tally_row_def row_vote_def row_key_def Let_def not_less split: option.split)
qed

lemma tally_row_uncountable:
  assumes "\<not> countable ctx row"
  shows "ts_counted (tally_row ctx st row) = ts_counted st"
    and "ts_orderKey (tally_row ctx st row) = ts_orderKey st"
  using assms by (auto simp: countable_def tally_row_def Let_def split: vote_eligibility.splits)

interpretation tally: earliest_wins tally_start "tally_row ctx" held_vote "countable ctx" r_repo row_key "row_vote ctx"
  for ctx
proof
  fix st :: tally_state and row k
  show "held_vote (tally_row ctx st row) k =
      (if countable ctx row \<and> r_repo row = k
          \<and> (case held_vote st k of None \<Rightarrow> True | Some (b, _) \<Rightarrow> row_key row < b)
       then Some (row_key row, row_vote ctx row) else held_vote st k)"
    by (cases "countable ctx row")
      (auto simp: held_vote_def tally_row_countable tally_row_uncountable split: option.splits)
qed (simp add: held_vote_def tally_start_def)

lemma tally_scan_eq: "tally_scan ctx rows = tally.scan ctx rows"
  by (simp add: tally_scan_def tally.scan_def)

text \<open>The maps of the loop stay in step.\<close>

definition tally_inv :: "tally_state \<Rightarrow> bool" where
  "tally_inv st \<longleftrightarrow> distinct (map fst (ts_counted st)) \<and>
     (\<forall>k v. map_of (ts_counted st) k = Some v \<longrightarrow> cv_voter v = k) \<and>
     (\<forall>k. map_of (ts_counted st) k = None \<longleftrightarrow> map_of (ts_orderKey st) k = None)"

lemma tally_inv_row: "tally_inv st \<Longrightarrow> tally_inv (tally_row ctx st row)"
  by (cases "countable ctx row")
    (auto simp: tally_inv_def tally_row_countable tally_row_uncountable
      simp del: map_of_eq_Some_iff split: if_splits)

lemma tally_inv_scan: "tally_inv (tally_scan ctx rows)"
  by (induction rows rule: rev_induct)
    (simp_all add: tally_scan_def tally_inv_row, simp add: tally_inv_def tally_start_def)

lemma counted_iff_held:
  "map_of (ts_counted (tally_scan ctx rows)) k = Some v \<longleftrightarrow>
   (\<exists>b. held_vote (tally_scan ctx rows) k = Some (b, v))"
proof -
  have "map_of (ts_counted (tally_scan ctx rows)) k = None \<longleftrightarrow> map_of (ts_orderKey (tally_scan ctx rows)) k = None"
    using tally_inv_scan [of ctx rows] by (simp add: tally_inv_def)
  then show ?thesis
    by (cases "map_of (ts_counted (tally_scan ctx rows)) k") (auto simp: held_vote_def)
qed

lemma counted_order_key:
  "held_vote (tally_scan ctx rows) k = Some (b, v) \<Longrightarrow> order_key_of (tally_scan ctx rows) k = b"
  by (auto simp: held_vote_def order_key_of_def)

definition tally_votes :: "tally \<Rightarrow> counted_vote list" where
  "tally_votes t = t_for t @ t_against t"

lemma set_tally_votes:
  "set (tally_votes (tally_of proposal ctx rows)) = {v. \<exists>k. map_of (ts_counted (tally_scan ctx rows)) k = Some v}"
proof -
  have c: "cv_vote v = For \<or> cv_vote v = Against" for v by (cases "cv_vote v") simp_all
  have "set (tally_votes (tally_of proposal ctx rows)) = snd ` set (ts_counted (tally_scan ctx rows))"
    using c by (auto simp: tally_votes_def tally_of_def Let_def)
  with tally_inv_scan [of ctx rows] show ?thesis
    by (force simp: tally_inv_def)
qed

lemma distinct_map_filters:
  "distinct (map f xs) \<Longrightarrow> (\<And>x. \<not> (P x \<and> Q x)) \<Longrightarrow> distinct (map f (filter P xs @ filter Q xs))"
  by (induction xs) auto

lemma counted_voter: "tally_inv st \<Longrightarrow> (k, v) \<in> set (ts_counted st) \<Longrightarrow> cv_voter v = k"
  by (auto simp: tally_inv_def)

lemma map_voter_counted: "tally_inv st \<Longrightarrow> map cv_voter (map snd (ts_counted st)) = map fst (ts_counted st)"
  by (auto dest: counted_voter)

lemma inj_on_counted: "inj_on cv_voter (snd ` set (ts_counted (tally_scan ctx rows)))"
proof (rule inj_onI)
  fix v w
  assume "v \<in> snd ` set (ts_counted (tally_scan ctx rows))" "w \<in> snd ` set (ts_counted (tally_scan ctx rows))"
    and "cv_voter v = cv_voter w"
  with counted_voter [OF tally_inv_scan] have
    "map_of (ts_counted (tally_scan ctx rows)) (cv_voter v) = Some v"
    "map_of (ts_counted (tally_scan ctx rows)) (cv_voter v) = Some w"
    using tally_inv_scan [of ctx rows] by (auto simp: tally_inv_def)
  then show "v = w" by simp
qed

lemma distinct_tally_voters: "distinct (map cv_voter (tally_votes (tally_of proposal ctx rows)))"
proof -
  have d: "distinct (map cv_voter (map snd (ts_counted (tally_scan ctx rows))))"
    using tally_inv_scan [of ctx rows] unfolding map_voter_counted [OF tally_inv_scan]
    by (simp add: tally_inv_def)
  then have "distinct (map snd (ts_counted (tally_scan ctx rows)))" by (simp only: distinct_map)
  with inj_on_counted
  have "distinct (map cv_voter (sort_lt (vote_before (tally_scan ctx rows)) (map snd (ts_counted (tally_scan ctx rows)))))"
    by (simp add: distinct_map)
  then show ?thesis
    unfolding tally_votes_def tally_of_def Let_def tally.simps
    by (rule distinct_map_filters) auto
qed

lemma tally_earliest:
  "distinct (map cv_voter (tally_votes (tally_of proposal ctx rows))) \<and>
   (\<forall>v \<in> set (tally_votes (tally_of proposal ctx rows)).
      \<exists>r \<in> set rows. countable ctx r \<and> v = row_vote ctx r \<and>
        (\<forall>r' \<in> set rows. countable ctx r' \<and> r_repo r' = r_repo r \<longrightarrow> row_key r \<le> row_key r')) \<and>
   (\<forall>r \<in> set rows. countable ctx r \<longrightarrow>
      r_repo r \<in> cv_voter ` set (tally_votes (tally_of proposal ctx rows)))"
proof (intro conjI ballI impI)
  fix v assume "v \<in> set (tally_votes (tally_of proposal ctx rows))"
  then obtain k b where "held_vote (tally.scan ctx rows) k = Some (b, v)"
    unfolding set_tally_votes tally_scan_eq [symmetric] by (auto simp: counted_iff_held)
  from tally.scan_Some [OF this] show "\<exists>r \<in> set rows. countable ctx r \<and> v = row_vote ctx r \<and>
        (\<forall>r' \<in> set rows. countable ctx r' \<and> r_repo r' = r_repo r \<longrightarrow> row_key r \<le> row_key r')" by blast
next
  fix r assume "r \<in> set rows" "countable ctx r"
  from tally.scan_exists [OF this] obtain b v
    where "map_of (ts_counted (tally_scan ctx rows)) (r_repo r) = Some v"
    unfolding tally_scan_eq [symmetric] by (auto simp: counted_iff_held)
  with tally_inv_scan [of ctx rows]
  show "r_repo r \<in> cv_voter ` set (tally_votes (tally_of proposal ctx rows))"
    by (force simp: set_tally_votes tally_inv_def)
qed (rule distinct_tally_voters)

text \<open>
  C3. One vote per member: of the vote records of one repository, the tally counts exactly one if
  any is countable, and it is the earliest of the countable ones, whatever the order and
  number of the records.
\<close>

theorem tally_counts_earliest_vote:
  "distinct (map cv_voter (tally_votes (tally_of proposal ctx rows))) \<and>
   (\<forall>v \<in> set (tally_votes (tally_of proposal ctx rows)).
      \<exists>r \<in> set rows. countable ctx r \<and> v = row_vote ctx r \<and>
        (\<forall>r' \<in> set rows. countable ctx r' \<and> r_repo r' = r_repo r \<longrightarrow> row_key r \<le> row_key r')) \<and>
   (\<forall>r \<in> set rows. countable ctx r \<longrightarrow>
      r_repo r \<in> cv_voter ` set (tally_votes (tally_of proposal ctx rows)))"
  by (rule tally_earliest)

lemma voteOrderKey_inj:
  assumes "voteOrderKey t k = voteOrderKey t' k'" "CHR ''|'' \<notin> set k" "CHR ''|'' \<notin> set k'"
  shows "t = t' \<and> k = k'"
proof -
  have split: "a = a' \<and> b = b'"
    if "a @ x # b = a' @ x # b'" "x \<notin> set a" "x \<notin> set a'" for a a' b b' :: string and x
    using that by (induction a arbitrary: a') (case_tac a', auto)+
  from assms(1) have "rev k @ CHR ''|'' # rev t = rev k' @ CHR ''|'' # rev t'"
    by (simp add: voteOrderKey_def) (metis rev_append rev.simps(2) append.assoc append_Cons append_Nil)
  from split [OF this] assms show ?thesis by simp
qed


definition no_ties :: "vote_row list \<Rightarrow> bool" where
  "no_ties rows \<longleftrightarrow> inj_on (\<lambda>r. (r_repo r, r_rkey r)) (set rows) \<and> (\<forall>r \<in> set rows. CHR ''|'' \<notin> set (r_rkey r))"

lemma no_tiesD:
  assumes "no_ties rows" "r \<in> set rows" "r' \<in> set rows" "r_repo r = r_repo r'" "row_key r = row_key r'"
  shows "r = r'"
  using assms by (auto simp: no_ties_def row_key_def inj_on_def dest: voteOrderKey_inj)

lemma tally_order_key_eq:
  assumes "map_of (ts_orderKey st) = map_of (ts_orderKey st')"
  shows "order_key_of st = order_key_of st'" "vote_before st = vote_before st'"
  using assms by (simp_all add: order_key_of_def vote_before_def fun_eq_iff)

lemma sorted_votes_unique:
  assumes same: "map_of (ts_counted st) = map_of (ts_counted st')"
    and key: "map_of (ts_orderKey st) = map_of (ts_orderKey st')"
    and inv: "tally_inv st" "tally_inv st'"
  shows "sort_lt (vote_before st) (map snd (ts_counted st)) = sort_lt (vote_before st') (map snd (ts_counted st'))"
proof -
  have d: "distinct (map snd (ts_counted st))" "inj_on cv_voter (set (map snd (ts_counted st)))"
    if "tally_inv st" for st
  proof -
    from that have "distinct (map cv_voter (map snd (ts_counted st)))"
      unfolding map_voter_counted [OF that] by (simp add: tally_inv_def)
    then show "distinct (map snd (ts_counted st))" "inj_on cv_voter (set (map snd (ts_counted st)))"
      by (simp_all only: distinct_map)
  qed
  have "set (ts_counted st) = set (ts_counted st')"
    using map_of_inject_set [of "ts_counted st" "ts_counted st'"] same inv by (simp add: tally_inv_def)
  then show ?thesis
    unfolding tally_order_key_eq(2) [OF key]
    by (intro sort_lt_key_unique [where k = "\<lambda>v. (order_key_of st' (cv_voter v), cv_voter v)"])
      (use d inv in \<open>auto simp: vote_before_def Let_def inj_on_def less_prod_def\<close>)
qed

lemma option_eqI: "(\<And>v. x = Some v \<longleftrightarrow> y = Some v) \<Longrightarrow> x = y"
  by (cases x; cases y) auto

text \<open>
  The votes counted, and their order in the decision, do not depend on the order in which the
  records are read. Record keys contain no \<open>|\<close>, so that no two records of a repository
  share an order key.
\<close>

theorem tally_order_irrelevant:
  assumes "set rows = set rows'" and "no_ties rows"
  shows "t_for (tally_of proposal ctx rows) = t_for (tally_of proposal ctx rows') \<and>
    t_against (tally_of proposal ctx rows) = t_against (tally_of proposal ctx rows')"
proof -
  have held: "held_vote (tally_scan ctx rows) k = held_vote (tally_scan ctx rows') k" for k
    unfolding tally_scan_eq by (rule tally.scan_order_irrelevant [OF assms(1)]) (auto dest: no_tiesD [OF assms(2)])
  have "map_of (ts_counted (tally_scan ctx rows)) k = map_of (ts_counted (tally_scan ctx rows')) k" for k
  proof (rule option_eqI)
    fix v
    show "map_of (ts_counted (tally_scan ctx rows)) k = Some v \<longleftrightarrow>
        map_of (ts_counted (tally_scan ctx rows')) k = Some v"
      unfolding counted_iff_held held ..
  qed
  moreover have "map_of (ts_orderKey (tally_scan ctx rows)) k = map_of (ts_orderKey (tally_scan ctx rows')) k" for k
    using held [of k] by (auto simp: held_vote_def map_option_case split: option.splits)
  ultimately have "sort_lt (vote_before (tally_scan ctx rows)) (map snd (ts_counted (tally_scan ctx rows))) =
      sort_lt (vote_before (tally_scan ctx rows')) (map snd (ts_counted (tally_scan ctx rows')))"
    by (intro sorted_votes_unique tally_inv_scan ext)
  then show ?thesis by (simp only: tally_of_def Let_def tally.simps)
qed

text \<open>Who voted what, stated without the loop.\<close>

definition members_voting :: "vote_ctx \<Rightarrow> vote_row list \<Rightarrow> vote_choice \<Rightarrow> string set" where
  "members_voting ctx rows c = {r_repo r | r. r \<in> set rows \<and> countable ctx r \<and> cv_vote (row_vote ctx r) = c \<and>
     (\<forall>r' \<in> set rows. countable ctx r' \<and> r_repo r' = r_repo r \<longrightarrow> row_key r \<le> row_key r')}"

lemma voters_of_choice:
  assumes "no_ties rows"
  shows "cv_voter ` {v \<in> set (tally_votes (tally_of proposal ctx rows)). cv_vote v = c} = members_voting ctx rows c"
    (is "?L = ?R")
proof
  note T = tally_earliest [of proposal ctx rows]
  show "?L \<subseteq> ?R"
  proof
    fix x assume "x \<in> ?L"
    then obtain v where v: "v \<in> set (tally_votes (tally_of proposal ctx rows))" "cv_vote v = c" "x = cv_voter v"
      by auto
    with T obtain r where "r \<in> set rows" "countable ctx r" "v = row_vote ctx r"
      "\<forall>r' \<in> set rows. countable ctx r' \<and> r_repo r' = r_repo r \<longrightarrow> row_key r \<le> row_key r'" by blast
    with v show "x \<in> ?R" by (auto simp: members_voting_def)
  qed
  show "?R \<subseteq> ?L"
  proof
    fix x assume "x \<in> ?R"
    then obtain r where r: "r \<in> set rows" "countable ctx r" "cv_vote (row_vote ctx r) = c" "x = r_repo r"
      and least: "\<forall>r' \<in> set rows. countable ctx r' \<and> r_repo r' = r_repo r \<longrightarrow> row_key r \<le> row_key r'"
      by (auto simp: members_voting_def)
    from T r obtain v where v: "v \<in> set (tally_votes (tally_of proposal ctx rows))" "r_repo r = cv_voter v" by blast
    with T obtain q where q: "q \<in> set rows" "countable ctx q" "v = row_vote ctx q"
      "\<forall>r' \<in> set rows. countable ctx r' \<and> r_repo r' = r_repo q \<longrightarrow> row_key q \<le> row_key r'" by blast
    with v r least have "row_key r = row_key q" by (intro antisym) auto
    with assms q r v have "r = q" by (auto intro: no_tiesD)
    with q r v show "x \<in> ?L" by (auto intro!: image_eqI [where x = v])
  qed
qed

lemma length_voters_of:
  assumes "distinct (map cv_voter vs)"
  shows "length vs = card (cv_voter ` set vs)"
  using distinct_card [OF assms] by simp

lemma tally_counts:
  assumes "no_ties rows"
  shows "length (t_for (tally_of proposal ctx rows)) = card (members_voting ctx rows For) \<and>
    length (t_against (tally_of proposal ctx rows)) = card (members_voting ctx rows Against)"
proof -
  let ?t = "tally_of proposal ctx rows"
  have "set (t_for ?t) = {v \<in> set (tally_votes ?t). cv_vote v = For}"
    "set (t_against ?t) = {v \<in> set (tally_votes ?t). cv_vote v = Against}"
    by (auto simp: tally_votes_def tally_of_def Let_def)
  moreover have "distinct (map cv_voter (t_for ?t))" "distinct (map cv_voter (t_against ?t))"
    using distinct_tally_voters [of proposal ctx rows] by (simp_all add: tally_votes_def)
  ultimately show ?thesis
    using length_voters_of [of "t_for ?t"] length_voters_of [of "t_against ?t"]
      voters_of_choice [OF assms, of proposal ctx] by simp
qed

text \<open>
  C4. The counts of a tally refine their specification: the number of members whose earliest
  countable record is for, and the number whose earliest is against.
\<close>

theorem tally_refines_members_voting:
  assumes "no_ties rows"
  shows "length (t_for (tally_of proposal ctx rows)) = card (members_voting ctx rows For) \<and>
    length (t_against (tally_of proposal ctx rows)) = card (members_voting ctx rows Against)"
  using assms by (rule tally_counts)

text \<open>
  C5. A round is decided only when the signed records and the vote cache agree: the outcome is the
  one the quorum rule gives for both, and it is approval exactly when more members'
  earliest records are for than against. Otherwise nothing is decided, and a disagreement
  is flagged.
\<close>

theorem decision_needs_records_and_cache:
  assumes "no_ties rows"
  shows "let F = card (members_voting ctx rows For); A = card (members_voting ctx rows Against);
      f = cached_count proposal ''votesFor''; a = cached_count proposal ''votesAgainst'';
      d = decideFromRecords (tally_of proposal ctx rows) proposal quorum
    in (d_outcome d = Some out \<longleftrightarrow>
          \<not> count_lt (F + A) quorum \<and> \<not> count_lt (f + a) quorum \<and>
          (A < F \<longleftrightarrow> a < f) \<and> out = (if A < F then Approved else Rejected)) \<and>
       (d_deferred d \<longleftrightarrow> decideOutcome F A quorum \<noteq> decideOutcome f a quorum)"
  using tally_counts [OF assms, of proposal ctx]
  by (auto simp: decideFromRecords_def decideOutcome_def Let_def)

text \<open>A round of three records by two members, one of whom voted twice.\<close>

definition sample_vote :: "string \<Rightarrow> string \<Rightarrow> jv" where
  "sample_vote choice createdAt = JObj [(''vote'', JStr choice), (''proposal'', strong_ref (proposalUri ''did:c'' ''p'') ''cid0''),
     (''proposalCollection'', JStr PROPOSAL_COLLECTION), (''createdAt'', JStr createdAt)]"

definition sample_rows :: "vote_row list" where
  "sample_rows =
     [\<lparr>r_repo = ''did:a'', r_rkey = ''k1'', r_cid = ''c1'', r_record = sample_vote ''for'' ''2026-01-02''\<rparr>,
      \<lparr>r_repo = ''did:a'', r_rkey = ''k2'', r_cid = ''c2'', r_record = sample_vote ''against'' ''2026-01-03''\<rparr>,
      \<lparr>r_repo = ''did:b'', r_rkey = ''k3'', r_cid = ''c3'', r_record = sample_vote ''for'' ''2026-01-02''\<rparr>]"

definition sample_ctx :: vote_ctx where
  "sample_ctx = \<lparr>vc_proposalUri = proposalUri ''did:c'' ''p'', vc_knownCids = {''cid0''}, vc_epoch = None\<rparr>"

definition sample_proposal :: jv where
  "sample_proposal = JObj [(''votesFor'', JArr [JStr ''did:a'', JStr ''did:b'']), (''votesAgainst'', JArr [])]"

lemma sample_no_ties: "no_ties sample_rows" "no_ties (rev sample_rows)"
  by (simp_all add: no_ties_def sample_rows_def inj_on_def)

lemma sample_countable: "r \<in> set sample_rows \<Longrightarrow> countable sample_ctx r"
  by (auto simp: sample_rows_def sample_vote_def sample_ctx_def countable_def checkVoteRecord_def Let_def)

theorem tally_counts_earliest_vote_witness:
  "distinct (map cv_voter (tally_votes (tally_of sample_proposal sample_ctx sample_rows))) \<and>
   ''did:a'' \<in> cv_voter ` set (tally_votes (tally_of sample_proposal sample_ctx sample_rows))"
proof -
  note T = tally_counts_earliest_vote [of sample_proposal sample_ctx sample_rows]
  have "hd sample_rows \<in> set sample_rows" "r_repo (hd sample_rows) = ''did:a''" by (simp_all add: sample_rows_def)
  with T sample_countable show ?thesis by metis
qed

theorem tally_order_irrelevant_witness:
  "t_for (tally_of sample_proposal sample_ctx sample_rows) = t_for (tally_of sample_proposal sample_ctx (rev sample_rows))"
  using tally_order_irrelevant [of sample_rows "rev sample_rows" sample_proposal sample_ctx] sample_no_ties by simp

lemma members_voting_code:
  "members_voting ctx rows c = set (map r_repo (filter (\<lambda>r. countable ctx r \<and> cv_vote (row_vote ctx r) = c \<and>
     list_all (\<lambda>r'. countable ctx r' \<and> r_repo r' = r_repo r \<longrightarrow> row_key r \<le> row_key r') rows) rows))"
  by (auto simp: members_voting_def list_all_iff)

lemma sample_members:
  "members_voting sample_ctx sample_rows For = {''did:a'', ''did:b''}"
  "members_voting sample_ctx sample_rows Against = {}"
  unfolding members_voting_code by code_simp+

theorem tally_refines_members_voting_witness:
  "length (t_for (tally_of sample_proposal sample_ctx sample_rows)) = 2"
  using tally_refines_members_voting [OF sample_no_ties(1), of sample_proposal sample_ctx] sample_members by simp

theorem decision_needs_records_and_cache_witness:
  "d_outcome (decideFromRecords (tally_of sample_proposal sample_ctx sample_rows) sample_proposal (jnat 2)) = Some Approved"
proof -
  show ?thesis
    using decision_needs_records_and_cache [OF sample_no_ties(1), of sample_ctx sample_proposal "jnat 2" Approved]
    by (simp add: sample_members Let_def cached_count_def sample_proposal_def count_lt_Fin)
qed

end
