(* ===== verification/Timelock.thy ===== *)
theory Timelock
  imports Resolution
begin

text \<open>
  The contest window between a decision and its effect, the override round a hold opens,
  and the change an approved proposal makes: \<^verbatim>\<open>src/governance/timelock.ts\<close>.
\<close>

definition PENDING_STATUS :: string where "PENDING_STATUS = ''pending-application''"
definition OBJECTED_STATUS :: string where "OBJECTED_STATUS = ''objected''"
definition OVERRIDE_STATUS :: string where "OVERRIDE_STATUS = ''objection-override''"

lemma statuses_distinct [simp]:
  "PENDING_STATUS \<noteq> OBJECTED_STATUS" "OBJECTED_STATUS \<noteq> PENDING_STATUS"
  "PENDING_STATUS \<noteq> OVERRIDE_STATUS" "OVERRIDE_STATUS \<noteq> PENDING_STATUS"
  "OBJECTED_STATUS \<noteq> OVERRIDE_STATUS" "OVERRIDE_STATUS \<noteq> OBJECTED_STATUS"
  "PENDING_STATUS \<noteq> ''open''" "PENDING_STATUS \<noteq> ''approved''" "PENDING_STATUS \<noteq> ''rejected''"
  "PENDING_STATUS \<noteq> ''expired''" "OVERRIDE_STATUS \<noteq> ''open''" "OVERRIDE_STATUS \<noteq> ''approved''"
  "OVERRIDE_STATUS \<noteq> ''rejected''" "OVERRIDE_STATUS \<noteq> ''expired''" "OBJECTED_STATUS \<noteq> ''open''"
  "OBJECTED_STATUS \<noteq> ''approved''"
  by (simp_all add: PENDING_STATUS_def OBJECTED_STATUS_def OVERRIDE_STATUS_def)

subsection \<open>Reading the settings and the proposal\<close>

definition settings_of :: "world \<Rightarrow> string \<Rightarrow> jv" where
  "settings_of s communityDid =
     (case indexed s communityDid SETTINGS_COLLECTION ''self'' of None \<Rightarrow> JUndef | Some (_, rec) \<Rightarrow> rec)"

definition communitySettingsRecord :: "env \<Rightarrow> string \<Rightarrow> jv io" where
  "communitySettingsRecord env communityDid = dbRead env (\<lambda>s. settings_of s communityDid)"

definition proposal_at :: "world \<Rightarrow> string \<Rightarrow> string \<Rightarrow> (string \<times> jv) option" where
  "proposal_at s communityDid rkey = indexed s communityDid PROPOSAL_COLLECTION rkey"

definition proposalLockKey :: "string \<Rightarrow> string \<Rightarrow> string" where
  "proposalLockKey communityDid proposalRkey =
     ''community-proposal:'' @ communityDid @ '':'' @ proposalRkey"

subsection \<open>Objections\<close>

record counted_objection =
  co_objector :: string
  co_uri :: string
  co_cid :: string
  co_createdAt :: string
  co_reason :: "string option"

definition objection_json :: "counted_objection \<Rightarrow> jv" where
  "objection_json c = JObj
     ([(''objector'', JStr (co_objector c)), (''record'', strong_ref (co_uri c) (co_cid c)),
       (''createdAt'', JStr (co_createdAt c))]
      @ (case co_reason c of None \<Rightarrow> [] | Some r \<Rightarrow> [(''reason'', JStr r)]))"

definition objection_of :: "vote_row \<Rightarrow> string \<Rightarrow> counted_objection" where
  "objection_of row createdAt =
     \<lparr>co_objector = r_repo row, co_uri = at_uri (r_repo row) OBJECTION_COLLECTION (r_rkey row),
      co_cid = r_cid row, co_createdAt = createdAt, co_reason = str_or_none (jget (r_record row) ''reason'')\<rparr>"

definition objection_row ::
  "objection_ctx \<Rightarrow> (string \<times> counted_objection) list \<Rightarrow> vote_row \<Rightarrow> (string \<times> counted_objection) list" where
  "objection_row ctx held row = (case checkObjectionRecord (r_record row) ctx of
      ObjectionRefused _ \<Rightarrow> held
    | ObjectionCountable createdAt \<Rightarrow>
        if (case map_of held (r_repo row) of None \<Rightarrow> False | Some existing \<Rightarrow> co_createdAt existing \<le> createdAt)
        then held else AList.update (r_repo row) (objection_of row createdAt) held)"

definition objections_scan :: "objection_ctx \<Rightarrow> vote_row list \<Rightarrow> (string \<times> counted_objection) list" where
  "objections_scan ctx rows = foldl (objection_row ctx) [] rows"

definition objection_ctx_of :: "string \<Rightarrow> string \<Rightarrow> jv \<Rightarrow> objection_ctx option" where
  "objection_ctx_of communityDid proposalRkey proposal =
     (case (jget (jget proposal ''decision'') ''uri'', jget (jget proposal ''decision'') ''cid'',
            jget proposal ''resolvedAt'', jget proposal ''applyAt'') of
        (JStr uri, JStr cid, JStr resolvedAt, JStr applyAt) \<Rightarrow>
          Some \<lparr>oc_proposalUri = proposalUri communityDid proposalRkey, oc_decisionUri = uri,
                oc_decisionCid = cid, oc_resolvedAt = resolvedAt, oc_applyAt = applyAt\<rparr>
      | _ \<Rightarrow> None)"

definition objections_of :: "env \<Rightarrow> objection_ctx \<Rightarrow> vote_row list \<Rightarrow> counted_objection list" where
  "objections_of env ctx rows =
     sort_lt (\<lambda>a b. e_locale_lt env (co_createdAt a) (co_createdAt b)) (map snd (objections_scan ctx rows))"

definition countableObjections :: "env \<Rightarrow> string \<Rightarrow> string \<Rightarrow> jv \<Rightarrow> counted_objection list io" where
  "countableObjections env communityDid proposalRkey proposal =
     (case objection_ctx_of communityDid proposalRkey proposal of
        None \<Rightarrow> ret []
      | Some ctx \<Rightarrow>
          bindM (dbRead env (\<lambda>s. record_rows env s OBJECTION_COLLECTION communityDid proposalRkey))
            (\<lambda>rows. ret (objections_of env ctx rows)))"

subsection \<open>What a held proposal becomes\<close>

definition quorum_of :: "jv \<Rightarrow> jv" where
  "quorum_of settings = js_or (jget (governance_config settings) ''quorum'') (jnat DEFAULT_QUORUM)"

definition override_state ::
  "jv \<Rightarrow> jv \<Rightarrow> counted_objection list \<Rightarrow> string \<Rightarrow> string \<Rightarrow> nat \<Rightarrow> jv" where
  "override_state proposal settings objections heldAt expiresAt eligible = jassign proposal
     [(''status'', JStr OVERRIDE_STATUS),
      (''objections'', JArr (map objection_json objections)),
      (''overrideOpenedAt'', JStr heldAt),
      (''overrideExpiresAt'', JStr expiresAt),
      (''overrideQuorum'', JNum (overrideQuorumFrom settings (quorum_of settings) eligible)),
      (''overrideElectorate'', jnat eligible),
      (''votesFor'', JArr []),
      (''votesAgainst'', JArr [])]"

definition heldProposalState ::
  "env \<Rightarrow> string \<Rightarrow> jv \<Rightarrow> jv \<Rightarrow> counted_objection list \<Rightarrow> string \<Rightarrow> jv io" where
  "heldProposalState env communityDid proposal settings objections heldAt =
     (if objectionReviewMode settings = Review_none then
        ret (jassign proposal [(''status'', JStr OBJECTED_STATUS),
                               (''objections'', JArr (map objection_json objections))])
      else bindM (countEligibleVoters env communityDid) (\<lambda>eligible.
           bindM (liftE (overrideExpiresAt (e_date env) heldAt (objectionOverrideDays settings))) (\<lambda>expiresAt.
             ret (override_state proposal settings objections heldAt expiresAt eligible))))"

subsection \<open>Closing an override round that ran out\<close>

definition now_or :: "env \<Rightarrow> int option \<Rightarrow> int io" where
  "now_or env now = (case now of Some t \<Rightarrow> ret t | None \<Rightarrow> nowMs env)"

definition expired_state :: "jv \<Rightarrow> string \<Rightarrow> jv" where
  "expired_state proposal resolvedAt = jassign proposal
     [(''status'', JStr ''rejected''), (''resolvedAt'', JStr resolvedAt), (''overrideOutcome'', JStr ''expired'')]"

definition closeLocked :: "env \<Rightarrow> string \<Rightarrow> string \<Rightarrow> int \<Rightarrow> bool io" where
  "closeLocked env communityDid proposalRkey now =
     bindM (dbRead env (\<lambda>s. record_or_null (proposal_at s communityDid proposalRkey))) (\<lambda>proposal.
       if \<not> truthy proposal \<or> jget proposal ''status'' \<noteq> JStr OVERRIDE_STATUS then ret False
       else (case jget proposal ''overrideExpiresAt'' of
           JStr expiresAt \<Rightarrow>
             if expiresAt = [] \<or> iso now < expiresAt then ret False
             else
               seqM (getKeypairForDid env communityDid)
              (seqM (putProposalRecord env communityDid proposalRkey (expired_state proposal (iso now)))
              (seqM (auditLog env ''community.proposal.overrideExpired'' None (Some communityDid)
                       (JObj [(''rkey'', JStr proposalRkey), (''overrideQuorum'', jget proposal ''overrideQuorum''),
                              (''overrideExpiresAt'', JStr expiresAt),
                              (''votesFor'', jnat (cached_count proposal ''votesFor''))]))
               (ret True)))
         | _ \<Rightarrow> ret False))"

definition closeExpiredOverride :: "env \<Rightarrow> string \<Rightarrow> string \<Rightarrow> int option \<Rightarrow> bool io" where
  "closeExpiredOverride env communityDid proposalRkey now_opt =
     bindM (now_or env now_opt) (\<lambda>now.
     bindM (dbRead env (\<lambda>s. map_option (\<lambda>(_, rec).
              (json_text (e_text env) (jget rec ''status''), json_text (e_text env) (jget rec ''overrideExpiresAt'')))
              (proposal_at s communityDid proposalRkey))) (\<lambda>row.
       case row of
         Some (Some status, Some expires_at) \<Rightarrow>
           if status \<noteq> OVERRIDE_STATUS \<or> expires_at = [] \<or> iso now < expires_at then ret False
           else withAdvisoryLock env (proposalLockKey communityDid proposalRkey)
                  (closeLocked env communityDid proposalRkey now)
       | _ \<Rightarrow> ret False))"

definition closeExpiredOverrideSafely :: "env \<Rightarrow> string \<Rightarrow> string \<Rightarrow> int option \<Rightarrow> bool io" where
  "closeExpiredOverrideSafely env communityDid proposalRkey now_opt =
     catchM (closeExpiredOverride env communityDid proposalRkey now_opt)
       (\<lambda>e. seqM (auditLog env ''community.proposal.overrideCloseFailed'' None (Some communityDid)
                  (JObj [(''rkey'', JStr proposalRkey), (''reason'', JStr (exn_message e))]))
             (ret False))"

text \<open>The proposals of a status whose deadline has passed, in the order of their keys.\<close>

definition due_rkeys :: "env \<Rightarrow> world \<Rightarrow> string \<Rightarrow> string \<Rightarrow> string \<Rightarrow> string \<Rightarrow> string list" where
  "due_rkeys env s communityDid status deadline now =
     sort_lt (<) (map fst (filter (\<lambda>(_, _, rec).
        json_text (e_text env) (jget rec ''status'') = Some status
        \<and> (case json_text (e_text env) (jget rec deadline) of None \<Rightarrow> False | Some d \<Rightarrow> d \<le> now))
       (coll_rows s communityDid PROPOSAL_COLLECTION)))"

definition closeExpiredOverrides :: "env \<Rightarrow> string \<Rightarrow> nat io" where
  "closeExpiredOverrides env communityDid =
     bindM (nowMs env) (\<lambda>now.
     bindM (catchM (dbRead env (\<lambda>s. due_rkeys env s communityDid OVERRIDE_STATUS ''overrideExpiresAt'' (iso now)))
              (\<lambda>_. ret [])) (\<lambda>due.
       foldM (\<lambda>closed rkey. bindM (closeExpiredOverrideSafely env communityDid rkey (Some now))
                (\<lambda>b. ret (if b then Suc closed else closed))) 0 due))"

subsection \<open>The change a proposal makes\<close>

definition pendingApplicationState :: "env \<Rightarrow> jv \<Rightarrow> string \<Rightarrow> exn + string option" where
  "pendingApplicationState env settings resolvedAt =
     (let hours = timelockHours settings
      in if hours \<le> 0 then Inr None
         else (case applyAtFrom (e_date env) resolvedAt hours of Inl e \<Rightarrow> Inl e | Inr a \<Rightarrow> Inr (Some a)))"

fun nat_str :: "nat \<Rightarrow> string" where
  "nat_str n = (if n < 10 then [digit_char n] else nat_str (n div 10) @ [digit_char (n mod 10)])"

declare nat_str.simps [simp del]

text \<open>What \<open>{...v}\<close> copies; of an array, its indices.\<close>

fun spread_entries :: "jv \<Rightarrow> (string \<times> jv) list" where
  "spread_entries (JObj ps) = ps"
| "spread_entries (JArr xs) = zip (map nat_str [0..<length xs]) xs"
| "spread_entries _ = []"

definition merge_step :: "(string \<times> jv) list \<Rightarrow> string \<times> jv \<Rightarrow> (string \<times> jv) list" where
  "merge_step config kv = (if snd kv = JNull then AList.delete (fst kv) config
                           else AList.update (fst kv) (snd kv) config)"

definition merge_config :: "jv \<Rightarrow> jv \<Rightarrow> jv" where
  "merge_config currentConfig proposedConfig =
     JObj (foldl merge_step (entries currentConfig) (entries proposedConfig))"

definition merge_settings :: "jv \<Rightarrow> jv \<Rightarrow> jv" where
  "merge_settings current proposed =
     (let merged = jassign (JObj (spread_entries current)) (spread_entries proposed);
          currentConfig = jget current ''governanceConfig''; proposedConfig = jget proposed ''governanceConfig''
      in if is_obj currentConfig \<and> is_obj proposedConfig
         then jassign merged [(''governanceConfig'', merge_config currentConfig proposedConfig)]
         else merged)"

definition recordToWrite :: "env \<Rightarrow> string \<Rightarrow> jv \<Rightarrow> jv io" where
  "recordToWrite env communityDid proposal =
     (if jget proposal ''targetCollection'' \<noteq> JStr SETTINGS_COLLECTION
         \<or> jget proposal ''targetRkey'' \<noteq> JStr ''self''
      then ret (jget proposal ''proposedRecord'')
      else bindM (communitySettingsRecord env communityDid) (\<lambda>current.
             ret (if \<not> truthy current \<or> \<not> typeof_object current then jget proposal ''proposedRecord''
                  else merge_settings current (jget proposal ''proposedRecord''))))"

definition application_refusal :: "settings_problem \<Rightarrow> string" where
  "application_refusal p =
     ''refusing to apply a settings proposal that would leave this community ungoverned: '' @ problem_message p"

definition is_write_proposal :: "jv \<Rightarrow> bool" where
  "is_write_proposal proposal \<longleftrightarrow>
     jget proposal ''action'' = JStr ''write'' \<and> truthy (jget proposal ''proposedRecord'')"

definition proposalApplicationProblem :: "env \<Rightarrow> string \<Rightarrow> jv \<Rightarrow> string option io" where
  "proposalApplicationProblem env communityDid proposal =
     (if \<not> is_write_proposal proposal then ret None
      else if jget proposal ''targetCollection'' \<noteq> JStr SETTINGS_COLLECTION then ret None
      else bindM (recordToWrite env communityDid proposal)
             (\<lambda>rec. ret (map_option application_refusal (settings_problem_of rec))))"

definition target_coll :: "env \<Rightarrow> jv \<Rightarrow> string" where
  "target_coll env proposal = prop_key env (jget proposal ''targetCollection'')"

definition target_rkey :: "env \<Rightarrow> jv \<Rightarrow> string" where
  "target_rkey env proposal = prop_key env (jget proposal ''targetRkey'')"

definition proposedChangeOps :: "env \<Rightarrow> string \<Rightarrow> jv \<Rightarrow> engine_op list io" where
  "proposedChangeOps env communityDid proposal =
     (let coll = target_coll env proposal; rkey = target_rkey env proposal
      in if is_write_proposal proposal then
           bindM (proposalApplicationProblem env communityDid proposal) (\<lambda>problem. case problem of
             Some p \<Rightarrow> throw (Unapplicable p)
           | None \<Rightarrow> bindM (recordToWrite env communityDid proposal) (\<lambda>rec. ret [WriteRec coll rkey rec]))
         else if jget proposal ''action'' = JStr ''delete'' then
           bindM (dbRead env (\<lambda>s. indexed s communityDid coll rkey \<noteq> None))
             (\<lambda>present. ret (if present then [DelRec coll rkey] else []))
         else ret [])"

definition applyProposedChange :: "env \<Rightarrow> string \<Rightarrow> jv \<Rightarrow> unit io" where
  "applyProposedChange env communityDid proposal =
     bindM (proposedChangeOps env communityDid proposal) (\<lambda>ops.
       if ops = [] then ret () else bindM (applyWrites env communityDid ops) (\<lambda>_. ret ()))"

subsection \<open>Applying a proposal whose window has elapsed\<close>

datatype apply_outcome =
    Applied
  | NotApplicable string
  | NotPending
  | WindowOpen string
  | Objected "counted_objection list"

definition held_meta :: "string \<Rightarrow> string \<Rightarrow> int \<Rightarrow> jv \<Rightarrow> counted_objection list \<Rightarrow> jv" where
  "held_meta proposalRkey applyAt threshold held objections = JObj
     ([(''rkey'', JStr proposalRkey), (''applyAt'', JStr applyAt), (''objectionThreshold'', jint threshold),
       (''status'', jget held ''status'')]
      @ (if jget held ''status'' = JStr OVERRIDE_STATUS
         then [(''overrideQuorum'', jget held ''overrideQuorum''),
               (''overrideExpiresAt'', jget held ''overrideExpiresAt''),
               (''overrideElectorate'', jget held ''overrideElectorate'')] else [])
      @ [(''objections'', JArr (map (\<lambda>c. JObj [(''objector'', JStr (co_objector c)),
            (''uri'', JStr (co_uri c)), (''cid'', JStr (co_cid c))]) objections))])"

definition holdLocked ::
  "env \<Rightarrow> string \<Rightarrow> string \<Rightarrow> int \<Rightarrow> string \<Rightarrow> jv \<Rightarrow> jv \<Rightarrow> counted_objection list \<Rightarrow> apply_outcome io" where
  "holdLocked env communityDid proposalRkey now applyAt proposal settings objections =
     bindM (heldProposalState env communityDid proposal settings objections (iso now)) (\<lambda>held.
     seqM (getKeypairForDid env communityDid)
    (seqM (putProposalRecord env communityDid proposalRkey held)
    (seqM (auditLog env ''community.proposal.applicationHeld'' None (Some communityDid)
             (held_meta proposalRkey applyAt (objectionThreshold settings) held objections))
     (ret (Objected objections)))))"

definition apply_meta :: "string \<Rightarrow> string \<Rightarrow> jv \<Rightarrow> jv" where
  "apply_meta proposalRkey applyAt proposal = JObj
     ([(''rkey'', JStr proposalRkey), (''targetCollection'', jget proposal ''targetCollection''),
       (''targetRkey'', jget proposal ''targetRkey''), (''action'', jget proposal ''action''),
       (''applyAt'', JStr applyAt), (''timelocked'', JBool True)]
      @ (if truthy (jget proposal ''decision'')
         then [(''decisionUri'', jget (jget proposal ''decision'') ''uri''),
               (''decisionCid'', jget (jget proposal ''decision'') ''cid'')] else []))"

definition applied_state :: "jv \<Rightarrow> string \<Rightarrow> jv" where
  "applied_state proposal appliedAt =
     jassign proposal [(''status'', JStr ''approved''), (''appliedAt'', JStr appliedAt)]"

definition performLocked ::
  "env \<Rightarrow> string \<Rightarrow> string \<Rightarrow> int \<Rightarrow> string \<Rightarrow> jv \<Rightarrow> apply_outcome io" where
  "performLocked env communityDid proposalRkey now applyAt proposal =
     seqM (getKeypairForDid env communityDid)
    (bindM (proposalApplicationProblem env communityDid proposal) (\<lambda>problem. case problem of
        Some p \<Rightarrow>
          seqM (putProposalRecord env communityDid proposalRkey
                  (jassign proposal [(''status'', JStr ''approved'')]))
         (seqM (auditLog env ''community.proposal.applyFailed'' None (Some communityDid)
                  (JObj [(''rkey'', JStr proposalRkey),
                         (''targetCollection'', jget proposal ''targetCollection''),
                         (''targetRkey'', jget proposal ''targetRkey''),
                         (''applyAt'', JStr applyAt), (''reason'', JStr p)]))
          (ret (NotApplicable p)))
      | None \<Rightarrow>
          bindM (proposedChangeOps env communityDid proposal) (\<lambda>ops.
          bindM (proposalWriteOp env communityDid proposalRkey (applied_state proposal (iso now))) (\<lambda>rec.
          bindM (applyWrites env communityDid (WriteRec PROPOSAL_COLLECTION proposalRkey rec # ops)) (\<lambda>_.
          seqM (auditLog env ''community.proposal.apply'' None (Some communityDid)
                  (apply_meta proposalRkey applyAt proposal))
           (ret Applied))))))"

text \<open>What runs once the proposal's lock is held.\<close>

definition applyLocked :: "env \<Rightarrow> string \<Rightarrow> string \<Rightarrow> int \<Rightarrow> apply_outcome io" where
  "applyLocked env communityDid proposalRkey now =
     bindM (dbRead env (\<lambda>s. record_or_null (proposal_at s communityDid proposalRkey))) (\<lambda>proposal.
       if \<not> truthy proposal \<or> jget proposal ''status'' \<noteq> JStr PENDING_STATUS then ret NotPending
       else (case jget proposal ''applyAt'' of
           JStr applyAt \<Rightarrow>
             if applyAt = [] then ret NotPending
             else if iso now < applyAt then ret (WindowOpen applyAt)
             else
               bindM (countableObjections env communityDid proposalRkey proposal) (\<lambda>objections.
               bindM (communitySettingsRecord env communityDid) (\<lambda>settings.
                 if objectionThreshold settings \<le> int (length objections)
                 then holdLocked env communityDid proposalRkey now applyAt proposal settings objections
                 else performLocked env communityDid proposalRkey now applyAt proposal))
         | _ \<Rightarrow> ret NotPending))"

definition applyIfDue :: "env \<Rightarrow> string \<Rightarrow> string \<Rightarrow> int option \<Rightarrow> apply_outcome io" where
  "applyIfDue env communityDid proposalRkey now_opt =
     bindM (now_or env now_opt) (\<lambda>now.
     bindM (dbRead env (\<lambda>s. map_option (\<lambda>(_, rec).
              (json_text (e_text env) (jget rec ''status''), json_text (e_text env) (jget rec ''applyAt'')))
              (proposal_at s communityDid proposalRkey))) (\<lambda>row.
       case row of
         Some (Some status, Some apply_at) \<Rightarrow>
           if status \<noteq> PENDING_STATUS \<or> apply_at = [] then ret NotPending
           else if iso now < apply_at then ret (WindowOpen apply_at)
           else withAdvisoryLock env (proposalLockKey communityDid proposalRkey)
                  (applyLocked env communityDid proposalRkey now)
       | _ \<Rightarrow> ret NotPending))"

definition applyIfDueSafely :: "env \<Rightarrow> string \<Rightarrow> string \<Rightarrow> int option \<Rightarrow> apply_outcome option io" where
  "applyIfDueSafely env communityDid proposalRkey now_opt =
     catchM (bindM (applyIfDue env communityDid proposalRkey now_opt) (\<lambda>r. ret (Some r)))
       (\<lambda>e. seqM (auditLog env ''community.proposal.applyFailed'' None (Some communityDid)
                  (JObj [(''rkey'', JStr proposalRkey), (''reason'', JStr (exn_message e))]))
             (ret None))"

definition applyDueProposals :: "env \<Rightarrow> string \<Rightarrow> nat io" where
  "applyDueProposals env communityDid =
     bindM (nowMs env) (\<lambda>now.
     bindM (catchM (dbRead env (\<lambda>s. due_rkeys env s communityDid PENDING_STATUS ''applyAt'' (iso now)))
              (\<lambda>_. ret [])) (\<lambda>due.
       foldM (\<lambda>applied rkey. bindM (applyIfDueSafely env communityDid rkey (Some now))
                (\<lambda>r. ret (if r = Some Applied then Suc applied else applied))) 0 due))"

subsection \<open>Programs that only read\<close>

text \<open>
  \<open>reads m s P\<close>: \<open>m\<close> leaves the repositories and the index of \<open>s\<close> as they are, and a result it
  returns satisfies \<open>P\<close>.
\<close>

definition reads :: "'a io \<Rightarrow> world \<Rightarrow> ('a \<Rightarrow> bool) \<Rightarrow> bool" where
  "reads m s P \<longleftrightarrow> runs m s (\<lambda>r s'. untouched s s' \<and> (case r of Inl _ \<Rightarrow> True | Inr x \<Rightarrow> P x))"

lemma untouched_refl [simp]: "untouched s s"
  by (simp add: untouched_def)

lemma untouched_trans: "untouched s t \<Longrightarrow> untouched t u \<Longrightarrow> untouched s u"
  by (simp add: untouched_def)

lemma untouched_counters [simp]:
  "untouched s (t\<lparr>w_ops := n\<rparr>) = untouched s t" "untouched s (t\<lparr>w_ticks := n\<rparr>) = untouched s t"
  "untouched s (t\<lparr>w_tids := n\<rparr>) = untouched s t" "untouched s (t\<lparr>w_audit := a\<rparr>) = untouched s t"
  by (simp_all add: untouched_def)

lemma untouched_indexed: "untouched s t \<Longrightarrow> indexed t = indexed s"
  by (simp add: indexed_look untouched_look fun_eq_iff)

lemma reads_ret [simp]: "reads (ret x) s P \<longleftrightarrow> P x"
  by (simp add: reads_def)

lemma reads_throw [simp]: "reads (throw e) s P"
  by (simp add: reads_def)

lemma reads_liftE: "(\<And>x. r = Inr x \<Longrightarrow> P x) \<Longrightarrow> reads (liftE r) s P"
  by (cases r) (auto simp: reads_def)

lemma reads_dbRead [intro]: "P (f s) \<Longrightarrow> reads (dbRead env f) s P"
  unfolding reads_def by (rule runs_dbReadI) auto

lemma reads_nowMs: "(\<And>t. P t) \<Longrightarrow> reads (nowMs env) s P"
  by (simp add: reads_def)

lemma reads_getKeypair [simp]: "reads (getKeypairForDid env did) s (\<lambda>_. True)"
  by (simp add: reads_def split: option.split)

lemma reads_auditLog [simp]: "reads (auditLog env a b c d) s (\<lambda>_. True)"
  unfolding reads_def auditLog_def
  by (intro runs_catchI runs_dbWriteI) (simp_all split: sum.split)

lemma reads_mono: "reads m s P \<Longrightarrow> (\<And>x. P x \<Longrightarrow> Q x) \<Longrightarrow> reads m s Q"
  unfolding reads_def by (erule runs_mono) (auto split: sum.splits)

lemma reads_bind:
  assumes "reads m s P" and "\<And>x s'. P x \<Longrightarrow> untouched s s' \<Longrightarrow> reads (f x) s' Q"
  shows "reads (bindM m f) s Q"
  unfolding reads_def
proof (rule runs_bindI, rule runs_mono [OF assms(1) [unfolded reads_def]])
  fix r s'
  assume r: "untouched s s' \<and> (case r of Inl _ \<Rightarrow> True | Inr x \<Rightarrow> P x)"
  show "case r of Inl e \<Rightarrow> untouched s s' \<and> (case Inl e of Inl _ \<Rightarrow> True | Inr x \<Rightarrow> Q x)
      | Inr x \<Rightarrow> runs (f x) s' (\<lambda>r s'. untouched s s' \<and> (case r of Inl _ \<Rightarrow> True | Inr x \<Rightarrow> Q x))"
  proof (cases r)
    case (Inr x)
    with r have "P x" "untouched s s'" by simp_all
    from assms(2) [OF this] this(2) Inr show ?thesis
      unfolding reads_def by (auto elim!: runs_mono intro: untouched_trans)
  qed (use r in simp)
qed

lemma reads_seq:
  assumes "reads m s P" and "\<And>s'. untouched s s' \<Longrightarrow> reads k s' Q"
  shows "reads (seqM m k) s Q"
  unfolding seqM_def by (rule reads_bind [OF assms(1)]) (rule assms(2))

text \<open>A read at the front of a program that goes on to write.\<close>

lemma runs_read_bind:
  assumes "reads m s P" and "\<And>e s'. untouched s s' \<Longrightarrow> Q (Inl e) s'"
    and "\<And>x s'. P x \<Longrightarrow> untouched s s' \<Longrightarrow> runs (f x) s' Q"
  shows "runs (bindM m f) s Q"
  by (rule runs_bindI, rule runs_mono [OF assms(1) [unfolded reads_def]])
    (use assms(2,3) in \<open>auto split: sum.splits\<close>)

lemma runs_read_seq:
  assumes "reads m s P" and "\<And>e s'. untouched s s' \<Longrightarrow> Q (Inl e) s'"
    and "\<And>s'. untouched s s' \<Longrightarrow> runs k s' Q"
  shows "runs (seqM m k) s Q"
  unfolding seqM_def by (rule runs_read_bind [OF assms(1)]) (auto intro: assms(2,3))

lemma runs_reads: "reads m s P \<Longrightarrow> (\<And>r s'. untouched s s' \<Longrightarrow> (\<And>x. r = Inr x \<Longrightarrow> P x) \<Longrightarrow> Q r s') \<Longrightarrow> runs m s Q"
  unfolding reads_def by (erule runs_mono) (auto split: sum.splits)

lemma untouched_tables:
  assumes "untouched s t"
  shows "coll_rows t = coll_rows s" "record_rows env t = record_rows env s" "settings_of t = settings_of s"
    "proposal_at t = proposal_at s" "latest_decision env t = latest_decision env s"
  using assms untouched_indexed [OF assms]
  by (simp_all add: untouched_def coll_rows_def record_rows_def settings_of_def proposal_at_def latest_decision_def fun_eq_iff)

lemma untouched_one_commit:
  assumes "untouched s t"
  shows "one_commit env did ps t u = one_commit env did ps s u" "indexed_after did ps t u = indexed_after did ps s u"
    "known_keys t did ops = known_keys s did ops" "untouched t u = untouched s u"
  using assms untouched_look [OF assms]
  by (simp_all add: one_commit_def indexed_after_def untouched_def known_keys_def existing_keys_def)

subsection \<open>What the window's programs read\<close>

definition objections_at :: "env \<Rightarrow> world \<Rightarrow> string \<Rightarrow> string \<Rightarrow> jv \<Rightarrow> counted_objection list" where
  "objections_at env s did k proposal = (case objection_ctx_of did k proposal of
      None \<Rightarrow> [] | Some ctx \<Rightarrow> objections_of env ctx (record_rows env s OBJECTION_COLLECTION did k))"

definition record_to_write :: "world \<Rightarrow> string \<Rightarrow> jv \<Rightarrow> jv" where
  "record_to_write s did proposal =
     (let current = settings_of s did; proposed = jget proposal ''proposedRecord''
      in if jget proposal ''targetCollection'' = JStr SETTINGS_COLLECTION \<and> jget proposal ''targetRkey'' = JStr ''self''
            \<and> truthy current \<and> typeof_object current
         then merge_settings current proposed else proposed)"

definition application_problem :: "world \<Rightarrow> string \<Rightarrow> jv \<Rightarrow> string option" where
  "application_problem s did proposal =
     (if is_write_proposal proposal \<and> jget proposal ''targetCollection'' = JStr SETTINGS_COLLECTION
      then map_option application_refusal (settings_problem_of (record_to_write s did proposal)) else None)"

definition change_ops :: "env \<Rightarrow> world \<Rightarrow> string \<Rightarrow> jv \<Rightarrow> engine_op list" where
  "change_ops env s did proposal =
     (let coll = target_coll env proposal; rkey = target_rkey env proposal
      in if is_write_proposal proposal then [WriteRec coll rkey (record_to_write s did proposal)]
         else if jget proposal ''action'' = JStr ''delete'' \<and> indexed s did coll rkey \<noteq> None
         then [DelRec coll rkey] else [])"

definition stored_proposal :: "world \<Rightarrow> string \<Rightarrow> string \<Rightarrow> jv \<Rightarrow> jv" where
  "stored_proposal s did k rec =
     (if usesVoteRecordEvidence rec
      then jassign rec [(''cidChain'', JArr (map JStr (extend_chain rec (map_option fst (proposal_at s did k)))))]
      else rec)"

lemma reads_settings: "reads (communitySettingsRecord env did) s (\<lambda>v. v = settings_of s did)"
  by (auto simp: communitySettingsRecord_def)

lemma reads_objections:
  "reads (countableObjections env did k proposal) s (\<lambda>v. v = objections_at env s did k proposal)"
  unfolding countableObjections_def objections_at_def
  by (cases "objection_ctx_of did k proposal")
    (auto intro!: reads_bind [where P = "\<lambda>rows. rows = record_rows env s OBJECTION_COLLECTION did k"])

lemma reads_recordToWrite: "reads (recordToWrite env did proposal) s (\<lambda>v. v = record_to_write s did proposal)"
  unfolding recordToWrite_def
  by (auto simp: record_to_write_def Let_def intro!: reads_bind [OF reads_settings])

lemma reads_applicationProblem:
  "reads (proposalApplicationProblem env did proposal) s (\<lambda>v. v = application_problem s did proposal)"
  unfolding proposalApplicationProblem_def
  by (auto simp: application_problem_def intro!: reads_bind [OF reads_recordToWrite])

lemma untouched_spec:
  assumes "untouched s t"
  shows "record_to_write t did proposal = record_to_write s did proposal"
    "application_problem t did proposal = application_problem s did proposal"
    "change_ops env t did proposal = change_ops env s did proposal"
    "stored_proposal t did k rec = stored_proposal s did k rec"
    "objections_at env t did k proposal = objections_at env s did k proposal"
proof -
  note eq = untouched_tables [OF assms] untouched_indexed [OF assms]
  show r: "record_to_write t did proposal = record_to_write s did proposal" for proposal
    by (simp add: record_to_write_def eq)
  show "application_problem t did proposal = application_problem s did proposal"
    by (simp add: application_problem_def r)
  show "change_ops env t did proposal = change_ops env s did proposal"
    unfolding change_ops_def r eq ..
  show "stored_proposal t did k rec = stored_proposal s did k rec" by (simp add: stored_proposal_def eq)
  show "objections_at env t did k proposal = objections_at env s did k proposal"
    unfolding objections_at_def eq ..
qed

lemma reads_changeOps:
  "reads (proposedChangeOps env did proposal) s
     (\<lambda>v. v = change_ops env s did proposal \<and> application_problem s did proposal = None)"
  unfolding proposedChangeOps_def Let_def
  by (auto simp: change_ops_def application_problem_def Let_def untouched_spec(1) untouched_indexed
      intro!: reads_bind [OF reads_applicationProblem] reads_bind [OF reads_recordToWrite]
        reads_bind [where P = "\<lambda>b. b = (indexed s did (target_coll env proposal) (target_rkey env proposal) \<noteq> None)"]
      split: option.split)

lemma reads_writeOp: "reads (proposalWriteOp env did k rec) s (\<lambda>v. v = stored_proposal s did k rec)"
  unfolding proposalWriteOp_def stored_proposal_def proposal_at_def
  by (auto intro!: reads_bind [where P = "\<lambda>c. c = map_option fst (indexed s did PROPOSAL_COLLECTION k)"])

lemma reads_held:
  "reads (heldProposalState env did proposal settings objections heldAt) s
     (\<lambda>held. jget held ''status'' \<in> {JStr OBJECTED_STATUS, JStr OVERRIDE_STATUS})"
  unfolding heldProposalState_def
  by (auto simp: countEligibleVoters_def override_state_def
      intro!: reads_bind [where P = "\<lambda>_. True"] reads_dbRead reads_liftE)

subsection \<open>What one pass over a decided proposal may do\<close>

definition due :: "world \<Rightarrow> string \<Rightarrow> string \<Rightarrow> int \<Rightarrow> jv \<Rightarrow> string \<Rightarrow> bool" where
  "due s did k now proposal applyAt \<longleftrightarrow> record_or_null (proposal_at s did k) = proposal \<and>
     jget proposal ''status'' = JStr PENDING_STATUS \<and> jget proposal ''applyAt'' = JStr applyAt \<and>
     applyAt \<noteq> [] \<and> applyAt \<le> iso now"

definition held_up :: "env \<Rightarrow> world \<Rightarrow> string \<Rightarrow> string \<Rightarrow> jv \<Rightarrow> bool" where
  "held_up env s did k proposal \<longleftrightarrow>
     objectionThreshold (settings_of s did) \<le> int (length (objections_at env s did k proposal))"

text \<open>One commit that replaces the proposal's record and writes nothing else.\<close>

definition proposal_commit :: "env \<Rightarrow> string \<Rightarrow> string \<Rightarrow> jv \<Rightarrow> world \<Rightarrow> world \<Rightarrow> bool" where
  "proposal_commit env did k rec s s' \<longleftrightarrow>
     (\<exists>b cid. one_commit env did [put_op b PROPOSAL_COLLECTION k (stored_proposal s did k rec) cid] s s')"

text \<open>The proposal and the change it makes, in one commit; \<open>full\<close> when the cache followed.\<close>

definition change_batch :: "env \<Rightarrow> world \<Rightarrow> string \<Rightarrow> string \<Rightarrow> int \<Rightarrow> jv \<Rightarrow> engine_op list" where
  "change_batch env s did k now proposal =
     WriteRec PROPOSAL_COLLECTION k (stored_proposal s did k (applied_state proposal (iso now)))
       # change_ops env s did proposal"

definition batch_indexed :: "env \<Rightarrow> string \<Rightarrow> engine_op list \<Rightarrow> world \<Rightarrow> world \<Rightarrow> bool" where
  "batch_indexed env did ops s s' \<longleftrightarrow>
     (\<exists>ps. prepare_ops env (known_keys s did ops) ops = Inr ps \<and> one_commit env did ps s s' \<and> indexed_after did ps s s')"

inductive window_step :: "env \<Rightarrow> string \<Rightarrow> string \<Rightarrow> int \<Rightarrow> world \<Rightarrow> exn + apply_outcome \<Rightarrow> world \<Rightarrow> bool"
  for env did k now s where
  stays: "untouched s s' \<Longrightarrow> r \<noteq> Inr Applied \<Longrightarrow> window_step env did k now s r s'"
| holds: "due s did k now proposal applyAt \<Longrightarrow> held_up env s did k proposal \<Longrightarrow>
    jget held ''status'' \<in> {JStr OBJECTED_STATUS, JStr OVERRIDE_STATUS} \<Longrightarrow>
    proposal_commit env did k held s s' \<Longrightarrow> r \<noteq> Inr Applied \<Longrightarrow> window_step env did k now s r s'"
| closes: "due s did k now proposal applyAt \<Longrightarrow> \<not> held_up env s did k proposal \<Longrightarrow>
    application_problem s did proposal \<noteq> None \<Longrightarrow>
    proposal_commit env did k (jassign proposal [(''status'', JStr ''approved'')]) s s' \<Longrightarrow> r \<noteq> Inr Applied \<Longrightarrow>
    window_step env did k now s r s'"
| applies: "due s did k now proposal applyAt \<Longrightarrow> \<not> held_up env s did k proposal \<Longrightarrow>
    application_problem s did proposal = None \<Longrightarrow>
    batch_committed env did (change_batch env s did k now proposal) s s' \<Longrightarrow>
    (r = Inr Applied \<Longrightarrow> batch_indexed env did (change_batch env s did k now proposal) s s') \<Longrightarrow>
    window_step env did k now s r s'"

inductive_cases window_step_Applied: "window_step env did k now s (Inr Applied) s'"

lemma one_commit_then:
  "one_commit env did ps s t \<Longrightarrow> untouched t u \<Longrightarrow> one_commit env did ps s u"
  "indexed_after did ps s t \<Longrightarrow> untouched t u \<Longrightarrow> indexed_after did ps s u"
  by (auto simp: one_commit_def indexed_after_def untouched_look) (auto simp: untouched_def)

lemma proposal_commitI:
  "one_commit env did [put_op b PROPOSAL_COLLECTION k (stored_proposal s did k rec) cid] s s' \<Longrightarrow>
   proposal_commit env did k rec s s'"
  by (auto simp: proposal_commit_def)

lemma runs_putProposal:
  assumes "\<And>e s'. untouched s s' \<Longrightarrow> Q (Inl e) s'"
    and "\<And>e s'. proposal_commit env did k rec s s' \<Longrightarrow> Q (Inl e) s'"
    and "\<And>x s'. proposal_commit env did k rec s s' \<Longrightarrow> Q (Inr x) s'"
  shows "runs (putProposalRecord env did k rec) s Q"
  unfolding putProposalRecord_def
proof (rule runs_read_bind [OF reads_writeOp])
  fix v s1
  assume v: "v = stored_proposal s did k rec" and s1: "untouched s s1"
  show "runs (putRecord env did PROPOSAL_COLLECTION k v) s1 Q"
    by (rule runs_putRecord) (auto simp: v untouched_one_commit [OF s1] intro: assms proposal_commitI)
qed (rule assms(1))

text \<open>A proposal is replaced, something is logged, and the outcome returned.\<close>

lemma runs_put_then_log:
  assumes s1: "untouched s s1"
    and stays: "\<And>e s'. untouched s s' \<Longrightarrow> Q (Inl e) s'"
    and log: "\<And>r s'. proposal_commit env did k rec s s' \<Longrightarrow> r = Inr x \<or> (\<exists>e. r = Inl e) \<Longrightarrow> Q r s'"
  shows "runs (seqM (putProposalRecord env did k rec) (seqM (auditLog env a b c d) (ret x))) s1 Q"
proof -
  have pc: "proposal_commit env did k rec s1 u = proposal_commit env did k rec s u" for u
    by (simp add: proposal_commit_def untouched_one_commit [OF s1] untouched_spec [OF s1])
  have after: "proposal_commit env did k rec s u" if "proposal_commit env did k rec s t" "untouched t u" for t u
    using that by (auto simp: proposal_commit_def intro: one_commit_then)
  show ?thesis
  proof (rule runs_seqI, rule runs_putProposal)
    fix y s' assume "proposal_commit env did k rec s1 s'"
    then have c: "proposal_commit env did k rec s s'" by (simp add: pc)
    have "runs (seqM (auditLog env a b c d) (ret x)) s' Q"
    proof (rule runs_reads)
      show "reads (seqM (auditLog env a b c d) (ret x)) s' (\<lambda>y. y = x)" by (rule reads_seq [OF reads_auditLog]) simp
      show "Q r t" if "untouched s' t" "\<And>y. r = Inr y \<Longrightarrow> y = x" for r t
        by (rule log, rule after [OF c that(1)]) (use that(2) in \<open>cases r; simp\<close>)
    qed
    then show "case Inr y of Inl e \<Rightarrow> Q (Inl e) s' | Inr _ \<Rightarrow> runs (seqM (auditLog env a b c d) (ret x)) s' Q" by simp
  qed (use stays log s1 in \<open>auto simp: pc untouched_one_commit\<close>)
qed

text \<open>From here on the state \<open>s\<close> is the one in which the proposal was found due.\<close>

lemma stays_Inl: "untouched s s0 \<Longrightarrow> untouched s0 s' \<Longrightarrow> window_step env did k now s (Inl e) s'"
  by (rule stays) (auto intro: untouched_trans)

lemma runs_holdLocked:
  assumes "untouched s s0" "due s did k now proposal applyAt" "held_up env s did k proposal"
  shows "runs (holdLocked env did k now applyAt proposal settings objections) s0 (window_step env did k now s)"
  unfolding holdLocked_def
proof (rule runs_read_bind [OF reads_held], rule stays_Inl [OF assms(1)], assumption)
  fix held s1
  assume held: "jget held ''status'' \<in> {JStr OBJECTED_STATUS, JStr OVERRIDE_STATUS}" and "untouched s0 s1"
  with assms(1) have s1: "untouched s s1" by (auto intro: untouched_trans)
  show "runs (seqM (getKeypairForDid env did) (seqM (putProposalRecord env did k held)
    (seqM (auditLog env ''community.proposal.applicationHeld'' None (Some did)
             (held_meta k applyAt (objectionThreshold settings) held objections))
     (ret (Objected objections))))) s1 (window_step env did k now s)"
    by (rule runs_read_seq [OF reads_getKeypair], rule stays_Inl [OF s1], assumption,
        rule runs_put_then_log [OF untouched_trans [OF s1]], assumption)
      (auto intro: stays holds [OF assms(2,3) held])
qed

lemma runs_unapplicable:
  assumes "untouched s s0" "due s did k now proposal applyAt" "\<not> held_up env s did k proposal"
    and "application_problem s did proposal \<noteq> None"
  shows "runs (seqM (putProposalRecord env did k (jassign proposal [(''status'', JStr ''approved'')]))
    (seqM (auditLog env a b c d) (ret (NotApplicable p)))) s0 (window_step env did k now s)"
  by (rule runs_put_then_log [OF assms(1)]) (auto intro: stays closes [OF assms(2-4)])

lemma runs_change:
  assumes "untouched s s0" "due s did k now proposal applyAt" "\<not> held_up env s did k proposal"
  shows "runs (bindM (proposedChangeOps env did proposal) (\<lambda>ops.
      bindM (proposalWriteOp env did k (applied_state proposal (iso now))) (\<lambda>rec.
      bindM (applyWrites env did (WriteRec PROPOSAL_COLLECTION k rec # ops)) (\<lambda>_.
      seqM (auditLog env a b c d) (ret Applied))))) s0 (window_step env did k now s)"
proof (rule runs_read_bind [OF reads_changeOps], rule stays_Inl [OF assms(1)], assumption)
  fix ops s1
  assume "ops = change_ops env s0 did proposal \<and> application_problem s0 did proposal = None" "untouched s0 s1"
  with assms(1) have ops: "ops = change_ops env s did proposal" "application_problem s did proposal = None"
    and s1: "untouched s s1" by (auto simp: untouched_spec intro: untouched_trans)
  show "runs (bindM (proposalWriteOp env did k (applied_state proposal (iso now))) (\<lambda>rec.
      bindM (applyWrites env did (WriteRec PROPOSAL_COLLECTION k rec # ops)) (\<lambda>_.
      seqM (auditLog env a b c d) (ret Applied)))) s1 (window_step env did k now s)"
  proof (rule runs_read_bind [OF reads_writeOp], rule stays_Inl [OF s1], assumption)
    fix rec s2 assume "rec = stored_proposal s1 did k (applied_state proposal (iso now))" "untouched s1 s2"
    with s1 ops have batch: "WriteRec PROPOSAL_COLLECTION k rec # ops = change_batch env s did k now proposal"
      and s2: "untouched s s2" by (auto simp: untouched_spec change_batch_def intro: untouched_trans)
    note step = applies [OF assms(2,3) ops(2)]
    show "runs (bindM (applyWrites env did (WriteRec PROPOSAL_COLLECTION k rec # ops)) (\<lambda>_.
      seqM (auditLog env a b c d) (ret Applied))) s2 (window_step env did k now s)"
      unfolding batch
    proof (rule runs_bindI, rule runs_applyWrites)
      fix ps t
      assume ps: "prepare_ops env (known_keys s2 did (change_batch env s did k now proposal))
          (change_batch env s did k now proposal) = Inr ps" "one_commit env did ps s2 t" "indexed_after did ps s2 t"
      then have ps: "prepare_ops env (known_keys s did (change_batch env s did k now proposal))
          (change_batch env s did k now proposal) = Inr ps" "one_commit env did ps s t" "indexed_after did ps s t"
        by (simp_all add: untouched_one_commit [OF s2])
      have "runs (seqM (auditLog env a b c d) (ret Applied)) t (window_step env did k now s)"
        by (rule runs_reads [where P = "\<lambda>_. True"], rule reads_seq [OF reads_auditLog])
          (use ps in \<open>auto intro!: step simp: batch_committed_def batch_indexed_def intro: one_commit_then\<close>)
      then show "case Inr (map (op_result did) ps) of Inl e \<Rightarrow> window_step env did k now s (Inl e) t
        | Inr _ \<Rightarrow> runs (seqM (auditLog env a b c d) (ret Applied)) t (window_step env did k now s)" by simp
    qed (auto simp: change_batch_def untouched_one_commit [OF s2] batch_committed_def intro: stays step)
  qed
qed

lemma runs_performLocked:
  assumes "untouched s s0" "due s did k now proposal applyAt" "\<not> held_up env s did k proposal"
  shows "runs (performLocked env did k now applyAt proposal) s0 (window_step env did k now s)"
  unfolding performLocked_def
proof (rule runs_read_seq [OF reads_getKeypair], rule stays_Inl [OF assms(1)], assumption, goal_cases)
  case (1 s1)
  with assms(1) have s1: "untouched s s1" by (rule untouched_trans)
  show ?case
  proof (rule runs_read_bind [OF reads_applicationProblem], rule stays_Inl [OF s1], assumption, goal_cases)
    case (1 problem s2)
    with s1 have p: "problem = application_problem s did proposal" and s2: "untouched s s2"
      by (auto simp: untouched_spec intro: untouched_trans)
    show ?case
    proof (cases "application_problem s did proposal")
      case None
      with p show ?thesis using runs_change [OF s2 assms(2,3)] by simp
    next
      case (Some why)
      with p show ?thesis using runs_unapplicable [OF s2 assms(2,3)] by simp
    qed
  qed
qed

lemma runs_applyLocked: "runs (applyLocked env did k now) s (window_step env did k now s)"
  unfolding applyLocked_def
proof (rule runs_read_bind [where P = "\<lambda>p. p = record_or_null (proposal_at s did k)"], blast,
    rule stays, assumption, simp, goal_cases)
  case (1 proposal s1)
  then show ?case
  proof (cases "jget proposal ''applyAt''")
    case (JStr applyAt)
    show ?thesis
    proof (cases "truthy proposal \<and> jget proposal ''status'' = JStr PENDING_STATUS \<and> applyAt \<noteq> [] \<and> \<not> iso now < applyAt")
      case True
      with 1 JStr have d: "due s did k now proposal applyAt" by (auto simp: due_def)
      have "runs (bindM (countableObjections env did k proposal) (\<lambda>objections.
               bindM (communitySettingsRecord env did) (\<lambda>settings.
                 if objectionThreshold settings \<le> int (length objections)
                 then holdLocked env did k now applyAt proposal settings objections
                 else performLocked env did k now applyAt proposal))) s1 (window_step env did k now s)"
      proof (rule runs_read_bind [OF reads_objections], rule stays_Inl [OF 1(2)], assumption, goal_cases)
        case (1 objections s2)
        with \<open>untouched s s1\<close> have o: "objections = objections_at env s did k proposal" and s2: "untouched s s2"
          by (auto simp: untouched_spec intro: untouched_trans)
        show ?case
        proof (rule runs_read_bind [OF reads_settings], rule stays_Inl [OF s2], assumption, goal_cases)
          case (1 settings s3)
          with s2 have "settings = settings_of s did" and s3: "untouched s s3"
            by (auto simp: untouched_tables intro: untouched_trans)
          with o runs_holdLocked [OF s3 d] runs_performLocked [OF s3 d] show ?case
            by (simp add: held_up_def)
        qed
      qed
      with True JStr show ?thesis by simp
    next
      case False
      with 1 JStr show ?thesis by (auto intro: stays)
    qed
  qed (auto intro: stays)
qed

subsection \<open>What a pass can change\<close>

lemma one_commit_tree:
  assumes "commit_performs env" "one_commit env did ps s s'" "map_of (w_repos s) did = Some t"
    and "(c, j) \<notin> set (map (op_key \<circ> tree_op \<circ> fst) ps)"
  shows "\<exists>t'. map_of (w_repos s') did = Some t' \<and> map_of t' (c, j) = map_of t (c, j)"
    and "d \<noteq> did \<Longrightarrow> map_of (w_repos s') d = map_of (w_repos s) d"
proof -
  from assms(1-3) obtain t' where t': "w_repos s' = AList.update did t' (w_repos s)"
    "map_of t' = ops_effect (map tree_op (map fst ps)) (map_of t)"
    by (auto simp: one_commit_def commit_performs_def)
  have "(c, j) \<notin> op_key ` set (map tree_op (map fst ps))" using assms(4) by (simp add: image_comp comp_def)
  from ops_effect_other [OF this] t'
  show "\<exists>t'. map_of (w_repos s') did = Some t' \<and> map_of t' (c, j) = map_of t (c, j)" by simp
  show "d \<noteq> did \<Longrightarrow> map_of (w_repos s') d = map_of (w_repos s) d" using t' by simp
qed

lemma change_batch_keys:
  "map engine_key (change_batch env s did k now proposal) = [(PROPOSAL_COLLECTION, k)] \<or>
   map engine_key (change_batch env s did k now proposal) =
     [(PROPOSAL_COLLECTION, k), (target_coll env proposal, target_rkey env proposal)]"
  by (simp add: change_batch_def change_ops_def Let_def)

lemma not_due_stays:
  assumes "window_step env did k now s r s'" "\<nexists>proposal applyAt. due s did k now proposal applyAt"
  shows "untouched s s' \<and> r \<noteq> Inr Applied"
  using assms by (cases rule: window_step.cases) auto

text \<open>
  C7. A pass over a decided proposal follows its state machine, whatever statement fails: it leaves
  the repositories alone; or the proposal was pending and its window had run out, and then
  it is held because its objections reach the threshold, closed because its change cannot
  be applied, or applied, change and proposal in one commit.
\<close>

theorem application_follows_the_window:
  "case applyLocked env did k now s of (r, s') \<Rightarrow> window_step env did k now s r s'"
  using runs_applyLocked by (simp add: runs_def)

lemma window_step_frame:
  assumes "commit_performs env" "window_step env did k now s r s'" "map_of (w_repos s) did = Some t"
    and "(c, j) \<noteq> (PROPOSAL_COLLECTION, k)"
    and "\<nexists>proposal applyAt. due s did k now proposal applyAt \<and> \<not> held_up env s did k proposal
      \<and> (c, j) = (target_coll env proposal, target_rkey env proposal)"
  shows "\<exists>t'. map_of (w_repos s') did = Some t' \<and> map_of t' (c, j) = map_of t (c, j)"
  using assms(2)
proof (cases rule: window_step.cases)
  case stays
  with assms(3) show ?thesis by (simp add: untouched_def)
next
  case (holds proposal applyAt held)
  then show ?thesis using assms(4)
    by (auto simp: proposal_commit_def intro!: one_commit_tree [OF assms(1) _ assms(3)])
next
  case (closes proposal applyAt)
  then show ?thesis using assms(4)
    by (auto simp: proposal_commit_def intro!: one_commit_tree [OF assms(1) _ assms(3)])
next
  case (applies proposal applyAt)
  then obtain ps where ps: "prepare_ops env (known_keys s did (change_batch env s did k now proposal))
      (change_batch env s did k now proposal) = Inr ps" "one_commit env did ps s s'"
    by (auto simp: batch_committed_def)
  have "(c, j) \<noteq> (target_coll env proposal, target_rkey env proposal)"
    using applies(1,2) assms(5) by blast
  with assms(4) change_batch_keys [of env s did k now proposal]
  have "(c, j) \<notin> set (map engine_key (change_batch env s did k now proposal))" by auto
  then show ?thesis
    by (intro one_commit_tree [OF assms(1) ps(2) assms(3)]) (simp only: prepare_ops_keys [OF ps(1)] not_False_eq_True)
qed

lemma window_step_other_repos:
  assumes "window_step env did k now s r s'" "d \<noteq> did"
  shows "map_of (w_repos s') d = map_of (w_repos s) d"
  using assms by (cases rule: window_step.cases)
    (auto simp: untouched_def proposal_commit_def batch_committed_def one_commit_def)

text \<open>
  No record of the community other than the proposal itself changes unless the proposal was
  pending, its window had run out and its objections were below the threshold; the only
  record that can change then is the one it names. No other repository changes.
\<close>

theorem change_needs_elapsed_window:
  assumes "commit_performs env" "applyLocked env did k now s = (r, s')"
    and "map_of (w_repos s) did = Some t" "map_of (w_repos s') did = Some t'"
    and "(c, j) \<noteq> (PROPOSAL_COLLECTION, k)" "map_of t' (c, j) \<noteq> map_of t (c, j)"
  shows "(\<exists>proposal applyAt. due s did k now proposal applyAt \<and> \<not> held_up env s did k proposal \<and>
      (c, j) = (target_coll env proposal, target_rkey env proposal)) \<and>
    (\<forall>d. d \<noteq> did \<longrightarrow> map_of (w_repos s') d = map_of (w_repos s) d)"
proof -
  have step: "window_step env did k now s r s'" using runs_applyLocked assms(2) by (rule runsD)
  from window_step_frame [OF assms(1) step assms(3,5)] window_step_other_repos [OF step] assms(4,6)
  show ?thesis by auto
qed

lemma applyIfDue_acquires:
  assumes "applyIfDue env did k now_opt s = (Inr Applied, s')"
  shows "\<exists>now n u. (now_opt = None \<or> now_opt = Some now) \<and> untouched s u \<and>
    applyLocked env did k now (e_wait env n u) = (Inr Applied, s')"
proof -
  let ?P = "\<lambda>r s'. r = Inr Applied \<longrightarrow> (\<exists>now n u. (now_opt = None \<or> now_opt = Some now) \<and> untouched s u \<and>
    applyLocked env did k now (e_wait env n u) = (Inr Applied, s'))"
  have "runs (applyIfDue env did k now_opt) s ?P"
    unfolding applyIfDue_def
  proof (rule runs_read_bind [where P = "\<lambda>now. now_opt = None \<or> now_opt = Some now"], goal_cases)
    case 1 show ?case by (cases now_opt) (auto simp: now_or_def intro: reads_nowMs)
  next
    case (3 now s1)
    show ?case
    proof (rule runs_read_bind [where P = "\<lambda>_. True"], goal_cases)
      case (3 row s2)
      with \<open>untouched s s1\<close> have s2: "untouched s s2" by (auto intro: untouched_trans)
      have "runs (withAdvisoryLock env (proposalLockKey did k) (applyLocked env did k now)) s2 ?P"
        unfolding withAdvisoryLock_def
      proof (rule runs_read_bind [where P = "\<lambda>_. True"], goal_cases)
        case (3 x s3)
        with s2 have "untouched s s3" by (auto intro: untouched_trans)
        with \<open>now_opt = None \<or> now_opt = Some now\<close> show ?case
          by (auto simp: runs_def split: prod.splits)
      qed auto
      then show ?case by (auto split: option.splits)
    qed auto
  qed auto
  with assms show ?thesis by (auto simp: runs_def)
qed

text \<open>
  C8. Asked for through its lock, a proposal is applied only if, in the state reached once the lock
  was granted (whatever other requests did meanwhile), it was pending, its window had run
  out, its objections were below the threshold and its change was applicable; the change and
  the proposal are then in the repository and in the cache.
\<close>

theorem applied_only_after_window:
  assumes "applyIfDue env did k (Some now) s = (Inr Applied, s')"
  shows "\<exists>u n proposal applyAt. let t = e_wait env n u in untouched s u \<and>
    due t did k now proposal applyAt \<and> \<not> held_up env t did k proposal \<and>
    application_problem t did proposal = None \<and>
    batch_indexed env did (change_batch env t did k now proposal) t s'"
proof -
  from applyIfDue_acquires [OF assms] obtain n u where u: "untouched s u"
    "applyLocked env did k now (e_wait env n u) = (Inr Applied, s')" by auto
  have "window_step env did k now (e_wait env n u) (Inr Applied) s'"
    using runs_applyLocked u(2) by (rule runsD)
  with u(1) show ?thesis unfolding Let_def by (elim window_step_Applied) blast+
qed

lemma jassign_entries: "entries (jassign v kvs) = foldl (\<lambda>al (k, x). AList.update k x al) (entries v) kvs"
  by (simp add: jassign_def)

lemma keys_distinct_jassign: "keys_distinct v \<Longrightarrow> keys_distinct (jassign v kvs)"
  unfolding keys_distinct_def jassign_entries
  by (induction kvs rule: rev_induct) (auto split: prod.split)

lemma stored_proposal_status:
  assumes "keys_distinct rec"
  shows "jget (json_clean (stored_proposal s did k rec)) ''status'' = json_clean (jget rec ''status'')"
  using keys_distinct_jassign [OF assms] assms
  by (simp add: stored_proposal_def jget_json_clean keys_distinct_def)

lemma ops_effect_first:
  "op_key (hd ops) \<notin> op_key ` set (tl ops) \<Longrightarrow> ops \<noteq> [] \<Longrightarrow>
   ops_effect ops m (op_key (hd ops)) = op_effect (hd ops) m (op_key (hd ops))"
  by (cases ops) (simp_all add: ops_effect_other)

lemma applied_is_indexed:
  assumes "batch_indexed env did (change_batch env s did k now proposal) s s'"
    and "(target_coll env proposal, target_rkey env proposal) \<noteq> (PROPOSAL_COLLECTION, k)"
  shows "\<exists>cid. proposal_at s' did k = Some (cid, json_clean (stored_proposal s did k (applied_state proposal (iso now))))"
proof -
  let ?ops = "change_batch env s did k now proposal" and ?rec = "stored_proposal s did k (applied_state proposal (iso now))"
  from assms(1) obtain ps where ps: "prepare_ops env (known_keys s did ?ops) ?ops = Inr ps" "indexed_after did ps s s'"
    by (auto simp: batch_indexed_def)
  from ps(1) obtain cid w qs where q: "ps = (w, Some cid) # qs" "index_op did (w, Some cid) = Put (did, PROPOSAL_COLLECTION, k) (cid, json_clean ?rec)"
    by (auto simp: change_batch_def split: sum.splits if_splits)
  have ix: "op_key (index_op did p) = (did, op_key (tree_op (fst p)))" for p
    by (cases p; cases "fst p") auto
  have "(PROPOSAL_COLLECTION, k) \<notin> (op_key \<circ> tree_op \<circ> fst) ` set qs"
    using prepare_ops_keys [OF ps(1)] change_batch_keys [of env s did k now proposal] assms(2) q(1) by auto
  then have "(did, PROPOSAL_COLLECTION, k) \<notin> op_key ` set (map (index_op did) qs)"
    by (force simp: ix)
  with ps(2) q show ?thesis
    by (simp add: proposal_at_def indexed_look indexed_after_def ops_effect_other)
qed

text \<open>
  A change is applied once: after a pass that applied a proposal, a later pass, however late,
  finds it no longer pending and leaves the repositories alone.
\<close>

theorem applied_once:
  assumes "applyLocked env did k now s = (Inr Applied, s')"
    and "keys_distinct (record_or_null (proposal_at s did k))"
    and "(target_coll env (record_or_null (proposal_at s did k)), target_rkey env (record_or_null (proposal_at s did k)))
      \<noteq> (PROPOSAL_COLLECTION, k)"
  shows "case applyLocked env did k later s' of (r, s'') \<Rightarrow> r \<noteq> Inr Applied \<and> untouched s' s''"
proof -
  have "window_step env did k now s (Inr Applied) s'" using runs_applyLocked assms(1) by (rule runsD)
  then obtain proposal applyAt where p: "due s did k now proposal applyAt"
    "batch_indexed env did (change_batch env s did k now proposal) s s'" by (auto elim: window_step_Applied)
  then have eq: "record_or_null (proposal_at s did k) = proposal" by (simp add: due_def)
  from applied_is_indexed [OF p(2)] assms(3) eq obtain cid where
    "proposal_at s' did k = Some (cid, json_clean (stored_proposal s did k (applied_state proposal (iso now))))" by auto
  moreover have "keys_distinct (applied_state proposal (iso now))"
    using assms(2) eq by (simp add: applied_state_def keys_distinct_jassign)
  ultimately have "jget (record_or_null (proposal_at s' did k)) ''status'' = JStr ''approved''"
    by (simp add: record_or_null_def stored_proposal_status) (simp add: applied_state_def)
  then have "\<not> due s' did k later q a" for q a by (auto simp: due_def)
  with not_due_stays [OF runsD [OF runs_applyLocked]] show ?thesis
    by (auto split: prod.split)
qed

subsection \<open>A run\<close>

text \<open>Statements of the sample environment do not fail.\<close>

lemma sample_statements [simp]:
  "dbRead sample_env f s = (Inr (f s), s\<lparr>w_ops := Suc (w_ops s)\<rparr>)"
  "dbTxn sample_env g s = (case g (s\<lparr>w_ops := Suc (w_ops s)\<rparr>) of
     Inl e \<Rightarrow> (Inl e, s\<lparr>w_ops := Suc (w_ops s)\<rparr>) | Inr s2 \<Rightarrow> (Inr (), s2))"
  "dbWrite sample_env h s = (Inr (), h (s\<lparr>w_ops := Suc (w_ops s)\<rparr>))"
  "getKeypairForDid sample_env did = ret ()"
  "cidForRecord sample_env rec = ret ''cid''"
  "e_cid sample_env rec = Inr ''cid''" "e_wait sample_env n s = s"
  by (simp_all add: sample_env_def dbRead_def dbWrite_def dbTxn_def getKeypairForDid_def cidForRecord_def liftE_def Let_def)

text \<open>A community with a decided proposal to write a record, whose window has run out.\<close>

definition due_proposal :: jv where
  "due_proposal = JObj
     [(''status'', JStr PENDING_STATUS), (''action'', JStr ''write''), (''targetCollection'', JStr ''forum''),
      (''targetRkey'', JStr ''t''), (''proposedRecord'', JObj [(''name'', JStr ''new'')]),
      (''decision'', strong_ref ''at://decision'' ''cid''), (''resolvedAt'', JStr (iso 1767100000000)),
      (''applyAt'', JStr (iso 1767186400000))]"

definition due_world :: world where
  "due_world = empty_world\<lparr>
     w_repos := [(''d'', [((PROPOSAL_COLLECTION, ''p''), due_proposal), ((''forum'', ''t''), JNull)])],
     w_index := [((''d'', PROPOSAL_COLLECTION, ''p''), (''cid'', due_proposal)), ((''d'', ''forum'', ''t''), (''cid'', JNull))]\<rparr>"

definition due_run :: "(exn + apply_outcome) \<times> world" where
  "due_run = applyIfDue sample_env ''d'' ''p'' (Some 1767225600000) due_world"

lemma iso_not_nil [simp]: "iso t \<noteq> []"
  by (simp add: iso_def Let_def time_part_def split: prod.split)

lemma due_time: "\<not> iso 1767225600000 < iso 1767186400000"
  by (subst iso_less) (simp_all add: min_4digit_def max_4digit_def)

lemma due_fields [simp]:
  "jget due_proposal ''status'' = JStr PENDING_STATUS" "jget due_proposal ''applyAt'' = JStr (iso 1767186400000)"
  "jget due_proposal ''action'' = JStr ''write''" "jget due_proposal ''targetCollection'' = JStr ''forum''"
  "jget due_proposal ''targetRkey'' = JStr ''t''" "jget due_proposal ''proposedRecord'' = JObj [(''name'', JStr ''new'')]"
  "jget due_proposal ''evidenceModel'' = JUndef" "truthy due_proposal"
  "jget due_proposal ''decision'' = strong_ref ''at://decision'' ''cid''" "jget due_proposal ''resolvedAt'' = JStr (iso 1767100000000)"
  by (simp_all add: due_proposal_def)

lemma due_proposal_at [simp]: "proposal_at due_world ''d'' ''p'' = Some (''cid'', due_proposal)"
  by (simp add: proposal_at_def indexed_def due_world_def)

lemma due_settings [simp]: "settings_of due_world ''d'' = JUndef"
  by (simp add: settings_of_def indexed_def due_world_def)

lemma due_objections [simp]: "record_rows sample_env due_world OBJECTION_COLLECTION ''d'' ''p'' = []"
  by (simp add: record_rows_def due_world_def)

lemma counters_tables [simp]:
  "proposal_at (s\<lparr>w_ops := n\<rparr>) = proposal_at s" "settings_of (s\<lparr>w_ops := n\<rparr>) = settings_of s"
  "record_rows env (s\<lparr>w_ops := n\<rparr>) = record_rows env s" "indexed (s\<lparr>w_ops := n\<rparr>) = indexed s"
  by (simp_all add: untouched_tables untouched_indexed)

lemma due_existing [simp]:
  "existing_keys (due_world\<lparr>w_ops := n\<rparr>) ''d'' [joined_key PROPOSAL_COLLECTION ''p'', joined_key ''forum'' ''t''] =
   [joined_key PROPOSAL_COLLECTION ''p'', joined_key ''forum'' ''t'']"
  by (simp add: existing_keys_def due_world_def)

lemma forum_not_governed [simp]: "''forum'' \<noteq> SETTINGS_COLLECTION" "''forum'' \<noteq> MEMBER_COLLECTION" "''forum'' \<noteq> PROPOSAL_COLLECTION"
  by (simp_all add: SETTINGS_COLLECTION_def MEMBER_COLLECTION_def PROPOSAL_COLLECTION_def)

lemma due_tree [simp]:
  "w_repos due_world = [(''d'', [((PROPOSAL_COLLECTION, ''p''), due_proposal), ((''forum'', ''t''), JNull)])]"
  by (simp add: due_world_def)

lemma no_settings_threshold [simp]: "objectionThreshold JUndef = 1"
  by (simp add: objectionThreshold_def governance_config_def DEFAULT_OBJECTION_THRESHOLD_def)

lemma due_run_applied: "fst due_run = Inr Applied"
  by (simp add: due_run_def applyIfDue_def now_or_def withAdvisoryLock_def applyLocked_def countableObjections_def
      communitySettingsRecord_def performLocked_def proposalApplicationProblem_def proposedChangeOps_def
      recordToWrite_def proposalWriteOp_def run_simps due_time record_or_null_def objection_ctx_of_def objections_of_def
      objections_scan_def is_write_proposal_def target_coll_def target_rkey_def prop_key_def strong_ref_def
      usesVoteRecordEvidence_def applied_state_def applyWrites_def loadRepo_def commitRepo_def reference_commit_def
      syncRecordsIndex_def sync_one_def auditLog_def Let_def)

lemmas pass_defs =
  applyLocked_def countableObjections_def communitySettingsRecord_def performLocked_def
  proposalApplicationProblem_def proposedChangeOps_def recordToWrite_def proposalWriteOp_def
  objection_ctx_of_def objections_of_def objections_scan_def is_write_proposal_def target_coll_def
  target_rkey_def prop_key_def strong_ref_def usesVoteRecordEvidence_def applied_state_def
  applyWrites_def loadRepo_def commitRepo_def reference_commit_def syncRecordsIndex_def sync_one_def
  auditLog_def record_or_null_def

lemma due_pass:
  "\<exists>s' t'. applyLocked sample_env ''d'' ''p'' 1767225600000 due_world = (Inr Applied, s') \<and>
     map_of (w_repos s') ''d'' = Some t' \<and> map_of t' (''forum'', ''t'') = Some (JObj [(''name'', JStr ''new'')])"
  by (simp add: pass_defs run_simps due_time Let_def is_pseudonym_def)

theorem change_needs_elapsed_window_witness:
  "\<exists>proposal applyAt. due due_world ''d'' ''p'' 1767225600000 proposal applyAt \<and>
     \<not> held_up sample_env due_world ''d'' ''p'' proposal"
proof -
  obtain s' t' where "applyLocked sample_env ''d'' ''p'' 1767225600000 due_world = (Inr Applied, s')"
    "map_of (w_repos s') ''d'' = Some t'" "map_of t' (''forum'', ''t'') = Some (JObj [(''name'', JStr ''new'')])"
    using due_pass by blast
  from change_needs_elapsed_window [OF reference_commit_ok(1) this(1) _ this(2), of _ "''forum''" "''t''"] this(3)
  show ?thesis by auto
qed

theorem applied_only_after_window_witness:
  "\<exists>proposal applyAt. due due_world ''d'' ''p'' 1767225600000 proposal applyAt"
proof -
  have "applyIfDue sample_env ''d'' ''p'' (Some 1767225600000) due_world = (Inr Applied, snd due_run)"
    using due_run_applied by (simp add: due_run_def prod_eq_iff)
  from applied_only_after_window [OF this] show ?thesis
    by (auto simp: Let_def due_def untouched_tables)
qed

theorem applied_once_witness:
  "case applyLocked sample_env ''d'' ''p'' 1767225600001 (snd (applyLocked sample_env ''d'' ''p'' 1767225600000 due_world)) of
     (r, _) \<Rightarrow> r \<noteq> Inr Applied"
proof -
  obtain s' where r: "applyLocked sample_env ''d'' ''p'' 1767225600000 due_world = (Inr Applied, s')"
    using due_pass by blast
  have "keys_distinct due_proposal" by (simp add: keys_distinct_def due_proposal_def)
  then have "case applyLocked sample_env ''d'' ''p'' 1767225600001 s' of (r, s'') \<Rightarrow> r \<noteq> Inr Applied \<and> untouched s' s''"
    by (intro applied_once [OF r]) (simp_all add: record_or_null_def target_coll_def target_rkey_def prop_key_def)
  then show ?thesis by (simp add: r split: prod.splits)
qed

end
