(* ===== verification/Anchoring.thy ===== *)
theory Anchoring
  imports Timelock
begin

text \<open>
  Notarizing a decision after the fact: \<^verbatim>\<open>src/governance/anchoring.ts\<close> and the registry of
  \<^verbatim>\<open>src/governance/attestor.ts\<close>. A registered notary is a parameter: asked to anchor a
  content identifier, it returns some value or fails (a time-out is a failure).
\<close>

definition RETRY_BATCH :: nat where "RETRY_BATCH = 5"
definition RETRY_SCAN :: nat where "RETRY_SCAN = 50"
definition DEFAULT_ANCHOR_TIMEOUT_MS :: int where "DEFAULT_ANCHOR_TIMEOUT_MS = 5000"

text \<open>\<open>configured\<close> is the environment variable as a number.\<close>

definition anchorTimeoutMs :: "jnum \<Rightarrow> rat" where
  "anchorTimeoutMs configured = (case configured of
      Fin q \<Rightarrow> if 0 < q then q else of_int DEFAULT_ANCHOR_TIMEOUT_MS
    | _ \<Rightarrow> of_int DEFAULT_ANCHOR_TIMEOUT_MS)"

text \<open>The chain a community anchors to; \<open>None\<close> when it does not anchor.\<close>

definition anchoringConfig :: "jv \<Rightarrow> string option" where
  "anchoringConfig settings =
     (let config = governance_config settings; anchoring = jget config ''anchoring'';
          fallbackChain = str_or_none (jget config ''chainId'');
          nonempty = (\<lambda>c. case c of None \<Rightarrow> None | Some s \<Rightarrow> if s = [] then None else Some s)
      in if truthy anchoring \<and> typeof_object anchoring then
           (if jget anchoring ''enabled'' \<noteq> JBool True then None
            else nonempty (case jget anchoring ''chainId'' of JStr s \<Rightarrow> Some s | _ \<Rightarrow> fallbackChain))
         else if jget settings ''governanceModel'' = JStr ''on-chain'' then nonempty fallbackChain
         else None)"

record receipt =
  rc_chainId :: string
  rc_anchoredCid :: string
  rc_transactionHash :: "string option"
  rc_timestamp :: "jnum option"

definition readReceipt :: "jv \<Rightarrow> string \<Rightarrow> receipt option" where
  "readReceipt value chainId =
     (if \<not> truthy value \<or> \<not> typeof_object value then None
      else (case jget value ''anchoredCid'' of
          JStr c \<Rightarrow>
            if c = [] then None
            else Some \<lparr>rc_chainId = (case jget value ''chainId'' of JStr s \<Rightarrow> s | _ \<Rightarrow> chainId),
                       rc_anchoredCid = c,
                       rc_transactionHash = str_or_none (jget value ''transactionHash''),
                       rc_timestamp = (case jget value ''timestamp'' of JNum n \<Rightarrow> Some n | _ \<Rightarrow> None)\<rparr>
        | _ \<Rightarrow> None))"

record anchor_target =
  at_communityDid :: string
  at_proposalRkey :: "string option"
  at_decisionUri :: string
  at_decisionCid :: string

definition target_meta :: "anchor_target \<Rightarrow> string \<Rightarrow> (string \<times> jv) list" where
  "target_meta target chainId =
     opt_str ''rkey'' (at_proposalRkey target)
     @ [(''decisionUri'', JStr (at_decisionUri target)), (''decisionCid'', JStr (at_decisionCid target)),
        (''chainId'', JStr chainId)]"

definition receipt_meta :: "receipt \<Rightarrow> (string \<times> jv) list" where
  "receipt_meta r =
     [(''chainId'', JStr (rc_chainId r)), (''anchoredCid'', JStr (rc_anchoredCid r))]
     @ opt_str ''transactionHash'' (rc_transactionHash r)
     @ (case rc_timestamp r of None \<Rightarrow> [] | Some n \<Rightarrow> [(''timestamp'', JNum n)])"

definition anchor_failed :: "env \<Rightarrow> anchor_target \<Rightarrow> string \<Rightarrow> string \<Rightarrow> receipt option io" where
  "anchor_failed env target chainId reason =
     seqM (auditLog env ''community.proposal.decision.anchorFailed'' None (Some (at_communityDid target))
             (JObj (target_meta target chainId @ [(''reason'', JStr reason)])))
       (ret None)"

definition attempt :: "env \<Rightarrow> anchor_target \<Rightarrow> string \<Rightarrow> receipt option io" where
  "attempt env target chainId = (case e_anchor env chainId of
      None \<Rightarrow> ret None
    | Some anchor \<Rightarrow> (\<lambda>s.
        (case anchor (w_ops s) (at_decisionCid target) of
           Inl e \<Rightarrow> anchor_failed env target chainId (exn_message e)
         | Inr raw \<Rightarrow>
           (case readReceipt raw chainId of
              None \<Rightarrow> anchor_failed env target chainId
                        ''attestor returned no usable receipt (missing anchoredCid)''
            | Some r \<Rightarrow>
                seqM (auditLog env ''community.proposal.decision.anchored'' None (Some (at_communityDid target))
                        (jassign (JObj (target_meta target chainId)) (receipt_meta r)))
                  (ret (Some r)))) s))"

definition anchorDecision :: "env \<Rightarrow> string \<Rightarrow> string \<Rightarrow> decision_ref \<Rightarrow> jv \<Rightarrow> receipt option io" where
  "anchorDecision env communityDid proposalRkey decision settings = (case anchoringConfig settings of
      None \<Rightarrow> ret None
    | Some chainId \<Rightarrow> attempt env
        \<lparr>at_communityDid = communityDid, at_proposalRkey = Some proposalRkey,
         at_decisionUri = dr_uri decision, at_decisionCid = dr_cid decision\<rparr> chainId)"

subsection \<open>Retrying\<close>

definition audit_metas :: "world \<Rightarrow> string \<Rightarrow> string \<Rightarrow> jv list" where
  "audit_metas s action communityDid =
     map au_meta (filter (\<lambda>a. au_action a = action \<and> au_target a = Some communityDid) (w_audit s))"

definition failed_metas :: "world \<Rightarrow> string \<Rightarrow> jv list" where
  "failed_metas s communityDid =
     take RETRY_SCAN (rev (audit_metas s ''community.proposal.decision.anchorFailed'' communityDid))"

definition meta_cid :: "jv \<Rightarrow> string option" where
  "meta_cid meta = (case jget meta ''decisionCid'' of JStr c \<Rightarrow> if c = [] then None else Some c | _ \<Rightarrow> None)"

definition candidate_cids :: "jv list \<Rightarrow> string list" where
  "candidate_cids metas = List.map_filter meta_cid metas"

definition anchored_cids :: "env \<Rightarrow> world \<Rightarrow> string \<Rightarrow> string list \<Rightarrow> string list" where
  "anchored_cids env s communityDid candidates =
     filter (\<lambda>c. c \<in> set candidates \<and> c \<noteq> [])
       (List.map_filter (\<lambda>m. json_text (e_text env) (jget m ''decisionCid''))
          (audit_metas s ''community.proposal.decision.anchored'' communityDid))"

text \<open>The loop over the failures, newest first; it stops once the batch is full.\<close>

fun pending_targets :: "string \<Rightarrow> string list \<Rightarrow> nat \<Rightarrow> string list \<Rightarrow> jv list \<Rightarrow> anchor_target list" where
  "pending_targets communityDid done' limit seen [] = []"
| "pending_targets communityDid done' limit seen (meta # metas) =
     (case (meta_cid meta, jget meta ''decisionUri'') of
        (Some cid, JStr uri) \<Rightarrow>
          if uri = [] \<or> cid \<in> set done' \<or> cid \<in> set seen
          then pending_targets communityDid done' limit seen metas
          else (let t = \<lparr>at_communityDid = communityDid, at_proposalRkey = str_or_none (jget meta ''rkey''),
                         at_decisionUri = uri, at_decisionCid = cid\<rparr>
                in if limit \<le> 1 then [t]
                   else t # pending_targets communityDid done' (limit - 1) (cid # seen) metas)
      | _ \<Rightarrow> pending_targets communityDid done' limit seen metas)"

fun drain :: "env \<Rightarrow> string \<Rightarrow> int \<Rightarrow> nat \<Rightarrow> anchor_target list \<Rightarrow> nat io" where
  "drain env chainId deadline anchored [] = ret anchored"
| "drain env chainId deadline anchored (t # ts) =
     bindM (nowMs env) (\<lambda>now.
       if deadline \<le> now then ret anchored
       else bindM (attempt env t chainId) (\<lambda>r.
              if r = None then ret anchored else drain env chainId deadline (Suc anchored) ts))"

definition pending_anchors :: "env \<Rightarrow> string \<Rightarrow> nat \<Rightarrow> anchor_target list io" where
  "pending_anchors env communityDid limit =
     bindM (dbRead env (\<lambda>s. failed_metas s communityDid)) (\<lambda>failures.
       let candidates = candidate_cids failures
       in if candidates = [] then ret []
          else bindM (dbRead env (\<lambda>s. anchored_cids env s communityDid candidates)) (\<lambda>done'.
                 ret (pending_targets communityDid done' limit [] failures)))"

definition anchorPendingDecisions :: "env \<Rightarrow> string \<Rightarrow> jv \<Rightarrow> nat \<Rightarrow> nat io" where
  "anchorPendingDecisions env communityDid settings limit = (case anchoringConfig settings of
      None \<Rightarrow> ret 0
    | Some chainId \<Rightarrow>
        bindM (catchM (bindM (pending_anchors env communityDid limit) (\<lambda>ts. ret (Some ts))) (\<lambda>_. ret None))
          (\<lambda>pending. case pending of
             None \<Rightarrow> ret 0
           | Some [] \<Rightarrow> ret 0
           | Some ts \<Rightarrow> bindM (nowMs env) (\<lambda>start.
               drain env chainId (start + e_anchor_timeout env) 0 (rev ts))))"

end
