(* ===== verification/Proposals.thy ===== *)
theory Proposals
  imports Anchoring
begin

text \<open>
  The proposal endpoints under \<^verbatim>\<open>src/api/\<close>: \<open>createProposal\<close>, \<open>amendProposal\<close>,
  \<open>objectToProposal\<close>, \<open>getProposal\<close>, and the delegation endpoints. Voting is in
  \<open>Voting\<close>. Parameters of a request body that the lexicon types as strings are strings,
  empty when absent: the router refuses a body that does not match the lexicon.
\<close>

definition DEFAULT_TTL_DAYS :: nat where "DEFAULT_TTL_DAYS = 7"
definition DELEGATION_COLLECTION :: string where
  "DELEGATION_COLLECTION = ''net.openfederation.community.delegation''"
definition MAX_REASON_LENGTH :: nat where "MAX_REASON_LENGTH = 2000"

definition body_str :: "request \<Rightarrow> string \<Rightarrow> string" where
  "body_str req k = (case jget (q_body req) k of JStr s \<Rightarrow> s | _ \<Rightarrow> [])"

text \<open>\<open>authM\<close>: \<open>if (!requireAuth(req, res)) return;\<close>\<close>

definition authM :: "request \<Rightarrow> (auth \<Rightarrow> reply io) \<Rightarrow> reply io" where
  "authM req k = (case requireAuth req of Inl r \<Rightarrow> ret r | Inr a \<Rightarrow> k a)"

definition internal_error :: reply where
  "internal_error = err 500 ''InternalServerError''"

text \<open>The \<open>try { ... } catch { res.status(500) }\<close> around every handler.\<close>

definition handler :: "reply io \<Rightarrow> reply io" where
  "handler m = catchM m (\<lambda>_. ret internal_error)"

subsection \<open>Creating a proposal\<close>

text \<open>\<open>new Date(start + days * 24 * 60 * 60 * 1000).toISOString()\<close>\<close>

fun num_days_after :: "int \<Rightarrow> jnum \<Rightarrow> jnum" where
  "num_days_after start (Fin d) = Fin (of_int start + d * 24 * 60 * 60 * 1000)"
| "num_days_after start n = n"

definition expires_at :: "int \<Rightarrow> jv \<Rightarrow> exn + string" where
  "expires_at start ttlDays = num_to_iso (num_days_after start (to_number ttlDays))"

definition ttl_days :: "jv \<Rightarrow> jv" where
  "ttl_days settings =
     js_or (jget (governance_config settings) ''proposalTtlDays'') (jnat DEFAULT_TTL_DAYS)"

definition new_proposal ::
  "string \<Rightarrow> string \<Rightarrow> string \<Rightarrow> jv \<Rightarrow> string \<Rightarrow> bool \<Rightarrow> string \<Rightarrow> string \<Rightarrow> jv" where
  "new_proposal targetCollection targetRkey action proposedRecord proposer seedVote createdAt expiresAt = JObj
     ([(''targetCollection'', JStr targetCollection), (''targetRkey'', JStr targetRkey), (''action'', JStr action)]
      @ opt_field (truthy proposedRecord) ''proposedRecord'' proposedRecord
      @ [(''proposedBy'', JStr proposer), (''status'', JStr ''open''),
         (''votesFor'', JArr (if seedVote then [JStr proposer] else [])), (''votesAgainst'', JArr []),
         (''createdAt'', JStr createdAt), (''expiresAt'', JStr expiresAt), (''resolvedAt'', JNull),
         (''evidenceModel'', JStr EVIDENCE_MODEL_VOTE_RECORDS), (''cidChain'', JArr [])])"

definition create_meta ::
  "string \<Rightarrow> string \<Rightarrow> string \<Rightarrow> string \<Rightarrow> bool \<Rightarrow> vote_result option \<Rightarrow> jv" where
  "create_meta rkey targetCollection action cid seedVote vote = JObj
     ([(''rkey'', JStr rkey), (''targetCollection'', JStr targetCollection), (''action'', JStr action),
       (''proposalCid'', JStr cid), (''evidenceModel'', JStr EVIDENCE_MODEL_VOTE_RECORDS),
       (''seedVote'', JBool seedVote)]
      @ (case vote of None \<Rightarrow> []
         | Some v \<Rightarrow> [(''proposerVoteUri'', JStr (vr_uri v)), (''proposerVoteCid'', JStr (vr_cid v))]))"

definition write_new_proposal ::
  "env \<Rightarrow> auth \<Rightarrow> string \<Rightarrow> string \<Rightarrow> string \<Rightarrow> string \<Rightarrow> jv \<Rightarrow> jv \<Rightarrow> reply io" where
  "write_new_proposal env a communityDid targetCollection targetRkey action proposedRecord settings =
     bindM (nowMs env) (\<lambda>now.
     seqM (getKeypairForDid env communityDid)
    (bindM (generateTid env) (\<lambda>rkey.
     bindM (catchM (bindM (canRecordVote env (a_did a)) (\<lambda>b. ret (Some b))) (\<lambda>_. ret None)) (\<lambda>seed.
       case seed of
         None \<Rightarrow> ret internal_error
       | Some seedVote \<Rightarrow>
         bindM (liftE (expires_at now (ttl_days settings))) (\<lambda>expiresAt.
         bindM (putRecord env communityDid PROPOSAL_COLLECTION rkey
                  (new_proposal targetCollection targetRkey action proposedRecord (a_did a) seedVote
                     (iso now) expiresAt)) (\<lambda>(cid, uri).
         bindM (if seedVote then writeVoteRecord env
                     \<lparr>vi_voterDid = a_did a, vi_communityDid = communityDid, vi_proposalRkey = rkey,
                      vi_proposalCid = cid, vi_vote = For, vi_castBy = None, vi_delegation = None\<rparr>
                else ret None) (\<lambda>proposerVote.
         seqM (auditLog env ''community.proposal.create'' (Some (a_userId a)) (Some communityDid)
                 (create_meta rkey targetCollection action cid seedVote proposerVote))
          (ret (ok [(''uri'', JStr uri), (''cid'', JStr cid), (''rkey'', JStr rkey)])))))))))"

definition createProposal :: "env \<Rightarrow> request \<Rightarrow> reply io" where
  "createProposal env req = handler (authM req (\<lambda>a.
     let communityDid = body_str req ''communityDid''; targetCollection = body_str req ''targetCollection'';
         targetRkey = body_str req ''targetRkey''; action = body_str req ''action'';
         proposed = jget (q_body req) ''proposedRecord'';
         is_settings = (targetCollection = SETTINGS_COLLECTION \<and> action = ''write'');
         checked = (if is_settings then checkGovernanceSettings proposed True else (None, proposed))
     in if communityDid = [] \<or> targetCollection = [] \<or> targetRkey = [] \<or> action = []
          then ret (err 400 ''InvalidRequest'')
        else if action \<noteq> ''write'' \<and> action \<noteq> ''delete'' then ret (err 400 ''InvalidRequest'')
        else if action = ''write'' \<and> (\<not> truthy proposed \<or> \<not> typeof_object proposed)
          then ret (err 400 ''InvalidRequest'')
        else if fst checked \<noteq> None then ret (err 400 ''InvalidRequest'')
        else bindM (communitySettingsRecord env communityDid) (\<lambda>settings.
          if \<not> truthy settings \<or> (jget settings ''governanceModel'' \<noteq> JStr ''simple-majority''
               \<and> jget settings ''governanceModel'' \<noteq> JStr ''on-chain'')
          then ret (err 400 ''GovernanceNotActive'')
          else guardM (requireCommunityPermission env a communityDid ''community.governance.write'') (\<lambda>_.
            write_new_proposal env a communityDid targetCollection targetRkey action (snd checked) settings))))"

subsection \<open>Amending a proposal\<close>

definition amendment_of :: "string \<Rightarrow> jv \<Rightarrow> string \<Rightarrow> jv \<Rightarrow> jv" where
  "amendment_of did proposal amendedAt reason = JObj
     ([(''amendedBy'', JStr did), (''previousRecord'', jget proposal ''proposedRecord''),
       (''amendedAt'', JStr amendedAt)] @ opt_field (truthy reason) ''reason'' reason)"

definition amended_proposal :: "jv \<Rightarrow> jv \<Rightarrow> string \<Rightarrow> jv list \<Rightarrow> jv" where
  "amended_proposal proposal proposedRecord expiresAt amendments = jassign proposal
     [(''proposedRecord'', proposedRecord), (''votesFor'', JArr []), (''votesAgainst'', JArr []),
      (''expiresAt'', JStr expiresAt), (''amendments'', JArr amendments)]"

definition write_amendment ::
  "env \<Rightarrow> auth \<Rightarrow> string \<Rightarrow> string \<Rightarrow> jv \<Rightarrow> jv \<Rightarrow> jv \<Rightarrow> reply io" where
  "write_amendment env a communityDid proposalRkey proposal proposedRecord reason =
     bindM (communitySettingsRecord env communityDid) (\<lambda>settings.
     bindM (nowIso env) (\<lambda>amendedAt.
     bindM (nowMs env) (\<lambda>now.
     bindM (liftE (expires_at now (ttl_days settings))) (\<lambda>expiresAt.
     bindM (liftE (js_spread (js_or (jget proposal ''amendments'') (JArr [])))) (\<lambda>previous.
       let amendments = previous @ [amendment_of (a_did a) proposal amendedAt reason]
       in seqM (getKeypairForDid env communityDid)
         (bindM (putProposalRecord env communityDid proposalRkey
                   (amended_proposal proposal proposedRecord expiresAt amendments)) (\<lambda>(cid, uri).
          seqM (auditLog env ''community.proposal.amend'' (Some (a_userId a)) (Some communityDid)
                  (JObj [(''rkey'', JStr proposalRkey), (''amendmentCount'', jnat (length amendments))]))
           (ret (ok [(''uri'', JStr uri), (''cid'', JStr cid),
                     (''amendmentCount'', jnat (length amendments))])))))))))"

definition amendProposal :: "env \<Rightarrow> request \<Rightarrow> reply io" where
  "amendProposal env req = handler (authM req (\<lambda>a.
     let communityDid = body_str req ''communityDid''; proposalRkey = body_str req ''proposalRkey'';
         proposed = jget (q_body req) ''proposedRecord''; reason = jget (q_body req) ''reason''
     in if communityDid = [] \<or> proposalRkey = [] \<or> \<not> truthy proposed then ret (err 400 ''InvalidRequest'')
        else if \<not> is_obj proposed then ret (err 400 ''InvalidRequest'')
        else guardM (requireCommunityPermission env a communityDid ''community.governance.write'') (\<lambda>_.
          bindM (dbRead env (\<lambda>s. proposal_at s communityDid proposalRkey)) (\<lambda>row. case row of
            None \<Rightarrow> ret (err 404 ''ProposalNotFound'')
          | Some (_, proposal) \<Rightarrow>
            if jget proposal ''status'' \<noteq> JStr ''open'' then ret (err 400 ''ProposalClosed'')
            else write_amendment env a communityDid proposalRkey proposal proposed reason))))"

subsection \<open>Objecting to an application\<close>

definition already_objected :: "counted_objection list \<Rightarrow> jv \<Rightarrow> string \<Rightarrow> exn + bool" where
  "already_objected standing proposal objectorDid =
     (if objectorDid \<in> set (map co_objector standing) then Inr True
      else (case js_nullish (jget proposal ''objections'') (JArr []) of
          JArr os \<Rightarrow> Inr (JStr objectorDid \<in> set (map (\<lambda>v. jget v ''objector'') os))
        | _ \<Rightarrow> Inl (TypeError ''some is not a function'')))"

definition objection_meta ::
  "string \<Rightarrow> string \<Rightarrow> objection_result \<Rightarrow> jv \<Rightarrow> string \<Rightarrow> int \<Rightarrow> nat \<Rightarrow> jv option \<Rightarrow> jv" where
  "objection_meta proposalRkey objectorDid obj decision applyAt threshold count held = JObj
     ([(''rkey'', JStr proposalRkey), (''objector'', JStr objectorDid), (''objectionUri'', JStr (or_uri obj)),
       (''objectionCid'', JStr (or_cid obj)), (''decisionUri'', jget decision ''uri''),
       (''decisionCid'', jget decision ''cid''), (''applyAt'', JStr applyAt),
       (''objectionThreshold'', jint threshold), (''objectionCount'', jnat count),
       (''held'', JBool (held \<noteq> None))]
      @ (case held of None \<Rightarrow> [] | Some h \<Rightarrow> [(''status'', jget h ''status'')]))"

definition objection_reply ::
  "jv \<Rightarrow> objection_result \<Rightarrow> int \<Rightarrow> nat \<Rightarrow> jv option \<Rightarrow> reply" where
  "objection_reply proposal obj threshold count held = ok
     ([(''recorded'', JBool True),
       (''status'', (case held of None \<Rightarrow> jget proposal ''status'' | Some h \<Rightarrow> jget h ''status'')),
       (''objectionCount'', jnat count), (''objectionThreshold'', jint threshold),
       (''objection'', JObj [(''uri'', JStr (or_uri obj)), (''cid'', JStr (or_cid obj)), (''rkey'', JStr (or_rkey obj))])]
      @ (case held of None \<Rightarrow> []
         | Some h \<Rightarrow> if jget h ''status'' = JStr OVERRIDE_STATUS
             then [(''overrideQuorum'', jget h ''overrideQuorum''),
                   (''overrideExpiresAt'', jget h ''overrideExpiresAt'')] else []))"

text \<open>Opening the hold, when the objections reach the threshold.\<close>

definition hold_if_reached ::
  "env \<Rightarrow> auth \<Rightarrow> string \<Rightarrow> string \<Rightarrow> jv \<Rightarrow> jv \<Rightarrow> counted_objection list \<Rightarrow> jv option io" where
  "hold_if_reached env a communityDid proposalRkey proposal settings objections =
     (if int (length objections) < objectionThreshold settings then ret None
      else seqM (getKeypairForDid env communityDid)
          (bindM (nowIso env) (\<lambda>heldAt.
           bindM (heldProposalState env communityDid proposal settings objections heldAt) (\<lambda>held.
           bindM (putProposalRecord env communityDid proposalRkey held) (\<lambda>_.
           seqM (if jget held ''status'' = JStr OVERRIDE_STATUS
                 then auditLog env ''community.proposal.overrideOpened'' (Some (a_userId a)) (Some communityDid)
                        (JObj [(''rkey'', JStr proposalRkey), (''overrideQuorum'', jget held ''overrideQuorum''),
                               (''overrideExpiresAt'', jget held ''overrideExpiresAt''),
                               (''overrideElectorate'', jget held ''overrideElectorate''),
                               (''objectionCount'', jnat (length objections))])
                 else ret ())
            (ret (Some held)))))))"

definition register_objection ::
  "env \<Rightarrow> auth \<Rightarrow> string \<Rightarrow> string \<Rightarrow> string \<Rightarrow> string \<Rightarrow> jv \<Rightarrow> objection_result \<Rightarrow> reply io" where
  "register_objection env a communityDid proposalRkey proposalCid applyAt proposal obj =
     bindM (countableObjections env communityDid proposalRkey proposal) (\<lambda>objections.
     bindM (communitySettingsRecord env communityDid) (\<lambda>settings.
     bindM (hold_if_reached env a communityDid proposalRkey proposal settings objections) (\<lambda>held.
       let threshold = objectionThreshold settings
       in seqM (auditLog env ''community.proposal.objection'' (Some (a_userId a)) (Some communityDid)
                  (objection_meta proposalRkey (a_did a) obj (jget proposal ''decision'') applyAt threshold
                     (length objections) held))
            (ret (objection_reply proposal obj threshold (length objections) held)))))"

definition objectLocked :: "env \<Rightarrow> auth \<Rightarrow> string \<Rightarrow> string \<Rightarrow> jv \<Rightarrow> reply io" where
  "objectLocked env a communityDid proposalRkey reason =
     bindM (dbRead env (\<lambda>s. proposal_at s communityDid proposalRkey)) (\<lambda>row. case row of
       None \<Rightarrow> ret (err 404 ''ProposalNotFound'')
     | Some (proposalCid, proposal) \<Rightarrow>
       (let status = jget proposal ''status''; decision = jget proposal ''decision''
        in if status = JStr OBJECTED_STATUS \<or> status = JStr OVERRIDE_STATUS
             then ret (err 400 ''ObjectionWindowClosed'')
           else if status \<noteq> JStr PENDING_STATUS then ret (err 400 ''ProposalNotPending'')
           else (case jget proposal ''applyAt'' of
               JStr applyAt \<Rightarrow>
                 if applyAt = [] \<or> \<not> truthy (jget decision ''uri'') \<or> \<not> truthy (jget decision ''cid'')
                   then ret (err 400 ''ProposalNotPending'')
                 else bindM (nowIso env) (\<lambda>now.
                   if applyAt \<le> now then ret (err 400 ''ObjectionWindowClosed'')
                   else bindM (countableObjections env communityDid proposalRkey proposal) (\<lambda>standing.
                     bindM (liftE (already_objected standing proposal (a_did a))) (\<lambda>already.
                       if already then ret (err 409 ''AlreadyObjected'')
                       else bindM (catchM (bindM (canRecordObjection env (a_did a)) (\<lambda>b. ret (Some b)))
                                      (\<lambda>_. ret None)) (\<lambda>can. case can of
                           None \<Rightarrow> ret internal_error
                         | Some False \<Rightarrow> ret (err 400 ''ObjectionNotRecordable'')
                         | Some True \<Rightarrow>
                           bindM (catchM (bindM (writeObjectionRecord env
                                    \<lparr>oi_objectorDid = a_did a, oi_communityDid = communityDid,
                                     oi_proposalRkey = proposalRkey, oi_proposalCid = proposalCid,
                                     oi_decision = JObj [(''uri'', jget decision ''uri''), (''cid'', jget decision ''cid'')],
                                     oi_reason = str_or_none reason\<rparr>) (\<lambda>r. ret (Some r)))
                                  (\<lambda>_. ret None)) (\<lambda>written. case written of
                               None \<Rightarrow> ret internal_error
                             | Some obj \<Rightarrow>
                                 register_objection env a communityDid proposalRkey proposalCid applyAt
                                   proposal obj)))))
             | _ \<Rightarrow> ret (err 400 ''ProposalNotPending''))))"

definition bad_reason :: "jv \<Rightarrow> bool" where
  "bad_reason reason = (case reason of
      JUndef \<Rightarrow> False | JStr s \<Rightarrow> MAX_REASON_LENGTH < length s | _ \<Rightarrow> True)"

definition objectToProposal :: "env \<Rightarrow> request \<Rightarrow> reply io" where
  "objectToProposal env req = handler (authM req (\<lambda>a.
     let communityDid = body_str req ''communityDid''; proposalRkey = body_str req ''proposalRkey'';
         reason = jget (q_body req) ''reason''
     in if communityDid = [] \<or> proposalRkey = [] then ret (err 400 ''InvalidRequest'')
        else if bad_reason reason then ret (err 400 ''InvalidRequest'')
        else guardM (requireCommunityPermission env a communityDid ''community.governance.write'') (\<lambda>_.
          bindM (applyDueProposals env communityDid) (\<lambda>_.
          bindM (closeExpiredOverrides env communityDid) (\<lambda>_.
            withAdvisoryLock env (proposalLockKey communityDid proposalRkey)
              (objectLocked env a communityDid proposalRkey reason))))))"

subsection \<open>Reading a proposal\<close>

definition pendingObjectionStatus :: "env \<Rightarrow> string \<Rightarrow> string \<Rightarrow> jv \<Rightarrow> (string \<times> jv) list io" where
  "pendingObjectionStatus env communityDid proposalRkey proposal =
     catchM
       (bindM (countableObjections env communityDid proposalRkey proposal) (\<lambda>objections.
          if objections = [] then ret []
          else bindM (communitySettingsRecord env communityDid) (\<lambda>settings.
                 ret [(''objectionCount'', jnat (length objections)),
                      (''objectionThreshold'', jint (objectionThreshold settings))])))
       (\<lambda>_. ret [])"

text \<open>The parameters come from the query string.\<close>

definition getProposal :: "env \<Rightarrow> request \<Rightarrow> string \<Rightarrow> string \<Rightarrow> reply io" where
  "getProposal env req communityDid rkey = handler
     (if communityDid = [] \<or> rkey = [] then ret (err 400 ''InvalidRequest'')
      else guardM (requireCommunityReadable env req communityDid) (\<lambda>_.
        bindM (applyIfDueSafely env communityDid rkey None) (\<lambda>_.
        bindM (closeExpiredOverrideSafely env communityDid rkey None) (\<lambda>_.
        bindM (dbRead env (\<lambda>s. proposal_at s communityDid rkey)) (\<lambda>row. case row of
          None \<Rightarrow> ret (err 404 ''ProposalNotFound'')
        | Some (_, record') \<Rightarrow>
            bindM (pendingObjectionStatus env communityDid rkey record') (\<lambda>objections.
              ret (Reply 200 (jassign (JObj [(''uri'', JStr (proposalUri communityDid rkey)), (''rkey'', JStr rkey)])
                     (entries record' @ objections))))))))) "

subsection \<open>Delegations\<close>

definition delegation_of :: "env \<Rightarrow> world \<Rightarrow> string \<Rightarrow> string \<Rightarrow> string option" where
  "delegation_of env s communityDid did =
     (case filter (\<lambda>(_, _, rec). json_text (e_text env) (jget rec ''delegatorDid'') = Some did)
             (coll_rows s communityDid DELEGATION_COLLECTION) of
        [] \<Rightarrow> None | (rkey, _) # _ \<Rightarrow> Some rkey)"

definition setDelegation :: "env \<Rightarrow> request \<Rightarrow> reply io" where
  "setDelegation env req = handler (authM req (\<lambda>a.
     let communityDid = body_str req ''communityDid''; delegateDid = body_str req ''delegateDid''
     in if communityDid = [] \<or> delegateDid = [] then ret (err 400 ''InvalidRequest'')
        else if delegateDid = a_did a then ret (err 400 ''InvalidRequest'')
        else guardM (requireCommunityPermission env a communityDid ''community.governance.write'') (\<lambda>_.
          bindM (dbRead env (\<lambda>s. map_of (w_members s) (communityDid, delegateDid) \<noteq> None)) (\<lambda>member.
            if \<not> member then ret (err 404 ''NotMember'')
            else
              bindM (dbRead env (\<lambda>s. delegation_of env s communityDid (a_did a))) (\<lambda>existing.
              seqM (getKeypairForDid env communityDid)
             (seqM (case existing of None \<Rightarrow> ret ()
                    | Some rkey \<Rightarrow> deleteRecord env communityDid DELEGATION_COLLECTION rkey)
             (bindM (generateTid env) (\<lambda>rkey.
              bindM (nowIso env) (\<lambda>now.
              bindM (putRecord env communityDid DELEGATION_COLLECTION rkey
                      (JObj [(''delegatorDid'', JStr (a_did a)), (''delegateDid'', JStr delegateDid),
                             (''createdAt'', JStr now)])) (\<lambda>(cid, uri).
              seqM (auditLog env ''community.delegation.set'' (Some (a_userId a)) (Some communityDid)
                      (JObj [(''delegateDid'', JStr delegateDid)]))
               (ret (ok [(''uri'', JStr uri), (''cid'', JStr cid), (''rkey'', JStr rkey)])))))))))))) "

definition revokeDelegation :: "env \<Rightarrow> request \<Rightarrow> reply io" where
  "revokeDelegation env req = handler (authM req (\<lambda>a.
     let communityDid = body_str req ''communityDid''
     in if communityDid = [] then ret (err 400 ''InvalidRequest'')
        else bindM (dbRead env (\<lambda>s. delegation_of env s communityDid (a_did a))) (\<lambda>existing. case existing of
            None \<Rightarrow> ret (err 404 ''NotFound'')
          | Some rkey \<Rightarrow>
              seqM (getKeypairForDid env communityDid)
             (seqM (deleteRecord env communityDid DELEGATION_COLLECTION rkey)
             (seqM (auditLog env ''community.delegation.revoke'' (Some (a_userId a)) (Some communityDid) (JObj []))
              (ret (ok [(''success'', JBool True)])))))))"

end
