(* ===== verification/Lexicon.thy ===== *)
theory Lexicon
  imports Proposals
begin

text \<open>
  The lexicon checks of \<^verbatim>\<open>src/lexicon/runtime.ts\<close>: every request body, query and successful
  response is validated against the schema of its method before a handler sees it or a client
  does. Valid values are characterised by the relation \<open>conforms\<close>, which the check decides.

  The lexicon documents (\<^verbatim>\<open>src/lexicon/*.json\<close>) and the table of declared errors generated
  from them are data: the parameter \<open>lexicons\<close>. Validation recurs along references between
  definitions, which may be cyclic, so it takes the depth of the call stack; exhausting it is
  the \<open>RangeError\<close> the engine throws.
\<close>

record lexicons =
  lx_docs :: "string \<Rightarrow> jv option"
  lx_contracts :: "string \<Rightarrow> string list option"

datatype lex_result = Valid | Invalid string

subsection \<open>Schemas and references\<close>

definition unknown_schema :: jv where
  "unknown_schema = JObj [(''type'', JStr ''unknown'')]"

definition isLexiconSchema :: "jv \<Rightarrow> bool" where
  "isLexiconSchema v \<longleftrightarrow> is_obj v \<and> (is_str (jget v ''type'') \<or> is_str (jget v ''ref''))"

definition resolveSchema :: "jv \<Rightarrow> jv \<Rightarrow> jv" where
  "resolveSchema doc schema =
     (if jget schema ''type'' \<noteq> JStr ''ref'' then schema
      else (case jget schema ''ref'' of
          JStr r \<Rightarrow>
            if take 1 r \<noteq> ''#'' then unknown_schema
            else (let resolved = jget (jget doc ''defs'') (tl r)
                  in if isLexiconSchema resolved then resolved else unknown_schema)
        | _ \<Rightarrow> schema))"

subsection \<open>Validation\<close>

fun nat_text :: "nat \<Rightarrow> string" where
  "nat_text n = (if n < 10 then [digit_char n] else nat_text (n div 10) @ [digit_char (n mod 10)])"

declare nat_text.simps [simp del]

text \<open>The message ends with the bound itself, which the model leaves out.\<close>

definition validateNumberBounds :: "jv \<Rightarrow> jnum \<Rightarrow> string \<Rightarrow> lex_result" where
  "validateNumberBounds schema value path =
     (case jget schema ''minimum'' of
        JNum lo \<Rightarrow> if num_lt value lo then Invalid (path @ '' must be >='')
          else (case jget schema ''maximum'' of
                  JNum hi \<Rightarrow> if num_lt hi value then Invalid (path @ '' must be <='') else Valid
                | _ \<Rightarrow> Valid)
      | _ \<Rightarrow> (case jget schema ''maximum'' of
                JNum hi \<Rightarrow> if num_lt hi value then Invalid (path @ '' must be <='') else Valid
              | _ \<Rightarrow> Valid))"

text \<open>\<open>/^-?\d+$/.test(s)\<close>\<close>

definition integer_text :: "string \<Rightarrow> bool" where
  "integer_text s = (let ds = (case s of CHR ''-'' # r \<Rightarrow> r | _ \<Rightarrow> s) in ds \<noteq> [] \<and> list_all is_digit ds)"

text \<open>The checks on a value of a scalar type; any other type name accepts everything.\<close>

definition scalar_check :: "jv \<Rightarrow> jv \<Rightarrow> jv \<Rightarrow> string \<Rightarrow> bool \<Rightarrow> lex_result" where
  "scalar_check resolved ty value path strnum =
     (if ty = JStr ''string'' then (if is_str value then Valid else Invalid (path @ '' must be a string''))
      else if ty = JStr ''integer'' then
        (case value of
           JNum n \<Rightarrow> if is_integer value then validateNumberBounds resolved n path
                     else Invalid (path @ '' must be an integer'')
         | JStr s \<Rightarrow> if strnum \<and> integer_text s then validateNumberBounds resolved (string_number s) path
                     else Invalid (path @ '' must be an integer'')
         | _ \<Rightarrow> Invalid (path @ '' must be an integer''))
      else if ty = JStr ''boolean'' then
        (if is_bool value \<or> (strnum \<and> (value = JStr ''true'' \<or> value = JStr ''false'')) then Valid
         else Invalid (path @ '' must be a boolean''))
      else Valid)"

text \<open>The loops over fields and items: the first that is not valid ends the check.\<close>

fun first_invalid :: "('a \<Rightarrow> lex_result option) \<Rightarrow> 'a list \<Rightarrow> lex_result option" where
  "first_invalid f [] = Some Valid"
| "first_invalid f (x # xs) =
     (case f x of Some Valid \<Rightarrow> first_invalid f xs | Some (Invalid m) \<Rightarrow> Some (Invalid m) | None \<Rightarrow> None)"

definition required_fields :: "jv \<Rightarrow> string list" where
  "required_fields resolved = strings_of (arr_or_nil (jget resolved ''required''))"

definition schema_properties :: "jv \<Rightarrow> jv" where
  "schema_properties resolved = js_nullish (jget resolved ''properties'') (JObj [])"

definition item_schema :: "jv \<Rightarrow> jv" where
  "item_schema resolved = js_nullish (jget resolved ''items'') unknown_schema"

definition accepts_all :: "jv \<Rightarrow> bool" where
  "accepts_all ty \<longleftrightarrow> ty = JStr ''unknown'' \<or> \<not> truthy ty"

definition object_type :: "jv \<Rightarrow> bool" where
  "object_type ty \<longleftrightarrow> ty = JStr ''object'' \<or> ty = JStr ''params''"

fun validateAgainstSchema :: "nat \<Rightarrow> jv \<Rightarrow> jv \<Rightarrow> jv \<Rightarrow> string \<Rightarrow> bool \<Rightarrow> lex_result option" where
  "validateAgainstSchema 0 doc schema value path strnum = None"
| "validateAgainstSchema (Suc n) doc schema value path strnum =
     (let resolved = resolveSchema doc schema; ty = jget resolved ''type''
      in if accepts_all ty \<or> value = JNull then Some Valid
         else if ty = JStr ''ref'' then validateAgainstSchema n doc (resolveSchema doc resolved) value path strnum
         else if object_type ty then
           (case value of
              JObj ps \<Rightarrow>
                if \<not> has_keys (schema_properties resolved) then Some Valid
                else (case filter (\<lambda>f. nullish (jget value f)) (required_fields resolved) of
                    f # _ \<Rightarrow> Some (Invalid (path @ ''.'' @ f @ '' is required''))
                  | [] \<Rightarrow> first_invalid (\<lambda>(field, x).
                      if x = JUndef then Some Valid
                      else let fieldSchema = jget (schema_properties resolved) field
                           in if truthy fieldSchema
                              then validateAgainstSchema n doc fieldSchema x (path @ ''.'' @ field) strnum
                              else Some (Invalid (path @ ''.'' @ field @ '' is not declared by the lexicon''))) ps)
            | _ \<Rightarrow> Some (Invalid (path @ '' must be an object'')))
         else if ty = JStr ''array'' then
           (case value of
              JArr xs \<Rightarrow> first_invalid (\<lambda>(i, x).
                  validateAgainstSchema n doc (item_schema resolved) x (path @ ''['' @ nat_text i @ '']'') strnum)
                (enumerate 0 xs)
            | _ \<Rightarrow> Some (Invalid (path @ '' must be an array'')))
         else Some (scalar_check resolved ty value path strnum))"

declare validateAgainstSchema.simps(2) [simp del]

definition getMethodSchema :: "lexicons \<Rightarrow> string \<Rightarrow> jv option" where
  "getMethodSchema lx nsid = lx_docs lx nsid"

text \<open>The schema a method's input or output is checked against, when there is one.\<close>

definition input_schema :: "lexicons \<Rightarrow> string \<Rightarrow> (jv \<times> jv \<times> bool) option" where
  "input_schema lx nsid = (case getMethodSchema lx nsid of
      None \<Rightarrow> None
    | Some doc \<Rightarrow>
      (let main = jget (jget doc ''defs'') ''main'';
           is_query = (jget main ''type'' = JStr ''query'');
           schema = (if is_query then jget main ''parameters'' else jget (jget main ''input'') ''schema'')
       in if truthy main \<and> truthy schema then Some (doc, schema, is_query) else None))"

definition output_schema :: "lexicons \<Rightarrow> string \<Rightarrow> (jv \<times> jv) option" where
  "output_schema lx nsid = (case getMethodSchema lx nsid of
      None \<Rightarrow> None
    | Some doc \<Rightarrow>
      (let schema = jget (jget (jget (jget doc ''defs'') ''main'') ''output'') ''schema''
       in if truthy schema then Some (doc, schema) else None))"

definition validateXrpcInput :: "nat \<Rightarrow> lexicons \<Rightarrow> string \<Rightarrow> jv \<Rightarrow> lex_result option" where
  "validateXrpcInput stack lx nsid value = (case input_schema lx nsid of
      None \<Rightarrow> Some Valid
    | Some (doc, schema, strnum) \<Rightarrow> validateAgainstSchema stack doc schema value ''$'' strnum)"

definition validateXrpcOutput :: "nat \<Rightarrow> lexicons \<Rightarrow> string \<Rightarrow> jv \<Rightarrow> lex_result option" where
  "validateXrpcOutput stack lx nsid value = (case output_schema lx nsid of
      None \<Rightarrow> Some Valid
    | Some (doc, schema) \<Rightarrow> validateAgainstSchema stack doc schema value ''$'' False)"

subsection \<open>What a valid value is\<close>

text \<open>The same without paths, messages and stack: a relation between schemas and values.\<close>

definition within_bounds :: "jv \<Rightarrow> jnum \<Rightarrow> bool" where
  "within_bounds schema n \<longleftrightarrow>
     (\<forall>lo. jget schema ''minimum'' = JNum lo \<longrightarrow> \<not> num_lt n lo) \<and>
     (\<forall>hi. jget schema ''maximum'' = JNum hi \<longrightarrow> \<not> num_lt hi n)"

definition scalar_ok :: "jv \<Rightarrow> jv \<Rightarrow> jv \<Rightarrow> bool \<Rightarrow> bool" where
  "scalar_ok resolved ty value strnum \<longleftrightarrow>
     (ty = JStr ''string'' \<longrightarrow> is_str value) \<and>
     (ty = JStr ''integer'' \<longrightarrow>
        (\<exists>n. value = JNum n \<and> is_integer value \<and> within_bounds resolved n) \<or>
        (strnum \<and> (\<exists>s. value = JStr s \<and> integer_text s \<and> within_bounds resolved (string_number s)))) \<and>
     (ty = JStr ''boolean'' \<longrightarrow>
        is_bool value \<or> (strnum \<and> (value = JStr ''true'' \<or> value = JStr ''false'')))"

inductive conforms :: "jv \<Rightarrow> bool \<Rightarrow> jv \<Rightarrow> jv \<Rightarrow> bool" for doc strnum where
  conforms_any: "accepts_all (jget (resolveSchema doc schema) ''type'') \<or> value = JNull
    \<Longrightarrow> conforms doc strnum schema value"
| conforms_ref: "jget (resolveSchema doc schema) ''type'' = JStr ''ref''
    \<Longrightarrow> conforms doc strnum (resolveSchema doc (resolveSchema doc schema)) value
    \<Longrightarrow> conforms doc strnum schema value"
| conforms_open: "resolved = resolveSchema doc schema \<Longrightarrow> object_type (jget resolved ''type'')
    \<Longrightarrow> \<not> has_keys (schema_properties resolved) \<Longrightarrow> conforms doc strnum schema (JObj ps)"
| conforms_object: "resolved = resolveSchema doc schema \<Longrightarrow> object_type (jget resolved ''type'')
    \<Longrightarrow> (\<And>f. f \<in> set (required_fields resolved) \<Longrightarrow> \<not> nullish (jget (JObj ps) f))
    \<Longrightarrow> (\<And>field x. (field, x) \<in> set ps \<Longrightarrow> x \<noteq> JUndef
           \<Longrightarrow> truthy (jget (schema_properties resolved) field) \<and>
               conforms doc strnum (jget (schema_properties resolved) field) x)
    \<Longrightarrow> conforms doc strnum schema (JObj ps)"
| conforms_array: "resolved = resolveSchema doc schema \<Longrightarrow> jget resolved ''type'' = JStr ''array''
    \<Longrightarrow> (\<And>x. x \<in> set xs \<Longrightarrow> conforms doc strnum (item_schema resolved) x)
    \<Longrightarrow> conforms doc strnum schema (JArr xs)"
| conforms_scalar: "resolved = resolveSchema doc schema
    \<Longrightarrow> jget resolved ''type'' \<noteq> JStr ''ref'' \<Longrightarrow> \<not> object_type (jget resolved ''type'')
    \<Longrightarrow> jget resolved ''type'' \<noteq> JStr ''array''
    \<Longrightarrow> scalar_ok resolved (jget resolved ''type'') value strnum
    \<Longrightarrow> conforms doc strnum schema value"

lemma bounds_valid: "validateNumberBounds schema n path = Valid \<longleftrightarrow> within_bounds schema n"
  by (simp add: validateNumberBounds_def within_bounds_def split: jv.split)

lemma scalar_valid: "scalar_check resolved ty value path strnum = Valid \<longleftrightarrow> scalar_ok resolved ty value strnum"
  by (cases "value") (auto simp: scalar_check_def scalar_ok_def bounds_valid split: if_splits)

lemma first_invalid_valid: "first_invalid f xs = Some Valid \<longleftrightarrow> (\<forall>x \<in> set xs. f x = Some Valid)"
  by (induction xs) (auto split: option.splits lex_result.splits)

lemma first_invalid_defined: "(\<And>x. x \<in> set xs \<Longrightarrow> f x \<noteq> None) \<Longrightarrow> first_invalid f xs \<noteq> None"
  by (induction xs) (auto split: option.splits lex_result.splits)

lemma eventually_all_list:
  fixes P :: "'a \<Rightarrow> nat \<Rightarrow> bool"
  assumes "\<And>x. x \<in> set xs \<Longrightarrow> \<exists>n. \<forall>m \<ge> n. P x m"
  shows "\<exists>n. \<forall>x \<in> set xs. \<forall>m \<ge> n. P x m"
  using assms
proof (induction xs)
  case (Cons x xs)
  from Cons.prems [of x] obtain n where "\<forall>m \<ge> n. P x m" by auto
  moreover from Cons obtain k where "\<forall>x \<in> set xs. \<forall>m \<ge> k. P x m" by (meson list.set_intros(2))
  ultimately show ?case by (intro exI [of _ "max n k"]) auto
qed simp

lemma from_next_level:
  fixes P :: "nat \<Rightarrow> bool"
  assumes "\<And>m. n \<le> m \<Longrightarrow> P (Suc m)" shows "\<exists>n. \<forall>m \<ge> n. P m"
  using assms by (metis Suc_le_D Suc_le_mono)

lemma scalar_types:
  "object_type ty \<Longrightarrow> ty \<noteq> JStr ''ref''" "ty = JStr ''array'' \<Longrightarrow> \<not> object_type ty \<and> ty \<noteq> JStr ''ref''"
  "object_type ty \<Longrightarrow> \<not> accepts_all ty" "\<not> accepts_all (JStr ''ref'')" "\<not> accepts_all (JStr ''array'')"
  by (auto simp: object_type_def accepts_all_def)

text \<open>One level of the check, by the shape of the schema.\<close>

lemma validate_any:
  "accepts_all (jget (resolveSchema doc schema) ''type'') \<or> v = JNull
   \<Longrightarrow> validateAgainstSchema (Suc n) doc schema v path strnum = Some Valid"
  by (simp add: validateAgainstSchema.simps(2) Let_def)

lemma validate_ref:
  "jget (resolveSchema doc schema) ''type'' = JStr ''ref'' \<Longrightarrow> v \<noteq> JNull
   \<Longrightarrow> validateAgainstSchema (Suc n) doc schema v path strnum =
       validateAgainstSchema n doc (resolveSchema doc (resolveSchema doc schema)) v path strnum"
  by (simp add: validateAgainstSchema.simps(2) Let_def scalar_types)

lemma validate_object:
  assumes "object_type (jget (resolveSchema doc schema) ''type'')"
  shows "validateAgainstSchema (Suc n) doc schema (JObj ps) path strnum = Some Valid \<longleftrightarrow>
     \<not> has_keys (schema_properties (resolveSchema doc schema)) \<or>
     (\<forall>f \<in> set (required_fields (resolveSchema doc schema)). \<not> nullish (jget (JObj ps) f)) \<and>
     (\<forall>(field, x) \<in> set ps. x = JUndef \<or>
        truthy (jget (schema_properties (resolveSchema doc schema)) field) \<and>
        validateAgainstSchema n doc (jget (schema_properties (resolveSchema doc schema)) field) x
          (path @ ''.'' @ field) strnum = Some Valid)"
proof -
  let ?missing = "filter (\<lambda>f. nullish (jget (JObj ps) f)) (required_fields (resolveSchema doc schema))"
  have "?missing = [] \<longleftrightarrow> (\<forall>f \<in> set (required_fields (resolveSchema doc schema)). \<not> nullish (jget (JObj ps) f))"
    by (simp add: filter_empty_conv)
  moreover note assms scalar_types(1,3) [OF assms]
  moreover have fields: "(case p of (field, x) \<Rightarrow>
        if x = JUndef then Some Valid
        else let fieldSchema = jget sp field
             in if truthy fieldSchema then validateAgainstSchema n doc fieldSchema x (path @ ''.'' @ field) strnum
                else Some (Invalid (path @ ''.'' @ field @ '' is not declared by the lexicon''))) = Some Valid
      \<longleftrightarrow> (case p of (field, x) \<Rightarrow> x = JUndef \<or> truthy (jget sp field) \<and>
            validateAgainstSchema n doc (jget sp field) x (path @ ''.'' @ field) strnum = Some Valid)" for p sp
    by (cases p) (simp add: Let_def)
  ultimately show ?thesis
    by (cases ?missing)
      (simp_all add: validateAgainstSchema.simps(2) Let_def [of "resolveSchema doc schema"]
        Let_def [of "jget (resolveSchema doc schema) ''type''"] first_invalid_valid fields)
qed

lemma validate_array:
  assumes "jget (resolveSchema doc schema) ''type'' = JStr ''array''"
  shows "validateAgainstSchema (Suc n) doc schema (JArr xs) path strnum = Some Valid \<longleftrightarrow>
     (\<forall>(i, x) \<in> set (enumerate 0 xs). validateAgainstSchema n doc (item_schema (resolveSchema doc schema)) x
          (path @ ''['' @ nat_text i @ '']'') strnum = Some Valid)"
  using assms scalar_types(2) [OF assms] scalar_types(5)
  by (auto simp: validateAgainstSchema.simps(2) Let_def first_invalid_valid)

lemma validate_scalar:
  assumes "\<not> accepts_all (jget (resolveSchema doc schema) ''type'')" "v \<noteq> JNull"
    "jget (resolveSchema doc schema) ''type'' \<noteq> JStr ''ref''"
    "\<not> object_type (jget (resolveSchema doc schema) ''type'')"
    "jget (resolveSchema doc schema) ''type'' \<noteq> JStr ''array''"
  shows "validateAgainstSchema (Suc n) doc schema v path strnum = Some Valid \<longleftrightarrow>
     scalar_ok (resolveSchema doc schema) (jget (resolveSchema doc schema) ''type'') v strnum"
  using assms by (simp add: validateAgainstSchema.simps(2) Let_def scalar_valid)

lemma validate_misfit:
  assumes "validateAgainstSchema (Suc n) doc schema v path strnum = Some Valid"
    "\<not> accepts_all (jget (resolveSchema doc schema) ''type'')" "v \<noteq> JNull"
  shows "object_type (jget (resolveSchema doc schema) ''type'') \<Longrightarrow> \<exists>ps. v = JObj ps"
    and "jget (resolveSchema doc schema) ''type'' = JStr ''array'' \<Longrightarrow> \<exists>xs. v = JArr xs"
  using assms scalar_types(1,2) [of "jget (resolveSchema doc schema) ''type''"]
  by (cases v; auto simp: validateAgainstSchema.simps(2) Let_def)+

lemma conforms_of_valid:
  "validateAgainstSchema n doc schema v path strnum = Some Valid \<Longrightarrow> conforms doc strnum schema v"
proof (induction n arbitrary: schema v path)
  case (Suc n)
  let ?r = "resolveSchema doc schema"
  let ?ty = "jget ?r ''type''"
  show ?case
  proof (cases "accepts_all ?ty \<or> v = JNull")
    case False
    note misfit = validate_misfit [OF Suc.prems] 
    show ?thesis
    proof (cases "?ty = JStr ''ref''")
      case True
      with False Suc.prems show ?thesis by (auto simp: validate_ref intro: conforms_ref Suc.IH)
    next
      case noref: False
      show ?thesis
      proof (cases "object_type ?ty")
        case True
        with misfit False obtain ps where v: "v = JObj ps" by blast
        show ?thesis
        proof (cases "has_keys (schema_properties ?r)")
          case False
          then show ?thesis unfolding v by (rule conforms_open [OF refl True])
        next
          case keys: True
          have reqs: "\<forall>f \<in> set (required_fields ?r). \<not> nullish (jget (JObj ps) f)"
            and fields: "\<forall>(field, x) \<in> set ps. x = JUndef \<or> truthy (jget (schema_properties ?r) field) \<and>
              validateAgainstSchema n doc (jget (schema_properties ?r) field) x (path @ ''.'' @ field) strnum = Some Valid"
            using Suc.prems keys unfolding v validate_object [OF True] by blast+
          show ?thesis unfolding v
          proof (rule conforms_object [OF refl True])
            fix f assume "f \<in> set (required_fields ?r)"
            with reqs show "\<not> nullish (jget (JObj ps) f)" by blast
          next
            fix field x assume "(field, x) \<in> set ps" "x \<noteq> JUndef"
            with fields show "truthy (jget (schema_properties ?r) field) \<and>
                conforms doc strnum (jget (schema_properties ?r) field) x"
              by (auto dest: Suc.IH)
          qed
        qed
      next
        case noobj: False
        show ?thesis
        proof (cases "?ty = JStr ''array''")
          case True
          with misfit False obtain xs where v: "v = JArr xs" by blast
          have "conforms doc strnum (item_schema ?r) x" if "x \<in> set xs" for x
          proof -
            from that have "x \<in> snd ` set (enumerate 0 xs)" by (simp flip: set_map)
            then obtain i where "(i, x) \<in> set (enumerate 0 xs)" by auto
            with Suc.prems show ?thesis unfolding v validate_array [OF True] by (auto dest: Suc.IH)
          qed
          then show ?thesis unfolding v by (rule conforms_array [OF refl True])
        next
          case False
          with \<open>\<not> (accepts_all ?ty \<or> v = JNull)\<close> noref noobj Suc.prems show ?thesis
            by (auto simp: validate_scalar intro: conforms_scalar)
        qed
      qed
    qed
  qed (rule conforms_any)
qed simp


lemma conforms_valid:
  "conforms doc strnum schema v \<Longrightarrow>
   \<exists>n. \<forall>m \<ge> n. \<forall>path. validateAgainstSchema m doc schema v path strnum = Some Valid"
proof (induction rule: conforms.induct)
  case (conforms_any schema v)
  then show ?case by (intro from_next_level [of 0]) (simp add: validate_any)
next
  case (conforms_ref schema v)
  then obtain n where n: "\<forall>m \<ge> n. \<forall>path. validateAgainstSchema m doc
      (resolveSchema doc (resolveSchema doc schema)) v path strnum = Some Valid" by blast
  show ?case
  proof (rule from_next_level, intro allI)
    fix m path assume "n \<le> m"
    with n conforms_ref.hyps show "validateAgainstSchema (Suc m) doc schema v path strnum = Some Valid"
      by (cases "v = JNull") (simp_all add: validate_any validate_ref)
  qed
next
  case (conforms_open resolved schema ps)
  then show ?case
    by (intro from_next_level [of 0]) (simp add: validate_object)
next
  case (conforms_object resolved schema ps)
  define P where "P p m \<longleftrightarrow> (\<forall>path. snd p = JUndef \<or> validateAgainstSchema m doc
      (jget (schema_properties resolved) (fst p)) (snd p) path strnum = Some Valid)" for p m
  have "\<exists>n. \<forall>m \<ge> n. P p m" if "p \<in> set ps" for p
    using conforms_object.IH [of "fst p" "snd p"] that unfolding P_def by (cases "snd p = JUndef") auto
  then obtain n where n: "\<forall>p \<in> set ps. \<forall>m \<ge> n. P p m" using eventually_all_list [of ps P] by blast
  show ?case
  proof (rule from_next_level, intro allI)
    fix m path assume m: "n \<le> m"
    have "\<forall>(field, x) \<in> set ps. x = JUndef \<or> truthy (jget (schema_properties resolved) field) \<and>
        validateAgainstSchema m doc (jget (schema_properties resolved) field) x (path @ ''.'' @ field) strnum = Some Valid"
      using n m conforms_object.IH unfolding P_def by fastforce
    with conforms_object.hyps m show "validateAgainstSchema (Suc m) doc schema (JObj ps) path strnum = Some Valid"
      by (simp add: validate_object)
  qed
next
  case (conforms_array resolved schema xs)
  define P where "P x m \<longleftrightarrow>
      (\<forall>path. validateAgainstSchema m doc (item_schema resolved) x path strnum = Some Valid)" for x m
  obtain n where n: "\<forall>x \<in> set xs. \<forall>m \<ge> n. P x m"
    using eventually_all_list [of xs P] conforms_array.IH unfolding P_def by blast
  show ?case
  proof (rule from_next_level, intro allI)
    fix m path assume "n \<le> m"
    with conforms_array.hyps n show "validateAgainstSchema (Suc m) doc schema (JArr xs) path strnum = Some Valid"
      by (auto simp: validate_array in_set_enumerate_eq P_def)
  qed
next
  case (conforms_scalar resolved schema v)
  then show ?case
    by (intro from_next_level [of 0], cases "accepts_all (jget resolved ''type'') \<or> v = JNull")
      (simp_all add: validate_any validate_scalar)
qed

subsection \<open>Validation returns\<close>

text \<open>
  The stack a check needs: one frame per reference followed without consuming the value, and
  as many again per level of the value. It is bounded when no reference of the document leads
  back to itself.
\<close>

primrec subvalues :: "jv \<Rightarrow> jv list" where
  "subvalues JUndef = [JUndef]"
| "subvalues JNull = [JNull]"
| "subvalues (JBool b) = [JBool b]"
| "subvalues (JNum n) = [JNum n]"
| "subvalues (JStr s) = [JStr s]"
| "subvalues (JArr xs) = JArr xs # concat (map subvalues xs)"
| "subvalues (JObj ps) = JObj ps # concat (map snd (map (map_prod id subvalues) ps))"

primrec value_depth :: "jv \<Rightarrow> nat" where
  "value_depth JUndef = 0"
| "value_depth JNull = 0"
| "value_depth (JBool b) = 0"
| "value_depth (JNum n) = 0"
| "value_depth (JStr s) = 0"
| "value_depth (JArr xs) = Suc (foldr max (map value_depth xs) 0)"
| "value_depth (JObj ps) = Suc (foldr max (map snd (map (map_prod id value_depth) ps)) 0)"

fun ref_chain :: "nat \<Rightarrow> jv \<Rightarrow> jv \<Rightarrow> bool" where
  "ref_chain 0 doc s = (jget (resolveSchema doc s) ''type'' \<noteq> JStr ''ref'')"
| "ref_chain (Suc k) doc s =
     (jget (resolveSchema doc s) ''type'' \<noteq> JStr ''ref'' \<or>
      ref_chain k doc (resolveSchema doc (resolveSchema doc s)))"

definition refs_within :: "nat \<Rightarrow> jv \<Rightarrow> bool" where
  "refs_within k doc \<longleftrightarrow> list_all (ref_chain k doc) (subvalues doc)"

lemma subvalues_self [simp]: "v \<in> set (subvalues v)"
  by (cases v) simp_all

lemma subvalues_obj [simp]:
  "y \<in> set (subvalues (JObj ps)) \<longleftrightarrow> y = JObj ps \<or> (\<exists>p \<in> set ps. y \<in> set (subvalues (snd p)))"
proof -
  have "map snd (map (map_prod id subvalues) ps) = map (\<lambda>p. subvalues (snd p)) ps" by (induction ps) auto
  then show ?thesis by simp
qed

declare subvalues.simps(7) [simp del]

lemma subvalues_trans: "x \<in> set (subvalues v) \<Longrightarrow> y \<in> set (subvalues x) \<Longrightarrow> y \<in> set (subvalues v)"
proof (induction v)
  case (JArr xs)
  then show ?case by auto
next
  case (JObj ps)
  show ?case
  proof (cases "x = JObj ps")
    case False
    with JObj.prems obtain p where p: "p \<in> set ps" "x \<in> set (subvalues (snd p))" by auto
    with JObj.IH [OF p(1), of "snd p"] JObj.prems(2) have "y \<in> set (subvalues (snd p))"
      by (cases p) simp
    with p(1) show ?thesis by auto
  qed (use JObj in simp)
qed simp_all

lemma subvalues_jget: "jget v k \<noteq> JUndef \<Longrightarrow> jget v k \<in> set (subvalues v)"
proof (cases v)
  case (JObj ps)
  assume "jget v k \<noteq> JUndef"
  with JObj obtain x where x: "map_of ps k = Some x" "jget v k = x" by (auto split: option.splits)
  then have "(k, x) \<in> set ps" by (auto dest: map_of_SomeD)
  with x JObj show ?thesis by (auto intro!: bexI [of _ "(k, x)"])
qed simp_all

lemma value_depth_elem: "x \<in> set xs \<Longrightarrow> value_depth x < value_depth (JArr xs)"
  "(k, x) \<in> set ps \<Longrightarrow> value_depth x < value_depth (JObj ps)"
proof -
  have foldr_max: "n \<in> set ns \<Longrightarrow> n \<le> foldr max ns 0" for n :: nat and ns by (induction ns) auto
  show "x \<in> set xs \<Longrightarrow> value_depth x < value_depth (JArr xs)"
    by (auto simp: less_Suc_eq_le intro!: foldr_max)
  have "(k, x) \<in> set ps \<Longrightarrow> value_depth x \<in> set (map snd (map (map_prod id value_depth) ps))" by force
  then show "(k, x) \<in> set ps \<Longrightarrow> value_depth x < value_depth (JObj ps)"
    using foldr_max by (simp add: less_Suc_eq_le)
qed

definition doc_schemas :: "jv \<Rightarrow> jv set" where
  "doc_schemas doc = set (subvalues doc) \<union> set (subvalues unknown_schema)"

lemma doc_schemas_jget: "s \<in> doc_schemas doc \<Longrightarrow> jget s k \<noteq> JUndef \<Longrightarrow> jget s k \<in> doc_schemas doc"
  unfolding doc_schemas_def by (auto dest: subvalues_jget intro: subvalues_trans)

lemma doc_schemas_unknown [simp]: "unknown_schema \<in> doc_schemas doc" "doc \<in> doc_schemas doc"
  by (simp_all add: doc_schemas_def)

lemma doc_schemas_resolve: "s \<in> doc_schemas doc \<Longrightarrow> resolveSchema doc s \<in> doc_schemas doc"
proof -
  assume s: "s \<in> doc_schemas doc"
  have "isLexiconSchema (jget (jget doc ''defs'') n) \<Longrightarrow> jget (jget doc ''defs'') n \<in> doc_schemas doc" for n
    by (intro doc_schemas_jget doc_schemas_unknown) (auto simp: isLexiconSchema_def)
  with s show ?thesis by (auto simp: resolveSchema_def Let_def split: jv.split)
qed

lemma doc_schemas_child:
  assumes "s \<in> doc_schemas doc"
  shows "truthy (jget (schema_properties s) f) \<Longrightarrow> jget (schema_properties s) f \<in> doc_schemas doc"
    and "item_schema s \<in> doc_schemas doc"
proof -
  show "item_schema s \<in> doc_schemas doc"
    using doc_schemas_jget [OF assms, of "''items''"] by (cases "jget s ''items''") (simp_all add: item_schema_def js_nullish_def)
  have "\<not> truthy (jget (JObj []) f)" by simp
  then show "truthy (jget (schema_properties s) f) \<Longrightarrow> jget (schema_properties s) f \<in> doc_schemas doc"
    using doc_schemas_jget [OF assms, of "''properties''"]
    by (cases "jget s ''properties''") (auto simp: schema_properties_def js_nullish_def simp del: jget.simps intro!: doc_schemas_jget)
qed

lemma ref_chain_unknown: "x \<in> set (subvalues unknown_schema) \<Longrightarrow> ref_chain k doc x"
  by (cases k) (auto simp: unknown_schema_def resolveSchema_def)

lemma ref_chain_doc: "refs_within k doc \<Longrightarrow> s \<in> doc_schemas doc \<Longrightarrow> ref_chain k doc s"
  by (auto simp: refs_within_def doc_schemas_def list_all_iff ref_chain_unknown)

lemma validate_defined:
  assumes "refs_within k doc"
  shows "s \<in> doc_schemas doc \<Longrightarrow> ref_chain j doc s \<Longrightarrow> j + Suc k * value_depth v < n
     \<Longrightarrow> validateAgainstSchema n doc s v path strnum \<noteq> None"
proof (induction n arbitrary: s v path j)
  case (Suc n)
  let ?r = "resolveSchema doc s"
  let ?ty = "jget ?r ''type''"
  have r: "?r \<in> doc_schemas doc" using Suc.prems(1) by (rule doc_schemas_resolve)
  have child: "validateAgainstSchema n doc t x p strnum \<noteq> None"
    if "t \<in> doc_schemas doc" "value_depth x < value_depth v" for t x p
  proof (rule Suc.IH [OF that(1) ref_chain_doc [OF assms that(1)]])
    have "Suc k * Suc (value_depth x) \<le> Suc k * value_depth v" using that(2) by (intro mult_le_mono2) simp
    with Suc.prems(3) show "k + Suc k * value_depth x < n" by simp
  qed
  have items: "first_invalid (\<lambda>(i, x). validateAgainstSchema n doc (item_schema ?r) x
      (path @ ''['' @ nat_text i @ '']'') strnum) (enumerate 0 xs) \<noteq> None" if v: "v = JArr xs" for xs
  proof (rule first_invalid_defined)
    fix p assume "p \<in> set (enumerate 0 xs)"
    then have "value_depth (snd p) < value_depth v" unfolding v by (intro value_depth_elem) (auto simp: in_set_enumerate_eq dest: nth_mem)
    with r show "(case p of (i, x) \<Rightarrow> validateAgainstSchema n doc (item_schema ?r) x
        (path @ ''['' @ nat_text i @ '']'') strnum) \<noteq> None"
      by (cases p) (auto intro!: child [simplified] doc_schemas_child)
  qed
  have fields: "first_invalid (\<lambda>(field, x). if x = JUndef then Some Valid
      else let fieldSchema = jget (schema_properties ?r) field
           in if truthy fieldSchema then validateAgainstSchema n doc fieldSchema x (path @ ''.'' @ field) strnum
              else Some (Invalid (path @ ''.'' @ field @ '' is not declared by the lexicon''))) ps \<noteq> None"
    if v: "v = JObj ps" for ps
  proof (rule first_invalid_defined)
    fix p assume "p \<in> set ps"
    then have "value_depth (snd p) < value_depth v" unfolding v by (intro value_depth_elem(2) [of "fst p"]) simp
    with r show "(case p of (field, x) \<Rightarrow> if x = JUndef then Some Valid
      else let fieldSchema = jget (schema_properties ?r) field
           in if truthy fieldSchema then validateAgainstSchema n doc fieldSchema x (path @ ''.'' @ field) strnum
              else Some (Invalid (path @ ''.'' @ field @ '' is not declared by the lexicon''))) \<noteq> None"
      by (cases p) (auto simp: Let_def intro!: child [simplified] doc_schemas_child)
  qed
  show ?case
  proof (cases "accepts_all ?ty \<or> v = JNull \<or> ?ty \<noteq> JStr ''ref''")
    case False
    with Suc.prems(2) obtain i where j: "j = Suc i" "ref_chain i doc (resolveSchema doc ?r)" by (cases j) auto
    with False Suc.prems show ?thesis by (simp add: validate_ref Suc.IH [OF doc_schemas_resolve [OF r] j(2)])
  next
    case True
    then consider "accepts_all ?ty \<or> v = JNull" | "\<not> accepts_all ?ty" "v \<noteq> JNull" "?ty \<noteq> JStr ''ref''" by blast
    then show ?thesis
    proof cases
      case 2
      then show ?thesis
        using items fields
        by (cases v) (simp_all add: validateAgainstSchema.simps(2) Let_def [of ?r] Let_def [of ?ty] split: list.split)
    qed (simp add: validate_any)
  qed
qed simp

subsection \<open>A document of the repository\<close>

text \<open>\<^verbatim>\<open>src/lexicon/net.openfederation.community.updateMember.json\<close>, without its descriptions.\<close>

definition updateMember_lexicon :: jv where
  "updateMember_lexicon =
     JObj [(''lexicon'', jint 1), (''id'', JStr ''net.openfederation.community.updateMember''), (''revision'',
     jint 2), (''defs'', JObj [(''main'', JObj [(''type'', JStr ''procedure''), (''input'', JObj [(''encoding'',
     JStr ''application/json''), (''schema'', JObj [(''type'', JStr ''ref''), (''ref'', JStr ''#input'')])]),
     (''output'', JObj [(''encoding'', JStr ''application/json''), (''schema'', JObj [(''type'', JStr ''ref''),
     (''ref'', JStr ''#output'')])]), (''errors'', JArr [JObj [(''name'', JStr ''InvalidRequest'')], JObj
     [(''name'', JStr ''NotFound'')], JObj [(''name'', JStr ''Forbidden'')], JObj [(''name'', JStr
     ''RoleNotFound'')], JObj [(''name'', JStr ''NotMember'')], JObj [(''name'', JStr ''PayloadTooLarge'')], JObj
     [(''name'', JStr ''CannotChangeOwner'')]])]), (''input'', JObj [(''type'', JStr ''object''),
     (''properties'', JObj [(''communityDid'', JObj [(''type'', JStr ''string'')]), (''memberDid'', JObj
     [(''type'', JStr ''string'')]), (''role'', JObj [(''type'', JStr ''string'')]), (''roleRkey'', JObj
     [(''type'', JStr ''string'')]), (''kind'', JObj [(''type'', JStr ''string'')]), (''tags'', JObj [(''type'',
     JStr ''array''), (''items'', JObj [(''type'', JStr ''string'')])]), (''attributes'', JObj [(''type'', JStr
     ''unknown'')])]), (''required'', JArr [JStr ''communityDid'', JStr ''memberDid''])]), (''output'', JObj
     [(''type'', JStr ''object''), (''properties'', JObj [(''uri'', JObj [(''type'', JStr ''string'')]),
     (''cid'', JObj [(''type'', JStr ''string'')]), (''role'', JObj [(''type'', JStr ''string'')]),
     (''roleRkey'', JObj [(''type'', JStr ''string'')]), (''kind'', JObj [(''type'', JStr ''string'')]),
     (''tags'', JObj [(''type'', JStr ''array''), (''items'', JObj [(''type'', JStr ''string'')])]),
     (''attributes'', JObj [(''type'', JStr ''unknown'')])]), (''required'', JArr [JStr ''uri'', JStr
     ''cid''])])])]"

definition sample_lexicons :: lexicons where
  "sample_lexicons = \<lparr>lx_docs = (\<lambda>nsid. if nsid = ''net.openfederation.community.updateMember''
       then Some updateMember_lexicon else None), lx_contracts = (\<lambda>_. None)\<rparr>"

lemma first_invalid_mono:
  "first_invalid f xs = Some r \<Longrightarrow> (\<And>x q. x \<in> set xs \<Longrightarrow> f x = Some q \<Longrightarrow> g x = Some q) \<Longrightarrow> first_invalid g xs = Some r"
  by (induction xs) (auto split: option.splits lex_result.splits)

lemma validate_mono:
  "validateAgainstSchema n doc schema v path strnum = Some r \<Longrightarrow> n \<le> m
   \<Longrightarrow> validateAgainstSchema m doc schema v path strnum = Some r"
proof (induction n arbitrary: m schema v path r)
  case (Suc n)
  from Suc.prems(2) obtain m' where m: "m = Suc m'" "n \<le> m'" by (cases m) auto
  note IH = Suc.IH [OF _ m(2)]
  have items: "first_invalid (\<lambda>(i, x). validateAgainstSchema m' doc t x (path @ ''['' @ nat_text i @ '']'') strnum) ys = Some q"
    if "first_invalid (\<lambda>(i, x). validateAgainstSchema n doc t x (path @ ''['' @ nat_text i @ '']'') strnum) ys = Some q"
    for t ys q using that by (rule first_invalid_mono) (auto intro: IH)
  have fields: "first_invalid (\<lambda>(field, x). if x = JUndef then Some Valid
      else let fieldSchema = jget t field
           in if truthy fieldSchema then validateAgainstSchema m' doc fieldSchema x (path @ ''.'' @ field) strnum
              else Some (Invalid (path @ ''.'' @ field @ '' is not declared by the lexicon''))) ps = Some q"
    if "first_invalid (\<lambda>(field, x). if x = JUndef then Some Valid
      else let fieldSchema = jget t field
           in if truthy fieldSchema then validateAgainstSchema n doc fieldSchema x (path @ ''.'' @ field) strnum
              else Some (Invalid (path @ ''.'' @ field @ '' is not declared by the lexicon''))) ps = Some q"
    for t ps q using that by (rule first_invalid_mono) (auto simp: Let_def split: if_splits intro: IH)
  let ?r = "resolveSchema doc schema"
  let ?ty = "jget ?r ''type''"
  show ?case
    using Suc.prems(1) unfolding m(1) validateAgainstSchema.simps(2) Let_def [of ?r] Let_def [of ?ty]
    by (cases "accepts_all ?ty \<or> v = JNull"; cases "?ty = JStr ''ref''"; cases "object_type ?ty";
        cases "?ty = JStr ''array''"; cases v)
      (simp_all add: IH items [simplified] fields [simplified] scalar_types split: if_splits list.splits)
qed simp

lemma not_conforms:
  assumes "validateAgainstSchema n doc schema v path strnum = Some (Invalid msg)"
  shows "\<not> conforms doc strnum schema v"
proof
  assume "conforms doc strnum schema v"
  then obtain k where "\<forall>m \<ge> k. \<forall>path. validateAgainstSchema m doc schema v path strnum = Some Valid"
    by (blast dest: conforms_valid)
  moreover have "validateAgainstSchema (max n k) doc schema v path strnum = Some (Invalid msg)"
    by (rule validate_mono [OF assms]) simp
  ultimately show False by simp
qed

text \<open>A definition that refers to itself is never left: the check of any value overflows the stack.\<close>

lemma cyclic_reference_overflows:
  assumes "jget s ''type'' = JStr ''ref''" "resolveSchema doc s = s" "v \<noteq> JNull"
  shows "validateAgainstSchema n doc s v path strnum = None"
  using assms by (induction n) (simp_all add: validate_ref)


text \<open>
  C18. The check returns: when no chain of references between the definitions of a document is longer
  than \<open>k\<close>, a stack of \<open>(k + 1) * (depth of the value + 1)\<close> frames is enough for any value and any
  schema of the document.
\<close>

theorem validation_returns:
  assumes "refs_within k doc" "schema \<in> set (subvalues doc)" "Suc k * Suc (value_depth v) \<le> stack"
  shows "validateAgainstSchema stack doc schema v path strnum \<noteq> None"
proof (rule validate_defined [OF assms(1)])
  show s: "schema \<in> doc_schemas doc" using assms(2) by (simp add: doc_schemas_def)
  show "ref_chain k doc schema" by (rule ref_chain_doc [OF assms(1) s])
  show "k + Suc k * value_depth v < stack" using assms(3) by simp
qed

theorem validation_returns_witness:
  "validateAgainstSchema 9 updateMember_lexicon
     (jget (jget (jget (jget updateMember_lexicon ''defs'') ''main'') ''input'') ''schema'')
     (JObj [(''communityDid'', JStr ''d''), (''tags'', JArr [JStr ''a''])]) ''$'' False \<noteq> None"
proof (rule validation_returns [of 2])
  show "refs_within 2 updateMember_lexicon" by code_simp
  show "jget (jget (jget (jget updateMember_lexicon ''defs'') ''main'') ''input'') ''schema'' \<in>
      set (subvalues updateMember_lexicon)" by code_simp
  show "Suc 2 * Suc (value_depth (JObj [(''communityDid'', JStr ''d''), (''tags'', JArr [JStr ''a''])])) \<le> 9"
    by simp
qed

end
