(* ===== verification/Xrpc.thy ===== *)
theory Xrpc
  imports Lexicon
begin

text \<open>
  What stands between the network and a handler: the error rendering of
  \<^verbatim>\<open>src/xrpc/errors.ts\<close> and the dispatch of \<^verbatim>\<open>src/server/xrpc-router.ts\<close>.
\<close>

subsection \<open>Errors\<close>

definition STANDARD_XRPC_ERROR_CODES :: "string list" where
  "STANDARD_XRPC_ERROR_CODES =
     [''InternalServerError'', ''InvalidRequest'', ''Unauthorized'', ''AuthRequired'', ''Forbidden'',
      ''RateLimitExceeded'', ''MethodNotFound'', ''MethodNotImplemented'', ''AccountSuspended'',
      ''AccountTakenDown'', ''AccountDeactivated'', ''AccountNotApproved'', ''EmailNotVerified'']"

text \<open>The generated contract of a method, or else the error names its document lists.\<close>

definition getDeclaredErrorCodes :: "lexicons \<Rightarrow> string \<Rightarrow> string list" where
  "getDeclaredErrorCodes lx nsid = (case lx_contracts lx nsid of
      Some errors \<Rightarrow> errors
    | None \<Rightarrow> (case getMethodSchema lx nsid of
        None \<Rightarrow> []
      | Some doc \<Rightarrow> filter (\<lambda>s. s \<noteq> [])
          (strings_of (map (\<lambda>e. jget e ''name'')
             (arr_or_nil (jget (jget (jget doc ''defs'') ''main'') ''errors''))))))"

definition isDeclaredErrorCode :: "lexicons \<Rightarrow> string \<Rightarrow> string \<Rightarrow> bool" where
  "isDeclaredErrorCode lx nsid code \<longleftrightarrow> code \<in> set (getDeclaredErrorCodes lx nsid)"

definition isAllowedXrpcErrorCode :: "lexicons \<Rightarrow> string \<Rightarrow> string \<Rightarrow> bool" where
  "isAllowedXrpcErrorCode lx nsid code \<longleftrightarrow>
     getMethodSchema lx nsid = None \<or> code \<in> set STANDARD_XRPC_ERROR_CODES \<or> isDeclaredErrorCode lx nsid code"

text \<open>
  \<open>throwXrpc\<close> throws an ordinary \<open>Error\<close> for a code its method does not declare. An
  \<open>XrpcError\<close> and an \<open>HttpError\<close> render alike when the former names the method that
  renders it, as every call does.
\<close>

definition throwXrpc :: "(string \<Rightarrow> bool) \<Rightarrow> nat \<Rightarrow> string \<Rightarrow> 'a io" where
  "throwXrpc declared status code =
     (if declared code then throw (HttpError status code []) else throw (Failure ''not declared by lexicon''))"

definition renderXrpcError :: "(string \<Rightarrow> bool) \<Rightarrow> exn \<Rightarrow> reply" where
  "renderXrpcError allowed e = (case e of
      HttpError status code _ \<Rightarrow> if allowed code then err status code else internal_error
    | _ \<Rightarrow> internal_error)"

definition isErrorBody :: "jv \<Rightarrow> bool" where
  "isErrorBody body \<longleftrightarrow> is_str (jget body ''error'')"

text \<open>
  The wrapped \<open>res.json\<close>: what the handler meant to send, and what leaves the server. A
  check that runs out of stack throws inside the handler or the router, which both answer
  with the internal error.
\<close>

definition enforceXrpcErrorResponses :: "nat \<Rightarrow> lexicons \<Rightarrow> string \<Rightarrow> reply \<Rightarrow> reply" where
  "enforceXrpcErrorResponses stack lx nsid rep = (case rep of Reply status body \<Rightarrow>
      if 400 \<le> status \<and> isErrorBody body then
        (case jget body ''error'' of
           JStr code \<Rightarrow> if isAllowedXrpcErrorCode lx nsid code then rep else internal_error
         | _ \<Rightarrow> rep)
      else if 200 \<le> status \<and> status < 300 then
        (if validateXrpcOutput stack lx nsid body = Some Valid then rep else internal_error)
      else rep)"

subsection \<open>The router\<close>

record xrpc_request = request +
  xr_nsid :: string
  xr_isGet :: bool
  xr_query :: jv
  xr_serviceAuth :: bool

text \<open>
  An entry of the handler registry; \<open>en_enabled\<close> is the answer of \<open>enabledWhen\<close>, and the
  limiter returns the response it sent, if it sent one.
\<close>

record xrpc_entry =
  en_enabled :: "bool option"
  en_whileDeactivated :: bool
  en_limiter :: "(xrpc_request \<Rightarrow> reply option io) option"
  en_handler :: "xrpc_request \<Rightarrow> reply io"

definition validation_target :: "xrpc_request \<Rightarrow> jv" where
  "validation_target req = (if xr_isGet req then xr_query req else js_nullish (q_body req) (JObj []))"

definition limiter_reply :: "xrpc_entry \<Rightarrow> xrpc_request \<Rightarrow> reply option io" where
  "limiter_reply entry req = (case en_limiter entry of None \<Rightarrow> ret None | Some limit \<Rightarrow> limit req)"

definition xrpcDispatch :: "nat \<Rightarrow> lexicons \<Rightarrow> xrpc_entry \<Rightarrow> xrpc_request \<Rightarrow> reply io" where
  "xrpcDispatch stack lx entry req =
     (let nsid = xr_nsid req; send = (\<lambda>r. ret (enforceXrpcErrorResponses stack lx nsid r))
      in catchM
           (case validateXrpcInput stack lx nsid (validation_target req) of
              None \<Rightarrow> throw RangeError
            | Some (Invalid m) \<Rightarrow> send (err 400 ''InvalidRequest'')
            | Some Valid \<Rightarrow>
                bindM (limiter_reply entry req) (\<lambda>limited. case limited of
                  Some r \<Rightarrow> send r
                | None \<Rightarrow> bindM (en_handler entry req) send))
           (\<lambda>e. send (renderXrpcError (isAllowedXrpcErrorCode lx nsid) e)))"

definition deactivated_caller :: "xrpc_request \<Rightarrow> bool" where
  "deactivated_caller req \<longleftrightarrow> (case q_auth req of
      None \<Rightarrow> False | Some a \<Rightarrow> \<not> xr_serviceAuth req \<and> a_status a = ''deactivated'')"

definition createXrpcRouter ::
  "nat \<Rightarrow> lexicons \<Rightarrow> (string \<Rightarrow> xrpc_entry option) \<Rightarrow> xrpc_request \<Rightarrow> reply io" where
  "createXrpcRouter stack lx handlerRegistry req =
     (if xr_nsid req = [] then ret (err 400 ''InvalidRequest'')
      else (case handlerRegistry (xr_nsid req) of
          None \<Rightarrow> ret (err 404 ''MethodNotFound'')
        | Some entry \<Rightarrow>
          if en_enabled entry = Some False then ret (err 501 ''MethodNotImplemented'')
          else if deactivated_caller req \<and> \<not> en_whileDeactivated entry
            then ret (err 403 ''AccountDeactivated'')
          else xrpcDispatch stack lx entry req))"

subsection \<open>What leaves the server\<close>

lemma enforced_error:
  assumes "enforceXrpcErrorResponses stack lx nsid rep = Reply status body" "400 \<le> status"
    "jget body ''error'' = JStr code"
  shows "isAllowedXrpcErrorCode lx nsid code"
proof -
  have "isAllowedXrpcErrorCode lx nsid ''InternalServerError''"
    by (simp add: isAllowedXrpcErrorCode_def STANDARD_XRPC_ERROR_CODES_def)
  with assms show ?thesis
    by (cases rep) (auto simp: enforceXrpcErrorResponses_def isErrorBody_def internal_error_def err_def split: if_splits jv.splits)
qed

lemma enforced_success:
  assumes "enforceXrpcErrorResponses stack lx nsid rep = Reply status body" "200 \<le> status" "status < 300"
  shows "validateXrpcOutput stack lx nsid body = Some Valid"
  using assms
  by (cases rep) (auto simp: enforceXrpcErrorResponses_def internal_error_def err_def split: if_splits jv.splits)

lemma dispatch_enforced:
  "\<exists>rep t. xrpcDispatch stack lx entry req s = (Inr (enforceXrpcErrorResponses stack lx (xr_nsid req) rep), t)"
  unfolding xrpcDispatch_def Let_def
  by (auto simp: run_simps split: prod.split sum.split option.split lex_result.split)

lemma router_reply:
  obtains rep t where "createXrpcRouter stack lx registry req s = (Inr rep, t)"
    "(\<exists>status code. rep = err status code \<and> 400 \<le> status \<and> code \<in> set STANDARD_XRPC_ERROR_CODES) \<or>
     (\<exists>rep0. rep = enforceXrpcErrorResponses stack lx (xr_nsid req) rep0)"
proof -
  let ?P = "\<lambda>rep. (\<exists>status code. rep = err status code \<and> 400 \<le> status \<and> code \<in> set STANDARD_XRPC_ERROR_CODES) \<or>
     (\<exists>rep0. rep = enforceXrpcErrorResponses stack lx (xr_nsid req) rep0)"
  have early: "?P (err 400 ''InvalidRequest'')" "?P (err 404 ''MethodNotFound'')"
    "?P (err 501 ''MethodNotImplemented'')" "?P (err 403 ''AccountDeactivated'')"
    by (rule disjI1, intro exI conjI, rule refl, simp_all add: STANDARD_XRPC_ERROR_CODES_def)+
  have "\<exists>rep t. createXrpcRouter stack lx registry req s = (Inr rep, t) \<and> ?P rep"
  proof (cases "registry (xr_nsid req)")
    case None
    with early show ?thesis by (auto simp: createXrpcRouter_def run_simps)
  next
    case (Some entry)
    with early dispatch_enforced [of stack lx entry req s] show ?thesis
      by (auto simp: createXrpcRouter_def run_simps)
  qed
  with that show ?thesis by blast
qed


lemma enforced_err:
  "400 \<le> n \<Longrightarrow> code \<in> set STANDARD_XRPC_ERROR_CODES \<Longrightarrow> enforceXrpcErrorResponses stack lx nsid (err n code) = err n code"
  by (simp add: enforceXrpcErrorResponses_def err_def isErrorBody_def isAllowedXrpcErrorCode_def)

definition refused :: "reply io \<Rightarrow> world \<Rightarrow> bool" where
  "refused m s \<longleftrightarrow> (\<exists>status code. m s = (Inr (err status code), s) \<and> 400 \<le> status)"


definition sample_call :: xrpc_request where
  "sample_call = \<lparr>q_auth = None, q_serviceAuthError = None, q_partner = None, q_partnerError = None,
     q_body = JObj [(''communityDid'', JStr ''d''), (''tags'', JStr ''captain'')],
     xr_nsid = ''net.openfederation.community.updateMember'', xr_isGet = False, xr_query = JObj [], xr_serviceAuth = False\<rparr>"

definition sample_entry :: xrpc_entry where
  "sample_entry = \<lparr>en_enabled = None, en_whileDeactivated = False, en_limiter = None,
     en_handler = (\<lambda>_. ret (ok []))\<rparr>"


text \<open>A handler that answers a call of \<open>updateMember\<close> with an empty body breaks the output schema.\<close>

definition valid_call :: xrpc_request where
  "valid_call = sample_call\<lparr>q_body := JObj [(''communityDid'', JStr ''d''), (''memberDid'', JStr ''m''), (''kind'', JStr ''captain'')]\<rparr>"

lemma empty_answer_replaced:
  "createXrpcRouter 9 sample_lexicons (\<lambda>_. Some sample_entry) valid_call empty_world = (Inr internal_error, empty_world)"
proof -
  have "validateXrpcInput 9 sample_lexicons (xr_nsid valid_call) (validation_target valid_call) = Some Valid" by code_simp
  moreover have "enforceXrpcErrorResponses 9 sample_lexicons (xr_nsid valid_call) (ok []) = internal_error" by code_simp
  moreover have "xr_nsid valid_call \<noteq> []" "\<not> deactivated_caller valid_call"
    by (simp_all add: valid_call_def sample_call_def deactivated_caller_def)
  ultimately show ?thesis
    by (simp add: createXrpcRouter_def xrpcDispatch_def sample_entry_def limiter_reply_def run_simps Let_def)
qed


end
