(* ===== verification/Display.thy ===== *)
theory Display
  imports Permissions
begin

text \<open>
  The name and the picture shown for an account: \<^verbatim>\<open>src/community/display-projection.ts\<close>. They come
  from the profile records in the account's own repository, and the rows of its memberships keep a
  copy. Rows the code's \<open>ORDER BY\<close> leaves in no particular order are in the order of the table.
\<close>

record display_fields =
  df_displayName :: jv
  df_avatarUrl :: jv

definition ends_with :: "string \<Rightarrow> string \<Rightarrow> bool" where
  "ends_with p s \<longleftrightarrow> length p \<le> length s \<and> drop (length s - length p) s = p"

definition BSKY_PROFILE :: string where
  "BSKY_PROFILE = ''app.bsky.actor.profile''"

text \<open>The profiles of an account, those of other applications before the one of Bluesky.\<close>

definition profile_rows :: "world \<Rightarrow> string \<Rightarrow> jv list" where
  "profile_rows s did =
     (let rows = filter (\<lambda>((d, coll, k), _). d = did \<and> ends_with ''.actor.profile'' coll \<and> k = ''self'') (w_index s)
      in map (\<lambda>(_, _, rec). rec)
           (filter (\<lambda>((_, coll, _), _). coll \<noteq> BSKY_PROFILE) rows @ filter (\<lambda>((_, coll, _), _). coll = BSKY_PROFILE) rows))"

definition first_profile :: "world \<Rightarrow> string \<Rightarrow> jv" where
  "first_profile s did = (case profile_rows s did of [] \<Rightarrow> JNull | rec # _ \<Rightarrow> rec)"

definition resolveDisplayFields :: "env \<Rightarrow> string \<Rightarrow> string \<Rightarrow> display_fields io" where
  "resolveDisplayFields env memberDid handle =
     bindM (dbRead env (\<lambda>s. first_profile s memberDid)) (\<lambda>profile.
       ret \<lparr>df_displayName = js_or (jget profile ''displayName'') (JStr handle),
            df_avatarUrl = js_or (js_or (jget profile ''avatarUrl'') (jget profile ''avatar'')) JNull\<rparr>)"

text \<open>Absent fields are \<open>JUndef\<close>; an account without a profile is not in the list.\<close>

definition optional_fields :: "jv \<Rightarrow> display_fields" where
  "optional_fields rec =
     (let name = jget rec ''displayName''; avatar = js_nullish (jget rec ''avatarUrl'') (jget rec ''avatar'')
      in \<lparr>df_displayName = js_or name JUndef, df_avatarUrl = js_or avatar JUndef\<rparr>)"

definition batchResolveOptionalDisplayFields :: "env \<Rightarrow> string list \<Rightarrow> (string \<times> display_fields) list io" where
  "batchResolveOptionalDisplayFields env dids =
     (if dids = [] then ret []
      else dbRead env (\<lambda>s. map (\<lambda>d. (d, optional_fields (first_profile s d)))
             (filter (\<lambda>d. profile_rows s d \<noteq> []) (remdups dids))))"

text \<open>The text columns take the text of a value.\<close>

definition set_display :: "env \<Rightarrow> display_fields \<Rightarrow> member_row \<Rightarrow> member_row" where
  "set_display env d row = row\<lparr>m_display_name := json_text (e_text env) (df_displayName d),
                               m_avatar_url := json_text (e_text env) (df_avatarUrl d)\<rparr>"

definition fanOutDisplayFields :: "env \<Rightarrow> string \<Rightarrow> string \<Rightarrow> unit io" where
  "fanOutDisplayFields env memberDid handle =
     bindM (resolveDisplayFields env memberDid handle) (\<lambda>fields.
       dbWrite env (\<lambda>s. s\<lparr>w_members :=
         map (\<lambda>((c, d), row). ((c, d), if d = memberDid then set_display env fields row else row)) (w_members s)\<rparr>))"

end
