(* ===== verification/Membership.thy ===== *)
theory Membership
  imports Xrpc Display
begin

text \<open>
  Joining, leaving, removing, approving and editing members:
  \<^verbatim>\<open>src/community/membership/*.ts\<close> and the five endpoints under \<^verbatim>\<open>src/api/\<close> that call them.

  A membership is a record in the community's repository and a row of \<open>members_unique\<close>,
  projected from it; the columns of that row that only hold a display name and a picture are
  not kept. A request to join is a row of \<open>join_requests\<close>.
\<close>

subsection \<open>Errors of the five methods\<close>

definition JOIN_ERRORS :: "string list" where
  "JOIN_ERRORS = [''AlreadyMember'', ''AlreadyRequested'', ''InvalidRequest'', ''NotFound'', ''PayloadTooLarge'']"
definition LEAVE_ERRORS :: "string list" where
  "LEAVE_ERRORS = [''Forbidden'', ''InvalidRequest'', ''NotFound'', ''NotMember'']"
definition REMOVE_ERRORS :: "string list" where
  "REMOVE_ERRORS = [''Forbidden'', ''InvalidRequest'', ''NotFound'', ''NotMember'']"
definition RESOLVE_ERRORS :: "string list" where
  "RESOLVE_ERRORS = [''AlreadyResolved'', ''Forbidden'', ''InvalidRequest'', ''NotFound'']"
definition UPDATE_ERRORS :: "string list" where
  "UPDATE_ERRORS =
     [''CannotChangeOwner'', ''Forbidden'', ''InvalidRequest'', ''NotFound'', ''NotMember'', ''PayloadTooLarge'',
      ''RoleNotFound'']"

text \<open>\<open>throwXrpc\<close> and the \<open>catch\<close> of a handler, for a method with these errors.\<close>

definition refuse :: "string list \<Rightarrow> nat \<Rightarrow> string \<Rightarrow> 'a io" where
  "refuse errors = throwXrpc (\<lambda>code. code \<in> set errors)"

definition xrpc_handler :: "string list \<Rightarrow> reply io \<Rightarrow> reply io" where
  "xrpc_handler errors m = catchM m (\<lambda>e.
     ret (renderXrpcError (\<lambda>code. code \<in> set STANDARD_XRPC_ERROR_CODES \<or> code \<in> set errors) e))"

definition request_body :: "request \<Rightarrow> jv" where
  "request_body req = js_nullish (q_body req) (JObj [])"

subsection \<open>Checks on the input\<close>

definition MAX_KIND_LENGTH :: nat where "MAX_KIND_LENGTH = 64"
definition MAX_TAGS :: nat where "MAX_TAGS = 20"
definition MAX_TAG_LENGTH :: nat where "MAX_TAG_LENGTH = 64"
definition MAX_ATTRIBUTES_SIZE :: nat where "MAX_ATTRIBUTES_SIZE = 4096"

text \<open>\<open>JSON.stringify(v).length\<close>, for a value that came out of a JSON body.\<close>

definition json_char_size :: "char \<Rightarrow> nat" where
  "json_char_size c = (let n = of_char c :: nat
     in if n = 34 \<or> n = 92 \<or> n = 8 \<or> n = 9 \<or> n = 10 \<or> n = 12 \<or> n = 13 then 2 else if n < 32 then 6 else 1)"

definition json_str_size :: "string \<Rightarrow> nat" where
  "json_str_size s = 2 + sum_list (map json_char_size s)"

primrec json_size :: "(jv \<Rightarrow> string) \<Rightarrow> jv \<Rightarrow> nat" where
  "json_size T JUndef = 0"
| "json_size T JNull = 4"
| "json_size T (JBool b) = (if b then 4 else 5)"
| "json_size T (JNum n) = length (T (JNum n))"
| "json_size T (JStr s) = json_str_size s"
| "json_size T (JArr xs) = 2 + sum_list (map (json_size T) xs) + (length xs - 1)"
| "json_size T (JObj ps) =
     2 + sum_list (map (\<lambda>(k, n). json_str_size k + 1 + n) (map (map_prod id (json_size T)) ps)) + (length ps - 1)"

definition good_tag :: "jv \<Rightarrow> bool" where
  "good_tag v \<longleftrightarrow> (case v of JStr s \<Rightarrow> s \<noteq> [] \<and> length s \<le> MAX_TAG_LENGTH | _ \<Rightarrow> False)"

definition good_tags :: "jv \<Rightarrow> bool" where
  "good_tags v \<longleftrightarrow> (case v of JArr xs \<Rightarrow> length xs \<le> MAX_TAGS \<and> list_all good_tag xs | _ \<Rightarrow> False)"

definition check_attributes :: "(jv \<Rightarrow> string) \<Rightarrow> jv \<Rightarrow> (nat \<times> string) option" where
  "check_attributes T v =
     (if \<not> (typeof_object v \<and> \<not> is_array v) then Some (400, ''InvalidRequest'')
      else if MAX_ATTRIBUTES_SIZE < json_size T v then Some (400, ''PayloadTooLarge'')
      else None)"

definition nonempty_text :: "jv \<Rightarrow> string option" where
  "nonempty_text v = (case v of JStr s \<Rightarrow> if s = [] then None else Some s | _ \<Rightarrow> None)"

record semantic =
  sm_kind :: jv
  sm_tags :: jv
  sm_attributes :: jv

definition opt_value :: "jv \<Rightarrow> jv" where
  "opt_value v = (if nullish v then JUndef else v)"

definition validateJoinInput :: "env \<Rightarrow> jv \<Rightarrow> (nat \<times> string) + (string \<times> semantic)" where
  "validateJoinInput env input =
     (let kind = jget input ''kind''; tags = jget input ''tags''; attributes = jget input ''attributes''
      in case nonempty_text (jget input ''did'') of
           None \<Rightarrow> Inl (400, ''InvalidRequest'')
         | Some did \<Rightarrow>
           if \<not> nullish kind \<and> \<not> (case kind of JStr s \<Rightarrow> s \<noteq> [] \<and> length s \<le> MAX_KIND_LENGTH | _ \<Rightarrow> False)
             then Inl (400, ''InvalidRequest'')
           else if \<not> nullish tags \<and> \<not> good_tags tags then Inl (400, ''InvalidRequest'')
           else (case (if nullish attributes then None else check_attributes (e_text env) attributes) of
               Some problem \<Rightarrow> Inl problem
             | None \<Rightarrow> Inr (did, \<lparr>sm_kind = opt_value kind, sm_tags = opt_value tags,
                              sm_attributes = opt_value attributes\<rparr>)))"

subsection \<open>Membership helpers\<close>

definition requireString :: "string list \<Rightarrow> jv \<Rightarrow> string io" where
  "requireString errors v = (case nonempty_text v of None \<Rightarrow> refuse errors 400 ''InvalidRequest'' | Some s \<Rightarrow> ret s)"

definition ensureCommunityExists :: "env \<Rightarrow> string \<Rightarrow> unit io" where
  "ensureCommunityExists env communityDid =
     bindM (dbRead env (\<lambda>s. map_of (w_communities s) communityDid)) (\<lambda>row.
       if row = None then refuse JOIN_ERRORS 404 ''NotFound'' else ret ())"

text \<open>The \<open>created_by\<close> of the community.\<close>

definition getCommunityOwner :: "env \<Rightarrow> string list \<Rightarrow> string \<Rightarrow> string option io" where
  "getCommunityOwner env errors communityDid =
     bindM (dbRead env (\<lambda>s. map_of (w_communities s) communityDid)) (\<lambda>row. case row of
       None \<Rightarrow> refuse errors 404 ''NotFound'' | Some c \<Rightarrow> ret (c_created_by c))"

definition ensureNotAlreadyMember :: "env \<Rightarrow> string \<Rightarrow> string \<Rightarrow> unit io" where
  "ensureNotAlreadyMember env communityDid memberDid =
     bindM (dbRead env (\<lambda>s. map_of (w_members s) (communityDid, memberDid))) (\<lambda>row.
       if row \<noteq> None then refuse JOIN_ERRORS 409 ''AlreadyMember'' else ret ())"

definition nonempty :: "string option \<Rightarrow> string option" where
  "nonempty x = (if x = Some [] then None else x)"

definition getMemberRkey :: "env \<Rightarrow> string \<Rightarrow> string \<Rightarrow> string option io" where
  "getMemberRkey env communityDid memberDid =
     dbRead env (\<lambda>s. nonempty (map_option m_record_rkey (map_of (w_members s) (communityDid, memberDid))))"

definition deleteMemberRecord :: "env \<Rightarrow> string \<Rightarrow> string \<Rightarrow> unit io" where
  "deleteMemberRecord env communityDid rkey =
     seqM (getKeypairForDid env communityDid) (deleteRecord env communityDid MEMBER_COLLECTION rkey)"

definition user_by :: "(user_row \<Rightarrow> bool) \<Rightarrow> world \<Rightarrow> user_row option" where
  "user_by P s = (case filter P (w_users s) of [] \<Rightarrow> None | u # _ \<Rightarrow> Some u)"

definition getUserDid :: "env \<Rightarrow> string option \<Rightarrow> string option io" where
  "getUserDid env userId = dbRead env (\<lambda>s. nonempty (map_option u_did (user_by (\<lambda>u. Some (u_id u) = userId) s)))"

definition getUserIdByDid :: "env \<Rightarrow> string \<Rightarrow> string option io" where
  "getUserIdByDid env did = dbRead env (\<lambda>s. nonempty (map_option u_id (user_by (\<lambda>u. u_did u = did) s)))"

definition getUserHandle :: "env \<Rightarrow> string \<Rightarrow> string option io" where
  "getUserHandle env userId = dbRead env (\<lambda>s. nonempty (map_option u_handle (user_by (\<lambda>u. u_id u = userId) s)))"

definition join_policy :: "world \<Rightarrow> string \<Rightarrow> jv" where
  "join_policy s communityDid =
     js_or (jget (record_or_null (indexed s communityDid SETTINGS_COLLECTION ''self'')) ''joinPolicy'') (JStr ''open'')"

definition getJoinPolicy :: "env \<Rightarrow> string \<Rightarrow> jv io" where
  "getJoinPolicy env communityDid = dbRead env (\<lambda>s. join_policy s communityDid)"

text \<open>The record written for a new member.\<close>

definition member_record :: "string \<Rightarrow> string \<Rightarrow> string option \<Rightarrow> string \<Rightarrow> semantic \<Rightarrow> jv" where
  "member_record memberDid handle roleRkey joinedAt sm = JObj
     ([(''did'', JStr memberDid), (''handle'', JStr handle),
       (case roleRkey of Some k \<Rightarrow> (''roleRkey'', JStr k) | None \<Rightarrow> (''role'', JStr ''member'')),
       (''joinedAt'', JStr joinedAt)]
      @ opt_field (truthy (sm_kind sm)) ''kind'' (sm_kind sm)
      @ opt_field (arr_or_nil (sm_tags sm) \<noteq> []) ''tags'' (sm_tags sm)
      @ opt_field (entries (sm_attributes sm) \<noteq> []) ''attributes'' (sm_attributes sm))"

definition set_member_columns :: "env \<Rightarrow> string \<Rightarrow> string \<Rightarrow> display_fields \<Rightarrow> string option \<Rightarrow> semantic \<Rightarrow> world \<Rightarrow> world" where
  "set_member_columns env communityDid memberDid display roleRkey sm s =
     (case map_of (w_members s) (communityDid, memberDid) of
        None \<Rightarrow> s
      | Some row \<Rightarrow> s\<lparr>w_members := AList.update (communityDid, memberDid)
          ((set_display env display row)\<lparr>m_role := (if roleRkey = None then Some ''member'' else None),
               m_role_rkey := roleRkey,
               m_kind := (case sm_kind sm of JStr k \<Rightarrow> Some k | _ \<Rightarrow> None),
               m_tags := (if arr_or_nil (sm_tags sm) \<noteq> [] then sm_tags sm else JNull),
               m_attributes := (if entries (sm_attributes sm) \<noteq> [] then sm_attributes sm else JNull)\<rparr>) (w_members s)\<rparr>)"

text \<open>The profile record is read for the display columns; the last statement updates the projected row.\<close>

definition createMemberRecordForDid :: "env \<Rightarrow> string \<Rightarrow> string \<Rightarrow> string \<Rightarrow> semantic \<Rightarrow> unit io" where
  "createMemberRecordForDid env communityDid memberDid handle sm =
     seqM (getKeypairForDid env communityDid)
    (bindM (generateTid env) (\<lambda>rkey.
     bindM (findRoleRkeyByName env communityDid ''member'') (\<lambda>roleRkey.
     bindM (nowIso env) (\<lambda>joinedAt.
     bindM (putRecord env communityDid MEMBER_COLLECTION rkey
              (member_record memberDid handle roleRkey joinedAt sm)) (\<lambda>_.
     bindM (resolveDisplayFields env memberDid handle) (\<lambda>display.
       dbWrite env (set_member_columns env communityDid memberDid display roleRkey sm)))))))"

subsection \<open>Joining\<close>

definition randomUUID :: "env \<Rightarrow> string io" where
  "randomUUID env s = (Inr (e_uuid env (w_tids s)), s\<lparr>w_tids := Suc (w_tids s)\<rparr>)"

definition set_join_status :: "string \<Rightarrow> string \<Rightarrow> string \<Rightarrow> world \<Rightarrow> world" where
  "set_join_status communityDid userId status s =
     (case map_of (w_joins s) (communityDid, userId) of
        None \<Rightarrow> s
      | Some row \<Rightarrow> s\<lparr>w_joins := AList.update (communityDid, userId) (row\<lparr>jr_status := status\<rparr>) (w_joins s)\<rparr>)"

text \<open>The table is unique in community and user.\<close>

definition insert_join :: "string \<Rightarrow> string \<Rightarrow> join_row \<Rightarrow> world \<Rightarrow> exn + world" where
  "insert_join communityDid userId row s =
     (if map_of (w_joins s) (communityDid, userId) \<noteq> None
      then Inl (Failure ''duplicate key value violates unique constraint'')
      else Inr (s\<lparr>w_joins := ((communityDid, userId), row) # w_joins s\<rparr>))"

definition delete_join :: "string \<Rightarrow> string \<Rightarrow> world \<Rightarrow> world" where
  "delete_join communityDid userId s = s\<lparr>w_joins := AList.delete (communityDid, userId) (w_joins s)\<rparr>"

definition request_to_join :: "env \<Rightarrow> auth \<Rightarrow> string \<Rightarrow> string io" where
  "request_to_join env caller did =
     bindM (dbRead env (\<lambda>s. map_of (w_joins s) (did, a_userId caller))) (\<lambda>existing.
       if map_option jr_status existing = Some ''pending'' then refuse JOIN_ERRORS 409 ''AlreadyRequested''
       else if map_option jr_status existing = Some ''rejected'' then
         seqM (dbWrite env (set_join_status did (a_userId caller) ''pending'')) (ret ''pending'')
       else
         bindM (randomUUID env) (\<lambda>uuid.
         seqM (dbTxn env (insert_join did (a_userId caller)
                 \<lparr>jr_id = uuid, jr_user_did = a_did caller, jr_status = ''pending''\<rparr>))
           (ret ''pending'')))"

definition joinCommunityLifecycle :: "env \<Rightarrow> auth \<Rightarrow> jv \<Rightarrow> string io" where
  "joinCommunityLifecycle env caller input =
     (case validateJoinInput env input of
        Inl (status, code) \<Rightarrow> refuse JOIN_ERRORS status code
      | Inr (did, sm) \<Rightarrow>
        seqM (ensureCommunityExists env did)
       (seqM (ensureNotAlreadyMember env did (a_did caller))
       (bindM (getJoinPolicy env did) (\<lambda>joinPolicy.
          if joinPolicy = JStr ''open'' then
            seqM (createMemberRecordForDid env did (a_did caller) (a_handle caller) sm) (ret ''joined'')
          else
            request_to_join env caller did))))"

definition joinCommunity :: "env \<Rightarrow> request \<Rightarrow> reply io" where
  "joinCommunity env req = xrpc_handler JOIN_ERRORS
     (case requireApprovedUser env req of
        Inl r \<Rightarrow> ret r
      | Inr caller \<Rightarrow> bindM (joinCommunityLifecycle env caller (request_body req))
                       (\<lambda>status. ret (ok [(''status'', JStr status)])))"

subsection \<open>Leaving and removing\<close>

definition leaveCommunityLifecycle :: "env \<Rightarrow> auth \<Rightarrow> jv \<Rightarrow> unit io" where
  "leaveCommunityLifecycle env caller input =
     bindM (requireString LEAVE_ERRORS (jget input ''did'')) (\<lambda>communityDid.
     bindM (getCommunityOwner env LEAVE_ERRORS communityDid) (\<lambda>created_by.
       if created_by = Some (a_userId caller) then refuse LEAVE_ERRORS 403 ''Forbidden''
       else bindM (getMemberRkey env communityDid (a_did caller)) (\<lambda>memberRkey. case memberRkey of
           None \<Rightarrow> refuse LEAVE_ERRORS 400 ''NotMember''
         | Some rkey \<Rightarrow>
             seqM (deleteMemberRecord env communityDid rkey)
               (dbWrite env (delete_join communityDid (a_userId caller))))))"

definition success_reply :: reply where
  "success_reply = ok [(''success'', JBool True)]"

definition leaveCommunity :: "env \<Rightarrow> request \<Rightarrow> reply io" where
  "leaveCommunity env req = xrpc_handler LEAVE_ERRORS (authM req (\<lambda>caller.
     seqM (leaveCommunityLifecycle env caller (request_body req)) (ret success_reply)))"

definition manages :: "auth \<Rightarrow> string option \<Rightarrow> bool" where
  "manages caller created_by \<longleftrightarrow> created_by = Some (a_userId caller) \<or> ''admin'' \<in> set (a_roles caller)"

definition finish_removal :: "env \<Rightarrow> auth \<Rightarrow> string \<Rightarrow> string \<Rightarrow> string \<Rightarrow> unit io" where
  "finish_removal env caller communityDid memberDid memberRkey =
     seqM (deleteMemberRecord env communityDid memberRkey)
    (bindM (getUserIdByDid env memberDid) (\<lambda>removedUserId.
     seqM (case removedUserId of None \<Rightarrow> ret ()
           | Some userId \<Rightarrow> dbWrite env (delete_join communityDid userId))
       (auditLog env ''community.removeMember'' (Some (a_userId caller)) (Some communityDid)
          (JObj [(''memberDid'', JStr memberDid)]))))"

definition removeMemberLifecycle :: "env \<Rightarrow> auth \<Rightarrow> jv \<Rightarrow> unit io" where
  "removeMemberLifecycle env caller input =
     bindM (requireString REMOVE_ERRORS (jget input ''did'')) (\<lambda>communityDid.
     bindM (requireString REMOVE_ERRORS (jget input ''memberDid'')) (\<lambda>memberDid.
     bindM (getCommunityOwner env REMOVE_ERRORS communityDid) (\<lambda>created_by.
       if \<not> manages caller created_by then refuse REMOVE_ERRORS 403 ''Forbidden''
       else bindM (getUserDid env created_by) (\<lambda>ownerDid.
         if ownerDid = Some memberDid then refuse REMOVE_ERRORS 403 ''Forbidden''
         else bindM (getMemberRkey env communityDid memberDid) (\<lambda>memberRkey. case memberRkey of
             None \<Rightarrow> refuse REMOVE_ERRORS 400 ''NotMember''
           | Some memberRkey \<Rightarrow> finish_removal env caller communityDid memberDid memberRkey)))))"

definition removeMember :: "env \<Rightarrow> request \<Rightarrow> reply io" where
  "removeMember env req = xrpc_handler REMOVE_ERRORS (authM req (\<lambda>caller.
     seqM (removeMemberLifecycle env caller (request_body req)) (ret success_reply)))"

subsection \<open>Resolving a request to join\<close>

definition join_by_id :: "world \<Rightarrow> string \<Rightarrow> ((string \<times> string) \<times> join_row) option" where
  "join_by_id s requestId = (case filter (\<lambda>(_, row). jr_id row = requestId) (w_joins s) of
     [] \<Rightarrow> None | r # _ \<Rightarrow> Some r)"

definition set_status_by_id :: "string \<Rightarrow> string \<Rightarrow> world \<Rightarrow> world" where
  "set_status_by_id requestId status s = s\<lparr>w_joins :=
     map (\<lambda>(k, row). (k, if jr_id row = requestId then row\<lparr>jr_status := status\<rparr> else row)) (w_joins s)\<rparr>"

definition no_semantic :: semantic where
  "no_semantic = \<lparr>sm_kind = JUndef, sm_tags = JUndef, sm_attributes = JUndef\<rparr>"

definition settle_request ::
  "env \<Rightarrow> auth \<Rightarrow> string \<Rightarrow> bool \<Rightarrow> string \<Rightarrow> string \<Rightarrow> join_row \<Rightarrow> string io" where
  "settle_request env caller requestId approve communityDid userId row =
     (let newStatus = (if approve then ''approved'' else ''rejected'')
      in seqM (dbWrite env (set_status_by_id requestId newStatus))
        (seqM (if approve then
                 bindM (getUserHandle env userId) (\<lambda>handle.
                   createMemberRecordForDid env communityDid (jr_user_did row)
                     (case handle of None \<Rightarrow> ''unknown'' | Some h \<Rightarrow> h) no_semantic)
               else ret ())
        (seqM (auditLog env (if approve then ''join_request.approve'' else ''join_request.reject'')
                 (Some (a_userId caller)) (Some userId) (JObj [(''communityDid'', JStr communityDid)]))
          (ret newStatus))))"

definition resolveJoinRequestLifecycle :: "env \<Rightarrow> auth \<Rightarrow> jv \<Rightarrow> string io" where
  "resolveJoinRequestLifecycle env caller input =
     bindM (requireString RESOLVE_ERRORS (jget input ''requestId'')) (\<lambda>requestId.
     bindM (requireString RESOLVE_ERRORS (jget input ''action'')) (\<lambda>action.
       if action \<noteq> ''approve'' \<and> action \<noteq> ''reject'' then refuse RESOLVE_ERRORS 400 ''InvalidRequest''
       else bindM (dbRead env (\<lambda>s. join_by_id s requestId)) (\<lambda>found. case found of
           None \<Rightarrow> refuse RESOLVE_ERRORS 404 ''NotFound''
         | Some ((communityDid, userId), row) \<Rightarrow>
           if jr_status row \<noteq> ''pending'' then refuse RESOLVE_ERRORS 400 ''AlreadyResolved''
           else bindM (getCommunityOwner env RESOLVE_ERRORS communityDid) (\<lambda>created_by.
             if \<not> manages caller created_by then refuse RESOLVE_ERRORS 403 ''Forbidden''
             else settle_request env caller requestId (action = ''approve'') communityDid userId row))))"

definition resolveJoinRequest :: "env \<Rightarrow> request \<Rightarrow> reply io" where
  "resolveJoinRequest env req = xrpc_handler RESOLVE_ERRORS (authM req (\<lambda>caller.
     bindM (resolveJoinRequestLifecycle env caller (request_body req))
       (\<lambda>status. ret (ok [(''status'', JStr status)]))))"

subsection \<open>Editing a member\<close>

definition jdel :: "string \<Rightarrow> jv \<Rightarrow> jv" where
  "jdel k v = JObj (AList.delete k (entries v))"

definition jset :: "string \<Rightarrow> jv \<Rightarrow> jv \<Rightarrow> jv" where
  "jset k x v = jassign v [(k, x)]"

text \<open>\<open>v === null || v === ''\<close>\<close>

definition cleared :: "jv \<Rightarrow> bool" where
  "cleared v \<longleftrightarrow> v = JNull \<or> v = JStr []"

definition update_problem :: "env \<Rightarrow> jv \<Rightarrow> (nat \<times> string) option" where
  "update_problem env input =
     (let role = jget input ''role''; roleRkey = jget input ''roleRkey''; kind = jget input ''kind'';
          tags = jget input ''tags''; attributes = jget input ''attributes''
      in if role = JUndef \<and> roleRkey = JUndef \<and> kind = JUndef \<and> tags = JUndef \<and> attributes = JUndef
           then Some (400, ''InvalidRequest'')
         else if role \<noteq> JUndef \<and> \<not> cleared role \<and> (\<not> is_str role \<or> role = JStr ''owner'')
           then Some (400, ''InvalidRequest'')
         else if roleRkey \<noteq> JUndef \<and> \<not> cleared roleRkey \<and> \<not> is_str roleRkey
           then Some (400, ''InvalidRequest'')
         else if kind \<noteq> JUndef \<and> \<not> cleared kind \<and>
              \<not> (case kind of JStr s \<Rightarrow> length s \<le> MAX_KIND_LENGTH | _ \<Rightarrow> False)
           then Some (400, ''InvalidRequest'')
         else if tags \<noteq> JUndef \<and> tags \<noteq> JNull \<and> \<not> good_tags tags then Some (400, ''InvalidRequest'')
         else if attributes \<noteq> JUndef \<and> attributes \<noteq> JNull then check_attributes (e_text env) attributes
         else None)"

definition update_role_key :: "jv \<Rightarrow> jv \<Rightarrow> jv" where
  "update_role_key roleRkey rec =
     (if roleRkey = JUndef then rec
      else if cleared roleRkey then jdel ''roleRkey'' rec
      else jdel ''role'' (jset ''roleRkey'' roleRkey rec))"

definition update_role :: "jv \<Rightarrow> jv \<Rightarrow> jv \<Rightarrow> jv" where
  "update_role roleRkey role rec =
     (if role = JUndef then rec
      else if cleared role then jdel ''role'' rec
      else if roleRkey = JUndef then jdel ''roleRkey'' (jset ''role'' role rec)
      else jset ''role'' role rec)"

definition update_kind :: "jv \<Rightarrow> jv \<Rightarrow> jv" where
  "update_kind kind rec =
     (if kind = JUndef then rec else if cleared kind then jdel ''kind'' rec else jset ''kind'' kind rec)"

definition update_tags :: "jv \<Rightarrow> jv \<Rightarrow> jv" where
  "update_tags tags rec =
     (if tags = JUndef then rec
      else if tags = JNull \<or> tags = JArr [] then jdel ''tags'' rec else jset ''tags'' tags rec)"

definition update_attributes :: "jv \<Rightarrow> jv \<Rightarrow> jv" where
  "update_attributes attributes rec =
     (if attributes = JUndef then rec
      else if attributes = JNull \<or> attributes = JObj [] then jdel ''attributes'' rec
      else jset ''attributes'' attributes rec)"

text \<open>The record to write, from the one there is.\<close>

definition next_member :: "jv \<Rightarrow> jv \<Rightarrow> jv" where
  "next_member input prev =
     (let roleRkey = jget input ''roleRkey''
      in update_attributes (jget input ''attributes'')
           (update_tags (jget input ''tags'')
             (update_kind (jget input ''kind'')
               (update_role roleRkey (jget input ''role'')
                 (update_role_key roleRkey (jassign prev []))))))"

definition update_meta :: "jv \<Rightarrow> string \<Rightarrow> jv \<Rightarrow> jv" where
  "update_meta input memberDid resolvedRoleName =
     (let has = (\<lambda>k. (k, JBool (jget input k \<noteq> JUndef)))
      in JObj [(''memberDid'', JStr memberDid),
               (''changed'', JObj [has ''role'', has ''roleRkey'', has ''kind'', has ''tags'', has ''attributes'']),
               (''resolvedRoleName'', resolvedRoleName)])"

definition update_result :: "string \<Rightarrow> string \<Rightarrow> jv \<Rightarrow> jv \<Rightarrow> reply" where
  "update_result uri cid next resolvedRoleName = ok
     [(''uri'', JStr uri), (''cid'', JStr cid), (''role'', js_nullish (jget next ''role'') resolvedRoleName),
      (''roleRkey'', jget next ''roleRkey''), (''kind'', jget next ''kind''), (''tags'', jget next ''tags''),
      (''attributes'', jget next ''attributes'')]"

text \<open>The member's row, the owner and the record are read before the write.\<close>

definition write_update :: "env \<Rightarrow> auth \<Rightarrow> string \<Rightarrow> string \<Rightarrow> jv \<Rightarrow> jv \<Rightarrow> reply io" where
  "write_update env caller communityDid memberDid input resolvedRoleName =
     bindM (dbRead env (\<lambda>s. map_option m_record_rkey (map_of (w_members s) (communityDid, memberDid)))) (\<lambda>row. case row of
       None \<Rightarrow> refuse UPDATE_ERRORS 404 ''NotMember''
     | Some memberRkey \<Rightarrow>
         bindM (dbRead env (\<lambda>s. Option.bind (map_of (w_communities s) communityDid) c_owner_did)) (\<lambda>owner_did.
           if owner_did = Some memberDid \<and> (jget input ''role'' \<noteq> JUndef \<or> jget input ''roleRkey'' \<noteq> JUndef)
             then refuse UPDATE_ERRORS 403 ''CannotChangeOwner''
           else bindM (getRecord env communityDid MEMBER_COLLECTION memberRkey) (\<lambda>existing. case existing of
               None \<Rightarrow> refuse UPDATE_ERRORS 404 ''NotMember''
             | Some (_, prev) \<Rightarrow>
                 (let nextRec = next_member input prev
                  in seqM (getKeypairForDid env communityDid)
                    (bindM (putRecord env communityDid MEMBER_COLLECTION memberRkey nextRec) (\<lambda>(cid, uri).
                     seqM (auditLog env ''community.updateMember'' (Some (a_userId caller)) (Some communityDid)
                             (update_meta input memberDid resolvedRoleName))
                       (ret (update_result uri cid nextRec resolvedRoleName))))))))"

text \<open>A role named by its key has to exist.\<close>

definition check_role_then_write :: "env \<Rightarrow> auth \<Rightarrow> string \<Rightarrow> string \<Rightarrow> jv \<Rightarrow> reply io" where
  "check_role_then_write env caller communityDid memberDid input =
     (case jget input ''roleRkey'' of
        JStr (x # xs) \<Rightarrow>
          bindM (dbRead env (\<lambda>s. indexed s communityDid ROLE_COLLECTION (x # xs))) (\<lambda>role. case role of
            None \<Rightarrow> refuse UPDATE_ERRORS 404 ''RoleNotFound''
          | Some (_, rec) \<Rightarrow> write_update env caller communityDid memberDid input (jget rec ''name''))
      | _ \<Rightarrow> write_update env caller communityDid memberDid input JUndef)"

definition updateMemberLifecycle :: "env \<Rightarrow> auth \<Rightarrow> jv \<Rightarrow> reply io" where
  "updateMemberLifecycle env caller input =
     bindM (requireString UPDATE_ERRORS (jget input ''communityDid'')) (\<lambda>communityDid.
     bindM (requireString UPDATE_ERRORS (jget input ''memberDid'')) (\<lambda>memberDid.
       case update_problem env input of
         Some (status, code) \<Rightarrow> refuse UPDATE_ERRORS status code
       | None \<Rightarrow>
         bindM (getCallerCommunityCapabilities env communityDid caller) (\<lambda>caps.
           if \<not> cp_exists caps then refuse UPDATE_ERRORS 404 ''NotFound''
           else bindM (liftE (has_permission caps ''community.member.write'')) (\<lambda>granted.
             if \<not> granted then
               refuse UPDATE_ERRORS 403
                 (if map_option ms_status (cp_membership caps) \<noteq> Some ''member'' then ''NotMember'' else ''Forbidden'')
             else check_role_then_write env caller communityDid memberDid input))))"

definition updateMember :: "env \<Rightarrow> request \<Rightarrow> reply io" where
  "updateMember env req = xrpc_handler UPDATE_ERRORS (authM req (\<lambda>caller.
     updateMemberLifecycle env caller (request_body req)))"

end
