(* ===== verification/Enforcement.thy ===== *)
theory Enforcement
  imports Proposals
begin

text \<open>
  Which writes to a community's own records its governance model allows:
  \<^verbatim>\<open>src/governance/enforcement.ts\<close>, \<^verbatim>\<open>src/governance/request-authority.ts\<close>, and the
  endpoint that changes the model, \<^verbatim>\<open>net.openfederation.community.setGovernanceModel.ts\<close>.
\<close>

subsection \<open>Delegated authority\<close>

record request_ctx =
  gx_source :: string
  gx_communityDid :: string
  gx_credentialId :: string
  gx_name :: string

record governance_result =
  gr_allowed :: bool
  gr_requiresProposal :: bool
  gr_model :: "jv option"

text \<open>
  A registered authority reads a request (or throws) and wraps a mutation. Which module
  registers one is outside the core; with none registered both accessors are inert.
\<close>

record mutation_info =
  mu_request :: request
  mu_context :: "request_ctx option"
  mu_governance :: "governance_result option"
  mu_communityDid :: string
  mu_collection :: string
  mu_rkey :: string
  mu_action :: string
  mu_operation :: string
  mu_record :: "jv option"

record authority =
  ga_name :: string
  ga_contextFor :: "request \<Rightarrow> exn + request_ctx option"
  ga_runMutation :: "mutation_info \<Rightarrow> (string \<times> string) io \<Rightarrow> (string \<times> string) io"

text \<open>The registry: one authority, replaced by a later registration.\<close>

definition registerGovernanceRequestAuthority :: "authority \<Rightarrow> authority option \<Rightarrow> authority option" where
  "registerGovernanceRequestAuthority nxt current = Some nxt"

definition clearGovernanceRequestAuthority :: "authority option \<Rightarrow> authority option" where
  "clearGovernanceRequestAuthority current = None"

definition registeredAuthorityName :: "authority option \<Rightarrow> string option" where
  "registeredAuthorityName current = map_option ga_name current"

definition resolveGovernanceContext :: "authority option \<Rightarrow> request \<Rightarrow> request_ctx option" where
  "resolveGovernanceContext current req = (case current of
      None \<Rightarrow> None
    | Some auth \<Rightarrow> (case ga_contextFor auth req of Inl _ \<Rightarrow> None | Inr c \<Rightarrow> c))"

definition runGovernedMutation ::
  "authority option \<Rightarrow> mutation_info \<Rightarrow> (string \<times> string) io \<Rightarrow> (string \<times> string) io" where
  "runGovernedMutation current info mutate = (case current of
      None \<Rightarrow> mutate
    | Some auth \<Rightarrow> ga_runMutation auth info mutate)"

subsection \<open>Enforcement\<close>

definition DEFAULT_PROTECTED :: "string list" where
  "DEFAULT_PROTECTED = MANDATORY_PROTECTED_COLLECTIONS @
     [''net.openfederation.community.member'', ''net.openfederation.community.profile'',
      ''net.openfederation.community.attestation'']"

definition EXEMPT_OPERATIONS :: "(string \<times> string list) list" where
  "EXEMPT_OPERATIONS = [(''net.openfederation.community.member'', [''write'', ''delete''])]"

definition is_exempt :: "string \<Rightarrow> string \<Rightarrow> bool" where
  "is_exempt collection' action \<longleftrightarrow>
     (case map_of EXEMPT_OPERATIONS collection' of None \<Rightarrow> False | Some actions \<Rightarrow> action \<in> set actions)"

text \<open>
  The protected collections: those configured, with the mandatory ones, or the defaults
  when the configured list is empty or absent. A configured value that is not a list of
  strings throws.
\<close>

definition protected_collections :: "jv \<Rightarrow> exn + string list" where
  "protected_collections settings =
     (case jget (governance_config settings) ''protectedCollections'' of
        JArr cs \<Rightarrow>
          if cs = [] then Inr DEFAULT_PROTECTED
          else if \<exists>c \<in> set cs. \<not> is_str c then Inl (TypeError ''startsWith is not a function'')
          else Inr (remdups (MANDATORY_PROTECTED_COLLECTIONS @ map qualify (strings_of cs)))
      | JStr s \<Rightarrow> if s = [] then Inr DEFAULT_PROTECTED else Inl (TypeError ''map is not a function'')
      | JObj ps \<Rightarrow> if truthy (jget (JObj ps) ''length'') then Inl (TypeError ''map is not a function'')
                  else Inr DEFAULT_PROTECTED
      | _ \<Rightarrow> Inr DEFAULT_PROTECTED)"

definition allowed_free :: governance_result where
  "allowed_free = \<lparr>gr_allowed = True, gr_requiresProposal = False, gr_model = None\<rparr>"

definition govern :: "jv \<Rightarrow> string \<Rightarrow> string \<Rightarrow> request_ctx option \<Rightarrow> governance_result" where
  "govern settings communityDid coll context =
     (let model = js_or (jget settings ''governanceModel'') (JStr ''benevolent-dictator'');
          allow = \<lparr>gr_allowed = True, gr_requiresProposal = False, gr_model = Some model\<rparr>;
          deny = \<lparr>gr_allowed = False, gr_requiresProposal = True, gr_model = Some model\<rparr>
      in if model = JStr ''benevolent-dictator'' then allow
         else if model = JStr ''simple-majority'' then deny
         else if model = JStr ''on-chain'' then
           (let delegated = (case context of None \<Rightarrow> False | Some c \<Rightarrow> gx_communityDid c = communityDid)
            in if delegated \<and> coll \<noteq> SETTINGS_COLLECTION then allow else deny)
         else deny)"

text \<open>
  \<open>attestation\<close> is what the notary's \<open>verifyProof\<close> did, when one was asked; its result and
  its failure are both ignored.
\<close>

definition enforceGovernance ::
  "env \<Rightarrow> string \<Rightarrow> string \<Rightarrow> string \<Rightarrow> request_ctx option \<Rightarrow> (exn + jv) option \<Rightarrow> governance_result io" where
  "enforceGovernance env communityDid coll action context attestation =
     (if coll = SETTINGS_COLLECTION \<and> action = ''delete''
      then ret \<lparr>gr_allowed = False, gr_requiresProposal = False, gr_model = None\<rparr>
      else bindM (communitySettingsRecord env communityDid) (\<lambda>settings.
           bindM (liftE (protected_collections settings)) (\<lambda>protected.
             ret (if coll \<notin> set protected then allowed_free
                  else if is_exempt coll action then allowed_free
                  else govern settings communityDid coll context))))"

definition isCommunityDid :: "env \<Rightarrow> string \<Rightarrow> bool io" where
  "isCommunityDid env did = dbRead env (\<lambda>s. map_of (w_communities s) did \<noteq> None)"

subsection \<open>Changing the model\<close>

definition with_governance :: "jv \<Rightarrow> jv \<Rightarrow> jv \<Rightarrow> jv" where
  "with_governance current model config = jassign current
     ([(''governanceModel'', model)] @ opt_field (truthy config) ''governanceConfig'' config)"

definition write_governance ::
  "env \<Rightarrow> authority option \<Rightarrow> request \<Rightarrow> auth \<Rightarrow> string \<Rightarrow> string \<Rightarrow> jv \<Rightarrow> jv \<Rightarrow> reply io" where
  "write_governance env current req a communityDid model config currentSettings =
     (let context = resolveGovernanceContext current req;
          currentModel = js_or (jget currentSettings ''governanceModel'') (JStr ''benevolent-dictator'');
          updated = with_governance currentSettings (JStr model) config
      in bindM (enforceGovernance env communityDid SETTINGS_COLLECTION ''write'' context None) (\<lambda>governance.
           if \<not> gr_allowed governance then ret (err 403 ''GovernanceDenied'')
           else
             seqM (getKeypairForDid env communityDid)
            (bindM (runGovernedMutation current
                      \<lparr>mu_request = req, mu_context = context, mu_governance = Some governance,
                       mu_communityDid = communityDid, mu_collection = SETTINGS_COLLECTION, mu_rkey = ''self'',
                       mu_action = ''write'', mu_operation = ''put'', mu_record = Some updated\<rparr>
                      (putRecord env communityDid SETTINGS_COLLECTION ''self'' updated)) (\<lambda>_.
             seqM (auditLog env ''community.governance.setModel'' (Some (a_userId a)) (Some communityDid)
                     (JObj [(''previousModel'', currentModel), (''newModel'', JStr model)]))
              (ret (ok [(''success'', JBool True), (''governanceModel'', JStr model)]))))))"

text \<open>The object literal that is checked shares the configuration the body holds.\<close>

definition setGovernanceModel :: "env \<Rightarrow> authority option \<Rightarrow> request \<Rightarrow> reply io" where
  "setGovernanceModel env current req = handler (authM req (\<lambda>a.
     let communityDid = body_str req ''communityDid''; model = body_str req ''governanceModel'';
         config = jget (q_body req) ''governanceConfig'';
         checked = checkGovernanceSettings
           (JObj [(''governanceModel'', JStr model), (''governanceConfig'', config)]) True
     in if communityDid = [] \<or> model = [] then ret (err 400 ''InvalidRequest'')
        else guardM (requireCommunityPermission env a communityDid ''community.settings.write'') (\<lambda>_.
          if fst checked \<noteq> None then ret (err 400 ''InvalidRequest'')
          else bindM (dbRead env (\<lambda>s. indexed s communityDid SETTINGS_COLLECTION ''self'')) (\<lambda>row. case row of
              None \<Rightarrow> ret (err 404 ''NotFound'')
            | Some (_, currentSettings) \<Rightarrow>
                write_governance env current req a communityDid model
                  (jget (snd checked) ''governanceConfig'') currentSettings))))"

end
