(* ===== verification/RepoWrites.thy ===== *)
theory RepoWrites
  imports Membership Enforcement
begin

text \<open>
  The generic record endpoints: \<^verbatim>\<open>src/api/com.atproto.repo.putRecord.ts\<close>,
  \<^verbatim>\<open>com.atproto.repo.createRecord.ts\<close>, \<^verbatim>\<open>com.atproto.repo.deleteRecord.ts\<close>, and the daily limit of new
  pseudonymous accounts, \<^verbatim>\<open>src/auth/pseudonym-probation.ts\<close>.

  The lexicons of these methods put no type on the body. A collection or key that is not a
  string is compared as the value it is and becomes its text where a record path is built; the
  row of the index such a write leaves carries the same text here.
\<close>

subsection \<open>New pseudonymous accounts\<close>

text \<open>\<open>NOW()\<close> is the clock the process reads; a day of an interval is 24 hours.\<close>

definition in_probation :: "env \<Rightarrow> int \<Rightarrow> string \<Rightarrow> world \<Rightarrow> bool" where
  "in_probation env now userId s \<longleftrightarrow> (\<exists>u \<in> set (w_users s).
     u_id u = userId \<and> u_auth_type u = ''pseudonym'' \<and> now - e_probationDays env * ms_per_day < u_created_at u)"

definition writes_on :: "world \<Rightarrow> string \<Rightarrow> string \<Rightarrow> nat" where
  "writes_on s userId day = (case map_of (w_probation s) userId of
      None \<Rightarrow> 0 | Some (d, n) \<Rightarrow> if d = day then n else 0)"

definition count_daily_write :: "env \<Rightarrow> string \<Rightarrow> string \<Rightarrow> (reply + unit) io" where
  "count_daily_write env userId day s =
     (let count = writes_on s userId day
      in if e_probationWrites env \<le> int count then (Inr (Inl (err 429 ''ProbationLimit'')), s)
         else (Inr (Inr ()), s\<lparr>w_probation := AList.update userId (day, Suc count) (w_probation s)\<rparr>))"

definition enforcePseudonymProbation :: "env \<Rightarrow> request \<Rightarrow> (reply + unit) io" where
  "enforcePseudonymProbation env req = (case q_auth req of
      None \<Rightarrow> ret (Inr ())
    | Some a \<Rightarrow>
      if e_probationDays env \<le> 0 then ret (Inr ())
      else bindM (nowMs env) (\<lambda>now.
           bindM (dbRead env (in_probation env now (a_userId a))) (\<lambda>new.
             if \<not> new then ret (Inr ())
             else bindM (nowIso env) (\<lambda>t. count_daily_write env (a_userId a) (take 10 t)))))"

subsection \<open>The checks the three endpoints share\<close>

definition PUT_ERRORS :: "string list" where
  "PUT_ERRORS = [''GovernanceDenied'', ''ProbationLimit'', ''UseDedicatedEndpoint'']"
definition CREATE_ERRORS :: "string list" where
  "CREATE_ERRORS = [''GovernanceDenied'', ''ProbationLimit'', ''UseDedicatedEndpoint'']"
definition DELETE_ERRORS :: "string list" where
  "DELETE_ERRORS = [''GovernanceDenied'', ''UseDedicatedEndpoint'']"

definition DEDICATED :: "string list" where
  "DEDICATED = [''net.openfederation.forum.thread'', ''net.openfederation.forum.post'',
     ''community.lexicon.calendar.event'', ''community.lexicon.calendar.rsvp'']"

text \<open>\<open>const { ... } = req.body\<close> throws when there is no body.\<close>

definition destructured_body :: "request \<Rightarrow> jv io" where
  "destructured_body req = (if nullish (q_body req) then throw (TypeError ''Cannot destructure property'') else ret (q_body req))"

text \<open>Missing fields, a repository that is no DID, a collection with an endpoint of its own.\<close>

definition repo_target :: "jv list \<Rightarrow> jv \<Rightarrow> jv \<Rightarrow> reply + string" where
  "repo_target needed repo coll =
     (if \<exists>v \<in> set needed. \<not> truthy v then Inl (err 400 ''InvalidRequest'')
      else (case repo of
          JStr did \<Rightarrow>
            if take 4 did \<noteq> ''did:'' then Inl (err 400 ''InvalidRequest'')
            else if coll \<in> JStr ` set DEDICATED then Inl (err 400 ''UseDedicatedEndpoint'')
            else Inr did
        | _ \<Rightarrow> Inl (err 400 ''InvalidRequest'')))"

text \<open>Governance compares the collection with names: a value that is no string is none of them.\<close>

definition governance_of ::
  "env \<Rightarrow> string \<Rightarrow> jv \<Rightarrow> string \<Rightarrow> request_ctx option \<Rightarrow> governance_result io" where
  "governance_of env repo coll action context = (case coll of
      JStr c \<Rightarrow> enforceGovernance env repo c action context None
    | _ \<Rightarrow> bindM (communitySettingsRecord env repo) (\<lambda>settings.
           bindM (liftE (protected_collections settings)) (\<lambda>_. ret allowed_free)))"

definition governed :: "env \<Rightarrow> string \<Rightarrow> jv \<Rightarrow> string \<Rightarrow> request_ctx option \<Rightarrow> (reply + governance_result option) io" where
  "governed env repo coll action context =
     bindM (isCommunityDid env repo) (\<lambda>community.
       if \<not> community then ret (Inr None)
       else bindM (governance_of env repo coll action context) (\<lambda>governance.
         ret (if gr_allowed governance then Inr (Some governance) else Inl (err 403 ''GovernanceDenied''))))"

subsection \<open>The endpoints\<close>

definition written_reply :: "string \<times> string \<Rightarrow> reply" where
  "written_reply r = (case r of (cid, uri) \<Rightarrow> ok [(''uri'', JStr uri), (''cid'', JStr cid)])"

definition put_governed ::
  "env \<Rightarrow> authority option \<Rightarrow> request \<Rightarrow> request_ctx option \<Rightarrow> governance_result option \<Rightarrow> string \<Rightarrow> jv \<Rightarrow> string
   \<Rightarrow> string \<Rightarrow> jv \<Rightarrow> (string \<times> string) io" where
  "put_governed env current req context governance repo coll rkey operation rec =
     runGovernedMutation current
       \<lparr>mu_request = req, mu_context = context, mu_governance = governance, mu_communityDid = repo,
        mu_collection = prop_key env coll, mu_rkey = rkey, mu_action = ''write'', mu_operation = operation,
        mu_record = Some rec\<rparr>
       (putRecord env repo (prop_key env coll) rkey rec)"

definition putRecord_endpoint :: "env \<Rightarrow> authority option \<Rightarrow> request \<Rightarrow> reply io" where
  "putRecord_endpoint env current req = xrpc_handler PUT_ERRORS (authM req (\<lambda>a.
     bindM (destructured_body req) (\<lambda>body.
     let coll = jget body ''collection''; rkey = jget body ''rkey''; rec = jget body ''record'';
         context = resolveGovernanceContext current req
     in case repo_target [jget body ''repo'', coll, rkey, rec] (jget body ''repo'') coll of
          Inl r \<Rightarrow> ret r
        | Inr repo \<Rightarrow>
          seqM (authorizeCollectionMutation env a repo coll Update)
         (guardM (governed env repo coll ''write'' context) (\<lambda>governance.
          guardM (enforcePseudonymProbation env req) (\<lambda>_.
          seqM (getKeypairForDid env repo)
         (bindM (put_governed env current req context governance repo coll (prop_key env rkey) ''put'' rec) (\<lambda>r.
            ret (written_reply r)))))))))"

definition createRecord_endpoint :: "env \<Rightarrow> authority option \<Rightarrow> request \<Rightarrow> reply io" where
  "createRecord_endpoint env current req = xrpc_handler CREATE_ERRORS (authM req (\<lambda>a.
     bindM (destructured_body req) (\<lambda>body.
     let coll = jget body ''collection''; rkey = jget body ''rkey''; rec = jget body ''record'';
         context = resolveGovernanceContext current req
     in case repo_target [jget body ''repo'', coll, rec] (jget body ''repo'') coll of
          Inl r \<Rightarrow> ret r
        | Inr repo \<Rightarrow>
          seqM (authorizeCollectionMutation env a repo coll Create)
         (guardM (governed env repo coll ''write'' context) (\<lambda>governance.
          guardM (enforcePseudonymProbation env req) (\<lambda>_.
          seqM (getKeypairForDid env repo)
         (bindM (if truthy rkey then ret (prop_key env rkey) else generateTid env) (\<lambda>recordKey.
          bindM (put_governed env current req context governance repo coll recordKey ''create'' rec) (\<lambda>r.
            ret (written_reply r))))))))))"

definition delete_governed ::
  "env \<Rightarrow> authority option \<Rightarrow> request \<Rightarrow> request_ctx option \<Rightarrow> governance_result option \<Rightarrow> string \<Rightarrow> jv \<Rightarrow> string
   \<Rightarrow> (string \<times> string) io" where
  "delete_governed env current req context governance repo coll rkey =
     runGovernedMutation current
       \<lparr>mu_request = req, mu_context = context, mu_governance = governance, mu_communityDid = repo,
        mu_collection = prop_key env coll, mu_rkey = rkey, mu_action = ''delete'', mu_operation = ''delete'',
        mu_record = None\<rparr>
       (seqM (deleteRecord env repo (prop_key env coll) rkey) (ret ([], [])))"

definition deleteRecord_endpoint :: "env \<Rightarrow> authority option \<Rightarrow> request \<Rightarrow> reply io" where
  "deleteRecord_endpoint env current req = xrpc_handler DELETE_ERRORS (authM req (\<lambda>a.
     bindM (destructured_body req) (\<lambda>body.
     let coll = jget body ''collection''; rkey = jget body ''rkey'';
         context = resolveGovernanceContext current req
     in case repo_target [jget body ''repo'', coll, rkey] (jget body ''repo'') coll of
          Inl r \<Rightarrow> ret r
        | Inr repo \<Rightarrow>
          seqM (authorizeCollectionMutation env a repo coll Delete)
         (guardM (governed env repo coll ''delete'' context) (\<lambda>governance.
          seqM (getKeypairForDid env repo)
         (bindM (delete_governed env current req context governance repo coll (prop_key env rkey)) (\<lambda>_.
            ret (ok []))))))))"

end
