(* ===== verification/Handles.thy ===== *)
theory Handles
  imports JsValue
begin

text \<open>
  What a handle, an e-mail address, a domain and a password must look like:
  \<^verbatim>\<open>src/auth/utils.ts\<close>.
\<close>

subsection \<open>Handles, addresses, passwords\<close>

text \<open>\<open>toLowerCase\<close>, for code units below 256.\<close>

definition lower_char :: "char \<Rightarrow> char" where
  "lower_char c = (let n = of_char c :: nat
     in if 65 \<le> n \<and> n \<le> 90 \<or> 192 \<le> n \<and> n \<le> 222 \<and> n \<noteq> 215 then char_of (n + 32) else c)"

definition js_lower :: "string \<Rightarrow> string" where
  "js_lower s = map lower_char s"

definition normalizeEmail :: "jv \<Rightarrow> exn + string" where
  "normalizeEmail email = (case email of
      JStr s \<Rightarrow> Inr (js_lower (js_trim s)) | _ \<Rightarrow> Inl (TypeError ''email.trim is not a function''))"

definition normalizeHandle :: "jv \<Rightarrow> exn + string" where
  "normalizeHandle handle = (case handle of
      JStr s \<Rightarrow> Inr (js_lower (js_trim s)) | _ \<Rightarrow> Inl (TypeError ''handle.trim is not a function''))"

definition in_range :: "char \<Rightarrow> char \<Rightarrow> char \<Rightarrow> bool" where
  "in_range a z c \<longleftrightarrow> (of_char a :: nat) \<le> of_char c \<and> (of_char c :: nat) \<le> of_char z"

definition is_lower :: "char \<Rightarrow> bool" where "is_lower = in_range CHR ''a'' CHR ''z''"
definition is_upper :: "char \<Rightarrow> bool" where "is_upper = in_range CHR ''A'' CHR ''Z''"
definition is_decimal :: "char \<Rightarrow> bool" where "is_decimal = in_range CHR ''0'' CHR ''9''"
definition is_alnum :: "char \<Rightarrow> bool" where
  "is_alnum c \<longleftrightarrow> is_lower c \<or> is_upper c \<or> is_decimal c"

definition RESERVED_HANDLES :: "string list" where
  "RESERVED_HANDLES =
     [''admin'', ''administrator'', ''root'', ''system'', ''moderator'', ''mod'',
      ''null'', ''undefined'', ''api'', ''xrpc'', ''health'', ''status'',
      ''openfederation'', ''atproto'', ''bluesky'', ''support'', ''help'',
      ''official'', ''security'', ''staff'', ''team'', ''ops'', ''operations'',
      ''abuse'', ''contact'', ''info'', ''news'', ''legal'', ''privacy'', ''tos'',
      ''trust'', ''safety'', ''bot'', ''service'', ''noreply'', ''no-reply'']"

definition isValidHandle :: "string \<Rightarrow> bool" where
  "isValidHandle handle \<longleftrightarrow>
     (if length handle < 3 \<or> length handle > 30 then False
      else if hd handle = CHR ''-'' \<or> last handle = CHR ''-'' then False
      else if is_substring ''--'' handle then False
      else if handle \<in> set RESERVED_HANDLES then False
      else list_all (\<lambda>c. is_lower c \<or> is_decimal c \<or> c = CHR ''-'') handle)"

fun split_char :: "char \<Rightarrow> string \<Rightarrow> string list" where
  "split_char d [] = [[]]"
| "split_char d (c # cs) =
     (if c = d then [] # split_char d cs
      else (case split_char d cs of [] \<Rightarrow> [[c]] | w # ws \<Rightarrow> (c # w) # ws))"

text \<open>\<open>[a-zA-Z0-9](?:[a-zA-Z0-9-]{0,61}[a-zA-Z0-9])?\<close>\<close>

definition is_label :: "string \<Rightarrow> bool" where
  "is_label w \<longleftrightarrow> w \<noteq> [] \<and> length w \<le> 63 \<and> is_alnum (hd w) \<and> is_alnum (last w) \<and>
     list_all (\<lambda>c. is_alnum c \<or> c = CHR ''-'') w"

text \<open>
  The expression for an address. Its first part has no at sign, so the at sign it matches is
  the first one, and the labels it repeats have no dot.
\<close>

definition isValidEmail :: "string \<Rightarrow> bool" where
  "isValidEmail email =
     (let local = takeWhile (\<lambda>c. c \<noteq> CHR ''@'') email;
          domain = dropWhile (\<lambda>c. c \<noteq> CHR ''@'') email
      in local \<noteq> [] \<and> domain \<noteq> [] \<and>
         list_all (\<lambda>c. is_alnum c \<or> c \<in> set ''.!#$%&*+/=?^_{|}~-'' \<or> of_char c \<in> {39, 96 :: nat}) local \<and>
         (let labels = split_char CHR ''.'' (tl domain)
          in 2 \<le> length labels \<and> list_all is_label labels))"

definition password_categories :: "string \<Rightarrow> nat" where
  "password_categories password = length (filter id
     [list_ex is_lower password, list_ex is_upper password, list_ex is_decimal password,
      list_ex (\<lambda>c. \<not> is_alnum c) password])"

definition isStrongPassword :: "string \<Rightarrow> bool" where
  "isStrongPassword password \<longleftrightarrow>
     (if length password < 10 then False
      else if length password > 128 then False
      else 3 \<le> password_categories password)"

definition isValidDomain :: "string \<Rightarrow> bool" where
  "isValidDomain domain \<longleftrightarrow>
     (if length domain < 4 \<or> length domain > 253 then False
      else if list_ex (\<lambda>c. c \<in> set ''/:@#?'' \<or> of_char c = (92 :: nat) \<or> is_space c) domain then False
      else if CHR ''.'' \<notin> set domain then False
      else list_all is_label (split_char CHR ''.'' domain))"

end
