(* ===== verification/CommunityAdmin.thy ===== *)
theory CommunityAdmin
  imports RepoWrites Handles
begin

text \<open>
  The administration of a community: the endpoints \<open>create\<close>, \<open>update\<close>, \<open>delete\<close>, \<open>createRole\<close>,
  \<open>updateRole\<close>, \<open>deleteRole\<close>, \<open>linkApplication\<close>, \<open>unlinkApplication\<close>, \<open>suspend\<close>, \<open>unsuspend\<close> and
  \<open>takedown\<close> of \<^verbatim>\<open>src/api/net.openfederation.community.*.ts\<close>, and the handle rules of
  \<^verbatim>\<open>src/auth/utils.ts\<close>.
\<close>

subsection \<open>Settings and profile\<close>

definition PROFILE_COLLECTION :: string where
  "PROFILE_COLLECTION = ''net.openfederation.community.profile''"

text \<open>\<open>v === undefined || allowed.includes(v)\<close>\<close>

definition unset_or_in :: "string list \<Rightarrow> jv \<Rightarrow> bool" where
  "unset_or_in allowed v \<longleftrightarrow> v = JUndef \<or> v \<in> JStr ` set allowed"

definition given :: "string \<Rightarrow> jv \<Rightarrow> (string \<times> jv) list" where
  "given k v = opt_field (v \<noteq> JUndef) k v"

definition record_of :: "(string \<times> jv) option \<Rightarrow> jv" where
  "record_of existing = js_or (case existing of None \<Rightarrow> JUndef | Some (_, rec) \<Rightarrow> rec) (JObj [])"

text \<open>Read a record, put the given fields over it, write it back.\<close>

definition merge_into :: "env \<Rightarrow> string \<Rightarrow> string \<Rightarrow> (string \<times> jv) list \<Rightarrow> unit io" where
  "merge_into env did coll changed =
     (if changed = [] then ret ()
      else bindM (getRecord env did coll ''self'') (\<lambda>existing.
           bindM (putRecord env did coll ''self''
                    (jassign (JObj (spread_entries (record_of existing))) changed)) (\<lambda>_. ret ())))"

definition write_community :: "env \<Rightarrow> string \<Rightarrow> jv \<Rightarrow> reply io" where
  "write_community env did body =
     bindM (enforceGovernance env did SETTINGS_COLLECTION ''write'' None None) (\<lambda>governance.
       if \<not> gr_allowed governance then ret (err 403 ''GovernanceDenied'')
       else seqM (getKeypairForDid env did)
           (seqM (merge_into env did PROFILE_COLLECTION
                    (given ''displayName'' (jget body ''displayName'') @ given ''description'' (jget body ''description'')))
           (seqM (merge_into env did SETTINGS_COLLECTION
                    (given ''visibility'' (jget body ''visibility'') @ given ''joinPolicy'' (jget body ''joinPolicy'')))
            (ret (ok [(''success'', JBool True)])))))"

definition updateCommunity :: "env \<Rightarrow> request \<Rightarrow> reply io" where
  "updateCommunity env req = handler (authM req (\<lambda>a.
     let did = body_str req ''did''; body = q_body req
     in if did = [] then ret (err 400 ''InvalidRequest'')
        else bindM (dbRead env (\<lambda>s. map_of (w_communities s) did)) (\<lambda>row. case row of
            None \<Rightarrow> ret (err 404 ''NotFound'')
          | Some com \<Rightarrow>
            if c_owner_did com \<noteq> Some (a_did a) then ret (err 403 ''Forbidden'')
            else (case writableStatus (c_status com) of
                Some r \<Rightarrow> ret r
              | None \<Rightarrow>
                if \<not> unset_or_in [''public'', ''private''] (jget body ''visibility'')
                   \<or> \<not> unset_or_in [''open'', ''approval''] (jget body ''joinPolicy'')
                then ret (err 400 ''InvalidRequest'')
                else write_community env did body))))"

subsection \<open>Roles\<close>

definition permission_list :: "jv \<Rightarrow> (jv list) option" where
  "permission_list v = (case v of
      JArr ps \<Rightarrow> if set ps \<subseteq> JStr ` set ALL_PERMISSIONS then Some ps else None
    | _ \<Rightarrow> None)"

definition role_named :: "env \<Rightarrow> world \<Rightarrow> string \<Rightarrow> string \<Rightarrow> string list" where
  "role_named env s communityDid name =
     map fst (filter (\<lambda>(_, _, rec). json_text (e_text env) (jget rec ''name'') = Some name)
       (coll_rows s communityDid ROLE_COLLECTION))"

definition role_reply :: "string \<times> string \<Rightarrow> (string \<times> jv) list \<Rightarrow> reply" where
  "role_reply r extra = (case r of (cid, uri) \<Rightarrow> ok ([(''uri'', JStr uri), (''cid'', JStr cid)] @ extra))"

definition createRole :: "env \<Rightarrow> request \<Rightarrow> reply io" where
  "createRole env req = handler (authM req (\<lambda>a.
     let communityDid = body_str req ''communityDid''; name = body_str req ''name'';
         description = jget (q_body req) ''description''; permissions = jget (q_body req) ''permissions''
     in if communityDid = [] \<or> name = [] \<or> \<not> truthy permissions then ret (err 400 ''InvalidRequest'')
        else if 64 < length name then ret (err 400 ''InvalidRequest'')
        else (case permission_list permissions of
            None \<Rightarrow> ret (err 400 ''InvalidRequest'')
          | Some _ \<Rightarrow>
            guardM (requireCommunityPermission env a communityDid ''community.role.write'') (\<lambda>_.
            bindM (dbRead env (\<lambda>s. role_named env s communityDid name)) (\<lambda>existing.
              if existing \<noteq> [] then ret (err 409 ''RoleNameTaken'')
              else seqM (getKeypairForDid env communityDid)
                  (bindM (generateTid env) (\<lambda>rkey.
                   bindM (putRecord env communityDid ROLE_COLLECTION rkey
                            (JObj ([(''name'', JStr name)] @ opt_field (truthy description) ''description'' description
                                   @ [(''permissions'', permissions)]))) (\<lambda>r.
                   seqM (auditLog env ''community.role.create'' (Some (a_userId a)) (Some communityDid)
                           (JObj [(''rkey'', JStr rkey), (''name'', JStr name)]))
                    (ret (role_reply r [(''rkey'', JStr rkey)]))))))))))"

text \<open>The refusals of the permissions in the body, given the role as it is.\<close>

definition role_update_problem :: "jv \<Rightarrow> jv \<Rightarrow> (nat \<times> string) option" where
  "role_update_problem currentRole permissions =
     (if \<not> truthy permissions then None
      else (case permission_list permissions of
          None \<Rightarrow> Some (400, ''InvalidRequest'')
        | Some ps \<Rightarrow>
          if jget currentRole ''name'' = JStr ''owner'' \<and> \<not> JStr ` set OWNER_REQUIRED_PERMISSIONS \<subseteq> set ps
          then Some (400, ''OwnerLockout'') else None))"

definition write_role :: "env \<Rightarrow> auth \<Rightarrow> string \<Rightarrow> string \<Rightarrow> jv \<Rightarrow> jv \<Rightarrow> reply io" where
  "write_role env a communityDid rkey body currentRole =
     (let updated = jassign (JObj (spread_entries currentRole))
            (given ''name'' (jget body ''name'') @ given ''description'' (jget body ''description'')
             @ given ''permissions'' (jget body ''permissions''))
      in seqM (getKeypairForDid env communityDid)
        (bindM (putRecord env communityDid ROLE_COLLECTION rkey updated) (\<lambda>r.
         seqM (auditLog env ''community.role.update'' (Some (a_userId a)) (Some communityDid)
                 (JObj [(''rkey'', JStr rkey), (''name'', jget updated ''name'')]))
          (ret (role_reply r [])))))"

definition updateRole :: "env \<Rightarrow> request \<Rightarrow> reply io" where
  "updateRole env req = handler (authM req (\<lambda>a.
     let communityDid = body_str req ''communityDid''; rkey = body_str req ''rkey''; body = q_body req;
         name = jget body ''name''
     in if communityDid = [] \<or> rkey = [] then ret (err 400 ''InvalidRequest'')
        else guardM (requireCommunityPermission env a communityDid ''community.role.write'') (\<lambda>_.
          bindM (dbRead env (\<lambda>s. indexed s communityDid ROLE_COLLECTION rkey)) (\<lambda>existing. case existing of
              None \<Rightarrow> ret (err 404 ''RoleNotFound'')
            | Some (_, currentRole) \<Rightarrow>
              (case role_update_problem currentRole (jget body ''permissions'') of
                 Some (status, code) \<Rightarrow> ret (err status code)
               | None \<Rightarrow>
                 if truthy name \<and> name \<noteq> jget currentRole ''name'' then
                   bindM (dbRead env (\<lambda>s. filter (\<lambda>k. k \<noteq> rkey) (role_named env s communityDid (prop_key env name))))
                     (\<lambda>others. if others \<noteq> [] then ret (err 409 ''RoleNameTaken'')
                               else write_role env a communityDid rkey body currentRole)
                 else write_role env a communityDid rkey body currentRole)))))"

definition deleteRole :: "env \<Rightarrow> request \<Rightarrow> reply io" where
  "deleteRole env req = handler (authM req (\<lambda>a.
     let communityDid = body_str req ''communityDid''; rkey = body_str req ''rkey''
     in if communityDid = [] \<or> rkey = [] then ret (err 400 ''InvalidRequest'')
        else guardM (requireCommunityPermission env a communityDid ''community.role.write'') (\<lambda>_.
          bindM (dbRead env (\<lambda>s. indexed s communityDid ROLE_COLLECTION rkey)) (\<lambda>existing. case existing of
              None \<Rightarrow> ret (err 404 ''RoleNotFound'')
            | Some (_, role) \<Rightarrow>
              bindM (dbRead env (\<lambda>s. \<exists>(_, _, rec) \<in> set (coll_rows s communityDid MEMBER_COLLECTION).
                       json_text (e_text env) (jget rec ''roleRkey'') = Some rkey)) (\<lambda>used.
                if used then ret (err 409 ''RoleInUse'')
                else seqM (getKeypairForDid env communityDid)
                    (seqM (deleteRecord env communityDid ROLE_COLLECTION rkey)
                    (seqM (auditLog env ''community.role.delete'' (Some (a_userId a)) (Some communityDid)
                             (JObj [(''rkey'', JStr rkey), (''roleName'', jget role ''name'')]))
                     (ret (ok [(''success'', JBool True)])))))))))"

subsection \<open>Applications\<close>

definition APPLICATION_COLLECTION :: string where
  "APPLICATION_COLLECTION = ''net.openfederation.community.application''"

definition ALLOWED_APP_TYPES :: "string list" where
  "ALLOWED_APP_TYPES = [''mastodon'', ''matrix'', ''discourse'', ''custom'']"

definition approvedM :: "env \<Rightarrow> request \<Rightarrow> (auth \<Rightarrow> reply io) \<Rightarrow> reply io" where
  "approvedM env req k = authM req (\<lambda>_. case requireApprovedUser env req of Inl r \<Rightarrow> ret r | Inr a \<Rightarrow> k a)"

definition write_application :: "env \<Rightarrow> auth \<Rightarrow> string \<Rightarrow> string \<Rightarrow> string \<Rightarrow> string \<Rightarrow> jv \<Rightarrow> reply io" where
  "write_application env a communityDid appType instanceUrl href displayName =
     bindM (listRecords env communityDid APPLICATION_COLLECTION 100 [] False) (\<lambda>existing.
       if \<exists>(_, _, rec) \<in> set (fst existing). jget rec ''instanceUrl'' = JStr instanceUrl
       then ret (err 409 ''Conflict'')
       else bindM (generateTid env) (\<lambda>rkey.
            bindM (nowIso env) (\<lambda>linkedAt.
            seqM (getKeypairForDid env communityDid)
           (bindM (putRecord env communityDid APPLICATION_COLLECTION rkey
                     (JObj [(''$type'', JStr APPLICATION_COLLECTION), (''appType'', JStr appType),
                            (''instanceUrl'', JStr href), (''displayName'', js_or displayName JUndef),
                            (''linkedAt'', JStr linkedAt), (''linkedBy'', JStr (a_did a))])) (\<lambda>r.
            seqM (auditLog env ''community.linkApplication'' (Some (a_userId a)) (Some communityDid)
                    (JObj [(''appType'', JStr appType), (''instanceUrl'', JStr href), (''rkey'', JStr rkey)]))
             (ret (ok [(''uri'', JStr (snd r)), (''rkey'', JStr rkey), (''appType'', JStr appType),
                       (''instanceUrl'', JStr href), (''displayName'', js_or displayName JNull)])))))))"

definition linkApplication :: "env \<Rightarrow> request \<Rightarrow> reply io" where
  "linkApplication env req = handler (approvedM env req (\<lambda>a.
     let communityDid = body_str req ''communityDid''; appType = body_str req ''appType'';
         instanceUrl = body_str req ''instanceUrl''
     in if communityDid = [] \<or> appType = [] \<or> instanceUrl = [] then ret (err 400 ''InvalidRequest'')
        else if appType \<notin> set ALLOWED_APP_TYPES then ret (err 400 ''InvalidRequest'')
        else (case e_url env instanceUrl of
            None \<Rightarrow> ret (err 400 ''InvalidRequest'')
          | Some (protocol, href) \<Rightarrow>
            if protocol \<noteq> ''https:'' then ret (err 400 ''InvalidRequest'')
            else guardM (requireActiveCommunity env communityDid) (\<lambda>_.
                 guardM (requireCommunityPermission env a communityDid ''community.application.write'') (\<lambda>_.
                   write_application env a communityDid appType instanceUrl href (jget (q_body req) ''displayName''))))))"

definition unlinkApplication :: "env \<Rightarrow> request \<Rightarrow> reply io" where
  "unlinkApplication env req = handler (approvedM env req (\<lambda>a.
     let communityDid = body_str req ''communityDid''; rkey = body_str req ''rkey''
     in if communityDid = [] \<or> rkey = [] then ret (err 400 ''InvalidRequest'')
        else guardM (requireActiveCommunity env communityDid) (\<lambda>_.
             guardM (requireCommunityPermission env a communityDid ''community.application.delete'') (\<lambda>_.
             bindM (getRecord env communityDid APPLICATION_COLLECTION rkey) (\<lambda>existing. case existing of
                 None \<Rightarrow> ret (err 404 ''NotFound'')
               | Some (_, rec) \<Rightarrow>
                 seqM (getKeypairForDid env communityDid)
                (seqM (deleteRecord env communityDid APPLICATION_COLLECTION rkey)
                (seqM (auditLog env ''community.unlinkApplication'' (Some (a_userId a)) (Some communityDid)
                         (JObj [(''rkey'', JStr rkey), (''appType'', jget rec ''appType''),
                                (''instanceUrl'', jget rec ''instanceUrl'')]))
                 (ret (ok [(''success'', JBool True)])))))))))"

subsection \<open>Moderation and deletion\<close>

text \<open>\<open>requireRole(req, res, ['admin'])\<close>\<close>

definition adminM :: "request \<Rightarrow> (auth \<Rightarrow> reply io) \<Rightarrow> reply io" where
  "adminM req k = (case requireRole req [''admin''] of Inl r \<Rightarrow> ret r | Inr a \<Rightarrow> k a)"

definition set_status :: "string \<Rightarrow> string \<Rightarrow> string option \<Rightarrow> world \<Rightarrow> world" where
  "set_status did status reason s = s\<lparr>w_communities :=
     map (\<lambda>(d, com). (d, if d = did then com\<lparr>c_status := status, c_status_reason := reason\<rparr> else com)) (w_communities s)\<rparr>"

text \<open>The community a moderation request names, or the reply that ends it.\<close>

definition moderatedM :: "env \<Rightarrow> request \<Rightarrow> (auth \<Rightarrow> string \<Rightarrow> community_row \<Rightarrow> reply io) \<Rightarrow> reply io" where
  "moderatedM env req k = handler (adminM req (\<lambda>a.
     let did = body_str req ''did''
     in if did = [] then ret (err 400 ''InvalidRequest'')
        else bindM (dbRead env (\<lambda>s. map_of (w_communities s) did)) (\<lambda>row. case row of
            None \<Rightarrow> ret (err 404 ''NotFound'')
          | Some com \<Rightarrow> k a did com)))"

definition moderation_reason :: "request \<Rightarrow> jv" where
  "moderation_reason req = js_or (jget (q_body req) ''reason'') JNull"

definition reason_column :: "env \<Rightarrow> request \<Rightarrow> string option" where
  "reason_column env req = json_text (e_text env) (moderation_reason req)"

definition suspendCommunity :: "env \<Rightarrow> request \<Rightarrow> reply io" where
  "suspendCommunity env req = moderatedM env req (\<lambda>a did com.
     if c_status com = ''suspended'' then ret (err 400 ''AlreadySuspended'')
     else if c_status com = ''takendown'' then ret (err 400 ''AlreadyTakenDown'')
     else seqM (dbWrite env (set_status did ''suspended'' (reason_column env req)))
         (seqM (auditLog env ''community.suspend'' (Some (a_userId a)) (Some did)
                  (JObj [(''reason'', moderation_reason req)]))
          (ret (ok [(''did'', JStr did), (''status'', JStr ''suspended''), (''reason'', moderation_reason req)]))))"

definition unsuspendCommunity :: "env \<Rightarrow> request \<Rightarrow> reply io" where
  "unsuspendCommunity env req = moderatedM env req (\<lambda>a did com.
     if c_status com \<noteq> ''suspended'' then ret (err 400 ''NotSuspended'')
     else seqM (dbWrite env (set_status did ''active'' None))
         (seqM (auditLog env ''community.unsuspend'' (Some (a_userId a)) (Some did) (JObj []))
          (ret (ok [(''did'', JStr did), (''status'', JStr ''active'')]))))"

definition takedownCommunity :: "env \<Rightarrow> request \<Rightarrow> reply io" where
  "takedownCommunity env req = moderatedM env req (\<lambda>a did com.
     if c_status com = ''takendown'' then ret (err 400 ''AlreadyTakenDown'')
     else if \<not> nonempty_str (c_exported_at com) then ret (err 409 ''ExportRequired'')
     else seqM (dbWrite env (set_status did ''takendown'' (reason_column env req)))
         (seqM (auditLog env ''community.takedown'' (Some (a_userId a)) (Some did)
                  (JObj [(''reason'', moderation_reason req), (''previousStatus'', JStr (c_status com)),
                         (''exportedAt'', str_or_null (c_exported_at com))]))
          (ret (ok [(''did'', JStr did), (''status'', JStr ''takendown''), (''reason'', moderation_reason req)]))))"

text \<open>
  One transaction removes the rows of every table. The keys live in tables of their own, outside
  the model; without its repository a deleted community cannot be written to either way.
\<close>

definition erase_community :: "string \<Rightarrow> world \<Rightarrow> world" where
  "erase_community did s = s\<lparr>
     w_joins := filter (\<lambda>((c, _), _). c \<noteq> did) (w_joins s),
     w_members := filter (\<lambda>((c, _), _). c \<noteq> did) (w_members s),
     w_index := filter (\<lambda>((c, _, _), _). c \<noteq> did) (w_index s),
     w_repos := AList.delete did (w_repos s),
     w_communities := AList.delete did (w_communities s)\<rparr>"

definition deleteCommunity :: "env \<Rightarrow> request \<Rightarrow> reply io" where
  "deleteCommunity env req = handler (authM req (\<lambda>a.
     let did = body_str req ''did''
     in if did = [] then ret (err 400 ''InvalidRequest'')
        else bindM (dbRead env (\<lambda>s. map_of (w_communities s) did)) (\<lambda>row. case row of
            None \<Rightarrow> ret (err 404 ''NotFound'')
          | Some com \<Rightarrow>
            if c_owner_did com \<noteq> Some (a_did a) \<and> ''admin'' \<notin> set (a_roles a) then ret (err 403 ''Forbidden'')
            else seqM (dbWrite env (erase_community did))
                (seqM (auditLog env ''community.delete'' (Some (a_userId a)) (Some did)
                         (JObj [(''handle'', JStr (c_handle com))]))
                 (ret (ok [(''success'', JBool True)]))))))"

subsection \<open>Creating a community\<close>

text \<open>
  The identity of a new community comes from the key and directory libraries: its DID, and what
  the reply shows of it.
\<close>

record new_identity =
  ni_did :: string
  ni_shown :: "(string \<times> jv) list"

definition insert_community :: "env \<Rightarrow> string \<Rightarrow> community_row \<Rightarrow> world \<Rightarrow> exn + world" where
  "insert_community env did row s =
     (if map_of (w_communities s) did \<noteq> None \<or> (\<exists>(_, com) \<in> set (w_communities s). c_handle com = c_handle row)
      then Inl (Failure ''duplicate key value violates unique constraint'')
      else Inr (s\<lparr>w_communities := (did, row\<lparr>c_created_at := e_clock env (w_ticks s)\<rparr>) # w_communities s\<rparr>))"

definition initial_records ::
  "auth \<Rightarrow> string \<Rightarrow> string \<Rightarrow> string \<Rightarrow> string \<Rightarrow> string \<Rightarrow> string \<Rightarrow> jv \<Rightarrow> (string \<times> string \<times> jv) list" where
  "initial_records a now method memberRkey ownerRole modRole memberRole body =
     [(ROLE_COLLECTION, ownerRole, snd (getDefaultRoleRecords ! 0)),
      (ROLE_COLLECTION, modRole, snd (getDefaultRoleRecords ! 1)),
      (ROLE_COLLECTION, memberRole, snd (getDefaultRoleRecords ! 2)),
      (SETTINGS_COLLECTION, ''self'',
         JObj [(''didMethod'', JStr method), (''governanceModel'', JStr ''benevolent-dictator''),
               (''visibility'', js_or (jget body ''visibility'') (JStr ''public'')),
               (''joinPolicy'', js_or (jget body ''joinPolicy'') (JStr ''open''))]),
      (PROFILE_COLLECTION, ''self'',
         JObj [(''displayName'', js_or (jget body ''displayName'') (jget body ''handle'')),
               (''description'', js_or (jget body ''description'') (JStr [])), (''createdAt'', JStr now)]),
      (MEMBER_COLLECTION, memberRkey,
         JObj [(''did'', JStr (a_did a)), (''handle'', JStr (a_handle a)), (''roleRkey'', JStr ownerRole),
               (''joinedAt'', JStr now)])]"

definition fill_community :: "env \<Rightarrow> auth \<Rightarrow> string \<Rightarrow> string \<Rightarrow> jv \<Rightarrow> unit io" where
  "fill_community env a did method body =
     seqM (getKeypairForDid env did)
    (bindM (nowIso env) (\<lambda>now.
     bindM (generateTid env) (\<lambda>memberRkey.
     bindM (generateTid env) (\<lambda>ownerRole.
     bindM (generateTid env) (\<lambda>modRole.
     bindM (generateTid env) (\<lambda>memberRole.
       createRepo env did (Some (initial_records a now method memberRkey ownerRole modRole memberRole body))))))))"

text \<open>The recovery key and the signing key are stored in tables of their own.\<close>

definition store_keys :: "env \<Rightarrow> string \<Rightarrow> unit io" where
  "store_keys env method =
     seqM (if method = ''plc'' then dbWrite env (\<lambda>s. s) else ret ()) (dbWrite env (\<lambda>s. s))"

definition createCommunity ::
  "env \<Rightarrow> (string \<Rightarrow> string \<Rightarrow> jv \<Rightarrow> exn + new_identity) \<Rightarrow> request \<Rightarrow> reply io" where
  "createCommunity env identity req = handler (case requireApprovedUser env req of Inl r \<Rightarrow> ret r | Inr a \<Rightarrow>
     let body = q_body req; handle = body_str req ''handle''; method = body_str req ''didMethod'';
         domain = jget body ''domain''
     in if handle = [] \<or> method = [] then ret (err 400 ''InvalidRequest'')
        else if \<not> isValidHandle handle then ret (err 400 ''InvalidRequest'')
        else if method \<notin> {''plc'', ''web''} then ret (err 400 ''InvalidRequest'')
        else if method = ''web'' \<and> \<not> truthy domain then ret (err 400 ''InvalidRequest'')
        else bindM (dbRead env (\<lambda>s. \<exists>(_, com) \<in> set (w_communities s). c_handle com = handle)) (\<lambda>taken.
          if taken then ret (err 409 ''HandleTaken'')
          else bindM (liftE (identity method handle domain)) (\<lambda>new.
               seqM (dbTxn env (insert_community env (ni_did new)
                       \<lparr>c_handle = handle, c_created_by = Some (a_userId a), c_owner_did = Some (a_did a),
                        c_status = ''active'', c_exported_at = None,
                        c_did_method = method, c_created_at = 0, c_status_reason = None\<rparr>))
              (seqM (store_keys env method)
              (seqM (fill_community env a (ni_did new) method body)
              (seqM (auditLog env ''community.create'' (Some (a_userId a)) (Some (ni_did new))
                       (JObj [(''handle'', JStr handle), (''didMethod'', JStr method)]))
               (ret (Reply 201 (JObj ([(''did'', JStr (ni_did new)), (''handle'', JStr handle),
                                       (''didMethod'', JStr method)] @ ni_shown new))))))))))"

end
