(* ===== verification/Voting.thy ===== *)
theory Voting
  imports Proposals
begin

text \<open>
  \<^verbatim>\<open>src/api/net.openfederation.community.voteOnProposal.ts\<close>: casting a vote, counting it
  with the delegations it carries, deciding, and committing the decision, the proposal and
  the change it authorizes in one write.
\<close>

definition choice_key :: "vote_choice \<Rightarrow> string" where
  "choice_key v = (case v of For \<Rightarrow> ''votesFor'' | Against \<Rightarrow> ''votesAgainst'')"

definition other_key :: "vote_choice \<Rightarrow> string" where
  "other_key v = (case v of For \<Rightarrow> ''votesAgainst'' | Against \<Rightarrow> ''votesFor'')"

definition is_override :: "jv \<Rightarrow> bool" where
  "is_override proposal \<longleftrightarrow> jget proposal ''status'' = JStr OVERRIDE_STATUS"

text \<open>\<open>new Date(v)\<close> as milliseconds.\<close>

definition js_date :: "env \<Rightarrow> jv \<Rightarrow> int option" where
  "js_date env v = (case v of
      JStr s \<Rightarrow> parse_date (e_date env) s
    | JNum n \<Rightarrow> date_of_num n
    | JBool b \<Rightarrow> Some (if b then 1 else 0)
    | JNull \<Rightarrow> Some 0
    | JUndef \<Rightarrow> None
    | _ \<Rightarrow> parse_date (e_date env) (e_text env v))"

text \<open>\<open>votes.length\<close> of a vote array.\<close>

definition votes_length :: "jv \<Rightarrow> exn + nat" where
  "votes_length v = (case v of
      JArr xs \<Rightarrow> Inr (length xs) | JStr s \<Rightarrow> Inr (length s)
    | _ \<Rightarrow> Inl (TypeError ''Cannot read properties''))"

subsection \<open>May this vote be cast\<close>

definition already_voted :: "jv \<Rightarrow> string \<Rightarrow> exn + bool" where
  "already_voted proposal did = (case opt_includes (jget proposal ''votesFor'') did of
      Inl e \<Rightarrow> Inl e
    | Inr True \<Rightarrow> Inr True
    | Inr False \<Rightarrow> opt_includes (jget proposal ''votesAgainst'') did)"

definition expire_proposal :: "env \<Rightarrow> string \<Rightarrow> string \<Rightarrow> jv \<Rightarrow> reply io" where
  "expire_proposal env communityDid proposalRkey proposal =
     seqM (getKeypairForDid env communityDid)
    (bindM (nowIso env) (\<lambda>now.
     bindM (putProposalRecord env communityDid proposalRkey
              (jassign proposal [(''status'', JStr ''expired''), (''resolvedAt'', JStr now)])) (\<lambda>_.
     seqM (auditLog env ''community.proposal.expire'' None (Some communityDid) (JObj [(''rkey'', JStr proposalRkey)]))
      (ret (err 400 ''ProposalClosed'')))))"

text \<open>The checks of the locked section before anything is counted; \<open>None\<close> lets the vote through.\<close>

definition round_closed :: "env \<Rightarrow> jv \<Rightarrow> bool io" where
  "round_closed env proposal =
     (if \<not> is_override proposal then ret False
      else (case jget proposal ''overrideExpiresAt'' of
          JStr e \<Rightarrow> if e = [] then ret True else bindM (nowIso env) (\<lambda>now. ret (e \<le> now))
        | _ \<Rightarrow> ret True))"

definition has_expired :: "env \<Rightarrow> jv \<Rightarrow> bool io" where
  "has_expired env proposal =
     (let e = jget proposal ''expiresAt''
      in if is_override proposal \<or> \<not> truthy e then ret False
         else bindM (nowMs env) (\<lambda>now. ret (case js_date env e of None \<Rightarrow> False | Some t \<Rightarrow> t < now)))"

definition can_record :: "env \<Rightarrow> jv \<Rightarrow> string \<Rightarrow> reply option io" where
  "can_record env proposal did =
     (if \<not> usesVoteRecordEvidence proposal then ret None
      else bindM (catchM (bindM (canRecordVote env did) (\<lambda>b. ret (Some b))) (\<lambda>_. ret None)) (\<lambda>r.
             ret (case r of
               None \<Rightarrow> Some internal_error
             | Some False \<Rightarrow> Some (err 400 ''VoteNotRecordable'')
             | Some True \<Rightarrow> None)))"

definition vote_refusal :: "env \<Rightarrow> string \<Rightarrow> string \<Rightarrow> string \<Rightarrow> jv \<Rightarrow> reply option io" where
  "vote_refusal env voterDid communityDid proposalRkey proposal =
     (if jget proposal ''status'' \<noteq> JStr ''open'' \<and> \<not> is_override proposal
      then ret (Some (err 400 ''ProposalClosed''))
      else bindM (round_closed env proposal) (\<lambda>closed.
        if closed then ret (Some (err 400 ''ProposalClosed''))
        else bindM (has_expired env proposal) (\<lambda>expired.
          if expired then bindM (expire_proposal env communityDid proposalRkey proposal) (\<lambda>r. ret (Some r))
          else bindM (liftE (already_voted proposal voterDid)) (\<lambda>voted.
            if voted then ret (Some (err 409 ''AlreadyVoted''))
            else can_record env proposal voterDid))))"

subsection \<open>The vote and the delegations it carries\<close>

record ballot =
  b_votes :: "jv list"
  b_inputs :: "vote_input list"

definition delegations_to :: "env \<Rightarrow> world \<Rightarrow> string \<Rightarrow> string \<Rightarrow> (string \<times> string \<times> jv) list" where
  "delegations_to env s communityDid did =
     filter (\<lambda>(_, _, rec). json_text (e_text env) (jget rec ''delegateDid'') = Some did)
       (coll_rows s communityDid DELEGATION_COLLECTION)"

definition delegated_input ::
  "string \<Rightarrow> string \<Rightarrow> string \<Rightarrow> vote_choice \<Rightarrow> string \<Rightarrow> string \<Rightarrow> string \<Rightarrow> string \<Rightarrow> vote_input" where
  "delegated_input communityDid proposalRkey proposalCid vote voterDid delegator rkey cid =
     \<lparr>vi_voterDid = delegator, vi_communityDid = communityDid, vi_proposalRkey = proposalRkey,
      vi_proposalCid = proposalCid, vi_vote = vote, vi_castBy = Some voterDid,
      vi_delegation = Some (at_uri communityDid DELEGATION_COLLECTION rkey, cid)\<rparr>"

definition add_delegation ::
  "env \<Rightarrow> string \<Rightarrow> string \<Rightarrow> string \<Rightarrow> jv \<Rightarrow> vote_choice \<Rightarrow> string \<Rightarrow> ballot
   \<Rightarrow> string \<times> string \<times> jv \<Rightarrow> ballot io" where
  "add_delegation env communityDid proposalRkey proposalCid proposal vote voterDid b row =
     (case row of (rkey, cid, rec) \<Rightarrow>
       (let delegatorV = jget rec ''delegatorDid''; delegator = prop_key env delegatorV;
            mine = JArr (b_votes b); other = jget proposal (other_key vote);
            input = delegated_input communityDid proposalRkey proposalCid vote voterDid delegator rkey cid
        in if \<not> truthy delegatorV then ret b
           else bindM (liftE (case js_includes (if vote = For then mine else other) delegator of
                    Inl e \<Rightarrow> Inl e | Inr True \<Rightarrow> Inr True
                  | Inr False \<Rightarrow> js_includes (if vote = For then other else mine) delegator)) (\<lambda>voted.
             if voted then ret b
             else bindM (if usesVoteRecordEvidence proposal
                         then catchM (canRecordVote env delegator) (\<lambda>_. ret True) else ret True) (\<lambda>can.
               if \<not> can then seqM (auditUnrecordableVote env input) (ret b)
               else ret (b\<lparr>b_votes := b_votes b @ [JStr delegator], b_inputs := b_inputs b @ [input]\<rparr>)))))"

definition collect_ballot ::
  "env \<Rightarrow> string \<Rightarrow> string \<Rightarrow> string \<Rightarrow> jv \<Rightarrow> vote_choice \<Rightarrow> string \<Rightarrow> ballot io" where
  "collect_ballot env communityDid proposalRkey proposalCid proposal vote voterDid =
     bindM (liftE (js_spread (js_or (jget proposal (choice_key vote)) (JArr [])))) (\<lambda>previous.
     bindM (dbRead env (\<lambda>s. delegations_to env s communityDid voterDid)) (\<lambda>rows.
       foldM (add_delegation env communityDid proposalRkey proposalCid proposal vote voterDid)
         \<lparr>b_votes = previous @ [JStr voterDid],
          b_inputs = [\<lparr>vi_voterDid = voterDid, vi_communityDid = communityDid, vi_proposalRkey = proposalRkey,
                       vi_proposalCid = proposalCid, vi_vote = vote, vi_castBy = None, vi_delegation = None\<rparr>]\<rparr>
         rows))"

subsection \<open>Deciding\<close>

record verdict =
  v_outcome :: "outcome option"
  v_deferred :: bool
  v_decision :: "decision_ref option"
  v_write :: "engine_op option"
  v_cids :: "string list"
  v_complete :: bool

definition override_bar :: "jv \<Rightarrow> jnum option" where
  "override_bar proposal =
     (if \<not> is_override proposal then None
      else (case jget proposal ''overrideQuorum'' of JNum n \<Rightarrow> Some n | _ \<Rightarrow> None))"

definition bar_quorum :: "jv \<Rightarrow> jv \<Rightarrow> jv" where
  "bar_quorum settings proposal =
     (case override_bar proposal of Some n \<Rightarrow> JNum n | None \<Rightarrow> quorum_of settings)"

definition round_outcome :: "jnum option \<Rightarrow> nat \<Rightarrow> nat \<Rightarrow> jv \<Rightarrow> outcome option" where
  "round_outcome bar votesFor votesAgainst quorum = (case bar of
      None \<Rightarrow> decideOutcome votesFor votesAgainst quorum
    | Some n \<Rightarrow> decideOverride votesFor n)"

definition decide_round :: "jnum option \<Rightarrow> tally \<Rightarrow> jv \<Rightarrow> jv \<Rightarrow> decided" where
  "decide_round bar tly updated quorum = (case bar of
      None \<Rightarrow> decideFromRecords tly updated quorum
    | Some n \<Rightarrow>
      (let recordOutcome = decideOverride (length (t_for tly)) n;
           cacheOutcome = decideOverride (cached_count updated ''votesFor'') n
       in \<lparr>d_outcome = (if recordOutcome = cacheOutcome then recordOutcome else None),
           d_deferred = (recordOutcome \<noteq> cacheOutcome), d_cacheOutcome = cacheOutcome\<rparr>))"

definition governance_model_of :: "jv \<Rightarrow> jv" where
  "governance_model_of settings = js_nullish (jget settings ''governanceModel'') (JStr ''simple-majority'')"

definition decide_records ::
  "env \<Rightarrow> string \<Rightarrow> string \<Rightarrow> string \<Rightarrow> jv \<Rightarrow> jnum option \<Rightarrow> jv \<Rightarrow> jv \<Rightarrow> verdict io" where
  "decide_records env communityDid proposalRkey proposalCid updated bar settings quorum =
     bindM (tallyFromVoteRecords env communityDid proposalRkey updated proposalCid) (\<lambda>tly.
     bindM (liftE (votes_length (jget updated ''votesFor''))) (\<lambda>nFor.
     bindM (liftE (if bar = None then votes_length (jget updated ''votesAgainst'') else Inr 0)) (\<lambda>nAgainst.
       let d = decide_round bar tly updated quorum;
           cids = map cv_cid (t_for tly @ t_against tly); complete = (t_uncounted tly = [])
       in seqM (if d_deferred d
                then auditDeferredResolution env communityDid proposalRkey tly
                       (round_outcome bar (length (t_for tly)) (length (t_against tly)) quorum)
                       (d_cacheOutcome d) quorum
                else ret ())
            (case d_outcome d of
               None \<Rightarrow> ret \<lparr>v_outcome = None, v_deferred = d_deferred d, v_decision = None, v_write = None,
                           v_cids = cids, v_complete = complete\<rparr>
             | Some out \<Rightarrow>
                 bindM (prepareDecisionRecord env communityDid proposalRkey proposalCid updated tly
                          (quorumRule (e_text env) (governance_model_of settings) quorum) out) (\<lambda>(ref, write).
                   ret \<lparr>v_outcome = Some out, v_deferred = d_deferred d, v_decision = Some ref,
                        v_write = write, v_cids = cids, v_complete = complete\<rparr>)))))"

definition decide_cached :: "jv \<Rightarrow> jnum option \<Rightarrow> jv \<Rightarrow> verdict io" where
  "decide_cached updated bar quorum =
     bindM (liftE (votes_length (jget updated ''votesFor''))) (\<lambda>nFor.
     bindM (liftE (votes_length (jget updated ''votesAgainst''))) (\<lambda>nAgainst.
       ret \<lparr>v_outcome = round_outcome bar nFor nAgainst quorum, v_deferred = False, v_decision = None,
            v_write = None, v_cids = [], v_complete = True\<rparr>))"

subsection \<open>Committing a resolution\<close>

definition decision_json :: "decision_ref \<Rightarrow> jv" where
  "decision_json d = JObj [(''uri'', JStr (dr_uri d)), (''cid'', JStr (dr_cid d)), (''rkey'', JStr (dr_rkey d))]"

definition window_of :: "env \<Rightarrow> jv \<Rightarrow> bool \<Rightarrow> verdict \<Rightarrow> outcome \<Rightarrow> string \<Rightarrow> exn + string option" where
  "window_of env settings overrideRound v out resolvedAt =
     (if out = Approved \<and> v_decision v \<noteq> None \<and> \<not> overrideRound
      then pendingApplicationState env settings resolvedAt else Inr None)"

text \<open>The resolved proposal, before the change is known to be applicable.\<close>

definition resolved_state :: "jv \<Rightarrow> outcome \<Rightarrow> verdict \<Rightarrow> bool \<Rightarrow> string \<Rightarrow> string option \<Rightarrow> jv" where
  "resolved_state updated out v overrideRound resolvedAt applyAt = jassign updated
     ([(''status'', JStr (outcome_str out)), (''resolvedAt'', JStr resolvedAt)]
      @ (case v_decision v of None \<Rightarrow> [] | Some d \<Rightarrow> [(''decision'', decision_json d)])
      @ opt_field (overrideRound \<and> out = Approved) ''overrideOutcome'' (JStr ''carried'')
      @ (case applyAt of None \<Rightarrow> []
         | Some t \<Rightarrow> [(''status'', JStr PENDING_STATUS), (''applyAt'', JStr t)]))"

text \<open>The operations of the change, or the reason it is refused.\<close>

definition try_change :: "env \<Rightarrow> string \<Rightarrow> jv \<Rightarrow> (string + engine_op list) io" where
  "try_change env communityDid proposal =
     catchM (bindM (proposedChangeOps env communityDid proposal) (\<lambda>ops. ret (Inr ops)))
       (\<lambda>e. case e of Unapplicable m \<Rightarrow> ret (Inl m) | _ \<Rightarrow> throw e)"

definition decision_meta :: "verdict \<Rightarrow> (string \<times> jv) list" where
  "decision_meta v = (case v_decision v of
      None \<Rightarrow> []
    | Some d \<Rightarrow> [(''decisionUri'', JStr (dr_uri d)), (''decisionCid'', JStr (dr_cid d)),
        (''countedVoteCids'', JArr (map JStr (v_cids v))), (''evidenceComplete'', JBool (v_complete v))])"

definition audit_override ::
  "env \<Rightarrow> auth \<Rightarrow> string \<Rightarrow> string \<Rightarrow> jv \<Rightarrow> verdict \<Rightarrow> string \<Rightarrow> unit io" where
  "audit_override env a communityDid proposalRkey proposal v resolvedAt =
     auditLog env ''community.proposal.overrideCarried'' (Some (a_userId a)) (Some communityDid)
       (JObj ([(''rkey'', JStr proposalRkey), (''targetCollection'', jget proposal ''targetCollection''),
               (''overrideQuorum'', (case override_bar proposal of None \<Rightarrow> JNull | Some n \<Rightarrow> JNum n)),
               (''overrideOpenedAt'', jget proposal ''overrideOpenedAt''), (''resolvedAt'', JStr resolvedAt)]
              @ decision_meta v))"

definition audit_pending ::
  "env \<Rightarrow> auth \<Rightarrow> string \<Rightarrow> string \<Rightarrow> jv \<Rightarrow> verdict \<Rightarrow> string \<Rightarrow> string \<Rightarrow> unit io" where
  "audit_pending env a communityDid proposalRkey proposal v resolvedAt applyAt =
     auditLog env ''community.proposal.pendingApplication'' (Some (a_userId a)) (Some communityDid)
       (JObj ([(''rkey'', JStr proposalRkey), (''targetCollection'', jget proposal ''targetCollection''),
               (''applyAt'', JStr applyAt), (''resolvedAt'', JStr resolvedAt)] @ decision_meta v))"

definition audit_approved ::
  "env \<Rightarrow> auth \<Rightarrow> string \<Rightarrow> string \<Rightarrow> jv \<Rightarrow> verdict \<Rightarrow> bool \<Rightarrow> string option \<Rightarrow> unit io" where
  "audit_approved env a communityDid proposalRkey proposal v applied refusal =
     seqM (case refusal of
             None \<Rightarrow> ret ()
           | Some m \<Rightarrow>
               if m = [] then ret ()
               else auditLog env ''community.proposal.applyFailed'' (Some (a_userId a)) (Some communityDid)
                 (JObj [(''rkey'', JStr proposalRkey), (''targetCollection'', jget proposal ''targetCollection''),
                        (''reason'', JStr m)]))
       (auditLog env ''community.proposal.approve'' (Some (a_userId a)) (Some communityDid)
          (JObj ([(''rkey'', JStr proposalRkey), (''targetCollection'', jget proposal ''targetCollection''),
                  (''applied'', JBool applied)] @ decision_meta v)))"

definition audit_resolution ::
  "env \<Rightarrow> auth \<Rightarrow> string \<Rightarrow> string \<Rightarrow> jv \<Rightarrow> verdict \<Rightarrow> outcome \<Rightarrow> string \<Rightarrow> string option \<Rightarrow> bool
   \<Rightarrow> string option \<Rightarrow> unit io" where
  "audit_resolution env a communityDid proposalRkey proposal v out resolvedAt applyAt applied refusal =
     seqM (if is_override proposal \<and> out = Approved
           then audit_override env a communityDid proposalRkey proposal v resolvedAt else ret ())
       (case applyAt of
          Some t \<Rightarrow> audit_pending env a communityDid proposalRkey proposal v resolvedAt t
        | None \<Rightarrow>
          if out = Approved then audit_approved env a communityDid proposalRkey proposal v applied refusal
          else auditLog env ''community.proposal.reject'' (Some (a_userId a)) (Some communityDid)
                 (JObj ([(''rkey'', JStr proposalRkey)] @ decision_meta v)))"

record settled =
  se_proposal :: jv
  se_applied :: bool
  se_applyAt :: "string option"

definition settle ::
  "env \<Rightarrow> auth \<Rightarrow> string \<Rightarrow> string \<Rightarrow> jv \<Rightarrow> jv \<Rightarrow> jv \<Rightarrow> verdict \<Rightarrow> outcome \<Rightarrow> settled io" where
  "settle env a communityDid proposalRkey proposal updated settings v out =
     bindM (nowIso env) (\<lambda>resolvedAt.
     bindM (liftE (window_of env settings (is_override proposal) v out resolvedAt)) (\<lambda>applyAt.
     bindM (if out = Approved \<and> applyAt = None then try_change env communityDid proposal
            else ret (Inl [])) (\<lambda>change.
       let applied = (case change of Inl _ \<Rightarrow> False | Inr _ \<Rightarrow> True);
           ops = (case change of Inl _ \<Rightarrow> [] | Inr os \<Rightarrow> os);
           refusal = (case change of Inl m \<Rightarrow> Some m | Inr _ \<Rightarrow> None);
           resolved = resolved_state updated out v (is_override proposal) resolvedAt applyAt;
           final = (if applied \<and> is_override proposal
                    then jassign resolved [(''appliedAt'', JStr resolvedAt)] else resolved)
       in bindM (proposalWriteOp env communityDid proposalRkey final) (\<lambda>rec.
          bindM (applyWrites env communityDid
                   ((case v_write v of None \<Rightarrow> [] | Some w \<Rightarrow> [w])
                    @ [WriteRec PROPOSAL_COLLECTION proposalRkey rec] @ ops)) (\<lambda>_.
          seqM (audit_resolution env a communityDid proposalRkey proposal v out resolvedAt applyAt applied refusal)
            (ret \<lparr>se_proposal = final, se_applied = applied, se_applyAt = applyAt\<rparr>))))))"

subsection \<open>The locked section and the handler\<close>

record resolved_vote =
  rv_payload :: "(string \<times> jv) list"
  rv_decision :: "decision_ref option"
  rv_settings :: jv

definition vote_payload :: "settled \<Rightarrow> bool \<Rightarrow> (string \<times> jv) list" where
  "vote_payload se deferred =
     [(''recorded'', JBool True), (''status'', jget (se_proposal se) ''status'')]
     @ opt_field (se_applied se) ''applied'' (JBool True)
     @ (case se_applyAt se of None \<Rightarrow> []
        | Some t \<Rightarrow> if t = [] then [] else [(''pendingApplication'', JBool True), (''applyAt'', JStr t)])
     @ opt_field deferred ''resolutionDeferred'' (JBool True)"

definition count_vote ::
  "env \<Rightarrow> auth \<Rightarrow> string \<Rightarrow> string \<Rightarrow> vote_choice \<Rightarrow> string \<Rightarrow> jv \<Rightarrow> resolved_vote io" where
  "count_vote env a communityDid proposalRkey vote proposalCid proposal =
     bindM (collect_ballot env communityDid proposalRkey proposalCid proposal vote (a_did a)) (\<lambda>b.
     bindM (writeVoteRecords env (b_inputs b)) (\<lambda>written.
     bindM (communitySettingsRecord env communityDid) (\<lambda>settings.
       let updated = jassign proposal [(choice_key vote, JArr (b_votes b))];
           bar = override_bar proposal; quorum = bar_quorum settings proposal
       in seqM (getKeypairForDid env communityDid)
         (bindM (if usesVoteRecordEvidence proposal
                 then decide_records env communityDid proposalRkey proposalCid updated bar settings quorum
                 else decide_cached updated bar quorum) (\<lambda>v.
          bindM (case v_outcome v of
                   Some out \<Rightarrow> settle env a communityDid proposalRkey proposal updated settings v out
                 | None \<Rightarrow> bindM (putProposalRecord env communityDid proposalRkey updated)
                     (\<lambda>_. ret \<lparr>se_proposal = updated, se_applied = False, se_applyAt = None\<rparr>)) (\<lambda>se.
          seqM (auditLog env ''community.proposal.vote'' (Some (a_userId a)) (Some communityDid)
                  (JObj [(''rkey'', JStr proposalRkey), (''vote'', JStr (choice_str vote)),
                         (''proposalCid'', JStr proposalCid),
                         (''voteRecords'', JArr (map (\<lambda>r. JObj [(''voter'', JStr (vr_voterDid r)),
                            (''uri'', JStr (vr_uri r)), (''cid'', JStr (vr_cid r))]) written))]))
           (ret \<lparr>rv_payload = vote_payload se (v_deferred v), rv_decision = v_decision v,
                 rv_settings = settings\<rparr>)))))))"

definition voteLocked ::
  "env \<Rightarrow> auth \<Rightarrow> string \<Rightarrow> string \<Rightarrow> vote_choice \<Rightarrow> (reply + resolved_vote) io" where
  "voteLocked env a communityDid proposalRkey vote =
     bindM (dbRead env (\<lambda>s. proposal_at s communityDid proposalRkey)) (\<lambda>row. case row of
       None \<Rightarrow> ret (Inl (err 404 ''ProposalNotFound''))
     | Some (proposalCid, proposal) \<Rightarrow>
         bindM (vote_refusal env (a_did a) communityDid proposalRkey proposal) (\<lambda>refusal. case refusal of
           Some r \<Rightarrow> ret (Inl r)
         | None \<Rightarrow> bindM (count_vote env a communityDid proposalRkey vote proposalCid proposal)
                     (\<lambda>rv. ret (Inr rv))))"

definition vote_of :: "string \<Rightarrow> vote_choice option" where
  "vote_of s = (if s = ''for'' then Some For else if s = ''against'' then Some Against else None)"

definition anchor_resolved :: "env \<Rightarrow> string \<Rightarrow> string \<Rightarrow> resolved_vote \<Rightarrow> unit io" where
  "anchor_resolved env communityDid proposalRkey rv = (case rv_decision rv of
      None \<Rightarrow> ret ()
    | Some d \<Rightarrow>
        bindM (anchorDecision env communityDid proposalRkey d (rv_settings rv)) (\<lambda>receipt.
          if receipt = None then ret ()
          else bindM (anchorPendingDecisions env communityDid (rv_settings rv) RETRY_BATCH) (\<lambda>_. ret ())))"

definition voteOnProposal :: "env \<Rightarrow> request \<Rightarrow> reply io" where
  "voteOnProposal env req = handler (authM req (\<lambda>a.
     let communityDid = body_str req ''communityDid''; proposalRkey = body_str req ''proposalRkey'';
         voteS = body_str req ''vote''
     in if communityDid = [] \<or> proposalRkey = [] \<or> voteS = [] then ret (err 400 ''InvalidRequest'')
        else (case vote_of voteS of
            None \<Rightarrow> ret (err 400 ''InvalidRequest'')
          | Some vote \<Rightarrow>
            guardM (requireCommunityPermission env a communityDid ''community.governance.write'') (\<lambda>_.
              bindM (applyDueProposals env communityDid) (\<lambda>_.
              bindM (closeExpiredOverrides env communityDid) (\<lambda>_.
              bindM (withAdvisoryLock env (proposalLockKey communityDid proposalRkey)
                       (voteLocked env a communityDid proposalRkey vote)) (\<lambda>r. case r of
                  Inl rep \<Rightarrow> ret rep
                | Inr rv \<Rightarrow>
                    seqM (anchor_resolved env communityDid proposalRkey rv) (ret (ok (rv_payload rv))))))))))"

end
