(* ===== verification/VoteEffect.thy ===== *)
theory VoteEffect
  imports Voting
begin

text \<open>
  What a vote may do. The first part shows which members a ballot counts and which votes are let
  through; the second, with the locale \<open>vote_preorder\<close>, that everything before the commit of a
  resolution stays within the collections of governance; the third follows a vote to its end.
\<close>

subsection \<open>Who may vote, and what a ballot holds\<close>

lemma reads_nowIso: "(\<And>t. P (iso t)) \<Longrightarrow> reads (nowIso env) s P"
  by (simp add: reads_def)

lemma reads_catch:
  assumes "reads m s P" "\<And>e s'. untouched s s' \<Longrightarrow> reads (h e) s' P"
  shows "reads (catchM m h) s P"
  unfolding reads_def
proof (rule runs_catchI, rule runs_mono [OF assms(1) [unfolded reads_def]], goal_cases)
  case (1 r s')
  then show ?case
  proof (cases r)
    case (Inl e)
    with 1 assms(2) [of s' e] show ?thesis
      unfolding reads_def by (auto elim!: runs_mono intro: untouched_trans)
  qed simp
qed

lemma reads_hasRepo: "reads (hasRepo env did) s (\<lambda>_. True)"
  by (auto simp: hasRepo_def)

lemma reads_canRecordVote: "reads (canRecordVote env did) s (\<lambda>_. True)"
  by (simp add: canRecordVote_def reads_hasRepo)

text \<open>The members a ballot adds to the votes already held.\<close>

definition ballot_ok ::
  "env \<Rightarrow> jv \<Rightarrow> vote_choice \<Rightarrow> string \<Rightarrow> jv list \<Rightarrow> (string \<times> string \<times> jv) list \<Rightarrow> ballot \<Rightarrow> bool" where
  "ballot_ok env proposal vote voter previous rows b \<longleftrightarrow>
     (\<exists>ds. b_votes b = previous @ JStr voter # map JStr ds \<and> distinct (voter # ds) \<and>
        map vi_voterDid (b_inputs b) = voter # ds \<and>
        (\<forall>d \<in> set ds. JStr d \<notin> set previous \<and> js_includes (jget proposal (other_key vote)) d = Inr False \<and>
           (\<exists>(rkey, cid, rec) \<in> set rows. prop_key env (jget rec ''delegatorDid'') = d)))"

lemma js_includes_JArr [simp]: "js_includes (JArr xs) d = Inr (JStr d \<in> set xs)"
  by simp

lemma add_delegation_ok:
  assumes "ballot_ok env proposal vote voter previous rows b" "row \<in> set rows"
  shows "reads (add_delegation env c k cid proposal vote voter b row) s (ballot_ok env proposal vote voter previous rows)"
proof -
  obtain rkey dcid rec where row: "row = (rkey, dcid, rec)" by (cases row)
  let ?d = "prop_key env (jget rec ''delegatorDid'')"
  let ?input = "delegated_input c k cid vote voter ?d rkey dcid"
  have grow: "ballot_ok env proposal vote voter previous rows
      (b\<lparr>b_votes := b_votes b @ [JStr ?d], b_inputs := b_inputs b @ [?input]\<rparr>)"
    if "JStr ?d \<notin> set (b_votes b)" "js_includes (jget proposal (other_key vote)) ?d = Inr False"
  proof -
    from assms(1) obtain ds where ds: "b_votes b = previous @ JStr voter # map JStr ds" "distinct (voter # ds)"
        "map vi_voterDid (b_inputs b) = voter # ds"
        "\<forall>d \<in> set ds. JStr d \<notin> set previous \<and> js_includes (jget proposal (other_key vote)) d = Inr False \<and>
           (\<exists>(rkey, cid, rec) \<in> set rows. prop_key env (jget rec ''delegatorDid'') = d)"
      unfolding ballot_ok_def by (elim exE conjE) (rule that; assumption)
    with that assms(2) row show ?thesis
      unfolding ballot_ok_def
      by (intro exI [of _ "ds @ [?d]"]) (auto simp: delegated_input_def)
  qed
  show ?thesis
    unfolding add_delegation_def row Let_def prod.case
  proof (cases "truthy (jget rec ''delegatorDid'')")
    case True
    let ?P = "\<lambda>voted. \<not> voted \<longrightarrow> JStr ?d \<notin> set (b_votes b) \<and> js_includes (jget proposal (other_key vote)) ?d = Inr False"
    show "reads (if \<not> truthy (jget rec ''delegatorDid'') then ret b
           else bindM (liftE (case js_includes (if vote = For then JArr (b_votes b) else jget proposal (other_key vote)) ?d of
                    Inl e \<Rightarrow> Inl e | Inr True \<Rightarrow> Inr True
                  | Inr False \<Rightarrow> js_includes (if vote = For then jget proposal (other_key vote) else JArr (b_votes b)) ?d)) (\<lambda>voted.
             if voted then ret b
             else bindM (if usesVoteRecordEvidence proposal
                         then catchM (canRecordVote env ?d) (\<lambda>_. ret True) else ret True) (\<lambda>can.
               if \<not> can then seqM (auditUnrecordableVote env ?input) (ret b)
               else ret (b\<lparr>b_votes := b_votes b @ [JStr ?d], b_inputs := b_inputs b @ [?input]\<rparr>))))
       s (ballot_ok env proposal vote voter previous rows)"
    proof (simp only: True not_True_eq_False if_False, rule reads_bind [where P = ?P])
      show "reads (liftE (case js_includes (if vote = For then JArr (b_votes b) else jget proposal (other_key vote)) ?d of
                    Inl e \<Rightarrow> Inl e | Inr True \<Rightarrow> Inr True
                  | Inr False \<Rightarrow> js_includes (if vote = For then jget proposal (other_key vote) else JArr (b_votes b)) ?d)) s ?P"
        by (rule reads_liftE) (auto split: if_splits sum.splits bool.splits)
    next
      fix voted s' assume "?P voted"
      then show "reads (if voted then ret b
             else bindM (if usesVoteRecordEvidence proposal
                         then catchM (canRecordVote env ?d) (\<lambda>_. ret True) else ret True) (\<lambda>can.
               if \<not> can then seqM (auditUnrecordableVote env ?input) (ret b)
               else ret (b\<lparr>b_votes := b_votes b @ [JStr ?d], b_inputs := b_inputs b @ [?input]\<rparr>)))
         s' (ballot_ok env proposal vote voter previous rows)"
        using assms(1) grow
        by (auto simp: auditUnrecordableVote_def auditMissingVoteRecord_def
            intro!: reads_bind [where P = "\<lambda>_. True"] reads_seq [OF reads_auditLog] reads_catch reads_canRecordVote)
    qed
  qed (use assms(1) in simp)
qed

lemma reads_foldM:
  assumes "P acc" "\<And>acc x s'. P acc \<Longrightarrow> x \<in> set xs \<Longrightarrow> untouched s s' \<Longrightarrow> reads (f acc x) s' P"
  shows "reads (foldM f acc xs) s P"
  using assms
proof (induction xs arbitrary: acc s)
  case (Cons x xs)
  show ?case
    unfolding foldM.simps
  proof (rule reads_bind)
    show "reads (f acc x) s P" using Cons.prems by simp
    show "reads (foldM f acc' xs) s' P" if "P acc'" "untouched s s'" for acc' s'
      using that Cons.prems(2) by (intro Cons.IH) (auto intro: untouched_trans)
  qed
qed simp

lemma reads_collect_ballot:
  "reads (collect_ballot env c k cid proposal vote voter) s (\<lambda>b. \<exists>previous.
     js_spread (js_or (jget proposal (choice_key vote)) (JArr [])) = Inr previous \<and>
     ballot_ok env proposal vote voter previous (delegations_to env s c voter) b)"
  unfolding collect_ballot_def
proof (rule reads_bind [where P = "\<lambda>p. js_spread (js_or (jget proposal (choice_key vote)) (JArr [])) = Inr p"],
    goal_cases)
  case 1 show ?case by (rule reads_liftE)
next
  case (2 previous s1)
  have "delegations_to env s1 c voter = delegations_to env s c voter"
    using 2(2) by (simp add: delegations_to_def untouched_tables)
  then show ?case
    by (intro reads_bind [where P = "\<lambda>rows. rows = delegations_to env s c voter"] reads_foldM)
      (use 2(1) in \<open>auto simp: ballot_ok_def intro!: reads_mono [OF add_delegation_ok]\<close>)
qed

definition delegators :: "env \<Rightarrow> world \<Rightarrow> string \<Rightarrow> string \<Rightarrow> string set" where
  "delegators env s c voter =
     {prop_key env (jget rec ''delegatorDid'') | rkey cid rec. (rkey, cid, rec) \<in> set (delegations_to env s c voter)}"

lemma already_votedD:
  assumes "already_voted proposal voter = Inr False" "jget proposal (choice_key vote) = JArr mine"
    "jget proposal (other_key vote) = JArr others"
  shows "JStr voter \<notin> set mine \<and> JStr voter \<notin> set others"
  using assms by (cases vote)
    (auto simp: already_voted_def opt_includes_def choice_key_def other_key_def split: sum.splits bool.splits)

text \<open>
  One member, one vote: when nobody is counted twice on a proposal, nobody is after a ballot.
  A ballot adds the voter and members who delegated to the voter and have not voted on either
  side, each once; a vote record is to be written for exactly these, in order.
\<close>

theorem ballot_counts_each_member_once:
  assumes "jget proposal (choice_key vote) = JArr mine" "jget proposal (other_key vote) = JArr others"
    and "distinct (mine @ others)" "already_voted proposal voter = Inr False"
  shows "case collect_ballot env c k cid proposal vote voter s of (r, s') \<Rightarrow> untouched s s' \<and>
    (case r of Inl _ \<Rightarrow> True | Inr b \<Rightarrow> distinct (b_votes b @ others) \<and>
       (\<exists>ds. b_votes b = mine @ map JStr (voter # ds) \<and> map vi_voterDid (b_inputs b) = voter # ds \<and>
         set ds \<subseteq> delegators env s c voter))"
proof -
  have ok: "distinct (b_votes b @ others) \<and>
       (\<exists>ds. b_votes b = mine @ map JStr (voter # ds) \<and> map vi_voterDid (b_inputs b) = voter # ds \<and>
         set ds \<subseteq> delegators env s c voter)"
    if b: "ballot_ok env proposal vote voter mine (delegations_to env s c voter) b" for b
  proof -
    from b obtain ds where ds: "b_votes b = mine @ JStr voter # map JStr ds" "distinct (voter # ds)"
        "map vi_voterDid (b_inputs b) = voter # ds"
        "\<forall>d \<in> set ds. JStr d \<notin> set mine \<and> js_includes (jget proposal (other_key vote)) d = Inr False \<and>
           (\<exists>(rkey, cid, rec) \<in> set (delegations_to env s c voter). prop_key env (jget rec ''delegatorDid'') = d)"
      unfolding ballot_ok_def by (elim exE conjE) (rule that; assumption)
    then have "set ds \<subseteq> delegators env s c voter" by (fastforce simp: delegators_def)
    with ds assms already_votedD [OF assms(4,1,2)] show ?thesis
      by (auto simp: distinct_map inj_on_def)
  qed
  have prev: "js_spread (js_or (jget proposal (choice_key vote)) (JArr [])) = Inr mine"
    using assms(1) by (simp add: js_or_def)
  from reads_collect_ballot [of env c k cid proposal vote voter s] show ?thesis
    using ok prev by (auto simp: reads_def runs_def split: prod.splits sum.splits)
qed

subsection \<open>Which votes are let through\<close>

text \<open>The one write a refused vote may make: closing a proposal whose deadline has passed.\<close>

definition expiry_write :: "env \<Rightarrow> string \<Rightarrow> string \<Rightarrow> jv \<Rightarrow> world \<Rightarrow> world \<Rightarrow> bool" where
  "expiry_write env c k proposal s s' \<longleftrightarrow>
     (\<exists>now. proposal_commit env c k (jassign proposal [(''status'', JStr ''expired''), (''resolvedAt'', JStr (iso now))]) s s')"

lemma runs_expire:
  assumes "untouched s s0" "\<And>r s'. untouched s s' \<or> expiry_write env c k proposal s s' \<Longrightarrow> Q r s'"
  shows "runs (expire_proposal env c k proposal) s0 Q"
  unfolding expire_proposal_def
proof (rule runs_read_seq [OF reads_getKeypair], goal_cases)
  case (1 e s') with assms untouched_trans show ?case by blast
next
  case (2 s1)
  with assms(1) have s1: "untouched s s1" by (auto intro: untouched_trans)
  show ?case
  proof (rule runs_read_bind [where P = "\<lambda>t. \<exists>now. t = iso now"], goal_cases)
    case 1 show ?case by (rule reads_nowIso) blast
  next
    case (2 e s') with assms(2) s1 untouched_trans show ?case by blast
  next
    case (3 t s2)
    then obtain now where t: "t = iso now" by blast
    from 3 s1 have s2: "untouched s s2" by (auto intro: untouched_trans)
    have "runs (seqM (putProposalRecord env c k (jassign proposal [(''status'', JStr ''expired''), (''resolvedAt'', JStr (iso now))]))
        (seqM (auditLog env ''community.proposal.expire'' None (Some c) (JObj [(''rkey'', JStr k)]))
           (ret (err 400 ''ProposalClosed'')))) s2 Q"
      by (rule runs_put_then_log [OF s2]) (auto intro!: assms(2) simp: expiry_write_def)
    then show ?case by (simp add: t seqM_def)
  qed
qed

text \<open>The vote is let through: what the refusal returned, and what that means.\<close>

definition vote_admissible :: "jv \<Rightarrow> string \<Rightarrow> bool" where
  "vote_admissible proposal voter \<longleftrightarrow>
     (jget proposal ''status'' = JStr ''open'' \<or> jget proposal ''status'' = JStr OVERRIDE_STATUS) \<and>
     already_voted proposal voter = Inr False"

lemma runs_vote_refusal:
  "runs (vote_refusal env voter c k proposal) s (\<lambda>r s'. (untouched s s' \<or> expiry_write env c k proposal s s') \<and>
     (r = Inr None \<longrightarrow> untouched s s' \<and> vote_admissible proposal voter))"
  (is "runs _ _ ?Q")
proof (cases "jget proposal ''status'' \<noteq> JStr ''open'' \<and> \<not> is_override proposal")
  case True
  then show ?thesis by (simp add: vote_refusal_def)
next
  case False
  have closed: "reads (round_closed env proposal) s (\<lambda>_. True)" for s
    unfolding round_closed_def by (auto intro!: reads_bind [where P = "\<lambda>_. True"] reads_nowIso split: jv.split)
  have expired: "reads (has_expired env proposal) s (\<lambda>_. True)" for s
    unfolding has_expired_def Let_def by (auto intro!: reads_bind [where P = "\<lambda>_. True"] reads_nowMs split: jv.split)
  have can: "reads (can_record env proposal voter) s (\<lambda>_. True)" for s
    unfolding can_record_def
    by (auto intro!: reads_bind [where P = "\<lambda>_. True"] reads_catch reads_canRecordVote)
  show ?thesis
    unfolding vote_refusal_def if_not_P [OF False]
  proof (rule runs_read_bind [OF closed], goal_cases)
    case (2 b s1)
    show ?case
    proof (cases b)
      case True
      with 2 show ?thesis by simp
    next
      case b: False
      have "runs (bindM (has_expired env proposal) (\<lambda>expired.
          if expired then bindM (expire_proposal env c k proposal) (\<lambda>r. ret (Some r))
          else bindM (liftE (already_voted proposal voter)) (\<lambda>voted.
            if voted then ret (Some (err 409 ''AlreadyVoted''))
            else can_record env proposal voter))) s1 ?Q"
      proof (rule runs_read_bind [OF expired], goal_cases)
        case (1 e s')
        with 2 show ?case by (auto intro: untouched_trans)
      next
        case (2 x s2)
        with \<open>untouched s s1\<close> have s2: "untouched s s2" by (auto intro: untouched_trans)
        show ?case
        proof (cases x)
          case True
          have "runs (bindM (expire_proposal env c k proposal) (\<lambda>r. ret (Some r))) s2 ?Q"
            by (rule runs_bindI, rule runs_expire [OF s2]) (auto split: sum.split)
          with True show ?thesis by simp
        next
          case x: False
          have "runs (bindM (liftE (already_voted proposal voter)) (\<lambda>voted.
            if voted then ret (Some (err 409 ''AlreadyVoted'')) else can_record env proposal voter)) s2 ?Q"
          proof (rule runs_read_bind [where P = "\<lambda>v. already_voted proposal voter = Inr v"], goal_cases)
            case 1 show ?case by (rule reads_liftE)
          next
            case (2 e s') with s2 show ?case by (auto intro: untouched_trans)
          next
            case (3 v s3)
            with s2 have s3: "untouched s s3" by (auto intro: untouched_trans)
            show ?case
            proof (cases v)
              case False
              with 3 \<open>\<not> (jget proposal ''status'' \<noteq> JStr ''open'' \<and> \<not> is_override proposal)\<close>
              have "vote_admissible proposal voter" by (auto simp: vote_admissible_def is_override_def)
              with False show ?thesis
                by (auto intro!: runs_reads [OF can] untouched_trans [OF s3])
            qed (use s3 in simp)
          qed
          with x show ?thesis by simp
        qed
      qed
      with b show ?thesis by simp
    qed
  qed simp
qed

subsection \<open>A relation that counting a vote respects\<close>

text \<open>
  What a preorder has to allow for everything up to the commit of a resolution to respect it:
  entries of the log, and records in the collections of votes and proposals.
\<close>

locale vote_preorder = world_preorder R for R :: "world \<Rightarrow> world \<Rightarrow> bool" +
  fixes env :: env
  assumes R_audit: "moves R (auditLog env action actor target meta)"
    and R_put: "c \<in> {VOTE_COLLECTION, PROPOSAL_COLLECTION} \<Longrightarrow> moves R (putRecord env d c k rec)"
begin

lemma mv_jv:
  assumes "moves R a" "moves R b" "\<And>x. moves R (c x)" "\<And>x. moves R (d x)" "\<And>x. moves R (e x)"
    "\<And>x. moves R (f x)" "\<And>x. moves R (g x)"
  shows "moves R (case v of JUndef \<Rightarrow> a | JNull \<Rightarrow> b | JBool x \<Rightarrow> c x | JNum x \<Rightarrow> d x | JStr x \<Rightarrow> e x
    | JArr x \<Rightarrow> f x | JObj x \<Rightarrow> g x)"
  using assms by (cases v) simp_all

lemma mv_exn:
  assumes "\<And>m. moves R (a m)" "moves R b" "\<And>m. moves R (c m)" "\<And>m. moves R (d m)" "\<And>x y z. moves R (f x y z)"
  shows "moves R (case e of TypeError m \<Rightarrow> a m | RangeError \<Rightarrow> b | Failure m \<Rightarrow> c m | Unapplicable m \<Rightarrow> d m
    | HttpError x y z \<Rightarrow> f x y z)"
  using assms by (cases e) simp_all

lemma mv_bool: "moves R a \<Longrightarrow> moves R b \<Longrightarrow> moves R (case v of True \<Rightarrow> a | False \<Rightarrow> b)"
  by (cases v) simp_all

lemma mv_put_vote: "moves R (putRecord env d VOTE_COLLECTION k rec)"
  by (rule R_put) simp

lemma mv_put_proposal: "moves R (putRecord env d PROPOSAL_COLLECTION k rec)"
  by (rule R_put) simp

lemmas mv_steps = mv_rules mv_reads mv_jv mv_exn mv_bool R_audit mv_put_vote mv_put_proposal

lemma mv_guards:
  "moves R (loadCommunityContext env c x)" "moves R (getCallerCommunityCapabilities env c a)"
  "moves R (getCommunityAccess env c x)" "moves R (requireCommunityPermission env a c p)"
  "moves R (requireCommunityReadable env req c)" "moves R (communitySettingsRecord env c)"
  "moves R (countEligibleVoters env c)" "moves R (canRecordVote env d)" "moves R (canRecordObjection env d)"
  unfolding loadCommunityContext_def getCallerCommunityCapabilities_def getCommunityAccess_def
    requireCommunityPermission_def requireCommunityReadable_def communitySettingsRecord_def countEligibleVoters_def
    canRecordVote_def canRecordObjection_def
  by (intro mv_steps)+

lemma mv_guardM: "moves R g \<Longrightarrow> (\<And>x. moves R (k x)) \<Longrightarrow> moves R (guardM g k)"
  unfolding guardM_def by (intro mv_steps)

lemma mv_authM: "(\<And>a. moves R (k a)) \<Longrightarrow> moves R (authM req k)"
  unfolding authM_def by (intro mv_steps)

lemma mv_handler: "moves R m \<Longrightarrow> moves R (handler m)"
  unfolding handler_def by (intro mv_steps)

lemma mv_records:
  "moves R (collectEligibilityEvidence env c v)" "moves R (auditMissingVoteRecord env i reason)"
  "moves R (auditUnrecordableVote env i)"
  unfolding collectEligibilityEvidence_def auditMissingVoteRecord_def auditUnrecordableVote_def Let_def
  by (intro mv_steps)+

lemma mv_writeVoteRecord: "moves R (writeVoteRecord env i)"
  unfolding writeVoteRecord_def by (intro mv_steps mv_records)

lemma mv_writeVoteRecords: "moves R (writeVoteRecords env is)"
  unfolding writeVoteRecords_def by (intro mv_steps mv_writeVoteRecord)

lemma mv_proposalWriteOp: "moves R (proposalWriteOp env c k rec)"
  unfolding proposalWriteOp_def by (intro mv_steps)

lemma mv_putProposalRecord: "moves R (putProposalRecord env c k rec)"
  unfolding putProposalRecord_def by (intro mv_steps mv_proposalWriteOp)

lemma mv_resolution:
  "moves R (tallyFromVoteRecords env c k p cid)" "moves R (fresh_decision env c k cid p t q out previous)"
  "moves R (prepareDecisionRecord env c k cid p t q out)" "moves R (auditDeferredResolution env c k t x y q)"
  unfolding tallyFromVoteRecords_def fresh_decision_def prepareDecisionRecord_def auditDeferredResolution_def Let_def
  by (intro mv_steps)+

lemma mv_window_reads:
  "moves R (countableObjections env c k p)" "moves R (heldProposalState env c p s os t)" "moves R (now_or env n)"
  "moves R (recordToWrite env c p)" "moves R (proposalApplicationProblem env c p)" "moves R (proposedChangeOps env c p)"
  unfolding countableObjections_def heldProposalState_def now_or_def recordToWrite_def proposalApplicationProblem_def
    proposedChangeOps_def Let_def
  by (intro mv_steps mv_guards)+

lemma mv_vote_refusal: "moves R (vote_refusal env v c k p)"
  unfolding vote_refusal_def round_closed_def has_expired_def can_record_def expire_proposal_def Let_def
  by (intro mv_steps mv_guards mv_putProposalRecord)

lemma mv_collect_ballot: "moves R (collect_ballot env c k cid p v d)"
  unfolding collect_ballot_def add_delegation_def Let_def by (intro mv_steps mv_guards mv_records)

lemma mv_deciding: "moves R (decide_records env c k cid u b st q)" "moves R (decide_cached u b q)"
  unfolding decide_records_def decide_cached_def Let_def by (intro mv_steps mv_resolution)+

lemma mv_audit_resolution: "moves R (audit_resolution env a c k p v out t ap app ref)"
  unfolding audit_resolution_def audit_override_def audit_pending_def audit_approved_def by (intro mv_steps)

end

subsection \<open>The records outside the collections of governance\<close>

definition rec_at :: "world \<Rightarrow> string \<Rightarrow> string \<Rightarrow> string \<Rightarrow> jv option" where
  "rec_at s d c j = Option.bind (map_of (w_repos s) d) (\<lambda>t. map_of t (c, j))"

definition governance_collections :: "string set" where
  "governance_collections = {VOTE_COLLECTION, PROPOSAL_COLLECTION, DECISION_COLLECTION}"

text \<open>Only records satisfying \<open>X\<close> may differ, in the repositories and in the cache.\<close>

definition same_except :: "(string \<times> string \<times> string \<Rightarrow> bool) \<Rightarrow> world \<Rightarrow> world \<Rightarrow> bool" where
  "same_except X s s' \<longleftrightarrow>
     (\<forall>d c j. \<not> X (d, c, j) \<longrightarrow> rec_at s' d c j = rec_at s d c j \<and> indexed s' d c j = indexed s d c j)"

definition in_governance :: "string \<times> string \<times> string \<Rightarrow> bool" where
  "in_governance k \<longleftrightarrow> fst (snd k) \<in> governance_collections"

lemma same_except_refl: "same_except X s s"
  by (simp add: same_except_def)

lemma same_except_trans: "same_except X s t \<Longrightarrow> same_except X t u \<Longrightarrow> same_except X s u"
  by (simp add: same_except_def)

lemma same_except_untouched: "untouched s t \<Longrightarrow> same_except X s t"
  using untouched_indexed by (simp add: same_except_def rec_at_def) (simp add: untouched_def)

lemma same_except_mono: "same_except X s t \<Longrightarrow> (\<And>k. X k \<Longrightarrow> Y k) \<Longrightarrow> same_except Y s t"
  unfolding same_except_def by blast

lemma one_commit_same_except:
  assumes "commit_performs env" "one_commit env did ps s s'"
    and "\<And>p. p \<in> set ps \<Longrightarrow> X (did, op_key (tree_op (fst p)))"
  shows "same_except X s s'"
  unfolding same_except_def
proof (intro allI impI conjI)
  fix d c j assume no: "\<not> X (d, c, j)"
  have ix: "op_key (index_op did p) = (did, op_key (tree_op (fst p)))" for p
    by (cases p; cases "fst p") auto
  have key: "(d, c, j) \<notin> op_key ` set (map (index_op did) ps)"
    using no assms(3) by (auto simp: ix)
  with assms(2) show "indexed s' d c j = indexed s d c j"
    unfolding one_commit_def indexed_look by blast
  from assms(2) obtain t where t: "map_of (w_repos s) did = Some t" by (auto simp: one_commit_def)
  show "rec_at s' d c j = rec_at s d c j"
  proof (cases "d = did")
    case True
    with key have "(c, j) \<notin> set (map (op_key \<circ> tree_op \<circ> fst) ps)" by (force simp: ix)
    from one_commit_tree(1) [OF assms(1,2) t this] t True show ?thesis by (auto simp: rec_at_def)
  next
    case False
    with assms(2) show ?thesis by (auto simp: rec_at_def one_commit_def)
  qed
qed

text \<open>With a library that commits what it is asked, counting leaves the other collections alone.\<close>

definition outside :: "env \<Rightarrow> world \<Rightarrow> world \<Rightarrow> bool" where
  "outside env s s' \<longleftrightarrow> (commit_performs env \<longrightarrow> same_except in_governance s s')"

lemma outside_untouched: "untouched s t \<Longrightarrow> outside env s t"
  by (simp add: outside_def same_except_untouched)

lemma outside_commit:
  assumes "one_commit env d [put_op b c k rec cid] s s'" "c \<in> governance_collections"
  shows "outside env s s'"
  unfolding outside_def
proof
  assume "commit_performs env"
  from this assms(1) show "same_except in_governance s s'"
    by (rule one_commit_same_except) (use assms(2) in \<open>simp add: in_governance_def\<close>)
qed

interpretation outside: vote_preorder "outside env" env for env
proof unfold_locales
  show "outside env s s" for s by (simp add: outside_def same_except_refl)
  show "outside env s t \<Longrightarrow> outside env t u \<Longrightarrow> outside env s u" for s t u
    unfolding outside_def using same_except_trans by blast
  show "outside env s (s\<lparr>w_ops := n\<rparr>)" "outside env s (s\<lparr>w_ticks := n\<rparr>)" "outside env s (s\<lparr>w_tids := n\<rparr>)" for s n
    by (simp_all add: outside_untouched)
  show "moves (outside env) (auditLog env action actor target meta)" for action actor target meta
    unfolding moves_runs by (intro allI runs_reads [OF reads_auditLog] outside_untouched)
  show "moves (outside env) (putRecord env d c k rec)" if "c \<in> {VOTE_COLLECTION, PROPOSAL_COLLECTION}" for d c k rec
    unfolding moves_runs
    by (intro allI runs_putRecord) (use that in \<open>auto intro: outside_untouched outside_commit simp: governance_collections_def\<close>)
qed

subsection \<open>What a vote can change\<close>

text \<open>A verdict on a round, and when it lets the change be made with the decision.\<close>

definition round_decided :: "env \<Rightarrow> world \<Rightarrow> string \<Rightarrow> string \<Rightarrow> string \<Rightarrow> jv \<Rightarrow> jv \<Rightarrow> jv \<Rightarrow> outcome \<Rightarrow> bool" where
  "round_decided env s c k cid proposal updated settings out \<longleftrightarrow>
     (if usesVoteRecordEvidence proposal
      then d_outcome (decide_round (override_bar proposal)
             (tally_of updated (vote_ctx_of c k updated cid) (vote_rows env s c k)) updated (bar_quorum settings proposal)) = Some out
      else \<exists>f a. votes_length (jget updated ''votesFor'') = Inr f \<and> votes_length (jget updated ''votesAgainst'') = Inr a \<and>
        round_outcome (override_bar proposal) f a (bar_quorum settings proposal) = Some out)"

definition acts_at_once :: "jv \<Rightarrow> jv \<Rightarrow> bool" where
  "acts_at_once settings proposal \<longleftrightarrow>
     is_override proposal \<or> timelockHours settings \<le> 0 \<or> \<not> usesVoteRecordEvidence proposal"

definition verdict_ok :: "env \<Rightarrow> world \<Rightarrow> string \<Rightarrow> string \<Rightarrow> string \<Rightarrow> jv \<Rightarrow> jv \<Rightarrow> jv \<Rightarrow> verdict \<Rightarrow> bool" where
  "verdict_ok env s c k cid proposal updated settings v \<longleftrightarrow>
     (\<forall>out. v_outcome v = Some out \<longrightarrow> round_decided env s c k cid proposal updated settings out) \<and>
     (usesVoteRecordEvidence proposal \<and> v_outcome v \<noteq> None \<longrightarrow> v_decision v \<noteq> None) \<and>
     (case v_write v of None \<Rightarrow> True | Some w \<Rightarrow> \<exists>rkey rec. w = WriteRec DECISION_COLLECTION rkey rec)"

lemma reads_tally:
  "reads (tallyFromVoteRecords env c k p cid) s
     (\<lambda>t. t = tally_of p (vote_ctx_of c k p cid) (vote_rows env s c k))"
  unfolding tallyFromVoteRecords_def
  by (auto intro!: reads_bind [where P = "\<lambda>rows. rows = vote_rows env s c k"])

lemma reads_generateTid [simp]: "reads (generateTid env) s (\<lambda>_. True)"
  by (simp add: reads_def)

lemma reads_fresh:
  "reads (fresh_decision env c k cid p t q out previous) s
     (\<lambda>(ref, w). case w of None \<Rightarrow> True | Some w \<Rightarrow> \<exists>rkey rec. w = WriteRec DECISION_COLLECTION rkey rec)"
  unfolding fresh_decision_def Let_def
  by (rule reads_bind [OF reads_generateTid], rule reads_bind [where P = "\<lambda>_. True"], rule reads_nowIso, simp,
      rule reads_bind [where P = "\<lambda>_. True"]) (auto simp: cidForRecord_def intro: reads_liftE)

lemma reads_prepareDecision:
  "reads (prepareDecisionRecord env c k cid p t q out) s
     (\<lambda>(ref, w). case w of None \<Rightarrow> True | Some w \<Rightarrow> \<exists>rkey rec. w = WriteRec DECISION_COLLECTION rkey rec)"
  unfolding prepareDecisionRecord_def Let_def
  by (rule reads_bind [where P = "\<lambda>_. True"])
    (auto split: option.split intro: reads_fresh intro!: reads_seq [OF reads_auditLog])

lemma reads_liftE_any [simp]: "reads (liftE r) s (\<lambda>_. True)"
  by (rule reads_liftE) simp

lemma reads_decide_records:
  assumes "usesVoteRecordEvidence proposal"
  shows "reads (decide_records env c k cid updated (override_bar proposal) settings (bar_quorum settings proposal)) s
    (verdict_ok env s c k cid proposal updated settings)"
  unfolding decide_records_def
proof (rule reads_bind [OF reads_tally], goal_cases)
  case (1 tly s1)
  show ?case
  proof (rule reads_bind [where P = "\<lambda>_. True"], simp, rule reads_bind [where P = "\<lambda>_. True"], simp,
      unfold Let_def, rule reads_seq [where P = "\<lambda>_. True"], goal_cases)
    case 1 show ?case by (auto simp: auditDeferredResolution_def)
  next
    case (2 x s2 y s3 s4)
    show ?case
    proof (cases "d_outcome (decide_round (override_bar proposal) tly updated (bar_quorum settings proposal))")
      case None
      then show ?thesis by (simp add: verdict_ok_def)
    next
      case (Some out)
      with assms \<open>tly = _\<close> have "round_decided env s c k cid proposal updated settings out"
        by (simp add: round_decided_def)
      with Some show ?thesis
        by (auto simp: verdict_ok_def intro!: reads_bind [OF reads_prepareDecision])
    qed
  qed
qed

lemma reads_decide_cached:
  assumes "\<not> usesVoteRecordEvidence proposal"
  shows "reads (decide_cached updated (override_bar proposal) (bar_quorum settings proposal)) s
    (verdict_ok env s c k cid proposal updated settings)"
  unfolding decide_cached_def
  by (rule reads_bind, rule reads_liftE, assumption, rule reads_bind, rule reads_liftE, assumption)
    (use assms in \<open>auto simp: verdict_ok_def round_decided_def\<close>)

text \<open>The record a proposal names, apart from the collections of governance.\<close>

definition named_by :: "env \<Rightarrow> string \<Rightarrow> jv \<Rightarrow> string \<times> string \<times> string \<Rightarrow> bool" where
  "named_by env c proposal k \<longleftrightarrow> k = (c, target_coll env proposal, target_rkey env proposal)"

lemma change_ops_keys: "set (map engine_key (change_ops env s c proposal)) \<subseteq> {(target_coll env proposal, target_rkey env proposal)}"
  by (auto simp: change_ops_def Let_def)

text \<open>The effect of settling a round.\<close>

definition settle_effect :: "env \<Rightarrow> string \<Rightarrow> jv \<Rightarrow> jv \<Rightarrow> verdict \<Rightarrow> outcome \<Rightarrow> world \<Rightarrow> world \<Rightarrow> bool" where
  "settle_effect env c proposal settings v out s s' \<longleftrightarrow> outside env s s' \<or>
     (commit_performs env \<longrightarrow> out = Approved \<and> (v_decision v = None \<or> is_override proposal \<or> timelockHours settings \<le> 0) \<and>
        same_except (\<lambda>k. in_governance k \<or> named_by env c proposal k) s s')"

lemma settle_effect_batch:
  assumes "batch_committed env c (decs @ WriteRec PROPOSAL_COLLECTION k rec # ops) s s'"
    and "\<forall>w \<in> set decs. \<exists>rkey r. w = WriteRec DECISION_COLLECTION rkey r"
    and "ops = [] \<or> set (map engine_key ops) \<subseteq> {(target_coll env proposal, target_rkey env proposal)} \<and> out = Approved \<and>
      (v_decision v = None \<or> is_override proposal \<or> timelockHours settings \<le> 0)"
  shows "settle_effect env c proposal settings v out s s'"
proof -
  let ?batch = "decs @ WriteRec PROPOSAL_COLLECTION k rec # ops"
  from assms(1) obtain ps where ps: "prepare_ops env (known_keys s c ?batch) ?batch = Inr ps" "one_commit env c ps s s'"
    by (auto simp: batch_committed_def)
  have "op_key (tree_op (fst p)) \<in> set (map engine_key ?batch)" if "p \<in> set ps" for p
    using that unfolding prepare_ops_keys [OF ps(1), symmetric] by auto
  moreover have "in_governance (c, x) \<or> (ops \<noteq> [] \<and> named_by env c proposal (c, x))"
    if x: "x \<in> set (map engine_key ?batch)" for x
  proof -
    from x consider w where "w \<in> set decs" "x = engine_key w" | "x = (PROPOSAL_COLLECTION, k)"
      | "x \<in> set (map engine_key ops)" by auto
    then show ?thesis
    proof cases
      case 1
      with assms(2) show ?thesis by (auto simp: in_governance_def governance_collections_def)
    next
      case 2
      then show ?thesis by (simp add: in_governance_def governance_collections_def)
    next
      case 3
      with assms(3) show ?thesis by (cases ops) (auto simp: named_by_def)
    qed
  qed
  ultimately have key: "in_governance (c, op_key (tree_op (fst p))) \<or> (ops \<noteq> [] \<and> named_by env c proposal (c, op_key (tree_op (fst p))))"
    if "p \<in> set ps" for p
    using that by blast
  show ?thesis
  proof (cases "ops = []")
    case True
    with key have "outside env s s'"
      unfolding outside_def by (blast intro: one_commit_same_except [OF _ ps(2)])
    then show ?thesis by (simp add: settle_effect_def)
  next
    case False
    with key have "commit_performs env \<longrightarrow> same_except (\<lambda>k. in_governance k \<or> named_by env c proposal k) s s'"
      by (blast intro: one_commit_same_except [OF _ ps(2)])
    with False assms(3) show ?thesis by (auto simp: settle_effect_def)
  qed
qed

lemma settle_effect_untouched: "untouched s s' \<Longrightarrow> settle_effect env c proposal settings v out s s'"
  by (simp add: settle_effect_def outside_untouched)

lemma settle_effect_then: "settle_effect env c proposal settings v out s t \<Longrightarrow> untouched t u \<Longrightarrow>
  settle_effect env c proposal settings v out s u"
  unfolding settle_effect_def
  by (elim disjE) (auto simp: outside_def intro: same_except_trans same_except_untouched)

lemma window_of_None:
  assumes "window_of env settings b v Approved t = Inr None"
  shows "v_decision v = None \<or> b \<or> timelockHours settings \<le> 0"
  using assms by (auto simp: window_of_def pendingApplicationState_def Let_def split: if_splits sum.splits)

lemma reads_try_change:
  "reads (try_change env c proposal) s (\<lambda>r. case r of Inl _ \<Rightarrow> True | Inr ops \<Rightarrow> ops = change_ops env s c proposal)"
  unfolding try_change_def
proof (rule reads_catch)
  show "reads (bindM (proposedChangeOps env c proposal) (\<lambda>ops. ret (Inr ops))) s
     (\<lambda>r. case r of Inl _ \<Rightarrow> True | Inr ops \<Rightarrow> ops = change_ops env s c proposal)"
    by (rule reads_bind [OF reads_changeOps]) simp
qed (simp split: exn.split)

lemma reads_audit_resolution: "reads (audit_resolution env a c k p v out t ap applied refusal) s (\<lambda>_. True)"
  unfolding audit_resolution_def audit_override_def audit_pending_def audit_approved_def
  by (auto intro!: reads_seq [where P = "\<lambda>_. True"] split: option.split)

lemma runs_settle:
  assumes v: "verdict_ok env s0 c k cid proposal updated settings v"
  shows "runs (settle env a c k proposal updated settings v out) s (\<lambda>_. settle_effect env c proposal settings v out s)"
  unfolding settle_def
proof (rule runs_read_bind [where P = "\<lambda>_. True"], rule reads_nowIso, simp, erule settle_effect_untouched,
    rule runs_read_bind [where P = "\<lambda>r. window_of env settings (is_override proposal) v out _ = Inr r"],
    rule reads_liftE, assumption, rule settle_effect_untouched, erule untouched_trans, assumption, goal_cases)
  case (1 t s1 applyAt s2)
  then have s2: "untouched s s2" by (auto intro: untouched_trans)
  let ?P = "\<lambda>change. case change of Inl _ \<Rightarrow> True
      | Inr ops \<Rightarrow> out = Approved \<and> applyAt = None \<and> ops = change_ops env s c proposal"
  have change: "reads (if out = Approved \<and> applyAt = None then try_change env c proposal else ret (Inl [])) s2 ?P"
    using reads_try_change [of env c proposal s2] by (auto simp: untouched_spec [OF s2] elim!: reads_mono split: sum.splits)
  show ?case
  proof (rule runs_read_bind [OF change], rule settle_effect_untouched, rule untouched_trans [OF s2], assumption,
      unfold Let_def, rule runs_read_bind [OF reads_writeOp], rule settle_effect_untouched, goal_cases)
    case (1 ch s3 e s')
    then show ?case using s2 by (auto intro: untouched_trans)
  next
    case (2 ch s3 rec s4)
    with s2 have s4: "untouched s s4" by (auto intro: untouched_trans)
    let ?ops = "case ch of Inl _ \<Rightarrow> [] | Inr os \<Rightarrow> os"
    let ?dec = "case v_write v of None \<Rightarrow> [] | Some w \<Rightarrow> [w]"
    have batch: "settle_effect env c proposal settings v out s s'"
      if "batch_committed env c (?dec @ WriteRec PROPOSAL_COLLECTION k rec # ?ops) s s'" for s'
    proof (rule settle_effect_batch [OF that])
      show "\<forall>w \<in> set ?dec. \<exists>rkey r. w = WriteRec DECISION_COLLECTION rkey r"
        using v by (auto simp: verdict_ok_def split: option.splits)
      show "?ops = [] \<or> set (map engine_key ?ops) \<subseteq> {(target_coll env proposal, target_rkey env proposal)} \<and> out = Approved \<and>
          (v_decision v = None \<or> is_override proposal \<or> timelockHours settings \<le> 0)"
        using \<open>?P ch\<close> \<open>window_of env settings (is_override proposal) v out t = Inr applyAt\<close> change_ops_keys window_of_None
        by (cases ch) auto
    qed
    show ?case
    proof (rule runs_bindI, rule runs_applyWrites, goal_cases)
      case (4 ps s')
      then have b: "batch_committed env c (?dec @ WriteRec PROPOSAL_COLLECTION k rec # ?ops) s s'"
        by (auto simp: batch_committed_def untouched_one_commit [OF s4])
      show ?case
        unfolding sum.case
        by (rule runs_reads [where P = "\<lambda>_. True"], rule reads_seq [OF reads_audit_resolution], simp)
          (rule settle_effect_then [OF batch [OF b]])
    qed (use batch s4 in \<open>auto simp: batch_committed_def untouched_one_commit intro: settle_effect_untouched\<close>)
  qed
qed

definition updated_by :: "jv \<Rightarrow> vote_choice \<Rightarrow> string \<Rightarrow> jv \<Rightarrow> bool" where
  "updated_by proposal vote voter updated \<longleftrightarrow>
     (\<exists>votes. JStr voter \<in> set votes \<and> updated = jassign proposal [(choice_key vote, JArr votes)])"

definition vote_effect :: "env \<Rightarrow> string \<Rightarrow> string \<Rightarrow> string \<Rightarrow> jv \<Rightarrow> (jv \<Rightarrow> bool) \<Rightarrow> world \<Rightarrow> world \<Rightarrow> bool" where
  "vote_effect env c k cid proposal B s s' \<longleftrightarrow> outside env s s' \<or>
     (acts_at_once (settings_of s c) proposal \<and>
      (\<exists>u updated. outside env s u \<and> B updated \<and> round_decided env u c k cid proposal updated (settings_of s c) Approved) \<and>
      same_except (\<lambda>x. in_governance x \<or> named_by env c proposal x) s s')"

lemma outside_trans: "outside env s t \<Longrightarrow> outside env t u \<Longrightarrow> outside env s u"
  using outside.R_trans .

lemma outside_settings: "commit_performs env \<Longrightarrow> outside env s t \<Longrightarrow> settings_of t = settings_of s"
  by (simp add: outside_def same_except_def in_governance_def governance_collections_def settings_of_def fun_eq_iff)

lemma settle_is_vote_effect:
  assumes "commit_performs env" "outside env s u" "outside env s t" "settings = settings_of s c"
    and "verdict_ok env u c k cid proposal updated settings v" "v_outcome v = Some out" "B updated"
    and "settle_effect env c proposal settings v out t s'"
  shows "vote_effect env c k cid proposal B s s'"
  using assms(8) unfolding settle_effect_def
proof
  assume "outside env t s'"
  with assms(3) have "outside env s s'" by (rule outside_trans)
  then show ?thesis by (simp add: vote_effect_def)
next
  assume e: "commit_performs env \<longrightarrow> out = Approved \<and> (v_decision v = None \<or> is_override proposal \<or> timelockHours settings \<le> 0) \<and>
      same_except (\<lambda>k. in_governance k \<or> named_by env c proposal k) t s'"
  have "same_except (\<lambda>k. in_governance k \<or> named_by env c proposal k) s t"
    using assms(1,3) by (auto simp: outside_def intro: same_except_mono)
  with e assms(1) have "same_except (\<lambda>k. in_governance k \<or> named_by env c proposal k) s s'"
    by (blast intro: same_except_trans)
  moreover have "acts_at_once settings proposal" "round_decided env u c k cid proposal updated settings Approved"
    using e assms(1,5,6) by (auto simp: acts_at_once_def verdict_ok_def)
  ultimately show ?thesis using assms(2,4,7) by (auto simp: vote_effect_def)
qed

lemma vote_effect_then: "vote_effect env c k cid proposal B s t \<Longrightarrow> untouched t u \<Longrightarrow> vote_effect env c k cid proposal B s u"
  unfolding vote_effect_def
  by (elim disjE) (auto intro: outside_trans outside_untouched same_except_trans same_except_untouched)

lemma vote_effect_outside: "outside env s s' \<Longrightarrow> vote_effect env c k cid proposal B s s'"
  by (simp add: vote_effect_def)

lemma runs_verdict:
  assumes lib: "commit_performs env" and u: "outside env s u" and t: "outside env s t"
    and st: "settings = settings_of s c" and v: "verdict_ok env u c k cid proposal updated settings v"
    and up: "B updated"
  shows "runs (case v_outcome v of
       Some out \<Rightarrow> settle env a c k proposal updated settings v out
     | None \<Rightarrow> bindM (putProposalRecord env c k updated) (\<lambda>_. ret x)) t (\<lambda>_. vote_effect env c k cid proposal B s)"
proof (cases "v_outcome v")
  case None
  have "moves (outside env) (bindM (putProposalRecord env c k updated) (\<lambda>_. ret x))"
    by (intro outside.mv_steps outside.mv_putProposalRecord)
  from runs_moves [OF this, of t] None show ?thesis
    by (auto elim!: runs_mono intro: vote_effect_outside outside_trans [OF t])
next
  case (Some out)
  show ?thesis
    unfolding Some option.case
    by (rule runs_mono [OF runs_settle [OF v]], rule settle_is_vote_effect [where B = B, OF lib u t st v Some up])
qed

lemma runs_count_vote:
  assumes lib: "commit_performs env"
  shows "runs (count_vote env a c k vote cid proposal) s
    (\<lambda>_. vote_effect env c k cid proposal (updated_by proposal vote (a_did a)) s)"
    (is "runs _ _ (\<lambda>_. vote_effect _ _ _ _ _ ?B _)")
  unfolding count_vote_def
proof (rule runs_bindI, rule runs_mono [OF reads_collect_ballot [unfolded reads_def]], goal_cases)
  case (1 b s1)
  then have s1: "outside env s s1" by (simp add: outside_untouched)
  show ?case
  proof (cases b)
    case (Inr ballot)
    with 1 have up: "updated_by proposal vote (a_did a) (jassign proposal [(choice_key vote, JArr (b_votes ballot))])"
      by (auto simp: updated_by_def ballot_ok_def intro!: exI [of _ "b_votes ballot"])
    show ?thesis
      unfolding Inr sum.case
    proof (rule runs_bindI, rule runs_mono [OF runs_moves [OF outside.mv_writeVoteRecords]], goal_cases)
      case (1 w s2)
      with s1 have s2: "outside env s s2" by (auto intro: outside_trans)
      have out: "vote_effect env c k cid proposal ?B s s'" if "untouched s2 s'" for s'
        using that s2 by (auto intro: vote_effect_outside outside_trans outside_untouched)
      show ?case
      proof (cases w)
        case (Inr written)
        show ?thesis
          unfolding Inr sum.case
        proof (rule runs_read_bind [OF reads_settings], rule out, assumption, unfold Let_def,
            rule runs_read_seq [OF reads_getKeypair], rule out, erule untouched_trans, assumption, goal_cases)
          case (1 settings s3 s4)
          then have s4: "untouched s2 s4" and st: "settings = settings_of s c"
            using outside_settings [OF lib s2] by (auto intro: untouched_trans)
          let ?u = "jassign proposal [(choice_key vote, JArr (b_votes ballot))]"
          have dec: "reads (if usesVoteRecordEvidence proposal
                 then decide_records env c k cid ?u (override_bar proposal) settings (bar_quorum settings proposal)
                 else decide_cached ?u (override_bar proposal) (bar_quorum settings proposal)) s4
              (verdict_ok env s4 c k cid proposal ?u settings)"
            by (simp add: reads_decide_records reads_decide_cached)
          show ?case
          proof (rule runs_read_bind [OF dec], rule out, erule untouched_trans [OF s4], goal_cases)
            case (1 v s5)
            have s5: "outside env s s4" "outside env s s5"
              by (rule outside_trans [OF s2 outside_untouched [OF s4]])
                (rule outside_trans [OF s2 outside_untouched [OF untouched_trans [OF s4 1(2)]]])
            show ?case
            proof (rule runs_bindI, rule runs_mono [OF runs_verdict [where B = ?B, OF lib s5 st 1(1) up]], goal_cases)
              case (1 r s6)
              then show ?case
                by (cases r) (auto intro!: runs_reads [where P = "\<lambda>_. True"] reads_seq [OF reads_auditLog]
                    intro: vote_effect_then)
            qed
          qed
        qed
      qed (use s2 in \<open>simp add: vote_effect_outside\<close>)
    qed
  qed (use s1 in \<open>simp add: vote_effect_outside\<close>)
qed

text \<open>The whole locked section: refused, expired, or counted with the effect above.\<close>

definition vote_run :: "env \<Rightarrow> string \<Rightarrow> string \<Rightarrow> vote_choice \<Rightarrow> string \<Rightarrow> world \<Rightarrow> (exn + (reply + resolved_vote)) \<Rightarrow> world \<Rightarrow> bool" where
  "vote_run env c k vote voter s r s' \<longleftrightarrow>
     (\<forall>rv. r = Inr (Inr rv) \<longrightarrow> (\<exists>cid proposal. proposal_at s c k = Some (cid, proposal) \<and> vote_admissible proposal voter)) \<and>
     (untouched s s' \<or>
      (\<exists>cid proposal. proposal_at s c k = Some (cid, proposal) \<and>
         (expiry_write env c k proposal s s' \<or> vote_admissible proposal voter \<and> vote_effect env c k cid proposal (updated_by proposal vote voter) s s')))"

lemma vote_effect_untouched_left:
  assumes "untouched s t" "vote_effect env c k cid proposal B t s'"
  shows "vote_effect env c k cid proposal B s s'"
  using assms(2) untouched_tables [OF assms(1)] outside_trans [OF outside_untouched [OF assms(1)]]
    same_except_trans [OF same_except_untouched [OF assms(1)]]
  unfolding vote_effect_def by (elim disjE conjE exE) auto

lemma runs_voteLocked:
  assumes lib: "commit_performs env"
  shows "runs (voteLocked env a c k vote) s (vote_run env c k vote (a_did a) s)"
  unfolding voteLocked_def
proof (rule runs_read_bind [where P = "\<lambda>r. r = proposal_at s c k"], goal_cases)
  case 1
  show ?case by (rule reads_dbRead) simp
next
  case 2
  then show ?case by (simp add: vote_run_def)
next
  case (3 row s1)
  note 1 = this
  show ?case
  proof (cases row)
    case None
    with 1 show ?thesis by (simp add: vote_run_def)
  next
    case (Some cp)
    obtain cid proposal where cp: "cp = (cid, proposal)" by (cases cp)
    with Some 1 have p: "proposal_at s c k = Some (cid, proposal)" by simp
    have ex: "expiry_write env c k proposal s s'" if "expiry_write env c k proposal s1 s'" for s'
      using that by (simp add: expiry_write_def proposal_commit_def untouched_one_commit [OF 1(2)] untouched_spec [OF 1(2)])
    show ?thesis
      unfolding Some option.case cp prod.case
    proof (rule runs_bindI, rule runs_mono [OF runs_vote_refusal], goal_cases)
      case (1 r s2)
      have keep: "vote_run env c k vote (a_did a) s x s2" if "\<forall>rv. x \<noteq> Inr (Inr rv)" for x
        using 1 that p ex \<open>untouched s s1\<close> by (auto simp: vote_run_def intro: untouched_trans)
      show ?case
      proof (cases r)
        case (Inr o')
        show ?thesis
        proof (cases o')
          case None
          with 1 Inr have ok: "untouched s1 s2" "vote_admissible proposal (a_did a)" by auto
          with \<open>untouched s s1\<close> have s2: "untouched s s2" by (auto intro: untouched_trans)
          have fin: "vote_run env c k vote (a_did a) s x s3" if "vote_effect env c k cid proposal (updated_by proposal vote (a_did a)) s2 s3" for x s3
            using vote_effect_untouched_left [OF s2 that] ok(2) p by (auto simp: vote_run_def)
          show ?thesis
            by (simp add: Inr None) (rule runs_bindI, rule runs_mono [OF runs_count_vote [OF lib]],
                auto split: sum.splits intro: fin)
        qed (use Inr keep in simp)
      qed (use keep in simp)
    qed
  qed
qed


text \<open>
  C12. No second vote: a member whose vote is on the proposal, for or against, gets no further vote
  counted, and the attempt changes nothing, unless the deadline has passed, which closes the
  proposal.
\<close>

theorem no_second_vote:
  assumes "commit_performs env" and "proposal_at s c k = Some (cid, proposal)"
    and "already_voted proposal (a_did a) = Inr True" and "voteLocked env a c k vote s = (r, s')"
  shows "(\<forall>rv. r \<noteq> Inr (Inr rv)) \<and> (untouched s s' \<or> expiry_write env c k proposal s s')"
proof -
  from assms(4) runs_voteLocked [OF assms(1), of a c k vote s] have "vote_run env c k vote (a_did a) s r s'"
    by (simp add: runs_def)
  with assms(2,3) show ?thesis by (auto simp: vote_run_def vote_admissible_def)
qed

subsection \<open>A vote that decides\<close>

text \<open>An open proposal of a community without settings, one vote short of its quorum.\<close>

definition open_proposal :: jv where
  "open_proposal = JObj
     [(''status'', JStr ''open''), (''action'', JStr ''write''), (''targetCollection'', JStr ''forum''),
      (''targetRkey'', JStr ''t''), (''proposedRecord'', JObj [(''name'', JStr ''new'')]),
      (''votesFor'', JArr [JStr ''did:b'', JStr ''did:c'']), (''votesAgainst'', JArr [])]"

definition open_world :: world where
  "open_world = empty_world\<lparr>
     w_repos := [(''d'', [((PROPOSAL_COLLECTION, ''p''), open_proposal), ((''forum'', ''t''), JNull)])],
     w_index := [((''d'', PROPOSAL_COLLECTION, ''p''), (''cid'', open_proposal)), ((''d'', ''forum'', ''t''), (''cid'', JNull))]\<rparr>"

definition sample_voter :: "string \<Rightarrow> auth" where
  "sample_voter did = \<lparr>a_userId = ''u1'', a_did = did, a_handle = ''a'', a_status = ''approved'', a_roles = [], a_emailVerified = None\<rparr>"

lemma open_tables [simp]:
  "proposal_at open_world ''d'' ''p'' = Some (''cid'', open_proposal)" "settings_of open_world ''d'' = JUndef"
  "delegations_to env open_world ''d'' v = []"
  by (simp_all add: proposal_at_def settings_of_def indexed_def open_world_def delegations_to_def coll_rows_def
      DELEGATION_COLLECTION_def PROPOSAL_COLLECTION_def SETTINGS_COLLECTION_def)

lemma open_fields [simp]:
  "jget open_proposal ''status'' = JStr ''open''" "jget open_proposal ''action'' = JStr ''write''"
  "jget open_proposal ''targetCollection'' = JStr ''forum''" "jget open_proposal ''targetRkey'' = JStr ''t''"
  "jget open_proposal ''proposedRecord'' = JObj [(''name'', JStr ''new'')]" "jget open_proposal ''evidenceModel'' = JUndef"
  "jget open_proposal ''expiresAt'' = JUndef" "jget open_proposal ''votesFor'' = JArr [JStr ''did:b'', JStr ''did:c'']"
  "jget open_proposal ''votesAgainst'' = JArr []" "jget open_proposal ''cidChain'' = JUndef"
  by (simp_all add: open_proposal_def)

lemma not_an_override [simp]: "\<not> is_override open_proposal" "override_bar open_proposal = None"
  by (simp_all add: is_override_def OVERRIDE_STATUS_def override_bar_def)

lemma open_existing [simp]:
  "existing_keys (open_world\<lparr>w_ops := n, w_ticks := m\<rparr>) ''d'' [joined_key PROPOSAL_COLLECTION ''p'', joined_key ''forum'' ''t''] =
   [joined_key PROPOSAL_COLLECTION ''p'', joined_key ''forum'' ''t'']"
  by (simp add: existing_keys_def open_world_def)

lemma open_ballot:
  "collect_ballot sample_env ''d'' ''p'' ''cid'' open_proposal For ''did:a'' s =
   (Inr \<lparr>b_votes = [JStr ''did:b'', JStr ''did:c'', JStr ''did:a''],
      b_inputs = [\<lparr>vi_voterDid = ''did:a'', vi_communityDid = ''d'', vi_proposalRkey = ''p'',
                       vi_proposalCid = ''cid'', vi_vote = For, vi_castBy = None, vi_delegation = None\<rparr>]\<rparr>,
    s\<lparr>w_ops := Suc (w_ops s)\<rparr>)" if "delegations_to sample_env s ''d'' ''did:a'' = []" for s
  using that by (simp add: collect_ballot_def run_simps choice_key_def js_or_def)

text \<open>A run that returns \<open>x\<close> and touches no table but the log.\<close>

definition yields :: "'a io \<Rightarrow> world \<Rightarrow> 'a \<Rightarrow> bool" where
  "yields m s x \<longleftrightarrow> (\<exists>s'. m s = (Inr x, s') \<and> untouched s s')"

lemma yields_ret [simp]: "yields (ret x) s y \<longleftrightarrow> x = y"
  by (auto simp: yields_def run_simps)

lemma yields_dbRead: "yields (dbRead sample_env f) s (f s)"
  by (simp add: yields_def untouched_def)

lemma yields_auditLog: "yields (auditLog sample_env action actor target meta) s ()"
  by (simp add: yields_def auditLog_def run_simps untouched_def)

lemma yields_nowIso: "yields (nowIso sample_env) s (iso (1767225600000 + int (w_ticks s)))"
  by (simp add: yields_def nowIso_def nowMs_def run_simps untouched_def sample_env_def Let_def)

lemma yields_bind: "yields m s x \<Longrightarrow> (\<And>s'. untouched s s' \<Longrightarrow> yields (k x) s' y) \<Longrightarrow> yields (bindM m k) s y"
  unfolding yields_def by (fastforce simp: run_simps intro: untouched_trans)

lemma yields_seq: "yields m s x \<Longrightarrow> (\<And>s'. untouched s s' \<Longrightarrow> yields k s' y) \<Longrightarrow> yields (seqM m k) s y"
  unfolding seqM_def by (rule yields_bind)

lemma yields_catch: "yields m s x \<Longrightarrow> yields (catchM m h) s x"
  unfolding yields_def by (auto simp: run_simps)

lemma yields_then: "yields m s x \<Longrightarrow> (\<And>s'. untouched s s' \<Longrightarrow> \<exists>y s''. k x s' = (Inr y, s'') \<and> P y s'') \<Longrightarrow>
    \<exists>y s''. bindM m k s = (Inr y, s'') \<and> P y s''"
  unfolding yields_def by (fastforce simp: run_simps)

lemma yields_then_seq: "yields m s x \<Longrightarrow> (\<And>s'. untouched s s' \<Longrightarrow> \<exists>y s''. k s' = (Inr y, s'') \<and> P y s'') \<Longrightarrow>
    \<exists>y s''. seqM m k s = (Inr y, s'') \<and> P y s''"
  unfolding seqM_def by (rule yields_then)

lemma log_then:
  assumes "rec_at s d c j = z"
  shows "\<exists>y s'. seqM (auditLog sample_env action actor target meta) (ret x) s = (Inr y, s') \<and> rec_at s' d c j = z"
  by (rule yields_then_seq [OF yields_auditLog]) (use assms in \<open>auto simp: run_simps rec_at_def untouched_def\<close>)

lemma bind_returned: "m s = (Inr x, t) \<Longrightarrow> \<exists>y s'. k x t = (Inr y, s') \<and> P y s' \<Longrightarrow> \<exists>y s'. bindM m k s = (Inr y, s') \<and> P y s'"
  by (simp add: run_simps)

lemma open_refusal: "proposal_at s ''d'' ''p'' = Some (''cid'', open_proposal) \<Longrightarrow>
   yields (vote_refusal sample_env ''did:a'' ''d'' ''p'' open_proposal) s None"
  by (simp add: vote_refusal_def round_closed_def has_expired_def already_voted_def opt_includes_def can_record_def
     usesVoteRecordEvidence_def yields_def run_simps untouched_def Let_def)

lemma open_records:
  assumes "map_of (w_repos s) (vi_voterDid i) = None"
  shows "yields (writeVoteRecords sample_env [i]) s []"
proof -
  have "yields (writeVoteRecord sample_env i) s None"
    unfolding writeVoteRecord_def hasRepo_def auditMissingVoteRecord_def
    by (rule yields_catch, rule yields_bind [OF yields_dbRead])
      (use assms in \<open>auto intro!: yields_seq [OF yields_auditLog]\<close>)
  then show ?thesis
    unfolding writeVoteRecords_def foldM.simps
    by (auto intro!: yields_bind)
qed

lemma open_verdict: 
  "yields (decide_cached (jassign open_proposal [(choice_key For, JArr [JStr ''did:b'', JStr ''did:c'', JStr ''did:a''])])
      None (quorum_of JUndef)) s
    \<lparr>v_outcome = Some Approved, v_deferred = False, v_decision = None,
            v_write = None, v_cids = [], v_complete = True\<rparr>"
  by (simp add: decide_cached_def yields_def run_simps untouched_def votes_length_def choice_key_def round_outcome_def
     decideOutcome_def quorum_of_def governance_config_def js_or_def DEFAULT_QUORUM_def count_lt_def)

definition open_updated :: jv where
  "open_updated = jassign open_proposal [(choice_key For, JArr [JStr ''did:b'', JStr ''did:c'', JStr ''did:a''])]"

definition open_verdict :: verdict where
  "open_verdict = \<lparr>v_outcome = Some Approved, v_deferred = False, v_decision = None,
     v_write = None, v_cids = [], v_complete = True\<rparr>"

abbreviation same_tables :: "world \<Rightarrow> world \<Rightarrow> bool" where
  "same_tables s t \<equiv> w_repos s = w_repos t \<and> w_index s = w_index t"

lemma open_change:
  assumes "same_tables s open_world"
  shows "yields (try_change sample_env ''d'' open_proposal) s (Inr [WriteRec ''forum'' ''t'' (JObj [(''name'', JStr ''new'')])])"
  using assms by (simp add: try_change_def pass_defs yields_def run_simps untouched_def)

lemma yields_proposalWrite: "\<not> usesVoteRecordEvidence rec \<Longrightarrow> yields (proposalWriteOp sample_env d k rec) s rec"
  by (simp add: proposalWriteOp_def)

lemma open_existing_keys:
  "w_index s = w_index open_world \<Longrightarrow>
   existing_keys s ''d'' [joined_key PROPOSAL_COLLECTION ''p'', joined_key ''forum'' ''t''] =
   [joined_key PROPOSAL_COLLECTION ''p'', joined_key ''forum'' ''t'']"
  by (simp add: existing_keys_def open_world_def)

lemma open_commit:
  assumes "same_tables s open_world"
  shows "\<exists>ps s'. applyWrites sample_env ''d'' [WriteRec PROPOSAL_COLLECTION ''p'' rec, WriteRec ''forum'' ''t'' v] s = (Inr ps, s') \<and>
     rec_at s' ''d'' ''forum'' ''t'' = Some v"
proof -
  have "map_of (w_repos open_world) ''d'' = Some [((PROPOSAL_COLLECTION, ''p''), open_proposal), ((''forum'', ''t''), JNull)]"
    by (simp add: open_world_def)
  with assms show ?thesis
    by (simp add: applyWrites_def loadRepo_def commitRepo_def reference_commit_def syncRecordsIndex_def sync_one_def
     run_simps rec_at_def open_existing_keys Let_def)
qed

lemma open_audit: "yields (audit_resolution sample_env a ''d'' ''p'' open_proposal v Approved t None app None) s ()"
  by (simp add: audit_resolution_def audit_approved_def yields_seq yields_auditLog)

lemma open_settle:
  assumes "same_tables s open_world"
  shows "\<exists>se s'. settle sample_env a ''d'' ''p'' open_proposal open_updated JUndef open_verdict Approved s = (Inr se, s') \<and>
     rec_at s' ''d'' ''forum'' ''t'' = Some (JObj [(''name'', JStr ''new'')])"
proof -
  have tables: "same_tables s' open_world" if "untouched s s'" for s'
    using that assms by (simp add: untouched_def)
  show ?thesis
    unfolding settle_def
  proof (rule yields_then [OF yields_nowIso], goal_cases)
    case (1 s1)
    let ?t = "iso (1767225600000 + int (w_ticks s))"
    have w: "yields (liftE (window_of sample_env JUndef (is_override open_proposal) open_verdict Approved ?t)) s1 None"
      by (simp add: window_of_def open_verdict_def liftE_def)
    show ?case
    proof (rule yields_then [OF w], goal_cases)
      case (1 s2)
      with \<open>untouched s s1\<close> have s2: "untouched s s2" by (auto intro: untouched_trans)
      have c: "yields (if Approved = Approved \<and> (None :: string option) = None then try_change sample_env ''d'' open_proposal else ret (Inl []))
          s2 (Inr [WriteRec ''forum'' ''t'' (JObj [(''name'', JStr ''new'')])])"
        using open_change [OF tables [OF s2]] by simp
      show ?case
        unfolding Let_def
      proof (rule yields_then [OF c], goal_cases)
        case (1 s3)
        with s2 have s3: "untouched s s3" by (auto intro: untouched_trans)
        have p: "yields (proposalWriteOp sample_env ''d'' ''p'' (resolved_state open_updated Approved open_verdict False ?t None)) s3
            (resolved_state open_updated Approved open_verdict False ?t None)"
          by (rule yields_proposalWrite) (simp add: resolved_state_def open_updated_def open_verdict_def usesVoteRecordEvidence_def choice_key_def)
        show ?case
        proof (simp, rule yields_then [OF p], goal_cases)
          case (1 s4)
          with s3 have s4: "same_tables s4 open_world" by (intro tables) (auto intro: untouched_trans)
          from open_commit [OF s4] obtain ps s5 where
            "applyWrites sample_env ''d'' [WriteRec PROPOSAL_COLLECTION ''p'' (resolved_state open_updated Approved open_verdict False ?t None), WriteRec ''forum'' ''t'' (JObj [(''name'', JStr ''new'')])] s4 = (Inr ps, s5)"
            "rec_at s5 ''d'' ''forum'' ''t'' = Some (JObj [(''name'', JStr ''new'')])" by blast
          with open_audit [of a open_verdict ?t True s5] show ?case
            by (auto simp: run_simps open_verdict_def yields_def seqM_def rec_at_def untouched_def)
        qed
      qed
    qed
  qed
qed

lemma open_count:
  assumes "untouched open_world s"
  shows "\<exists>rv s'. count_vote sample_env (sample_voter ''did:a'') ''d'' ''p'' For ''cid'' open_proposal s = (Inr rv, s') \<and>
     rec_at s' ''d'' ''forum'' ''t'' = Some (JObj [(''name'', JStr ''new'')])"
proof -
  let ?b = "\<lparr>b_votes = [JStr ''did:b'', JStr ''did:c'', JStr ''did:a''],
      b_inputs = [\<lparr>vi_voterDid = ''did:a'', vi_communityDid = ''d'', vi_proposalRkey = ''p'',
                       vi_proposalCid = ''cid'', vi_vote = For, vi_castBy = None, vi_delegation = None\<rparr>]\<rparr>"
  have did: "a_did (sample_voter ''did:a'') = ''did:a''" by (simp add: sample_voter_def)
  have b: "yields (collect_ballot sample_env ''d'' ''p'' ''cid'' open_proposal For (a_did (sample_voter ''did:a''))) s ?b"
  proof -
    have "delegations_to sample_env s ''d'' ''did:a'' = []"
      using open_tables(3) [of sample_env "''did:a''"] by (simp add: delegations_to_def untouched_tables [OF assms])
    then show ?thesis by (simp add: yields_def did open_ballot untouched_def)
  qed
  show ?thesis
    unfolding count_vote_def
  proof (rule yields_then [OF b], goal_cases)
    case (1 s1)
    with assms have s1: "untouched open_world s1" by (auto intro: untouched_trans)
    then have r: "yields (writeVoteRecords sample_env (b_inputs ?b)) s1 []"
      by (simp add: untouched_def open_records) (simp add: open_records open_world_def)
    show ?case
    proof (rule yields_then [OF r], goal_cases)
      case (1 s2)
      with s1 have s2: "untouched open_world s2" by (auto intro: untouched_trans)
      then have st: "yields (communitySettingsRecord sample_env ''d'') s2 JUndef"
        using yields_dbRead [of "\<lambda>s. settings_of s ''d''" s2] by (simp add: communitySettingsRecord_def untouched_tables [OF s2])
      show ?case
      proof (rule yields_then [OF st], goal_cases)
        case (1 s3)
        with s2 have s3: "untouched open_world s3" by (auto intro: untouched_trans)
        let ?P = "\<lambda>_ s'. rec_at s' ''d'' ''forum'' ''t'' = Some (JObj [(''name'', JStr ''new'')])"
        have k: "yields (getKeypairForDid sample_env ''d'') s3 ()" by simp
        show ?case
          unfolding Let_def
        proof (rule yields_then_seq [OF k], goal_cases)
          case (1 s4)
          let ?u = "jassign open_proposal [(choice_key For, JArr (b_votes ?b))]"
          have v: "yields (if usesVoteRecordEvidence open_proposal
                 then decide_records sample_env ''d'' ''p'' ''cid'' ?u (override_bar open_proposal) JUndef (bar_quorum JUndef open_proposal)
                 else decide_cached ?u (override_bar open_proposal) (bar_quorum JUndef open_proposal)) s4 open_verdict"
            using open_verdict [of s4] by (simp add: usesVoteRecordEvidence_def bar_quorum_def open_verdict_def)
          show ?case
          proof (rule yields_then [OF v], goal_cases)
            case (1 s5)
            with \<open>untouched s3 s4\<close> s3 have "same_tables s5 open_world" by (simp add: untouched_def)
            then obtain se s6 where se:
              "settle sample_env (sample_voter ''did:a'') ''d'' ''p'' open_proposal ?u JUndef open_verdict Approved s5 = (Inr se, s6)"
              "rec_at s6 ''d'' ''forum'' ''t'' = Some (JObj [(''name'', JStr ''new'')])"
              using open_settle [of s5] by (fastforce simp: open_updated_def)
            show ?case
              by (rule bind_returned [where x = se and t = s6], use se(1) in \<open>simp add: open_verdict_def\<close>)
                (rule log_then [OF se(2)])
          qed
        qed
      qed
    qed
  qed
qed

lemma open_run:
  "\<exists>r s'. voteLocked sample_env (sample_voter ''did:a'') ''d'' ''p'' For open_world = (Inr r, s') \<and>
     rec_at s' ''d'' ''forum'' ''t'' = Some (JObj [(''name'', JStr ''new'')])"
  unfolding voteLocked_def
proof (rule yields_then [OF yields_dbRead], goal_cases)
  case (1 s1)
  have r: "yields (vote_refusal sample_env (a_did (sample_voter ''did:a'')) ''d'' ''p'' open_proposal) s1 None"
    using open_refusal [of s1] by (simp add: sample_voter_def untouched_tables [OF 1])
  have "\<exists>r s'. bindM (vote_refusal sample_env (a_did (sample_voter ''did:a'')) ''d'' ''p'' open_proposal)
     (\<lambda>refusal. case refusal of Some r \<Rightarrow> ret (Inl r)
       | None \<Rightarrow> bindM (count_vote sample_env (sample_voter ''did:a'') ''d'' ''p'' For ''cid'' open_proposal) (\<lambda>rv. ret (Inr rv))) s1 = (Inr r, s') \<and>
     rec_at s' ''d'' ''forum'' ''t'' = Some (JObj [(''name'', JStr ''new'')])"
  proof (rule yields_then [OF r], goal_cases)
    case (1 s2)
    with \<open>untouched open_world s1\<close> have "untouched open_world s2" by (rule untouched_trans)
    from open_count [OF this] show ?case by (auto simp: run_simps)
  qed
  then show ?case by simp
qed


theorem no_second_vote_witness:
  "\<forall>rv. fst (voteLocked sample_env (sample_voter ''did:b'') ''d'' ''p'' For open_world) \<noteq> Inr (Inr rv)"
proof -
  have "already_voted open_proposal (a_did (sample_voter ''did:b'')) = Inr True"
    by (simp add: already_voted_def opt_includes_def sample_voter_def)
  from no_second_vote [OF reference_commit_ok(1) open_tables(1) this prod.collapse [symmetric]] show ?thesis by simp
qed

theorem ballot_counts_each_member_once_witness:
  "case collect_ballot sample_env ''d'' ''p'' ''cid'' open_proposal For ''did:a'' open_world of
     (Inl _, _) \<Rightarrow> True | (Inr b, _) \<Rightarrow> distinct (b_votes b)"
  using ballot_counts_each_member_once [where proposal = open_proposal and vote = For and voter = "''did:a''" and env = sample_env and c = "''d''" and k = "''p''"
      and cid = "''cid''" and s = open_world and mine = "[JStr ''did:b'', JStr ''did:c'']" and others = "[]"]
  by (auto simp: choice_key_def other_key_def already_voted_def opt_includes_def split: prod.splits sum.splits)

end
