(* ===== verification/Endpoints.thy ===== *)
theory Endpoints
  imports VoteEffect Enforcement Membership
begin

text \<open>
  What every governance and membership endpoint does to the tables it does not own. The lemmas are proved once
  for all preorders that the writes of the store respect; the properties are instances.
\<close>

subsection \<open>Every endpoint moves along\<close>

text \<open>A preorder the store respects is one a vote respects.\<close>

sublocale store_preorder < vote_preorder R env for env
  by unfold_locales (intro mv_rules mv_reads mv_store)+

context store_preorder
begin

lemmas mv_all = mv_rules mv_reads mv_store mv_jv mv_exn mv_bool

lemma mv_writeObjectionRecord: "moves R (writeObjectionRecord env i)"
  unfolding writeObjectionRecord_def by (intro mv_all)

text \<open>The programs of the contest window; what others do while a lock is awaited also respects \<open>R\<close>.\<close>

lemma mv_window:
  "moves R (holdLocked env c k now a p st os)" "moves R (performLocked env c k now a p)"
  unfolding holdLocked_def performLocked_def
  by (intro mv_all mv_window_reads mv_putProposalRecord mv_proposalWriteOp)+

lemma mv_applyLocked: "moves R (applyLocked env c k now)"
  unfolding applyLocked_def by (intro mv_all mv_window mv_window_reads mv_guards)

lemma mv_closeLocked: "moves R (closeLocked env c k now)"
  unfolding closeLocked_def by (intro mv_all mv_putProposalRecord)

lemma mv_passes:
  assumes "\<And>n s. R s (e_wait env n s)"
  shows "moves R (applyIfDue env c k now)" "moves R (closeExpiredOverride env c k now)"
  unfolding applyIfDue_def closeExpiredOverride_def
  by (intro mv_all mv_window_reads mv_withAdvisoryLock [OF assms] mv_applyLocked mv_closeLocked)+

lemma mv_safe_passes:
  assumes "\<And>n s. R s (e_wait env n s)"
  shows "moves R (applyIfDueSafely env c k now)" "moves R (closeExpiredOverrideSafely env c k now)"
  unfolding applyIfDueSafely_def closeExpiredOverrideSafely_def by (intro mv_all mv_passes [OF assms])+

lemma mv_sweeps:
  assumes "\<And>n s. R s (e_wait env n s)"
  shows "moves R (applyDueProposals env c)" "moves R (closeExpiredOverrides env c)"
  unfolding applyDueProposals_def closeExpiredOverrides_def by (intro mv_all mv_safe_passes [OF assms])+

text \<open>Anchoring.\<close>

lemma mv_anchor_failed: "moves R (anchor_failed env t c reason)"
  unfolding anchor_failed_def by (intro mv_all)

lemma mv_attempt: "moves R (attempt env t c)"
proof (cases "e_anchor env c")
  case None
  then show ?thesis by (simp add: attempt_def mv_ret)
next
  case (Some anchor)
  have p: "moves R m \<Longrightarrow> R s (snd (m s))" for m :: "receipt option io" and s by (simp add: moves_def)
  show ?thesis
    unfolding attempt_def Some option.case moves_def
    by (intro allI p mv_all mv_anchor_failed)
qed

lemma mv_drain: "moves R (drain env c d n ts)"
  by (induction ts arbitrary: n) (auto intro!: mv_all mv_attempt)

lemma mv_anchoring:
  "moves R (anchorDecision env c k d st)" "moves R (anchorPendingDecisions env c st n)"
  unfolding anchorDecision_def anchorPendingDecisions_def pending_anchors_def Let_def
  by (intro mv_all mv_attempt mv_drain)+

text \<open>The endpoints.\<close>

lemma mv_write_new_proposal: "moves R (write_new_proposal env a c tc tr act rec st)"
  unfolding write_new_proposal_def by (intro mv_all mv_guards mv_writeVoteRecord)

lemma mv_createProposal: "moves R (createProposal env req)"
  unfolding createProposal_def Let_def
  by (intro mv_handler mv_authM mv_guardM mv_all mv_guards mv_write_new_proposal)

lemma mv_amendProposal: "moves R (amendProposal env req)"
  unfolding amendProposal_def write_amendment_def Let_def
  by (intro mv_handler mv_authM mv_guardM mv_all mv_guards mv_putProposalRecord)

lemma mv_hold_if_reached: "moves R (hold_if_reached env a c k p st os)"
  unfolding hold_if_reached_def by (intro mv_all mv_window_reads mv_putProposalRecord)

lemma mv_register_objection: "moves R (register_objection env a c k cid t p ob)"
  unfolding register_objection_def Let_def by (intro mv_all mv_window_reads mv_guards mv_hold_if_reached)

lemma mv_objectLocked: "moves R (objectLocked env a c k reason)"
  unfolding objectLocked_def Let_def
  by (intro mv_all mv_window_reads mv_guards mv_register_objection mv_writeObjectionRecord)

lemma mv_objectToProposal:
  assumes "\<And>n s. R s (e_wait env n s)" shows "moves R (objectToProposal env req)"
  unfolding objectToProposal_def Let_def
  by (intro mv_handler mv_authM mv_guardM mv_all mv_guards mv_sweeps [OF assms] mv_withAdvisoryLock [OF assms] mv_objectLocked)

lemma mv_getProposal:
  assumes "\<And>n s. R s (e_wait env n s)" shows "moves R (getProposal env req c k)"
  unfolding getProposal_def pendingObjectionStatus_def
  by (intro mv_handler mv_guardM mv_all mv_guards mv_safe_passes [OF assms] mv_window_reads)

lemma mv_delegations: "moves R (setDelegation env req)" "moves R (revokeDelegation env req)"
  unfolding setDelegation_def revokeDelegation_def Let_def
  by (intro mv_handler mv_authM mv_guardM mv_all mv_guards)+

text \<open>Voting.\<close>

lemma mv_settle: "moves R (settle env a c k p u st v out)"
  unfolding settle_def try_change_def Let_def
  by (intro mv_all mv_window_reads mv_proposalWriteOp mv_audit_resolution)

lemma mv_voteLocked: "moves R (voteLocked env a c k v)"
  unfolding voteLocked_def count_vote_def Let_def
  by (intro mv_all mv_guards mv_vote_refusal mv_collect_ballot mv_writeVoteRecords mv_deciding mv_settle mv_putProposalRecord)

lemma mv_voteOnProposal:
  assumes "\<And>n s. R s (e_wait env n s)" shows "moves R (voteOnProposal env req)"
  unfolding voteOnProposal_def anchor_resolved_def Let_def
  by (intro mv_handler mv_authM mv_guardM mv_all mv_guards mv_sweeps [OF assms] mv_withAdvisoryLock [OF assms]
      mv_voteLocked mv_anchoring)

text \<open>Changing the model; a registered authority wraps the write.\<close>

lemma mv_setGovernanceModel:
  assumes "\<And>auth info m. current = Some auth \<Longrightarrow> moves R m \<Longrightarrow> moves R (ga_runMutation auth info m)"
  shows "moves R (setGovernanceModel env current req)"
proof -
  have g: "moves R (runGovernedMutation current info m)" if "moves R m" for info m
    using assms that by (simp add: runGovernedMutation_def split: option.split)
  show ?thesis
    unfolding setGovernanceModel_def write_governance_def enforceGovernance_def Let_def
    by (intro mv_handler mv_authM mv_guardM mv_all mv_guards g)
qed

end

subsection \<open>The membership endpoints\<close>

locale member_preorder = store_preorder R for R :: "world \<Rightarrow> world \<Rightarrow> bool" +
  assumes R_joins: "R s (s\<lparr>w_joins := x\<rparr>)"
begin

lemma mv_refuse: "moves R (refuse errors status code)"
  by (simp add: refuse_def throwXrpc_def mv_throw)

lemma mv_requireString: "moves R (requireString errors v)"
  unfolding requireString_def by (intro mv_option mv_refuse mv_ret)

lemma mv_xrpc_handler: "moves R m \<Longrightarrow> moves R (xrpc_handler errors m)"
  unfolding xrpc_handler_def by (intro mv_catch mv_ret)

lemma mv_randomUUID: "moves R (randomUUID env)"
  by (simp add: moves_def randomUUID_def R_tids)

lemma mv_member_reads:
  "moves R (ensureCommunityExists env c)" "moves R (getCommunityOwner env errors c)"
  "moves R (ensureNotAlreadyMember env c d)" "moves R (getMemberRkey env c d)" "moves R (getUserDid env u)"
  "moves R (getUserIdByDid env d)" "moves R (getUserHandle env uid)" "moves R (getJoinPolicy env c)"
  unfolding ensureCommunityExists_def getCommunityOwner_def ensureNotAlreadyMember_def getMemberRkey_def
    getUserDid_def getUserIdByDid_def getUserHandle_def getJoinPolicy_def
  by (intro mv_all mv_refuse)+

lemma R_set_columns: "R s (set_member_columns env c d disp k sm s)"
  by (auto simp: set_member_columns_def R_refl R_members split: option.split)

lemma R_join_writes:
  "R s (set_join_status c u st s)" "R s (delete_join c u s)" "R s (set_status_by_id i st s)"
  "insert_join c u row s = Inr t \<Longrightarrow> R s t"
  by (auto simp: set_join_status_def delete_join_def set_status_by_id_def insert_join_def R_refl R_joins
      split: option.split if_splits)

lemma mv_createMember: "moves R (createMemberRecordForDid env c d h sm)"
  unfolding createMemberRecordForDid_def findRoleRkeyByName_def resolveDisplayFields_def
  by (intro mv_all mv_dbWrite R_set_columns)

lemma mv_deleteMember: "moves R (deleteMemberRecord env c k)"
  unfolding deleteMemberRecord_def by (intro mv_all)

lemmas mv_member = mv_all mv_refuse mv_requireString mv_member_reads mv_createMember mv_deleteMember mv_randomUUID

lemma mv_joinCommunity: "moves R (joinCommunity env req)"
  unfolding joinCommunity_def joinCommunityLifecycle_def request_to_join_def
  by (intro mv_xrpc_handler mv_member mv_dbWrite mv_dbTxn R_join_writes)

lemma mv_leaveCommunity: "moves R (leaveCommunity env req)"
  unfolding leaveCommunity_def leaveCommunityLifecycle_def
  by (intro mv_xrpc_handler mv_authM mv_member mv_dbWrite R_join_writes)

lemma mv_removeMember: "moves R (removeMember env req)"
  unfolding removeMember_def removeMemberLifecycle_def finish_removal_def
  by (intro mv_xrpc_handler mv_authM mv_member mv_dbWrite R_join_writes)

lemma mv_resolveJoinRequest: "moves R (resolveJoinRequest env req)"
  unfolding resolveJoinRequest_def resolveJoinRequestLifecycle_def settle_request_def Let_def
  by (intro mv_xrpc_handler mv_authM mv_member mv_dbWrite R_join_writes)

lemma mv_write_update: "moves R (write_update env a c d input name)"
  unfolding write_update_def getRecord_def Let_def by (intro mv_member)

lemma mv_updateMember: "moves R (updateMember env req)"
proof -
  have "moves R (case v of JStr (x # xs) \<Rightarrow> f x xs | _ \<Rightarrow> g)"
    if "\<And>x xs. moves R (f x xs)" "moves R g" for v g and f :: "char \<Rightarrow> string \<Rightarrow> reply io"
    using that by (auto split: jv.split list.split)
  then show ?thesis
    unfolding updateMember_def updateMemberLifecycle_def check_role_then_write_def
    by (intro mv_xrpc_handler mv_authM mv_member mv_guards mv_write_update)
qed

end

subsection \<open>The audit log and the accounts\<close>

definition endpoint_runs :: "env \<Rightarrow> authority option \<Rightarrow> request \<Rightarrow> string \<Rightarrow> string \<Rightarrow> reply io list" where
  "endpoint_runs env current req communityDid rkey =
     [createProposal env req, amendProposal env req, objectToProposal env req, voteOnProposal env req,
      getProposal env req communityDid rkey, setDelegation env req, revokeDelegation env req,
      setGovernanceModel env current req, joinCommunity env req, leaveCommunity env req,
      removeMember env req, resolveJoinRequest env req, updateMember env req]"

text \<open>A registered authority may wrap a write; it is not expected to touch the log itself.\<close>

definition authority_respects :: "(world \<Rightarrow> world \<Rightarrow> bool) \<Rightarrow> authority option \<Rightarrow> bool" where
  "authority_respects R current \<longleftrightarrow>
     (\<forall>auth info m. current = Some auth \<longrightarrow> moves R m \<longrightarrow> moves R (ga_runMutation auth info m))"

context member_preorder
begin

lemma endpoints_move:
  assumes "\<And>n s. R s (e_wait env n s)" "authority_respects R current"
    and "m \<in> set (endpoint_runs env current req c k)"
  shows "R s (snd (m s))"
proof -
  have "moves R (setGovernanceModel env current req)"
    using assms(2) by (intro mv_setGovernanceModel) (auto simp: authority_respects_def)
  with assms(1,3) have "moves R m"
    by (auto simp: endpoint_runs_def intro: mv_createProposal mv_amendProposal mv_objectToProposal
        mv_voteOnProposal mv_getProposal mv_delegations mv_joinCommunity mv_leaveCommunity mv_removeMember
        mv_resolveJoinRequest mv_updateMember)
  then show ?thesis by (simp add: moves_def)
qed

end

interpretation audit_endpoints: member_preorder audit_grows
  by unfold_locales (simp add: audit_grows_def)

interpretation users_endpoints: member_preorder "frames w_users"
  by unfold_locales (simp add: frames_def)

interpretation communities_endpoints: member_preorder "frames w_communities"
  by unfold_locales (simp add: frames_def)

interpretation pseudonym_endpoints: member_preorder "keeps no_pseudonym_logged"
  by unfold_locales (simp add: keeps_def no_pseudonym_logged_def is_pseudonym_def)

text \<open>
  The audit log is append-only across every governance and membership endpoint, whatever statement fails and
  whatever the endpoint answers, as long as the requests it waits for also only append.
\<close>

theorem audit_log_append_only:
  assumes "\<And>n s. audit_grows s (e_wait env n s)" "authority_respects audit_grows current"
    and "m \<in> set (endpoint_runs env current req communityDid rkey)"
  shows "audit_grows s (snd (m s))"
  using assms by (rule audit_endpoints.endpoints_move)

text \<open>
  No governance or membership endpoint ever logs an entry whose actor or target is a pseudonymous account.
\<close>

theorem pseudonyms_never_logged:
  assumes "\<And>n s. keeps no_pseudonym_logged s (e_wait env n s)"
    and "authority_respects (keeps no_pseudonym_logged) current"
    and "m \<in> set (endpoint_runs env current req communityDid rkey)" "no_pseudonym_logged s"
  shows "no_pseudonym_logged (snd (m s))"
  using pseudonym_endpoints.endpoints_move [OF assms(1-3), of s] assms(4) by (simp add: keeps_def)

text \<open>
  No governance or membership endpoint changes an account, or the owner or the status of a community: what a
  proposal decides is limited to records.
\<close>

theorem accounts_and_communities_fixed:
  assumes "\<And>n s. w_users (e_wait env n s) = w_users s" "\<And>n s. w_communities (e_wait env n s) = w_communities s"
    and "authority_respects (frames w_users) current" "authority_respects (frames w_communities) current"
    and "m \<in> set (endpoint_runs env current req communityDid rkey)"
  shows "w_users (snd (m s)) = w_users s \<and> w_communities (snd (m s)) = w_communities s"
  using users_endpoints.endpoints_move [OF _ assms(3,5), of s] communities_endpoints.endpoints_move [OF _ assms(4,5), of s]
    assms(1,2) by (simp add: frames_def)

definition sample_request :: request where
  "sample_request = \<lparr>q_auth = Some \<lparr>a_userId = ''u1'', a_did = ''did:a'', a_handle = ''a'', a_status = ''approved'', a_roles = [], a_emailVerified = None\<rparr>,
     q_serviceAuthError = None, q_partner = None, q_partnerError = None,
     q_body = JObj [(''communityDid'', JStr ''d''), (''proposalRkey'', JStr ''p''), (''vote'', JStr ''for'')]\<rparr>"

lemma sample_vote_endpoint:
  "voteOnProposal sample_env sample_request \<in> set (endpoint_runs sample_env None sample_request ''d'' ''p'')"
  by (simp add: endpoint_runs_def)

lemma no_authority [simp]: "authority_respects R None"
  by (simp add: authority_respects_def)

theorem audit_log_append_only_witness:
  "audit_grows due_world (snd (voteOnProposal sample_env sample_request due_world))"
  by (rule audit_log_append_only [OF _ _ sample_vote_endpoint]) (simp_all add: audit_grows_def)

theorem pseudonyms_never_logged_witness:
  "no_pseudonym_logged (snd (voteOnProposal sample_env sample_request due_world))"
  by (rule pseudonyms_never_logged [OF _ _ sample_vote_endpoint])
    (simp_all add: keeps_def no_pseudonym_logged_def due_world_def empty_world_def)

theorem accounts_and_communities_fixed_witness:
  "w_users (snd (voteOnProposal sample_env sample_request due_world)) = [] \<and>
   w_communities (snd (voteOnProposal sample_env sample_request due_world)) = []"
  using accounts_and_communities_fixed [OF _ _ _ _ sample_vote_endpoint, of due_world]
  by (simp add: due_world_def empty_world_def)

end
