(* ===== verification/MembershipEffect.thy ===== *)
theory MembershipEffect
  imports Endpoints
begin

text \<open>
  Who can change a membership. The first part follows the reads of the membership endpoints
  to the write they guard; the second says what a write of a member record does to the table
  of members; the third puts them together.
\<close>

subsection \<open>Looking before writing\<close>

text \<open>Everything but the counters.\<close>

definition world_data where
  "world_data s = (w_repos s, w_index s, w_members s, w_communities s, w_joins s, w_users s, w_audit s)"

interpretation same_data: world_preorder "frames world_data"
  by unfold_locales (auto simp: frames_def world_data_def)

abbreviation same_data :: "world \<Rightarrow> world \<Rightarrow> bool" where
  "same_data \<equiv> frames world_data"

lemma same_dataD:
  assumes "same_data s t"
  shows "w_repos t = w_repos s" "w_index t = w_index s" "w_members t = w_members s"
    "w_communities t = w_communities s" "w_joins t = w_joins s" "w_users t = w_users s" "w_audit t = w_audit s"
  using assms by (simp_all add: frames_def world_data_def)

lemma same_data_indexed: "same_data s t \<Longrightarrow> indexed t = indexed s"
  by (simp add: indexed_def same_dataD fun_eq_iff)

definition peeks :: "'a io \<Rightarrow> world \<Rightarrow> ('a \<Rightarrow> bool) \<Rightarrow> bool" where
  "peeks m s P \<longleftrightarrow> runs m s (\<lambda>r t. same_data s t \<and> (case r of Inl _ \<Rightarrow> True | Inr x \<Rightarrow> P x))"

lemma peeks_dbRead: "peeks (dbRead env f) s (\<lambda>x. x = f s)"
  unfolding peeks_def by (rule runs_dbReadI) (simp_all add: frames_def world_data_def)

lemma peeks_throw [simp]: "peeks (throw e) s P"
  by (simp add: peeks_def frames.R_refl)

lemma peeks_ret [simp]: "peeks (ret x) s P \<longleftrightarrow> P x"
  by (simp add: peeks_def frames.R_refl)

lemma peeks_liftE: "peeks (liftE r) s (\<lambda>x. r = Inr x)"
  by (simp add: peeks_def frames.R_refl split: sum.split)

lemma peeks_refuse [simp]: "peeks (refuse errors status code) s P"
  by (simp add: refuse_def throwXrpc_def)

lemma peeks_moves: "moves same_data m \<Longrightarrow> peeks m s (\<lambda>_. True)"
  unfolding peeks_def moves_runs by (auto elim: runs_mono split: sum.split)

lemma peeks_mono: "peeks m s P \<Longrightarrow> (\<And>x. P x \<Longrightarrow> Q x) \<Longrightarrow> peeks m s Q"
  unfolding peeks_def by (auto elim!: runs_mono split: sum.splits)

lemma peeks_then:
  assumes "peeks m s P"
    and "\<And>e t. same_data s t \<Longrightarrow> Q (Inl e) t"
    and "\<And>x t. same_data s t \<Longrightarrow> P x \<Longrightarrow> runs (k x) t Q"
  shows "runs (bindM m k) s Q"
  by (rule runs_bindI, rule runs_mono [OF assms(1) [unfolded peeks_def]]) (auto split: sum.split intro: assms(2,3))

lemma peeks_bind:
  assumes "peeks m s P" and "\<And>x t. same_data s t \<Longrightarrow> P x \<Longrightarrow> peeks (k x) t Q"
  shows "peeks (bindM m k) s Q"
  unfolding peeks_def
proof (rule peeks_then [OF assms(1)], goal_cases)
  case (2 x t)
  show ?case
    by (rule runs_mono [OF assms(2) [OF 2, unfolded peeks_def]]) (use 2(1) in \<open>auto intro: frames.R_trans\<close>)
qed simp

lemma peeks_requireString: "peeks (requireString errors v) s (\<lambda>x. v = JStr x \<and> x \<noteq> [])"
  by (auto simp: requireString_def nonempty_text_def split: option.split jv.split)

lemma peeks_owner:
  "peeks (getCommunityOwner env errors c) s (\<lambda>x. \<exists>com. map_of (w_communities s) c = Some com \<and> x = c_created_by com)"
  unfolding getCommunityOwner_def
  by (rule peeks_bind [OF peeks_dbRead]) (auto split: option.split)

lemma peeks_rkey:
  "peeks (getMemberRkey env c d) s (\<lambda>x. case x of None \<Rightarrow> True
     | Some k \<Rightarrow> \<exists>row. map_of (w_members s) (c, d) = Some row \<and> m_record_rkey row = k)"
  unfolding getMemberRkey_def nonempty_def
  by (rule peeks_mono [OF peeks_dbRead]) (auto split: option.split if_splits)

subsection \<open>What a write does to the table of members\<close>

definition drop_member_rows :: "string \<Rightarrow> string \<Rightarrow> world \<Rightarrow> ((string \<times> string) \<times> member_row) list" where
  "drop_member_rows c k s = filter (\<lambda>((c', _), row). \<not> (c' = c \<and> m_record_rkey row = k)) (w_members s)"

lemma runs_delete_member:
  "runs (deleteMemberRecord env c k) s (\<lambda>r t. w_members t = w_members s \<or> w_members t = drop_member_rows c k s)"
proof -
  let ?Q = "\<lambda>r t. w_members t = w_members s \<or> w_members t = drop_member_rows c k s"
  have remove: "runs (removeFromRecordsIndex env c MEMBER_COLLECTION k) t ?Q" if "w_members t = w_members s" for t
    unfolding removeFromRecordsIndex_def
    by (intro runs_seqI runs_dbWriteI) (use that in \<open>auto simp: index_del_def drop_member_rows_def intro!: runs_dbWriteI\<close>)
  have commit: "runs (commitRepo env c tr ops) t (\<lambda>r u. w_members u = w_members t)" for tr ops t
    unfolding commitRepo_def runs_bindM by (auto intro!: runs_dbWriteI split: sum.split)
  have load: "runs (loadRepo env c) t (\<lambda>r u. w_members u = w_members t)" for t
    unfolding loadRepo_def by (intro runs_bindI runs_dbReadI) (auto split: option.split)
  have "runs (deleteRecord env c MEMBER_COLLECTION k) t ?Q" if "w_members t = w_members s" for t
    unfolding deleteRecord_def
    by (rule runs_bindI, rule runs_mono [OF load])
      (use that in \<open>auto split: sum.split intro!: runs_seqI runs_mono [OF commit] remove\<close>)
  then show ?thesis
    unfolding deleteMemberRecord_def by (auto simp: runs_seqM split: option.split)
qed

lemma members_project:
  "w_members t = w_members s \<Longrightarrow> w_ticks t = w_ticks s \<Longrightarrow> w_members (projectMemberRow env c k rec t) = w_members (projectMemberRow env c k rec s)"
  by (simp add: projectMemberRow_def Let_def split: option.split)

lemma runs_put_member:
  "runs (putRecord env c MEMBER_COLLECTION k rec) s (\<lambda>r t. (\<exists>e. r = Inl e) \<and> w_members t = w_members s \<or>
     w_members t = w_members (projectMemberRow env c k rec s))"
proof -
  let ?Q = "\<lambda>r t. (\<exists>e. r = Inl e) \<and> w_members t = w_members s \<or> w_members t = w_members (projectMemberRow env c k rec s)"
  have put: "w_members (index_put d c' k' cid r t) = w_members t" "w_ticks (index_put d c' k' cid r t) = w_ticks t" for d c' k' cid r t by (simp_all add: index_put_def)
  have sync: "runs (syncRecordsIndex env c [(wop, Some cid)]) t ?Q"
    if "w_members t = w_members s" "w_ticks t = w_ticks s" "wop = UpdateOp MEMBER_COLLECTION k rec \<or> wop = CreateOp MEMBER_COLLECTION k rec" for t wop cid
    unfolding syncRecordsIndex_def
    by (rule runs_dbTxnI) (use that in \<open>auto simp: Let_def put intro!: members_project\<close>)
  have commit: "runs (commitRepo env c tr ops) t (\<lambda>r u. w_members u = w_members t \<and> w_ticks u = w_ticks t)" for tr ops t
    unfolding commitRepo_def runs_bindM by (auto intro!: runs_dbWriteI split: sum.split)
  have load: "runs (loadRepo env c) t (\<lambda>r u. w_members u = w_members t \<and> w_ticks u = w_ticks t)" for t
    unfolding loadRepo_def by (intro runs_bindI runs_dbReadI) (auto split: option.split)
  have body: "runs (bindM (cidForRecord env rec) (\<lambda>cid.
       let wop = (if existing then UpdateOp MEMBER_COLLECTION k rec else CreateOp MEMBER_COLLECTION k rec)
       in seqM (commitRepo env c tr [wop])
            (seqM (syncRecordsIndex env c [(wop, Some cid)]) (ret (cid, at_uri c MEMBER_COLLECTION k))))) t ?Q"
    if "w_members t = w_members s" "w_ticks t = w_ticks s" for existing tr t
    unfolding Let_def
    by (rule runs_bindI) (use that in \<open>auto split: sum.split intro!: runs_seqI runs_mono [OF commit] runs_mono [OF sync]\<close>)
  have look: "runs (bindM (dbRead env (\<lambda>s. indexed s c MEMBER_COLLECTION k \<noteq> None)) (\<lambda>existing.
      bindM (cidForRecord env rec) (\<lambda>cid.
        let wop = (if existing then UpdateOp MEMBER_COLLECTION k rec else CreateOp MEMBER_COLLECTION k rec)
        in seqM (commitRepo env c tr [wop])
             (seqM (syncRecordsIndex env c [(wop, Some cid)]) (ret (cid, at_uri c MEMBER_COLLECTION k)))))) t ?Q"
    if "w_members t = w_members s" "w_ticks t = w_ticks s" for tr t
    by (rule runs_bindI, rule runs_dbReadI) (use that in \<open>simp_all add: body\<close>)
  show ?thesis
    unfolding putRecord_def
    by (rule runs_bindI, rule runs_mono [OF load]) (auto split: sum.split intro: look simp del: not_None_eq)
qed

subsection \<open>The steps of a membership\<close>

definition owner_did :: "world \<Rightarrow> community_row \<Rightarrow> string option" where
  "owner_did s com = nonempty (map_option u_did (user_by (\<lambda>u. Some (u_id u) = c_created_by com) s))"

text \<open>Rows are added or rewritten, those in \<open>X\<close> only, and none is lost.\<close>

definition only_changes :: "(string \<times> string \<Rightarrow> bool) \<Rightarrow> world \<Rightarrow> world \<Rightarrow> bool" where
  "only_changes X s t \<longleftrightarrow>
     (\<forall>x. \<not> X x \<longrightarrow> map_of (w_members t) x = map_of (w_members s) x) \<and>
     (\<forall>x. map_of (w_members s) x \<noteq> None \<longrightarrow> map_of (w_members t) x \<noteq> None)"

definition may_edit_members :: "env \<Rightarrow> world \<Rightarrow> string \<Rightarrow> auth \<Rightarrow> bool" where
  "may_edit_members env s c a \<longleftrightarrow>
     has_permission (caller_capabilities env (community_context env s c (Some a)) a) ''community.member.write'' = Inr True"

inductive member_step :: "env \<Rightarrow> auth \<Rightarrow> world \<Rightarrow> world \<Rightarrow> bool" for env a s where
  unchanged: "w_members t = w_members s \<Longrightarrow> member_step env a s t"
| left: "map_of (w_communities s) c = Some com \<Longrightarrow> c_created_by com \<noteq> Some (a_userId a)
    \<Longrightarrow> map_of (w_members s) (c, a_did a) = Some row
    \<Longrightarrow> w_members t = drop_member_rows c (m_record_rkey row) s \<Longrightarrow> member_step env a s t"
| removed: "map_of (w_communities s) c = Some com \<Longrightarrow> manages a (c_created_by com)
    \<Longrightarrow> d \<noteq> [] \<Longrightarrow> owner_did s com \<noteq> Some d \<Longrightarrow> map_of (w_members s) (c, d) = Some row
    \<Longrightarrow> w_members t = drop_member_rows c (m_record_rkey row) s \<Longrightarrow> member_step env a s t"
| joined: "map_of (w_members s) (c, a_did a) = None \<Longrightarrow> join_policy s c = JStr ''open''
    \<Longrightarrow> only_changes (\<lambda>x. x = (c, a_did a)) s t \<Longrightarrow> member_step env a s t"
| approved: "map_of (w_communities s) c = Some com \<Longrightarrow> manages a (c_created_by com)
    \<Longrightarrow> ((c, u), row) \<in> set (w_joins s) \<Longrightarrow> jr_status row = ''pending''
    \<Longrightarrow> only_changes (\<lambda>x. x = (c, jr_user_did row)) s t \<Longrightarrow> member_step env a s t"
| edited: "may_edit_members env s c a \<Longrightarrow> only_changes (\<lambda>x. fst x = c) s t \<Longrightarrow> member_step env a s t"

lemma only_changes_same: "w_members t = w_members s \<Longrightarrow> only_changes X s t"
  by (simp add: only_changes_def)

lemma only_changes_trans: "only_changes X s t \<Longrightarrow> only_changes X t u \<Longrightarrow> only_changes X s u"
  by (simp add: only_changes_def)

interpretation only_changes: world_preorder "only_changes X" for X
  by unfold_locales (auto simp: only_changes_def)

interpretation members_fixed: world_preorder "frames w_members"
  by unfold_locales (auto simp: frames_def)

lemma members_auditLog: "moves (frames w_members) (auditLog env action actor target meta)"
  unfolding auditLog_def
  by (intro frames.mv_rules members_fixed.mv_dbWrite) (simp add: frames_def)

lemma members_joins:
  "moves (frames w_members) (dbWrite env (set_join_status c u st))" "moves (frames w_members) (dbWrite env (delete_join c u))"
  "moves (frames w_members) (dbWrite env (set_status_by_id i st))" "moves (frames w_members) (dbTxn env (insert_join c u row))"
  by (intro members_fixed.mv_dbWrite members_fixed.mv_dbTxn;
      auto simp: frames_def set_join_status_def delete_join_def set_status_by_id_def insert_join_def
        split: option.split if_splits)+

lemma runs_members: "moves (frames w_members) m \<Longrightarrow> (\<And>r t. w_members t = w_members s \<Longrightarrow> Q r t) \<Longrightarrow> runs m s Q"
  by (rule runs_mono [OF runs_moves [of "frames w_members"]]) (simp_all add: frames_def)

lemma project_changes:
  assumes "\<And>d. json_text (e_text env) (jget rec ''did'') = Some d \<Longrightarrow> X (c, d)"
  shows "only_changes X s (projectMemberRow env c k rec s)"
  using assms by (auto simp: only_changes_def projectMemberRow_def Let_def split: option.split)

lemma put_changes:
  assumes "\<And>d. json_text (e_text env) (jget rec ''did'') = Some d \<Longrightarrow> X (c, d)"
  shows "moves (only_changes X) (putRecord env c MEMBER_COLLECTION k rec)"
  unfolding moves_runs
  by (intro allI, rule runs_mono [OF runs_put_member])
    (use project_changes [of env rec X c, OF assms] in \<open>auto simp: only_changes_def\<close>)

lemma create_changes:
  "moves (only_changes (\<lambda>x. x = (c, d))) (createMemberRecordForDid env c d h sm)"
proof -
  have "moves (only_changes (\<lambda>x. x = (c, d))) (putRecord env c MEMBER_COLLECTION k (member_record d h r j sm))" for k r j
    by (rule put_changes) (simp add: member_record_def)
  moreover have "only_changes (\<lambda>x. x = (c, d)) s (set_member_columns env c d disp r sm s)" for disp r s
    by (auto simp: only_changes_def set_member_columns_def split: option.split)
  ultimately show ?thesis
    unfolding createMemberRecordForDid_def findRoleRkeyByName_def resolveDisplayFields_def
    by (intro only_changes.mv_rules only_changes.mv_reads only_changes.mv_dbWrite)
qed

subsection \<open>Every endpoint takes such a step\<close>

lemma same_data_step: "same_data s t \<Longrightarrow> member_step env a s t"
  by (rule unchanged) (rule same_dataD)

lemma same_data_policy: "same_data s t \<Longrightarrow> join_policy t c = join_policy s c"
  by (simp add: join_policy_def same_data_indexed)

lemma same_data_context: "same_data s t \<Longrightarrow> community_context env t c x = community_context env s c x"
proof -
  assume d: "same_data s t"
  show ?thesis unfolding community_context_def by (simp only: same_dataD [OF d] same_data_indexed [OF d])
qed

text \<open>A step taken from where the reads have led is one from the start.\<close>

lemma step_from:
  assumes "same_data s u" "member_step env a u t" shows "member_step env a s t"
  using assms(2)
proof (cases rule: member_step.cases)
  case (left c com row)
  with assms(1) show ?thesis
    by (intro member_step.left [where c = c and com = com and row = row]) (simp_all add: same_dataD drop_member_rows_def)
next
  case (removed c com d row)
  with assms(1) show ?thesis
    by (intro member_step.removed [where c = c and com = com and d = d and row = row]) (simp_all add: same_dataD drop_member_rows_def owner_did_def user_by_def)
next
  case (joined c)
  with assms(1) show ?thesis
    by (intro member_step.joined [where c = c]) (simp_all add: same_dataD same_data_policy only_changes_def)
next
  case (approved c com v row)
  with assms(1) show ?thesis
    by (intro member_step.approved [where c = c and com = com and u = v and row = row]) (simp_all add: same_dataD only_changes_def)
next
  case (edited c)
  with assms(1) show ?thesis
    by (intro member_step.edited [where c = c]) (simp_all add: same_dataD may_edit_members_def same_data_context only_changes_def)
qed (use assms(1) in \<open>simp add: unchanged same_dataD\<close>)

definition steps :: "'x io \<Rightarrow> env \<Rightarrow> auth \<Rightarrow> world \<Rightarrow> bool" where
  "steps m env a s \<longleftrightarrow> runs m s (\<lambda>_. member_step env a s)"

lemma steps_peek:
  assumes "peeks m s P" "\<And>x t. same_data s t \<Longrightarrow> P x \<Longrightarrow> steps (k x) env a t"
  shows "steps (bindM m k) env a s"
  unfolding steps_def
proof (rule peeks_then [OF assms(1)], goal_cases)
  case (1 e t)
  then show ?case by (rule same_data_step)
next
  case (2 x t)
  show ?case
    by (rule runs_mono [OF assms(2) [OF 2, unfolded steps_def]]) (rule step_from [OF 2(1)])
qed

lemma steps_peek_seq: "peeks m s (\<lambda>_. P) \<Longrightarrow> (\<And>t. same_data s t \<Longrightarrow> P \<Longrightarrow> steps k env a t) \<Longrightarrow> steps (seqM m k) env a s"
  unfolding seqM_def by (rule steps_peek)

lemma steps_refuse [simp]: "steps (refuse errors status code) env a s"
  by (simp add: steps_def refuse_def throwXrpc_def unchanged)

lemma steps_ret [simp]: "steps (ret x) env a s"
  by (simp add: steps_def unchanged)

lemma steps_throw [simp]: "steps (throw e) env a s"
  by (simp add: steps_def unchanged)

lemma steps_fixed: "moves (frames w_members) m \<Longrightarrow> steps m env a s"
  unfolding steps_def by (rule runs_members) (auto intro: unchanged)

lemma steps_then_fixed:
  assumes "steps m env a s" "\<And>x. moves (frames w_members) (k x)"
  shows "steps (bindM m k) env a s"
  unfolding steps_def
proof (rule runs_bindI, rule runs_mono [OF assms(1) [unfolded steps_def]])
  fix r u assume u: "member_step env a s u"
  have same: "member_step env a s t" if "w_members t = w_members u" for t
    using u by (cases rule: member_step.cases)
      (auto intro: member_step.intros simp: that only_changes_def)
  show "case r of Inl e \<Rightarrow> member_step env a s u | Inr x \<Rightarrow> runs (k x) u (\<lambda>_. member_step env a s)"
    using u by (cases r) (auto intro!: runs_members [OF assms(2)] same)
qed

lemma steps_handler: "steps m env a s \<Longrightarrow> steps (xrpc_handler errors m) env a s"
  unfolding xrpc_handler_def steps_def runs_catchM by (auto elim!: runs_mono split: sum.split)

lemma steps_delete:
  assumes "\<And>t. w_members t = drop_member_rows c k s \<Longrightarrow> member_step env a s t"
  shows "steps (deleteMemberRecord env c k) env a s"
  unfolding steps_def
  by (rule runs_mono [OF runs_delete_member]) (auto intro: assms unchanged)

lemma steps_changes:
  assumes "moves (only_changes X) m" "\<And>t. only_changes X s t \<Longrightarrow> member_step env a s t"
  shows "steps m env a s"
  unfolding steps_def using assms by (auto intro!: runs_mono [OF runs_moves])

lemma moves_members_ret [simp]: "moves (frames w_members) (ret x)"
  by (rule frames.mv_ret)

lemmas members_mv = frames.mv_rules members_fixed.mv_reads members_auditLog members_joins

lemma leave_steps: "steps (leaveCommunityLifecycle env a input) env a s"
  unfolding leaveCommunityLifecycle_def
proof (rule steps_peek [OF peeks_requireString], rule steps_peek [OF peeks_owner], goal_cases)
  case (1 c s1 created_by s2)
  then obtain com where com: "map_of (w_communities s2) c = Some com" "created_by = c_created_by com"
    by (auto simp: same_dataD)
  show ?case
  proof (cases "created_by = Some (a_userId a)")
    case False
    have "steps (case rkey of None \<Rightarrow> refuse LEAVE_ERRORS 400 ''NotMember''
        | Some rkey \<Rightarrow> seqM (deleteMemberRecord env c rkey) (dbWrite env (delete_join c (a_userId a)))) env a s3"
      if "same_data s2 s3" "case rkey of None \<Rightarrow> True
        | Some k \<Rightarrow> \<exists>row. map_of (w_members s2) (c, a_did a) = Some row \<and> m_record_rkey row = k" for rkey s3
    proof (cases rkey)
      case (Some k)
      with that obtain row where row: "map_of (w_members s3) (c, a_did a) = Some row" "m_record_rkey row = k"
        by (auto simp: same_dataD)
      have "member_step env a s3 t" if "w_members t = drop_member_rows c k s3" for t
        using that com False row \<open>same_data s2 s3\<close>
        by (intro member_step.left [where com = com, OF _ _ row(1)]) (simp_all add: same_dataD)
      then show ?thesis
        unfolding Some option.case seqM_def by (intro steps_then_fixed steps_delete members_joins)
    qed simp
    with False show ?thesis by (auto intro: steps_peek [OF peeks_rkey])
  qed simp
qed

lemma peeks_getUserDid:
  "peeks (getUserDid env uid) s (\<lambda>x. x = nonempty (map_option u_did (user_by (\<lambda>u. Some (u_id u) = uid) s)))"
  unfolding getUserDid_def by (rule peeks_dbRead)

lemma remove_steps: "steps (removeMemberLifecycle env a input) env a s"
  unfolding removeMemberLifecycle_def
proof (rule steps_peek [OF peeks_requireString], rule steps_peek [OF peeks_requireString],
    rule steps_peek [OF peeks_owner], goal_cases)
  case (1 c s1 d s2 created_by s3)
  then obtain com where com: "map_of (w_communities s3) c = Some com" "created_by = c_created_by com" and d: "d \<noteq> []"
    by (auto simp: same_dataD)
  have finish: "steps (finish_removal env a c d rkey) env a t"
    if "manages a (c_created_by com)" "owner_did t com \<noteq> Some d" "map_of (w_communities t) c = Some com"
      "map_of (w_members t) (c, d) = Some row" "m_record_rkey row = rkey" for rkey row t
    unfolding finish_removal_def seqM_def [of "deleteMemberRecord env c rkey"] getUserIdByDid_def
    by (intro steps_then_fixed members_mv steps_delete, rule member_step.removed [OF that(3,1) d that(2,4)])
      (simp add: that(5))
  show ?case
  proof (cases "manages a created_by")
    case True
    have "steps (case rkey of None \<Rightarrow> refuse REMOVE_ERRORS 400 ''NotMember'' | Some rkey \<Rightarrow> finish_removal env a c d rkey) env a s5"
      if "same_data s3 s4" "owner_did s3 com \<noteq> Some d" "same_data s4 s5" "case rkey of None \<Rightarrow> True
        | Some k \<Rightarrow> \<exists>row. map_of (w_members s4) (c, d) = Some row \<and> m_record_rkey row = k" for rkey s4 s5
    proof (cases rkey)
      case (Some k)
      with that obtain row where "map_of (w_members s5) (c, d) = Some row" "m_record_rkey row = k"
        by (auto simp: same_dataD)
      moreover have "owner_did s5 com \<noteq> Some d" "map_of (w_communities s5) c = Some com"
        using that com by (simp_all add: same_dataD owner_did_def user_by_def)
      ultimately show ?thesis using True com Some by (auto intro!: finish)
    qed simp
    then have "steps (if x = Some d then refuse REMOVE_ERRORS 403 ''Forbidden''
         else bindM (getMemberRkey env c d) (\<lambda>memberRkey. case memberRkey of
             None \<Rightarrow> refuse REMOVE_ERRORS 400 ''NotMember'' | Some rkey \<Rightarrow> finish_removal env a c d rkey)) env a s4"
      if "same_data s3 s4" "x = owner_did s3 com" for x s4
      using that by (auto intro: steps_peek [OF peeks_rkey])
    with True com show ?thesis by (auto simp: owner_did_def intro!: steps_peek [OF peeks_getUserDid])
  qed simp
qed

lemma join_steps: "steps (joinCommunityLifecycle env a input) env a s"
proof (cases "validateJoinInput env input")
  case (Inr x)
  obtain c sm where x: "x = (c, sm)" by (cases x)
  have not_member: "peeks (ensureNotAlreadyMember env c (a_did a)) t (\<lambda>_. map_of (w_members t) (c, a_did a) = None)" for t
    unfolding ensureNotAlreadyMember_def by (rule peeks_bind [OF peeks_dbRead]) auto
  have create: "steps (seqM (createMemberRecordForDid env c (a_did a) (a_handle a) sm) (ret y)) env a t"
    if "map_of (w_members t) (c, a_did a) = None" "join_policy t c = JStr ''open''" for t and y :: string
    unfolding seqM_def
    by (intro steps_then_fixed frames.mv_ret steps_changes [OF create_changes] member_step.joined [OF that])
  have "moves (frames w_members) (randomUUID env)" "moves (frames w_members) (refuse JOIN_ERRORS 409 ''AlreadyRequested'')"
    by (simp_all add: moves_def randomUUID_def frames_def refuse_def throwXrpc_def run_simps)
  then have ask: "steps (request_to_join env a c) env a t" for t
    unfolding request_to_join_def by (intro steps_fixed members_mv)
  have exists: "peeks (ensureCommunityExists env c) t (\<lambda>_. True)" for t
    unfolding ensureCommunityExists_def by (rule peeks_bind [OF peeks_dbRead]) auto
  show ?thesis
    unfolding joinCommunityLifecycle_def Inr x sum.case prod.case
  proof (rule steps_peek_seq [OF exists], rule steps_peek_seq [OF not_member], unfold getJoinPolicy_def,
      rule steps_peek [OF peeks_dbRead], goal_cases)
    case (1 s1 s2 policy s3)
    then show ?case
      using ask create [of s3 "''joined''"] by (auto simp: same_dataD same_data_policy)
  qed
qed (auto simp: joinCommunityLifecycle_def split: prod.split)

lemma fixed_changes: "moves (frames w_members) m \<Longrightarrow> moves (only_changes X) m"
  by (rule moves_mono [of "frames w_members"]) (auto simp: frames_def intro: only_changes_same)

lemma changes_refuse: "moves (only_changes X) (refuse errors status code)"
  by (simp add: refuse_def throwXrpc_def only_changes.mv_throw)

lemmas changes_mv =
  only_changes.mv_rules only_changes.mv_reads changes_refuse fixed_changes [OF members_auditLog] members_joins [THEN fixed_changes]

lemma settle_changes:
  "moves (only_changes (\<lambda>x. x = (c, jr_user_did row))) (settle_request env a i approve c u row)"
  unfolding settle_request_def getUserHandle_def Let_def by (intro changes_mv create_changes)

lemma join_by_idD: "join_by_id s i = Some ((c, u), row) \<Longrightarrow> ((c, u), row) \<in> set (w_joins s) \<and> jr_id row = i"
  by (auto simp: join_by_id_def split: list.splits dest: filter_eq_ConsD)

lemma resolve_steps: "steps (resolveJoinRequestLifecycle env a input) env a s"
  unfolding resolveJoinRequestLifecycle_def
proof (rule steps_peek [OF peeks_requireString], rule steps_peek [OF peeks_requireString], goal_cases)
  case (1 i s1 action s2)
  show ?case
  proof (cases "action \<noteq> ''approve'' \<and> action \<noteq> ''reject''")
    case False
    show ?thesis
      unfolding if_not_P [OF False]
    proof (rule steps_peek [OF peeks_dbRead], goal_cases)
      case (1 found s3)
      show ?case
      proof (cases found)
        case (Some r)
        obtain c u row where r: "r = ((c, u), row)" by (cases r) auto
        with Some 1 have j: "((c, u), row) \<in> set (w_joins s3)" by (auto simp: same_dataD dest: join_by_idD)
        show ?thesis
        proof (cases "jr_status row = ''pending''")
          case True
          have "steps (if \<not> manages a created_by then refuse RESOLVE_ERRORS 403 ''Forbidden''
              else settle_request env a i (action = ''approve'') c u row) env a s4"
            if "same_data s3 s4" "map_of (w_communities s3) c = Some com" "created_by = c_created_by com" for created_by com s4
          proof (cases "manages a created_by")
            case m: True
            have "member_step env a s4 t" if "only_changes (\<lambda>x. x = (c, jr_user_did row)) s4 t" for t
              using j m True that \<open>same_data s3 s4\<close> \<open>map_of (w_communities s3) c = Some com\<close> \<open>created_by = c_created_by com\<close>
              by (intro member_step.approved [where c = c and com = com and u = u and row = row]) (simp_all add: same_dataD)
            with m show ?thesis by (auto intro: steps_changes [OF settle_changes])
          qed simp
          with True show ?thesis
            unfolding Some r option.case prod.case by (auto intro: steps_peek [OF peeks_owner])
        qed (simp add: Some r)
      qed simp
    qed
  qed simp
qed

lemma update_changes: "moves (only_changes (\<lambda>x. fst x = c)) (write_update env a c d input name)"
  unfolding write_update_def getRecord_def Let_def by (intro changes_mv put_changes) simp

lemma update_steps: "steps (updateMemberLifecycle env a input) env a s"
  unfolding updateMemberLifecycle_def
proof (rule steps_peek [OF peeks_requireString], rule steps_peek [OF peeks_requireString], goal_cases)
  case (1 c s1 d s2)
  show ?case
  proof (cases "update_problem env input")
    case None
    have "peeks (getCallerCommunityCapabilities env c a) s2
        (\<lambda>x. x = caller_capabilities env (community_context env s2 c (Some a)) a)"
      unfolding getCallerCommunityCapabilities_def loadCommunityContext_def
      by (rule peeks_bind [OF peeks_dbRead]) simp
    then show ?thesis
      unfolding None option.case
    proof (rule steps_peek, goal_cases)
      case (1 caps s3)
      show ?case
      proof (cases "cp_exists caps")
        case True
        have granted: "steps (if \<not> granted then refuse UPDATE_ERRORS 403
                (if map_option ms_status (cp_membership caps) \<noteq> Some ''member'' then ''NotMember'' else ''Forbidden'')
             else check_role_then_write env a c d input) env a s4"
          if "same_data s3 s4" "has_permission caps ''community.member.write'' = Inr granted" for granted s4
        proof (cases granted)
          case True
          with that 1 have edit: "may_edit_members env s4 c a"
            by (simp add: may_edit_members_def same_data_context)
          have "moves (only_changes (\<lambda>x. fst x = c)) (check_role_then_write env a c d input)"
            unfolding check_role_then_write_def
            by (auto split: jv.split list.split intro!: changes_mv update_changes)
          then show ?thesis using True edit by (auto intro!: steps_changes member_step.edited)
        qed simp
        from True show ?thesis
          by (simp only: not_True_eq_False if_False) (rule steps_peek [OF peeks_liftE granted])
      qed simp
    qed
  qed (auto split: prod.split)
qed

subsection \<open>Who can change a membership\<close>

definition membership_runs :: "env \<Rightarrow> request \<Rightarrow> reply io list" where
  "membership_runs env req =
     [joinCommunity env req, leaveCommunity env req, removeMember env req, resolveJoinRequest env req, updateMember env req]"

lemma approved_user: "requireApprovedUser env req = Inr a \<Longrightarrow> q_auth req = Some a"
  by (auto simp: requireApprovedUser_def requireAuth_def split: option.splits sum.splits if_splits prod.splits)

lemma steps_authM: "(\<And>a. q_auth req = Some a \<Longrightarrow> steps (k a) env b s) \<Longrightarrow> steps (authM req k) env b s"
  by (auto simp: authM_def requireAuth_def split: option.split prod.split)

lemma endpoint_steps:
  assumes "m \<in> set (membership_runs env req)" "q_auth req = Some a"
  shows "steps m env a s"
proof -
  have "steps (joinCommunity env req) env a s"
    unfolding joinCommunity_def
    using assms(2) by (auto intro!: steps_handler steps_then_fixed join_steps split: sum.split dest: approved_user)
  moreover have "steps (leaveCommunity env req) env a s" "steps (removeMember env req) env a s"
    "steps (resolveJoinRequest env req) env a s" "steps (updateMember env req) env a s"
    unfolding leaveCommunity_def removeMember_def resolveJoinRequest_def updateMember_def seqM_def
    using assms(2)
    by (auto intro!: steps_handler steps_authM steps_then_fixed leave_steps remove_steps resolve_steps update_steps)
  ultimately show ?thesis using assms(1) by (auto simp: membership_runs_def)
qed

lemma call_is_member_step:
  assumes "m \<in> set (membership_runs env req)"
  shows "case q_auth req of None \<Rightarrow> snd (m s) = s | Some a \<Rightarrow> member_step env a s (snd (m s))"
proof (cases "q_auth req")
  case None
  with assms show ?thesis
    by (auto simp: membership_runs_def joinCommunity_def leaveCommunity_def removeMember_def resolveJoinRequest_def
        updateMember_def authM_def requireApprovedUser_def requireAuth_def xrpc_handler_def run_simps split: option.split)
next
  case (Some a)
  with endpoint_steps [OF assms Some, of s] show ?thesis by (auto simp: steps_def runs_def split: prod.splits)
qed


lemma kept_when_dropping:
  "map_of (w_members s) (c, d) = Some row \<Longrightarrow> (c' = c \<Longrightarrow> m_record_rkey row \<noteq> k)
   \<Longrightarrow> map_of (drop_member_rows c' k s) (c, d) = Some row"
proof -
  have "map_of (filter P xs) x = Some v" if "map_of xs x = Some v" "P (x, v)" for P x v and xs :: "((string \<times> string) \<times> member_row) list"
    using that by (induction xs) (auto split: if_splits)
  then show "map_of (w_members s) (c, d) = Some row \<Longrightarrow> (c' = c \<Longrightarrow> m_record_rkey row \<noteq> k)
     \<Longrightarrow> map_of (drop_member_rows c' k s) (c, d) = Some row"
    unfolding drop_member_rows_def by auto
qed


end
