(* ===== verification/JoinRequests.thy ===== *)
theory JoinRequests
  imports MembershipEffect
begin

text \<open>
  Two things that can happen to a request to join, because approving it is two statements and
  does not look at the members: a request whose approval was interrupted can never be settled,
  and one approved for somebody who has become a member meanwhile gives them a second record.
\<close>

subsection \<open>Requests to join that nobody can settle\<close>

definition denied :: "reply io \<Rightarrow> world \<Rightarrow> bool" where
  "denied m s \<longleftrightarrow> (\<exists>rep t. m s = (Inr rep, t) \<and> same_data s t \<and> isErrorBody (reply_body rep))"

lemma err_body [simp]: "isErrorBody (reply_body (err n code))"
  by (simp add: err_def isErrorBody_def)

lemma render_err: "isErrorBody (reply_body (renderXrpcError allowed e))"
  by (cases e) (simp_all add: renderXrpcError_def internal_error_def)

lemma denied_err: "denied (xrpc_handler errors (ret (err n code))) s"
  by (simp add: denied_def xrpc_handler_def run_simps frames.R_refl)

lemma denied_handler:
  assumes "peeks m s (\<lambda>_. False)" shows "denied (xrpc_handler errors m) s"
proof -
  obtain r t where m: "m s = (r, t)" by (cases "m s")
  with assms have "same_data s t" and "\<exists>e. r = Inl e"
    by (cases r; auto simp: peeks_def runs_def)+
  with m render_err show ?thesis by (auto simp: denied_def xrpc_handler_def run_simps)
qed

lemma auth_problem: "requireAuth req = Inl r \<Longrightarrow> \<exists>n code. r = err n code"
  by (auto simp: requireAuth_def split: option.splits prod.splits)

lemma approval_problem: "requireApprovedUser env req = Inl r \<Longrightarrow> \<exists>n code. r = err n code"
  by (auto simp: requireApprovedUser_def split: sum.splits if_splits option.splits prod.splits dest: auth_problem)

lemma denied_authM:
  assumes "\<And>a. peeks (k a) s (\<lambda>_. False)" shows "denied (xrpc_handler errors (authM req k)) s"
proof (cases "requireAuth req")
  case (Inl r)
  then show ?thesis using auth_problem [OF Inl] by (auto simp: authM_def denied_err)
next
  case (Inr a)
  then show ?thesis using assms by (simp add: authM_def denied_handler)
qed

lemma insert_join_refused:
  assumes "map_of (w_joins s) (c, u) = Some old"
  shows "peeks (dbTxn env (insert_join c u row)) s (\<lambda>_. False)"
  unfolding peeks_def
  by (rule runs_dbTxnI) (use assms in \<open>auto simp: insert_join_def frames_def world_data_def\<close>)

text \<open>
  A request marked approved whose applicant is not a member is stuck in a community that takes
  members on approval: every further request to join by the applicant, and every attempt of anybody
  to resolve the request, is answered with an error and changes nothing.
\<close>

theorem approved_outsider_is_stuck:
  assumes "map_of (w_joins s) (c, a_userId a) = Some row" "jr_status row = ''approved''"
    and "map_of (w_members s) (c, a_did a) = None" "join_policy s c \<noteq> JStr ''open''"
    and "q_auth req = Some a" "jget (request_body req) ''did'' = JStr c"
    and "join_by_id s (jr_id row) = Some ((c, a_userId a), row)"
    and "jget (request_body req') ''requestId'' = JStr (jr_id row)"
  shows "denied (joinCommunity env req) s \<and> denied (resolveJoinRequest env req') s"
proof
  have ask: "peeks (request_to_join env a c) t (\<lambda>_. False)" if "same_data s t" for t
    unfolding request_to_join_def
  proof (rule peeks_bind [OF peeks_dbRead], goal_cases)
    case (1 existing t1)
    with that assms(1) have row: "existing = Some row" "map_of (w_joins t1) (c, a_userId a) = Some row"
      by (simp_all add: same_dataD)
    have "peeks (bindM (randomUUID env) (\<lambda>uuid. seqM (dbTxn env (insert_join c (a_userId a)
        \<lparr>jr_id = uuid, jr_user_did = a_did a, jr_status = ''pending''\<rparr>)) (ret ''pending''))) t1 (\<lambda>_. False)"
      unfolding seqM_def
    proof (rule peeks_bind [OF peeks_moves], goal_cases)
      case 1
      show ?case by (simp add: moves_def randomUUID_def frames_def world_data_def)
    next
      case (2 uuid t2)
      with row have "map_of (w_joins t2) (c, a_userId a) = Some row" by (simp add: same_dataD)
      then show ?case by (rule peeks_bind [OF insert_join_refused]) simp
    qed
    with row assms(2) show ?case by simp
  qed
  have "peeks (joinCommunityLifecycle env a (request_body req)) s (\<lambda>_. False)"
  proof (cases "validateJoinInput env (request_body req)")
    case (Inr x)
    with assms(6) obtain sm where x: "x = (c, sm)"
      by (auto simp: validateJoinInput_def nonempty_text_def Let_def split: if_splits option.splits)
    show ?thesis
      unfolding joinCommunityLifecycle_def Inr x sum.case prod.case seqM_def ensureCommunityExists_def
        ensureNotAlreadyMember_def getJoinPolicy_def
      by (rule peeks_bind [OF peeks_bind [OF peeks_dbRead, where Q = "\<lambda>_. True"]], force,
          rule peeks_bind [OF peeks_bind [OF peeks_dbRead, where Q = "\<lambda>_. True"]], force,
          rule peeks_bind [OF peeks_dbRead])
        (use assms(4) in \<open>auto simp: same_data_policy intro!: ask intro: frames.R_trans\<close>)
  qed (auto simp: joinCommunityLifecycle_def)
  then have call: "peeks (bindM (joinCommunityLifecycle env a (request_body req)) k) s (\<lambda>_. False)" for k :: "string \<Rightarrow> reply io"
    by (rule peeks_bind) simp
  show "denied (joinCommunity env req) s"
  proof (cases "requireApprovedUser env req")
    case (Inl r)
    with approval_problem [OF Inl] show ?thesis by (auto simp: joinCommunity_def denied_err)
  next
    case (Inr b)
    with approved_user [OF Inr] assms(5) call show ?thesis by (simp add: joinCommunity_def denied_handler)
  qed
  have "peeks (resolveJoinRequestLifecycle env b (request_body req')) s (\<lambda>_. False)" for b
    unfolding resolveJoinRequestLifecycle_def
  proof (rule peeks_bind [OF peeks_requireString], rule peeks_bind [OF peeks_requireString], goal_cases)
    case (1 i s1 action s2)
    with assms(7,8) have found: "join_by_id s2 i = Some ((c, a_userId a), row)"
      by (simp add: join_by_id_def same_dataD)
    show ?case
    proof (cases "action \<noteq> ''approve'' \<and> action \<noteq> ''reject''")
      case False
      show ?thesis
        unfolding if_not_P [OF False]
        by (rule peeks_bind [OF peeks_dbRead]) (simp add: found assms(2))
    qed simp
  qed
  then show "denied (resolveJoinRequest env req') s"
    unfolding resolveJoinRequest_def by (intro denied_authM peeks_bind) auto
qed

text \<open>A club that takes members on approval, and what a request to it looks like.\<close>

definition club_owner :: auth where
  "club_owner = \<lparr>a_userId = ''u0'', a_did = ''o'', a_handle = ''owner'', a_status = ''approved'', a_roles = [], a_emailVerified = None\<rparr>"

definition club_guest :: auth where
  "club_guest = \<lparr>a_userId = ''u1'', a_did = ''g'', a_handle = ''guest'', a_status = ''approved'', a_roles = [], a_emailVerified = None\<rparr>"

definition call_as :: "auth \<Rightarrow> (string \<times> jv) list \<Rightarrow> request" where
  "call_as a body = \<lparr>q_auth = Some a, q_serviceAuthError = None, q_partner = None, q_partnerError = None, q_body = JObj body\<rparr>"

definition join_club :: request where
  "join_club = call_as club_guest [(''did'', JStr ''c'')]"

definition approve_guest :: request where
  "approve_guest = call_as club_owner [(''requestId'', JStr ''r1''), (''action'', JStr ''approve'')]"

definition member_row_at :: "string \<Rightarrow> member_row" where
  "member_row_at k = \<lparr>m_record_rkey = k, m_handle = None, m_role = None, m_role_rkey = None, m_kind = None,
     m_tags = JNull, m_attributes = JNull, m_display_name = None, m_avatar_url = None, m_created_at = 0\<rparr>"

definition club :: "string \<Rightarrow> world" where
  "club status = empty_world\<lparr>
     w_repos := [(''c'', [((MEMBER_COLLECTION, ''k0''), JObj [(''did'', JStr ''o'')])])],
     w_index := [((''c'', MEMBER_COLLECTION, ''k0''), (''cid'', JObj [(''did'', JStr ''o'')])),
                 ((''c'', SETTINGS_COLLECTION, ''self''), (''cid'', JObj [(''joinPolicy'', JStr ''approval'')]))],
     w_members := [((''c'', ''o''), member_row_at ''k0'')],
     w_communities := [(''c'', \<lparr>c_handle = ''club'', c_created_by = Some ''u0'', c_owner_did = Some ''o'', c_status = ''active'', c_exported_at = None, c_did_method = ''plc'', c_created_at = 0, c_status_reason = None\<rparr>)],
     w_joins := [((''c'', ''u1''), \<lparr>jr_id = ''r1'', jr_user_did = ''g'', jr_status = status\<rparr>)],
     w_users := [\<lparr>u_id = ''u0'', u_did = ''o'', u_handle = ''owner'', u_auth_type = ''local'', u_created_at = 0\<rparr>]\<rparr>"

lemma club_simps [simp]:
  "w_joins (club st) = [((''c'', ''u1''), \<lparr>jr_id = ''r1'', jr_user_did = ''g'', jr_status = st\<rparr>)]"
  "w_members (club st) = [((''c'', ''o''), member_row_at ''k0'')]"
  "w_communities (club st) = [(''c'', \<lparr>c_handle = ''club'', c_created_by = Some ''u0'', c_owner_did = Some ''o'', c_status = ''active'', c_exported_at = None, c_did_method = ''plc'', c_created_at = 0, c_status_reason = None\<rparr>)]"
  by (simp_all add: club_def)

lemma club_policy: "join_policy (club st) ''c'' = JStr ''approval''"
  by (simp add: join_policy_def club_def indexed_def record_or_null_def js_or_def MEMBER_COLLECTION_def SETTINGS_COLLECTION_def)

text \<open>
  The state the theorem starts from is one a crash leaves: the database refuses the statement
  after the one that approves the request.
\<close>

definition crashing_env :: env where
  "crashing_env = sample_env\<lparr>e_fault := (\<lambda>n. if n = 4 then Some (Refused (Failure ''connection lost'')) else None)\<rparr>"

lemma crash_leaves_approved:
  "w_joins (snd (resolveJoinRequest crashing_env approve_guest (club ''pending''))) = w_joins (club ''approved'')"
  "w_members (snd (resolveJoinRequest crashing_env approve_guest (club ''pending''))) = w_members (club ''approved'')"
  by (simp_all add: resolveJoinRequest_def resolveJoinRequestLifecycle_def approve_guest_def call_as_def club_owner_def
      authM_def requireAuth_def request_body_def js_nullish_def requireString_def nonempty_text_def join_by_id_def
      getCommunityOwner_def manages_def settle_request_def set_status_by_id_def getUserHandle_def user_by_def nonempty_def
      createMemberRecordForDid_def resolveDisplayFields_def getKeypairForDid_def generateTid_def findRoleRkeyByName_def xrpc_handler_def
      dbRead_def dbWrite_def dbTxn_def crashing_env_def sample_env_def run_simps Let_def club_def empty_world_def)

subsection \<open>Approving somebody who is already a member\<close>

lemma untouched_members_step: "look_index t = look_index s \<Longrightarrow> indexed t = indexed s"
  by (simp add: indexed_look fun_eq_iff)

definition written :: "string \<Rightarrow> string \<Rightarrow> string \<Rightarrow> world \<Rightarrow> world \<Rightarrow> bool" where
  "written c k d s t \<longleftrightarrow>
     (\<exists>cid rec. jget rec ''did'' = JStr d \<and> look_index t = (look_index s)((c, MEMBER_COLLECTION, k) \<mapsto> (cid, rec))) \<and>
     map_option m_record_rkey (map_of (w_members t) (c, d)) = Some k"

lemma member_record_did: "jget (json_clean (member_record d h r j sm)) ''did'' = JStr d"
  by (simp add: member_record_def)

lemma put_written:
  assumes "jget rec ''did'' = JStr d" "jget (json_clean rec) ''did'' = JStr d" "d \<noteq> []"
  shows "runs (putRecord env c MEMBER_COLLECTION k rec) s (\<lambda>r t. case r of Inl _ \<Rightarrow> True | Inr _ \<Rightarrow> written c k d s t)"
proof -
  have put: "runs (putRecord env c MEMBER_COLLECTION k rec) s (\<lambda>r t. case r of Inl _ \<Rightarrow> True
      | Inr _ \<Rightarrow> \<exists>cid. look_index t = (look_index s)((c, MEMBER_COLLECTION, k) \<mapsto> (cid, json_clean rec)))"
    by (rule runs_putRecord) (auto simp: indexed_after_def)
  have "map_option m_record_rkey (map_of (w_members (projectMemberRow env c k rec s)) (c, d)) = Some k"
    using assms by (simp add: projectMemberRow_def Let_def)
  with assms(2) show ?thesis
    by (intro runs_mono [OF runs_conj [OF put runs_put_member]]) (auto simp: written_def split: sum.splits)
qed

text \<open>What leaves the index and the keys of the members alone, as everything after the write does.\<close>

definition member_keys :: "world \<Rightarrow> (string \<times> string \<times> string \<Rightarrow> (string \<times> jv) option) \<times> (string \<times> string \<Rightarrow> string option)" where
  "member_keys s = (look_index s, (\<lambda>x. map_option m_record_rkey (map_of (w_members s) x)))"

interpretation keys_fixed: world_preorder "frames member_keys"
  by unfold_locales (auto simp: frames_def member_keys_def)

lemma written_frame: "written c k d s t \<Longrightarrow> frames member_keys t u \<Longrightarrow> written c k d s u"
  unfolding written_def frames_def member_keys_def prod.inject by (metis (no_types, lifting))

lemma written_from: "frames member_keys s s' \<Longrightarrow> written c k d s' t \<Longrightarrow> written c k d s t"
  by (simp add: written_def frames_def member_keys_def)

definition creates :: "'a io \<Rightarrow> env \<Rightarrow> string \<Rightarrow> string \<Rightarrow> world \<Rightarrow> bool" where
  "creates m env c d s \<longleftrightarrow> runs m s (\<lambda>r t. case r of Inl _ \<Rightarrow> True | Inr _ \<Rightarrow> \<exists>n. written c (e_tid env n) d s t)"

lemma creates_from:
  assumes "frames member_keys s s'" "creates m env c d s'"
  shows "runs m s' (\<lambda>r t. case r of Inl _ \<Rightarrow> True | Inr _ \<Rightarrow> \<exists>n. written c (e_tid env n) d s t)"
  by (rule runs_mono [OF assms(2) [unfolded creates_def]])
    (use written_from [OF assms(1)] in \<open>fastforce split: sum.splits\<close>)

lemma creates_after:
  assumes "moves (frames member_keys) m" "\<And>x s'. creates (k x) env c d s'"
  shows "creates (bindM m k) env c d s"
  unfolding creates_def
proof (rule runs_bindI, rule runs_mono [OF runs_moves [OF assms(1)]])
  fix r s' assume s': "frames member_keys s s'"
  show "case r of Inl e \<Rightarrow> (case Inl e of Inl _ \<Rightarrow> True | Inr _ \<Rightarrow> \<exists>n. written c (e_tid env n) d s s')
      | Inr x \<Rightarrow> runs (k x) s' (\<lambda>r t. case r of Inl _ \<Rightarrow> True | Inr _ \<Rightarrow> \<exists>n. written c (e_tid env n) d s t)"
    using creates_from [OF s' assms(2)] by (cases r) simp_all
qed

lemma creates_before:
  assumes "creates m env c d s" "\<And>x. moves (frames member_keys) (k x)"
  shows "creates (bindM m k) env c d s"
  unfolding creates_def
proof (rule runs_bindI, rule runs_mono [OF assms(1) [unfolded creates_def]], goal_cases)
  case (1 r t)
  then show ?case
    by (cases r) (auto split: sum.splits intro: written_frame intro!: runs_mono [OF runs_moves [OF assms(2)]])
qed

lemma keys_columns: "frames member_keys s (set_member_columns env c d disp r sm s)"
  by (auto simp: frames_def member_keys_def set_member_columns_def set_display_def look_index_def fun_eq_iff split: option.split)

lemma keys_joins: "frames member_keys s (set_status_by_id i st s)"
  by (simp add: frames_def member_keys_def set_status_by_id_def look_index_def fun_eq_iff)

lemma keys_auditLog: "moves (frames member_keys) (auditLog env action actor target meta)"
  unfolding auditLog_def
  by (intro frames.mv_rules keys_fixed.mv_dbWrite) (simp add: frames_def member_keys_def look_index_def fun_eq_iff)

lemmas keys_mv = frames.mv_rules keys_fixed.mv_reads keys_auditLog keys_fixed.mv_dbWrite [OF keys_columns] keys_fixed.mv_dbWrite [OF keys_joins]

lemma create_writes:
  assumes "d \<noteq> []" shows "creates (createMemberRecordForDid env c d h sm) env c d s"
proof -
  have put: "runs (putRecord env c MEMBER_COLLECTION (e_tid env n) (member_record d h r j sm)) t
      (\<lambda>x t'. case x of Inl _ \<Rightarrow> True | Inr _ \<Rightarrow> \<exists>n. written c (e_tid env n) d t t')" for n r j t
    by (rule runs_mono [OF put_written [of _ d]]) (use assms member_record_did in \<open>auto simp: member_record_def split: sum.splits\<close>)
  let ?rest = "\<lambda>rkey. bindM (findRoleRkeyByName env c ''member'') (\<lambda>roleRkey.
     bindM (nowIso env) (\<lambda>joinedAt.
     bindM (putRecord env c MEMBER_COLLECTION rkey (member_record d h roleRkey joinedAt sm)) (\<lambda>_.
     bindM (resolveDisplayFields env d h) (\<lambda>disp. dbWrite env (set_member_columns env c d disp roleRkey sm)))))"
  have rest: "creates (?rest (e_tid env n)) env c d t" for n t
    unfolding findRoleRkeyByName_def resolveDisplayFields_def
    by (intro creates_after creates_before keys_mv) (simp add: creates_def put)
  have tids: "frames member_keys t (t\<lparr>w_tids := n\<rparr>)" for t n by (simp add: frames_def member_keys_def)
  have "creates (bindM (generateTid env) ?rest) env c d t" for t
    unfolding creates_def
    by (rule runs_bindI) (simp add: creates_from [OF tids rest])
  then show ?thesis
    unfolding createMemberRecordForDid_def seqM_def [of "getKeypairForDid env c"]
    by (rule creates_after [OF keys_fixed.mv_getKeypairForDid])
qed

lemma same_data_keys: "same_data s t \<Longrightarrow> frames member_keys s t"
  by (simp add: frames_def member_keys_def world_data_def look_index_def fun_eq_iff)

text \<open>
  Approving a request of somebody who is a member already leaves the old member record in place
  and writes a second one with another key for the same person, to which the row of the member then
  points.
\<close>

theorem approval_duplicates_membership:
  assumes "jget (request_body req) ''requestId'' = JStr i" "jget (request_body req) ''action'' = JStr ''approve''"
    and "join_by_id s i = Some ((c, u), row)" "jr_user_did row \<noteq> []" "\<And>n. e_tid env n \<noteq> k"
    and "indexed s c MEMBER_COLLECTION k = Some (cid, rec)" "jget rec ''did'' = JStr (jr_user_did row)"
    and "resolveJoinRequest env req s = (Inr (ok [(''status'', JStr ''approved'')]), t)"
  shows "indexed t c MEMBER_COLLECTION k = Some (cid, rec) \<and>
     (\<exists>k' cid' rec'. k' \<noteq> k \<and> indexed t c MEMBER_COLLECTION k' = Some (cid', rec') \<and>
        jget rec' ''did'' = JStr (jr_user_did row) \<and>
        map_option m_record_rkey (map_of (w_members t) (c, jr_user_did row)) = Some k')"
proof -
  let ?d = "jr_user_did row"
  have settle: "creates (settle_request env a i True c u row) env c ?d s'" for a s'
    unfolding settle_request_def Let_def if_True seqM_def getUserHandle_def
    by (rule creates_after, rule keys_fixed.mv_dbWrite [OF keys_joins], rule creates_before,
        rule creates_after, rule keys_fixed.mv_dbRead, rule create_writes [OF assms(4)]) (intro keys_mv)
  have found: "creates (if \<not> manages a x then refuse RESOLVE_ERRORS 403 ''Forbidden''
      else settle_request env a i (''approve'' = ''approve'') c u row) env c ?d s'" for a x s'
    using settle by (simp add: creates_def refuse_def throwXrpc_def)
  have life: "runs (resolveJoinRequestLifecycle env a (request_body req)) s
      (\<lambda>r t. case r of Inl _ \<Rightarrow> True | Inr _ \<Rightarrow> \<exists>n. written c (e_tid env n) ?d s t)" for a
    unfolding resolveJoinRequestLifecycle_def
  proof (rule peeks_then [OF peeks_requireString], simp, rule peeks_then [OF peeks_requireString], simp, goal_cases)
    case (1 i' s1 action s2)
    with assms(1,2) have eq: "i' = i" "action = ''approve''" by simp_all
    from 1 assms(3) have j: "join_by_id s2 i = Some ((c, u), row)" by (simp add: join_by_id_def same_dataD)
    have s2: "frames member_keys s s2" using 1 by (intro same_data_keys) (auto intro: frames.R_trans)
    have "runs (bindM (getCommunityOwner env RESOLVE_ERRORS c) (\<lambda>created_by.
        if \<not> manages a created_by then refuse RESOLVE_ERRORS 403 ''Forbidden''
        else settle_request env a i (''approve'' = ''approve'') c u row)) s3
       (\<lambda>r t. case r of Inl _ \<Rightarrow> True | Inr _ \<Rightarrow> \<exists>n. written c (e_tid env n) ?d s t)" if "same_data s2 s3" for s3
      using s2 that
      by (intro peeks_then [OF peeks_owner] creates_from [OF _ found])
        (auto intro: frames.R_trans same_data_keys)
    then show ?case
      unfolding eq
      by (simp only: if_False list.inject simp_thms)
        (rule peeks_then [OF peeks_dbRead], simp, simp add: j refuse_def throwXrpc_def)
  qed
  obtain n where w: "written c (e_tid env n) ?d s t"
  proof -
    from assms(8) obtain a where a: "requireAuth req = Inr a"
      using auth_problem [of req]
      by (cases "requireAuth req") (auto simp: resolveJoinRequest_def authM_def xrpc_handler_def run_simps err_def ok_def)
    obtain r t' where l: "resolveJoinRequestLifecycle env a (request_body req) s = (r, t')"
      by (cases "resolveJoinRequestLifecycle env a (request_body req) s")
    with assms(8) a have "\<exists>st. r = Inr st" "t' = t"
      by (cases r; auto simp: resolveJoinRequest_def authM_def xrpc_handler_def run_simps renderXrpcError_def
          internal_error_def err_def ok_def split: exn.splits if_splits)+
    with life [of a] l that show ?thesis by (auto simp: runs_def)
  qed
  then obtain cid' rec' where "jget rec' ''did'' = JStr ?d"
      "look_index t = (look_index s)((c, MEMBER_COLLECTION, e_tid env n) \<mapsto> (cid', rec'))"
      "map_option m_record_rkey (map_of (w_members t) (c, ?d)) = Some (e_tid env n)"
    by (auto simp: written_def)
  with assms(5)[of n] assms(6) show ?thesis
    by (auto simp: indexed_look intro!: exI [of _ "e_tid env n"])
qed

subsection \<open>The properties at work\<close>

lemmas call_defs = call_as_def club_owner_def club_guest_def join_club_def approve_guest_def request_body_def js_nullish_def

definition leave_club :: request where
  "leave_club = call_as club_guest [(''did'', JStr ''c'')]"



theorem approved_outsider_is_stuck_witness:
  "denied (joinCommunity sample_env join_club) (club ''approved'') \<and>
   denied (resolveJoinRequest sample_env approve_guest) (club ''approved'')"
  by (rule approved_outsider_is_stuck [where c = "''c''" and a = club_guest
        and row = "\<lparr>jr_id = ''r1'', jr_user_did = ''g'', jr_status = ''approved''\<rparr>"])
    (simp_all add: call_defs club_policy join_by_id_def)

text \<open>The guest has become a member on an open day, and the request is approved afterwards.\<close>

definition guest_record :: jv where
  "guest_record = JObj [(''did'', JStr ''g'')]"

definition joined_club :: world where
  "joined_club = (club ''pending'')\<lparr>
     w_repos := [(''c'', [((MEMBER_COLLECTION, ''k1''), guest_record)])],
     w_index := [((''c'', MEMBER_COLLECTION, ''k1''), (''cid'', guest_record))],
     w_members := [((''c'', ''g''), member_row_at ''k1'')]\<rparr>"

lemma joined_club_approves:
  "fst (resolveJoinRequest sample_env approve_guest joined_club) = Inr (ok [(''status'', JStr ''approved'')])"
  by (simp add: resolveJoinRequest_def resolveJoinRequestLifecycle_def call_defs
      authM_def requireAuth_def requireString_def nonempty_text_def join_by_id_def
      getCommunityOwner_def manages_def settle_request_def set_status_by_id_def getUserHandle_def user_by_def nonempty_def
      createMemberRecordForDid_def resolveDisplayFields_def getKeypairForDid_def generateTid_def findRoleRkeyByName_def xrpc_handler_def
      putRecord_def loadRepo_def cidForRecord_def commitRepo_def syncRecordsIndex_def nowIso_def nowMs_def
      reference_commit_def indexed_def auditLog_def coll_rows_def
      dbRead_def dbWrite_def dbTxn_def sample_env_def run_simps Let_def joined_club_def club_def empty_world_def)

theorem approval_duplicates_membership_witness:
  "indexed (snd (resolveJoinRequest sample_env approve_guest joined_club)) ''c'' MEMBER_COLLECTION ''k1'' = Some (''cid'', guest_record) \<and>
   (\<exists>k' cid' rec'. k' \<noteq> ''k1'' \<and>
      indexed (snd (resolveJoinRequest sample_env approve_guest joined_club)) ''c'' MEMBER_COLLECTION k' = Some (cid', rec') \<and>
      jget rec' ''did'' = JStr ''g'' \<and>
      map_option m_record_rkey (map_of (w_members (snd (resolveJoinRequest sample_env approve_guest joined_club))) (''c'', ''g'')) = Some k')"
  using approval_duplicates_membership [of approve_guest "''r1''" joined_club "''c''" "''u1''"
      "\<lparr>jr_id = ''r1'', jr_user_did = ''g'', jr_status = ''pending''\<rparr>" sample_env "''k1''" "''cid''" guest_record
      "snd (resolveJoinRequest sample_env approve_guest joined_club)"] joined_club_approves
  by (simp add: prod_eq_iff call_defs join_by_id_def joined_club_def indexed_def guest_record_def sample_env_def)

end
