(* ===== verification/GovernedWrites.thy ===== *)
theory GovernedWrites
  imports CommunityAdmin JoinRequests
begin

text \<open>
  Which writes a vote guards. No generic record endpoint, no update of a community and no change
  of its model writes a record of a protected collection while the community decides by
  vote; the endpoints for roles do.
\<close>

subsection \<open>Records that stay\<close>

definition tree_record :: "world \<Rightarrow> string \<Rightarrow> string \<Rightarrow> string \<Rightarrow> jv option" where
  "tree_record s c coll k = Option.bind (map_of (w_repos s) c) (\<lambda>t. map_of t (coll, k))"

text \<open>The records of a collection, in the signed tree and in the index.\<close>

definition kept_records :: "string \<Rightarrow> string \<Rightarrow> world \<Rightarrow> world \<Rightarrow> bool" where
  "kept_records c coll s t \<longleftrightarrow>
     (\<forall>k. tree_record t c coll k = tree_record s c coll k \<and> indexed t c coll k = indexed s c coll k)"

interpretation kept: world_preorder "kept_records c coll" for c coll
  by unfold_locales (auto simp: kept_records_def tree_record_def indexed_def)

context world_preorder
begin

lemma mv_looks:
  "moves R (loadCommunityContext env c x)" "moves R (getCallerCommunityCapabilities env c a)"
  "moves R (requireCommunityPermission env a c p)" "moves R (communitySettingsRecord env c)"
  "moves R (isCommunityDid env c)" "moves R (requireActiveCommunity env c)"
  unfolding loadCommunityContext_def getCallerCommunityCapabilities_def requireCommunityPermission_def
    communitySettingsRecord_def isCommunityDid_def requireActiveCommunity_def
  by (intro mv_rules mv_reads)+

lemma mv_authorize: "moves R (authorizeCollectionMutation env a repo coll oper)"
  unfolding authorizeCollectionMutation_def Let_def by (intro mv_rules mv_reads mv_looks)

lemma mv_guard: "moves R g \<Longrightarrow> (\<And>x. moves R (k x)) \<Longrightarrow> moves R (guardM g k)"
  unfolding guardM_def by (intro mv_rules)

lemma mv_enforce: "moves R (enforceGovernance env c coll action context att)"
  unfolding enforceGovernance_def by (intro mv_rules mv_reads mv_looks)

end

lemma same_data_kept: "same_data s t \<Longrightarrow> kept_records c coll s t"
  by (simp add: kept_records_def tree_record_def same_dataD same_data_indexed)

lemma commit_elsewhere:
  assumes "commit_performs env" "one_commit env d [p] s t"
    and "op_key (tree_op (fst p)) = (coll', k')" "(d, coll') \<noteq> (c, coll)"
  shows "kept_records c coll s t"
proof -
  have "tree_record t c coll k = tree_record s c coll k" for k
  proof (cases "d = c")
    case True
    from assms(2) obtain u where u: "map_of (w_repos s) d = Some u" by (auto simp: one_commit_def)
    have "(coll, k) \<notin> set (map (op_key \<circ> tree_op \<circ> fst) [p])" using assms(3,4) True by auto
    from one_commit_tree(1) [OF assms(1,2) u this] u True show ?thesis by (auto simp: tree_record_def)
  next
    case False
    with assms(2) show ?thesis by (auto simp: tree_record_def one_commit_def)
  qed
  moreover have "indexed t c coll k = indexed s c coll k" for k
  proof -
    have "op_key (index_op d p) = (d, coll', k')" using assms(3) by (cases p; cases "fst p") auto
    then have "(c, coll, k) \<notin> op_key ` set (map (index_op d) [p])" using assms(4) by auto
    with assms(2) show ?thesis unfolding one_commit_def indexed_look by blast
  qed
  ultimately show ?thesis by (simp add: kept_records_def)
qed

lemma untouched_kept: "untouched s t \<Longrightarrow> kept_records c coll s t"
  by (simp add: kept_records_def tree_record_def untouched_def indexed_def)

lemma mv_put_elsewhere:
  assumes "commit_performs env" "(d, coll') \<noteq> (c, coll)"
  shows "moves (kept_records c coll) (putRecord env d coll' k rec)"
proof -
  have put: "one_commit env d [put_op b coll' k rec cid] s t \<Longrightarrow> kept_records c coll s t" for b cid s t
    by (rule commit_elsewhere [OF assms(1) _ _ assms(2), where k' = k]) (auto simp: put_op_def)
  show ?thesis unfolding moves_runs by (intro allI runs_putRecord) (auto intro: untouched_kept put)
qed

lemma mv_delete_elsewhere:
  assumes "commit_performs env" "(d, coll') \<noteq> (c, coll)"
  shows "moves (kept_records c coll) (deleteRecord env d coll' k)"
proof -
  have del: "one_commit env d [(DeleteOp coll' k, None)] s t \<Longrightarrow> kept_records c coll s t" for s t
    by (rule commit_elsewhere [OF assms(1) _ _ assms(2), where k' = k]) auto
  show ?thesis unfolding moves_runs by (intro allI runs_deleteRecord) (auto intro: untouched_kept del)
qed

subsection \<open>Programs that leave the records\<close>

definition stays_put :: "string \<Rightarrow> string \<Rightarrow> 'x io \<Rightarrow> world \<Rightarrow> bool" where
  "stays_put c coll m s \<longleftrightarrow> kept_records c coll s (snd (m s))"

lemma stays_runs: "stays_put c coll m s \<longleftrightarrow> runs m s (\<lambda>_ t. kept_records c coll s t)"
  by (simp add: stays_put_def runs_def split: prod.split)

lemma stays_moves: "moves (kept_records c coll) m \<Longrightarrow> stays_put c coll m s"
  by (simp add: stays_put_def moves_def)

lemma stays_look:
  assumes "peeks m s P" "\<And>x t. same_data s t \<Longrightarrow> P x \<Longrightarrow> stays_put c coll (k x) t"
  shows "stays_put c coll (bindM m k) s"
  unfolding stays_runs
proof (rule peeks_then [OF assms(1)])
  fix x t assume t: "same_data s t" "P x"
  show "runs (k x) t (\<lambda>_. kept_records c coll s)"
    by (rule runs_mono [OF assms(2) [OF t, unfolded stays_runs]]) (rule kept.R_trans [OF same_data_kept [OF t(1)]])
qed (rule same_data_kept)

lemma stays_look_seq:
  assumes "peeks m s P" "\<And>t. same_data s t \<Longrightarrow> stays_put c coll k t"
  shows "stays_put c coll (seqM m k) s"
  unfolding seqM_def by (rule stays_look [OF assms(1)]) (rule assms(2))

lemma stays_guard:
  assumes "peeks g s (\<lambda>r. case r of Inl _ \<Rightarrow> True | Inr x \<Rightarrow> P x)"
    and "\<And>x t. same_data s t \<Longrightarrow> P x \<Longrightarrow> stays_put c coll (k x) t"
  shows "stays_put c coll (guardM g k) s"
  unfolding guardM_def
  by (rule stays_look [OF assms(1)]) (use assms(2) in \<open>auto split: sum.split intro: stays_moves kept.mv_ret\<close>)

lemma stays_catch:
  assumes "stays_put c coll m s"
  shows "stays_put c coll (catchM m (\<lambda>e. ret (h e))) s"
  using assms unfolding stays_runs by (auto intro!: runs_catchI elim!: runs_mono split: sum.split)

lemma stays_ret [simp]: "stays_put c coll (ret x) s"
  by (rule stays_moves) (rule kept.mv_ret)

lemma stays_if: "stays_put c coll m s \<Longrightarrow> stays_put c coll k s \<Longrightarrow> stays_put c coll (if b then m else k) s"
  by simp

lemma stays_throw [simp]: "stays_put c coll (throw e) s"
  by (rule stays_moves) (rule kept.mv_throw)

subsection \<open>Communities that decide by vote\<close>

text \<open>
  The collection is protected in the community's settings, its model is not the
  benevolent dictator, and the request carries no authority the on-chain model admits. Writes of
  member records are exempt.
\<close>

definition voting_protects :: "world \<Rightarrow> string \<Rightarrow> string \<Rightarrow> request_ctx option \<Rightarrow> bool" where
  "voting_protects s c coll context \<longleftrightarrow>
     map_of (w_communities s) c \<noteq> None \<and> coll \<noteq> MEMBER_COLLECTION \<and>
     (\<exists>P. protected_collections (settings_of s c) = Inr P \<and> coll \<in> set P) \<and>
     (let model = js_or (jget (settings_of s c) ''governanceModel'') (JStr ''benevolent-dictator'')
      in model \<noteq> JStr ''benevolent-dictator'' \<and>
         \<not> (model = JStr ''on-chain'' \<and> coll \<noteq> SETTINGS_COLLECTION \<and> map_option gx_communityDid context = Some c))"

lemma voting_protects_same: "same_data s t \<Longrightarrow> voting_protects t = voting_protects s"
  by (simp add: voting_protects_def same_dataD settings_of_def same_data_indexed fun_eq_iff)

lemma settings_mandatory: "protected_collections v = Inr P \<Longrightarrow> SETTINGS_COLLECTION \<in> set P"
  by (auto simp: protected_collections_def DEFAULT_PROTECTED_def MANDATORY_PROTECTED_COLLECTIONS_def split: jv.splits if_splits)

lemma protects_settings:
  "voting_protects s c coll context \<Longrightarrow> voting_protects s c SETTINGS_COLLECTION context'"
  by (auto simp: voting_protects_def Let_def dest: settings_mandatory)

lemma govern_denies: "voting_protects s c coll context \<Longrightarrow> \<not> gr_allowed (govern (settings_of s c) c coll context)"
  by (auto simp: voting_protects_def govern_def Let_def split: option.split)

lemma not_exempt: "coll \<noteq> MEMBER_COLLECTION \<Longrightarrow> \<not> is_exempt coll action"
  by (simp add: is_exempt_def EXEMPT_OPERATIONS_def MEMBER_COLLECTION_def)

lemma peeks_enforce:
  assumes "voting_protects s c coll context"
  shows "peeks (enforceGovernance env c coll action context att) s (\<lambda>g. \<not> gr_allowed g)"
proof (cases "coll = SETTINGS_COLLECTION \<and> action = ''delete''")
  case False
  show ?thesis
    unfolding enforceGovernance_def if_not_P [OF False] communitySettingsRecord_def
  proof (rule peeks_bind [OF peeks_dbRead], rule peeks_bind [OF peeks_liftE], goal_cases)
    case (1 settings t P u)
    with assms have "coll \<in> set P" by (auto simp: voting_protects_def)
    with 1 not_exempt govern_denies [OF assms] assms show ?case by (auto simp: voting_protects_def)
  qed
qed (simp add: enforceGovernance_def)

text \<open>No generic write to a protected collection named by its name is let through.\<close>

lemma peeks_governed:
  assumes "voting_protects s c coll context" "v = JStr coll"
  shows "peeks (governed env c v action context) s (\<lambda>r. case r of Inl _ \<Rightarrow> True | Inr _ \<Rightarrow> False)"
  unfolding governed_def isCommunityDid_def
proof (rule peeks_bind [OF peeks_dbRead], goal_cases)
  case (1 community t)
  then have c: "community" using assms(1) by (simp add: voting_protects_def)
  have "voting_protects t c coll context" using assms(1) by (simp add: voting_protects_same [OF 1(1)])
  from peeks_enforce [OF this] c assms(2) show ?case
    by (auto simp: governance_of_def intro!: peeks_bind)
qed

lemma peeks_authorize: "peeks (authorizeCollectionMutation env a repo coll oper) s (\<lambda>_. True)"
  by (rule peeks_moves) (rule same_data.mv_authorize)

lemma peeks_probation: "peeks (enforcePseudonymProbation env req) s (\<lambda>_. True)"
proof -
  have "moves same_data (count_daily_write env u day)" for u day
    by (simp add: moves_def count_daily_write_def Let_def frames_def world_data_def)
  then show ?thesis
    unfolding enforcePseudonymProbation_def
    by (intro peeks_moves frames.mv_rules same_data.mv_reads)
qed

lemma peeks_key: "peeks (getKeypairForDid env did) s (\<lambda>_. True)"
  by (rule peeks_moves) (rule same_data.mv_getKeypairForDid)

lemma mv_governed: "moves same_data (governed env repo v action context)"
  unfolding governed_def governance_of_def
  by (intro frames.mv_rules same_data.mv_reads same_data.mv_looks same_data.mv_enforce)
    (auto intro!: frames.mv_rules same_data.mv_reads same_data.mv_looks same_data.mv_enforce split: jv.split)

lemma peeks_let_through:
  assumes "voting_protects s c coll context"
  shows "peeks (governed env repo (JStr v) action context) s
    (\<lambda>r. case r of Inl _ \<Rightarrow> True | Inr _ \<Rightarrow> (repo, v) \<noteq> (c, coll))"
proof (cases "(repo, v) = (c, coll)")
  case True
  with assms show ?thesis by (auto intro!: peeks_mono [OF peeks_governed] split: sum.splits)
qed (auto intro: peeks_mono [OF peeks_moves [OF mv_governed]] split: sum.split)

lemma stays_authM: "(\<And>a. stays_put c coll (k a) s) \<Longrightarrow> stays_put c coll (authM req k) s"
  by (auto simp: authM_def split: sum.split)

lemma stays_handlers:
  "stays_put c coll m s \<Longrightarrow> stays_put c coll (handler m) s"
  "stays_put c coll m s \<Longrightarrow> stays_put c coll (xrpc_handler errors m) s"
  unfolding handler_def xrpc_handler_def by (rule stays_catch, assumption)+

lemma peeks_body: "peeks (destructured_body req) s (\<lambda>b. b = q_body req)"
  by (simp add: destructured_body_def)

lemma governed_elsewhere:
  assumes "authority_respects (kept_records c coll) current" "moves (kept_records c coll) m"
  shows "moves (kept_records c coll) (runGovernedMutation current info m)"
  using assms by (auto simp: runGovernedMutation_def authority_respects_def split: option.split)

lemma put_governed_elsewhere:
  assumes "commit_performs env" "authority_respects (kept_records c coll) current" "(repo, v) \<noteq> (c, coll)"
  shows "stays_put c coll (bindM (put_governed env current req ctx g repo (JStr v) k oper rec) (\<lambda>r. ret (f r))) s"
  unfolding put_governed_def
  by (intro stays_moves kept.mv_bind kept.mv_ret governed_elsewhere [OF assms(2)])
    (simp add: prop_key_def mv_put_elsewhere [OF assms(1,3)])

lemma delete_governed_elsewhere:
  assumes "commit_performs env" "authority_respects (kept_records c coll) current" "(repo, v) \<noteq> (c, coll)"
  shows "stays_put c coll (bindM (delete_governed env current req ctx g repo (JStr v) k) (\<lambda>r. ret x)) s"
  unfolding delete_governed_def seqM_def
  by (intro stays_moves kept.mv_bind kept.mv_ret governed_elsewhere [OF assms(2)])
    (simp add: prop_key_def mv_delete_elsewhere [OF assms(1,3)])

text \<open>What the three endpoints do with a repository and a collection: ask, and then write there.\<close>

lemma stays_after_asking:
  assumes "voting_protects s c coll context"
    and "\<And>g t. (repo, v) \<noteq> (c, coll) \<Longrightarrow> stays_put c coll (k g) t"
  shows "stays_put c coll (seqM (authorizeCollectionMutation env a repo (JStr v) oper)
    (guardM (governed env repo (JStr v) action context) k)) s"
proof (rule stays_look_seq [OF peeks_authorize])
  fix t assume t: "same_data s t"
  have p: "voting_protects t c coll context" using assms(1) by (simp add: voting_protects_same [OF t])
  show "stays_put c coll (guardM (governed env repo (JStr v) action context) k) t"
    by (rule stays_guard [OF peeks_let_through [OF p]]) (rule assms(2))
qed

lemma stays_probation: "(\<And>t. stays_put c coll (k ()) t) \<Longrightarrow> stays_put c coll (guardM (enforcePseudonymProbation env req) k) s"
  by (rule stays_guard [OF peeks_mono [OF peeks_probation]]) (auto split: sum.split)

lemma stays_key: "(\<And>t. stays_put c coll m t) \<Longrightarrow> stays_put c coll (seqM (getKeypairForDid env did) m) s"
  by (rule stays_look_seq [OF peeks_key])

lemma stays_repo_target:
  "(\<And>repo. stays_put c coll (k repo) s) \<Longrightarrow> stays_put c coll (case repo_target fs r v of Inl rep \<Rightarrow> ret rep | Inr repo \<Rightarrow> k repo) s"
  by (auto split: sum.split)

lemmas stays_steps = stays_handlers stays_authM stays_repo_target stays_after_asking stays_probation stays_key
  put_governed_elsewhere delete_governed_elsewhere

lemma stays_repo_endpoints:
  assumes "commit_performs env" "authority_respects (kept_records c coll) current"
    and "voting_protects s c coll (resolveGovernanceContext current req)" "is_str (jget (q_body req) ''collection'')"
  shows "stays_put c coll (putRecord_endpoint env current req) s"
    "stays_put c coll (createRecord_endpoint env current req) s"
    "stays_put c coll (deleteRecord_endpoint env current req) s"
proof -
  from assms(4) obtain v where v: "jget (q_body req) ''collection'' = JStr v" by (auto simp: is_str_iff)
  have keep: "voting_protects t c coll (resolveGovernanceContext current req)" if "same_data s t" for t
    using assms(3) by (simp add: voting_protects_same [OF that])
  show "stays_put c coll (putRecord_endpoint env current req) s"
    unfolding putRecord_endpoint_def
    by (intro stays_steps(1-3), rule stays_look [OF peeks_body])
      (auto simp: Let_def v intro!: stays_steps(4-) keep assms(1,2))
  show "stays_put c coll (deleteRecord_endpoint env current req) s"
    unfolding deleteRecord_endpoint_def
    by (intro stays_steps(1-3), rule stays_look [OF peeks_body])
      (auto simp: Let_def v intro!: stays_steps(4-) keep assms(1,2))
  show "stays_put c coll (createRecord_endpoint env current req) s"
    unfolding createRecord_endpoint_def
    by (intro stays_steps(1-3), rule stays_look [OF peeks_body])
      (auto simp: Let_def v intro!: stays_steps(4-) keep assms(1,2)
        stays_look [OF peeks_moves [OF same_data.mv_generateTid]])
qed

lemma mv_audit_kept: "moves (kept_records c coll) (auditLog env x y z w)"
  unfolding auditLog_def
  by (intro kept.mv_catch kept.mv_dbWrite kept.mv_ret) (simp add: kept_records_def tree_record_def indexed_def)

text \<open>Asking whether the settings may be written, and then writing to the same community.\<close>

lemma stays_after_settings:
  assumes "voting_protects s c coll context"
    and "\<And>g t. did \<noteq> c \<Longrightarrow> stays_put c coll (k g) t"
  shows "stays_put c coll (bindM (enforceGovernance env did SETTINGS_COLLECTION ''write'' context' None)
    (\<lambda>g. if \<not> gr_allowed g then ret (err 403 ''GovernanceDenied'') else k g)) s"
proof (cases "did = c")
  case True
  show ?thesis
    unfolding True by (rule stays_look [OF peeks_enforce [OF protects_settings [OF assms(1)]]]) simp
next
  case False
  show ?thesis
    by (rule stays_look [OF peeks_moves [OF same_data.mv_enforce]]) (simp add: assms(2) [OF False])
qed

lemma mv_merge_elsewhere:
  assumes "commit_performs env" "did \<noteq> c"
  shows "moves (kept_records c coll) (merge_into env did coll' changed)"
  unfolding merge_into_def getRecord_def
  by (intro kept.mv_rules kept.mv_reads mv_put_elsewhere [OF assms(1)]) (simp add: assms(2))

lemma stays_updateCommunity:
  assumes "commit_performs env" "voting_protects s c coll context"
  shows "stays_put c coll (updateCommunity env req) s"
proof -
  have w: "stays_put c coll (write_community env did body) t" if "voting_protects t c coll context" for did body t
    unfolding write_community_def
    by (rule stays_after_settings [OF that], intro stays_key stays_moves kept.mv_rules mv_merge_elsewhere [OF assms(1)]) auto
  have c: "stays_put c coll (case row of None \<Rightarrow> ret r | Some com \<Rightarrow> f com) t" if "\<And>com. stays_put c coll (f com) t"
    for row :: "community_row option" and r :: reply and f t
    using that by (cases row) auto
  show ?thesis
    unfolding updateCommunity_def Let_def
  proof (intro stays_handlers stays_authM, goal_cases)
    case (1 a)
    show ?case
    proof (cases "body_str req ''did'' = []")
      case False
      show ?thesis
        unfolding if_not_P [OF False]
        by (rule stays_look [OF peeks_dbRead]) (auto simp: voting_protects_same assms(2) intro!: w c split: option.split)
    qed simp
  qed
qed

lemma stays_setGovernanceModel:
  assumes "commit_performs env" "authority_respects (kept_records c coll) current" "voting_protects s c coll context"
  shows "stays_put c coll (setGovernanceModel env current req) s"
proof -
  have w: "stays_put c coll (write_governance env current req a did model config st) t" if "voting_protects t c coll context"
    for a did model config st t
    unfolding write_governance_def Let_def
    by (rule stays_after_settings [OF that], intro stays_key stays_moves kept.mv_rules governed_elsewhere [OF assms(2)]
        mv_put_elsewhere [OF assms(1)] mv_audit_kept) auto
  have perm: "peeks (requireCommunityPermission env a did p) t (\<lambda>r. case r of Inl _ \<Rightarrow> True | Inr _ \<Rightarrow> True)" for a did p t
    by (rule peeks_mono [OF peeks_moves [OF same_data.mv_looks(3)]]) (simp split: sum.split)
  show ?thesis
    unfolding setGovernanceModel_def Let_def
  proof (intro stays_handlers stays_authM, goal_cases)
    case (1 a)
    show ?case
    proof (cases "body_str req ''communityDid'' = [] \<or> body_str req ''governanceModel'' = []")
      case False
      show ?thesis
        unfolding if_not_P [OF False]
      proof (rule stays_guard [OF perm], goal_cases)
        case (1 x t)
        then have t: "voting_protects t c coll context" using assms(3) by (simp add: voting_protects_same)
        show ?case
        proof (rule stays_if)
          show "stays_put c coll (bindM (dbRead env f) (\<lambda>row. case row of None \<Rightarrow> ret (err 404 ''NotFound'')
              | Some (_, st) \<Rightarrow> write_governance env current req a did model config st)) t" for f did model config
            by (rule stays_look [OF peeks_dbRead]) (auto simp: voting_protects_same t intro!: w split: option.split)
        qed simp
      qed
    qed simp
  qed
qed

text \<open>The endpoints that write records a caller names, and those that write a community's own settings.\<close>

definition direct_writes :: "env \<Rightarrow> authority option \<Rightarrow> request \<Rightarrow> reply io list" where
  "direct_writes env current req =
     [putRecord_endpoint env current req, createRecord_endpoint env current req, deleteRecord_endpoint env current req,
      updateCommunity env req, setGovernanceModel env current req]"


subsection \<open>What gets around the vote\<close>

lemma indexed_row: "indexed s c coll k = Some (cid, rec) \<Longrightarrow> (k, cid, rec) \<in> set (coll_rows s c coll)"
  by (force simp: indexed_def coll_rows_def dest: map_of_SomeD)

definition new_role :: "env \<Rightarrow> world \<Rightarrow> string \<Rightarrow> string \<Rightarrow> world \<Rightarrow> bool" where
  "new_role env s c name t \<longleftrightarrow> role_named env s c name = [] \<and>
     (\<exists>k cid rec. indexed t c ROLE_COLLECTION k = Some (cid, rec) \<and> jget rec ''name'' = JStr name)"

lemma new_role_changes: "new_role env s c name t \<Longrightarrow> \<not> kept_records c ROLE_COLLECTION s t"
proof
  assume n: "new_role env s c name t" and "kept_records c ROLE_COLLECTION s t"
  then obtain k cid rec where "indexed s c ROLE_COLLECTION k = Some (cid, rec)" "jget rec ''name'' = JStr name"
    by (auto simp: new_role_def kept_records_def)
  then have "k \<in> set (role_named env s c name)"
    by (force simp: role_named_def json_text_def dest: indexed_row)
  with n show False by (simp add: new_role_def)
qed

lemma put_new_role:
  assumes "role_named env s c name = []" "jget (json_clean rec) ''name'' = JStr name"
  shows "runs (putRecord env c ROLE_COLLECTION k rec) u (\<lambda>r t. case r of Inl _ \<Rightarrow> True | Inr _ \<Rightarrow> new_role env s c name t)"
  by (rule runs_putRecord)
    (use assms in \<open>auto simp: new_role_def indexed_look indexed_after_def split: sum.split\<close>)

lemma log_keeps_role: "new_role env s c name u \<Longrightarrow> runs (auditLog env x y z w) u (\<lambda>_ t. new_role env s c name t)"
  using reads_auditLog [of env x y z w u] unfolding reads_def
  by (auto elim!: runs_mono simp: new_role_def untouched_indexed) blast

text \<open>\<open>granted m s P\<close>: when \<open>m\<close> answers without an error, \<open>P\<close> holds of the state it leaves.\<close>

definition accepted :: "exn + reply \<Rightarrow> bool" where
  "accepted r \<longleftrightarrow> (\<exists>rep. r = Inr rep \<and> jget (reply_body rep) ''error'' = JUndef)"

definition granted :: "reply io \<Rightarrow> world \<Rightarrow> (world \<Rightarrow> bool) \<Rightarrow> bool" where
  "granted m s P \<longleftrightarrow> runs m s (\<lambda>r t. accepted r \<longrightarrow> P t)"

definition is_refusal :: "reply \<Rightarrow> bool" where
  "is_refusal rep \<longleftrightarrow> jget (reply_body rep) ''error'' \<noteq> JUndef"

lemma refusal_err [simp]: "is_refusal (err n code)"
  by (simp add: is_refusal_def err_def)

lemma granted_refusal: "is_refusal rep \<Longrightarrow> granted (ret rep) s P"
  by (simp add: granted_def accepted_def is_refusal_def)

lemma not_accepted [simp]: "\<not> accepted (Inl e)" "\<not> accepted (Inr (err n code))" "\<not> accepted (Inr internal_error)"
  by (simp_all add: accepted_def err_def internal_error_def)

lemma granted_err [simp]: "granted (ret (err n code)) s P"
  by (simp add: granted_def)

lemma granted_authM: "(\<And>a. granted (k a) s P) \<Longrightarrow> granted (authM req k) s P"
  by (auto simp: authM_def requireAuth_def split: option.split)

lemma granted_look:
  assumes "peeks m s Q" "\<And>x t. same_data s t \<Longrightarrow> Q x \<Longrightarrow> granted (k x) t P"
  shows "granted (bindM m k) s P"
  unfolding granted_def by (rule peeks_then [OF assms(1)]) (use assms(2) in \<open>simp_all add: granted_def\<close>)

lemma granted_handlers:
  "granted m s P \<Longrightarrow> granted (handler m) s P" "granted m s P \<Longrightarrow> granted (xrpc_handler errors m) s P"
  unfolding granted_def handler_def xrpc_handler_def
  by (auto intro!: runs_catchI elim!: runs_mono simp: renderXrpcError_def split: sum.split exn.split)

lemma granted_permission:
  assumes "\<And>t. same_data s t \<Longrightarrow> granted (k ()) t P"
  shows "granted (guardM (requireCommunityPermission env a c p) k) s P"
proof -
  have look: "peeks (getCallerCommunityCapabilities env c a) t (\<lambda>_. True)" for t
    by (rule peeks_moves) (rule same_data.mv_looks(2))
  have "peeks (requireCommunityPermission env a c p) s (\<lambda>r. \<forall>rep. r = Inl rep \<longrightarrow> is_refusal rep)"
    unfolding requireCommunityPermission_def
    by (rule peeks_bind [OF look])
      (auto intro!: peeks_bind [OF peeks_dbRead] peeks_bind [OF peeks_liftE] simp: writableStatus_def
        split: option.split if_splits bind_split)
  then show ?thesis
    unfolding guardM_def
    by (rule granted_look) (use assms in \<open>auto intro: granted_refusal split: sum.split\<close>)
qed

lemma granted_put_role:
  assumes "role_named env s c name = []" "jget (json_clean rec) ''name'' = JStr name"
  shows "granted (bindM (putRecord env c ROLE_COLLECTION k rec) (\<lambda>r. seqM (auditLog env x y z w) (ret (f r)))) u (new_role env s c name)"
  unfolding granted_def
proof (rule runs_bindI, rule runs_mono [OF put_new_role [OF assms]], goal_cases)
  case (1 r t)
  then show ?case
    by (cases r) (auto intro!: runs_seqI elim!: runs_mono [OF log_keeps_role] split: sum.split)
qed

lemma granted_createRole:
  "granted (createRole env req) s (new_role env s (body_str req ''communityDid'') (body_str req ''name''))"
proof -
  let ?c = "body_str req ''communityDid''" and ?name = "body_str req ''name''"
  let ?P = "new_role env s ?c ?name"
  have clean: "jget (json_clean (JObj ([(''name'', JStr ?name)] @ opt_field b ''description'' d @ [(''permissions'', p)]))) ''name''
      = JStr ?name" for b d p
    by (subst jget_json_clean) (auto simp: opt_field_def)
  have body: "granted (bindM (dbRead env (\<lambda>s. role_named env s ?c ?name)) (\<lambda>existing.
      if existing \<noteq> [] then ret (err 409 ''RoleNameTaken'')
      else seqM (getKeypairForDid env ?c) (bindM (generateTid env) (\<lambda>rkey.
        bindM (putRecord env ?c ROLE_COLLECTION rkey
          (JObj ([(''name'', JStr ?name)] @ opt_field b ''description'' d @ [(''permissions'', p)]))) (\<lambda>r.
        seqM (auditLog env x y z (w rkey)) (ret (g rkey r))))))) t ?P"
    if "same_data s t" for t b d p x y z w and g :: "string \<Rightarrow> string \<times> string \<Rightarrow> reply"
  proof (rule granted_look [OF peeks_dbRead], goal_cases)
    case (1 existing u)
    have e: "existing = role_named env s ?c ?name"
      using 1 that by (simp add: role_named_def coll_rows_def same_dataD)
    show ?case
    proof (cases "existing = []")
      case True
      with e have none: "role_named env s ?c ?name = []" by simp
      have "granted (bindM (getKeypairForDid env ?c) (\<lambda>_. bindM (generateTid env) (\<lambda>rkey.
          bindM (putRecord env ?c ROLE_COLLECTION rkey
            (JObj ([(''name'', JStr ?name)] @ opt_field b ''description'' d @ [(''permissions'', p)]))) (\<lambda>r.
          seqM (auditLog env x y z (w rkey)) (ret (g rkey r)))))) u ?P"
        by (rule granted_look [OF peeks_key], rule granted_look [OF peeks_moves [OF same_data.mv_generateTid]],
            rule granted_put_role [OF none clean])
      then show ?thesis by (simp add: True seqM_def [of "getKeypairForDid env ?c"])
    qed simp
  qed
  show ?thesis
    unfolding createRole_def Let_def
  proof (intro granted_handlers granted_authM, goal_cases)
    case (1 a)
    have "granted (guardM (requireCommunityPermission env a ?c p') (\<lambda>_. k)) s ?P" if "\<And>t. same_data s t \<Longrightarrow> granted k t ?P" for k p'
      using that by (rule granted_permission)
    with body show ?case by (auto split: option.split)
  qed
qed

text \<open>
  The roles of a community are among the records that governance always protects, and the
  endpoint for roles does not ask it: whenever \<open>createRole\<close> answers without an error, the roles of the
  community have changed, also where the community decides by vote.
\<close>

theorem roles_change_without_a_proposal:
  assumes "voting_protects s c ROLE_COLLECTION context" "body_str req ''communityDid'' = c"
    and "createRole env req s = (r, t)" "accepted r"
  shows "\<not> kept_records c ROLE_COLLECTION s t"
proof -
  have "new_role env s c (body_str req ''name'') t"
    using granted_createRole [of env req s] assms(2-4) by (auto simp: granted_def dest: runsD)
  then show ?thesis by (rule new_role_changes)
qed

subsection \<open>A town that decides by majority\<close>

definition town :: world where
  "town = empty_world\<lparr>
     w_repos := [(''c'', [((SETTINGS_COLLECTION, ''self''), JObj [(''governanceModel'', JStr ''simple-majority'')])])],
     w_index := [((''c'', SETTINGS_COLLECTION, ''self''), (''cid'', JObj [(''governanceModel'', JStr ''simple-majority'')]))],
     w_communities := [(''c'', \<lparr>c_handle = ''town'', c_created_by = Some ''u0'', c_owner_did = Some ''o'', c_status = ''active'', c_exported_at = None, c_did_method = ''plc'', c_created_at = 0, c_status_reason = None\<rparr>)],
     w_users := [\<lparr>u_id = ''u0'', u_did = ''o'', u_handle = ''owner'', u_auth_type = ''local'', u_created_at = 0\<rparr>]\<rparr>"

definition town_role :: request where
  "town_role = call_as club_owner [(''communityDid'', JStr ''c''), (''name'', JStr ''mayor''),
     (''permissions'', JArr [JStr ''community.role.write''])]"

definition town_put :: request where
  "town_put = call_as club_owner [(''repo'', JStr ''c''), (''collection'', JStr ROLE_COLLECTION),
     (''rkey'', JStr ''k''), (''record'', JObj [(''name'', JStr ''mayor'')])]"

lemma town_protects: "voting_protects town ''c'' ROLE_COLLECTION context"
  by (simp add: voting_protects_def town_def empty_world_def settings_of_def indexed_def protected_collections_def
      governance_config_def js_or_def ROLE_COLLECTION_def MEMBER_COLLECTION_def DEFAULT_PROTECTED_def
      MANDATORY_PROTECTED_COLLECTIONS_def Let_def)


lemma owner_may: "requireCommunityPermission sample_env club_owner ''c'' p town = (Inr (Inr ()), town\<lparr>w_ops := 2\<rparr>)"
  by (simp add: requireCommunityPermission_def getCallerCommunityCapabilities_def loadCommunityContext_def
      community_context_def caller_capabilities_def community_access_def community_status_def writableStatus_def
      has_permission_def town_def club_owner_def empty_world_def sample_env_def dbRead_def run_simps Let_def)

lemma town_role_made: "accepted (fst (createRole sample_env town_role town))"
proof -
  have req: "q_auth town_role = Some club_owner" "body_str town_role ''communityDid'' = ''c''" "body_str town_role ''name'' = ''mayor''"
    "jget (q_body town_role) ''permissions'' = JArr [JStr ''community.role.write'']" "jget (q_body town_role) ''description'' = JUndef"
    by (simp_all add: town_role_def call_as_def body_str_def)
  have perms: "permission_list (JArr [JStr ''community.role.write'']) = Some [JStr ''community.role.write'']"
    by (simp add: permission_list_def ALL_PERMISSIONS_def)
  show ?thesis
    by (simp add: createRole_def req perms handler_def authM_def requireAuth_def guardM_def owner_may Let_def run_simps,
      simp add: run_simps Let_def ok_def
        role_named_def coll_rows_def getKeypairForDid_def generateTid_def role_reply_def accepted_def
        putRecord_def loadRepo_def cidForRecord_def commitRepo_def syncRecordsIndex_def nowIso_def nowMs_def
        reference_commit_def indexed_def auditLog_def opt_field_def
        dbRead_def dbWrite_def dbTxn_def sample_env_def town_def empty_world_def run_simps)
qed

theorem roles_change_without_a_proposal_witness:
  "\<not> kept_records ''c'' ROLE_COLLECTION town (snd (createRole sample_env town_role town))"
  by (rule roles_change_without_a_proposal [OF town_protects _ surjective_pairing town_role_made])
    (simp add: town_role_def call_as_def body_str_def)

end
