(* ===== verification/VerifyDecision.thy ===== *)
theory VerifyDecision
  imports Resolution
begin

text \<open>
  The offline check of a decision: \<^verbatim>\<open>src/governance/verify-decision.ts\<close>. Reading a repository
  export, hashing and decoding records, and checking signatures are the repository and
  identity libraries', and are parameters; everything the function does with them is
  modelled. Messages for people are not modelled, their codes are.
\<close>

subsection \<open>The libraries\<close>

text \<open>A repository read from an export, and what the libraries answer about it.\<close>

record walk_entry =
  we_collection :: string
  we_rkey :: string
  we_cid :: string
  we_record :: jv

record lib_repo =
  lr_did :: string
  lr_get :: "string \<Rightarrow> exn + string option"
  lr_walk :: "exn + walk_entry list"

type_synonym blocks = "string \<Rightarrow> string option"

record lib =
  l_load :: "blocks \<Rightarrow> string \<Rightarrow> exn + lib_repo"
  l_getKey :: "jv \<Rightarrow> exn + string option"
  l_verifySig :: "lib_repo \<Rightarrow> string \<Rightarrow> exn + bool"
  l_decode :: "string \<Rightarrow> exn + jv"
  l_cid :: "jv \<Rightarrow> exn + string"
  l_text :: "jv \<Rightarrow> string"

subsection \<open>The verdict\<close>

datatype failure =
    MalformedDecision | ForgedSignature | TamperedEvidence | TamperedVote | IneligibleVote
  | UncountedVote | MissingEvidence | MiscountedTally | InsufficientQuorum | QuorumFloorUnmet
  | WrongOutcome

text \<open>The position in \<open>SEVERITY\<close>: worst first.\<close>

fun severity :: "failure \<Rightarrow> nat" where
  "severity MalformedDecision = 0"
| "severity ForgedSignature = 1"
| "severity TamperedEvidence = 2"
| "severity TamperedVote = 3"
| "severity IneligibleVote = 4"
| "severity UncountedVote = 5"
| "severity MissingEvidence = 6"
| "severity MiscountedTally = 7"
| "severity InsufficientQuorum = 8"
| "severity QuorumFloorUnmet = 9"
| "severity WrongOutcome = 10"

datatype note_code = Excused failure | DisclosedGap | QuorumRuleDrift | MembershipUnverified

record problem =
  p_code :: failure
  p_voter :: "string option"
  p_uri :: "string option"

record vnote =
  n_code :: note_code
  n_voter :: "string option"
  n_uri :: "string option"

datatype verdict_code = Valid | Superseded | Failed failure

record summary =
  su_settingsQuorum :: "jnum option"
  su_effectiveQuorum :: "jnum option"
  su_verifiedVotes :: nat
  su_countedFor :: nat
  su_countedAgainst :: nat
  su_eligible :: nat
  su_supersedes :: "string option"
  su_supersededBy :: "string option"

record decision_verdict =
  dv_code :: verdict_code
  dv_problems :: "problem list"
  dv_notes :: "vnote list"
  dv_summary :: summary

record check =
  k_problems :: "problem list"
  k_notes :: "vnote list"
  k_summary :: summary

definition empty_summary :: summary where
  "empty_summary = \<lparr>su_settingsQuorum = None, su_effectiveQuorum = None, su_verifiedVotes = 0,
     su_countedFor = 0, su_countedAgainst = 0, su_eligible = 0, su_supersedes = None, su_supersededBy = None\<rparr>"

definition blame :: "failure \<Rightarrow> string option \<Rightarrow> string option \<Rightarrow> check \<Rightarrow> check" where
  "blame code voter uri k = k\<lparr>k_problems := k_problems k @ [\<lparr>p_code = code, p_voter = voter, p_uri = uri\<rparr>]\<rparr>"

definition remark :: "note_code \<Rightarrow> string option \<Rightarrow> string option \<Rightarrow> check \<Rightarrow> check" where
  "remark code voter uri k = k\<lparr>k_notes := k_notes k @ [\<lparr>n_code = code, n_voter = voter, n_uri = uri\<rparr>]\<rparr>"

definition finish :: "check \<Rightarrow> decision_verdict" where
  "finish k =
     (let superseded = nonempty_str (su_supersededBy (k_summary k));
          excused = filter (\<lambda>p. p_code p = UncountedVote) (k_problems k);
          effective = sort_lt (\<lambda>a b. severity (p_code a) < severity (p_code b))
            (if superseded then filter (\<lambda>p. p_code p \<noteq> UncountedVote) (k_problems k) else k_problems k);
          notes = k_notes k @ (if superseded
            then map (\<lambda>p. \<lparr>n_code = Excused (p_code p), n_voter = p_voter p, n_uri = p_uri p\<rparr>) excused else [])
      in \<lparr>dv_code = (case effective of p # _ \<Rightarrow> Failed (p_code p)
            | [] \<Rightarrow> if superseded then Superseded else Valid),
          dv_problems = effective, dv_notes = notes, dv_summary = k_summary k\<rparr>)"

subsection \<open>Inputs\<close>

record cited =
  ct_uri :: string
  ct_cid :: string
  ct_value :: jv

record repo_proof =
  pf_did :: string
  pf_commit :: string
  pf_blocks :: blocks

record verify_input =
  in_decision :: cited
  in_proposal :: cited
  in_repos :: "repo_proof list"
  in_didDocuments :: "jv list"
  in_siblings :: "cited list"

record loaded_repo =
  ld_did :: string
  ld_repo :: "lib_repo option"
  ld_blocks :: blocks
  ld_verified :: bool

text \<open>\<open>String.prototype.split\<close> on one character.\<close>

fun split_on :: "char \<Rightarrow> string \<Rightarrow> string list" where
  "split_on d [] = [[]]"
| "split_on d (c # cs) = (if c = d then [] # split_on d cs
     else (case split_on d cs of [] \<Rightarrow> [[c]] | w # ws \<Rightarrow> (c # w) # ws))"

record at_loc =
  al_repo :: string
  al_collection :: string
  al_rkey :: string

definition parseAtUri :: "jv \<Rightarrow> at_loc option" where
  "parseAtUri uri = (case uri of
      JStr s \<Rightarrow>
        if take 5 s \<noteq> ''at://'' then None
        else (case split_on CHR ''/'' (drop 5 s) of
            [r, c, k] \<Rightarrow> if r = [] \<or> c = [] \<or> k = [] then None
              else Some \<lparr>al_repo = r, al_collection = c, al_rkey = k\<rparr>
          | _ \<Rightarrow> None)
    | _ \<Rightarrow> None)"

subsection \<open>Loading exports and locating records\<close>

definition loadRepo_export ::
  "lib \<Rightarrow> (string \<times> jv) list \<Rightarrow> repo_proof \<Rightarrow> check \<Rightarrow> exn + loaded_repo \<times> check" where
  "loadRepo_export l didDocs proof k =
     (let did = pf_did proof;
          result = (\<lambda>repo ok. \<lparr>ld_did = did, ld_repo = repo, ld_blocks = pf_blocks proof, ld_verified = ok\<rparr>);
          fail = (\<lambda>code repo. Inr (result repo False, blame code (Some did) None k))
      in case l_load l (pf_blocks proof) (pf_commit proof) of
           Inl _ \<Rightarrow> fail MissingEvidence None
         | Inr repo \<Rightarrow>
           if lr_did repo \<noteq> did then fail ForgedSignature (Some repo)
           else (case map_of didDocs did of
               None \<Rightarrow> fail MissingEvidence (Some repo)
             | Some doc \<Rightarrow>
               bindE (l_getKey l doc) (\<lambda>key. case key of
                   None \<Rightarrow> fail MissingEvidence (Some repo)
                 | Some didKey \<Rightarrow>
                   if didKey = [] then fail MissingEvidence (Some repo)
                   else if l_verifySig l repo didKey = Inr True then Inr (result (Some repo) True, k)
                   else fail ForgedSignature (Some repo))))"

text \<open>\<open>None\<close>: not found, for one of the reasons of the source.\<close>

definition locateRecord :: "lib \<Rightarrow> loaded_repo \<Rightarrow> string \<Rightarrow> string \<Rightarrow> exn + (string \<times> jv) option" where
  "locateRecord l loaded coll rkey = (case ld_repo loaded of
      None \<Rightarrow> Inr None
    | Some repo \<Rightarrow>
      (case lr_get repo (joined_key coll rkey) of
         Inr (Some cid) \<Rightarrow>
           (case ld_blocks loaded cid of
              None \<Rightarrow> Inr None
            | Some bytes \<Rightarrow>
              (case l_decode l bytes of
                 Inl _ \<Rightarrow> Inr None
               | Inr value \<Rightarrow>
                   bindE (l_cid l value) (\<lambda>recomputed.
                     Inr (if recomputed \<noteq> cid then None else Some (cid, value)))))
       | _ \<Rightarrow> Inr None))"

subsection \<open>Membership evidence\<close>

datatype membership_verdict = MemberOk | MemberIneligible | MemberUnverifiable

definition check_role_evidence ::
  "lib \<Rightarrow> loaded_repo \<Rightarrow> jv \<Rightarrow> jv \<Rightarrow> exn + membership_verdict" where
  "check_role_evidence l communityRepo ev memberValue =
     (let roleName = jget ev ''roleName''; roleCid = jget (jget ev ''roleRecord'') ''cid''
      in case parseAtUri (jget (jget ev ''roleRecord'') ''uri'') of
           None \<Rightarrow> Inr MemberUnverifiable
         | Some roleRef \<Rightarrow>
           if \<not> is_str roleCid then Inr MemberUnverifiable
           else if JStr (al_rkey roleRef) \<noteq> jget memberValue ''roleRkey'' then Inr MemberIneligible
           else bindE (locateRecord l communityRepo (al_collection roleRef) (al_rkey roleRef)) (\<lambda>r. case r of
               None \<Rightarrow> Inr MemberUnverifiable
             | Some (cid, value) \<Rightarrow>
               Inr (if JStr cid \<noteq> roleCid then MemberUnverifiable
                    else if jget value ''name'' \<noteq> roleName then MemberIneligible
                    else if \<not> includes_permission (jget value ''permissions'') then MemberIneligible
                    else MemberOk)))"

definition checkMembershipEvidence ::
  "lib \<Rightarrow> jv \<Rightarrow> loaded_repo \<Rightarrow> string \<Rightarrow> exn + membership_verdict" where
  "checkMembershipEvidence l voteRecord communityRepo community =
     (let ev = jget voteRecord ''eligibility''; memberCid = jget (jget ev ''member'') ''cid''
      in if \<not> truthy ev \<or> \<not> typeof_object ev then Inr MemberUnverifiable
         else if (case jget ev ''unresolved'' of JStr u \<Rightarrow> u \<noteq> [] | _ \<Rightarrow> False) then Inr MemberUnverifiable
         else if jget ev ''grantedGovernanceWrite'' \<noteq> JBool True then Inr MemberIneligible
         else if \<not> ld_verified communityRepo then Inr MemberUnverifiable
         else (case parseAtUri (jget (jget ev ''member'') ''uri'') of
             None \<Rightarrow> Inr MemberUnverifiable
           | Some memberRef \<Rightarrow>
             if \<not> is_str memberCid then Inr MemberUnverifiable
             else if al_repo memberRef \<noteq> community then Inr MemberIneligible
             else bindE (locateRecord l communityRepo (al_collection memberRef) (al_rkey memberRef)) (\<lambda>r. case r of
                 None \<Rightarrow> Inr MemberUnverifiable
               | Some (cid, memberValue) \<Rightarrow>
                 if JStr cid \<noteq> memberCid then Inr MemberUnverifiable
                 else if \<not> truthy (jget memberValue ''roleRkey'') then
                   (let roleName = js_nullish (jget memberValue ''role'') (JStr ''member'')
                    in Inr (if roleName \<noteq> jget ev ''roleName'' then MemberIneligible
                            else if includes_permission (legacy_permissions
                                   (case roleName of JStr s \<Rightarrow> s | _ \<Rightarrow> l_text l roleName)) then MemberOk
                            else MemberIneligible))
                 else check_role_evidence l communityRepo ev memberValue)))"

subsection \<open>The votes in the exports\<close>

record eligible_vote =
  ev_rkey :: string
  ev_cid :: string
  ev_vote :: vote_choice
  ev_proposalCid :: string
  ev_orderKey :: string

definition eligible_add ::
  "string \<Rightarrow> string \<Rightarrow> vote_ctx \<Rightarrow> (string \<times> eligible_vote) list \<Rightarrow> string \<times> walk_entry
   \<Rightarrow> (string \<times> eligible_vote) list" where
  "eligible_add community proposalRkey ctx eligible row =
     (case row of (did, entry) \<Rightarrow>
       (let rec = we_record entry
        in if we_collection entry \<noteq> VOTE_COLLECTION \<or> jget rec ''community'' \<noteq> JStr community
              \<or> jget rec ''proposalRkey'' \<noteq> JStr proposalRkey then eligible
           else (case checkVoteRecord rec ctx of
               VoteRefused _ \<Rightarrow> eligible
             | VoteCountable vote cid createdAt \<Rightarrow>
               (let key = voteOrderKey createdAt (we_rkey entry)
                in if (case map_of eligible did of None \<Rightarrow> False | Some previous \<Rightarrow> ev_orderKey previous \<le> key)
                   then eligible
                   else AList.update did \<lparr>ev_rkey = we_rkey entry, ev_cid = we_cid entry, ev_vote = vote,
                          ev_proposalCid = cid, ev_orderKey = key\<rparr> eligible))))"

text \<open>The entries of every export whose signature verified, in the order of the exports.\<close>

fun export_rows :: "loaded_repo list \<Rightarrow> exn + (string \<times> walk_entry) list" where
  "export_rows [] = Inr []"
| "export_rows (loaded # rest) = (case ld_repo loaded of
      None \<Rightarrow> export_rows rest
    | Some repo \<Rightarrow>
        if \<not> ld_verified loaded then export_rows rest
        else bindE (lr_walk repo) (\<lambda>es. bindE (export_rows rest) (\<lambda>rows.
               Inr (map (\<lambda>e. (ld_did loaded, e)) es @ rows))))"

definition eligible_votes ::
  "string \<Rightarrow> string \<Rightarrow> vote_ctx \<Rightarrow> (string \<times> walk_entry) list \<Rightarrow> (string \<times> eligible_vote) list" where
  "eligible_votes community proposalRkey ctx rows =
     foldl (eligible_add community proposalRkey ctx) [] rows"

subsection \<open>Every cited vote\<close>

record vote_check =
  vk_check :: check
  vk_voters :: "string list"
  vk_for :: nat
  vk_against :: nat

record vote_env =
  ve_lib :: lib
  ve_repos :: "(string \<times> loaded_repo) list"
  ve_communityRepo :: loaded_repo
  ve_community :: string
  ve_ctx :: vote_ctx
  ve_eligible :: "(string \<times> eligible_vote) list"
  ve_uri :: string

definition choice_of :: "jv \<Rightarrow> vote_choice option" where
  "choice_of v = (if v = JStr ''for'' then Some For else if v = JStr ''against'' then Some Against else None)"

text \<open>A vote whose location in the voter's own export is known: is it what the decision says?\<close>

definition check_located_vote ::
  "vote_env \<Rightarrow> jv \<Rightarrow> string \<Rightarrow> vote_choice \<Rightarrow> string \<Rightarrow> string \<Rightarrow> string \<Rightarrow> loaded_repo \<Rightarrow> check \<Rightarrow> exn + check" where
  "check_located_vote ve raw voter choice refUri refCid rkey loaded k =
     (let bad = (\<lambda>code. Inr (blame code (Some voter) (Some refUri) k))
      in bindE (locateRecord (ve_lib ve) loaded VOTE_COLLECTION rkey) (\<lambda>located. case located of
           None \<Rightarrow> bad TamperedVote
         | Some (cid, rec) \<Rightarrow>
           if cid \<noteq> refCid then bad TamperedVote
           else if jget rec ''vote'' \<noteq> JStr (choice_str choice) then bad TamperedVote
           else if is_str (jget raw ''proposalCid'') \<and> jget raw ''proposalCid'' \<noteq> jget (jget rec ''proposal'') ''cid''
             then bad TamperedVote
           else (case checkVoteRecord rec (ve_ctx ve) of
               VoteRefused _ \<Rightarrow> bad IneligibleVote
             | VoteCountable _ _ _ \<Rightarrow>
               if (case map_of (ve_eligible ve) voter of None \<Rightarrow> False | Some w \<Rightarrow> ev_rkey w \<noteq> rkey)
                 then bad IneligibleVote
               else bindE (checkMembershipEvidence (ve_lib ve) rec (ve_communityRepo ve) (ve_community ve))
                 (\<lambda>m. let counted = (\<lambda>c. c\<lparr>k_summary := (k_summary c)
                                   \<lparr>su_verifiedVotes := Suc (su_verifiedVotes (k_summary c))\<rparr>\<rparr>)
                      in (case m of
                         MemberIneligible \<Rightarrow> bad IneligibleVote
                       | MemberUnverifiable \<Rightarrow>
                           Inr (counted (remark MembershipUnverified (Some voter) (Some refUri) k))
                       | MemberOk \<Rightarrow> Inr (counted k))))))"

definition check_cited_vote :: "vote_env \<Rightarrow> vote_check \<Rightarrow> jv \<Rightarrow> exn + vote_check" where
  "check_cited_vote ve vk raw =
     (let k = vk_check vk; malformed = (\<lambda>v. v\<lparr>vk_check := blame MalformedDecision None (Some (ve_uri ve)) (vk_check v)\<rparr>);
          ref = jget raw ''record''
      in if \<not> is_obj raw then Inr (malformed vk)
         else (case (jget raw ''voter'', choice_of (jget raw ''vote''), jget ref ''uri'', jget ref ''cid'') of
             (JStr voter, Some choice, JStr refUri, JStr refCid) \<Rightarrow>
               if voter = [] \<or> refUri = [] \<or> refCid = [] \<or> \<not> is_obj ref then Inr (malformed vk)
               else
                 (let vk1 = (case choice of For \<Rightarrow> vk\<lparr>vk_for := Suc (vk_for vk)\<rparr>
                                       | Against \<Rightarrow> vk\<lparr>vk_against := Suc (vk_against vk)\<rparr>);
                      vk2 = vk1\<lparr>vk_voters := vk_voters vk @ [voter]\<rparr>;
                      bad = (\<lambda>code. Inr (vk2\<lparr>vk_check := blame code (Some voter) (Some refUri) k\<rparr>))
                  in if voter \<in> set (vk_voters vk)
                       then Inr (vk1\<lparr>vk_check := blame MalformedDecision (Some voter) (Some (ve_uri ve)) k\<rparr>)
                     else (case parseAtUri (JStr refUri) of
                         None \<Rightarrow> bad MalformedDecision
                       | Some loc \<Rightarrow>
                         if al_repo loc \<noteq> voter \<or> al_collection loc \<noteq> VOTE_COLLECTION then bad MalformedDecision
                         else (case map_of (ve_repos ve) voter of
                             None \<Rightarrow> bad MissingEvidence
                           | Some loaded \<Rightarrow>
                             if \<not> ld_verified loaded then Inr vk2
                             else bindE (check_located_vote ve raw voter choice refUri refCid (al_rkey loc) loaded k)
                                    (\<lambda>k'. Inr (vk2\<lparr>vk_check := k'\<rparr>)))))
           | _ \<Rightarrow> Inr (malformed vk)))"

subsection \<open>The whole check\<close>

text \<open>The claims of the decision about itself.\<close>

record claims =
  cl_community :: string
  cl_proposalRkey :: string
  cl_outcome :: string
  cl_threshold :: jnum
  cl_votes :: "jv list"
  cl_rkey :: string

definition truthy_str :: "jv \<Rightarrow> string option" where
  "truthy_str v = (case v of JStr s \<Rightarrow> if s = [] then None else Some s | _ \<Rightarrow> None)"

definition read_claims :: "cited \<Rightarrow> claims option" where
  "read_claims decision =
     (let v = ct_value decision
      in case (parseAtUri (JStr (ct_uri decision)), truthy_str (jget v ''community''),
               truthy_str (jget v ''proposalRkey''), truthy_str (jget v ''outcome''),
               jget (jget v ''quorum'') ''threshold'') of
           (Some loc, Some community, Some rkey, Some out, JNum threshold) \<Rightarrow>
             if al_collection loc \<noteq> DECISION_COLLECTION \<or> al_repo loc \<noteq> community \<or> \<not> is_obj (jget v ''quorum'')
             then None
             else Some \<lparr>cl_community = community, cl_proposalRkey = rkey, cl_outcome = out,
                        cl_threshold = threshold, cl_votes = arr_or_nil (jget v ''votes''),
                        cl_rkey = al_rkey loc\<rparr>
         | _ \<Rightarrow> None)"

definition shape_checks :: "cited \<Rightarrow> claims \<Rightarrow> check \<Rightarrow> check" where
  "shape_checks decision c k =
     (let v = ct_value decision; uri = Some (ct_uri decision);
          uncounted = arr_or_nil (jget v ''uncountedVotes'');
          complete = (jget v ''evidenceComplete'' = JBool True);
          k1 = (if cl_outcome c \<noteq> ''approved'' \<and> cl_outcome c \<noteq> ''rejected''
                then blame MalformedDecision None uri k else k);
          k2 = (if complete \<noteq> (uncounted = []) then blame MalformedDecision None uri k1 else k1);
          k3 = (if complete then k2 else remark DisclosedGap None uri k2)
      in (case (jget v ''supersedes'', jget (jget v ''supersedes'') ''uri'') of
            (JObj _, JStr u) \<Rightarrow> k3\<lparr>k_summary := (k_summary k3)\<lparr>su_supersedes := Some u\<rparr>\<rparr>
          | _ \<Rightarrow> k3))"

definition did_docs :: "jv list \<Rightarrow> (string \<times> jv) list" where
  "did_docs docs = foldl (\<lambda>al doc. case jget doc ''id'' of JStr i \<Rightarrow> AList.update i doc al | _ \<Rightarrow> al) [] docs"

definition load_all ::
  "lib \<Rightarrow> (string \<times> jv) list \<Rightarrow> repo_proof list \<Rightarrow> check \<Rightarrow> exn + (string \<times> loaded_repo) list \<times> check" where
  "load_all l docs proofs k =
     foldE (\<lambda>(repos, k) proof. bindE (loadRepo_export l docs proof k)
              (\<lambda>(loaded, k'). Inr (AList.update (pf_did proof) loaded repos, k'))) ([], k) proofs"

text \<open>The first sibling the community's own repository holds as superseding this decision.\<close>

fun superseded_by ::
  "lib \<Rightarrow> loaded_repo \<Rightarrow> string \<Rightarrow> cited \<Rightarrow> cited list \<Rightarrow> exn + string option" where
  "superseded_by l communityRepo community decision [] = Inr None"
| "superseded_by l communityRepo community decision (sib # sibs) =
     (let next_one = superseded_by l communityRepo community decision sibs
      in if ct_uri sib = ct_uri decision then next_one
         else (case parseAtUri (JStr (ct_uri sib)) of
             None \<Rightarrow> next_one
           | Some loc \<Rightarrow>
             if al_repo loc \<noteq> community \<or> al_collection loc \<noteq> DECISION_COLLECTION then next_one
             else bindE (locateRecord l communityRepo DECISION_COLLECTION (al_rkey loc)) (\<lambda>r. case r of
                 None \<Rightarrow> next_one
               | Some (cid, value) \<Rightarrow>
                 (let ref = jget value ''supersedes''
                  in if cid = ct_cid sib \<and> is_obj ref \<and> jget ref ''uri'' = JStr (ct_uri decision)
                        \<and> jget ref ''cid'' = JStr (ct_cid decision)
                     then Inr (Some (ct_uri sib)) else next_one))))"

text \<open>A record supplied by the caller is in the signed repository, with that content.\<close>

definition check_supplied ::
  "lib \<Rightarrow> loaded_repo \<Rightarrow> string \<Rightarrow> string \<Rightarrow> cited \<Rightarrow> check \<Rightarrow> exn + check" where
  "check_supplied l communityRepo coll rkey supplied k =
     (let bad = blame TamperedEvidence None (Some (ct_uri supplied)) k
      in bindE (locateRecord l communityRepo coll rkey) (\<lambda>r. case r of
           None \<Rightarrow> Inr bad
         | Some (cid, _) \<Rightarrow>
           if cid \<noteq> ct_cid supplied then Inr bad
           else bindE (l_cid l (ct_value supplied)) (\<lambda>recomputed.
                  Inr (if recomputed \<noteq> ct_cid supplied then bad else k))))"

definition check_citation :: "cited \<Rightarrow> string \<Rightarrow> string set \<Rightarrow> check \<Rightarrow> check" where
  "check_citation decision expectedUri knownCids k =
     (let v = ct_value decision; citation = jget v ''proposal''; uri = Some (ct_uri decision)
      in if \<not> is_obj citation \<or> jget citation ''uri'' \<noteq> JStr expectedUri
            \<or> jget v ''proposalCollection'' \<noteq> JStr PROPOSAL_COLLECTION
           then blame MalformedDecision None uri k
         else if (case jget citation ''cid'' of JStr c \<Rightarrow> c \<notin> knownCids | _ \<Rightarrow> True)
           then blame TamperedEvidence None uri k
         else k)"

definition check_uncounted :: "(string \<times> eligible_vote) list \<Rightarrow> string list \<Rightarrow> check \<Rightarrow> check" where
  "check_uncounted eligible voters k =
     foldl (\<lambda>k (voter, w). if voter \<in> set voters then k
        else blame UncountedVote (Some voter) (Some (at_uri voter VOTE_COLLECTION (ev_rkey w))) k) k eligible"

definition check_tally :: "cited \<Rightarrow> claims \<Rightarrow> nat \<Rightarrow> nat \<Rightarrow> check \<Rightarrow> check" where
  "check_tally decision c nFor nAgainst k =
     (let tly = jget (ct_value decision) ''tally''
      in if \<not> is_obj tly \<or> jget tly ''votesFor'' \<noteq> jnat nFor \<or> jget tly ''votesAgainst'' \<noteq> jnat nAgainst
            \<or> jget tly ''total'' \<noteq> jnat (length (cl_votes c))
         then blame MiscountedTally None (Some (ct_uri decision)) k else k)"

definition settings_threshold :: "jv \<Rightarrow> jnum" where
  "settings_threshold settings =
     (case jget (governance_config settings) ''quorum'' of
        JNum n \<Rightarrow> if truthy (JNum n) then n else Fin (of_nat DEFAULT_QUORUM)
      | _ \<Rightarrow> Fin (of_nat DEFAULT_QUORUM))"

definition num_neq :: "jnum \<Rightarrow> jnum \<Rightarrow> bool" where
  "num_neq a b \<longleftrightarrow> a = NaN \<or> b = NaN \<or> a \<noteq> b"

definition check_quorum :: "cited \<Rightarrow> claims \<Rightarrow> jnum option \<Rightarrow> nat \<Rightarrow> nat \<Rightarrow> check \<Rightarrow> check" where
  "check_quorum decision c settingsThreshold nFor nAgainst k0 =
     (let uri = Some (ct_uri decision); published = cl_threshold c;
          effective = (case settingsThreshold of None \<Rightarrow> published | Some t \<Rightarrow> num_max published t);
          k1 = k0\<lparr>k_summary := (k_summary k0)\<lparr>su_settingsQuorum := settingsThreshold,
                 su_effectiveQuorum := Some effective\<rparr>\<rparr>;
          k = (if (case settingsThreshold of None \<Rightarrow> False | Some t \<Rightarrow> num_neq t published)
               then remark QuorumRuleDrift None uri k1 else k1);
          total = Fin (of_nat (nFor + nAgainst))
      in if num_lt total published then blame InsufficientQuorum None uri k
         else if num_lt total effective then blame QuorumFloorUnmet None uri k
         else if map_option outcome_str (decideOutcome nFor nAgainst (JNum effective)) \<noteq> Some (cl_outcome c)
           then blame WrongOutcome None uri k
         else k)"

text \<open>From the tally of the exports on: the proposal supplied is the one the decision names.\<close>

definition verify_votes ::
  "lib \<Rightarrow> verify_input \<Rightarrow> claims \<Rightarrow> (string \<times> loaded_repo) list \<Rightarrow> loaded_repo \<Rightarrow> check \<Rightarrow> exn + decision_verdict" where
  "verify_votes l inp c repos communityRepo k0 =
     (let decision = in_decision inp; proposal = in_proposal inp; community = cl_community c;
          expectedUri = proposalUri community (cl_proposalRkey c);
          knownCids = knownProposalCids (ct_value proposal) (ct_cid proposal);
          ctx = \<lparr>vc_proposalUri = expectedUri, vc_knownCids = knownCids, vc_epoch = tallyEpoch (ct_value proposal)\<rparr>
      in bindE (export_rows (map snd repos)) (\<lambda>rows.
         (let eligible = eligible_votes community (cl_proposalRkey c) ctx rows;
              k = check_citation decision expectedUri knownCids k0;
              k1 = k\<lparr>k_summary := (k_summary k)\<lparr>su_eligible := length eligible\<rparr>\<rparr>;
              ve = \<lparr>ve_lib = l, ve_repos = repos, ve_communityRepo = communityRepo, ve_community = community,
                    ve_ctx = ctx, ve_eligible = eligible, ve_uri = ct_uri decision\<rparr>
          in bindE (foldE (check_cited_vote ve) \<lparr>vk_check = k1, vk_voters = [], vk_for = 0, vk_against = 0\<rparr> (cl_votes c))
             (\<lambda>vk.
               (let nFor = vk_for vk; nAgainst = vk_against vk;
                    k2 = (vk_check vk)\<lparr>k_summary := (k_summary (vk_check vk))
                           \<lparr>su_countedFor := nFor, su_countedAgainst := nAgainst\<rparr>\<rparr>;
                    k3 = check_tally decision c nFor nAgainst (check_uncounted eligible (vk_voters vk) k2)
                in bindE (locateRecord l communityRepo SETTINGS_COLLECTION ''self'') (\<lambda>settings.
                     let st = map_option (\<lambda>(_, v). settings_threshold v) settings;
                         k4 = (if settings = None then blame MissingEvidence (Some community) None k3 else k3)
                     in Inr (finish (check_quorum decision c st nFor nAgainst k4))))))))"

definition verify_in_repo ::
  "lib \<Rightarrow> verify_input \<Rightarrow> claims \<Rightarrow> (string \<times> loaded_repo) list \<Rightarrow> loaded_repo \<Rightarrow> check \<Rightarrow> exn + decision_verdict" where
  "verify_in_repo l inp c repos communityRepo k0 =
     (let decision = in_decision inp; proposal = in_proposal inp; community = cl_community c
      in bindE (if ld_verified communityRepo then superseded_by l communityRepo community decision (in_siblings inp)
                else Inr None) (\<lambda>sup.
         (let k1 = k0\<lparr>k_summary := (k_summary k0)\<lparr>su_supersededBy := sup\<rparr>\<rparr>
          in bindE (check_supplied l communityRepo DECISION_COLLECTION (cl_rkey c) decision k1) (\<lambda>k2.
             if ct_uri proposal \<noteq> proposalUri community (cl_proposalRkey c)
                \<or> parseAtUri (JStr (ct_uri proposal)) = None
             then Inr (finish (blame TamperedEvidence None (Some (ct_uri proposal)) k2))
             else bindE (check_supplied l communityRepo PROPOSAL_COLLECTION (cl_proposalRkey c) proposal k2)
                    (verify_votes l inp c repos communityRepo)))))"

definition start_check :: "cited \<Rightarrow> check" where
  "start_check decision = \<lparr>k_problems = [], k_notes = [], k_summary = empty_summary
     \<lparr>su_effectiveQuorum := (case jget (jget (ct_value decision) ''quorum'') ''threshold'' of
        JNum n \<Rightarrow> Some n | _ \<Rightarrow> None)\<rparr>\<rparr>"

definition verifyDecision :: "lib \<Rightarrow> verify_input \<Rightarrow> exn + decision_verdict" where
  "verifyDecision l inp =
     (let decision = in_decision inp; k0 = start_check decision
      in case read_claims decision of
           None \<Rightarrow> Inr (finish (blame MalformedDecision None (Some (ct_uri decision)) k0))
         | Some c \<Rightarrow>
             bindE (load_all l (did_docs (in_didDocuments inp)) (in_repos inp) (shape_checks decision c k0))
               (\<lambda>(repos, k). case map_of repos (cl_community c) of
                   None \<Rightarrow> Inr (finish (blame MissingEvidence (Some (cl_community c)) None k))
                 | Some communityRepo \<Rightarrow> verify_in_repo l inp c repos communityRepo k))"

subsection \<open>Loading\<close>

lemma foldE_inv:
  assumes "foldE f acc xs = Inr r" "P acc" "\<And>acc x acc'. P acc \<Longrightarrow> f acc x = Inr acc' \<Longrightarrow> P acc'"
  shows "P r"
  using assms(1,2) by (induction xs arbitrary: acc) (auto simp: bindE_Inr_iff assms(3))

text \<open>An export that loads without a problem is signed by its owner.\<close>

lemma blame_problems: "k_problems (blame code voter uri k) \<noteq> []"
  by (simp add: blame_def)

lemma loaded_verified:
  assumes "loadRepo_export l docs proof k = Inr (ld, k')" "k_problems k' = []"
  shows "ld_verified ld \<and> k_problems k = []"
proof (cases "l_load l (pf_blocks proof) (pf_commit proof)")
  case (Inr repo)
  show ?thesis
  proof (cases "map_of docs (pf_did proof)")
    case (Some doc)
    then show ?thesis
      using assms Inr blame_problems
      by (cases "l_getKey l doc") (auto simp: loadRepo_export_def Let_def split: if_splits option.splits)
  qed (use assms Inr blame_problems in \<open>auto simp: loadRepo_export_def Let_def split: if_splits\<close>)
qed (use assms blame_problems in \<open>auto simp: loadRepo_export_def Let_def\<close>)

lemma load_all_verified:
  assumes "load_all l docs proofs k = Inr (repos, k')" "k_problems k' = []"
  shows "\<forall>ld \<in> snd ` set repos. ld_verified ld"
proof -
  let ?P = "\<lambda>(repos, k'). k_problems k' = [] \<longrightarrow> (\<forall>ld \<in> snd ` set repos. ld_verified ld)"
  have "?P (repos, k')"
    using assms(1) unfolding load_all_def
  proof (rule foldE_inv)
    show "?P ([], k)" by simp
    fix acc x acc' assume P: "?P acc"
      and "(\<lambda>(repos, k) proof. bindE (loadRepo_export l docs proof k)
              (\<lambda>(loaded, k'). Inr (AList.update (pf_did proof) loaded repos, k'))) acc x = Inr acc'"
    then obtain rs k0 ld k1 where *: "acc = (rs, k0)" "loadRepo_export l docs x k0 = Inr (ld, k1)"
      "acc' = (AList.update (pf_did x) ld rs, k1)" by (cases acc) (auto simp: bindE_Inr_iff)
    show "?P acc'"
    proof (simp add: *(3), intro impI ballI)
      fix r assume "k_problems k1 = []" "r \<in> set (AList.update (pf_did x) ld rs)"
      moreover from this loaded_verified [OF *(2)] have "ld_verified ld" "k_problems k0 = []" by auto
      ultimately show "ld_verified (snd r)" using P *(1) set_update_subset [of "pf_did x" ld rs] by auto
    qed
  qed
  with assms(2) show ?thesis by simp
qed

end
