(* ===== verification/VerifyApplication.thy ===== *)
theory VerifyApplication
  imports VerifyDecision Timelock
begin

text \<open>
  The offline check that a decided change was applied when and only when the contest window
  allowed it: \<^verbatim>\<open>src/governance/verify-application.ts\<close>. Reading exports is shared with
  \<open>VerifyDecision\<close>; \<open>localeCompare\<close>, which only orders what is reported, is the
  parameter \<open>lt\<close>.
\<close>

subsection \<open>The verdict\<close>

datatype app_failure =
    MalformedProposal | AppForgedSignature | AppTamperedEvidence | AppliedOverObjection
  | EarlyApplication | UnevidencedHold | AppMissingEvidence

fun app_severity :: "app_failure \<Rightarrow> nat" where
  "app_severity MalformedProposal = 0"
| "app_severity AppForgedSignature = 1"
| "app_severity AppTamperedEvidence = 2"
| "app_severity AppliedOverObjection = 3"
| "app_severity EarlyApplication = 4"
| "app_severity UnevidencedHold = 5"
| "app_severity AppMissingEvidence = 6"

datatype app_code =
    AppApplied | AppHeld | NothingToApply | WindowOpen | ApplicationDue | PendingApplication
  | OverrideRound | OverrideRoundDue | ClosedUnapplied | AppFailed app_failure

datatype app_status = Legitimate | Pending | Indeterminate | Illegitimate

datatype app_note_code =
    ObjectorEligibilityUnverified | HoldUnverified | SettingsUnavailable | NoContestWindow
  | ObjectionCountDrift

record app_problem =
  ap_code :: app_failure
  ap_uri :: "string option"
  ap_did :: "string option"

record app_note =
  an_code :: app_note_code
  an_uri :: string

record app_objection =
  ao_objector :: string
  ao_uri :: string
  ao_cid :: string
  ao_createdAt :: string

record app_summary =
  as_community :: "string option"
  as_proposalRkey :: "string option"
  as_proposalStatus :: "string option"
  as_resolvedAt :: "string option"
  as_applyAt :: "string option"
  as_appliedAt :: "string option"
  as_decisionUri :: "string option"
  as_cached :: nat
  as_threshold :: int
  as_thresholdFromSettings :: bool
  as_overrideQuorum :: "jnum option"
  as_overrideExpiresAt :: "string option"
  as_objectors :: "app_objection list"

record app_verdict =
  av_status :: app_status
  av_code :: app_code
  av_problems :: "app_problem list"
  av_notes :: "app_note list"
  av_summary :: app_summary

record app_check =
  ak_problems :: "app_problem list"
  ak_notes :: "app_note list"
  ak_summary :: app_summary

record verify_app_input =
  ai_proposal :: cited
  ai_repos :: "repo_proof list"
  ai_didDocuments :: "jv list"
  ai_asOf :: "string option"

definition app_blame :: "app_failure \<Rightarrow> string option \<Rightarrow> string option \<Rightarrow> app_check \<Rightarrow> app_check" where
  "app_blame code uri did k = k\<lparr>ak_problems := ak_problems k @ [\<lparr>ap_code = code, ap_uri = uri, ap_did = did\<rparr>]\<rparr>"

definition app_remark :: "app_note_code \<Rightarrow> string \<Rightarrow> app_check \<Rightarrow> app_check" where
  "app_remark code uri k = k\<lparr>ak_notes := ak_notes k @ [\<lparr>an_code = code, an_uri = uri\<rparr>]\<rparr>"

text \<open>A failure wins over whatever state the caller concluded.\<close>

definition app_finish :: "app_code \<Rightarrow> app_status \<Rightarrow> app_check \<Rightarrow> app_verdict" where
  "app_finish code status k =
     (case sort_lt (\<lambda>a b. app_severity (ap_code a) < app_severity (ap_code b)) (ak_problems k) of
        p # ps \<Rightarrow> \<lparr>av_status = Illegitimate, av_code = AppFailed (ap_code p), av_problems = p # ps,
                   av_notes = ak_notes k, av_summary = ak_summary k\<rparr>
      | [] \<Rightarrow> \<lparr>av_status = status, av_code = code, av_problems = [],
               av_notes = ak_notes k, av_summary = ak_summary k\<rparr>)"

definition app_fail :: "app_failure \<Rightarrow> string option \<Rightarrow> string option \<Rightarrow> app_check \<Rightarrow> app_verdict" where
  "app_fail code uri did k = app_finish (AppFailed code) Illegitimate (app_blame code uri did k)"

definition empty_app_summary :: app_summary where
  "empty_app_summary = \<lparr>as_community = None, as_proposalRkey = None, as_proposalStatus = None, as_resolvedAt = None,
     as_applyAt = None, as_appliedAt = None, as_decisionUri = None, as_cached = 0,
     as_threshold = objectionThreshold JUndef, as_thresholdFromSettings = False, as_overrideQuorum = None,
     as_overrideExpiresAt = None, as_objectors = []\<rparr>"

subsection \<open>The objections in the exports\<close>

definition app_objection_of :: "string \<times> walk_entry \<Rightarrow> string \<Rightarrow> app_objection" where
  "app_objection_of row createdAt = (case row of (did, entry) \<Rightarrow>
     \<lparr>ao_objector = did, ao_uri = at_uri did OBJECTION_COLLECTION (we_rkey entry), ao_cid = we_cid entry,
      ao_createdAt = createdAt\<rparr>)"

definition app_objection_add ::
  "string \<Rightarrow> string \<Rightarrow> objection_ctx \<Rightarrow> (string \<times> app_objection) list \<Rightarrow> string \<times> walk_entry
   \<Rightarrow> (string \<times> app_objection) list" where
  "app_objection_add community proposalRkey ctx held row =
     (case row of (did, entry) \<Rightarrow>
       (let rec = we_record entry
        in if we_collection entry \<noteq> OBJECTION_COLLECTION \<or> jget rec ''community'' \<noteq> JStr community
              \<or> jget rec ''proposalRkey'' \<noteq> JStr proposalRkey then held
           else (case checkObjectionRecord rec ctx of
               ObjectionRefused _ \<Rightarrow> held
             | ObjectionCountable createdAt \<Rightarrow>
               if (case map_of held did of None \<Rightarrow> False | Some existing \<Rightarrow> ao_createdAt existing \<le> createdAt)
               then held else AList.update did (app_objection_of row createdAt) held)))"

definition countObjections ::
  "(string \<Rightarrow> string \<Rightarrow> bool) \<Rightarrow> (string \<times> loaded_repo) list \<Rightarrow> string \<Rightarrow> string \<Rightarrow> objection_ctx
   \<Rightarrow> exn + app_objection list" where
  "countObjections lt repos community proposalRkey ctx =
     bindE (export_rows (map snd repos)) (\<lambda>rows.
       Inr (sort_lt (\<lambda>a b. lt (ao_createdAt a) (ao_createdAt b))
              (map snd (foldl (app_objection_add community proposalRkey ctx) [] rows))))"

subsection \<open>A hold the objectors' own repositories contradict\<close>

definition cachedObjectorsContradicted ::
  "jv list \<Rightarrow> (string \<times> loaded_repo) list \<Rightarrow> app_objection list \<Rightarrow> string list" where
  "cachedObjectorsContradicted cached repos proved =
     [objector. entry \<leftarrow> cached, Some objector \<leftarrow> [truthy_str (jget entry ''objector'')],
        is_obj entry \<and> objector \<notin> ao_objector ` set proved
        \<and> (case map_of repos objector of None \<Rightarrow> False | Some loaded \<Rightarrow> ld_repo loaded \<noteq> None \<and> ld_verified loaded)]"

definition holdContradiction ::
  "jv list \<Rightarrow> (string \<times> loaded_repo) list \<Rightarrow> app_objection list \<Rightarrow> bool \<Rightarrow> bool" where
  "holdContradiction cached repos objections held \<longleftrightarrow>
     \<not> held \<and> cachedObjectorsContradicted cached repos objections \<noteq> []"

subsection \<open>The verdict on the proposal in the repository\<close>

definition override_verdict :: "verify_app_input \<Rightarrow> jv \<Rightarrow> bool \<Rightarrow> bool \<Rightarrow> app_check \<Rightarrow> app_verdict" where
  "override_verdict inp proposal held contradicted k0 =
     (let uri = ct_uri (ai_proposal inp); expiresAt = truthy_str (jget proposal ''overrideExpiresAt'');
          quorum = (case jget proposal ''overrideQuorum'' of JNum n \<Rightarrow> Some n | _ \<Rightarrow> None)
      in if contradicted then app_fail UnevidencedHold (Some uri) None k0
         else (let k1 = (if held then k0 else app_remark HoldUnverified uri k0);
                   k = k1\<lparr>ak_summary := (ak_summary k1)\<lparr>as_overrideExpiresAt := expiresAt, as_overrideQuorum := quorum\<rparr>\<rparr>
               in case (ai_asOf inp, expiresAt) of
                    (Some t, Some e) \<Rightarrow>
                      if t \<noteq> [] \<and> e \<le> t then app_finish OverrideRoundDue Pending k else app_finish OverrideRound Pending k
                  | _ \<Rightarrow> app_finish OverrideRound Pending k))"

definition objected_verdict :: "string \<Rightarrow> bool \<Rightarrow> bool \<Rightarrow> app_check \<Rightarrow> app_verdict" where
  "objected_verdict uri held contradicted k =
     (if held then app_finish AppHeld Legitimate k
      else if contradicted then app_fail UnevidencedHold (Some uri) None k
      else app_finish AppHeld Legitimate (app_remark HoldUnverified uri k))"

definition applied_verdict :: "string \<Rightarrow> string \<Rightarrow> string option \<Rightarrow> bool \<Rightarrow> app_check \<Rightarrow> app_verdict" where
  "applied_verdict uri appliedAt applyAt held k =
     (if (case applyAt of None \<Rightarrow> False | Some t \<Rightarrow> appliedAt < t) then app_fail EarlyApplication (Some uri) None k
      else if held then app_fail AppliedOverObjection (Some uri) None k
      else app_finish AppApplied Legitimate k)"

definition pending_verdict :: "string option \<Rightarrow> string option \<Rightarrow> app_check \<Rightarrow> app_verdict" where
  "pending_verdict asOf applyAt k =
     (case asOf of
        None \<Rightarrow> app_finish PendingApplication Pending k
      | Some t \<Rightarrow>
          if t = [] then app_finish PendingApplication Pending k
          else if (case applyAt of None \<Rightarrow> False | Some a \<Rightarrow> t < a) then app_finish WindowOpen Pending k
          else app_finish ApplicationDue Pending k)"

text \<open>The community's threshold, or the default with a note.\<close>

definition read_threshold :: "string \<Rightarrow> (string \<times> jv) option \<Rightarrow> app_check \<Rightarrow> app_check" where
  "read_threshold community settings k = (case settings of
      Some (_, value) \<Rightarrow> k\<lparr>ak_summary := (ak_summary k)
        \<lparr>as_threshold := objectionThreshold value, as_thresholdFromSettings := True\<rparr>\<rparr>
    | None \<Rightarrow> app_remark SettingsUnavailable (at_uri community SETTINGS_COLLECTION ''self'') k)"

definition note_objections :: "string \<Rightarrow> app_objection list \<Rightarrow> nat \<Rightarrow> app_check \<Rightarrow> app_check" where
  "note_objections uri objections cached k0 =
     (let k1 = k0\<lparr>ak_summary := (ak_summary k0)\<lparr>as_objectors := objections\<rparr>\<rparr>;
          k2 = (if objections \<noteq> [] then app_remark ObjectorEligibilityUnverified uri k1 else k1)
      in if cached \<noteq> length objections then app_remark ObjectionCountDrift uri k2 else k2)"

definition application_ctx :: "string \<Rightarrow> string \<Rightarrow> jv \<Rightarrow> objection_ctx option" where
  "application_ctx community rkey proposal =
     (let decision = (if is_obj (jget proposal ''decision'') then jget proposal ''decision'' else JUndef)
      in case (truthy_str (jget decision ''uri''), truthy_str (jget decision ''cid''),
               truthy_str (jget proposal ''resolvedAt''), truthy_str (jget proposal ''applyAt'')) of
           (Some uri, Some cid, Some resolvedAt, Some applyAt) \<Rightarrow>
             Some \<lparr>oc_proposalUri = proposalUri community rkey, oc_decisionUri = uri, oc_decisionCid = cid,
                   oc_resolvedAt = resolvedAt, oc_applyAt = applyAt\<rparr>
         | _ \<Rightarrow> None)"

definition judge_application ::
  "lib \<Rightarrow> (string \<Rightarrow> string \<Rightarrow> bool) \<Rightarrow> verify_app_input \<Rightarrow> (string \<times> loaded_repo) list \<Rightarrow> loaded_repo
   \<Rightarrow> string \<Rightarrow> string \<Rightarrow> jv \<Rightarrow> app_check \<Rightarrow> exn + app_verdict" where
  "judge_application l lt inp repos communityRepo community rkey proposal k0 =
     (let uri = ct_uri (ai_proposal inp); status = truthy_str (jget proposal ''status'');
          applyAt = truthy_str (jget proposal ''applyAt''); appliedAt = truthy_str (jget proposal ''appliedAt'');
          cached = arr_or_nil (jget proposal ''objections'')
      in bindE (locateRecord l communityRepo SETTINGS_COLLECTION ''self'') (\<lambda>settings.
         bindE (case application_ctx community rkey proposal of
                  Some ctx \<Rightarrow> countObjections lt repos community rkey ctx
                | None \<Rightarrow> Inr []) (\<lambda>objections.
           let k = note_objections uri objections (length cached) (read_threshold community settings k0);
               held = (int (length objections) \<ge> as_threshold (ak_summary k));
               contradicted = holdContradiction cached repos objections held
           in Inr (if status = Some OVERRIDE_STATUS then override_verdict inp proposal held contradicted k
                   else if status = Some OBJECTED_STATUS then objected_verdict uri held contradicted k
                   else (case appliedAt of
                       Some t \<Rightarrow> applied_verdict uri t applyAt held k
                     | None \<Rightarrow>
                       if status = Some ''approved'' then app_finish ClosedUnapplied Indeterminate k
                       else pending_verdict (ai_asOf inp) applyAt k)))))"

definition summarize_proposal :: "jv \<Rightarrow> app_check \<Rightarrow> app_check" where
  "summarize_proposal proposal k =
     (let decision = (if is_obj (jget proposal ''decision'') then jget proposal ''decision'' else JUndef)
      in k\<lparr>ak_summary := (ak_summary k)
           \<lparr>as_proposalStatus := truthy_str (jget proposal ''status''),
            as_resolvedAt := truthy_str (jget proposal ''resolvedAt''),
            as_applyAt := truthy_str (jget proposal ''applyAt''),
            as_appliedAt := truthy_str (jget proposal ''appliedAt''),
            as_decisionUri := truthy_str (jget decision ''uri''),
            as_cached := length (arr_or_nil (jget proposal ''objections''))\<rparr>\<rparr>)"

definition verify_app_in_repo ::
  "lib \<Rightarrow> (string \<Rightarrow> string \<Rightarrow> bool) \<Rightarrow> verify_app_input \<Rightarrow> (string \<times> loaded_repo) list \<Rightarrow> loaded_repo
   \<Rightarrow> at_loc \<Rightarrow> app_check \<Rightarrow> exn + app_verdict" where
  "verify_app_in_repo l lt inp repos communityRepo loc k0 =
     (let uri = ct_uri (ai_proposal inp); community = al_repo loc; rkey = al_rkey loc
      in bindE (locateRecord l communityRepo PROPOSAL_COLLECTION rkey) (\<lambda>r. case r of
           None \<Rightarrow> Inr (app_fail AppTamperedEvidence (Some uri) None k0)
         | Some (cid, proposal) \<Rightarrow>
           if cid \<noteq> ct_cid (ai_proposal inp) then Inr (app_fail AppTamperedEvidence (Some uri) None k0)
           else
             (let k = summarize_proposal proposal k0; status = truthy_str (jget proposal ''status'')
              in if status \<notin> {Some ''approved'', Some PENDING_STATUS, Some OBJECTED_STATUS, Some OVERRIDE_STATUS}
                 then Inr (app_finish NothingToApply Legitimate k)
                 else if status = Some ''approved'' \<and> truthy_str (jget proposal ''applyAt'') = None
                         \<and> truthy_str (jget proposal ''appliedAt'') = None
                 then Inr (app_finish AppApplied Legitimate (app_remark NoContestWindow uri k))
                 else judge_application l lt inp repos communityRepo community rkey proposal k)))"

definition translate_load :: "problem \<Rightarrow> app_problem" where
  "translate_load p =
     \<lparr>ap_code = (if p_code p = ForgedSignature then AppForgedSignature else AppMissingEvidence),
      ap_uri = Option.bind (p_uri p) (\<lambda>u. if u = [] then None else Some u),
      ap_did = Option.bind (p_voter p) (\<lambda>v. if v = [] then None else Some v)\<rparr>"

definition verifyApplication ::
  "lib \<Rightarrow> (string \<Rightarrow> string \<Rightarrow> bool) \<Rightarrow> verify_app_input \<Rightarrow> exn + app_verdict" where
  "verifyApplication l lt inp =
     (let uri = ct_uri (ai_proposal inp); k0 = \<lparr>ak_problems = [], ak_notes = [], ak_summary = empty_app_summary\<rparr>;
          malformed = Inr (app_fail MalformedProposal (Some uri) None k0)
      in case parseAtUri (JStr uri) of
           None \<Rightarrow> malformed
         | Some loc \<Rightarrow>
           if al_collection loc \<noteq> PROPOSAL_COLLECTION then malformed
           else bindE (load_all l (did_docs (ai_didDocuments inp)) (ai_repos inp)
                         \<lparr>k_problems = [], k_notes = [], k_summary = empty_summary\<rparr>)
             (\<lambda>(repos, loads).
               (let k = k0\<lparr>ak_problems := map translate_load (k_problems loads),
                           ak_summary := (ak_summary k0)\<lparr>as_community := Some (al_repo loc), as_proposalRkey := Some (al_rkey loc)\<rparr>\<rparr>
                in case map_of repos (al_repo loc) of
                     None \<Rightarrow> Inr (app_fail AppMissingEvidence None (Some (al_repo loc)) k)
                   | Some communityRepo \<Rightarrow> verify_app_in_repo l lt inp repos communityRepo loc k)))"

subsection \<open>The same objections offline and online\<close>

definition holds_application :: "objection_ctx \<Rightarrow> vote_row \<Rightarrow> bool" where
  "holds_application ctx row \<longleftrightarrow> (\<exists>t. checkObjectionRecord (r_record row) ctx = ObjectionCountable t)"

definition held_objection :: "(string \<times> counted_objection) list \<Rightarrow> string \<Rightarrow> (string \<times> counted_objection) option" where
  "held_objection held did = map_option (\<lambda>o'. (co_createdAt o', o')) (map_of held did)"

definition row_objection :: "vote_row \<Rightarrow> counted_objection" where
  "row_objection row = objection_of row (created_at (r_record row))"

lemma objection_time: "checkObjectionRecord rec ctx = ObjectionCountable t \<Longrightarrow> t = created_at rec"
  by (auto simp: checkObjectionRecord_def Let_def split: if_splits)

interpretation objections: earliest_wins "[]" "objection_row ctx" held_objection "holds_application ctx" r_repo
    "\<lambda>row. created_at (r_record row)" row_objection
  for ctx
proof
  fix held :: "(string \<times> counted_objection) list" and row k
  show "held_objection (objection_row ctx held row) k =
      (if holds_application ctx row \<and> r_repo row = k
          \<and> (case held_objection held k of None \<Rightarrow> True | Some (b, _) \<Rightarrow> created_at (r_record row) < b)
       then Some (created_at (r_record row), row_objection row) else held_objection held k)"
    by (auto simp: held_objection_def objection_row_def holds_application_def row_objection_def objection_of_def
        dest: objection_time split: objection_eligibility.splits option.splits)
qed (simp add: held_objection_def)

text \<open>The same for the rows of the exports.\<close>

definition exported_objection :: "string \<Rightarrow> string \<Rightarrow> objection_ctx \<Rightarrow> string \<times> walk_entry \<Rightarrow> bool" where
  "exported_objection community rkey ctx row \<longleftrightarrow>
     (let e = snd row; rec = we_record e
      in we_collection e = OBJECTION_COLLECTION \<and> jget rec ''community'' = JStr community \<and> jget rec ''proposalRkey'' = JStr rkey
         \<and> (\<exists>t. checkObjectionRecord rec ctx = ObjectionCountable t))"

definition held_export :: "(string \<times> app_objection) list \<Rightarrow> string \<Rightarrow> (string \<times> app_objection) option" where
  "held_export held did = map_option (\<lambda>o'. (ao_createdAt o', o')) (map_of held did)"

abbreviation entry_time :: "string \<times> walk_entry \<Rightarrow> string" where
  "entry_time row \<equiv> created_at (we_record (snd row))"

interpretation exported: earliest_wins "[]" "app_objection_add community rkey ctx" held_export
    "exported_objection community rkey ctx" fst entry_time "\<lambda>row. app_objection_of row (entry_time row)"
  for community rkey ctx
proof
  fix held :: "(string \<times> app_objection) list" and row :: "string \<times> walk_entry" and k
  obtain did e where row: "row = (did, e)" by (cases row)
  show "held_export (app_objection_add community rkey ctx held row) k =
      (if exported_objection community rkey ctx row \<and> fst row = k
          \<and> (case held_export held k of None \<Rightarrow> True | Some (b, _) \<Rightarrow> entry_time row < b)
       then Some (entry_time row, app_objection_of row (entry_time row)) else held_export held k)"
    by (auto simp: row held_export_def app_objection_add_def exported_objection_def app_objection_of_def Let_def
        dest: objection_time split: objection_eligibility.splits option.splits)
qed (simp add: held_export_def)

definition index_objections :: "world \<Rightarrow> (string \<times> string \<times> jv) set" where
  "index_objections s = {(d, j, rec). \<exists>cid. ((d, OBJECTION_COLLECTION, j), (cid, rec)) \<in> set (w_index s)}"

definition export_objections :: "(string \<times> walk_entry) list \<Rightarrow> (string \<times> string \<times> jv) set" where
  "export_objections rows =
     {(did, we_rkey e, we_record e) | did e. (did, e) \<in> set rows \<and> we_collection e = OBJECTION_COLLECTION}"

text \<open>No other JSON value than the string itself has this text.\<close>

definition literal :: "env \<Rightarrow> string \<Rightarrow> bool" where
  "literal env x \<longleftrightarrow> (\<forall>v. json_text (e_text env) v = Some x \<longrightarrow> v = JStr x)"

lemma literal_iff: "literal env x \<Longrightarrow> json_text (e_text env) v = Some x \<longleftrightarrow> v = JStr x"
  by (auto simp: literal_def)

lemma set_record_rows:
  "set (record_rows env s coll c k) = {\<lparr>r_repo = d, r_rkey = j, r_cid = cid, r_record = rec\<rparr> | d j cid rec.
     ((d, coll, j), (cid, rec)) \<in> set (w_index s) \<and> json_text (e_text env) (jget rec ''community'') = Some c \<and>
     json_text (e_text env) (jget rec ''proposalRkey'') = Some k}"
  unfolding record_rows_def by (auto simp: image_iff)

lemma objection_keys:
  assumes "literal env c" "literal env k" "export_objections rows = index_objections s"
  shows "{(fst row, entry_time row) | row. row \<in> set rows \<and> exported_objection c k ctx row} =
    {(r_repo row, created_at (r_record row)) | row. row \<in> set (record_rows env s OBJECTION_COLLECTION c k) \<and> holds_application ctx row}"
    (is "?E = ?I")
proof -
  let ?P = "\<lambda>rec. jget rec ''community'' = JStr c \<and> jget rec ''proposalRkey'' = JStr k \<and>
     (\<exists>t. checkObjectionRecord rec ctx = ObjectionCountable t)"
  have "?E = {(d, created_at rec) | d j rec. (d, j, rec) \<in> export_objections rows \<and> ?P rec}"
    by (fastforce simp: export_objections_def exported_objection_def Let_def)
  also have "\<dots> = {(d, created_at rec) | d j rec. (d, j, rec) \<in> index_objections s \<and> ?P rec}"
    using assms(3) by simp
  also have "\<dots> = ?I"
    by (auto simp: index_objections_def set_record_rows holds_application_def literal_iff [OF assms(1)] literal_iff [OF assms(2)])
       (metis vote_row.select_convs, blast)
  finally show ?thesis .
qed

lemma map_values:
  assumes "distinct (map fst al)"
  shows "{f v | v. v \<in> set (map snd al)} = {f v | k v. map_of al k = Some v}" "length al = card {k. map_of al k \<noteq> None}"
proof -
  show "{f v | v. v \<in> set (map snd al)} = {f v | k v. map_of al k = Some v}"
    using assms by (force simp: map_of_eq_Some_iff)
  have "{k. map_of al k \<noteq> None} = fst ` set al" by (auto simp: map_of_eq_None_iff)
  then show "length al = card {k. map_of al k \<noteq> None}"
    using distinct_card [OF assms] by simp
qed

lemma objections_scan_keys: "distinct (map fst (objections_scan ctx rows))"
  unfolding objections_scan_def
  by (induction rows rule: rev_induct) (auto simp: objection_row_def split: objection_eligibility.split)

lemma exported_scan_keys: "distinct (map fst (foldl (app_objection_add c k ctx) [] rows))"
  by (induction rows rule: rev_induct) (auto simp: app_objection_add_def Let_def split: objection_eligibility.split)

lemma objections_scan_eq: "objections_scan ctx rows = objections.scan ctx rows"
  by (simp add: objections_scan_def objections.scan_def)

lemma held_objector:
  "map_of (objections_scan ctx rows) did = Some o' \<Longrightarrow> co_objector o' = did"
  "map_of (foldl (app_objection_add c k ctx) [] erows) did = Some x \<Longrightarrow> ao_objector x = did"
proof -
  assume "map_of (objections_scan ctx rows) did = Some o'"
  then have "held_objection (objections.scan ctx rows) did = Some (co_createdAt o', o')"
    by (simp add: held_objection_def objections_scan_eq)
  from objections.scan_Some [OF this] show "co_objector o' = did"
    by (auto simp: row_objection_def objection_of_def)
next
  assume "map_of (foldl (app_objection_add c k ctx) [] erows) did = Some x"
  then have "held_export (exported.scan c k ctx erows) did = Some (ao_createdAt x, x)"
    by (simp add: held_export_def exported.scan_def)
  from exported.scan_Some [OF this] obtain r where "fst r = did" "app_objection_of r (entry_time r) = x" by blast
  then show "ao_objector x = did" by (auto simp: app_objection_of_def split: prod.splits)
qed

lemma counted_alike:
  assumes "literal env communityDid" "literal env proposalRkey"
    and "export_rows (map snd repos) = Inr rows" "export_objections rows = index_objections s"
    and "countObjections lt repos communityDid proposalRkey ctx = Inr offline"
  defines "online \<equiv> objections_of env ctx (record_rows env s OBJECTION_COLLECTION communityDid proposalRkey)"
  shows "length offline = length online"
    "{(ao_objector x, ao_createdAt x) | x. x \<in> set offline} = {(co_objector x, co_createdAt x) | x. x \<in> set online}"
proof -
  let ?off = "foldl (app_objection_add communityDid proposalRkey ctx) [] rows"
  let ?on = "objections_scan ctx (record_rows env s OBJECTION_COLLECTION communityDid proposalRkey)"
  have "offline = sort_lt (\<lambda>a b. lt (ao_createdAt a) (ao_createdAt b)) (map snd ?off)"
    using assms(3,5) by (simp add: countObjections_def)
  then have off: "set offline = set (map snd ?off)" "length offline = length ?off" by simp_all
  have on: "set online = set (map snd ?on)" "length online = length ?on"
    by (simp_all add: online_def objections_of_def)
  have time: "map_option ao_createdAt (map_of ?off d) = map_option co_createdAt (map_of ?on d)" for d
    using exported.scan_order [of communityDid proposalRkey ctx rows d]
      objections.scan_order [of ctx "record_rows env s OBJECTION_COLLECTION communityDid proposalRkey" d]
      objection_keys [OF assms(1,2,4), of ctx]
    by (simp add: held_export_def held_objection_def exported.scan_def objections_scan_eq option.map_comp comp_def)
  then have "map_of ?off d = None \<longleftrightarrow> map_of ?on d = None" for d
    by (metis map_option_is_None)
  then show "length offline = length online"
    by (simp add: off on map_values(2) [OF exported_scan_keys] map_values(2) [OF objections_scan_keys])
  have "{(ao_objector x, ao_createdAt x) | x. x \<in> set offline} =
      {(d, t). map_option ao_createdAt (map_of ?off d) = Some t}"
    unfolding off map_values(1) [OF exported_scan_keys, of "\<lambda>x. (ao_objector x, ao_createdAt x)"]
    using held_objector(2) by fastforce
  moreover have "{(co_objector x, co_createdAt x) | x. x \<in> set online} =
      {(d, t). map_option co_createdAt (map_of ?on d) = Some t}"
    unfolding on map_values(1) [OF objections_scan_keys, of "\<lambda>x. (co_objector x, co_createdAt x)"]
    using held_objector(1) by fastforce
  ultimately show "{(ao_objector x, ao_createdAt x) | x. x \<in> set offline} = {(co_objector x, co_createdAt x) | x. x \<in> set online}"
    by (simp add: time)
qed

text \<open>
  C15. The offline verifier and the server count the same objections: on exports that hold the
  objection records of the index, they find the same objectors, each with the same earliest
  countable objection time, so the same number.
\<close>

theorem objections_counted_alike:
  assumes "literal env communityDid" "literal env proposalRkey"
    and "export_rows (map snd repos) = Inr rows" "export_objections rows = index_objections s"
    and "countObjections lt repos communityDid proposalRkey ctx = Inr offline"
  defines "online \<equiv> objections_of env ctx (record_rows env s OBJECTION_COLLECTION communityDid proposalRkey)"
  shows "length offline = length online \<and>
    {(ao_objector x, ao_createdAt x) | x. x \<in> set offline} = {(co_objector x, co_createdAt x) | x. x \<in> set online}"
  using counted_alike [OF assms(1-5)] by (simp add: online_def)

subsection \<open>What the server applied, the verifier accepts\<close>

text \<open>
  The exports show the world \<open>s\<close>: they load without a problem, hold the cited record \<open>p\<close> of the
  proposal and the community's settings, and among them the objection records of the index.
\<close>

definition exports_show ::
  "lib \<Rightarrow> verify_app_input \<Rightarrow> string \<Rightarrow> string \<Rightarrow> world \<Rightarrow> jv \<Rightarrow> jv \<Rightarrow> bool" where
  "exports_show l inp c k s p settings \<longleftrightarrow>
     parseAtUri (JStr (ct_uri (ai_proposal inp))) = Some \<lparr>al_repo = c, al_collection = PROPOSAL_COLLECTION, al_rkey = k\<rparr> \<and>
     (\<exists>repos loads communityRepo rows st.
        load_all l (did_docs (ai_didDocuments inp)) (ai_repos inp) \<lparr>k_problems = [], k_notes = [], k_summary = empty_summary\<rparr>
          = Inr (repos, loads) \<and> k_problems loads = [] \<and> map_of repos c = Some communityRepo \<and>
        locateRecord l communityRepo PROPOSAL_COLLECTION k = Inr (Some (ct_cid (ai_proposal inp), p)) \<and>
        locateRecord l communityRepo SETTINGS_COLLECTION ''self'' = Inr st \<and>
        settings = (case st of None \<Rightarrow> JUndef | Some (_, v) \<Rightarrow> v) \<and>
        export_rows (map snd repos) = Inr rows \<and> export_objections rows = index_objections s)"

lemma app_finish_clean:
  "ak_problems k = [] \<Longrightarrow> av_code (app_finish code status k) = code"
  "ak_problems k = [] \<Longrightarrow> av_status (app_finish code status k) = status"
  by (simp_all add: app_finish_def)

lemma app_fail_clean: "ak_problems k = [] \<Longrightarrow> av_code (app_fail code uri did k) = AppFailed code"
  by (simp add: app_fail_def app_finish_def app_blame_def)

lemma threshold_read:
  assumes "as_threshold (ak_summary k) = objectionThreshold JUndef"
  shows "as_threshold (ak_summary (note_objections uri os n (read_threshold c st k))) =
      objectionThreshold (case st of None \<Rightarrow> JUndef | Some (_, v) \<Rightarrow> v)"
    and "ak_problems (note_objections uri os n (read_threshold c st k)) = ak_problems k"
  using assms by (auto simp: note_objections_def read_threshold_def app_remark_def Let_def split: option.split)

text \<open>The verdict on an applied proposal, in terms of the objections counted offline.\<close>

lemma applied_judgement:
  assumes ex: "exports_show l inp c k s p settings" and lit: "literal env c" "literal env k"
    and p: "jget p ''status'' = JStr ''approved''" "jget p ''applyAt'' = JStr a" "a \<noteq> []"
      "jget p ''appliedAt'' = JStr t" "t \<noteq> []" "a \<le> t"
  shows "\<exists>v n. verifyApplication l lt inp = Inr v \<and>
    n = (case application_ctx c k p of None \<Rightarrow> 0
         | Some ctx \<Rightarrow> length (objections_of env ctx (record_rows env s OBJECTION_COLLECTION c k))) \<and>
    (if objectionThreshold settings \<le> int n then av_code v = AppFailed AppliedOverObjection
     else av_code v = AppApplied \<and> av_status v = Legitimate)"
proof -
  from ex obtain repos loads communityRepo rows st where
    load: "load_all l (did_docs (ai_didDocuments inp)) (ai_repos inp) \<lparr>k_problems = [], k_notes = [], k_summary = empty_summary\<rparr>
          = Inr (repos, loads)" "k_problems loads = []" "map_of repos c = Some communityRepo"
    and loc: "parseAtUri (JStr (ct_uri (ai_proposal inp))) = Some \<lparr>al_repo = c, al_collection = PROPOSAL_COLLECTION, al_rkey = k\<rparr>"
      "locateRecord l communityRepo PROPOSAL_COLLECTION k = Inr (Some (ct_cid (ai_proposal inp), p))"
      "locateRecord l communityRepo SETTINGS_COLLECTION ''self'' = Inr st"
      "settings = (case st of None \<Rightarrow> JUndef | Some (_, v) \<Rightarrow> v)"
    and rows: "export_rows (map snd repos) = Inr rows" "export_objections rows = index_objections s"
    unfolding exports_show_def by blast
  let ?uri = "ct_uri (ai_proposal inp)"
  let ?os = "case application_ctx c k p of Some ctx \<Rightarrow> countObjections lt repos c k ctx | None \<Rightarrow> Inr []"
  let ?n = "case application_ctx c k p of None \<Rightarrow> 0
         | Some ctx \<Rightarrow> length (objections_of env ctx (record_rows env s OBJECTION_COLLECTION c k))"
  obtain os where os: "?os = Inr os" "length os = ?n"
  proof (cases "application_ctx c k p")
    case None
    then show ?thesis by (intro that) simp_all
  next
    case (Some ctx)
    obtain xs where xs: "countObjections lt repos c k ctx = Inr xs" using rows(1) by (simp add: countObjections_def)
    from counted_alike(1) [OF lit rows xs] Some xs show ?thesis by (intro that) simp_all
  qed
  let ?k0 = "summarize_proposal p \<lparr>ak_problems = [], ak_notes = [],
      ak_summary = empty_app_summary\<lparr>as_community := Some c, as_proposalRkey := Some k\<rparr>\<rparr>"
  let ?K = "note_objections ?uri os (length (arr_or_nil (jget p ''objections''))) (read_threshold c st ?k0)"
  have t: "as_threshold (ak_summary ?K) = objectionThreshold settings" and "ak_problems ?K = []"
    by (simp_all add: threshold_read summarize_proposal_def empty_app_summary_def Let_def loc(4))
  moreover have "verifyApplication l lt inp = Inr (applied_verdict ?uri t (Some a) (objectionThreshold settings \<le> int (length os)) ?K)"
    using p load loc(1-3) os(1)
    by (simp add: verifyApplication_def verify_app_in_repo_def judge_application_def truthy_str_def Let_def
        OBJECTED_STATUS_def OVERRIDE_STATUS_def t)
  ultimately show ?thesis
    using p(6) os(2) by (auto simp: applied_verdict_def app_fail_clean app_finish_clean not_less)
qed

text \<open>The context of the objections is the one the server used.\<close>

lemma truthy_str_clean [simp]: "truthy_str (json_clean v) = truthy_str v"
  by (cases v) (auto simp: truthy_str_def split: jnum.split)

lemma is_obj_clean [simp]: "is_obj (json_clean v) = is_obj v"
  by (cases v) (auto split: jnum.split)

lemma application_ctx_cong:
  assumes "\<And>f. f \<in> {''decision'', ''resolvedAt'', ''applyAt''} \<Longrightarrow> jget p f = jget q f"
  shows "application_ctx c k p = application_ctx c k q"
  using assms by (simp add: application_ctx_def)

lemma application_ctx_clean:
  assumes "keys_distinct q" "keys_distinct (jget q ''decision'')"
  shows "application_ctx c k (json_clean q) = application_ctx c k q"
proof -
  have q: "jget (json_clean q) f = json_clean (jget q f)" for f
    using assms(1) by (simp add: keys_distinct_def jget_json_clean)
  have d: "jget (json_clean (jget q ''decision'')) f = json_clean (jget (jget q ''decision'') f)" for f
    using assms(2) by (simp add: keys_distinct_def jget_json_clean)
  show ?thesis
    by (cases "is_obj (jget q ''decision'')") (simp_all add: application_ctx_def q d Let_def cong del: option.case_cong_weak)
qed

lemma application_ctx_server:
  assumes "application_ctx c k p = Some ctx"
  shows "objection_ctx_of c k p = Some ctx"
  using assms
  by (auto simp: application_ctx_def objection_ctx_of_def truthy_str_def Let_def split: if_splits jv.splits)

lemma applied_record:
  assumes "applyLocked env c k now s = (Inr Applied, s')" "keys_distinct (record_or_null (proposal_at s c k))"
    and "keys_distinct (jget (record_or_null (proposal_at s c k)) ''decision'')"
    and "(target_coll env (record_or_null (proposal_at s c k)), target_rkey env (record_or_null (proposal_at s c k)))
      \<noteq> (PROPOSAL_COLLECTION, k)"
    and "proposal_at s' c k = Some (x, p)"
  obtains a where "jget p ''status'' = JStr ''approved''" "jget p ''applyAt'' = JStr a" "a \<noteq> []" "a \<le> iso now"
    "jget p ''appliedAt'' = JStr (iso now)" "\<not> held_up env s c k (record_or_null (proposal_at s c k))"
    "application_ctx c k p = application_ctx c k (record_or_null (proposal_at s c k))"
proof -
  let ?q = "record_or_null (proposal_at s c k)"
  have "window_step env c k now s (Inr Applied) s'" using runs_applyLocked assms(1) by (rule runsD)
  then obtain proposal a where d: "due s c k now proposal a" "\<not> held_up env s c k proposal"
    "batch_indexed env c (change_batch env s c k now proposal) s s'" by (auto elim: window_step_Applied)
  then have q: "proposal = ?q" by (simp add: due_def)
  let ?r = "stored_proposal s c k (applied_state ?q (iso now))"
  from applied_is_indexed [OF d(3)] assms(4,5) q have p: "p = json_clean ?r" by auto
  have keys: "keys_distinct ?r"
    using assms(2) by (simp add: stored_proposal_def applied_state_def keys_distinct_jassign)
  have get: "jget p f = json_clean (jget (applied_state ?q (iso now)) f)" if "f \<noteq> ''cidChain''" for f
    using keys that by (simp add: p jget_json_clean keys_distinct_def stored_proposal_def)
  have "application_ctx c k p = application_ctx c k ?r"
    unfolding p using keys assms(3)
    by (intro application_ctx_clean) (simp_all add: stored_proposal_def applied_state_def)
  also have "\<dots> = application_ctx c k ?q"
    by (rule application_ctx_cong) (auto simp: stored_proposal_def applied_state_def)
  finally show thesis
    using d(1,2) q by (intro that [of a]) (simp_all add: get due_def applied_state_def)
qed

text \<open>
  C13. What the server applied, the offline verifier accepts: on exports that show the objections the
  server had, with the threshold it used, the verdict on the applied proposal is \<open>applied\<close>.
\<close>

theorem honest_application_verifies:
  assumes "applyLocked env c k now s = (Inr Applied, s')" "keys_distinct (record_or_null (proposal_at s c k))"
    and "keys_distinct (jget (record_or_null (proposal_at s c k)) ''decision'')"
    and "(target_coll env (record_or_null (proposal_at s c k)), target_rkey env (record_or_null (proposal_at s c k)))
      \<noteq> (PROPOSAL_COLLECTION, k)"
    and "proposal_at s' c k = Some (x, p)" "literal env c" "literal env k" "exports_show l inp c k s p settings"
    and "objectionThreshold settings = objectionThreshold (settings_of s c)"
  shows "\<exists>v. verifyApplication l lt inp = Inr v \<and> av_code v = AppApplied \<and> av_status v = Legitimate"
proof -
  let ?q = "record_or_null (proposal_at s c k)"
  from applied_record [OF assms(1-5)] obtain a where a: "jget p ''status'' = JStr ''approved''"
    "jget p ''applyAt'' = JStr a" "a \<noteq> []" "jget p ''appliedAt'' = JStr (iso now)" "iso now \<noteq> []" "a \<le> iso now"
    "\<not> held_up env s c k ?q" "application_ctx c k p = application_ctx c k ?q" by (metis iso_not_nil)
  from applied_judgement [OF assms(8,6,7) a(1-6), of lt] obtain v where v: "verifyApplication l lt inp = Inr v"
    "if objectionThreshold settings \<le> int (case application_ctx c k p of None \<Rightarrow> 0
         | Some ctx \<Rightarrow> length (objections_of env ctx (record_rows env s OBJECTION_COLLECTION c k)))
     then av_code v = AppFailed AppliedOverObjection else av_code v = AppApplied \<and> av_status v = Legitimate" by blast
  have "0 < objectionThreshold settings"
    by (auto simp: objectionThreshold_def DEFAULT_OBJECTION_THRESHOLD_def split: jv.split jnum.split)
  moreover have "length (objections_at env s c k ?q) = length (objections_of env ctx (record_rows env s OBJECTION_COLLECTION c k))"
    if "application_ctx c k p = Some ctx" for ctx
    using application_ctx_server [of c k ?q ctx] that a(8) by (simp add: objections_at_def)
  ultimately have "\<not> objectionThreshold settings \<le> int (case application_ctx c k p of None \<Rightarrow> 0
         | Some ctx \<Rightarrow> length (objections_of env ctx (record_rows env s OBJECTION_COLLECTION c k)))"
    using a(7) assms(9) by (auto simp: held_up_def split: option.split)
  with v show ?thesis by simp
qed

text \<open>
  An honest application is accused when the settings in the export have a lower threshold than
  those it was applied under, whether this change or a later one lowered it: objections that were
  too few when the change was applied count as a hold that was overridden.
\<close>

theorem lowered_threshold_accuses:
  assumes "applyLocked env c k now s = (Inr Applied, s')" "keys_distinct (record_or_null (proposal_at s c k))"
    and "keys_distinct (jget (record_or_null (proposal_at s c k)) ''decision'')"
    and "(target_coll env (record_or_null (proposal_at s c k)), target_rkey env (record_or_null (proposal_at s c k)))
      \<noteq> (PROPOSAL_COLLECTION, k)"
    and "proposal_at s' c k = Some (x, p)" "literal env c" "literal env k" "exports_show l inp c k s p settings"
    and "application_ctx c k (record_or_null (proposal_at s c k)) \<noteq> None"
    and "objectionThreshold settings \<le> int (length (objections_at env s c k (record_or_null (proposal_at s c k))))"
  shows "\<exists>v. verifyApplication l lt inp = Inr v \<and> av_code v = AppFailed AppliedOverObjection"
proof -
  let ?q = "record_or_null (proposal_at s c k)"
  from applied_record [OF assms(1-5)] obtain a where a: "jget p ''status'' = JStr ''approved''"
    "jget p ''applyAt'' = JStr a" "a \<noteq> []" "jget p ''appliedAt'' = JStr (iso now)" "iso now \<noteq> []" "a \<le> iso now"
    "application_ctx c k p = application_ctx c k ?q" by (metis iso_not_nil)
  from assms(9) a(7) obtain ctx where ctx: "application_ctx c k p = Some ctx" by auto
  with application_ctx_server [of c k ?q ctx] a(7) have "objection_ctx_of c k ?q = Some ctx" by simp
  with assms(10) have "objectionThreshold settings \<le>
      int (length (objections_of env ctx (record_rows env s OBJECTION_COLLECTION c k)))"
    by (simp add: objections_at_def)
  with applied_judgement [OF assms(8,6,7) a(1-6), of lt] ctx show ?thesis by auto
qed

subsection \<open>What an applied verdict rests on\<close>

lemma app_finish_code: "av_code (app_finish code status k) = AppApplied \<longleftrightarrow> ak_problems k = [] \<and> code = AppApplied"
proof (cases "sort_lt (\<lambda>a b. app_severity (ap_code a) < app_severity (ap_code b)) (ak_problems k)")
  case Nil
  then have "ak_problems k = []" by (metis length_sort_lt length_0_conv)
  with Nil show ?thesis by (simp add: app_finish_def)
next
  case (Cons p ps)
  then have "ak_problems k \<noteq> []" by (metis sort_lt_Nil list.distinct(1))
  with Cons show ?thesis by (simp add: app_finish_def)
qed

lemma app_fail_code: "av_code (app_fail code uri did k) \<noteq> AppApplied"
  by (simp add: app_fail_def app_finish_code)

lemma truthy_str_Some: "truthy_str v = Some x \<longleftrightarrow> v = JStr x \<and> x \<noteq> []"
  by (auto simp: truthy_str_def split: jv.split)

lemma other_verdicts:
  "av_code (override_verdict inp p held con k) \<noteq> AppApplied" "av_code (objected_verdict uri held con k) \<noteq> AppApplied"
  "av_code (pending_verdict asOf a k) \<noteq> AppApplied"
  by (auto simp: override_verdict_def objected_verdict_def pending_verdict_def Let_def app_finish_code app_fail_code
      split: option.split)

lemma applied_verdict_code:
  "av_code (applied_verdict uri t a held k) = AppApplied \<longleftrightarrow>
   ak_problems k = [] \<and> (\<forall>x. a = Some x \<longrightarrow> x \<le> t) \<and> \<not> held"
  by (auto simp: applied_verdict_def app_finish_code app_fail_code not_less split: option.splits)

definition window_respected :: "lib \<Rightarrow> (string \<Rightarrow> string \<Rightarrow> bool) \<Rightarrow> (string \<times> loaded_repo) list \<Rightarrow> loaded_repo \<Rightarrow> string \<Rightarrow> string \<Rightarrow> jv \<Rightarrow> bool" where
  "window_respected l lt repos communityRepo c k p \<longleftrightarrow>
     (\<exists>t st os. truthy_str (jget p ''appliedAt'') = Some t \<and> (\<forall>a. truthy_str (jget p ''applyAt'') = Some a \<longrightarrow> a \<le> t) \<and>
        locateRecord l communityRepo SETTINGS_COLLECTION ''self'' = Inr st \<and>
        (case application_ctx c k p of None \<Rightarrow> os = [] | Some ctx \<Rightarrow> countObjections lt repos c k ctx = Inr os) \<and>
        int (length os) < objectionThreshold (case st of None \<Rightarrow> JUndef | Some (_, v) \<Rightarrow> v))"

lemma judged_applied:
  assumes "judge_application l lt inp repos communityRepo c k p K = Inr v" "av_code v = AppApplied"
    "as_threshold (ak_summary K) = objectionThreshold JUndef"
  shows "ak_problems K = [] \<and> window_respected l lt repos communityRepo c k p"
proof -
  let ?uri = "ct_uri (ai_proposal inp)"
  from assms(1) obtain st os where st: "locateRecord l communityRepo SETTINGS_COLLECTION ''self'' = Inr st"
    and os: "(case application_ctx c k p of Some ctx \<Rightarrow> countObjections lt repos c k ctx | None \<Rightarrow> Inr []) = Inr os"
    unfolding judge_application_def Let_def bindE_Inr_iff by blast
  let ?K = "note_objections ?uri os (length (arr_or_nil (jget p ''objections''))) (read_threshold c st K)"
  let ?held = "objectionThreshold (case st of None \<Rightarrow> JUndef | Some (_, v) \<Rightarrow> v) \<le> int (length os)"
  from assms(1) st os have "\<exists>t. truthy_str (jget p ''appliedAt'') = Some t \<and>
      v = applied_verdict ?uri t (truthy_str (jget p ''applyAt'')) ?held ?K"
    using other_verdicts assms(2)
    by (auto simp: judge_application_def Let_def threshold_read [OF assms(3)] app_finish_code split: if_splits option.splits)
  then obtain t where t: "truthy_str (jget p ''appliedAt'') = Some t"
    "v = applied_verdict ?uri t (truthy_str (jget p ''applyAt'')) ?held ?K" by blast
  with assms(2) have "ak_problems ?K = []" "\<forall>a. truthy_str (jget p ''applyAt'') = Some a \<longrightarrow> a \<le> t" "\<not> ?held"
    by (simp_all add: applied_verdict_code)
  with t(1) st os threshold_read(2) [OF assms(3)] show ?thesis
    unfolding window_respected_def by (intro conjI exI [of _ t] exI [of _ st] exI [of _ os]) (auto split: option.splits)
qed

text \<open>
  C14. What an \<open>applied\<close> verdict rests on: every export is signed by the repository it is of, the cited
  record is the one in the community's repository, and either no contest window was published
  with it, or it was applied no earlier than published and with fewer countable objections than
  the community's threshold.
\<close>

theorem applied_verdict_sound:
  assumes "verifyApplication l lt inp = Inr v" "av_code v = AppApplied"
  shows "\<exists>c k repos loads communityRepo p.
    parseAtUri (JStr (ct_uri (ai_proposal inp))) = Some \<lparr>al_repo = c, al_collection = PROPOSAL_COLLECTION, al_rkey = k\<rparr> \<and>
    load_all l (did_docs (ai_didDocuments inp)) (ai_repos inp) \<lparr>k_problems = [], k_notes = [], k_summary = empty_summary\<rparr>
      = Inr (repos, loads) \<and> (\<forall>ld \<in> snd ` set repos. ld_verified ld) \<and> map_of repos c = Some communityRepo \<and>
    locateRecord l communityRepo PROPOSAL_COLLECTION k = Inr (Some (ct_cid (ai_proposal inp), p)) \<and>
    (jget p ''status'' = JStr ''approved'' \<and> truthy_str (jget p ''applyAt'') = None \<and> truthy_str (jget p ''appliedAt'') = None
     \<or> window_respected l lt repos communityRepo c k p)"
proof -
  let ?uri = "ct_uri (ai_proposal inp)" and ?e = "\<lparr>k_problems = [], k_notes = [], k_summary = empty_summary\<rparr>"
  from assms obtain loc where loc: "parseAtUri (JStr ?uri) = Some loc" "al_collection loc = PROPOSAL_COLLECTION"
    by (auto simp: verifyApplication_def Let_def app_fail_code split: option.splits if_splits)
  then have at: "loc = \<lparr>al_repo = al_repo loc, al_collection = PROPOSAL_COLLECTION, al_rkey = al_rkey loc\<rparr>" by simp
  from assms(1) loc obtain repos loads where load: "load_all l (did_docs (ai_didDocuments inp)) (ai_repos inp) ?e = Inr (repos, loads)"
    by (auto simp: verifyApplication_def Let_def bindE_Inr_iff)
  let ?K = "\<lparr>ak_problems = map translate_load (k_problems loads), ak_notes = [],
      ak_summary = empty_app_summary\<lparr>as_community := Some (al_repo loc), as_proposalRkey := Some (al_rkey loc)\<rparr>\<rparr>"
  from assms loc load obtain communityRepo where r: "map_of repos (al_repo loc) = Some communityRepo"
    "verify_app_in_repo l lt inp repos communityRepo loc ?K = Inr v"
    by (auto simp: verifyApplication_def Let_def app_fail_code split: option.splits)
  from r(2) obtain rr where rr: "locateRecord l communityRepo PROPOSAL_COLLECTION (al_rkey loc) = Inr rr"
    unfolding verify_app_in_repo_def Let_def bindE_Inr_iff by blast
  have "rr \<noteq> None"
  proof
    assume "rr = None"
    with r(2) rr assms(2) show False by (auto simp: verify_app_in_repo_def Let_def app_fail_code)
  qed
  then obtain cid p where cp: "rr = Some (cid, p)" by auto
  have "cid = ct_cid (ai_proposal inp)"
  proof (rule ccontr)
    assume "cid \<noteq> ct_cid (ai_proposal inp)"
    with r(2) rr cp assms(2) show False by (auto simp: verify_app_in_repo_def Let_def app_fail_code)
  qed
  with rr cp have p: "locateRecord l communityRepo PROPOSAL_COLLECTION (al_rkey loc) = Inr (Some (ct_cid (ai_proposal inp), p))"
    by simp
  let ?S = "summarize_proposal p ?K"
  have S: "ak_problems ?S = ak_problems ?K" "as_threshold (ak_summary ?S) = objectionThreshold JUndef"
    by (simp_all add: summarize_proposal_def empty_app_summary_def Let_def)
  have "ak_problems ?K = [] \<and>
     (jget p ''status'' = JStr ''approved'' \<and> truthy_str (jget p ''applyAt'') = None \<and> truthy_str (jget p ''appliedAt'') = None
     \<or> window_respected l lt repos communityRepo (al_repo loc) (al_rkey loc) p)"
  proof (cases "judge_application l lt inp repos communityRepo (al_repo loc) (al_rkey loc) p ?S = Inr v")
    case True
    from judged_applied [OF this assms(2) S(2)] S(1) show ?thesis by simp
  next
    case False
    let ?none = "truthy_str (jget p ''status'') = Some ''approved'' \<and> truthy_str (jget p ''applyAt'') = None
       \<and> truthy_str (jget p ''appliedAt'') = None"
    have "v = app_finish NothingToApply Legitimate ?S \<or> ?none \<and> v = app_finish AppApplied Legitimate (app_remark NoContestWindow ?uri ?S)"
      using r(2) False unfolding verify_app_in_repo_def Let_def p bindE.simps option.case prod.case
      by (simp only: refl not_True_eq_False if_False) (metis sum.inject(2))
    with assms(2) have "?none \<and> ak_problems ?S = []" by (auto simp: app_finish_code app_remark_def)
    with S(1) show ?thesis by (auto simp: truthy_str_Some)
  qed
  moreover from this have "\<forall>ld \<in> snd ` set repos. ld_verified ld"
    using load_all_verified [OF load] by simp
  ultimately show ?thesis
    using load r(1) p loc(1) at by (intro exI conjI) (auto intro: exI)
qed

subsection \<open>A contested change that was applied\<close>

text \<open>One objection, in time, against a threshold of two.\<close>

definition one_objection :: jv where
  "one_objection = JObj
     [(''community'', JStr ''d''), (''proposal'', strong_ref (proposalUri ''d'' ''p'') ''cid''),
      (''proposalCollection'', JStr PROPOSAL_COLLECTION), (''proposalRkey'', JStr ''p''),
      (''decision'', strong_ref ''at://decision'' ''cid''), (''createdAt'', JStr (iso 1767150000000))]"

definition threshold_settings :: "int \<Rightarrow> jv" where
  "threshold_settings n = JObj [(''governanceConfig'', JObj [(''objectionThreshold'', JNum (Fin (of_int n)))])]"

definition contested_world :: world where
  "contested_world = due_world\<lparr>w_index := w_index due_world @
     [((''o'', OBJECTION_COLLECTION, ''x''), (''ocid'', one_objection)),
      ((''d'', SETTINGS_COLLECTION, ''self''), (''scid'', threshold_settings 2))]\<rparr>"

definition sample_export :: "jv \<Rightarrow> jv \<Rightarrow> lib" where
  "sample_export p settings =
     \<lparr>l_load = (\<lambda>_ root. Inr \<lparr>lr_did = root,
        lr_get = (\<lambda>key. Inr (if key = joined_key PROPOSAL_COLLECTION ''p'' then Some ''pc''
           else if key = joined_key SETTINGS_COLLECTION ''self'' then Some ''sc'' else None)),
        lr_walk = Inr (if root = ''o'' then [\<lparr>we_collection = OBJECTION_COLLECTION, we_rkey = ''x'', we_cid = ''ocid'',
           we_record = one_objection\<rparr>] else [])\<rparr>),
      l_getKey = (\<lambda>_. Inr (Some ''key'')), l_verifySig = (\<lambda>_ _. Inr True),
      l_decode = (\<lambda>b. Inr (if b = ''pc'' then p else settings)),
      l_cid = (\<lambda>v. Inr (if v = p then ''pc'' else ''sc'')), l_text = (\<lambda>_. ''?'')\<rparr>"

definition sample_proof :: "string \<Rightarrow> repo_proof" where
  "sample_proof did = \<lparr>pf_did = did, pf_commit = did, pf_blocks = (\<lambda>c. Some c)\<rparr>"

definition sample_application :: verify_app_input where
  "sample_application = \<lparr>ai_proposal = \<lparr>ct_uri = at_uri ''d'' PROPOSAL_COLLECTION ''p'', ct_cid = ''pc'', ct_value = JNull\<rparr>,
     ai_repos = [sample_proof ''d'', sample_proof ''o''],
     ai_didDocuments = [JObj [(''id'', JStr ''d'')], JObj [(''id'', JStr ''o'')]], ai_asOf = None\<rparr>"

definition contested_run :: "(exn + apply_outcome) \<times> world" where
  "contested_run = applyLocked sample_env ''d'' ''p'' 1767225600000 contested_world"

lemma contested_tables [simp]:
  "proposal_at contested_world ''d'' ''p'' = Some (''cid'', due_proposal)"
  "settings_of contested_world ''d'' = threshold_settings 2"
  "w_repos contested_world = w_repos due_world"
  by (simp_all add: proposal_at_def settings_of_def indexed_def contested_world_def due_world_def)

lemma contested_threshold [simp]: "objectionThreshold (threshold_settings 2) = 2" "objectionThreshold (threshold_settings 1) = 1"
  by (simp_all add: objectionThreshold_def threshold_settings_def governance_config_def)

lemma contested_ctx:
  "objection_ctx_of ''d'' ''p'' due_proposal = Some \<lparr>oc_proposalUri = proposalUri ''d'' ''p'', oc_decisionUri = ''at://decision'',
     oc_decisionCid = ''cid'', oc_resolvedAt = iso 1767100000000, oc_applyAt = iso 1767186400000\<rparr>"
  by (simp add: objection_ctx_of_def strong_ref_def)

lemma contested_rows [simp]: "record_rows sample_env contested_world OBJECTION_COLLECTION ''d'' ''p'' =
   [\<lparr>r_repo = ''o'', r_rkey = ''x'', r_cid = ''ocid'', r_record = one_objection\<rparr>]"
  by (simp add: record_rows_def contested_world_def due_world_def one_objection_def)

lemma contested_times: "\<not> iso 1767150000000 < iso 1767100000000" "\<not> iso 1767186400000 \<le> iso 1767150000000"
  by (subst iso_less; simp add: min_4digit_def max_4digit_def) (subst iso_le; simp add: min_4digit_def max_4digit_def)

lemma one_objection_countable:
  "checkObjectionRecord one_objection \<lparr>oc_proposalUri = proposalUri ''d'' ''p'', oc_decisionUri = ''at://decision'',
     oc_decisionCid = ''cid'', oc_resolvedAt = iso 1767100000000, oc_applyAt = iso 1767186400000\<rparr> =
   ObjectionCountable (iso 1767150000000)"
  using contested_times by (simp add: checkObjectionRecord_def one_objection_def created_at_def strong_ref_def Let_def)

lemma contested_objections: "length (objections_at sample_env contested_world ''d'' ''p'' due_proposal) = 1"
  by (simp add: objections_at_def contested_ctx objections_of_def objections_scan_def objection_row_def one_objection_countable)

lemma contested_held: "countableObjections sample_env ''d'' ''p'' due_proposal (contested_world\<lparr>w_ops := n\<rparr>) =
   (Inr (objections_at sample_env contested_world ''d'' ''p'' due_proposal), contested_world\<lparr>w_ops := Suc n\<rparr>)"
  by (simp add: countableObjections_def contested_ctx run_simps objections_at_def)

lemma sample_keys [simp]:
  "joined_key SETTINGS_COLLECTION ''self'' \<noteq> joined_key PROPOSAL_COLLECTION ''p''"
  "joined_key SETTINGS_COLLECTION ''self'' \<noteq> joined_key ''forum'' ''t''" "OBJECTION_COLLECTION \<noteq> ''forum''"
  by (simp_all add: joined_key_def SETTINGS_COLLECTION_def PROPOSAL_COLLECTION_def OBJECTION_COLLECTION_def)

lemma contested_existing [simp]:
  "existing_keys (contested_world\<lparr>w_ops := n\<rparr>) ''d'' [joined_key PROPOSAL_COLLECTION ''p'', joined_key ''forum'' ''t''] =
   [joined_key PROPOSAL_COLLECTION ''p'', joined_key ''forum'' ''t'']"
  by (simp add: existing_keys_def contested_world_def due_world_def)

lemma contested_applied: "fst contested_run = Inr Applied"
  unfolding contested_run_def
  apply (simp add: applyLocked_def run_simps record_or_null_def due_time communitySettingsRecord_def contested_held contested_objections)
  apply (simp add: performLocked_def
  proposalApplicationProblem_def proposedChangeOps_def recordToWrite_def proposalWriteOp_def
  is_write_proposal_def target_coll_def communitySettingsRecord_def
  target_rkey_def prop_key_def strong_ref_def usesVoteRecordEvidence_def applied_state_def
  applyWrites_def loadRepo_def commitRepo_def reference_commit_def syncRecordsIndex_def sync_one_def
  auditLog_def record_or_null_def run_simps due_time Let_def is_pseudonym_def)
  done

definition sample_repo :: "string \<Rightarrow> loaded_repo" where
  "sample_repo did = \<lparr>ld_did = did, ld_repo = Some \<lparr>lr_did = did,
        lr_get = (\<lambda>key. Inr (if key = joined_key PROPOSAL_COLLECTION ''p'' then Some ''pc''
           else if key = joined_key SETTINGS_COLLECTION ''self'' then Some ''sc'' else None)),
        lr_walk = Inr (if did = ''o'' then [\<lparr>we_collection = OBJECTION_COLLECTION, we_rkey = ''x'', we_cid = ''ocid'',
           we_record = one_objection\<rparr>] else [])\<rparr>, ld_blocks = (\<lambda>c. Some c), ld_verified = True\<rparr>"

lemma sample_loads:
  "load_all (sample_export p settings) (did_docs (ai_didDocuments sample_application)) (ai_repos sample_application)
     \<lparr>k_problems = [], k_notes = [], k_summary = empty_summary\<rparr> =
   Inr ([(''d'', sample_repo ''d''), (''o'', sample_repo ''o'')], \<lparr>k_problems = [], k_notes = [], k_summary = empty_summary\<rparr>)"
  by (simp add: load_all_def loadRepo_export_def sample_application_def sample_proof_def sample_export_def did_docs_def
     sample_repo_def Let_def)

lemma sample_located:
  "p \<noteq> st \<Longrightarrow> locateRecord (sample_export p st) (sample_repo did) PROPOSAL_COLLECTION ''p'' = Inr (Some (''pc'', p))"
  "p \<noteq> st \<Longrightarrow> locateRecord (sample_export p st) (sample_repo did) SETTINGS_COLLECTION ''self'' = Inr (Some (''sc'', st))"
  by (simp_all add: locateRecord_def sample_export_def sample_repo_def)

lemma sample_shows:
  assumes "p \<noteq> threshold_settings n"
  shows "exports_show (sample_export p (threshold_settings n)) sample_application ''d'' ''p'' contested_world p (threshold_settings n)"
proof -
  have uri: "parseAtUri (JStr (ct_uri (ai_proposal sample_application))) =
    Some \<lparr>al_repo = ''d'', al_collection = PROPOSAL_COLLECTION, al_rkey = ''p''\<rparr>"
    by (simp add: parseAtUri_def sample_application_def at_uri_def PROPOSAL_COLLECTION_def)
  have ix: "index_objections contested_world = {(''o'', ''x'', one_objection)}"
    by (auto simp: index_objections_def contested_world_def due_world_def)
  have rows: "export_rows (map snd [(''d'', sample_repo ''d''), (''o'', sample_repo ''o'')]) =
      Inr [(''o'', \<lparr>we_collection = OBJECTION_COLLECTION, we_rkey = ''x'', we_cid = ''ocid'', we_record = one_objection\<rparr>)]"
    by (simp add: sample_repo_def)
  have cid: "ct_cid (ai_proposal sample_application) = ''pc''" by (simp add: sample_application_def)
  show ?thesis
    unfolding exports_show_def sample_loads
    by (intro conjI uri exI [of _ "[(''d'', sample_repo ''d''), (''o'', sample_repo ''o'')]"]
        exI [of _ "\<lparr>k_problems = [], k_notes = [], k_summary = empty_summary\<rparr>"] exI [of _ "sample_repo ''d''"]
        exI [of _ "[(''o'', \<lparr>we_collection = OBJECTION_COLLECTION, we_rkey = ''x'', we_cid = ''ocid'', we_record = one_objection\<rparr>)]"]
        exI [of _ "Some (''sc'', threshold_settings n)"])
      (use assms rows in \<open>simp_all add: sample_located cid export_objections_def ix\<close>)
qed

lemma contested_keys [simp]: "keys_distinct due_proposal" "keys_distinct (strong_ref u c)"
  by (simp_all add: keys_distinct_def due_proposal_def strong_ref_def)

lemma keys_distinct_JObj [simp]: "keys_distinct (JObj ps) = distinct (map fst ps)"
  by (simp add: keys_distinct_def)

lemma contested_target:
  "(target_coll env due_proposal, target_rkey env due_proposal) \<noteq> (PROPOSAL_COLLECTION, ''p'')"
  by (simp add: target_coll_def target_rkey_def prop_key_def)

lemma contested_literal: "literal sample_env ''d''" "literal sample_env ''p''"
  by (auto simp: literal_def json_text_def sample_env_def split: jv.splits if_splits)

lemma contested_outcome:
  obtains s' x p where "applyLocked sample_env ''d'' ''p'' 1767225600000 contested_world = (Inr Applied, s')"
    "proposal_at s' ''d'' ''p'' = Some (x, p)" "\<And>n. p \<noteq> threshold_settings n"
proof -
  obtain s' where r: "applyLocked sample_env ''d'' ''p'' 1767225600000 contested_world = (Inr Applied, s')"
    using contested_applied by (auto simp: contested_run_def prod_eq_iff)
  have "window_step sample_env ''d'' ''p'' 1767225600000 contested_world (Inr Applied) s'"
    using runs_applyLocked r by (rule runsD)
  then obtain proposal a where d: "due contested_world ''d'' ''p'' 1767225600000 proposal a"
    "batch_indexed sample_env ''d'' (change_batch sample_env contested_world ''d'' ''p'' 1767225600000 proposal) contested_world s'"
    by (auto elim: window_step_Applied)
  then have "proposal = due_proposal" by (simp add: due_def record_or_null_def)
  with applied_is_indexed [OF d(2)] contested_target obtain x p where x: "proposal_at s' ''d'' ''p'' = Some (x, p)" by auto
  have "jget p ''status'' = JStr ''approved''"
    by (rule applied_record [OF r _ _ _ x]) (use contested_target in \<open>simp_all add: record_or_null_def\<close>)
  then have "p \<noteq> threshold_settings n" for n by (auto simp: threshold_settings_def)
  from that [OF r x this] show thesis .
qed

theorem honest_application_verifies_witness:
  "\<exists>p v. verifyApplication (sample_export p (threshold_settings 2)) (<) sample_application = Inr v \<and> av_code v = AppApplied"
proof -
  obtain s' x p where r: "applyLocked sample_env ''d'' ''p'' 1767225600000 contested_world = (Inr Applied, s')"
    and x: "proposal_at s' ''d'' ''p'' = Some (x, p)" "p \<noteq> threshold_settings 2" by (rule contested_outcome) blast
  have "\<exists>v. verifyApplication (sample_export p (threshold_settings 2)) (<) sample_application = Inr v \<and> av_code v = AppApplied
      \<and> av_status v = Legitimate"
    by (rule honest_application_verifies [OF r _ _ _ x(1) contested_literal sample_shows [OF x(2)]])
      (use contested_target in \<open>simp_all add: record_or_null_def\<close>)
  then show ?thesis by blast
qed

theorem lowered_threshold_accuses_witness:
  "\<exists>p v. verifyApplication (sample_export p (threshold_settings 1)) (<) sample_application = Inr v \<and>
     av_code v = AppFailed AppliedOverObjection"
proof -
  obtain s' x p where r: "applyLocked sample_env ''d'' ''p'' 1767225600000 contested_world = (Inr Applied, s')"
    and x: "proposal_at s' ''d'' ''p'' = Some (x, p)" "p \<noteq> threshold_settings 1" by (rule contested_outcome) blast
  have "\<exists>v. verifyApplication (sample_export p (threshold_settings 1)) (<) sample_application = Inr v \<and>
     av_code v = AppFailed AppliedOverObjection"
    by (rule lowered_threshold_accuses [OF r _ _ _ x(1) contested_literal sample_shows [OF x(2)]])
      (use contested_target contested_objections in \<open>simp_all add: record_or_null_def application_ctx_def truthy_str_def strong_ref_def\<close>)
  then show ?thesis by blast
qed

lemma uncontested_application:
  assumes "exports_show l inp c k s p settings" "literal env c" "literal env k"
    and "jget p ''status'' = JStr ''approved''" "jget p ''applyAt'' = JStr a" "a \<noteq> []"
      "jget p ''appliedAt'' = JStr t" "t \<noteq> []" "a \<le> t" "application_ctx c k p = None"
  shows "\<exists>v. verifyApplication l lt inp = Inr v \<and> av_code v = AppApplied"
proof -
  have "0 < objectionThreshold settings"
    by (auto simp: objectionThreshold_def DEFAULT_OBJECTION_THRESHOLD_def split: jv.split jnum.split)
  with applied_judgement [OF assms(1-9), of lt] assms(10) show ?thesis by auto
qed

theorem applied_verdict_sound_witness:
  "\<exists>p c k (repos :: (string \<times> loaded_repo) list) communityRepo q. map_of repos c = Some communityRepo \<and>
     locateRecord (sample_export p (threshold_settings 2)) communityRepo PROPOSAL_COLLECTION k = Inr (Some (''pc'', q))"
proof -
  let ?p = "JObj [(''status'', JStr ''approved''), (''applyAt'', JStr ''1''), (''appliedAt'', JStr ''1'')]"
  have ex: "exports_show (sample_export ?p (threshold_settings 2)) sample_application ''d'' ''p'' contested_world ?p (threshold_settings 2)"
    by (rule sample_shows) (simp add: threshold_settings_def)
  have c: "application_ctx ''d'' ''p'' ?p = None"
    by (simp add: application_ctx_def truthy_str_def)
  have g: "jget ?p ''status'' = JStr ''approved''" "jget ?p ''applyAt'' = JStr ''1''" "jget ?p ''appliedAt'' = JStr ''1''"
    by simp_all
  have "\<exists>v. verifyApplication (sample_export ?p (threshold_settings 2)) (<) sample_application = Inr v \<and> av_code v = AppApplied"
    by (rule uncontested_application [OF ex contested_literal g(1) g(2) list.distinct(2) g(3) list.distinct(2) order_refl c])
  then obtain v where v: "verifyApplication (sample_export ?p (threshold_settings 2)) (<) sample_application = Inr v"
    "av_code v = AppApplied" by (elim exE conjE) (rule that)
  have cid: "ct_cid (ai_proposal sample_application) = ''pc''" by (simp add: sample_application_def)
  show ?thesis
    using applied_verdict_sound [OF v, unfolded cid]
  proof (elim exE conjE, goal_cases)
    case (1 c k repos loads communityRepo q)
    then show ?case by - (rule exI [of _ ?p], intro exI conjI)
  qed
qed

theorem objections_counted_alike_witness:
  "\<exists>offline. countObjections (<) [(''o'', sample_repo ''o'')] ''d'' ''p''
      \<lparr>oc_proposalUri = proposalUri ''d'' ''p'', oc_decisionUri = ''at://decision'',
       oc_decisionCid = ''cid'', oc_resolvedAt = iso 1767100000000, oc_applyAt = iso 1767186400000\<rparr> = Inr offline \<and>
     length offline = 1"
proof -
  let ?ctx = "\<lparr>oc_proposalUri = proposalUri ''d'' ''p'', oc_decisionUri = ''at://decision'',
       oc_decisionCid = ''cid'', oc_resolvedAt = iso 1767100000000, oc_applyAt = iso 1767186400000\<rparr>"
  let ?row = "(''o'', \<lparr>we_collection = OBJECTION_COLLECTION, we_rkey = ''x'', we_cid = ''ocid'', we_record = one_objection\<rparr>)"
  have rows: "export_rows (map snd [(''o'', sample_repo ''o'')]) = Inr [?row]"
    by (simp add: sample_repo_def)
  then obtain offline where off: "countObjections (<) [(''o'', sample_repo ''o'')] ''d'' ''p'' ?ctx = Inr offline"
    by (simp add: countObjections_def)
  have ix: "export_objections [?row] = index_objections contested_world"
    by (auto simp: index_objections_def export_objections_def contested_world_def due_world_def)
  from objections_counted_alike [OF contested_literal rows ix off]
  have "length offline = length (objections_of sample_env ?ctx (record_rows sample_env contested_world OBJECTION_COLLECTION ''d'' ''p''))"
    by simp
  also have "\<dots> = 1" using contested_objections by (simp add: objections_at_def contested_ctx del: contested_rows)
  finally show ?thesis using off by blast
qed

end
