(* ===== verification/DecisionEvidence.thy ===== *)
theory DecisionEvidence
  imports VerifyApplication
begin

text \<open>
  From repository exports to the inputs of the two offline verifiers:
  \<^verbatim>\<open>src/governance/decision-evidence.ts\<close>. Reading a CAR container is the repository library's,
  and a parameter; a failure of it is the exception it throws.
\<close>

subsection \<open>Parsing an export\<close>

record parsed_repo =
  pr_proof :: repo_proof
  pr_records :: "(string \<times> cited) list"

definition parsed_entry :: "string \<Rightarrow> walk_entry \<Rightarrow> string \<times> cited" where
  "parsed_entry did e =
     (joined_key (we_collection e) (we_rkey e),
      \<lparr>ct_uri = at_uri did (we_collection e) (we_rkey e), ct_cid = we_cid e, ct_value = we_record e\<rparr>)"

definition parseRepoCar :: "lib \<Rightarrow> ('b \<Rightarrow> exn + string \<times> blocks) \<Rightarrow> 'b \<Rightarrow> exn + parsed_repo" where
  "parseRepoCar l readCar bytes =
     bindE (readCar bytes) (\<lambda>(root, blocks).
     bindE (l_load l blocks root) (\<lambda>repo.
     bindE (lr_walk repo) (\<lambda>entries.
       Inr \<lparr>pr_proof = \<lparr>pf_did = lr_did repo, pf_commit = root, pf_blocks = blocks\<rparr>,
            pr_records = foldl (\<lambda>al (k, c). AList.update k c al) [] (map (parsed_entry (lr_did repo)) entries)\<rparr>)))"

subsection \<open>Finding decisions and proposals\<close>

record decision_candidate =
  dc_community :: string
  dc_rkey :: string
  dc_record :: cited
  dc_proposalRkey :: "string option"

record proposal_candidate =
  pc_community :: string
  pc_rkey :: string
  pc_record :: cited

definition in_collection :: "string \<Rightarrow> string \<Rightarrow> bool" where
  "in_collection coll key \<longleftrightarrow> take (length coll + 1) key = coll @ ''/''"

definition records_in :: "string \<Rightarrow> parsed_repo \<Rightarrow> (string \<times> cited) list" where
  "records_in coll repo = map (\<lambda>(key, rec). (drop (length coll + 1) key, rec))
     (filter (\<lambda>(key, _). in_collection coll key) (pr_records repo))"

definition str_value :: "jv \<Rightarrow> string option" where
  "str_value v = (case v of JStr s \<Rightarrow> Some s | _ \<Rightarrow> None)"

definition findDecisions :: "parsed_repo list \<Rightarrow> decision_candidate list" where
  "findDecisions repos = concat (map (\<lambda>repo. map (\<lambda>(rkey, rec).
     \<lparr>dc_community = pf_did (pr_proof repo), dc_rkey = rkey, dc_record = rec,
      dc_proposalRkey = str_value (jget (ct_value rec) ''proposalRkey'')\<rparr>)
     (records_in DECISION_COLLECTION repo)) repos)"

definition findProposals :: "parsed_repo list \<Rightarrow> proposal_candidate list" where
  "findProposals repos = concat (map (\<lambda>repo. map (\<lambda>(rkey, rec).
     \<lparr>pc_community = pf_did (pr_proof repo), pc_rkey = rkey, pc_record = rec\<rparr>)
     (records_in PROPOSAL_COLLECTION repo)) repos)"

subsection \<open>Assembling the inputs\<close>

definition evidence_community :: "decision_candidate \<Rightarrow> string" where
  "evidence_community d = (case str_value (jget (ct_value (dc_record d)) ''community'') of
      Some c \<Rightarrow> c | None \<Rightarrow> dc_community d)"

definition sibling_decisions :: "decision_candidate \<Rightarrow> string \<Rightarrow> parsed_repo \<Rightarrow> cited list" where
  "sibling_decisions d rkey repo =
     filter (\<lambda>rec. ct_uri rec \<noteq> ct_uri (dc_record d) \<and> jget (ct_value rec) ''proposalRkey'' = JStr rkey)
       (map snd (records_in DECISION_COLLECTION repo))"

definition buildVerifyInput ::
  "decision_candidate \<Rightarrow> parsed_repo list \<Rightarrow> jv list \<Rightarrow> exn + verify_input" where
  "buildVerifyInput d repos docs = (case dc_proposalRkey d of
      None \<Rightarrow> Inl (Failure ''decision does not name a proposalRkey'')
    | Some rkey \<Rightarrow>
      if rkey = [] then Inl (Failure ''decision does not name a proposalRkey'')
      else (case find (\<lambda>r. pf_did (pr_proof r) = evidence_community d) repos of
          None \<Rightarrow> Inl (Failure ''no CAR export supplied for community'')
        | Some repo \<Rightarrow>
          (case map_of (pr_records repo) (joined_key PROPOSAL_COLLECTION rkey) of
             None \<Rightarrow> Inl (Failure ''proposal is not in the export'')
           | Some proposal \<Rightarrow>
               Inr \<lparr>in_decision = dc_record d, in_proposal = proposal, in_repos = map pr_proof repos,
                    in_didDocuments = docs, in_siblings = sibling_decisions d rkey repo\<rparr>)))"

definition buildApplicationInput ::
  "proposal_candidate \<Rightarrow> parsed_repo list \<Rightarrow> jv list \<Rightarrow> string option \<Rightarrow> verify_app_input" where
  "buildApplicationInput p repos docs asOf =
     \<lparr>ai_proposal = pc_record p, ai_repos = map pr_proof repos, ai_didDocuments = docs,
      ai_asOf = (if asOf = Some [] then None else asOf)\<rparr>"

text \<open>A JSON array of documents, or an object of them.\<close>

definition parseDidDocuments :: "jv \<Rightarrow> exn + jv list" where
  "parseDidDocuments parsed =
     (let bad = Inl (Failure ''DID document file must be a JSON array of documents or an object keyed by DID'')
      in case parsed of
           JArr docs \<Rightarrow> Inr docs
         | JObj ps \<Rightarrow>
             if list_all (\<lambda>v. truthy v \<and> typeof_object v) (map snd ps) then Inr (map snd ps) else bad
         | _ \<Rightarrow> bad)"

subsection \<open>Record URIs\<close>

lemma split_on_not_Nil [simp]: "split_on d s \<noteq> []"
  by (induction s) (auto split: list.split)

lemma split_on_no [simp]: "d \<notin> set s \<Longrightarrow> split_on d s = [s]"
  by (induction s) auto

lemma split_on_append: "d \<notin> set s \<Longrightarrow> split_on d (s @ d # t) = s # split_on d t"
  by (induction s) auto

fun join_with :: "char \<Rightarrow> string list \<Rightarrow> string" where
  "join_with d [] = []"
| "join_with d [w] = w"
| "join_with d (w # v # ws) = w @ d # join_with d (v # ws)"

lemma join_split [simp]: "join_with d (split_on d s) = s"
proof (induction s)
  case (Cons c s)
  obtain w ws where w: "split_on d s = w # ws" by (cases "split_on d s") auto
  with Cons show ?case by (cases ws) auto
qed simp

lemma split_on_parts: "w \<in> set (split_on d s) \<Longrightarrow> d \<notin> set w"
  by (induction s arbitrary: w) (auto split: list.splits if_splits)

definition uri_part :: "string \<Rightarrow> bool" where
  "uri_part x \<longleftrightarrow> x \<noteq> [] \<and> CHR ''/'' \<notin> set x"

lemma split_uri: "uri_part r \<Longrightarrow> uri_part c \<Longrightarrow> uri_part k \<Longrightarrow> split_on CHR ''/'' (r @ ''/'' @ c @ ''/'' @ k) = [r, c, k]"
  using split_on_append [of "CHR ''/''" r "c @ ''/'' @ k"] split_on_append [of "CHR ''/''" c k] by (simp add: uri_part_def)

lemma parse_at_uri: "uri_part r \<Longrightarrow> uri_part c \<Longrightarrow> uri_part k \<Longrightarrow>
   parseAtUri (JStr (at_uri r c k)) = Some \<lparr>al_repo = r, al_collection = c, al_rkey = k\<rparr>"
  using split_uri [of r c k] by (simp add: parseAtUri_def at_uri_def uri_part_def)

text \<open>
  C16. Record URIs print and parse: \<open>parseAtUri\<close> accepts exactly the URIs \<open>at_uri\<close> prints for a
  repository, a collection and a key that are not empty and have no slash, and returns them.
\<close>

theorem at_uri_roundtrip:
  "parseAtUri (JStr uri) = Some loc \<longleftrightarrow>
   uri = at_uri (al_repo loc) (al_collection loc) (al_rkey loc) \<and>
   uri_part (al_repo loc) \<and> uri_part (al_collection loc) \<and> uri_part (al_rkey loc)"
proof
  assume p: "parseAtUri (JStr uri) = Some loc"
  then obtain r c k where w: "split_on CHR ''/'' (drop 5 uri) = [r, c, k]" "take 5 uri = ''at://''"
    and ne: "r \<noteq> []" "c \<noteq> []" "k \<noteq> []" and loc: "loc = \<lparr>al_repo = r, al_collection = c, al_rkey = k\<rparr>"
    by (auto simp: parseAtUri_def split: if_splits list.splits)
  have parts: "uri_part r" "uri_part c" "uri_part k"
    using ne split_on_parts [of _ "CHR ''/''" "drop 5 uri"] by (simp_all add: uri_part_def w(1))
  have "uri = take 5 uri @ join_with CHR ''/'' (split_on CHR ''/'' (drop 5 uri))" by simp
  also have "\<dots> = at_uri r c k" unfolding w by (simp add: at_uri_def)
  finally show "uri = at_uri (al_repo loc) (al_collection loc) (al_rkey loc) \<and>
     uri_part (al_repo loc) \<and> uri_part (al_collection loc) \<and> uri_part (al_rkey loc)"
    using parts by (simp add: loc)
qed (cases loc, simp add: parse_at_uri)

subsection \<open>Assembled evidence\<close>

text \<open>
  What the repository library documents of an export it loads: the walk lists the records the tree
  maps to, each block decodes to the record and hashes to its identifier, and collections and
  keys are single path segments.
\<close>

definition walks_tree :: "lib \<Rightarrow> blocks \<Rightarrow> lib_repo \<Rightarrow> bool" where
  "walks_tree l blocks repo \<longleftrightarrow> (\<forall>es e. lr_walk repo = Inr es \<and> e \<in> set es \<longrightarrow>
     lr_get repo (joined_key (we_collection e) (we_rkey e)) = Inr (Some (we_cid e)) \<and>
     (\<exists>bytes. blocks (we_cid e) = Some bytes \<and> l_decode l bytes = Inr (we_record e)) \<and>
     l_cid l (we_record e) = Inr (we_cid e) \<and> uri_part (we_collection e) \<and> uri_part (we_rkey e))"

definition library_walks :: "lib \<Rightarrow> bool" where
  "library_walks l \<longleftrightarrow> (\<forall>blocks root repo. l_load l blocks root = Inr repo \<longrightarrow> walks_tree l blocks repo \<and> uri_part (lr_did repo))"

text \<open>Every record of a parsed export is found again where its URI says.\<close>

definition parsed_ok :: "lib \<Rightarrow> parsed_repo \<Rightarrow> bool" where
  "parsed_ok l r \<longleftrightarrow> (\<exists>repo. l_load l (pf_blocks (pr_proof r)) (pf_commit (pr_proof r)) = Inr repo \<and>
     lr_did repo = pf_did (pr_proof r) \<and>
     (\<forall>key c. (key, c) \<in> set (pr_records r) \<longrightarrow> (\<exists>e es. lr_walk repo = Inr es \<and> e \<in> set es \<and> (key, c) = parsed_entry (lr_did repo) e)))"

lemma foldl_update_subset: "set (foldl (\<lambda>al (k, c). AList.update k c al) al xs) \<subseteq> set al \<union> set xs"
proof (induction xs arbitrary: al)
  case (Cons x xs)
  obtain k c where x: "x = (k, c)" by (cases x)
  have "set (foldl (\<lambda>al (k, c). AList.update k c al) al (x # xs)) \<subseteq> set (AList.update k c al) \<union> set xs"
    using Cons.IH [of "AList.update k c al"] by (simp add: x)
  also have "\<dots> \<subseteq> set al \<union> set (x # xs)" using set_update_subset [of k c al] by (auto simp: x)
  finally show ?case .
qed simp

lemma parseRepoCar_ok: "parseRepoCar l readCar bytes = Inr r \<Longrightarrow> parsed_ok l r"
proof -
  assume "parseRepoCar l readCar bytes = Inr r"
  then obtain root blocks repo es where p: "l_load l blocks root = Inr repo" "lr_walk repo = Inr es"
    "r = \<lparr>pr_proof = \<lparr>pf_did = lr_did repo, pf_commit = root, pf_blocks = blocks\<rparr>,
            pr_records = foldl (\<lambda>al (k, c). AList.update k c al) [] (map (parsed_entry (lr_did repo)) es)\<rparr>"
    unfolding parseRepoCar_def by (auto simp: bindE_Inr_iff)
  then show ?thesis
    using foldl_update_subset [of "[]" "map (parsed_entry (lr_did repo)) es"] unfolding parsed_ok_def
    by (auto intro!: exI [of _ repo])
qed

lemma joined_key_inj:
  assumes "uri_part c" "uri_part k" "uri_part c'" "joined_key c k = c' @ ''/'' @ k'"
  shows "c = c' \<and> k = k'"
proof -
  have "split_on CHR ''/'' (c @ CHR ''/'' # k) = split_on CHR ''/'' (c' @ CHR ''/'' # k')"
    using assms(4) by (simp add: joined_key_def)
  then have "c = c'" using assms by (simp add: split_on_append uri_part_def)
  with assms(4) show ?thesis by (simp add: joined_key_def)
qed

lemma bindE_assoc: "bindE (bindE m f) g = bindE m (\<lambda>x. bindE (f x) g)"
  by (cases m) simp_all

definition load_step ::
  "lib \<Rightarrow> (string \<times> jv) list \<Rightarrow> (string \<times> loaded_repo) list \<times> check \<Rightarrow> repo_proof \<Rightarrow> exn + (string \<times> loaded_repo) list \<times> check" where
  "load_step l docs acc proof = (case acc of (repos, k) \<Rightarrow> bindE (loadRepo_export l docs proof k)
     (\<lambda>(loaded, k'). Inr (AList.update (pf_did proof) loaded repos, k')))"

lemma load_all_steps: "load_all l docs proofs k = foldE (load_step l docs) ([], k) proofs"
  by (simp add: load_all_def load_step_def [abs_def] case_prod_beta')

lemma load_step_Inr: "load_step l docs (rs, k) proof = Inr acc \<longleftrightarrow>
   (\<exists>ld k'. loadRepo_export l docs proof k = Inr (ld, k') \<and> acc = (AList.update (pf_did proof) ld rs, k'))"
  by (auto simp: load_step_def bindE_Inr_iff)

lemma load_steps_other:
  "foldE (load_step l docs) (rs, k) proofs = Inr (repos, k') \<Longrightarrow> d \<notin> pf_did ` set proofs \<Longrightarrow> map_of repos d = map_of rs d"
  by (induction proofs arbitrary: rs k) (auto simp: bindE_Inr_iff load_step_Inr split: if_splits)

lemma load_all_finds:
  assumes "load_all l docs proofs k = Inr (repos, k')" "distinct (map pf_did proofs)" "proof \<in> set proofs"
  shows "\<exists>ld k0 k1. map_of repos (pf_did proof) = Some ld \<and> loadRepo_export l docs proof k0 = Inr (ld, k1)"
proof -
  from assms(3) obtain before after where ps: "proofs = before @ proof # after" by (auto dest: split_list)
  have app: "foldE f acc (xs @ ys) = bindE (foldE f acc xs) (\<lambda>acc'. foldE f acc' ys)" for f acc xs ys
    by (induction xs arbitrary: acc) (simp_all add: bindE_assoc)
  from assms(1) obtain rs k0 rest where steps: "load_step l docs (rs, k0) proof = Inr rest"
    "foldE (load_step l docs) rest after = Inr (repos, k')"
    unfolding load_all_steps ps app by (auto simp: bindE_Inr_iff)
  then obtain ld k1 where ld: "loadRepo_export l docs proof k0 = Inr (ld, k1)" "rest = (AList.update (pf_did proof) ld rs, k1)"
    by (auto simp: load_step_Inr)
  have "pf_did proof \<notin> pf_did ` set after" using assms(2) ps by auto
  with load_steps_other [OF steps(2) [unfolded ld(2)]] have "map_of repos (pf_did proof) = Some ld" by simp
  with ld(1) show ?thesis by blast
qed

lemma loaded_repo_of:
  assumes "loadRepo_export l docs proof k = Inr (ld, k')" "l_load l (pf_blocks proof) (pf_commit proof) = Inr repo"
    "lr_did repo = pf_did proof"
  shows "ld_repo ld = Some repo \<and> ld_blocks ld = pf_blocks proof"
  using assms by (cases "map_of docs (pf_did proof)"; cases "l_getKey l (the (map_of docs (pf_did proof)))")
    (auto simp: loadRepo_export_def Let_def split: if_splits option.splits)

text \<open>The verdicts that do not blame the record itself, and that nothing after it is located gives another.\<close>

definition spares :: "app_code \<Rightarrow> bool" where
  "spares code \<longleftrightarrow> code \<noteq> AppFailed MalformedProposal \<and> code \<noteq> AppFailed AppTamperedEvidence"

lemma spares_simps [simp]:
  "spares AppApplied" "spares AppHeld" "spares NothingToApply" "spares WindowOpen" "spares ApplicationDue" "spares PendingApplication"
  "spares OverrideRound" "spares OverrideRoundDue" "spares ClosedUnapplied" "spares (AppFailed UnevidencedHold)"
  "spares (AppFailed EarlyApplication)" "spares (AppFailed AppliedOverObjection)"
  "spares (AppFailed AppForgedSignature)" "spares (AppFailed AppMissingEvidence)"
  by (simp_all add: spares_def)

definition spares_record :: "app_check \<Rightarrow> bool" where
  "spares_record k \<longleftrightarrow> (\<forall>p \<in> set (ak_problems k). spares (AppFailed (ap_code p)))"

lemma spared_finish: "spares_record k \<Longrightarrow> spares code \<Longrightarrow> spares (av_code (app_finish code st k))"
proof (cases "sort_lt (\<lambda>a b. app_severity (ap_code a) < app_severity (ap_code b)) (ak_problems k)")
  case (Cons p ps)
  assume "spares_record k"
  moreover have "p \<in> set (ak_problems k)" using Cons set_sort_lt by (metis list.set_intros(1))
  ultimately show ?thesis by (simp add: app_finish_def Cons spares_record_def)
qed (simp add: app_finish_def)

lemma spared_updates [simp]:
  "spares_record (app_remark code uri k) = spares_record k" "spares_record (k\<lparr>ak_summary := s\<rparr>) = spares_record k"
  "spares_record (read_threshold c st k) = spares_record k" "spares_record (note_objections uri os n k) = spares_record k"
  "spares_record (summarize_proposal q k) = spares_record k"
  by (auto simp: spares_record_def app_remark_def read_threshold_def note_objections_def summarize_proposal_def Let_def
      split: option.split)

lemma spared_fail:
  "spares_record k \<Longrightarrow> spares (AppFailed code) \<Longrightarrow> spares (av_code (app_fail code uri did k))"
  unfolding app_fail_def by (rule spared_finish) (auto simp: spares_record_def app_blame_def)

lemma spared_verdicts:
  assumes "spares_record k"
  shows "spares (av_code (override_verdict inp q held con k))" "spares (av_code (objected_verdict uri held con k))"
    "spares (av_code (applied_verdict uri t a held k))" "spares (av_code (pending_verdict asOf a k))"
  using assms
  by (auto simp: override_verdict_def objected_verdict_def applied_verdict_def pending_verdict_def Let_def
      intro!: spared_finish spared_fail split: option.split)

text \<open>
  Evidence assembled from exports is never called malformed or tampered: a proposal found in
  parsed exports, handed to the application verifier with those exports, is located there under
  the identifier it is cited with.
\<close>

theorem assembled_application_is_located:
  assumes "library_walks l" "\<forall>r \<in> set repos. \<exists>bytes. parseRepoCar l readCar bytes = Inr r"
    and "distinct (map (\<lambda>r. pf_did (pr_proof r)) repos)" "p \<in> set (findProposals repos)"
    and "verifyApplication l lt (buildApplicationInput p repos docs asOf) = Inr v"
  shows "av_code v \<notin> {AppFailed MalformedProposal, AppFailed AppTamperedEvidence}"
proof -
  let ?inp = "buildApplicationInput p repos docs asOf"
  from assms(4) obtain r rkey where r: "r \<in> set repos" "(rkey, pc_record p) \<in> set (records_in PROPOSAL_COLLECTION r)"
    by (auto simp: findProposals_def)
  from assms(2) r(1) have ok: "parsed_ok l r" by (auto dest: parseRepoCar_ok)
  then obtain repo where repo: "l_load l (pf_blocks (pr_proof r)) (pf_commit (pr_proof r)) = Inr repo" "lr_did repo = pf_did (pr_proof r)"
    "\<And>key c. (key, c) \<in> set (pr_records r) \<Longrightarrow> \<exists>e es. lr_walk repo = Inr es \<and> e \<in> set es \<and> (key, c) = parsed_entry (lr_did repo) e"
    unfolding parsed_ok_def by blast
  from r(2) obtain key where key: "(key, pc_record p) \<in> set (pr_records r)" "in_collection PROPOSAL_COLLECTION key"
    by (auto simp: records_in_def)
  from repo(3) [OF key(1)] obtain e es where e: "lr_walk repo = Inr es" "e \<in> set es" "(key, pc_record p) = parsed_entry (lr_did repo) e"
    by blast
  from assms(1) repo(1) e(1,2) have w: "lr_get repo (joined_key (we_collection e) (we_rkey e)) = Inr (Some (we_cid e))"
    "\<exists>bytes. pf_blocks (pr_proof r) (we_cid e) = Some bytes \<and> l_decode l bytes = Inr (we_record e)"
    "l_cid l (we_record e) = Inr (we_cid e)" "uri_part (we_collection e)" "uri_part (we_rkey e)" "uri_part (lr_did repo)"
    unfolding library_walks_def walks_tree_def by blast+
  have "uri_part PROPOSAL_COLLECTION" by (simp add: uri_part_def PROPOSAL_COLLECTION_def)
  moreover have "joined_key (we_collection e) (we_rkey e) = PROPOSAL_COLLECTION @ ''/'' @ drop (length PROPOSAL_COLLECTION + 1) key"
    using key(2) e(3) by (simp add: parsed_entry_def in_collection_def)
      (metis append.assoc append_Cons append_Nil append_take_drop_id)
  ultimately have coll: "we_collection e = PROPOSAL_COLLECTION"
    using joined_key_inj [OF w(4,5)] by blast
  have uri: "ct_uri (pc_record p) = at_uri (lr_did repo) PROPOSAL_COLLECTION (we_rkey e)"
    and cited: "ct_cid (pc_record p) = we_cid e"
    using e(3) coll by (simp_all add: parsed_entry_def)
  have loc: "parseAtUri (JStr (ct_uri (ai_proposal ?inp))) =
      Some \<lparr>al_repo = lr_did repo, al_collection = PROPOSAL_COLLECTION, al_rkey = we_rkey e\<rparr>"
    using parse_at_uri [OF w(6) _ w(5)] w(4) by (simp add: buildApplicationInput_def uri coll)
  from assms(5) obtain loaded loads where load: "load_all l (did_docs docs) (map pr_proof repos)
      \<lparr>k_problems = [], k_notes = [], k_summary = empty_summary\<rparr> = Inr (loaded, loads)"
    unfolding verifyApplication_def Let_def loc
    by (auto simp: bindE_Inr_iff buildApplicationInput_def)
  have "distinct (map pf_did (map pr_proof repos))" "pr_proof r \<in> set (map pr_proof repos)"
    using assms(3) r(1) by (simp_all add: comp_def)
  from load_all_finds [OF load this] obtain ld k0 k1 where
    ld: "map_of loaded (lr_did repo) = Some ld" "loadRepo_export l (did_docs docs) (pr_proof r) k0 = Inr (ld, k1)"
    by (auto simp: repo(2))
  from loaded_repo_of [OF ld(2) repo(1,2)] w(1-3) have located:
    "locateRecord l ld PROPOSAL_COLLECTION (we_rkey e) = Inr (Some (ct_cid (ai_proposal ?inp), we_record e))"
    by (auto simp: locateRecord_def coll cited buildApplicationInput_def)
  let ?K = "\<lparr>ak_problems = map translate_load (k_problems loads), ak_notes = [],
      ak_summary = empty_app_summary\<lparr>as_community := Some (lr_did repo), as_proposalRkey := Some (we_rkey e)\<rparr>\<rparr>"
  have K: "spares_record ?K" by (auto simp: spares_record_def translate_load_def)
  have v: "verify_app_in_repo l lt ?inp loaded ld \<lparr>al_repo = lr_did repo, al_collection = PROPOSAL_COLLECTION, al_rkey = we_rkey e\<rparr> ?K = Inr v"
    using assms(5) load ld(1) unfolding verifyApplication_def Let_def loc by (simp add: buildApplicationInput_def)
  have "spares (av_code v)"
  proof (cases "judge_application l lt ?inp loaded ld (lr_did repo) (we_rkey e) (we_record e) (summarize_proposal (we_record e) ?K) = Inr v")
    case True
    then show ?thesis
      unfolding judge_application_def Let_def bindE_Inr_iff
      using K by (auto intro!: spared_verdicts spared_finish split: if_splits option.splits)
  next
    case False
    then have "v = app_finish NothingToApply Legitimate (summarize_proposal (we_record e) ?K) \<or>
        v = app_finish AppApplied Legitimate (app_remark NoContestWindow (ct_uri (ai_proposal ?inp)) (summarize_proposal (we_record e) ?K))"
      using v unfolding verify_app_in_repo_def Let_def at_loc.simps located bindE.simps option.case prod.case
      by (simp only: refl not_True_eq_False if_False) (metis sum.inject(2))
    then show ?thesis using K by (auto intro!: spared_finish)
  qed
  then show ?thesis by (simp add: spares_def)
qed

text \<open>One export with one proposal that is still open.\<close>

definition tiny_entry :: walk_entry where
  "tiny_entry = \<lparr>we_collection = PROPOSAL_COLLECTION, we_rkey = ''p'', we_cid = ''pc'', we_record = JObj [(''status'', JStr ''open'')]\<rparr>"

definition tiny_lib :: lib where
  "tiny_lib =
     \<lparr>l_load = (\<lambda>blocks root. if blocks ''pc'' = None then Inl RangeError else Inr \<lparr>lr_did = ''d'',
        lr_get = (\<lambda>key. Inr (if key = joined_key PROPOSAL_COLLECTION ''p'' then Some ''pc'' else None)),
        lr_walk = Inr [tiny_entry]\<rparr>),
      l_getKey = (\<lambda>_. Inr (Some ''key'')), l_verifySig = (\<lambda>_ _. Inr True), l_decode = (\<lambda>_. Inr (we_record tiny_entry)),
      l_cid = (\<lambda>_. Inr ''pc''), l_text = (\<lambda>_. ''?'')\<rparr>"

definition tiny_export :: parsed_repo where
  "tiny_export = \<lparr>pr_proof = \<lparr>pf_did = ''d'', pf_commit = ''root'', pf_blocks = (\<lambda>c. Some c)\<rparr>,
     pr_records = [parsed_entry ''d'' tiny_entry]\<rparr>"

lemma tiny_walks: "library_walks tiny_lib"
  by (auto simp: library_walks_def walks_tree_def tiny_lib_def tiny_entry_def uri_part_def PROPOSAL_COLLECTION_def split: if_splits)

lemma tiny_parsed: "parseRepoCar tiny_lib (\<lambda>_. Inr (''root'', \<lambda>c. Some c)) () = Inr tiny_export"
  by (simp add: parseRepoCar_def tiny_lib_def tiny_export_def parsed_entry_def tiny_entry_def)

definition tiny_candidate :: proposal_candidate where
  "tiny_candidate = \<lparr>pc_community = ''d'', pc_rkey = ''p'', pc_record = snd (parsed_entry ''d'' tiny_entry)\<rparr>"

lemma tiny_found: "findProposals [tiny_export] = [tiny_candidate]"
  by (simp add: findProposals_def records_in_def in_collection_def tiny_export_def tiny_candidate_def parsed_entry_def tiny_entry_def
      joined_key_def)

lemma tiny_verdict: "\<exists>v. verifyApplication tiny_lib (<) (buildApplicationInput tiny_candidate [tiny_export] [JObj [(''id'', JStr ''d'')]] None) = Inr v"
proof -
  have "parseAtUri (JStr (ct_uri (ai_proposal (buildApplicationInput tiny_candidate [tiny_export] [JObj [(''id'', JStr ''d'')]] None)))) =
    Some \<lparr>al_repo = ''d'', al_collection = PROPOSAL_COLLECTION, al_rkey = ''p''\<rparr>"
    using parse_at_uri [of "''d''" PROPOSAL_COLLECTION "''p''"]
    by (simp add: buildApplicationInput_def tiny_candidate_def parsed_entry_def tiny_entry_def uri_part_def PROPOSAL_COLLECTION_def)
  then show ?thesis
    by (simp add: verifyApplication_def Let_def load_all_def loadRepo_export_def tiny_lib_def tiny_export_def buildApplicationInput_def
       did_docs_def verify_app_in_repo_def locateRecord_def tiny_entry_def truthy_str_def PENDING_STATUS_def OBJECTED_STATUS_def OVERRIDE_STATUS_def)
qed

theorem assembled_application_is_located_witness:
  "\<exists>v. verifyApplication tiny_lib (<) (buildApplicationInput tiny_candidate [tiny_export] [JObj [(''id'', JStr ''d'')]] None) = Inr v \<and>
     av_code v \<noteq> AppFailed AppTamperedEvidence"
proof -
  obtain v where v: "verifyApplication tiny_lib (<) (buildApplicationInput tiny_candidate [tiny_export] [JObj [(''id'', JStr ''d'')]] None) = Inr v"
    using tiny_verdict by blast
  have "\<forall>r \<in> set [tiny_export]. \<exists>bytes. parseRepoCar tiny_lib (\<lambda>_ :: unit. Inr (''root'', \<lambda>c. Some c)) bytes = Inr r"
    using tiny_parsed by simp
  from assembled_application_is_located [OF tiny_walks this _ _ v] v show ?thesis
    by (simp add: tiny_found)
qed

end
