(* ===== verification/Progress.thy ===== *)
theory Progress
  imports VoteEffect
begin

text \<open>
  What happens when nothing fails: a decided change whose window has run out is applied by the next
  pass over it. The other theorems of the contest window say what may not happen; this one says that
  the change does happen.
\<close>

subsection \<open>Programs that return\<close>

text \<open>An environment in which no statement fails and the repository library accepts every valid commit.\<close>

definition healthy :: "env \<Rightarrow> string \<Rightarrow> bool" where
  "healthy env did \<longleftrightarrow> (\<forall>n. e_fault env n = None) \<and> e_nokey env did = None \<and>
     (\<forall>rec. \<exists>cid. e_cid env rec = Inr cid) \<and> (\<forall>t ws. ops_valid t ws \<longrightarrow> (\<exists>t'. e_commit env t ws = Inr t'))"

lemma healthy_read: "healthy env did \<Longrightarrow> yields (dbRead env f) s (f s)"
  by (simp add: healthy_def yields_def dbRead_def Let_def untouched_def)

lemma healthy_key: "healthy env did \<Longrightarrow> yields (getKeypairForDid env did) s ()"
  by (simp add: healthy_def getKeypairForDid_def)

lemma yields_audit: "yields (auditLog env action actor target meta) s ()"
  by (simp add: yields_def auditLog_def run_simps dbWrite_def dbTxn_def Let_def untouched_def split: option.split fault.split)

lemma healthy_txn: "healthy env did \<Longrightarrow> f (s\<lparr>w_ops := Suc (w_ops s)\<rparr>) = Inr t \<Longrightarrow> dbTxn env f s = (Inr (), t)"
  by (simp add: healthy_def dbTxn_def Let_def)

lemma healthy_write: "healthy env did \<Longrightarrow> dbWrite env f s = (Inr (), f (s\<lparr>w_ops := Suc (w_ops s)\<rparr>))"
  unfolding dbWrite_def by (rule healthy_txn) simp_all

text \<open>A batch.\<close>

lemma healthy_prepare:
  assumes "healthy env did"
  obtains ps where "prepare_ops env existing ops = Inr ps"
proof -
  have "\<exists>ps. prepare_ops env existing ops = Inr ps"
    using assms by (induction env existing ops rule: prepare_ops.induct) (force simp: healthy_def split: sum.split)+
  with that show ?thesis by blast
qed

lemma healthy_sync_one:
  assumes "healthy env did'" "prepared env p"
  shows "\<exists>s'. sync_one env did p s = (Inr (), s')"
proof -
  obtain w cid where p: "p = (w, cid)" by (cases p)
  show ?thesis
  proof (cases w)
    case (DeleteOp c k)
    then show ?thesis by (simp add: p sync_one_def removeFromRecordsIndex_def run_simps healthy_write [OF assms(1)])
  next
    case (CreateOp c k rec)
    with assms(2) p obtain t where "sync_ops env did [p] (s\<lparr>w_ops := Suc (w_ops s)\<rparr>) = Inr t" by (auto simp: Let_def)
    from healthy_txn [OF assms(1), of "sync_ops env did [p]", OF this] CreateOp p show ?thesis by (auto simp: sync_one_def syncRecordsIndex_def)
  next
    case (UpdateOp c k rec)
    with assms(2) p obtain t where "sync_ops env did [p] (s\<lparr>w_ops := Suc (w_ops s)\<rparr>) = Inr t" by (auto simp: Let_def)
    from healthy_txn [OF assms(1), of "sync_ops env did [p]", OF this] UpdateOp p show ?thesis by (auto simp: sync_one_def syncRecordsIndex_def)
  qed
qed

lemma healthy_sync_all:
  assumes "healthy env did'" "\<forall>p \<in> set ps. prepared env p"
  shows "\<exists>s'. foldM (\<lambda>_ op. sync_one env did op) () ps s = (Inr (), s')"
  using assms(2)
proof (induction ps arbitrary: s)
  case (Cons p ps)
  then obtain s1 where "sync_one env did p s = (Inr (), s1)"
    using healthy_sync_one [OF assms(1), of p did s] by auto
  with Cons show ?case by (auto simp: run_simps)
qed (simp add: run_simps)

lemma healthy_applyWrites:
  assumes h: "healthy env did'" and t: "map_of (w_repos s) did = Some t" and "ops \<noteq> []"
    and valid: "\<And>ps. prepare_ops env (known_keys s did ops) ops = Inr ps \<Longrightarrow> ops_valid t (map fst ps)"
  shows "\<exists>x s'. applyWrites env did ops s = (Inr x, s')"
proof -
  obtain ps where ps: "prepare_ops env (known_keys s did ops) ops = Inr ps" by (rule healthy_prepare [OF h])
  from h valid [OF ps] obtain t' where t': "e_commit env t (map fst ps) = Inr t'" unfolding healthy_def by blast
  have commit: "\<exists>u. commitRepo env did t (map fst ps) s1 = (Inr (), u)" for s1
    by (simp add: commitRepo_def run_simps t' healthy_write [OF h])
  have sync: "\<exists>u. foldM (\<lambda>_ op. sync_one env did op) () ps s1 = (Inr (), u)" for s1
    by (rule healthy_sync_all [OF h prepare_ops_prepared [OF ps]])
  have rest: "\<exists>x u. bindM (liftE (prepare_ops env (known_keys s did ops) ops)) (\<lambda>prepared.
      seqM (commitRepo env did t (map fst prepared))
        (seqM (foldM (\<lambda>_ op. sync_one env did op) () prepared) (ret (map (op_result did) prepared)))) s1 = (Inr x, u)" for s1
  proof -
    obtain u where u: "commitRepo env did t (map fst ps) s1 = (Inr (), u)" using commit by blast
    obtain v where "foldM (\<lambda>_ op. sync_one env did op) () ps u = (Inr (), v)" using sync by blast
    with u show ?thesis by (simp add: run_simps ps)
  qed
  have load: "yields (loadRepo env did) s t"
    unfolding loadRepo_def by (rule yields_bind [OF healthy_read [OF h]]) (simp add: t)
  have keys: "yields (if write_keys ops = [] then ret [] else dbRead env (\<lambda>s. existing_keys s did (write_keys ops)))
      s1 (known_keys s did ops)" if "untouched s s1" for s1
    using healthy_read [OF h, of "\<lambda>s. existing_keys s did (write_keys ops)" s1] untouched_one_commit(3) [OF that, of did ops]
    by (auto simp: known_keys_def)
  have "\<exists>x u. applyWrites env did ops s = (Inr x, u) \<and> True"
    unfolding applyWrites_def if_not_P [OF assms(3)]
    by (rule yields_then [OF load], rule yields_then [OF keys]) (use rest in simp_all)
  then show ?thesis by simp
qed

subsection \<open>The batch that applies a change is valid\<close>

text \<open>Names of collections have no slash, so a joined key names one record.\<close>

definition plain_collections :: "world \<Rightarrow> string \<Rightarrow> bool" where
  "plain_collections s did \<longleftrightarrow> (\<forall>c k. indexed s did c k \<noteq> None \<longrightarrow> CHR ''/'' \<notin> set c)"

lemma path_key_inj:
  assumes "CHR ''/'' \<notin> set a" "CHR ''/'' \<notin> set b" "joined_key a k = joined_key b l"
  shows "a = b \<and> k = l"
  using assms
proof (induction a arbitrary: b)
  case Nil
  then show ?case by (cases b) (auto simp: joined_key_def)
next
  case (Cons x a)
  then show ?case by (cases b) (auto simp: joined_key_def)
qed

lemma known_key:
  assumes "plain_collections s did" "CHR ''/'' \<notin> set c" "WriteRec c k rec \<in> set ops"
  shows "joined_key c k \<in> set (known_keys s did ops) \<longleftrightarrow> indexed s did c k \<noteq> None"
proof -
  have w: "joined_key c k \<in> set (write_keys ops)" using assms(3)
    by (induction ops rule: write_keys.induct) auto
  then have k: "known_keys s did ops = existing_keys s did (write_keys ops)" by (auto simp: known_keys_def)
  have "joined_key c k \<in> set (existing_keys s did (write_keys ops)) \<longleftrightarrow>
      (\<exists>c' k'. indexed s did c' k' \<noteq> None \<and> joined_key c' k' = joined_key c k)"
    using w by (force simp: existing_keys_def indexed_def image_iff map_of_eq_None_iff)
  also have "\<dots> \<longleftrightarrow> indexed s did c k \<noteq> None"
    using assms(1,2) path_key_inj unfolding plain_collections_def by metis
  finally show ?thesis unfolding k .
qed

lemma cached_in_tree:
  assumes "healthy env did'" "in_sync env did s" "map_of (w_repos s) did = Some t"
  shows "indexed s did c k \<noteq> None \<longleftrightarrow> map_of t (c, k) \<noteq> None"
proof (cases "map_of t (c, k)")
  case (Some rec)
  from assms(1) obtain cid where "e_cid env rec = Inr cid" unfolding healthy_def by blast
  with assms Some show ?thesis by (simp add: in_sync_def cache_of_def)
qed (use assms in \<open>simp add: in_sync_def\<close>)

lemma proposal_collection_plain [simp]: "CHR ''/'' \<notin> set PROPOSAL_COLLECTION"
  by (simp add: PROPOSAL_COLLECTION_def)

lemma due_stored: "due s did k now proposal applyAt \<Longrightarrow> indexed s did PROPOSAL_COLLECTION k \<noteq> None"
  by (auto simp: due_def proposal_at_def record_or_null_def split: option.splits)

lemma change_batch_valid:
  assumes h: "healthy env did'" and sync: "in_sync env did s" "map_of (w_repos s) did = Some t"
    and plain: "plain_collections s did" "CHR ''/'' \<notin> set (target_coll env proposal)"
    and due: "due s did k now proposal applyAt"
    and ps: "prepare_ops env (known_keys s did (change_batch env s did k now proposal))
      (change_batch env s did k now proposal) = Inr ps"
  shows "ops_valid t (map fst ps)"
proof -
  let ?B = "change_batch env s did k now proposal"
  let ?tc = "target_coll env proposal" and ?tk = "target_rkey env proposal"
  note tree = cached_in_tree [OF h sync]
  define K where "K = known_keys s did ?B"
  have P: "map_of t (PROPOSAL_COLLECTION, k) \<noteq> None" using due_stored [OF due] tree by blast
  have kP: "joined_key PROPOSAL_COLLECTION k \<in> set K"
    unfolding K_def by (subst known_key [OF plain(1) proposal_collection_plain])
      (use due_stored [OF due] in \<open>auto simp: change_batch_def\<close>)
  have kT: "joined_key ?tc ?tk \<in> set K \<longleftrightarrow> map_of t (?tc, ?tk) \<noteq> None" if "WriteRec ?tc ?tk r \<in> set ?B" for r
    unfolding K_def known_key [OF plain that] by (rule tree)
  consider "change_ops env s did proposal = []"
    | r where "change_ops env s did proposal = [WriteRec ?tc ?tk r]"
    | "change_ops env s did proposal = [DelRec ?tc ?tk]" "map_of t (?tc, ?tk) \<noteq> None"
    using tree by (fastforce simp: change_ops_def Let_def split: if_splits)
  then show ?thesis
  proof cases
    case 1
    then show ?thesis using ps P kP unfolding K_def [symmetric] by (auto simp: change_batch_def split: sum.splits)
  next
    case (2 r)
    then have "WriteRec ?tc ?tk r \<in> set ?B" by (simp add: change_batch_def)
    from kT [OF this] 2 ps P kP show ?thesis
      unfolding K_def [symmetric] by (auto simp: change_batch_def split: sum.splits if_splits)
  next
    case 3
    then show ?thesis using ps P kP unfolding K_def [symmetric] by (auto simp: change_batch_def split: sum.splits)
  qed
qed

subsection \<open>A due change is applied\<close>

lemma settings_yields: "healthy env d \<Longrightarrow> yields (communitySettingsRecord env did) s (settings_of s did)"
  unfolding communitySettingsRecord_def by (rule healthy_read)

lemma objections_yields:
  assumes "healthy env d"
  shows "yields (countableObjections env did k proposal) s (objections_at env s did k proposal)"
  unfolding countableObjections_def objections_at_def
  by (cases "objection_ctx_of did k proposal") (auto intro!: yields_bind [OF healthy_read [OF assms]])

lemma record_yields:
  assumes "healthy env d"
  shows "yields (recordToWrite env did proposal) s (record_to_write s did proposal)"
  unfolding recordToWrite_def
  by (auto simp: record_to_write_def Let_def intro!: yields_bind [OF settings_yields [OF assms]])

lemma problem_yields:
  assumes "healthy env d"
  shows "yields (proposalApplicationProblem env did proposal) s (application_problem s did proposal)"
  unfolding proposalApplicationProblem_def
  by (auto simp: application_problem_def intro!: yields_bind [OF record_yields [OF assms]])

lemma ops_yields:
  assumes "healthy env d" "application_problem s did proposal = None"
  shows "yields (proposedChangeOps env did proposal) s (change_ops env s did proposal)"
proof -
  have rec: "yields (recordToWrite env did proposal) s' (record_to_write s did proposal)" if "untouched s s'" for s'
    using record_yields [OF assms(1), of did proposal s'] by (simp add: untouched_spec(1) [OF that])
  note problem = problem_yields [OF assms(1), of did proposal s, unfolded assms(2)]
  show ?thesis
  proof (cases "is_write_proposal proposal")
    case True
    have "yields (bindM (proposalApplicationProblem env did proposal) (\<lambda>problem. case problem of
        Some p \<Rightarrow> throw (Unapplicable p)
      | None \<Rightarrow> bindM (recordToWrite env did proposal)
          (\<lambda>rec. ret [WriteRec (target_coll env proposal) (target_rkey env proposal) rec]))) s
      [WriteRec (target_coll env proposal) (target_rkey env proposal) (record_to_write s did proposal)]"
      by (rule yields_bind [OF problem]) (simp, erule yields_bind [OF rec], simp)
    with True show ?thesis by (simp add: proposedChangeOps_def change_ops_def Let_def)
  next
    case False
    then show ?thesis
      by (auto simp: proposedChangeOps_def change_ops_def Let_def intro!: yields_bind [OF healthy_read [OF assms(1)]])
  qed
qed

lemma write_op_yields:
  assumes "healthy env d"
  shows "yields (proposalWriteOp env did k rec) s (stored_proposal s did k rec)"
  unfolding proposalWriteOp_def stored_proposal_def proposal_at_def
  by (auto intro!: yields_bind [OF healthy_read [OF assms]])

definition no_failure :: "'a io \<Rightarrow> world \<Rightarrow> 'a \<Rightarrow> bool" where
  "no_failure m s x \<longleftrightarrow> (\<exists>s'. m s = (Inr x, s'))"

lemma no_failure_after:
  "yields m s x \<Longrightarrow> (\<And>s'. untouched s s' \<Longrightarrow> no_failure (k x) s' y) \<Longrightarrow> no_failure (bindM m k) s y"
  "yields m s x \<Longrightarrow> (\<And>s'. untouched s s' \<Longrightarrow> no_failure n s' y) \<Longrightarrow> no_failure (seqM m n) s y"
  unfolding no_failure_def yields_def by (fastforce simp: run_simps)+

lemma applyLocked_applies:
  assumes h: "healthy env did" and sync: "in_sync env did s" "map_of (w_repos s) did = Some t"
    and plain: "plain_collections s did" "CHR ''/'' \<notin> set (target_coll env proposal)"
    and due: "due s did k now proposal applyAt" "\<not> held_up env s did k proposal"
    and applicable: "application_problem s did proposal = None"
  shows "no_failure (applyLocked env did k now) s Applied"
proof -
  let ?B = "change_batch env s did k now proposal"
  have batch: "no_failure (bindM (applyWrites env did ?B) (\<lambda>_. seqM (auditLog env a b c d) (ret Applied))) s' Applied"
    if "untouched s s'" for s' a b c d
  proof -
    have "\<exists>x u. applyWrites env did ?B s' = (Inr x, u)"
    proof (rule healthy_applyWrites [OF h])
      show "map_of (w_repos s') did = Some t" using that sync by (simp add: untouched_def)
      show "?B \<noteq> []" by (simp add: change_batch_def)
      show "ops_valid t (map fst ps)" if "prepare_ops env (known_keys s' did ?B) ?B = Inr ps" for ps
        using that unfolding untouched_one_commit(3) [OF \<open>untouched s s'\<close>]
        by (rule change_batch_valid [OF h sync plain due(1)])
    qed
    then obtain x u where u: "applyWrites env did ?B s' = (Inr x, u)" by blast
    obtain v where "auditLog env a b c d u = (Inr (), v)" using yields_audit unfolding yields_def by blast
    with u show ?thesis by (simp add: no_failure_def run_simps)
  qed
  have perform: "no_failure (performLocked env did k now applyAt proposal) s' Applied" if "untouched s s'" for s'
    unfolding performLocked_def
  proof (rule no_failure_after(2) [OF healthy_key [OF h]], rule no_failure_after(1) [OF problem_yields [OF h]], goal_cases)
    case (1 s1 s2)
    with that have u: "untouched s s1" "untouched s s2" by (auto intro: untouched_trans)
    have a: "application_problem s1 did proposal = None" "application_problem s2 did proposal = None"
      using applicable by (simp_all add: untouched_spec [OF u(1)] untouched_spec [OF u(2)])
    show ?case
      unfolding a(1) option.case
    proof (rule no_failure_after(1) [OF ops_yields [OF h a(2)]], rule no_failure_after(1) [OF write_op_yields [OF h]], goal_cases)
      case (1 s3 s4)
      with u have u: "untouched s s3" "untouched s s4" "untouched s s2" by (auto intro: untouched_trans)
      have "WriteRec PROPOSAL_COLLECTION k (stored_proposal s3 did k (applied_state proposal (iso now))) #
          change_ops env s2 did proposal = ?B"
        by (simp add: change_batch_def untouched_spec [OF u(1)] untouched_spec [OF u(3)])
      with batch [OF u(2)] show ?case by simp
    qed
  qed
  have p: "truthy proposal" "jget proposal ''status'' = JStr PENDING_STATUS" "jget proposal ''applyAt'' = JStr applyAt"
    "applyAt \<noteq> []" "\<not> iso now < applyAt" "record_or_null (proposal_at s did k) = proposal"
    using due(1) by (cases proposal, auto simp: due_def)
  show ?thesis
    unfolding applyLocked_def
  proof (rule no_failure_after(1) [OF healthy_read [OF h]], goal_cases)
    case (1 s1)
    have "no_failure (bindM (countableObjections env did k proposal) (\<lambda>objections.
         bindM (communitySettingsRecord env did) (\<lambda>settings.
           if objectionThreshold settings \<le> int (length objections)
           then holdLocked env did k now applyAt proposal settings objections
           else performLocked env did k now applyAt proposal))) s1 Applied"
    proof (rule no_failure_after(1) [OF objections_yields [OF h]], rule no_failure_after(1) [OF settings_yields [OF h]], goal_cases)
      case (1 s2 s3)
      with \<open>untouched s s1\<close> have u: "untouched s s2" "untouched s s3" by (auto intro: untouched_trans)
      have "objections_at env s1 did k proposal = objections_at env s did k proposal" "settings_of s2 did = settings_of s did"
        using \<open>untouched s s1\<close> u by (simp_all add: untouched_spec untouched_tables)
      with due(2) perform [OF u(2)] show ?case by (simp add: held_up_def)
    qed
    with p(1-5) show ?case unfolding p(6) by simp
  qed
qed

text \<open>What the change leaves in the record the proposal names.\<close>

definition change_made :: "env \<Rightarrow> world \<Rightarrow> string \<Rightarrow> jv \<Rightarrow> world \<Rightarrow> bool" where
  "change_made env s did proposal s' =
     (let here = indexed s' did (target_coll env proposal) (target_rkey env proposal)
      in if is_write_proposal proposal then \<exists>cid. here = Some (cid, json_clean (record_to_write s did proposal))
         else if jget proposal ''action'' = JStr ''delete'' then here = None else True)"

lemma batch_makes_change:
  assumes "batch_indexed env did (change_batch env s did k now proposal) s s'" "due s did k now proposal applyAt"
  shows "change_made env s did proposal s'"
proof -
  let ?B = "change_batch env s did k now proposal"
  from assms(1) obtain ps where ps: "prepare_ops env (known_keys s did ?B) ?B = Inr ps" "indexed_after did ps s s'"
    by (auto simp: batch_indexed_def)
  from ps(2) have here: "look_index s' = ops_effect (map (index_op did) ps) (look_index s)"
    by (simp add: indexed_after_def)
  show ?thesis
    using ps(1) due_stored [OF assms(2)]
    by (cases "look_index s (did, target_coll env proposal, target_rkey env proposal)") (auto simp: change_made_def here change_batch_def change_ops_def Let_def indexed_look split: sum.splits if_splits)
qed



end
