(* ===== verification/Reading.thy ===== *)
theory Reading
  imports CommunityAdmin Voting
begin

text \<open>
  Reading: \<^verbatim>\<open>src/xrpc/pagination.ts\<close>, the repository endpoints \<^verbatim>\<open>src/api/com.atproto.repo.getRecord.ts\<close>,
  \<^verbatim>\<open>listRecords\<close>, \<^verbatim>\<open>describeRepo\<close>, \<^verbatim>\<open>com.atproto.sync.getRepo.ts\<close>, and the community endpoints \<open>get\<close>, \<open>listAll\<close>,
  \<open>listMine\<close>, \<open>listMembers\<close>, \<open>listRoles\<close>, \<open>listProposals\<close>, \<open>listApplications\<close>, \<open>listJoinRequests\<close>,
  \<open>verifyMembership\<close>, \<open>getDelegation\<close> and \<^verbatim>\<open>net.openfederation.calendar.listEvents.ts\<close>.

  The parameters of a request are an object \<open>q\<close>, which the router has checked against the lexicon;
  queries the code sends together run one after the other here.
\<close>

subsection \<open>Parameters\<close>

text \<open>\<open>parseInt\<close> with radix 10, and without a radix, which also reads hexadecimal.\<close>

definition signed_prefix :: "(string \<Rightarrow> nat option) \<Rightarrow> string \<Rightarrow> int option" where
  "signed_prefix magnitude s = (case dropWhile is_space s of
      CHR ''-'' # r \<Rightarrow> map_option (\<lambda>n. - int n) (magnitude r)
    | CHR ''+'' # r \<Rightarrow> map_option int (magnitude r)
    | r \<Rightarrow> map_option int (magnitude r))"

definition decimal_prefix :: "string \<Rightarrow> nat option" where
  "decimal_prefix s = (case takeWhile is_digit s of [] \<Rightarrow> None | ds \<Rightarrow> digits_value ds)"

definition hex_prefix :: "string \<Rightarrow> nat option" where
  "hex_prefix s = (case takeWhile (\<lambda>c. radix_digit 16 c \<noteq> None) s of
      [] \<Rightarrow> None
    | ds \<Rightarrow> Some (foldl (\<lambda>n c. 16 * n + the (radix_digit 16 c)) 0 ds))"

definition parse_int :: "string \<Rightarrow> int option" where
  "parse_int = signed_prefix decimal_prefix"

definition parse_int_any :: "string \<Rightarrow> int option" where
  "parse_int_any = signed_prefix (\<lambda>r.
     if take 2 r = ''0x'' \<or> take 2 r = ''0X'' then hex_prefix (drop 2 r) else decimal_prefix r)"

text \<open>\<open>n || d\<close> where \<open>n\<close> may be NaN.\<close>

definition or_else :: "int option \<Rightarrow> int \<Rightarrow> int" where
  "or_else n d = (case n of None \<Rightarrow> d | Some i \<Rightarrow> if i = 0 then d else i)"

text \<open>\<open>String(q.k || '')\<close>\<close>

definition qstr :: "env \<Rightarrow> jv \<Rightarrow> string \<Rightarrow> string" where
  "qstr env q k = (if truthy (jget q k) then prop_key env (jget q k) else [])"

definition qint :: "env \<Rightarrow> jv \<Rightarrow> string \<Rightarrow> int \<Rightarrow> int option" where
  "qint env q k d = (if truthy (jget q k) then parse_int (prop_key env (jget q k)) else Some d)"

definition parsePagination :: "env \<Rightarrow> jv \<Rightarrow> int \<Rightarrow> int \<Rightarrow> nat \<times> string" where
  "parsePagination env q defaultLimit maxLimit =
     (nat (min (max (or_else (qint env q ''limit'' defaultLimit) defaultLimit) 1) maxLimit),
      case jget q ''cursor'' of JStr c \<Rightarrow> c | _ \<Rightarrow> [])"

text \<open>The other limits and offsets. A negative \<open>LIMIT\<close> is an error of the database.\<close>

definition page_limit :: "env \<Rightarrow> jv \<Rightarrow> int" where
  "page_limit env q = min (or_else (qint env q ''limit'' 50) 50) 100"

definition page_offset :: "env \<Rightarrow> jv \<Rightarrow> nat" where
  "page_offset env q = nat (max (or_else (qint env q ''offset'' 0) 0) 0)"

definition page :: "int \<Rightarrow> nat \<Rightarrow> 'a list \<Rightarrow> exn + 'a list" where
  "page limit offset rows =
     (if limit < 0 then Inl (Failure ''LIMIT must not be negative'') else Inr (take (nat limit) (drop offset rows)))"

definition dbPage :: "env \<Rightarrow> int \<Rightarrow> nat \<Rightarrow> (world \<Rightarrow> 'a list) \<Rightarrow> 'a list io" where
  "dbPage env limit offset f = bindM (dbRead env (\<lambda>s. page limit offset (f s))) liftE"

definition any_limit :: "env \<Rightarrow> jv \<Rightarrow> nat" where
  "any_limit env q = nat (min (max (or_else (case jget q ''limit'' of JUndef \<Rightarrow> None
     | v \<Rightarrow> parse_int_any (prop_key env v)) 50) 1) 100)"

text \<open>\<open>req.query.k as string\<close>, with \<open>!v || !v.startsWith('did:')\<close>.\<close>

definition did_parameter :: "jv \<Rightarrow> string option io" where
  "did_parameter v = (if \<not> truthy v then ret None
     else (case v of
         JStr did \<Rightarrow> ret (if take 4 did = ''did:'' then Some did else None)
       | _ \<Rightarrow> throw (TypeError ''startsWith is not a function'')))"

definition readable_did :: "env \<Rightarrow> request \<Rightarrow> jv \<Rightarrow> (string \<Rightarrow> reply io) \<Rightarrow> reply io" where
  "readable_did env req v k = handler (bindM (did_parameter v) (\<lambda>did. case did of
      None \<Rightarrow> ret (err 400 ''InvalidRequest'')
    | Some communityDid \<Rightarrow> guardM (requireCommunityReadable env req communityDid) (\<lambda>_. k communityDid)))"

subsection \<open>Repositories\<close>

definition record_json :: "string \<Rightarrow> string \<Rightarrow> string \<times> string \<times> jv \<Rightarrow> jv" where
  "record_json repo coll row = (case row of (rkey, cid, rec) \<Rightarrow>
     JObj [(''uri'', JStr (at_uri repo coll rkey)), (''cid'', JStr cid), (''value'', rec)])"

definition getRecord_endpoint :: "env \<Rightarrow> request \<Rightarrow> jv \<Rightarrow> reply io" where
  "getRecord_endpoint env req q = handler
     (case (jget q ''repo'', jget q ''collection'', jget q ''rkey'') of
        (JStr repo, JStr coll, JStr rkey) \<Rightarrow>
          if repo = [] \<or> coll = [] \<or> rkey = [] \<or> take 4 repo \<noteq> ''did:'' then ret (err 400 ''InvalidRequest'')
          else guardM (requireRepoReadable env req repo) (\<lambda>_.
               bindM (getRecord env repo coll rkey) (\<lambda>result. case result of
                 None \<Rightarrow> ret (err 404 ''RecordNotFound'')
               | Some (cid, rec) \<Rightarrow>
                   (case jget q ''cid'' of
                      JStr wanted \<Rightarrow> if wanted \<noteq> [] \<and> wanted \<noteq> cid then ret (err 404 ''RecordNotFound'')
                                     else ret (Reply 200 (record_json repo coll (rkey, cid, rec)))
                    | _ \<Rightarrow> ret (Reply 200 (record_json repo coll (rkey, cid, rec))))))
      | _ \<Rightarrow> ret (err 400 ''InvalidRequest''))"

definition listRecords_endpoint :: "env \<Rightarrow> request \<Rightarrow> jv \<Rightarrow> reply io" where
  "listRecords_endpoint env req q = handler
     (let repo = qstr env q ''repo''; coll = qstr env q ''collection'';
          (limit, cursor) = parsePagination env q 50 100; reverse = (jget q ''reverse'' = JStr ''true'')
      in if take 4 repo \<noteq> ''did:'' \<or> coll = [] then ret (err 400 ''InvalidRequest'')
         else guardM (requireRepoReadable env req repo) (\<lambda>_.
              bindM (listRecords env repo coll limit cursor reverse) (\<lambda>(rows, next_cursor).
                ret (ok ([(''records'', JArr (map (record_json repo coll) rows))]
                         @ (case next_cursor of None \<Rightarrow> [] | Some c \<Rightarrow> [(''cursor'', JStr c)]))))))"

definition repo_handle :: "world \<Rightarrow> string \<Rightarrow> string option" where
  "repo_handle s did = map_option u_handle (find (\<lambda>u. u_did u = did) (w_users s))"

definition collections_of :: "world \<Rightarrow> string \<Rightarrow> string list" where
  "collections_of s did = sort_lt (<) (remdups (map (\<lambda>((_, coll, _), _). coll) (filter (\<lambda>((d, _, _), _). d = did) (w_index s))))"

definition describe_reply :: "env \<Rightarrow> string \<Rightarrow> string option \<Rightarrow> reply io" where
  "describe_reply env repo owner = (case owner of
      None \<Rightarrow> ret (err 404 ''RepoNotFound'')
    | Some handle \<Rightarrow> bindM (dbRead env (\<lambda>s. collections_of s repo)) (\<lambda>collections.
        ret (ok [(''handle'', JStr handle), (''did'', JStr repo), (''didDoc'', JObj []),
                 (''collections'', JArr (map JStr collections)), (''handleIsCorrect'', JBool True)])))"

definition describeRepo :: "env \<Rightarrow> request \<Rightarrow> jv \<Rightarrow> reply io" where
  "describeRepo env req q = handler
     (let repo = qstr env q ''repo''
      in if take 4 repo \<noteq> ''did:'' then ret (err 400 ''InvalidRequest'')
         else guardM (requireRepoReadable env req repo) (\<lambda>_.
              bindM (dbRead env (\<lambda>s. map_option c_handle (map_of (w_communities s) repo))) (\<lambda>community.
                if community \<noteq> None then describe_reply env repo community
                else bindM (dbRead env (\<lambda>s. repo_handle s repo)) (describe_reply env repo))))"

text \<open>The container a repository is exported in comes from the repository library.\<close>

definition syncGetRepo :: "env \<Rightarrow> (mst \<Rightarrow> exn + jv) \<Rightarrow> request \<Rightarrow> jv \<Rightarrow> reply io" where
  "syncGetRepo env car req q = handler
     (let did = qstr env q ''did''
      in if take 4 did \<noteq> ''did:'' then ret (err 400 ''InvalidRequest'')
         else guardM (requireRepoReadable env req did) (\<lambda>_.
              bindM (hasRepo env did) (\<lambda>present.
                if \<not> present then ret (err 404 ''RepoNotFound'')
                else bindM (loadRepo env did) (\<lambda>t. bindM (liftE (car t)) (\<lambda>bytes. ret (Reply 200 bytes))))))"

subsection \<open>One community\<close>

definition membership_json :: "membership \<Rightarrow> jv" where
  "membership_json m = JObj
     ([(''status'', JStr (ms_status m))]
      @ opt_field (ms_role m \<noteq> JUndef) ''role'' (ms_role m)
      @ opt_field (ms_roleRkey m \<noteq> JUndef) ''roleRkey'' (ms_roleRkey m)
      @ opt_field (ms_kind m \<noteq> JUndef) ''kind'' (ms_kind m)
      @ opt_field (ms_tags m \<noteq> JUndef) ''tags'' (ms_tags m)
      @ opt_field (ms_attributes m \<noteq> JUndef) ''attributes'' (ms_attributes m)
      @ opt_field (ms_role m = JUndef) ''joinRequestStatus'' (JStr (ms_status m)))"

definition member_count :: "world \<Rightarrow> string \<Rightarrow> nat" where
  "member_count s did = length (filter (\<lambda>((c, _), _). c = did) (w_members s))"

definition record_at :: "world \<Rightarrow> string \<Rightarrow> string \<Rightarrow> jv" where
  "record_at s did coll = (case indexed s did coll ''self'' of None \<Rightarrow> JUndef | Some (_, rec) \<Rightarrow> rec)"

definition is_admin :: "auth option \<Rightarrow> bool" where
  "is_admin caller \<longleftrightarrow> (case caller of None \<Rightarrow> False | Some a \<Rightarrow> ''admin'' \<in> set (a_roles a))"

definition is_owner :: "community_row \<Rightarrow> auth option \<Rightarrow> bool" where
  "is_owner com caller \<longleftrightarrow> (case caller of None \<Rightarrow> False | Some a \<Rightarrow> c_owner_did com = Some (a_did a))"

text \<open>A membership read off a join request is the one without a role.\<close>

definition community_json ::
  "string \<Rightarrow> community_row \<Rightarrow> jv \<Rightarrow> jv \<Rightarrow> nat \<Rightarrow> auth option \<Rightarrow> membership option \<Rightarrow> jv" where
  "community_json did com profile settings memberCount caller mine = JObj
     ([(''did'', JStr did), (''handle'', JStr (c_handle com)), (''didMethod'', JStr (c_did_method com)),
       (''displayName'', js_or (jget profile ''displayName'') (JStr (c_handle com))),
       (''description'', js_or (jget profile ''description'') (JStr [])),
       (''visibility'', js_or (jget settings ''visibility'') (JStr ''public'')),
       (''joinPolicy'', js_or (jget settings ''joinPolicy'') (JStr ''open'')),
       (''memberCount'', jnat memberCount), (''createdAt'', JStr (iso (c_created_at com))),
       (''status'', JStr (c_status com)), (''statusReason'', str_or_null (c_status_reason com)),
       (''isOwner'', JBool (is_owner com caller)),
       (''isMember'', JBool (map_option ms_status mine = Some ''member'')),
       (''joinRequestStatus'', case mine of Some m \<Rightarrow> if ms_role m = JUndef then JStr (ms_status m) else JNull | None \<Rightarrow> JNull)]
      @ (case mine of None \<Rightarrow> [] | Some m \<Rightarrow> [(''myMembership'', membership_json m)]))"

definition shown_community ::
  "env \<Rightarrow> string \<Rightarrow> community_row \<Rightarrow> jv \<Rightarrow> jv \<Rightarrow> nat \<Rightarrow> auth option \<Rightarrow> reply io" where
  "shown_community env did com profile settings memberCount caller =
     bindM (getCallerMembership env did caller) (\<lambda>mine.
       ret (Reply 200 (community_json did com profile settings memberCount caller mine)))"

definition getCommunity :: "env \<Rightarrow> request \<Rightarrow> jv \<Rightarrow> reply io" where
  "getCommunity env req q = handler
     (let did = qstr env q ''did''; caller = q_auth req
      in if did = [] then ret (err 400 ''InvalidRequest'')
         else bindM (dbRead env (\<lambda>s. map_of (w_communities s) did)) (\<lambda>row. case row of
             None \<Rightarrow> ret (err 404 ''NotFound'')
           | Some com \<Rightarrow>
             if c_status com = ''takendown'' \<and> \<not> is_admin caller then ret (err 410 ''CommunityTakenDown'')
             else bindM (dbRead env (\<lambda>s. record_at s did PROFILE_COLLECTION)) (\<lambda>profile.
                  bindM (dbRead env (\<lambda>s. record_at s did SETTINGS_COLLECTION)) (\<lambda>settings.
                  bindM (dbRead env (\<lambda>s. member_count s did)) (\<lambda>memberCount.
                    if js_or (jget settings ''visibility'') (JStr ''public'') = JStr ''private''
                       \<and> \<not> is_owner com caller \<and> \<not> is_admin caller
                    then (case caller of
                        None \<Rightarrow> ret (err 404 ''NotFound'')
                      | Some a \<Rightarrow>
                        if a_userId a = [] then ret (err 404 ''NotFound'')
                        else bindM (dbRead env (\<lambda>s. map_of (w_members s) (did, a_did a) \<noteq> None)) (\<lambda>member.
                               if \<not> member then ret (err 404 ''NotFound'')
                               else shown_community env did com profile settings memberCount caller))
                    else shown_community env did com profile settings memberCount caller)))))"

definition verifyMembership :: "env \<Rightarrow> request \<Rightarrow> jv \<Rightarrow> reply io" where
  "verifyMembership env req q = handler
     (let communityDid = jget q ''communityDid''; memberDid = jget q ''memberDid''
      in if \<not> truthy communityDid \<or> \<not> truthy memberDid then ret (err 400 ''InvalidRequest'')
         else (let c = prop_key env communityDid; m = prop_key env memberDid in
           guardM (requireCommunityReadable env req c) (\<lambda>_.
           bindM (dbRead env (\<lambda>s. map_option m_record_rkey (map_of (w_members s) (c, m)))) (\<lambda>row. case row of
               None \<Rightarrow> ret (ok [(''isMember'', JBool False)])
             | Some rkey \<Rightarrow>
               bindM (dbRead env (\<lambda>s. record_or_null (indexed s c MEMBER_COLLECTION rkey))) (\<lambda>rec.
                 ret (ok [(''isMember'', JBool True), (''role'', js_or (jget rec ''role'') (JStr ''member''))]))))))"

subsection \<open>Listings of one community\<close>

text \<open>\<open>joined\<close> is the text of the field \<open>joinedAt\<close> in the record of the member, if there is one.\<close>

definition member_json :: "string option \<Rightarrow> string \<Rightarrow> member_row \<Rightarrow> jv" where
  "member_json joined did row = JObj
     ([(''did'', JStr did), (''handle'', str_or_null (m_handle row)),
       (''displayName'', str_or_null (coalesce (m_display_name row) (m_handle row))),
       (''avatarUrl'', str_or_null (m_avatar_url row)),
       (''role'', case m_role row of Some r \<Rightarrow> JStr r
                  | None \<Rightarrow> JStr (if nonempty_str (m_role_rkey row) then ''custom'' else ''member'')),
       (''joinedAt'', JStr (case joined of Some t \<Rightarrow> t | None \<Rightarrow> iso (m_created_at row)))]
      @ opt_field (nonempty_str (m_role_rkey row)) ''roleRkey'' (str_or_null (m_role_rkey row))
      @ opt_field (nonempty_str (m_kind row)) ''kind'' (str_or_null (m_kind row))
      @ opt_field (arr_or_nil (m_tags row) \<noteq> []) ''tags'' (m_tags row)
      @ opt_field (truthy (m_attributes row) \<and> typeof_object (m_attributes row) \<and> has_keys (m_attributes row))
          ''attributes'' (m_attributes row))"

definition members_by_age :: "world \<Rightarrow> string \<Rightarrow> (string \<times> member_row) list" where
  "members_by_age s did = sort_lt (\<lambda>a b. m_created_at (snd a) < m_created_at (snd b))
     (map (\<lambda>((_, d), row). (d, row)) (filter (\<lambda>((c, _), _). c = did) (w_members s)))"

definition joined_at :: "env \<Rightarrow> world \<Rightarrow> string \<Rightarrow> string \<Rightarrow> string option" where
  "joined_at env s did rkey = Option.bind (indexed s did MEMBER_COLLECTION rkey)
     (\<lambda>(_, rec). json_text (e_text env) (jget rec ''joinedAt''))"

definition members_reply :: "env \<Rightarrow> string \<Rightarrow> int \<Rightarrow> nat \<Rightarrow> (string \<times> member_row) list \<Rightarrow> nat \<Rightarrow> reply io" where
  "members_reply env did limit offset rows count =
     bindM (if rows = [] then ret (\<lambda>_. None) else dbRead env (\<lambda>s. joined_at env s did)) (\<lambda>joined.
       ret (ok [(''members'', JArr (map (\<lambda>(d, row). member_json (joined (m_record_rkey row)) d row) rows)),
                (''total'', jnat count), (''limit'', jint limit), (''offset'', jnat offset)]))"

definition listMembers :: "env \<Rightarrow> request \<Rightarrow> jv \<Rightarrow> reply io" where
  "listMembers env req q = handler (authM req (\<lambda>a.
     let did = qstr env q ''did''; limit = page_limit env q; offset = page_offset env q
     in if did = [] then ret (err 400 ''InvalidRequest'')
        else bindM (getCommunityAccess env did (Some a)) (\<lambda>access.
          if \<not> cp_exists access then ret (err 404 ''NotFound'')
          else if cp_visibility access = ''private'' \<and> \<not> canViewPrivateCommunity access
          then ret (err 403 ''Forbidden'')
          else bindM (dbPage env limit offset (\<lambda>s. members_by_age s did)) (\<lambda>rows.
               bindM (dbRead env (\<lambda>s. member_count s did)) (\<lambda>count.
                 members_reply env did limit offset rows count)))))"

definition join_json :: "world \<Rightarrow> string \<times> join_row \<Rightarrow> jv" where
  "join_json s r = (case r of (userId, row) \<Rightarrow>
     JObj [(''id'', JStr (jr_id row)), (''userId'', JStr userId), (''userDid'', JStr (jr_user_did row)),
           (''handle'', JStr (case find (\<lambda>u. u_id u = userId) (w_users s) of None \<Rightarrow> ''unknown'' | Some u \<Rightarrow> u_handle u)),
           (''status'', JStr (jr_status row))])"

definition pending_joins :: "world \<Rightarrow> string \<Rightarrow> (string \<times> join_row) list" where
  "pending_joins s did = map (\<lambda>((_, u), row). (u, row))
     (filter (\<lambda>((c, _), row). c = did \<and> jr_status row = ''pending'') (rev (w_joins s)))"

text \<open>
  The table of join requests has the newest first, the reply the oldest. The instant of creation, which
  the reply shows beside them, is not in the model.
\<close>

definition listJoinRequests :: "env \<Rightarrow> request \<Rightarrow> jv \<Rightarrow> reply io" where
  "listJoinRequests env req q = handler (authM req (\<lambda>a.
     let did = qstr env q ''did''; limit = page_limit env q; offset = page_offset env q
     in if did = [] then ret (err 400 ''InvalidRequest'')
        else bindM (getCommunityAccess env did (Some a)) (\<lambda>access.
          if \<not> cp_exists access then ret (err 404 ''NotFound'')
          else if \<not> cp_isOwner access \<and> \<not> cp_isAdmin access then ret (err 403 ''Forbidden'')
          else bindM (dbPage env limit offset (\<lambda>s. map (join_json s) (pending_joins s did))) (\<lambda>requests.
               bindM (dbRead env (\<lambda>s. length (pending_joins s did))) (\<lambda>count.
                 ret (ok [(''requests'', JArr requests), (''total'', jnat count), (''limit'', jint limit),
                          (''offset'', jnat offset)]))))))"

text \<open>Members by the key of their role, and those without a key by the name of their role.\<close>

definition role_members :: "env \<Rightarrow> world \<Rightarrow> string \<Rightarrow> string \<Rightarrow> jv \<Rightarrow> nat" where
  "role_members env s did rkey name =
     (let T = e_text env; rows = coll_rows s did MEMBER_COLLECTION;
          key = (\<lambda>rec. json_text T (jget rec ''roleRkey''))
      in length (filter (\<lambda>(_, _, rec). key rec = Some rkey) rows)
         + (case name of
              JStr n \<Rightarrow> length (filter (\<lambda>(_, _, rec). key rec = None \<and> json_text T (jget rec ''role'') = Some n) rows)
            | _ \<Rightarrow> 0))"

definition role_json :: "env \<Rightarrow> (string \<Rightarrow> jv \<Rightarrow> nat) \<Rightarrow> string \<Rightarrow> string \<times> string \<times> jv \<Rightarrow> jv" where
  "role_json env count did row = (case row of (rkey, _, rec) \<Rightarrow>
     JObj [(''uri'', JStr (at_uri did ROLE_COLLECTION rkey)), (''rkey'', JStr rkey), (''name'', jget rec ''name''),
           (''description'', jget rec ''description''), (''permissions'', js_or (jget rec ''permissions'') (JArr [])),
           (''memberCount'', jnat (count rkey (jget rec ''name'')))])"

definition by_rkey :: "(string \<times> 'a) list \<Rightarrow> (string \<times> 'a) list" where
  "by_rkey = sort_lt (\<lambda>a b. fst a < fst b)"

definition listRoles :: "env \<Rightarrow> request \<Rightarrow> jv \<Rightarrow> reply io" where
  "listRoles env req q = readable_did env req (jget q ''communityDid'') (\<lambda>communityDid.
     bindM (dbRead env (\<lambda>s. by_rkey (coll_rows s communityDid ROLE_COLLECTION))) (\<lambda>roles.
     bindM (dbRead env (\<lambda>s. coll_rows s communityDid MEMBER_COLLECTION)) (\<lambda>_.
     bindM (dbRead env (\<lambda>s. role_members env s communityDid)) (\<lambda>count.
       ret (ok [(''roles'', JArr (map (role_json env count communityDid) roles))])))))"

definition proposal_page :: "env \<Rightarrow> world \<Rightarrow> string \<Rightarrow> jv \<Rightarrow> jv \<Rightarrow> nat \<Rightarrow> (string \<times> string \<times> jv) list" where
  "proposal_page env s did status cursor n =
     take n (sort_lt (\<lambda>a b. fst b < fst a)
       (filter (\<lambda>(rkey, _, rec). (\<not> truthy status \<or> json_text (e_text env) (jget rec ''status'') = Some (prop_key env status))
                  \<and> (\<not> truthy cursor \<or> prop_key env cursor < rkey))
          (coll_rows s did PROPOSAL_COLLECTION)))"

definition proposal_json :: "string \<Rightarrow> string \<times> string \<times> jv \<Rightarrow> jv" where
  "proposal_json did row = (case row of (rkey, _, rec) \<Rightarrow>
     jassign (JObj [(''uri'', JStr (at_uri did PROPOSAL_COLLECTION rkey)), (''rkey'', JStr rkey)]) (spread_entries rec))"

definition proposals_reply :: "string \<Rightarrow> nat \<Rightarrow> (string \<times> string \<times> jv) list \<Rightarrow> reply" where
  "proposals_reply did limit rows =
     (let shown = take limit rows in
      ok ([(''proposals'', JArr (map (proposal_json did) shown))]
          @ opt_field (limit < length rows) ''cursor'' (JStr (fst (last shown)))))"

definition listProposals :: "env \<Rightarrow> request \<Rightarrow> jv \<Rightarrow> reply io" where
  "listProposals env req q = readable_did env req (jget q ''communityDid'') (\<lambda>communityDid.
     bindM (applyDueProposals env communityDid) (\<lambda>_.
     bindM (closeExpiredOverrides env communityDid) (\<lambda>_.
     bindM (dbRead env (\<lambda>s. proposal_page env s communityDid (jget q ''status'') (jget q ''cursor'') (any_limit env q + 1)))
       (\<lambda>rows. ret (proposals_reply communityDid (any_limit env q) rows)))))"

definition EVENT_COLLECTION :: string where
  "EVENT_COLLECTION = ''community.lexicon.calendar.event''"

text \<open>The rows of the index are in the order in which they were first written.\<close>

definition listEvents :: "env \<Rightarrow> request \<Rightarrow> jv \<Rightarrow> reply io" where
  "listEvents env req q = handler
     (let community = qstr env q ''community''
      in if community = [] then ret (err 400 ''InvalidRequest'')
         else guardM (requireCommunityReadable env req community) (\<lambda>_.
              bindM (dbRead env (\<lambda>s. take 200 (rev (coll_rows s community EVENT_COLLECTION)))) (\<lambda>rows.
                ret (ok [(''events'', JArr (map (\<lambda>(rkey, cid, rec).
                   JObj [(''uri'', JStr (at_uri community EVENT_COLLECTION rkey)), (''cid'', JStr cid), (''record'', rec)]) rows))]))))"

subsection \<open>Listings nobody is kept from\<close>

definition application_json :: "string \<Rightarrow> string \<times> string \<times> jv \<Rightarrow> jv" where
  "application_json did row = (case row of (rkey, cid, rec) \<Rightarrow>
     JObj [(''uri'', JStr (at_uri did APPLICATION_COLLECTION rkey)), (''rkey'', JStr rkey), (''cid'', JStr cid),
           (''appType'', jget rec ''appType''), (''instanceUrl'', jget rec ''instanceUrl''),
           (''displayName'', js_or (jget rec ''displayName'') JNull), (''linkedAt'', jget rec ''linkedAt''),
           (''linkedBy'', jget rec ''linkedBy'')])"

definition listApplications :: "env \<Rightarrow> jv \<Rightarrow> reply io" where
  "listApplications env q = handler
     (if \<not> truthy (jget q ''did'') then ret (err 400 ''InvalidRequest'')
      else (let did = prop_key env (jget q ''did'') in
        bindM (dbRead env (\<lambda>s. community_status s did)) (\<lambda>status.
          if status \<noteq> Some ''active'' then ret (err 404 ''NotFound'')
          else bindM (dbRead env (\<lambda>s. by_rkey (coll_rows s did APPLICATION_COLLECTION))) (\<lambda>rows.
                 ret (ok [(''applications'', JArr (map (application_json did) rows))])))))"

definition delegations_where :: "env \<Rightarrow> world \<Rightarrow> string \<Rightarrow> string \<Rightarrow> string \<Rightarrow> jv list" where
  "delegations_where env s communityDid field memberDid =
     map (\<lambda>(_, _, rec). rec) (filter (\<lambda>(_, _, rec). json_text (e_text env) (jget rec field) = Some memberDid)
       (coll_rows s communityDid DELEGATION_COLLECTION))"

definition getDelegation :: "env \<Rightarrow> jv \<Rightarrow> reply io" where
  "getDelegation env q = handler
     (if \<not> truthy (jget q ''communityDid'') \<or> \<not> truthy (jget q ''memberDid'') then ret (err 400 ''InvalidRequest'')
      else (let c = prop_key env (jget q ''communityDid''); m = prop_key env (jget q ''memberDid'') in
        bindM (dbRead env (\<lambda>s. delegations_where env s c ''delegatorDid'' m)) (\<lambda>delegatedTo.
        bindM (dbRead env (\<lambda>s. delegations_where env s c ''delegateDid'' m)) (\<lambda>delegatedFrom.
          ret (ok [(''memberDid'', jget q ''memberDid''),
                   (''delegatedTo'', js_or (case delegatedTo of [] \<Rightarrow> JUndef | rec # _ \<Rightarrow> jget rec ''delegateDid'') JNull),
                   (''delegatedFrom'', JArr (filter truthy (map (\<lambda>rec. jget rec ''delegatorDid'') delegatedFrom)))])))))"

text \<open>
  The attestation of a community elsewhere: how its server is found and what it answers are
  parameters, \<^verbatim>\<open>federation/remote-verify.ts\<close>.
\<close>

definition ATTESTATION_COLLECTION :: string where
  "ATTESTATION_COLLECTION = ''net.openfederation.community.attestation''"

record remote_pds =
  rp_pds :: "string \<Rightarrow> exn + string option"
  rp_record :: "string \<Rightarrow> string \<Rightarrow> string \<Rightarrow> exn + (string \<times> jv) option"

definition attestation_json :: "string \<Rightarrow> string \<Rightarrow> jv \<Rightarrow> jv" where
  "attestation_json uri rkey rec = JObj
     [(''uri'', JStr uri), (''rkey'', JStr rkey), (''subjectDid'', jget rec ''subjectDid''),
      (''subjectHandle'', jget rec ''subjectHandle''), (''type'', jget rec ''type''), (''claim'', jget rec ''claim''),
      (''issuedAt'', jget rec ''issuedAt''), (''expiresAt'', jget rec ''expiresAt'')]"

definition is_expired :: "env \<Rightarrow> jv \<Rightarrow> bool io" where
  "is_expired env rec = (let e = jget rec ''expiresAt'' in
     if \<not> truthy e then ret False
     else bindM (nowMs env) (\<lambda>now. ret (case js_date env e of None \<Rightarrow> False | Some t \<Rightarrow> t < now)))"

definition invalid_attestation :: "string \<Rightarrow> jv \<Rightarrow> (string \<times> jv) list \<Rightarrow> reply" where
  "invalid_attestation communityDid handle extra =
     ok ([(''valid'', JBool False), (''communityDid'', JStr communityDid), (''communityHandle'', handle)] @ extra)"

definition remote_attestation :: "env \<Rightarrow> remote_pds \<Rightarrow> string \<Rightarrow> string \<Rightarrow> reply io" where
  "remote_attestation env remote communityDid rkey =
     bindM (liftE (rp_pds remote communityDid)) (\<lambda>pds. case pds of
       None \<Rightarrow> ret (invalid_attestation communityDid JNull
                 [(''remote'', JBool True), (''error'', JStr ''Could not resolve community DID to a PDS'')])
     | Some url \<Rightarrow>
       if url = [] then ret (invalid_attestation communityDid JNull
                 [(''remote'', JBool True), (''error'', JStr ''Could not resolve community DID to a PDS'')])
       else bindM (liftE (rp_record remote url communityDid rkey)) (\<lambda>found. case found of
           Some (uri, rec) \<Rightarrow>
             if \<not> truthy rec then ret (invalid_attestation communityDid JNull [(''remote'', JBool True), (''pdsUrl'', JStr url)])
             else bindM (is_expired env rec) (\<lambda>expired.
               ret (ok [(''valid'', JBool (\<not> expired)), (''remote'', JBool True), (''pdsUrl'', JStr url),
                        (''attestation'', attestation_json uri rkey rec), (''communityDid'', JStr communityDid),
                        (''communityHandle'', JNull), (''expired'', JBool expired)]))
         | None \<Rightarrow> ret (invalid_attestation communityDid JNull [(''remote'', JBool True), (''pdsUrl'', JStr url)])))"

definition verifyAttestation :: "env \<Rightarrow> remote_pds \<Rightarrow> jv \<Rightarrow> reply io" where
  "verifyAttestation env remote q = handler
     (if \<not> truthy (jget q ''communityDid'') \<or> \<not> truthy (jget q ''rkey'') then ret (err 400 ''InvalidRequest'')
      else (let c = prop_key env (jget q ''communityDid''); rkey = prop_key env (jget q ''rkey'') in
        bindM (dbRead env (\<lambda>s. map_option c_handle (map_of (w_communities s) c))) (\<lambda>handle.
        bindM (dbRead env (\<lambda>s. indexed s c ATTESTATION_COLLECTION rkey)) (\<lambda>row. case row of
            None \<Rightarrow> if handle \<noteq> None then ret (invalid_attestation c (str_or_null (nonempty handle)) [])
                    else remote_attestation env remote c rkey
          | Some (_, rec) \<Rightarrow> bindM (is_expired env rec) (\<lambda>expired.
              ret (ok [(''valid'', JBool (\<not> expired)),
                       (''attestation'', attestation_json (at_uri c ATTESTATION_COLLECTION rkey) rkey rec),
                       (''communityDid'', JStr c), (''communityHandle'', str_or_null (nonempty handle)),
                       (''expired'', JBool expired)]))))))"

subsection \<open>All communities\<close>

text \<open>Newest first; communities created at the same instant in the order of the table.\<close>

definition newest_first :: "(string \<times> community_row) list \<Rightarrow> (string \<times> community_row) list" where
  "newest_first = sort_lt (\<lambda>a b. c_created_at (snd b) < c_created_at (snd a))"

definition visibility_text :: "env \<Rightarrow> world \<Rightarrow> string \<Rightarrow> string" where
  "visibility_text env s did =
     (case json_text (e_text env) (jget (record_at s did SETTINGS_COLLECTION) ''visibility'') of
        None \<Rightarrow> ''public'' | Some v \<Rightarrow> v)"

definition joined :: "world \<Rightarrow> string \<Rightarrow> string \<Rightarrow> bool" where
  "joined s did member \<longleftrightarrow> map_of (w_members s) (did, member) \<noteq> None"

text \<open>What the \<open>WHERE\<close> clause keeps: everything for an administrator who asks for it, otherwise the
  active public communities the caller has not joined.\<close>

definition listed :: "env \<Rightarrow> world \<Rightarrow> auth option \<Rightarrow> bool \<Rightarrow> string \<times> community_row \<Rightarrow> bool" where
  "listed env s caller showAll r \<longleftrightarrow> showAll \<or>
     (c_status (snd r) = ''active'' \<and> visibility_text env s (fst r) = ''public''
      \<and> (case caller of None \<Rightarrow> True | Some a \<Rightarrow> \<not> joined s (fst r) (a_did a)))"

definition pending_status :: "world \<Rightarrow> string \<Rightarrow> auth option \<Rightarrow> jv" where
  "pending_status s did caller =
     (case Option.bind caller (\<lambda>a. map_of (w_joins s) (did, a_userId a)) of
        Some row \<Rightarrow> if jr_status row = ''pending'' then JStr ''pending'' else JNull
      | None \<Rightarrow> JNull)"

definition listed_json :: "world \<Rightarrow> auth option \<Rightarrow> bool \<Rightarrow> string \<times> community_row \<Rightarrow> jv" where
  "listed_json s caller showAll r = (case r of (did, com) \<Rightarrow>
     (let profile = record_at s did PROFILE_COLLECTION; settings = record_at s did SETTINGS_COLLECTION
      in JObj [(''did'', JStr did), (''handle'', JStr (c_handle com)), (''didMethod'', JStr (c_did_method com)),
               (''displayName'', js_or (jget profile ''displayName'') (JStr (c_handle com))),
               (''description'', js_or (jget profile ''description'') (JStr [])),
               (''visibility'', js_or (jget settings ''visibility'') (JStr ''public'')),
               (''joinPolicy'', js_or (jget settings ''joinPolicy'') (JStr ''open'')),
               (''memberCount'', jnat (member_count s did)), (''createdAt'', JStr (iso (c_created_at com))),
               (''status'', JStr (if c_status com = [] then ''active'' else c_status com)),
               (''isMember'', JBool (showAll \<and> (case caller of None \<Rightarrow> False | Some a \<Rightarrow> joined s did (a_did a)))),
               (''joinRequestStatus'', pending_status s did caller)]))"

definition listAllCommunities :: "env \<Rightarrow> request \<Rightarrow> jv \<Rightarrow> reply io" where
  "listAllCommunities env req q = handler
     (let limit = page_limit env q; offset = page_offset env q; caller = q_auth req;
          showAll = (qstr env q ''mode'' = ''all'' \<and> is_admin caller);
          rows = (\<lambda>s. filter (listed env s caller showAll) (w_communities s))
      in bindM (dbRead env (\<lambda>s. length (rows s))) (\<lambda>count.
         bindM (dbPage env limit offset (\<lambda>s. map (listed_json s caller showAll) (newest_first (rows s)))) (\<lambda>shown.
           ret (ok [(''communities'', JArr shown), (''total'', jnat count), (''limit'', jint limit),
                    (''offset'', jnat offset)]))))"

definition mine_json :: "env \<Rightarrow> world \<Rightarrow> string \<Rightarrow> string \<times> community_row \<Rightarrow> jv" where
  "mine_json env s member r = (case r of (did, com) \<Rightarrow>
     (let profile = record_at s did PROFILE_COLLECTION; T = e_text env;
          rec = record_or_null (Option.bind (map_of (w_members s) (did, member))
                  (\<lambda>row. indexed s did MEMBER_COLLECTION (m_record_rkey row)));
          text_or = (\<lambda>v d. case json_text T v of None \<Rightarrow> JStr d | Some t \<Rightarrow> JStr (if t = [] then d else t))
      in JObj [(''did'', JStr did), (''handle'', JStr (c_handle com)), (''didMethod'', JStr (c_did_method com)),
               (''displayName'', text_or (jget profile ''displayName'') (c_handle com)),
               (''description'', text_or (jget profile ''description'') []),
               (''createdAt'', JStr (iso (c_created_at com))),
               (''role'', text_or (jget rec ''role'') ''member'')]))"

text \<open>This endpoint catches nothing: the router renders what it throws.\<close>

definition listMyCommunities :: "env \<Rightarrow> request \<Rightarrow> jv \<Rightarrow> reply io" where
  "listMyCommunities env req q = authM req (\<lambda>a.
     let limit = page_limit env q; offset = page_offset env q
     in bindM (dbPage env limit offset (\<lambda>s. map (mine_json env s (a_did a))
              (newest_first (filter (\<lambda>r. joined s (fst r) (a_did a)) (w_communities s))))) (\<lambda>shown.
          ret (ok [(''communities'', JArr shown), (''limit'', jint limit), (''offset'', jnat offset)])))"


end
