(* ===== verification/Redaction.thy ===== *)
theory Redaction
  imports Endpoints
begin

text \<open>
  Programs that do not see a part of the state. Erasing that part first makes no difference to what
  such a program answers, and the state it leaves is the one it leaves otherwise, with the part erased.
  Here the part is all a private community keeps: \<open>redact\<close>.
\<close>

subsection \<open>Oblivious programs\<close>

definition oblivious :: "('s \<Rightarrow> 's) \<Rightarrow> ('s, 'e, 'a) prog \<Rightarrow> bool" where
  "oblivious h m \<longleftrightarrow> (\<forall>s. m (h s) = (fst (m s), h (snd (m s))))"

lemma obliviousD: "oblivious h m \<Longrightarrow> m s = (r, t) \<Longrightarrow> m (h s) = (r, h t)"
  by (simp add: oblivious_def)

lemma ob_ret: "oblivious h (ret x)"
  by (simp add: oblivious_def ret_def)

lemma ob_throw: "oblivious h (throw e)"
  by (simp add: oblivious_def throw_def)

lemma ob_liftE: "oblivious h (liftE r)"
  by (cases r) (simp_all add: oblivious_def run_simps)

lemma ob_bind: "oblivious h m \<Longrightarrow> (\<And>x. oblivious h (k x)) \<Longrightarrow> oblivious h (bindM m k)"
  by (auto simp: oblivious_def run_simps split: prod.split sum.split)

lemma ob_seq: "oblivious h m \<Longrightarrow> oblivious h k \<Longrightarrow> oblivious h (seqM m k)"
  unfolding seqM_def by (intro ob_bind)

lemma ob_catch: "oblivious h m \<Longrightarrow> (\<And>e. oblivious h (k e)) \<Longrightarrow> oblivious h (catchM m k)"
  by (auto simp: oblivious_def run_simps split: prod.split sum.split)

lemma ob_fold: "(\<And>acc x. oblivious h (f acc x)) \<Longrightarrow> oblivious h (foldM f acc xs)"
  by (induction xs arbitrary: acc) (auto intro: ob_ret ob_bind)

lemma ob_if: "(b \<Longrightarrow> oblivious h m) \<Longrightarrow> (\<not> b \<Longrightarrow> oblivious h k) \<Longrightarrow> oblivious h (if b then m else k)"
  by simp

lemma ob_option:
  "(x = None \<Longrightarrow> oblivious h m) \<Longrightarrow> (\<And>y. x = Some y \<Longrightarrow> oblivious h (f y)) \<Longrightarrow> oblivious h (case x of None \<Rightarrow> m | Some y \<Rightarrow> f y)"
  by (cases x) simp_all

lemma ob_sum:
  "(\<And>e. x = Inl e \<Longrightarrow> oblivious h (f e)) \<Longrightarrow> (\<And>y. x = Inr y \<Longrightarrow> oblivious h (g y)) \<Longrightarrow> oblivious h (case x of Inl e \<Rightarrow> f e | Inr y \<Rightarrow> g y)"
  by (cases x) simp_all

lemma ob_list:
  "(x = [] \<Longrightarrow> oblivious h m) \<Longrightarrow> (\<And>y ys. x = y # ys \<Longrightarrow> oblivious h (f y ys)) \<Longrightarrow> oblivious h (case x of [] \<Rightarrow> m | y # ys \<Rightarrow> f y ys)"
  by (cases x) simp_all

lemma ob_prod: "(\<And>a b. x = (a, b) \<Longrightarrow> oblivious h (f a b)) \<Longrightarrow> oblivious h (case x of (a, b) \<Rightarrow> f a b)"
  by (cases x) simp

lemma ob_let: "(\<And>y. y = x \<Longrightarrow> oblivious h (f y)) \<Longrightarrow> oblivious h (let y = x in f y)"
  by simp

lemma ob_str:
  "(\<And>s. v = JStr s \<Longrightarrow> oblivious h (f s)) \<Longrightarrow> oblivious h m \<Longrightarrow> oblivious h (case v of JStr s \<Rightarrow> f s | _ \<Rightarrow> m)"
  by (cases v) simp_all

lemma ob_op:
  "(\<And>c k r. x = CreateOp c k r \<Longrightarrow> oblivious h m) \<Longrightarrow> (\<And>c k r. x = UpdateOp c k r \<Longrightarrow> oblivious h m)
   \<Longrightarrow> (\<And>c k. x = DeleteOp c k \<Longrightarrow> oblivious h (f c k))
   \<Longrightarrow> oblivious h (case x of DeleteOp c k \<Rightarrow> f c k | _ \<Rightarrow> m)"
  by (cases x) simp_all

lemmas ob_rules = ob_ret ob_throw ob_liftE ob_bind ob_seq ob_catch ob_fold ob_if ob_option ob_sum ob_list ob_prod ob_let ob_str

lemma ob_handler: "oblivious h m \<Longrightarrow> oblivious h (handler m)"
  unfolding handler_def by (intro ob_rules)

lemma ob_guardM: "oblivious h g \<Longrightarrow> (\<And>x. oblivious h (k x)) \<Longrightarrow> oblivious h (guardM g k)"
  unfolding guardM_def by (intro ob_rules)

lemma ob_authM: "(\<And>a. oblivious h (k a)) \<Longrightarrow> oblivious h (authM req k)"
  unfolding authM_def by (intro ob_rules)

subsection \<open>Statements\<close>

text \<open>What is hidden is neither the counters nor the accounts nor the log.\<close>

locale hiding =
  fixes hide :: "world \<Rightarrow> world"
  assumes same_ops [simp]: "w_ops (hide s) = w_ops s" and same_ticks [simp]: "w_ticks (hide s) = w_ticks s"
    and same_tids [simp]: "w_tids (hide s) = w_tids s" and same_users [simp]: "w_users (hide s) = w_users s"
    and same_audit [simp]: "w_audit (hide s) = w_audit s"
    and hide_ops: "hide (s\<lparr>w_ops := n\<rparr>) = (hide s)\<lparr>w_ops := n\<rparr>"
    and hide_ticks: "hide (s\<lparr>w_ticks := n\<rparr>) = (hide s)\<lparr>w_ticks := n\<rparr>"
    and hide_tids: "hide (s\<lparr>w_tids := n\<rparr>) = (hide s)\<lparr>w_tids := n\<rparr>"
    and hide_audit: "hide (s\<lparr>w_audit := a\<rparr>) = (hide s)\<lparr>w_audit := a\<rparr>"
begin

lemma ob_dbRead: "(\<And>s. f (hide s) = f s) \<Longrightarrow> oblivious hide (dbRead env f)"
  by (auto simp: oblivious_def dbRead_def Let_def hide_ops split: option.split fault.split)

lemma ob_dbTxn:
  assumes "\<And>s. f (hide s) = (case f s of Inl e \<Rightarrow> Inl e | Inr t \<Rightarrow> Inr (hide t))"
  shows "oblivious hide (dbTxn env f)"
  by (auto simp: oblivious_def dbTxn_def Let_def hide_ops [symmetric] assms split: option.split fault.split sum.split)

lemma ob_dbWrite: "(\<And>s. f (hide s) = hide (f s)) \<Longrightarrow> oblivious hide (dbWrite env f)"
  unfolding dbWrite_def by (rule ob_dbTxn) simp

lemma ob_nowMs: "oblivious hide (nowMs env)"
  by (simp add: oblivious_def nowMs_def hide_ticks)

lemma ob_nowIso: "oblivious hide (nowIso env)"
  unfolding nowIso_def by (intro ob_rules ob_nowMs)

lemma ob_generateTid: "oblivious hide (generateTid env)"
  by (simp add: oblivious_def generateTid_def hide_tids)

lemma ob_getKeypair: "oblivious hide (getKeypairForDid env did)"
  unfolding getKeypairForDid_def by (intro ob_rules)

lemma ob_cidForRecord: "oblivious hide (cidForRecord env rec)"
  unfolding cidForRecord_def by (intro ob_rules)

lemma ob_auditLog: "oblivious hide (auditLog env action actor target meta)"
  unfolding auditLog_def
  by (intro ob_rules ob_dbWrite) (simp add: is_pseudonym_def hide_audit)

lemma ob_lock:
  assumes "\<And>n s. e_wait env n (hide s) = hide (e_wait env n s)" "oblivious hide m"
  shows "oblivious hide (withAdvisoryLock env key m)"
proof -
  have "oblivious hide (\<lambda>s. m (e_wait env (w_ops s) s))"
    using assms by (simp add: oblivious_def)
  then show ?thesis unfolding withAdvisoryLock_def by (intro ob_bind ob_dbRead) simp_all
qed

lemmas ob_steps = ob_nowMs ob_nowIso ob_generateTid ob_getKeypair ob_cidForRecord ob_auditLog

end

subsection \<open>What a community keeps\<close>

text \<open>
  The records of a community, its members and join requests and its repository. Its
  settings still say who may see it; votes and objections are kept by those who cast them,
  and the row of the community itself is public.
\<close>

fun redact_row :: "string \<Rightarrow> (string \<times> string \<times> string) \<times> (string \<times> jv) \<Rightarrow> ((string \<times> string \<times> string) \<times> (string \<times> jv)) option" where
  "redact_row c ((d, coll, k), (cid, rec)) =
     (if d \<noteq> c \<or> coll = VOTE_COLLECTION \<or> coll = OBJECTION_COLLECTION then Some ((d, coll, k), (cid, rec))
      else if coll = SETTINGS_COLLECTION \<and> k = ''self''
      then Some ((d, coll, k), ([], JObj [(''visibility'', jget rec ''visibility'')]))
      else None)"

definition redact :: "string \<Rightarrow> world \<Rightarrow> world" where
  "redact c s = s\<lparr>
     w_index := List.map_filter (redact_row c) (w_index s),
     w_members := filter (\<lambda>((d, _), _). d \<noteq> c) (w_members s),
     w_joins := filter (\<lambda>((d, _), _). d \<noteq> c) (w_joins s),
     w_repos := filter (\<lambda>(d, _). d \<noteq> c) (w_repos s)\<rparr>"

interpretation redacted: hiding "redact c" for c
  by unfold_locales (simp_all add: redact_def)

lemma redact_rows [simp]:
  "w_communities (redact c s) = w_communities s" "w_users (redact c s) = w_users s"
  "w_ticks (redact c s) = w_ticks s"
  by (simp_all add: redact_def)

lemma redact_row_key: "redact_row c (x, v) = Some (y, w) \<Longrightarrow> y = x"
  by (cases x; cases v) (auto split: if_splits)

lemma map_of_redact:
  "map_of (List.map_filter (redact_row c) xs) x =
     (case map_of xs x of None \<Rightarrow> None | Some v \<Rightarrow> map_option snd (redact_row c (x, v)))"
proof (induction xs)
  case (Cons p xs)
  obtain y v where p: "p = (y, v)" by (cases p)
  show ?case
  proof (cases "redact_row c (y, v)")
    case None
    moreover have "redact_row c (y, w) = None" for w using None by (cases y; cases v; cases w) (auto split: if_splits)
    ultimately show ?thesis using Cons by (auto simp: p List.map_filter_simps split: option.split)
  next
    case (Some q)
    obtain z w where q: "q = (z, w)" by (cases q)
    then have "z = y" using redact_row_key Some by blast
    with Some q Cons show ?thesis by (auto simp: p List.map_filter_simps)
  qed
qed (simp add: List.map_filter_simps)

lemma indexed_redact:
  "indexed (redact c s) d coll k = (case indexed s d coll k of None \<Rightarrow> None
     | Some v \<Rightarrow> map_option snd (redact_row c ((d, coll, k), v)))"
  by (simp add: indexed_def redact_def map_of_redact)

lemma indexed_elsewhere [simp]: "d \<noteq> c \<Longrightarrow> indexed (redact c s) d coll = indexed s d coll"
  by (rule ext) (auto simp: indexed_redact split: option.split)

lemma filter_redact:
  assumes "\<And>x v. P (x, v) \<Longrightarrow> redact_row c (x, v) = Some (x, v)"
    and "\<And>x v y. \<not> P (x, v) \<Longrightarrow> redact_row c (x, v) = Some y \<Longrightarrow> \<not> P y"
  shows "filter P (List.map_filter (redact_row c) xs) = filter P xs"
proof (induction xs)
  case (Cons p xs)
  obtain x v where p: "p = (x, v)" by (cases p)
  show ?case
    using Cons assms by (cases "P (x, v)") (auto simp: p List.map_filter_simps split: option.split)
qed (simp add: List.map_filter_simps)

lemma elsewhere_rows [simp]:
  "d \<noteq> c \<Longrightarrow> filter (\<lambda>((e, _, _), _). e = d) (w_index (redact c s)) = filter (\<lambda>((e, _, _), _). e = d) (w_index s)"
  unfolding redact_def by (simp, rule filter_redact) (auto split: if_splits)

lemma coll_rows_elsewhere [simp]: "d \<noteq> c \<Longrightarrow> coll_rows (redact c s) d coll = coll_rows s d coll"
  unfolding coll_rows_def redact_def by (simp, rule arg_cong [where f = "map _"], rule filter_redact) (auto split: if_splits)

lemma existing_keys_elsewhere [simp]: "d \<noteq> c \<Longrightarrow> existing_keys (redact c s) d ks = existing_keys s d ks"
  by (simp add: existing_keys_def)

lemma settings_not_cast: "SETTINGS_COLLECTION \<noteq> VOTE_COLLECTION" "SETTINGS_COLLECTION \<noteq> OBJECTION_COLLECTION"
  by (simp_all add: collection_defs)

lemma cast_rows [simp]:
  "coll = VOTE_COLLECTION \<or> coll = OBJECTION_COLLECTION \<Longrightarrow> record_rows env (redact c s) coll d k = record_rows env s coll d k"
  unfolding record_rows_def redact_def
  by (simp, rule arg_cong [where f = "map _"], rule filter_redact) (auto simp: settings_not_cast split: if_splits)

lemma map_of_filter_key: "map_of (filter (\<lambda>(x, _). P x) xs) x = (if P x then map_of xs x else None)"
  by (induction xs) auto

lemma repos_elsewhere [simp]: "d \<noteq> c \<Longrightarrow> map_of (w_repos (redact c s)) d = map_of (w_repos s) d"
  by (simp add: redact_def map_of_filter_key)

lemma filter_fst_conv: "filter (\<lambda>((d, e), v). P d) xs = filter (\<lambda>(x, v). P (fst x)) xs"
  by (rule filter_cong) auto

lemma pairs_elsewhere [simp]:
  "d \<noteq> c \<Longrightarrow> map_of (w_members (redact c s)) (d, x) = map_of (w_members s) (d, x)"
  "d \<noteq> c \<Longrightarrow> map_of (w_joins (redact c s)) (d, x) = map_of (w_joins s) (d, x)"
  "map_of (w_members (redact c s)) (c, x) = None" "map_of (w_joins (redact c s)) (c, x) = None"
  by (simp_all add: redact_def filter_fst_conv map_of_filter_key)

subsection \<open>Writing elsewhere\<close>

lemma update_redact:
  "d \<noteq> c \<Longrightarrow> AList.update (d, y) v (List.map_filter (redact_row c) xs) = List.map_filter (redact_row c) (AList.update (d, y) v xs)"
proof (induction xs)
  case Nil
  then show ?case by (cases y; cases v) (simp add: List.map_filter_simps)
next
  case (Cons p xs)
  obtain x w where p: "p = (x, w)" by (cases p)
  have keep: "redact_row c ((d, y), u) = Some ((d, y), u)" for u using Cons.prems by (cases y; cases u) simp
  show ?case
  proof (cases "x = (d, y)")
    case True
    with keep show ?thesis by (simp add: p List.map_filter_simps)
  next
    case False
    then have "redact_row c (x, w) = Some q \<Longrightarrow> fst q \<noteq> (d, y)" for q using redact_row_key [of c x w] by (cases q) auto
    with False Cons show ?thesis by (auto simp: p List.map_filter_simps split: option.split)
  qed
qed

lemma delete_redact:
  "AList.delete x (List.map_filter (redact_row c) xs) = List.map_filter (redact_row c) (AList.delete x xs)"
proof (induction xs)
  case (Cons p xs)
  obtain z w where p: "p = (z, w)" by (cases p)
  have "redact_row c (z, w) = Some q \<Longrightarrow> fst q = z" for q using redact_row_key [of c z w] by (cases q) auto
  with Cons show ?case by (auto simp: p List.map_filter_simps AList.delete_eq split: option.split)
qed (simp add: List.map_filter_simps)

lemma update_filter_key:
  "P x \<Longrightarrow> AList.update x v (filter (\<lambda>(y, _). P y) xs) = filter (\<lambda>(y, _). P y) (AList.update x v xs)"
  by (induction xs) auto

lemma redact_index_put: "d \<noteq> c \<Longrightarrow> index_put d coll k cid rec (redact c s) = redact c (index_put d coll k cid rec s)"
  by (simp add: index_put_def redact_def update_redact)

lemma redact_index_del: "index_del d coll k (redact c s) = redact c (index_del d coll k s)"
  by (simp add: index_del_def redact_def delete_redact)

lemma redact_repos: "d \<noteq> c \<Longrightarrow>
  (redact c s)\<lparr>w_repos := AList.update d t (w_repos (redact c s))\<rparr> = redact c (s\<lparr>w_repos := AList.update d t (w_repos s)\<rparr>)"
  by (simp add: redact_def update_filter_key)

lemma redact_member_row: "d \<noteq> c \<Longrightarrow>
  (redact c s)\<lparr>w_members := AList.update (d, x) row (w_members (redact c s))\<rparr> = redact c (s\<lparr>w_members := AList.update (d, x) row (w_members s)\<rparr>)"
  by (simp add: redact_def filter_fst_conv update_filter_key)

lemma redact_project: "d \<noteq> c \<Longrightarrow> projectMemberRow env d k rec (redact c s) = redact c (projectMemberRow env d k rec s)"
  by (simp add: projectMemberRow_def redact_member_row Let_def split: option.split)

lemma redact_drop_members:
  "(redact c s)\<lparr>w_members := filter (\<lambda>((e, _), row). \<not> (e = d \<and> m_record_rkey row = k)) (w_members (redact c s))\<rparr>
   = redact c (s\<lparr>w_members := filter (\<lambda>((e, _), row). \<not> (e = d \<and> m_record_rkey row = k)) (w_members s)\<rparr>)"
  by (simp add: redact_def conj_commute)

lemma redact_sync_ops:
  "d \<noteq> c \<Longrightarrow> sync_ops env d ops (redact c s) = (case sync_ops env d ops s of Inl e \<Rightarrow> Inl e | Inr t \<Rightarrow> Inr (redact c t))"
proof (induction env d ops s rule: sync_ops.induct)
  case (3 env d coll k rec cid ops s)
  then show ?case by (cases "case cid of Some x \<Rightarrow> Inr x | None \<Rightarrow> e_cid env rec")
    (auto simp: redact_index_put redact_project Let_def split: option.splits)
next
  case (4 env d coll k rec cid ops s)
  then show ?case by (cases "case cid of Some x \<Rightarrow> Inr x | None \<Rightarrow> e_cid env rec")
    (auto simp: redact_index_put redact_project Let_def split: option.splits)
qed (simp_all add: redact_index_del)

lemma ob_sync: "d \<noteq> c \<Longrightarrow> oblivious (redact c) (syncRecordsIndex env d ops)"
  unfolding syncRecordsIndex_def by (intro redacted.ob_dbTxn redact_sync_ops)

lemma ob_remove: "oblivious (redact c) (removeFromRecordsIndex env d coll k)"
  unfolding removeFromRecordsIndex_def by (intro ob_rules redacted.ob_dbWrite redact_index_del redact_drop_members)

lemma ob_load: "d \<noteq> c \<Longrightarrow> oblivious (redact c) (loadRepo env d)"
  unfolding loadRepo_def by (intro ob_rules redacted.ob_dbRead) simp

lemma ob_commit: "d \<noteq> c \<Longrightarrow> oblivious (redact c) (commitRepo env d t ops)"
  unfolding commitRepo_def by (intro ob_rules redacted.ob_dbWrite redact_repos)

lemma ob_putRecord: "d \<noteq> c \<Longrightarrow> oblivious (redact c) (putRecord env d coll k rec)"
  unfolding putRecord_def by (intro ob_rules ob_load ob_commit ob_sync redacted.ob_steps redacted.ob_dbRead) simp_all

lemma ob_sync_one: "d \<noteq> c \<Longrightarrow> oblivious (redact c) (sync_one env d op)"
  unfolding sync_one_def by (intro ob_op ob_sync ob_remove)

lemma ob_applyWrites: "d \<noteq> c \<Longrightarrow> oblivious (redact c) (applyWrites env d ops)"
  unfolding applyWrites_def by (intro ob_rules ob_load ob_commit ob_sync_one redacted.ob_dbRead) simp_all

subsection \<open>The contest window elsewhere\<close>

lemma settings_elsewhere [simp]: "d \<noteq> c \<Longrightarrow> settings_of (redact c s) d = settings_of s d"
  by (simp add: settings_of_def)

lemma proposal_elsewhere [simp]: "d \<noteq> c \<Longrightarrow> proposal_at (redact c s) d k = proposal_at s d k"
  by (simp add: proposal_at_def)

lemma eligible_elsewhere [simp]: "d \<noteq> c \<Longrightarrow> eligible_voters env (redact c s) d = eligible_voters env s d"
  by (simp add: eligible_voters_def eligible_row_def)

lemma due_elsewhere [simp]: "d \<noteq> c \<Longrightarrow> due_rkeys env (redact c s) d st dl now = due_rkeys env s d st dl now"
  by (simp add: due_rkeys_def)

lemmas ob_all = ob_rules redacted.ob_steps redacted.ob_dbRead

lemma ob_window_reads:
  assumes "d \<noteq> c"
  shows "oblivious (redact c) (communitySettingsRecord env d)" "oblivious (redact c) (countableObjections env d k p)"
    "oblivious (redact c) (countEligibleVoters env d)" "oblivious (redact c) (recordToWrite env d p)"
    "oblivious (redact c) (proposalWriteOp env d k p)"
  unfolding communitySettingsRecord_def countableObjections_def countEligibleVoters_def recordToWrite_def proposalWriteOp_def
  by (intro ob_all; use assms in simp)+

lemma ob_change:
  assumes "d \<noteq> c"
  shows "oblivious (redact c) (proposalApplicationProblem env d p)" "oblivious (redact c) (proposedChangeOps env d p)"
    "oblivious (redact c) (heldProposalState env d p st os t)" "oblivious (redact c) (putProposalRecord env d k p)"
  unfolding proposalApplicationProblem_def proposedChangeOps_def heldProposalState_def putProposalRecord_def Let_def
  by (intro ob_all ob_window_reads ob_putRecord assms; use assms in simp)+

lemma ob_locked:
  assumes "d \<noteq> c"
  shows "oblivious (redact c) (applyLocked env d k now)" "oblivious (redact c) (closeLocked env d k now)"
  unfolding applyLocked_def holdLocked_def performLocked_def closeLocked_def
  by (intro ob_all ob_window_reads ob_change ob_applyWrites assms; use assms in simp)+

text \<open>What others do while a lock is awaited carries nothing out of the community either.\<close>

definition waits_oblivious :: "env \<Rightarrow> string \<Rightarrow> bool" where
  "waits_oblivious env c \<longleftrightarrow> (\<forall>n s. e_wait env n (redact c s) = redact c (e_wait env n s))"

lemma ob_passes:
  assumes "d \<noteq> c" "waits_oblivious env c"
  shows "oblivious (redact c) (applyIfDueSafely env d k now)" "oblivious (redact c) (closeExpiredOverrideSafely env d k now)"
proof -
  have w: "e_wait env n (redact c s) = redact c (e_wait env n s)" for n s using assms(2) by (simp add: waits_oblivious_def)
  show "oblivious (redact c) (applyIfDueSafely env d k now)" "oblivious (redact c) (closeExpiredOverrideSafely env d k now)"
    unfolding applyIfDueSafely_def closeExpiredOverrideSafely_def applyIfDue_def closeExpiredOverride_def now_or_def
    by (intro ob_all redacted.ob_lock [OF w] ob_locked assms(1); use assms(1) in simp)+
qed

lemma ob_sweeps:
  assumes "d \<noteq> c" "waits_oblivious env c"
  shows "oblivious (redact c) (applyDueProposals env d)" "oblivious (redact c) (closeExpiredOverrides env d)"
  unfolding applyDueProposals_def closeExpiredOverrides_def
  by (intro ob_all ob_passes assms; use assms in simp)+

lemma ob_objection_status: "d \<noteq> c \<Longrightarrow> oblivious (redact c) (pendingObjectionStatus env d k p)"
  unfolding pendingObjectionStatus_def by (intro ob_all ob_window_reads)

end
