(* ===== verification/PrivateReads.thy ===== *)
theory PrivateReads
  imports Reading Redaction
begin

text \<open>
  What the reading endpoints tell an outsider of a private community: the answer is the one a server
  without the community's records, members and repository would give. Three endpoints ask nobody.
\<close>

subsection \<open>Outsiders\<close>

definition hidden_from :: "world \<Rightarrow> string \<Rightarrow> auth option \<Rightarrow> bool" where
  "hidden_from s c caller \<longleftrightarrow>
     (\<exists>com. map_of (w_communities s) c = Some com \<and> \<not> is_owner com caller) \<and> \<not> is_admin caller \<and>
     jget (record_at s c SETTINGS_COLLECTION) ''visibility'' = JStr ''private'' \<and>
     (case caller of None \<Rightarrow> True
      | Some a \<Rightarrow> map_of (w_members s) (c, a_did a) = None \<and>
          map_option jr_status (map_of (w_joins s) (c, a_userId a)) \<noteq> Some ''member'')"

lemma settings_redact:
  "jget (record_at (redact c s) c SETTINGS_COLLECTION) ''visibility'' = jget (record_at s c SETTINGS_COLLECTION) ''visibility''"
  by (auto simp: record_at_def indexed_redact settings_not_cast split: option.split)

lemma hidden_redact: "hidden_from s c caller \<Longrightarrow> hidden_from (redact c s) c caller"
  by (auto simp: hidden_from_def settings_redact split: option.splits)

lemma hidden_ops [simp]: "hidden_from (s\<lparr>w_ops := n\<rparr>) c caller = hidden_from s c caller"
  by (simp add: hidden_from_def record_at_def indexed_def split: option.split)

lemma fst_read:
  "fst (bindM (dbRead env f) k s) = (case e_fault env (w_ops s) of
      None \<Rightarrow> fst (k (f s) (s\<lparr>w_ops := Suc (w_ops s)\<rparr>))
    | Some (Refused e) \<Rightarrow> Inl e | Some (Unacked e) \<Rightarrow> Inl e)"
  by (simp add: dbRead_def run_simps Let_def split: option.split fault.split)

text \<open>\<open>veiled c s m\<close>: from \<open>s\<close>, the result of \<open>m\<close> does not depend on what \<open>c\<close> keeps.\<close>

definition veiled :: "string \<Rightarrow> world \<Rightarrow> 'a io \<Rightarrow> bool" where
  "veiled c s m \<longleftrightarrow> fst (m (redact c s)) = fst (m s)"

lemma oblivious_veiled: "oblivious (redact c) m \<Longrightarrow> veiled c s m"
  by (simp add: veiled_def oblivious_def)

lemma veiled_catch: "veiled c s m \<Longrightarrow> veiled c s (catchM m (\<lambda>e. ret (f e)))"
  by (auto simp: veiled_def run_simps split: prod.split sum.split)

lemma veiled_handler: "veiled c s m \<Longrightarrow> veiled c s (handler m)"
  unfolding handler_def by (rule veiled_catch)

lemma veiled_read:
  assumes "f (redact c s) = f s" "veiled c (s\<lparr>w_ops := Suc (w_ops s)\<rparr>) (k (f s))"
  shows "veiled c s (bindM (dbRead env f) k)"
  using assms by (simp add: veiled_def fst_read redacted.hide_ops split: option.split fault.split)

lemma veiled_ret: "veiled c s (ret x)"
  by (simp add: veiled_def ret_def)

lemma veiled_authM: "(\<And>a. q_auth req = Some a \<Longrightarrow> veiled c s (k a)) \<Longrightarrow> veiled c s (authM req k)"
  by (auto simp: authM_def requireAuth_def veiled_ret split: option.split)

subsection \<open>Guards\<close>

lemma hidden_access:
  assumes "hidden_from s c caller"
  shows "\<exists>access. community_access (community_context env s c caller) caller = access \<and> cp_exists access
    \<and> cp_visibility access = ''private'' \<and> \<not> canViewPrivateCommunity access \<and> \<not> cp_isOwner access \<and> \<not> cp_isAdmin access"
proof -
  have "json_text (e_text env) (jget (record_or_null (indexed s c SETTINGS_COLLECTION ''self'')) ''visibility'') = Some ''private''"
    using assms by (auto simp: hidden_from_def record_at_def record_or_null_def split: option.splits)
  with assms show ?thesis
    by (auto simp: hidden_from_def community_access_def community_context_def canViewPrivateCommunity_def is_owner_def
        is_admin_def visibility_of_def membershipFromRow_def nonempty_str_def Let_def split: option.splits)
qed

lemma fst_ret: "fst (ret x s) = Inr x"
  by (simp add: ret_def)

lemma veiled_guards:
  assumes "hidden_from s c (q_auth req)"
  shows "veiled c s (guardM (requireRepoReadable env req c) k)" "veiled c s (guardM (requireCommunityReadable env req c) k)"
  using hidden_access [OF assms, of env] hidden_access [OF hidden_redact [OF assms], of env]
  by (simp_all add: veiled_def guardM_def requireRepoReadable_def requireCommunityReadable_def getCommunityAccess_def
      loadCommunityContext_def bindM_assoc fst_read fst_ret split: option.split fault.split)

lemma context_elsewhere [simp]: "d \<noteq> c \<Longrightarrow> community_context env (redact c s) d caller = community_context env s d caller"
  by (simp add: community_context_def Let_def split: option.split)

lemma ob_access:
  assumes "d \<noteq> c"
  shows "oblivious (redact c) (getCommunityAccess env d caller)" "oblivious (redact c) (requireRepoReadable env req d)"
    "oblivious (redact c) (requireCommunityReadable env req d)" "oblivious (redact c) (getCallerMembership env d caller)"
  unfolding requireRepoReadable_def requireCommunityReadable_def getCommunityAccess_def getCallerMembership_def loadCommunityContext_def
  by (intro ob_all; use assms in simp)+

lemmas ob_endpoint = ob_all ob_handler ob_guardM ob_access ob_window_reads ob_passes ob_sweeps ob_objection_status

text \<open>An endpoint that asks the guard of a repository first.\<close>

lemma veiled_repo:
  assumes "hidden_from s c (q_auth req)" "\<And>x. d \<noteq> c \<Longrightarrow> oblivious (redact c) (k x)"
  shows "veiled c s (guardM (requireRepoReadable env req d) k)"
proof (cases "d = c")
  case False
  then show ?thesis using assms(2) by (intro oblivious_veiled ob_guardM ob_access) auto
qed (simp add: veiled_guards(1) [OF assms(1)])

lemma veiled_community:
  assumes "hidden_from s c (q_auth req)" "\<And>x. d \<noteq> c \<Longrightarrow> oblivious (redact c) (k x)"
  shows "veiled c s (guardM (requireCommunityReadable env req d) k)"
proof (cases "d = c")
  case False
  then show ?thesis using assms(2) by (intro oblivious_veiled ob_guardM ob_access) auto
qed (simp add: veiled_guards(2) [OF assms(1)])

lemma veiled_readable_did:
  assumes "hidden_from s c (q_auth req)" "\<And>d. d \<noteq> c \<Longrightarrow> oblivious (redact c) (k d)"
  shows "veiled c s (readable_did env req v k)"
proof -
  have "veiled c s (bindM (did_parameter v) (\<lambda>did. case did of None \<Rightarrow> ret (err 400 ''InvalidRequest'')
      | Some d \<Rightarrow> guardM (requireCommunityReadable env req d) (\<lambda>_. k d)))"
  proof (cases "\<exists>d. did_parameter v = ret (Some d)")
    case True
    then show ?thesis using veiled_community [OF assms(1)] assms(2) by (auto simp: bindM_ret)
  next
    case False
    then have "did_parameter v = ret None \<or> (\<exists>e. did_parameter v = throw e)"
      by (auto simp: did_parameter_def split: jv.splits if_splits)
    then show ?thesis by (auto simp: bindM_ret bindM_throw veiled_ret) (simp add: veiled_def throw_def)
  qed
  then show ?thesis unfolding readable_did_def by (rule veiled_handler)
qed

subsection \<open>The endpoints\<close>

lemma record_elsewhere [simp]: "d \<noteq> c \<Longrightarrow> record_at (redact c s) d coll = record_at s d coll"
  by (simp add: record_at_def)

lemma filter_elsewhere:
  "d \<noteq> c \<Longrightarrow> filter (\<lambda>((e, x), row). e = d \<and> Q x row) (w_members (redact c s)) = filter (\<lambda>((e, x), row). e = d \<and> Q x row) (w_members s)"
  "d \<noteq> c \<Longrightarrow> filter (\<lambda>((e, x), row). e = d \<and> J x row) (rev (w_joins (redact c s))) = filter (\<lambda>((e, x), row). e = d \<and> J x row) (rev (w_joins s))"
  by (auto simp: redact_def rev_filter [symmetric] intro!: filter_cong)

lemma counts_elsewhere [simp]:
  assumes "d \<noteq> c"
  shows "member_count (redact c s) d = member_count s d" "members_by_age (redact c s) d = members_by_age s d"
    "pending_joins (redact c s) d = pending_joins s d" "collections_of (redact c s) d = collections_of s d"
    "joined_at env (redact c s) d = joined_at env s d" "role_members env (redact c s) d = role_members env s d"
    "proposal_page env (redact c s) d st cur n = proposal_page env s d st cur n"
    "joined (redact c s) d = joined s d" "visibility_text env (redact c s) d = visibility_text env s d"
  using filter_elsewhere(1) [OF assms, of "\<lambda>_ _. True" s] filter_elsewhere(2) [OF assms, of "\<lambda>_ row. jr_status row = ''pending''" s] assms
  by (simp_all add: member_count_def members_by_age_def pending_joins_def collections_of_def joined_at_def role_members_def
      proposal_page_def joined_def visibility_text_def fun_eq_iff Let_def)

lemma ob_listRecords: "d \<noteq> c \<Longrightarrow> oblivious (redact c) (listRecords env d coll n cur rv)"
  unfolding listRecords_def by (intro ob_all) simp_all

lemma ob_dbPage: "(\<And>s. f (redact c s) = f s) \<Longrightarrow> oblivious (redact c) (dbPage env limit offset f)"
  unfolding dbPage_def by (intro ob_all) simp_all

lemma veiled_records:
  assumes "hidden_from s c (q_auth req)"
  shows "veiled c s (getRecord_endpoint env req q)" "veiled c s (listRecords_endpoint env req q)"
    "veiled c s (describeRepo env req q)" "veiled c s (syncGetRepo env car req q)"
proof -
  have get: "d \<noteq> c \<Longrightarrow> oblivious (redact c) (getRecord env d coll k)" for d coll k
    unfolding getRecord_def by (intro ob_all) simp
  show "veiled c s (getRecord_endpoint env req q)"
    unfolding getRecord_endpoint_def
    by (rule veiled_handler) (auto split: jv.split option.split intro!: veiled_ret veiled_repo [OF assms] get ob_all)
  show "veiled c s (listRecords_endpoint env req q)"
    unfolding listRecords_endpoint_def Let_def
    by (rule veiled_handler) (auto split: prod.split intro!: veiled_ret veiled_repo [OF assms] ob_bind ob_listRecords ob_rules)
  show "veiled c s (describeRepo env req q)"
    unfolding describeRepo_def Let_def describe_reply_def
    by (rule veiled_handler) (auto intro!: veiled_ret veiled_repo [OF assms] ob_all simp: repo_handle_def)
  show "veiled c s (syncGetRepo env car req q)"
    unfolding syncGetRepo_def Let_def hasRepo_def
    by (rule veiled_handler) (auto intro!: veiled_ret veiled_repo [OF assms] ob_all ob_load)
qed

lemma veiled_listings:
  assumes "hidden_from s c (q_auth req)" "waits_oblivious env c"
  shows "veiled c s (listRoles env req q)" "veiled c s (listProposals env req q)" "veiled c s (listEvents env req q)"
    "veiled c s (verifyMembership env req q)" "veiled c s (getProposal env req d k)"
proof -
  show "veiled c s (listRoles env req q)"
    unfolding listRoles_def by (intro veiled_readable_did [OF assms(1)] ob_all) simp_all
  show "veiled c s (listProposals env req q)"
    unfolding listProposals_def by (intro veiled_readable_did [OF assms(1)] ob_all ob_sweeps assms(2)) simp_all
  show "veiled c s (listEvents env req q)"
    unfolding listEvents_def Let_def
    by (rule veiled_handler) (auto intro!: veiled_ret veiled_community [OF assms(1)] ob_all)
  show "veiled c s (verifyMembership env req q)"
    unfolding verifyMembership_def Let_def
    by (rule veiled_handler) (auto intro!: veiled_ret veiled_community [OF assms(1)] ob_all)
  show "veiled c s (getProposal env req d k)"
    unfolding getProposal_def
    by (rule veiled_handler)
      (auto intro!: veiled_ret veiled_community [OF assms(1)] ob_bind ob_passes assms(2) ob_objection_status ob_rules redacted.ob_dbRead)
qed

lemma veiled_access:
  assumes "hidden_from s c (Some a)" "\<And>access. \<lbrakk>cp_exists access; cp_visibility access = ''private''; \<not> canViewPrivateCommunity access;
      \<not> cp_isOwner access; \<not> cp_isAdmin access\<rbrakk> \<Longrightarrow> k access = ret r"
  shows "veiled c s (bindM (getCommunityAccess env c (Some a)) k)"
  using hidden_access [OF assms(1), of env] hidden_access [OF hidden_redact [OF assms(1)], of env]
  by (auto simp: veiled_def getCommunityAccess_def loadCommunityContext_def bindM_assoc fst_read fst_ret assms(2)
      split: option.split fault.split)

lemma veiled_members:
  assumes "hidden_from s c (q_auth req)"
  shows "veiled c s (listMembers env req q)" "veiled c s (listJoinRequests env req q)"
proof -
  have look: "veiled c s (bindM (getCommunityAccess env d (Some a)) k)"
    if "q_auth req = Some a" "\<And>x. d \<noteq> c \<Longrightarrow> oblivious (redact c) (k x)"
      "\<And>access. \<lbrakk>cp_exists access; cp_visibility access = ''private''; \<not> canViewPrivateCommunity access;
        \<not> cp_isOwner access; \<not> cp_isAdmin access\<rbrakk> \<Longrightarrow> k access = ret r" for a d k and r :: reply
  proof (cases "d = c")
    case True
    show ?thesis unfolding True by (rule veiled_access) (use assms that(1,3) in simp_all)
  next
    case False
    then show ?thesis by (intro oblivious_veiled ob_bind ob_access that(2)) simp_all
  qed
  show "veiled c s (listMembers env req q)"
    unfolding listMembers_def Let_def members_reply_def
    by (rule veiled_handler, rule veiled_authM)
      (auto intro!: veiled_ret look ob_rules ob_dbPage redacted.ob_dbRead)
  show "veiled c s (listJoinRequests env req q)"
    unfolding listJoinRequests_def Let_def
    by (rule veiled_handler, rule veiled_authM)
      (auto intro!: veiled_ret look ob_rules ob_dbPage redacted.ob_dbRead simp: join_json_def)
qed

lemma ob_shown: "d \<noteq> c \<Longrightarrow> oblivious (redact c) (shown_community env d com p st n caller)"
  unfolding shown_community_def by (intro ob_rules ob_access)

lemma veiled_getCommunity:
  assumes "hidden_from s c (q_auth req)"
  shows "veiled c s (getCommunity env req q)"
proof (cases "qstr env q ''did'' = c")
  case False
  then show ?thesis
    unfolding getCommunity_def Let_def by (intro oblivious_veiled ob_handler ob_all ob_shown) simp_all
next
  case True
  have "js_or v (JStr ''public'') = JStr ''private''" if "v = JStr ''private''" for v
    using that by (simp add: js_or_def)
  moreover obtain com where "map_of (w_communities s) c = Some com" "\<not> is_owner com (q_auth req)" "\<not> is_admin (q_auth req)"
    "jget (record_at s c SETTINGS_COLLECTION) ''visibility'' = JStr ''private''"
    "case q_auth req of None \<Rightarrow> True | Some a \<Rightarrow> map_of (w_members s) (c, a_did a) = None"
    using assms by (auto simp: hidden_from_def split: option.splits)
  moreover have "record_at (t\<lparr>w_ops := n\<rparr>) c coll = record_at t c coll" for t n coll
    by (simp add: record_at_def indexed_def)
  ultimately show ?thesis
    unfolding getCommunity_def Let_def True
    by (intro veiled_handler)
      (auto simp: veiled_def fst_read fst_ret redacted.hide_ops settings_redact split: option.splits fault.splits)
qed

text \<open>The listings of all communities pass over the hidden one.\<close>

lemma listed_redact:
  assumes "hidden_from s c caller" "showAll \<longrightarrow> is_admin caller"
  shows "filter (listed env (redact c s) caller showAll) (w_communities s) = filter (listed env s caller showAll) (w_communities s)"
proof (rule filter_cong [OF refl])
  fix r
  have v: "jget (record_at s c SETTINGS_COLLECTION) ''visibility'' = JStr ''private''" and "\<not> showAll"
    using assms by (auto simp: hidden_from_def)
  then show "listed env (redact c s) caller showAll r = listed env s caller showAll r"
    using settings_redact [of c s] by (cases "fst r = c") (simp_all add: listed_def visibility_text_def split: option.split)
qed

lemma listed_not_hidden:
  assumes "hidden_from s c caller" "showAll \<longrightarrow> is_admin caller" "listed env s caller showAll r"
  shows "fst r \<noteq> c"
  using assms by (auto simp: hidden_from_def listed_def visibility_text_def)

lemma set_newest_first [simp]: "set (newest_first rs) = set rs"
  by (simp add: newest_first_def)

lemma veiled_dbPage:
  assumes "f (redact c s) = f s" "\<And>rows t. veiled c t (k rows)"
  shows "veiled c s (bindM (dbPage env limit offset f) k)"
  unfolding dbPage_def bindM_assoc
proof (rule veiled_read)
  show "veiled c (s\<lparr>w_ops := Suc (w_ops s)\<rparr>) (bindM (liftE (page limit offset (f s))) k)"
    using assms(2) by (cases "page limit offset (f s)") (simp_all add: veiled_def run_simps)
qed (simp add: assms(1))

lemma veiled_listAll:
  assumes "hidden_from s c (q_auth req)"
  shows "veiled c s (listAllCommunities env req q)"
proof -
  let ?all = "qstr env q ''mode'' = ''all'' \<and> is_admin (q_auth req)"
  have h: "hidden_from (s\<lparr>w_ops := n\<rparr>) c (q_auth req)" for n using assms by simp
  have rows: "filter (listed env (redact c t) (q_auth req) ?all) (w_communities t) = filter (listed env t (q_auth req) ?all) (w_communities t)"
    if "hidden_from t c (q_auth req)" for t by (rule listed_redact [OF that]) blast
  have shown: "map (listed_json (redact c t) (q_auth req) ?all) (newest_first (filter (listed env (redact c t) (q_auth req) ?all) (w_communities (redact c t))))
      = map (listed_json t (q_auth req) ?all) (newest_first (filter (listed env t (q_auth req) ?all) (w_communities t)))"
    if "hidden_from t c (q_auth req)" for t
    unfolding redact_rows rows [OF that]
  proof (rule map_cong [OF refl])
    fix r assume "r \<in> set (newest_first (filter (listed env t (q_auth req) ?all) (w_communities t)))"
    then have "listed env t (q_auth req) ?all r" by simp
    then have "fst r \<noteq> c" by (intro listed_not_hidden [OF that, where showAll = ?all]) simp_all
    then show "listed_json (redact c t) (q_auth req) ?all r = listed_json t (q_auth req) ?all r"
      by (cases r) (simp add: listed_json_def pending_status_def Let_def split: option.split)
  qed
  show ?thesis
    unfolding listAllCommunities_def Let_def
    by (intro veiled_handler veiled_read veiled_dbPage veiled_ret) (simp_all only: redact_rows rows [OF assms] shown [OF h, unfolded redact_rows])
qed

lemma veiled_listMine:
  assumes "hidden_from s c (q_auth req)"
  shows "veiled c s (listMyCommunities env req q)"
proof -
  have "map (mine_json env (redact c s) (a_did a)) (newest_first (filter (\<lambda>r. joined (redact c s) (fst r) (a_did a)) (w_communities s)))
      = map (mine_json env s (a_did a)) (newest_first (filter (\<lambda>r. joined s (fst r) (a_did a)) (w_communities s)))"
    if a: "q_auth req = Some a" for a
  proof (rule map_cong)
    have none: "\<not> joined s c (a_did a)" using assms a by (simp add: hidden_from_def joined_def)
    have eq: "joined (redact c s) d (a_did a) = joined s d (a_did a)" for d
      using none by (cases "d = c") (simp_all add: joined_def)
    then show "newest_first (filter (\<lambda>r. joined (redact c s) (fst r) (a_did a)) (w_communities s))
        = newest_first (filter (\<lambda>r. joined s (fst r) (a_did a)) (w_communities s))" by simp
    fix r assume "r \<in> set (newest_first (filter (\<lambda>r. joined s (fst r) (a_did a)) (w_communities s)))"
    with none have "fst r \<noteq> c" by auto
    then show "mine_json env (redact c s) (a_did a) r = mine_json env s (a_did a) r"
      by (cases r) (simp add: mine_json_def Let_def)
  qed
  then show ?thesis
    unfolding listMyCommunities_def Let_def
    by (intro veiled_authM veiled_dbPage veiled_ret) simp_all
qed

subsection \<open>Nothing is told\<close>

text \<open>The endpoints that read a community or a repository and know who asks.\<close>

definition read_endpoints :: "env \<Rightarrow> (mst \<Rightarrow> exn + jv) \<Rightarrow> request \<Rightarrow> jv \<Rightarrow> reply io list" where
  "read_endpoints env car req q =
     [getRecord_endpoint env req q, listRecords_endpoint env req q, describeRepo env req q, syncGetRepo env car req q,
      getCommunity env req q, listAllCommunities env req q, listMyCommunities env req q, listMembers env req q,
      listJoinRequests env req q, listRoles env req q, listProposals env req q, listEvents env req q,
      verifyMembership env req q, getProposal env req (qstr env q ''communityDid'') (qstr env q ''rkey'')]"


subsection \<open>What is told all the same\<close>

lemma hidden_rows: "coll = APPLICATION_COLLECTION \<or> coll = DELEGATION_COLLECTION \<or> coll = ATTESTATION_COLLECTION
  \<Longrightarrow> indexed (redact c s) c coll k = None"
  by (auto simp: indexed_redact APPLICATION_COLLECTION_def DELEGATION_COLLECTION_def ATTESTATION_COLLECTION_def
      collection_defs split: option.split)

lemma no_rows: "(\<And>k. indexed s d coll k = None) \<Longrightarrow> coll_rows s d coll = []"
proof (rule ccontr)
  assume none: "\<And>k. indexed s d coll k = None" and "coll_rows s d coll \<noteq> []"
  then obtain r where "r \<in> set (coll_rows s d coll)" by (cases "coll_rows s d coll") auto
  then obtain k v where "((d, coll, k), v) \<in> set (w_index s)" by (auto simp: coll_rows_def)
  then show False using none [of k] by (force simp: indexed_def map_of_eq_None_iff)
qed

lemma fst_dbRead: "e_fault env = (\<lambda>_. None) \<Longrightarrow> fst (handler (bindM (dbRead env f) k) s)
  = fst (handler (k (f s)) (s\<lparr>w_ops := Suc (w_ops s)\<rparr>))"
  by (simp add: handler_def run_simps dbRead_def Let_def)

lemma fst_handler_ret: "fst (handler (ret r) s) = Inr r"
  by (simp add: handler_def run_simps)

lemma fst_expired:
  assumes "e_fault env = (\<lambda>_. None)"
  shows "\<exists>b t. is_expired env rec s = (Inr b, t)"
  by (auto simp: is_expired_def nowMs_def run_simps Let_def)

lemma length_by_rkey [simp]: "by_rkey rows = [] \<longleftrightarrow> rows = []"
  unfolding by_rkey_def by (metis length_0_conv length_sort_lt)

lemma by_rkey_Nil [simp]: "by_rkey [] = []"
  by simp

lemma redact_ops_rows [simp]:
  "coll_rows (s\<lparr>w_ops := n\<rparr>) d coll = coll_rows s d coll" "delegations_where env (s\<lparr>w_ops := n\<rparr>) d f x = delegations_where env s d f x"
  "indexed (s\<lparr>w_ops := n\<rparr>) = indexed s"
  by (simp_all add: coll_rows_def delegations_where_def indexed_def fun_eq_iff)

text \<open>
  Three endpoints ask nobody. Of an active community, private or not, anyone is told
  the applications, the delegations of votes and, by their keys, the attestations: what these endpoints answer
  is not what they would answer had the community no records.
\<close>

theorem ungated_reads_tell_anyone:
  assumes "e_fault env = (\<lambda>_. None)" "map_of (w_communities s) c = Some com" "c_status com = ''active''" "c \<noteq> []" "m \<noteq> []" "k \<noteq> []"
    and "jget q ''did'' = JStr c" "jget q ''communityDid'' = JStr c" "jget q ''memberDid'' = JStr m" "jget q ''rkey'' = JStr k"
    and "coll_rows s c APPLICATION_COLLECTION \<noteq> []"
    and "\<exists>rec \<in> set (delegations_where env s c ''delegateDid'' m). truthy (jget rec ''delegatorDid'')"
    and "indexed s c ATTESTATION_COLLECTION k \<noteq> None"
    and "endpoint \<in> {listApplications env q, getDelegation env q, verifyAttestation env remote q}"
  shows "fst (endpoint (redact c s)) \<noteq> fst (endpoint s)"
proof -
  have hidden: "coll_rows (redact c s) c APPLICATION_COLLECTION = []" "coll_rows (redact c s) c DELEGATION_COLLECTION = []"
    "indexed (redact c s) c ATTESTATION_COLLECTION k = None"
    using hidden_rows no_rows by auto
  then have del: "delegations_where env (redact c s) c f x = []" for f x by (simp add: delegations_where_def)
  have status: "community_status t c = Some ''active''" if "w_communities t = w_communities s" for t
    using assms(2,3) that by (simp add: community_status_def)
  have "fst (listApplications env q (redact c s)) \<noteq> fst (listApplications env q s)"
    using assms(4,7,11) by (simp add: listApplications_def prop_key_def fst_dbRead [OF assms(1)] status hidden fst_handler_ret ok_def)

  moreover have "filter truthy (map (\<lambda>rec. jget rec ''delegatorDid'') (delegations_where env s c ''delegateDid'' m)) \<noteq> []"
    using assms(12) by (auto simp: filter_empty_conv)
  then have "fst (getDelegation env q (redact c s)) \<noteq> fst (getDelegation env q s)"
    using assms(4,5,8,9) by (simp add: getDelegation_def prop_key_def fst_dbRead [OF assms(1)] del fst_handler_ret ok_def)
  moreover have "fst (verifyAttestation env remote q (redact c s)) \<noteq> fst (verifyAttestation env remote q s)"
  proof -
    obtain cid rec where rec: "indexed s c ATTESTATION_COLLECTION k = Some (cid, rec)" using assms(13) by auto
    obtain b t where "is_expired env rec (s\<lparr>w_ops := Suc (Suc (w_ops s))\<rparr>) = (Inr b, t)" using fst_expired [OF assms(1)] by blast
    then show ?thesis
      using assms(2,4,6,8,10)
      by (simp add: verifyAttestation_def prop_key_def fst_dbRead [OF assms(1)] rec hidden fst_handler_ret)
        (simp add: handler_def run_simps invalid_attestation_def ok_def)
  qed
  ultimately show ?thesis using assms(14) by auto
qed

subsection \<open>A private club\<close>

definition secret_settings :: jv where
  "secret_settings = JObj [(''visibility'', JStr ''private'')]"

definition secret_row :: community_row where
  "secret_row = \<lparr>c_handle = ''club'', c_created_by = Some ''u0'', c_owner_did = Some ''o'', c_status = ''active'',
     c_exported_at = None, c_did_method = ''plc'', c_created_at = 0, c_status_reason = None\<rparr>"

definition secret_club :: world where
  "secret_club = empty_world\<lparr>
     w_repos := [(''did:c'', [])],
     w_index := [((''did:c'', SETTINGS_COLLECTION, ''self''), (''cid'', secret_settings)),
                 ((''did:c'', APPLICATION_COLLECTION, ''a''), (''cid'', JObj [(''appType'', JStr ''matrix'')])),
                 ((''did:c'', DELEGATION_COLLECTION, ''d''), (''cid'', JObj [(''delegatorDid'', JStr ''o''), (''delegateDid'', JStr ''m'')])),
                 ((''did:c'', ATTESTATION_COLLECTION, ''k''), (''cid'', JObj [(''subjectDid'', JStr ''m'')]))],
     w_communities := [(''did:c'', secret_row)]\<rparr>"

definition ask_club :: jv where
  "ask_club = JObj [(''repo'', JStr ''did:c''), (''did'', JStr ''did:c''), (''communityDid'', JStr ''did:c''),
     (''collection'', JStr APPLICATION_COLLECTION), (''memberDid'', JStr ''m''), (''rkey'', JStr ''k'')]"

definition anonymous :: request where
  "anonymous = \<lparr>q_auth = None, q_serviceAuthError = None, q_partner = None, q_partnerError = None, q_body = JUndef\<rparr>"


theorem ungated_reads_tell_anyone_witness:
  "fst (getDelegation sample_env ask_club (redact ''did:c'' secret_club)) \<noteq> fst (getDelegation sample_env ask_club secret_club)"
  by (rule ungated_reads_tell_anyone [where env = sample_env and s = secret_club and com = secret_row and q = ask_club and m = "''m''" and k = "''k''"
        and remote = "\<lparr>rp_pds = \<lambda>_. Inr None, rp_record = \<lambda>_ _ _. Inr None\<rparr>"])
    (simp_all add: sample_env_def secret_club_def secret_row_def empty_world_def ask_club_def coll_rows_def delegations_where_def indexed_def
      SETTINGS_COLLECTION_def APPLICATION_COLLECTION_def DELEGATION_COLLECTION_def ATTESTATION_COLLECTION_def)

end
