(* ===== verification/Paging.thy ===== *)
theory Paging
  imports Reading "HOL-Library.Multiset"
begin

text \<open>
  Listings page by page. Following the cursors of \<open>listRecords\<close> gives every record of a collection
  once and in order, in both directions; those of \<open>listProposals\<close> lead back to the first page.
\<close>

subsection \<open>Pages of an ordered table\<close>

text \<open>The keys of a table in a strict total order, the pages cut off after a key.\<close>

locale ordered_pages =
  fixes before :: "'k \<Rightarrow> 'k \<Rightarrow> bool"
  assumes irrefl: "\<not> before a a"
    and transitive: "before a b \<Longrightarrow> before b c \<Longrightarrow> before a c"
    and linear: "a = b \<or> before a b \<or> before b a"
begin

abbreviation sorted_rows :: "('k \<times> 'r) list \<Rightarrow> ('k \<times> 'r) list" where
  "sorted_rows \<equiv> sort_lt (\<lambda>a b. before (fst a) (fst b))"

lemma asymmetric: "before a b \<Longrightarrow> \<not> before b a"
  using irrefl transitive by blast

lemma behind: "\<not> before y x \<Longrightarrow> \<not> before z y \<Longrightarrow> \<not> before z x"
  using linear [of y z] transitive by blast

lemma insort_sorted:
  "sorted_wrt (\<lambda>a b. \<not> before (fst b) (fst a)) ys
   \<Longrightarrow> sorted_wrt (\<lambda>a b. \<not> before (fst b) (fst a)) (insort_lt (\<lambda>a b. before (fst a) (fst b)) x ys)"
proof (induction ys)
  case (Cons y ys)
  show ?case
  proof (cases "before (fst y) (fst x)")
    case True
    with Cons show ?thesis by (simp add: asymmetric)
  next
    case False
    then have "\<forall>z \<in> set ys. \<not> before (fst z) (fst x)" using Cons.prems by (simp add: behind)
    with Cons False show ?thesis by simp
  qed
qed simp

lemma rows_sorted: "sorted_wrt (\<lambda>a b. \<not> before (fst b) (fst a)) (sorted_rows xs)"
  by (induction xs) (simp_all add: insort_sorted)

lemma rows_strictly_sorted:
  assumes "distinct (map fst xs)"
  shows "sorted_wrt (\<lambda>a b. before (fst a) (fst b)) (sorted_rows xs)"
proof -
  have "inj_on fst (set (sorted_rows xs))" "distinct (sorted_rows xs)"
    using assms by (simp_all add: distinct_map)
  moreover have "sorted_wrt (\<lambda>a b. before (fst a) (fst b)) zs"
    if "inj_on fst (set zs)" "distinct zs" "sorted_wrt (\<lambda>a b. \<not> before (fst b) (fst a)) zs" for zs :: "('k \<times> 'a) list"
    using that
  proof (induction zs)
    case (Cons z zs)
    then have "before (fst z) (fst w)" if "w \<in> set zs" for w
      using that linear [of "fst z" "fst w"] by (auto dest: inj_onD)
    with Cons show ?case by auto
  qed simp
  ultimately show ?thesis using rows_sorted by blast
qed

lemma insort_filter_out:
  "\<not> P x \<Longrightarrow> filter P (insort_lt lt x ys) = filter P ys"
  by (induction ys) auto

lemma insort_filter:
  assumes "P x" "sorted_wrt (\<lambda>a b. \<not> before (fst b) (fst a)) ys"
  shows "filter P (insort_lt (\<lambda>a b. before (fst a) (fst b)) x ys) = insort_lt (\<lambda>a b. before (fst a) (fst b)) x (filter P ys)"
  using assms
proof (induction ys)
  case (Cons y ys)
  show ?case
  proof (cases "before (fst y) (fst x)")
    case False
    have "\<not> before (fst z) (fst x)" if "z \<in> set (filter P ys)" for z
      using Cons.prems(2) that False behind [of "fst y" "fst x" "fst z"] by auto
    then have "insort_lt (\<lambda>a b. before (fst a) (fst b)) x (filter P ys) = x # filter P ys"
      by (cases "filter P ys") simp_all
    with Cons False show ?thesis by auto
  qed (use Cons in auto)
qed simp

lemma sorted_filter: "sorted_rows (filter P xs) = filter P (sorted_rows xs)"
  by (induction xs) (simp_all add: insort_filter insort_filter_out rows_sorted)

text \<open>What comes after the last row of a page is the rest of the table.\<close>

lemma rest_after:
  assumes "sorted_wrt (\<lambda>a b. before (fst a) (fst b)) (xs @ r # ys)"
  shows "filter (\<lambda>x. before (fst r) (fst x)) (xs @ r # ys) = ys"
proof -
  have "filter (\<lambda>x. before (fst r) (fst x)) xs = []"
    using assms by (simp add: sorted_wrt_append filter_empty_conv asymmetric)
  moreover have "filter (\<lambda>x. before (fst r) (fst x)) ys = ys"
    using assms by (simp add: sorted_wrt_append)
  ultimately show ?thesis by (simp add: irrefl)
qed

text \<open>And what comes before it is the page without it.\<close>

lemma rest_before:
  assumes "sorted_wrt (\<lambda>a b. before (fst a) (fst b)) (xs @ r # ys)"
  shows "filter (\<lambda>x. before (fst x) (fst r)) (xs @ r # ys) = xs"
proof -
  have "filter (\<lambda>x. before (fst x) (fst r)) ys = []"
    using assms by (simp add: sorted_wrt_append filter_empty_conv asymmetric)
  moreover have "filter (\<lambda>x. before (fst x) (fst r)) xs = xs"
    using assms by (simp add: sorted_wrt_append)
  ultimately show ?thesis by (simp add: irrefl)
qed

end

subsection \<open>The records of a collection\<close>

definition before_key :: "bool \<Rightarrow> string \<Rightarrow> string \<Rightarrow> bool" where
  "before_key reverse a b \<longleftrightarrow> (if reverse then b < a else a < b)"

interpretation record_order: ordered_pages "before_key reverse" for reverse
  by unfold_locales (auto simp: before_key_def)

definition collection_table :: "bool \<Rightarrow> world \<Rightarrow> string \<Rightarrow> string \<Rightarrow> (string \<times> string \<times> jv) list" where
  "collection_table reverse s did coll = sort_lt (\<lambda>a b. before_key reverse (fst a) (fst b)) (coll_rows s did coll)"

lemma distinct_coll_rows:
  assumes "distinct (map fst (w_index s))"
  shows "distinct (map fst (coll_rows s did coll))"
proof -
  let ?rows = "filter (\<lambda>((d, c, _), _). d = did \<and> c = coll) (w_index s)"
  have "distinct (map fst ?rows)" using assms by (rule distinct_map_filter)
  moreover have "map fst ?rows = map (\<lambda>k. (did, coll, k)) (map fst (coll_rows s did coll))"
    by (auto simp: coll_rows_def)
  ultimately show ?thesis by (metis distinct_map)
qed

lemma table_sorted:
  "distinct (map fst (w_index s)) \<Longrightarrow>
   sorted_wrt (\<lambda>a b. before_key reverse (fst a) (fst b)) (collection_table reverse s did coll)"
  unfolding collection_table_def by (intro record_order.rows_strictly_sorted distinct_coll_rows)

definition page_after :: "nat \<Rightarrow> (string \<times> 'r) list \<Rightarrow> (string \<times> 'r) list \<times> string option" where
  "page_after n rest = (if length rest \<le> n then (rest, None) else (take n rest, Some (fst (last (take n rest)))))"

lemma list_page:
  assumes "e_fault env = (\<lambda>_. None)" "0 < n"
  shows "fst (listRecords env did coll n cursor reverse s) =
    Inr (page_after n (filter (\<lambda>x. cursor = [] \<or> before_key reverse cursor (fst x)) (collection_table reverse s did coll)))"
proof -
  have "sort_lt (\<lambda>a b. if reverse then fst b < fst a else fst a < fst b)
      (filter (\<lambda>(rkey, _). cursor = [] \<or> (if reverse then rkey < cursor else cursor < rkey)) (coll_rows s did coll))
    = filter (\<lambda>x. cursor = [] \<or> before_key reverse cursor (fst x)) (collection_table reverse s did coll)"
    unfolding collection_table_def record_order.sorted_filter [symmetric]
    by (simp add: before_key_def case_prod_unfold)
  with assms show ?thesis
    by (simp add: listRecords_def dbRead_def run_simps Let_def page_after_def)
qed

text \<open>A client that follows the cursors, for at most so many requests, with nobody writing meanwhile.\<close>

fun all_pages :: "env \<Rightarrow> world \<Rightarrow> string \<Rightarrow> string \<Rightarrow> nat \<Rightarrow> bool \<Rightarrow> nat \<Rightarrow> string \<Rightarrow> (string \<times> string \<times> jv) list option" where
  "all_pages env s did coll limit reverse 0 cursor = None"
| "all_pages env s did coll limit reverse (Suc requests) cursor =
     (case fst (listRecords env did coll limit cursor reverse s) of
        Inl _ \<Rightarrow> None
      | Inr (rows, None) \<Rightarrow> Some rows
      | Inr (rows, Some next_cursor) \<Rightarrow>
          map_option ((@) rows) (all_pages env s did coll limit reverse requests next_cursor))"

lemma pages_from:
  assumes "e_fault env = (\<lambda>_. None)" "0 < n" "distinct (map fst (w_index s))"
    and "\<forall>r \<in> set (coll_rows s did coll). fst r \<noteq> []"
  shows "collection_table reverse s did coll = seen @ rest \<Longrightarrow> cursor = (if seen = [] then [] else fst (last seen))
    \<Longrightarrow> length rest < requests \<Longrightarrow> all_pages env s did coll n reverse requests cursor = Some rest"
proof (induction requests arbitrary: seen rest cursor)
  case (Suc requests)
  let ?T = "collection_table reverse s did coll"
  have keys: "fst r \<noteq> []" if "r \<in> set ?T" for r using that assms(4) by (simp add: collection_table_def)
  have now: "filter (\<lambda>x. cursor = [] \<or> before_key reverse cursor (fst x)) ?T = rest"
  proof (cases "seen = []")
    case False
    then obtain xs r where d: "seen = xs @ [r]" by (cases "seen" rule: rev_cases) auto
    then have "fst r \<noteq> []" using keys Suc.prems(1) by simp
    with record_order.rest_after [of reverse xs r rest] table_sorted [OF assms(3), of reverse did coll] d Suc.prems(1,2)
    show ?thesis by simp
  qed (use Suc.prems in simp)
  show ?case
  proof (cases "length rest \<le> n")
    case False
    have "seen @ take n rest \<noteq> []" "last (seen @ take n rest) = last (take n rest)" using False assms(2)
      by (cases rest; simp add: last_append)+
    then have "all_pages env s did coll n reverse requests (fst (last (take n rest))) = Some (drop n rest)"
      using Suc.prems False assms(2) by (intro Suc.IH [of "seen @ take n rest"]) auto
    with False show ?thesis by (simp add: list_page [OF assms(1,2)] now page_after_def)
  qed (simp add: list_page [OF assms(1,2)] now page_after_def)
qed simp

lemma mset_sort_lt [simp]: "mset (sort_lt lt xs) = mset xs"
proof -
  have "mset (insort_lt lt x ys) = add_mset x (mset ys)" for x ys by (induction ys) auto
  then show ?thesis by (induction xs) simp_all
qed

lemma pagination_bounds: "0 < d \<Longrightarrow> d \<le> m \<Longrightarrow> 0 < fst (parsePagination env q d m) \<and> int (fst (parsePagination env q d m)) \<le> m"
  by (auto simp: parsePagination_def)

text \<open>
  C24. Whatever limit a client asks for, following the cursors of \<open>listRecords\<close> ends, and the pages
  put together are the records of the collection, each once, in the order of their keys or in the
  reverse order.
\<close>

theorem paging_lists_every_record:
  assumes "e_fault env = (\<lambda>_. None)" "distinct (map fst (w_index s))"
    and "\<forall>r \<in> set (coll_rows s did coll). fst r \<noteq> []"
  shows "\<exists>rows. all_pages env s did coll (fst (parsePagination env q 50 100)) reverse (Suc (length (coll_rows s did coll))) [] = Some rows
    \<and> mset rows = mset (coll_rows s did coll) \<and> sorted_wrt (before_key reverse) (map fst rows)"
proof -
  have "0 < fst (parsePagination env q 50 100)" using pagination_bounds [of 50 100 env q] by simp
  from pages_from [OF assms(1) this assms(2,3), of reverse "[]" "collection_table reverse s did coll" "[]"]
  have "all_pages env s did coll (fst (parsePagination env q 50 100)) reverse (Suc (length (coll_rows s did coll))) []
      = Some (collection_table reverse s did coll)" by (simp add: collection_table_def del: all_pages.simps)
  with table_sorted [OF assms(2)] show ?thesis
    by (auto simp: sorted_wrt_map collection_table_def)
qed

subsection \<open>The proposals of a community\<close>

interpretation descending: ordered_pages "(>) :: string \<Rightarrow> string \<Rightarrow> bool"
  by unfold_locales auto

text \<open>
  The cursor of \<open>listProposals\<close> is compared the wrong way round: a page shows the greatest keys
  first, and the page after it has the keys above the last one shown. A second request gets the rows of the
  first page again, without the last one and without a cursor: older proposals are never listed.
\<close>

theorem proposal_pages_repeat:
  assumes "distinct (map fst (w_index s))" "0 < n" "\<forall>r \<in> set (coll_rows s did PROPOSAL_COLLECTION). fst r \<noteq> []"
    and "rows = proposal_page env s did status JUndef (n + 1)" "n < length rows"
    and "next_rows = proposal_page env s did status (JStr (fst (last (take n rows)))) (n + 1)"
  shows "proposals_reply did n next_rows = ok [(''proposals'', JArr (map (proposal_json did) (butlast (take n rows))))]"
proof -
  let ?P = "\<lambda>(rkey, _, rec). \<not> truthy status \<or> json_text (e_text env) (jget rec ''status'') = Some (prop_key env status)"
  let ?T = "sort_lt (\<lambda>a b :: string \<times> string \<times> jv. fst b < fst a) (filter ?P (coll_rows s did PROPOSAL_COLLECTION))"
  have rows: "rows = take (n + 1) ?T" using assms(4) by (simp add: proposal_page_def)
  obtain xs r where page: "take n rows = xs @ [r]" using assms(2,5) by (cases "take n rows" rule: rev_cases) auto
  have "take n ?T = xs @ [r]" using page by (simp add: rows)
  then have T: "?T = xs @ r # drop n ?T" using append_take_drop_id [of n ?T] by simp
  have "sorted_wrt (\<lambda>a b. fst b < fst a) ?T"
    by (rule descending.rows_strictly_sorted) (intro distinct_map_filter distinct_coll_rows assms(1))
  with T have "filter (\<lambda>x. fst r < fst x) ?T = xs"
    using descending.rest_before [of xs r "drop n ?T"] by metis
  moreover have "fst r \<noteq> []"
  proof -
    have "r \<in> set ?T" using T by (metis in_set_conv_decomp)
    then show ?thesis using assms(3) by auto
  qed
  moreover have "proposal_page env s did status (JStr (fst r)) (n + 1) = take (n + 1) (filter (\<lambda>x. fst r < fst x) ?T)"
    if "fst r \<noteq> []"
    using that unfolding descending.sorted_filter [symmetric] by (simp add: proposal_page_def prop_key_def case_prod_unfold conj_commute)
  ultimately have "next_rows = take (n + 1) xs" using assms(6) page by simp
  moreover have "length xs = n - 1" using page assms(5) by (metis length_append_singleton length_take diff_Suc_1 min.absorb4)
  moreover have "\<not> n < n - 1" by simp
  ultimately show ?thesis using page assms(2) by (simp add: proposals_reply_def opt_field_def)
qed

text \<open>Three proposals, listed two at a time.\<close>

definition three_proposals :: world where
  "three_proposals = empty_world\<lparr>w_index :=
     map (\<lambda>k. ((''c'', PROPOSAL_COLLECTION, k), (''cid'', JObj []))) [''k1'', ''k2'', ''k3'']\<rparr>"

lemma three_rows: "coll_rows three_proposals ''c'' PROPOSAL_COLLECTION = map (\<lambda>k. (k, ''cid'', JObj [])) [''k1'', ''k2'', ''k3'']"
  by (simp add: coll_rows_def three_proposals_def empty_world_def)

theorem paging_lists_every_record_witness:
  "\<exists>rows. all_pages sample_env three_proposals ''c'' PROPOSAL_COLLECTION (fst (parsePagination sample_env (JObj [(''limit'', JStr ''1'')]) 50 100)) True
      (Suc (length (coll_rows three_proposals ''c'' PROPOSAL_COLLECTION))) [] = Some rows
    \<and> mset rows = mset (coll_rows three_proposals ''c'' PROPOSAL_COLLECTION) \<and> sorted_wrt (before_key True) (map fst rows)"
  by (rule paging_lists_every_record) (simp add: sample_env_def, simp add: three_proposals_def empty_world_def, simp add: three_rows)

theorem proposal_pages_repeat_witness:
  "proposals_reply ''c'' 2 (proposal_page sample_env three_proposals ''c'' JUndef (JStr ''k2'') 3)
   = ok [(''proposals'', JArr [proposal_json ''c'' (''k3'', ''cid'', JObj [])])]"
proof -
  have rows: "proposal_page sample_env three_proposals ''c'' JUndef JUndef 3 = map (\<lambda>k. (k, ''cid'', JObj [])) [''k3'', ''k2'', ''k1'']"
    by (simp add: proposal_page_def three_rows)
  have keys: "distinct (map fst (w_index three_proposals))" by (simp add: three_proposals_def empty_world_def)
  show ?thesis
    using proposal_pages_repeat [OF keys _ _ refl _ refl, of 2 "''c''" sample_env JUndef] by (simp add: rows three_rows)
qed

end
