(* ===== verification/Interleaving.thy ===== *)
theory Interleaving
  imports Prelude
begin

text \<open>
  Requests that run at the same time. An \<open>async\<close> endpoint gives up control at every
  \<open>await\<close>: between two of its statements any statement of any other request may run. A
  request is therefore a tree of atomic statements, a pool of requests is run by a schedule
  that says which one goes on next, and \<open>one_claim\<close> is the law of an exclusive claim, by
  which at most one of the requests that compete for something wins it.
\<close>

subsection \<open>Requests\<close>

text \<open>
  A request is over with its reply, reads the clock of the process, or executes a statement
  on the shared state. The second argument of a statement is how the request goes on when the
  database reports an error.
\<close>

datatype ('s, 'e, 'a) act =
    Finished 'a
  | Reading "'s \<Rightarrow> ('s, 'e, 'a) act"
  | Statement "'s \<Rightarrow> ('s, 'e, 'a) act \<times> 's" "'e \<Rightarrow> ('s, 'e, 'a) act"

primrec graft :: "('s, 'e, 'a) act \<Rightarrow> ('a \<Rightarrow> ('s, 'e, 'b) act) \<Rightarrow> ('s, 'e, 'b) act" where
  "graft (Finished x) k = k x"
| "graft (Reading f) k = Reading (\<lambda>s. graft (f s) k)"
| "graft (Statement f h) k = Statement (\<lambda>s. map_prod (\<lambda>t. graft t k) id (f s)) (\<lambda>e. graft (h e) k)"

definition done_with :: "'a \<Rightarrow> ('s, 'e, 'e + 'a) act" where
  "done_with x = Finished (Inr x)"

definition raise :: "'e \<Rightarrow> ('s, 'e, 'e + 'a) act" where
  "raise e = Finished (Inl e)"

definition andThen :: "('s, 'e, 'e + 'a) act \<Rightarrow> ('a \<Rightarrow> ('s, 'e, 'e + 'b) act) \<Rightarrow> ('s, 'e, 'e + 'b) act" where
  "andThen m k = graft m (\<lambda>r. case r of Inl e \<Rightarrow> Finished (Inl e) | Inr x \<Rightarrow> k x)"

definition trying :: "('s, 'e, 'e + 'a) act \<Rightarrow> ('e \<Rightarrow> 'a) \<Rightarrow> ('s, 'e, 'a) act" where
  "trying m h = graft m (\<lambda>r. case r of Inl e \<Rightarrow> Finished (h e) | Inr x \<Rightarrow> Finished x)"

definition lifted :: "'e + 'a \<Rightarrow> ('s, 'e, 'e + 'a) act" where
  "lifted r = Finished r"

text \<open>One statement, or a transaction whose rows are locked: it fails without effect.\<close>

definition sql :: "('s \<Rightarrow> 'e + 'a \<times> 's) \<Rightarrow> ('s, 'e, 'e + 'a) act" where
  "sql f = Statement (\<lambda>s. case f s of Inl e \<Rightarrow> (Finished (Inl e), s)
                                    | Inr p \<Rightarrow> (Finished (Inr (fst p)), snd p))
                     (\<lambda>e. Finished (Inl e))"

definition fetch :: "('s \<Rightarrow> 'a) \<Rightarrow> ('s, 'e, 'e + 'a) act" where
  "fetch f = sql (\<lambda>s. Inr (f s, s))"

definition change :: "('s \<Rightarrow> 's) \<Rightarrow> ('s, 'e, 'e + unit) act" where
  "change f = sql (\<lambda>s. Inr ((), f s))"

definition reading :: "('s \<Rightarrow> 'a) \<Rightarrow> ('s, 'e, 'e + 'a) act" where
  "reading f = Reading (\<lambda>s. Finished (Inr (f s)))"

fun each :: "('b \<Rightarrow> ('s, 'e, 'e + unit) act) \<Rightarrow> 'b list \<Rightarrow> ('s, 'e, 'e + unit) act" where
  "each f [] = done_with ()"
| "each f (x # xs) = andThen (f x) (\<lambda>_. each f xs)"

lemma act_induct [case_names Finished Reading Statement]:
  assumes "\<And>x. P (Finished x)"
    and "\<And>f. (\<And>s. P (f s)) \<Longrightarrow> P (Reading f)"
    and "\<And>f h. (\<And>s. P (fst (f s))) \<Longrightarrow> (\<And>e. P (h e)) \<Longrightarrow> P (Statement f h)"
  shows "P m"
proof (induction m)
  case (Statement f h)
  have "P (fst (f s))" for s
    by (rule Statement.IH(1) [of "f s"]) (auto simp: fsts.simps)
  with Statement.IH(2) show ?case by (simp add: assms(3))
qed (simp_all add: assms)

lemma graft_assoc: "graft (graft m f) g = graft m (\<lambda>x. graft (f x) g)"
proof (induction m rule: act_induct)
  case (Statement F h)
  then have "map_prod (\<lambda>t. graft t g) id (map_prod (\<lambda>t. graft t f) id (F s)) =
      map_prod (\<lambda>t. graft t (\<lambda>x. graft (f x) g)) id (F s)" for s
    by (simp add: prod_eq_iff)
  with Statement show ?case by simp
qed simp_all

lemma graft_sql:
  "graft (sql f) k = Statement
     (\<lambda>s. case f s of Inl e \<Rightarrow> (k (Inl e), s) | Inr p \<Rightarrow> (k (Inr (fst p)), snd p)) (\<lambda>e. k (Inl e))"
  by (auto simp: sql_def fun_eq_iff split: sum.split)

lemma andThen_done [simp]: "andThen (done_with x) k = k x"
  by (simp add: andThen_def done_with_def)

lemma andThen_raise [simp]: "andThen (raise e) k = raise e"
  by (simp add: andThen_def raise_def)

lemma andThen_assoc: "andThen (andThen m f) g = andThen m (\<lambda>x. andThen (f x) g)"
  unfolding andThen_def graft_assoc
  by (rule arg_cong [where f = "graft m"]) (auto simp: fun_eq_iff split: sum.split)

lemma trying_done [simp]: "trying (done_with x) h = Finished x"
  by (simp add: trying_def done_with_def)

lemma trying_raise [simp]: "trying (raise e) h = Finished (h e)"
  by (simp add: trying_def raise_def)

lemma trying_andThen:
  "trying (andThen m k) h = graft m (\<lambda>r. case r of Inl e \<Rightarrow> Finished (h e) | Inr x \<Rightarrow> trying (k x) h)"
  unfolding andThen_def trying_def graft_assoc
  by (rule arg_cong [where f = "graft m"]) (auto simp: fun_eq_iff split: sum.split)

subsection \<open>Pools and schedules\<close>

text \<open>
  What may happen next: request \<open>i\<close> goes on; the statement of request \<open>i\<close> fails, refused
  before it took effect or executed with the acknowledgement lost; time passes.
\<close>

datatype 'e event =
    Run nat
  | Refuse nat 'e
  | Lose nat 'e
  | Elapse nat

type_synonym ('s, 'e, 'a) pool = "('s, 'e, 'a) act list \<times> 's"

fun go_on :: "('s, 'e, 'a) act \<Rightarrow> 's \<Rightarrow> ('s, 'e, 'a) act \<times> 's" where
  "go_on (Finished x) s = (Finished x, s)"
| "go_on (Reading f) s = (f s, s)"
| "go_on (Statement f h) s = f s"

fun failing :: "'e \<Rightarrow> ('s, 'e, 'a) act \<Rightarrow> ('s, 'e, 'a) act" where
  "failing e (Statement f h) = h e"
| "failing e t = t"

fun happen :: "(nat \<Rightarrow> 's \<Rightarrow> 's) \<Rightarrow> 'e event \<Rightarrow> ('s, 'e, 'a) pool \<Rightarrow> ('s, 'e, 'a) pool" where
  "happen el (Elapse n) (ts, s) = (ts, el n s)"
| "happen el (Run i) (ts, s) =
     (if i < length ts then (ts[i := fst (go_on (ts ! i) s)], snd (go_on (ts ! i) s)) else (ts, s))"
| "happen el (Refuse i e) (ts, s) =
     (if i < length ts then (ts[i := failing e (ts ! i)], s) else (ts, s))"
| "happen el (Lose i e) (ts, s) =
     (if i < length ts then (ts[i := failing e (ts ! i)], snd (go_on (ts ! i) s)) else (ts, s))"

definition exec :: "(nat \<Rightarrow> 's \<Rightarrow> 's) \<Rightarrow> 'e event list \<Rightarrow> ('s, 'e, 'a) pool \<Rightarrow> ('s, 'e, 'a) pool" where
  "exec el evs p = fold (happen el) evs p"

text \<open>What request \<open>i\<close> has replied, if it is over.\<close>

definition replied :: "('s, 'e, 'a) pool \<Rightarrow> nat \<Rightarrow> 'a option" where
  "replied p i = (if i < length (fst p) then (case fst p ! i of Finished x \<Rightarrow> Some x | _ \<Rightarrow> None) else None)"

lemma repliedD: "replied p i = Some x \<Longrightarrow> i < length (fst p) \<and> fst p ! i = Finished x"
  by (auto simp: replied_def split: if_splits act.splits)

text \<open>A request that runs alone.\<close>

primrec alone :: "('s, 'e, 'a) act \<Rightarrow> 's \<Rightarrow> 'a \<times> 's" where
  "alone (Finished x) = (\<lambda>s. (x, s))"
| "alone (Reading f) = (\<lambda>s. alone (f s) s)"
| "alone (Statement f h) = (\<lambda>s. case map_prod alone id (f s) of (g, s') \<Rightarrow> g s')"

lemma alone_Statement [simp]: "alone (Statement f h) s = alone (fst (f s)) (snd (f s))"
  by (cases "f s") simp

declare alone.simps(3) [simp del]

text \<open>Alone, a request runs like a sequential program.\<close>

named_theorems alone_simps
  \<open>equations that run a request alone\<close>

lemma alone_graft: "alone (graft m k) s = (case alone m s of (x, s') \<Rightarrow> alone (k x) s')"
  by (induction m arbitrary: s rule: act_induct) simp_all

lemma alone_andThen [alone_simps]:
  "alone (andThen m k) s = (case alone m s of (Inl e, s') \<Rightarrow> (Inl e, s') | (Inr x, s') \<Rightarrow> alone (k x) s')"
  by (auto simp: andThen_def alone_graft split: prod.split sum.split)

lemma alone_attempt [alone_simps]:
  "alone (trying m h) s = (case alone m s of (Inl e, s') \<Rightarrow> (h e, s') | (Inr x, s') \<Rightarrow> (x, s'))"
  by (auto simp: trying_def alone_graft split: prod.split sum.split)

lemma alone_basic [alone_simps]:
  "alone (done_with x) s = (Inr x, s)" "alone (raise e) s = (Inl e, s)" "alone (lifted r) s = (r, s)"
  "alone (reading f) s = (Inr (f s), s)" "alone (fetch f) s = (Inr (f s), s)" "alone (change g) s = (Inr (), g s)"
  by (simp_all add: done_with_def raise_def lifted_def reading_def fetch_def change_def sql_def)

lemma alone_sql [alone_simps]:
  "alone (sql f) s = (case f s of Inl e \<Rightarrow> (Inl e, s) | Inr p \<Rightarrow> (Inr (fst p), snd p))"
  by (simp add: sql_def split: sum.split)

lemma exec_simps [simp]:
  "exec el [] p = p" "exec el (v # evs) p = exec el evs (happen el v p)"
  by (simp_all add: exec_def)

lemma exec_append: "exec el (evs @ evs') p = exec el evs' (exec el evs p)"
  by (simp add: exec_def)

lemma length_happen: "length (fst (happen el v p)) = length (fst p)"
  by (cases "(el, v, p)" rule: happen.cases) simp_all

lemma length_exec [simp]: "length (fst (exec el evs p)) = length (fst p)"
  by (induction evs arbitrary: p) (simp_all add: length_happen)

text \<open>Every request is over after finitely many of its own statements, whatever else runs.\<close>

lemma alone_is_a_schedule:
  assumes "i < length ts"
  shows "\<exists>n. exec el (replicate n (Run i)) (ts, s) =
    (ts[i := Finished (fst (alone (ts ! i) s))], snd (alone (ts ! i) s))"
  using assms
proof (induction "ts ! i" arbitrary: ts s rule: act_induct)
  case (Finished x)
  then have "exec el (replicate 0 (Run i)) (ts, s) =
    (ts[i := Finished (fst (alone (ts ! i) s))], snd (alone (ts ! i) s))"
    using list_update_id [of ts i] by (simp flip: Finished(1))
  then show ?case by blast
next
  case (Reading f)
  have "f s = ts[i := f s] ! i" "i < length (ts[i := f s])" using Reading.prems by simp_all
  from Reading.hyps(1) [OF this] obtain n where
    "exec el (replicate n (Run i)) (ts[i := f s], s) =
      (ts[i := Finished (fst (alone (f s) s))], snd (alone (f s) s))" using Reading.prems by auto
  then have "exec el (replicate (Suc n) (Run i)) (ts, s) =
    (ts[i := Finished (fst (alone (ts ! i) s))], snd (alone (ts ! i) s))"
    using Reading.prems by (simp flip: Reading.hyps(2))
  then show ?case by blast
next
  case (Statement f h)
  have "fst (f s) = ts[i := fst (f s)] ! i" "i < length (ts[i := fst (f s)])"
    using Statement.prems by simp_all
  from Statement.hyps(1) [OF this] obtain n where
    "exec el (replicate n (Run i)) (ts[i := fst (f s)], snd (f s)) =
      (ts[i := Finished (fst (alone (fst (f s)) (snd (f s))))], snd (alone (fst (f s)) (snd (f s))))"
    using Statement.prems by auto
  then have "exec el (replicate (Suc n) (Run i)) (ts, s) =
    (ts[i := Finished (fst (alone (ts ! i) s))], snd (alone (ts ! i) s))"
    using Statement.prems by (simp flip: Statement.hyps(3))
  then show ?case by blast
qed

text \<open>What a request maintains that runs to its end without interruption.\<close>

definition settles :: "('s \<Rightarrow> bool) \<Rightarrow> ('s, 'e, 'a) act \<Rightarrow> bool" where
  "settles P t \<longleftrightarrow> (\<forall>s. P s \<longrightarrow> P (snd (alone t s)))"

lemma settlesI: "(\<And>s. P s \<Longrightarrow> P (snd (alone t s))) \<Longrightarrow> settles P t"
  by (simp add: settles_def)

lemma settles_basic: "settles P (done_with x)" "settles P (raise e)" "settles P (lifted r)"
  "settles P (reading f)" "settles P (fetch g)"
  by (simp_all add: settles_def alone_simps)

lemma settles_change: "(\<And>s. P s \<Longrightarrow> P (f s)) \<Longrightarrow> settles P (change f)"
  by (simp add: settles_def alone_simps)

lemma settles_andThen:
  assumes "settles P m" "\<And>x. settles P (k x)"
  shows "settles P (andThen m k)"
proof (rule settlesI)
  fix s assume "P s"
  with assms(1) have "P (snd (alone m s))" by (simp add: settles_def)
  with assms(2) show "P (snd (alone (andThen m k) s))"
    by (cases "alone m s") (auto simp: alone_andThen settles_def split: sum.split)
qed

lemma settles_trying: "settles P m \<Longrightarrow> settles P (trying m h)"
  unfolding settles_def alone_attempt by (fastforce split: prod.split sum.split)

lemma settles_cases:
  "(b \<Longrightarrow> settles P m) \<Longrightarrow> (\<not> b \<Longrightarrow> settles P n) \<Longrightarrow> settles P (if b then m else n)"
  "(v = None \<Longrightarrow> settles P m) \<Longrightarrow> (\<And>x. v = Some x \<Longrightarrow> settles P (f x)) \<Longrightarrow>
     settles P (case v of None \<Rightarrow> m | Some x \<Rightarrow> f x)"
  "(\<And>x. settles P (g x)) \<Longrightarrow> (\<And>x. settles P (h x)) \<Longrightarrow> settles P (case w of Inl x \<Rightarrow> g x | Inr x \<Rightarrow> h x)"
  "settles P (l z) \<Longrightarrow> settles P (let x = z in l x)"
  by (simp_all split: option.split sum.split)

lemmas settles_rules = settles_basic settles_andThen settles_trying settles_cases

subsection \<open>What every statement of a request maintains\<close>

text \<open>
  \<open>maintains I R t\<close>: every statement \<open>t\<close> executes in a state with \<open>I\<close> maintains \<open>I\<close> and moves the
  state along \<open>R\<close>, whatever state the others leave it.
\<close>

primrec maintains :: "('s \<Rightarrow> bool) \<Rightarrow> ('s \<Rightarrow> 's \<Rightarrow> bool) \<Rightarrow> ('s, 'e, 'a) act \<Rightarrow> bool" where
  "maintains I R (Finished x) = True"
| "maintains I R (Reading f) = (\<forall>s. maintains I R (f s))"
| "maintains I R (Statement f h) =
     ((\<forall>s. I s \<longrightarrow> (case map_prod (maintains I R) id (f s) of (b, s') \<Rightarrow> b \<and> I s' \<and> R s s')) \<and> (\<forall>e. maintains I R (h e)))"

lemma maintains_Statement [simp]:
  "maintains I R (Statement f h) \<longleftrightarrow>
   (\<forall>s. I s \<longrightarrow> maintains I R (fst (f s)) \<and> I (snd (f s)) \<and> R s (snd (f s))) \<and> (\<forall>e. maintains I R (h e))"
  by (simp add: map_prod_def split_beta)

declare maintains.simps(3) [simp del]

named_theorems maintains_rules
  \<open>rules showing that every statement of a request maintains an invariant\<close>

lemma maintains_graft:
  assumes "maintains I R m" "\<And>x. maintains I R (k x)"
  shows "maintains I R (graft m k)"
  using assms by (induction m rule: act_induct) simp_all

lemma maintains_basic [maintains_rules]: "maintains I R (done_with x)" "maintains I R (raise e)" "maintains I R (lifted r)"
  "maintains I R (reading f)" "maintains I R (Finished y)"
  by (simp_all add: done_with_def raise_def lifted_def reading_def)

lemma maintains_andThen [maintains_rules]:
  "maintains I R m \<Longrightarrow> (\<And>x. maintains I R (k x)) \<Longrightarrow> maintains I R (andThen m k)"
  unfolding andThen_def by (rule maintains_graft) (auto split: sum.split)

lemma maintains_trying [maintains_rules]: "maintains I R m \<Longrightarrow> maintains I R (trying m h)"
  unfolding trying_def by (rule maintains_graft) (auto split: sum.split)

lemma maintains_fetch [maintains_rules]: "(\<And>s. R s s) \<Longrightarrow> maintains I R (fetch f)"
  by (simp add: fetch_def sql_def)

lemma maintains_change [maintains_rules]:
  "(\<And>s. I s \<Longrightarrow> I (f s) \<and> R s (f s)) \<Longrightarrow> maintains I R (change f)"
  by (simp add: change_def sql_def)

lemma maintains_sql [maintains_rules]:
  assumes "\<And>s. R s s" "\<And>s x s'. I s \<Longrightarrow> f s = Inr (x, s') \<Longrightarrow> I s' \<and> R s s'"
  shows "maintains I R (sql f)"
  using assms by (auto simp: sql_def split: sum.split)

lemma maintains_each [maintains_rules]: "(\<And>x. x \<in> set xs \<Longrightarrow> maintains I R (f x)) \<Longrightarrow> maintains I R (each f xs)"
  by (induction xs) (auto intro!: maintains_rules)

text \<open>The law, for every way the statements of the requests may fall.\<close>

locale stable =
  fixes I :: "'s \<Rightarrow> bool" and R :: "'s \<Rightarrow> 's \<Rightarrow> bool" and el :: "nat \<Rightarrow> 's \<Rightarrow> 's"
  assumes refl: "R s s"
    and trans: "R s t \<Longrightarrow> R t u \<Longrightarrow> R s u"
    and waits: "I s \<Longrightarrow> I (el n s) \<and> R s (el n s)"
begin

lemma go_on_maintains:
  assumes "maintains I R t" "I s"
  shows "maintains I R (fst (go_on t s)) \<and> I (snd (go_on t s)) \<and> R s (snd (go_on t s)) \<and> maintains I R (failing e t)"
  using assms refl by (cases t) auto

lemma happen_maintains:
  assumes "\<forall>t \<in> set (fst p). maintains I R t" "I (snd p)"
  shows "I (snd (happen el v p)) \<and> R (snd p) (snd (happen el v p)) \<and>
    (\<forall>t \<in> set (fst (happen el v p)). maintains I R t)"
proof (cases p)
  case (Pair ts s)
  have upd: "x \<in> set (ts[i := t']) \<Longrightarrow> x = t' \<or> x \<in> set ts" for x t' i
    using set_update_subset_insert [of ts i t'] by auto
  have th: "i < length ts \<Longrightarrow> maintains I R (fst (go_on (ts ! i) s)) \<and> I (snd (go_on (ts ! i) s)) \<and>
      R s (snd (go_on (ts ! i) s)) \<and> maintains I R (failing e (ts ! i))" for i e
    using assms Pair by (simp add: go_on_maintains)
  show ?thesis
    using th assms refl waits Pair by (cases v) (auto dest!: upd)
qed

lemma exec_maintains:
  assumes "\<forall>t \<in> set (fst p). maintains I R t" "I (snd p)"
  shows "I (snd (exec el evs p)) \<and> R (snd p) (snd (exec el evs p))"
  using assms
proof (induction evs arbitrary: p)
  case (Cons v evs)
  from happen_maintains [OF Cons.prems, of v] Cons.IH [of "happen el v p"] show ?case
    using trans by auto
qed (simp add: refl)

end

subsection \<open>Exclusive claims\<close>

text \<open>
  Requests compete for something that can be claimed once: a state in which it can still be
  had satisfies \<open>claim\<close>. A request is rightful when it can only win through a statement that
  claims it, which is refused to a request that comes too late.
\<close>

primrec rightful ::
  "('s \<Rightarrow> bool) \<Rightarrow> ('s \<Rightarrow> bool) \<Rightarrow> ('a \<Rightarrow> bool) \<Rightarrow> ('s, 'e, 'a) act \<Rightarrow> bool" where
  "rightful I claim won (Finished x) = (\<not> won x)"
| "rightful I claim won (Reading f) = (\<forall>s. rightful I claim won (f s))"
| "rightful I claim won (Statement f h) =
     ((\<forall>s. I s \<longrightarrow> (case map_prod (rightful I claim won) id (f s) of (b, s') \<Rightarrow> b \<or> claim s \<and> \<not> claim s')) \<and>
      (\<forall>e. rightful I claim won (h e)))"

lemma rightful_Statement [simp]:
  "rightful I claim won (Statement f h) \<longleftrightarrow>
   (\<forall>s. I s \<longrightarrow> rightful I claim won (fst (f s)) \<or> claim s \<and> \<not> claim (snd (f s))) \<and>
   (\<forall>e. rightful I claim won (h e))"
  by (simp add: map_prod_def split_beta)

declare rightful.simps(3) [simp del]

lemma rightful_graft:
  assumes "maintains I R m" "\<And>x. rightful I claim won (k x)"
  shows "rightful I claim won (graft m k)"
  using assms by (induction m rule: act_induct) simp_all

lemma rightful_loses:
  assumes "\<And>x. \<not> won x"
  shows "rightful I claim won m"
  using assms by (induction m rule: act_induct) simp_all

definition claimable :: "('s \<Rightarrow> bool) \<Rightarrow> 's \<Rightarrow> 's \<Rightarrow> bool" where
  "claimable claim s s' \<longleftrightarrow> (claim s' \<longrightarrow> claim s)"

text \<open>
  Of the requests of a pool, request \<open>i\<close> wins with the replies \<open>won i\<close>: all are rightful, or the
  claim is gone and all but one are.
\<close>

definition one_rightful_short ::
  "('s \<Rightarrow> bool) \<Rightarrow> ('s \<Rightarrow> bool) \<Rightarrow> (nat \<Rightarrow> 'a \<Rightarrow> bool) \<Rightarrow> ('s, 'e, 'a) pool \<Rightarrow> bool" where
  "one_rightful_short I claim won p \<longleftrightarrow>
     (\<forall>i < length (fst p). rightful I claim (won i) (fst p ! i)) \<or>
     \<not> claim (snd p) \<and>
     (\<exists>k < length (fst p). \<forall>i < length (fst p). i \<noteq> k \<longrightarrow> rightful I claim (won i) (fst p ! i))"

text \<open>
  How the statements of a request are gone through. The rules ask for the outcomes
  a state with \<open>I\<close> gives.
\<close>

lemma rightful_sql:
  assumes "\<And>e. \<not> won (h e)"
    and "\<And>s x s'. I s \<Longrightarrow> f s = Inr (x, s') \<Longrightarrow>
      rightful I claim won (trying (k x) h) \<or> claim s \<and> \<not> claim s'"
  shows "rightful I claim won (trying (andThen (sql f) k) h)"
  using assms unfolding trying_andThen by (auto simp: graft_sql split: sum.split)

lemma rightful_fetch:
  assumes "\<And>e. \<not> won (h e)" "\<And>s. I s \<Longrightarrow> rightful I claim won (trying (k (f s)) h)"
  shows "rightful I claim won (trying (andThen (fetch f) k) h)"
  using assms unfolding fetch_def by (intro rightful_sql) auto

lemma rightful_reading:
  assumes "\<And>s. rightful I claim won (trying (k (f s)) h)"
  shows "rightful I claim won (trying (andThen (reading f) k) h)"
  using assms unfolding trying_andThen by (simp add: reading_def)

lemma rightful_lifted:
  assumes "\<And>e. \<not> won (h e)" "\<And>x. r = Inr x \<Longrightarrow> rightful I claim won (trying (k x) h)"
  shows "rightful I claim won (trying (andThen (lifted r) k) h)"
  using assms unfolding trying_andThen by (auto simp: lifted_def split: sum.split)

lemma rightful_done: "\<not> won x \<Longrightarrow> rightful I claim won (trying (done_with x) h)"
  by simp

lemma rightful_raise: "(\<And>e. \<not> won (h e)) \<Longrightarrow> rightful I claim won (trying (raise e) h)"
  by simp

lemma rightful_quiet:
  assumes "\<And>e. \<not> won (h e)" "maintains I R m" "\<And>x. rightful I claim won (trying (k x) h)"
  shows "rightful I claim won (trying (andThen m k) h)"
  unfolding trying_andThen using assms by (intro rightful_graft) (auto split: sum.split)

lemma rightful_if:
  assumes "b \<Longrightarrow> rightful I claim won (trying m h)" "\<not> b \<Longrightarrow> rightful I claim won (trying n h)"
  shows "rightful I claim won (trying (if b then m else n) h)"
  using assms by simp

lemma rightful_option:
  assumes "v = None \<Longrightarrow> rightful I claim won (trying m h)"
    and "\<And>x. v = Some x \<Longrightarrow> rightful I claim won (trying (f x) h)"
  shows "rightful I claim won (trying (case v of None \<Rightarrow> m | Some x \<Rightarrow> f x) h)"
  using assms by (cases v) simp_all

lemma rightful_prod:
  "(\<And>x y. v = (x, y) \<Longrightarrow> rightful I claim won (trying (f x y) h)) \<Longrightarrow>
   rightful I claim won (trying (case v of (x, y) \<Rightarrow> f x y) h)"
  by (cases v) simp

lemma rightful_let: "rightful I claim won (trying (f v) h) \<Longrightarrow> rightful I claim won (trying (let x = v in f x) h)"
  by simp

lemmas rightful_structure = rightful_if rightful_option rightful_prod rightful_let rightful_done rightful_raise
  rightful_fetch rightful_reading rightful_lifted

locale one_claim = stable I "claimable claim" el
  for I claim :: "'s \<Rightarrow> bool" and el :: "nat \<Rightarrow> 's \<Rightarrow> 's"
begin

lemma rightful_go_on:
  assumes "rightful I claim won t" "I s"
  shows "rightful I claim won (fst (go_on t s)) \<or> claim s \<and> \<not> claim (snd (go_on t s))"
  using assms by (cases t) auto

lemma rightful_failing [simp]: "rightful I claim won t \<Longrightarrow> rightful I claim won (failing e t)"
  by (cases t) simp_all

text \<open>What an event does to the request it concerns and to the state.\<close>

lemma happen_cases:
  obtains (state) s' where "happen el v (ts, s) = (ts, s')" "s' = s \<or> (\<exists>n. s' = el n s)"
  | (thread) i t' s' where "happen el v (ts, s) = (ts[i := t'], s')" "i < length ts"
      "t' = fst (go_on (ts ! i) s) \<and> s' = snd (go_on (ts ! i) s) \<or>
       (\<exists>e. t' = failing e (ts ! i)) \<and> (s' = s \<or> s' = snd (go_on (ts ! i) s))"
proof (cases v)
  case (Elapse n)
  then show ?thesis using state [of "el n s"] by auto
next
  case (Run i)
  then show ?thesis
    using state [of s] thread [of i "fst (go_on (ts ! i) s)" "snd (go_on (ts ! i) s)"]
    by (cases "i < length ts") simp_all
next
  case (Refuse i e)
  then show ?thesis
    using state [of s] thread [of i "failing e (ts ! i)" s] by (cases "i < length ts") auto
next
  case (Lose i e)
  then show ?thesis
    using state [of s] thread [of i "failing e (ts ! i)" "snd (go_on (ts ! i) s)"]
    by (cases "i < length ts") auto
qed

lemma happen_one_rightful_short:
  assumes "one_rightful_short I claim won p"
    and "\<forall>t \<in> set (fst p). maintains I (claimable claim) t" "I (snd p)"
  shows "one_rightful_short I claim won (happen el v p)"
proof -
  obtain ts s where p: "p = (ts, s)" by (cases p)
  show ?thesis
  proof (cases rule: happen_cases [of v ts s])
    case (state s')
    moreover have "\<not> claim s \<Longrightarrow> \<not> claim s'"
      using state waits [of s] assms(3) p by (auto simp: claimable_def)
    ultimately show ?thesis using assms(1) p by (auto simp: one_rightful_short_def)
  next
    case (thread i t' s')
    have quiet: "\<not> claim s \<Longrightarrow> \<not> claim s'"
      using go_on_maintains [of "ts ! i" s] assms p thread by (auto simp: claimable_def)
    have step: "rightful I claim (won i) (ts ! i) \<Longrightarrow>
        rightful I claim (won i) t' \<or> claim s \<and> \<not> claim s'"
      using rightful_go_on [of "won i" "ts ! i" s] thread(3) assms(3) p by auto
    show ?thesis
    proof (cases "\<forall>j < length ts. rightful I claim (won j) (ts ! j)")
      case True
      then show ?thesis
        using step thread p by (auto simp: one_rightful_short_def nth_list_update)
    next
      case False
      with assms(1) p obtain k where k: "\<not> claim s" "k < length ts"
        "\<And>j. j < length ts \<Longrightarrow> j \<noteq> k \<Longrightarrow> rightful I claim (won j) (ts ! j)"
        by (auto simp: one_rightful_short_def)
      then show ?thesis
        using step thread p quiet by (auto simp: one_rightful_short_def nth_list_update intro!: exI [of _ k])
    qed
  qed
qed

lemma exec_one_rightful_short:
  assumes "one_rightful_short I claim won p"
    and "\<forall>t \<in> set (fst p). maintains I (claimable claim) t" "I (snd p)"
  shows "one_rightful_short I claim won (exec el evs p)"
  using assms
proof (induction evs arbitrary: p)
  case (Cons v evs)
  from happen_one_rightful_short [OF Cons.prems] happen_maintains [OF Cons.prems(2,3)] Cons.IH
  show ?case by simp
qed simp

lemma one_winner:
  assumes "\<And>k. k < length ts \<Longrightarrow> rightful I claim (won k) (ts ! k)"
    and "\<forall>t \<in> set ts. maintains I (claimable claim) t" "I s"
    and "replied (exec el evs (ts, s)) i = Some x" "won i x"
    and "replied (exec el evs (ts, s)) j = Some y" "won j y"
  shows "i = j"
proof -
  have "one_rightful_short I claim won (exec el evs (ts, s))"
    using assms(1-3) by (intro exec_one_rightful_short) (auto simp: one_rightful_short_def)
  moreover note repliedD [OF assms(4)] repliedD [OF assms(6)]
  moreover have "won k z \<Longrightarrow> \<not> rightful I claim (won k) (Finished z)" for k z by simp
  ultimately show ?thesis
    using assms(5,7) unfolding one_rightful_short_def by metis
qed

lemma happen_late:
  assumes "\<forall>i < length (fst p). rightful I claim (won i) (fst p ! i)"
    and "\<forall>t \<in> set (fst p). maintains I (claimable claim) t" "I (snd p)" "\<not> claim (snd p)"
  shows "(\<forall>i < length (fst (happen el v p)). rightful I claim (won i) (fst (happen el v p) ! i)) \<and>
    \<not> claim (snd (happen el v p))"
proof -
  obtain ts s where p: "p = (ts, s)" by (cases p)
  show ?thesis
  proof (cases rule: happen_cases [of v ts s])
    case (state s')
    then show ?thesis using assms waits [of s] p by (auto simp: claimable_def)
  next
    case (thread i t' s')
    have "\<not> claim s'"
      using go_on_maintains [of "ts ! i" s] assms p thread by (auto simp: claimable_def)
    moreover have "rightful I claim (won i) t'"
      using rightful_go_on [of "won i" "ts ! i" s] thread(2,3) assms p by auto
    ultimately show ?thesis using thread assms p by (auto simp: nth_list_update)
  qed
qed

lemma no_winner:
  assumes "\<And>k. k < length ts \<Longrightarrow> rightful I claim (won k) (ts ! k)"
    and "\<forall>t \<in> set ts. maintains I (claimable claim) t" "I s"
    and "\<not> claim s" "replied (exec el evs (ts, s)) i = Some x"
  shows "\<not> won i x"
proof -
  have "\<forall>i < length (fst p). rightful I claim (won i) (fst p ! i) \<Longrightarrow>
    \<forall>t \<in> set (fst p). maintains I (claimable claim) t \<Longrightarrow> I (snd p) \<Longrightarrow> \<not> claim (snd p) \<Longrightarrow>
    \<forall>i < length (fst (exec el evs p)). rightful I claim (won i) (fst (exec el evs p) ! i)" for p
  proof (induction evs arbitrary: p)
    case (Cons v evs)
    from happen_late [OF Cons.prems, of v] happen_maintains [OF Cons.prems(2,3), of v] Cons.IH [of "happen el v p"]
    show ?case by simp
  qed simp
  from this [of "(ts, s)"] assms repliedD [OF assms(5)]
  have "rightful I claim (won i) (Finished x :: ('s, 'd, 'b) act)"
    by auto
  then show ?thesis by simp
qed

end

end
