(* ===== verification/Accounts.thy ===== *)
theory Accounts
  imports Permissions Handles Interleaving
begin

text \<open>
  Accounts and their sessions: the tables a sign-in reads and writes, access and refresh
  tokens (\<^verbatim>\<open>src/auth/tokens.ts\<close>, \<^verbatim>\<open>src/auth/session-issue.ts\<close>), and the session endpoints under \<^verbatim>\<open>src/api\<close>: \<open>createSession\<close>, \<open>refreshSession\<close>, \<open>deleteSession\<close>, \<open>revokeSession\<close>.

  The endpoints of this theory run as requests of a pool: any statement of another request
  may come between two of theirs. The tables are those of the accounts only, with the columns
  the communities do not read. Hashing, password checking and the signature of an access token
  are libraries the source calls: parameters. Sent e-mails are not modelled.
\<close>

subsection \<open>The tables\<close>

record account =
  ac_id :: string
  ac_handle :: string
  ac_email :: "string option"
  ac_email_verified_at :: "int option"
  ac_password_hash :: "string option"
  ac_status :: string
  ac_did :: string
  ac_auth_type :: string
  ac_approved_at :: "int option"
  ac_approved_by :: "string option"
  ac_status_changed_at :: "int option"
  ac_status_changed_by :: "string option"
  ac_status_reason :: jv
  ac_exported_at :: "int option"
  ac_failed_login_attempts :: int
  ac_locked_until :: "int option"
  ac_recovery_tier :: "int option"
  ac_token_version :: int
  ac_migrating_in :: bool

record session =
  se_id :: string
  se_user_id :: string
  se_refresh_token_hash :: string
  se_previous_token_hash :: "string option"
  se_expires_at :: int
  se_created_at :: "int option"
  se_last_used_at :: "int option"
  se_revoked_at :: "int option"

record invite =
  in_code :: string
  in_created_by :: "string option"
  in_used_by :: "string option"
  in_used_at :: "int option"
  in_expires_at :: "int option"
  in_max_uses :: int
  in_uses_count :: int
  in_bound_to :: "string option"
  in_note :: "string option"

record reset_token =
  rt_id :: string
  rt_user_id :: string
  rt_token_hash :: string
  rt_expires_at :: int
  rt_used_at :: "int option"

record recovery_attempt =
  ra_id :: string
  ra_user_did :: string
  ra_tier :: int
  ra_status :: string
  ra_token_hash :: string
  ra_expires_at :: int
  ra_completed_at :: "int option"
  ra_initiated_by :: string

record verification =
  ev_id :: string
  ev_user_id :: string
  ev_email :: string
  ev_token_hash :: string
  ev_expires_at :: int
  ev_used_at :: "int option"

record accounts =
  t_now :: int
  t_users :: "account list"
  t_roles :: "(string \<times> string) list"
  t_sessions :: "session list"
  t_invites :: "invite list"
  t_resets :: "reset_token list"
  t_recoveries :: "recovery_attempt list"
  t_verifications :: "verification list"
  t_audit :: "audit_entry list"

type_synonym 'a op = "(accounts, exn, exn + 'a) act"
type_synonym endpoint = "(accounts, exn, reply) act"

text \<open>
  The libraries and the configuration: SHA-256 in hexadecimal, \<open>bcrypt\<close>, the signature and
  the verification of an access token at an instant, the lifetime of refresh tokens, whether
  an invite is required, and the e-mail policy, and
  the text of a value in a template.
\<close>

record auth_env =
  ae_sha256 :: "string \<Rightarrow> string"
  ae_compare :: "string \<Rightarrow> string \<Rightarrow> bool"
  ae_bcrypt :: "string \<Rightarrow> string \<Rightarrow> string"
  ae_sign :: "int \<Rightarrow> jv \<Rightarrow> string"
  ae_jwt_verify :: "int \<Rightarrow> string \<Rightarrow> jv option"
  ae_refreshTokenTtl :: string
  ae_inviteRequired :: bool
  ae_emailPolicy :: string
  ae_text :: "jv \<Rightarrow> string"

definition pass_time :: "nat \<Rightarrow> accounts \<Rightarrow> accounts" where
  "pass_time n s = s\<lparr>t_now := t_now s + int n\<rparr>"

definition on_user :: "string \<Rightarrow> (account \<Rightarrow> account) \<Rightarrow> accounts \<Rightarrow> accounts" where
  "on_user userId f s = s\<lparr>t_users := map (\<lambda>u. if ac_id u = userId then f u else u) (t_users s)\<rparr>"

definition bump_version :: "account \<Rightarrow> account" where
  "bump_version u = u\<lparr>ac_token_version := ac_token_version u + 1\<rparr>"

definition revoke_sessions :: "(session \<Rightarrow> bool) \<Rightarrow> accounts \<Rightarrow> accounts" where
  "revoke_sessions P s = s\<lparr>t_sessions := map (\<lambda>x. if P x \<and> se_revoked_at x = None
      then x\<lparr>se_revoked_at := Some (t_now s)\<rparr> else x) (t_sessions s)\<rparr>"

definition user_roles :: "accounts \<Rightarrow> string \<Rightarrow> string list" where
  "user_roles s userId = map snd (filter (\<lambda>r. fst r = userId) (t_roles s))"

text \<open>\<open>auditLog\<close> on these tables: nothing about a pseudonym, and never an error.\<close>

definition audited ::
  "string \<Rightarrow> string option \<Rightarrow> string option \<Rightarrow> (string \<times> jv) list \<Rightarrow> accounts \<Rightarrow> accounts" where
  "audited action actor target meta s =
     (if \<exists>u \<in> set (t_users s). ac_auth_type u = ''pseudonym'' \<and>
           (Some (ac_id u) = actor \<or> Some (ac_id u) = target \<or> Some (ac_did u) = target)
      then s
      else s\<lparr>t_audit := t_audit s @ [\<lparr>au_action = action, au_actor = actor, au_target = target,
             au_meta = json_clean (JObj meta)\<rparr>]\<rparr>)"

definition audit :: "string \<Rightarrow> string option \<Rightarrow> string option \<Rightarrow> (string \<times> jv) list \<Rightarrow> unit op" where
  "audit action actor target meta = graft (change (audited action actor target meta)) (\<lambda>_. done_with ())"

lemma audited_select [simp]:
  "t_users (audited action actor target meta s) = t_users s" "t_roles (audited action actor target meta s) = t_roles s"
  "t_sessions (audited action actor target meta s) = t_sessions s" "t_now (audited action actor target meta s) = t_now s"
  "t_invites (audited action actor target meta s) = t_invites s"
  "t_recoveries (audited action actor target meta s) = t_recoveries s"
  "t_resets (audited action actor target meta s) = t_resets s"
  by (simp_all add: audited_def)

lemma alone_audit [alone_simps]:
  "alone (audit action actor target meta) s = (Inr (), audited action actor target meta s)"
  by (simp add: audit_def alone_graft alone_simps)

subsection \<open>Tokens\<close>

definition hashToken :: "auth_env \<Rightarrow> jv \<Rightarrow> exn + string" where
  "hashToken env token = (case token of
      JStr s \<Rightarrow> Inr (ae_sha256 env s)
    | _ \<Rightarrow> Inl (TypeError ''The data argument must be of type string''))"

definition DAY_MS :: int where "DAY_MS = 24 * 60 * 60 * 1000"

definition parseDurationMs :: "string \<Rightarrow> int \<Rightarrow> int" where
  "parseDurationMs value fallbackMs =
     (let v = js_trim value; ds = butlast v
      in if length v < 2 \<or> \<not> list_all is_digit ds then fallbackMs
         else (case digits_value ds of
             None \<Rightarrow> fallbackMs
           | Some amount \<Rightarrow>
             if last v = CHR ''s'' then int amount * 1000
             else if last v = CHR ''m'' then int amount * (60 * 1000)
             else if last v = CHR ''h'' then int amount * (60 * 60 * 1000)
             else if last v = CHR ''d'' then int amount * (24 * 60 * 60 * 1000)
             else fallbackMs))"

definition refreshTtlMs :: "auth_env \<Rightarrow> int" where
  "refreshTtlMs env = parseDurationMs (ae_refreshTokenTtl env) (30 * 24 * 60 * 60 * 1000)"

text \<open>\<open>Math.ceil\<close> of a quotient of integers.\<close>

definition ceil_quotient :: "int \<Rightarrow> int \<Rightarrow> int" where
  "ceil_quotient a b = - ((- a) div b)"

definition pseudonymSessionExpiry :: "auth_env \<Rightarrow> int \<Rightarrow> int" where
  "pseudonymSessionExpiry env now = ceil_quotient (now + refreshTtlMs env) DAY_MS * DAY_MS"

text \<open>\<open>new Date(t).toISOString()\<close> for a column of timestamps: the same instant, or \<open>RangeError\<close>.\<close>

definition timestamp :: "int \<Rightarrow> exn + int" where
  "timestamp t = (if \<bar>t\<bar> \<le> max_instant then Inr t else Inl RangeError)"

lemma timestamp_to_iso: "timestamp t = (case to_iso t of Inl e \<Rightarrow> Inl e | Inr _ \<Rightarrow> Inr t)"
  by (simp add: timestamp_def to_iso_def)

definition email_or_empty :: "account \<Rightarrow> jv" where
  "email_or_empty u = JStr (case ac_email u of None \<Rightarrow> [] | Some e \<Rightarrow> e)"

text \<open>The payload of an access token: the claims and its subject. The expiry is the library's.\<close>

definition signAccessToken :: "auth_env \<Rightarrow> account \<Rightarrow> string list \<Rightarrow> string op" where
  "signAccessToken env u roles =
     (if ac_token_version u < 0 then raise (Failure ''Cannot issue access token without a valid token version'')
      else reading (\<lambda>s. ae_sign env (t_now s) (JObj
        [(''handle'', JStr (ac_handle u)), (''email'', email_or_empty u),
         (''did'', JStr (ac_did u)), (''roles'', JArr (map JStr roles)), (''status'', JStr (ac_status u)),
         (''tokenVersion'', jint (ac_token_version u)), (''sub'', JStr (ac_id u))])))"

text \<open>
  What \<open>verifyAccessToken\<close> builds from a payload whose members passed the test for presence.
  The members are those the server signed, so strings where it signs strings.
\<close>

definition auth_of_payload :: "jv \<Rightarrow> auth option" where
  "auth_of_payload p = (case (jget p ''sub'', jget p ''did'', jget p ''handle'', jget p ''status'') of
      (JStr sub, JStr did, JStr handle, JStr status) \<Rightarrow>
        Some \<lparr>a_userId = sub, a_did = did, a_handle = handle, a_status = status,
              a_roles = strings_of (arr_or_nil (jget p ''roles'')), a_emailVerified = None\<rparr>
    | _ \<Rightarrow> None)"

definition verifyAccessToken :: "auth_env \<Rightarrow> string \<Rightarrow> (accounts, exn, auth option) act" where
  "verifyAccessToken env token = trying
     (andThen (reading (\<lambda>s. ae_jwt_verify env (t_now s) token)) (\<lambda>payload. case payload of
        None \<Rightarrow> raise (Failure ''JWTInvalid'')
      | Some p \<Rightarrow>
        if \<not> truthy (jget p ''sub'') \<or> \<not> truthy (jget p ''handle'') \<or> nullish (jget p ''email'')
           \<or> \<not> truthy (jget p ''did'') \<or> \<not> truthy (jget p ''roles'') \<or> \<not> is_integer (jget p ''tokenVersion'')
        then done_with None
        else andThen (fetch (\<lambda>s. map_option ac_token_version
                (find (\<lambda>u. JStr (ac_id u) = jget p ''sub'') (t_users s)))) (\<lambda>version.
          if map_option jint version \<noteq> Some (jget p ''tokenVersion'') then done_with None
          else done_with (auth_of_payload p))))
     (\<lambda>_. None)"

text \<open>
  \<open>issueSession\<close>: \<open>token\<close> and \<open>sessionId\<close> are the random values it draws. The role list is
  the one its own statement reads.
\<close>

definition new_session :: "string \<Rightarrow> string \<Rightarrow> string \<Rightarrow> int \<Rightarrow> int option \<Rightarrow> session" where
  "new_session sessionId userId hash expires created =
     \<lparr>se_id = sessionId, se_user_id = userId, se_refresh_token_hash = hash, se_previous_token_hash = None,
      se_expires_at = expires, se_created_at = created, se_last_used_at = None, se_revoked_at = None\<rparr>"

definition issueSession :: "auth_env \<Rightarrow> string \<Rightarrow> string \<Rightarrow> account \<Rightarrow> bool \<Rightarrow> (string \<times> string \<times> string list) op" where
  "issueSession env token sessionId user pseudonym =
     andThen (fetch (\<lambda>s. user_roles s (ac_id user))) (\<lambda>roles.
     andThen (signAccessToken env user roles) (\<lambda>accessJwt.
     andThen (reading t_now) (\<lambda>now.
     andThen (lifted (timestamp (if pseudonym then pseudonymSessionExpiry env now else now + refreshTtlMs env)))
       (\<lambda>expires.
     andThen (change (\<lambda>s. s\<lparr>t_sessions := t_sessions s @ [new_session sessionId (ac_id user)
          (ae_sha256 env token) expires (if pseudonym then None else Some (t_now s))]\<rparr>))
       (\<lambda>_. done_with (accessJwt, token, roles))))))"

subsection \<open>\<open>refreshSession\<close>\<close>

definition header_token :: "string option \<Rightarrow> string" where
  "header_token authHeader = (case authHeader of
      None \<Rightarrow> []
    | Some h \<Rightarrow> if take 7 h = ''Bearer '' then js_trim (drop 7 h) else [])"

definition revoke_for_reuse :: "string \<Rightarrow> unit op" where
  "revoke_for_reuse h =
     andThen (fetch (\<lambda>s. find (\<lambda>x. se_previous_token_hash x = Some h) (t_sessions s))) (\<lambda>reused. case reused of
         None \<Rightarrow> done_with ()
       | Some x \<Rightarrow>
         andThen (change (revoke_sessions (\<lambda>y. se_user_id y = se_user_id x)))
           (\<lambda>_. change (on_user (se_user_id x) bump_version)))"

definition session_status_problem :: "string \<Rightarrow> reply option" where
  "session_status_problem status =
     (if status = ''suspended'' then Some (err 403 ''AccountSuspended'')
      else if status = ''takendown'' then Some (err 410 ''AccountTakenDown'')
      else if status \<noteq> ''approved'' \<and> status \<noteq> ''deactivated'' then Some (err 403 ''AccountNotApproved'')
      else None)"

text \<open>The conditional update, with the number of rows it changed.\<close>

definition rotate :: "string \<Rightarrow> string \<Rightarrow> string \<Rightarrow> int \<Rightarrow> bool \<Rightarrow> accounts \<Rightarrow> nat \<times> accounts" where
  "rotate sessionId oldHash newHash expires pseudonym s =
     (let hit = (\<lambda>x. se_id x = sessionId \<and> se_refresh_token_hash x = oldHash \<and> se_revoked_at x = None)
      in (length (filter hit (t_sessions s)),
          s\<lparr>t_sessions := map (\<lambda>x. if hit x
              then x\<lparr>se_refresh_token_hash := newHash, se_previous_token_hash := Some oldHash,
                     se_expires_at := expires, se_last_used_at := (if pseudonym then None else Some (t_now s))\<rparr>
              else x) (t_sessions s)\<rparr>))"

text \<open>From the session found to the reply.\<close>

definition refresh_found :: "auth_env \<Rightarrow> string \<Rightarrow> string \<Rightarrow> session \<Rightarrow> reply op" where
  "refresh_found env newToken tokenHash session =
     andThen (reading t_now) (\<lambda>now.
       if se_revoked_at session \<noteq> None \<or> se_expires_at session \<le> now then done_with (err 401 ''Unauthorized'')
       else andThen (fetch (\<lambda>s. map_option (\<lambda>u. (u, user_roles s (ac_id u)))
                (find (\<lambda>u. ac_id u = se_user_id session) (t_users s)))) (\<lambda>row. case row of
         None \<Rightarrow> done_with (err 401 ''Unauthorized'')
       | Some (user, roles) \<Rightarrow>
         (case session_status_problem (ac_status user) of
            Some r \<Rightarrow> done_with r
          | None \<Rightarrow>
            andThen (signAccessToken env user roles) (\<lambda>accessJwt.
            andThen (reading t_now) (\<lambda>now2.
            andThen (lifted (timestamp (if ac_auth_type user = ''pseudonym'' then pseudonymSessionExpiry env now2
                                        else now2 + refreshTtlMs env))) (\<lambda>newExpiresAt.
            andThen (sql (\<lambda>s. Inr (rotate (se_id session) tokenHash (ae_sha256 env newToken) newExpiresAt
                                     (ac_auth_type user = ''pseudonym'') s))) (\<lambda>rowCount.
              if rowCount \<noteq> 1
              then andThen (revoke_for_reuse tokenHash) (\<lambda>_. done_with (err 401 ''Unauthorized''))
              else andThen (audit ''session.refresh'' (Some (ac_id user)) (Some (ac_id user)) []) (\<lambda>_.
                done_with (ok
                  [(''did'', JStr (ac_did user)), (''handle'', JStr (ac_handle user)),
                   (''email'', email_or_empty user),
                   (''accessJwt'', JStr accessJwt), (''refreshJwt'', JStr newToken),
                   (''active'', JBool True), (''roles'', JArr (map JStr roles))])))))))))"

definition refreshSession :: "auth_env \<Rightarrow> string \<Rightarrow> jv \<Rightarrow> string option \<Rightarrow> endpoint" where
  "refreshSession env newToken body authHeader = trying
     (let refreshToken = js_or (jget body ''refreshJwt'') (JStr (header_token authHeader))
      in if \<not> truthy refreshToken then done_with (err 400 ''InvalidRequest'')
         else
           andThen (lifted (hashToken env refreshToken)) (\<lambda>tokenHash.
           andThen (fetch (\<lambda>s. find (\<lambda>x. se_refresh_token_hash x = tokenHash) (t_sessions s))) (\<lambda>found.
             case found of
               None \<Rightarrow> andThen (revoke_for_reuse tokenHash) (\<lambda>_. done_with (err 401 ''Unauthorized''))
             | Some session \<Rightarrow> refresh_found env newToken tokenHash session)))
     (\<lambda>_. err 500 ''InternalServerError'')"

subsection \<open>\<open>deleteSession\<close> and \<open>revokeSession\<close>\<close>

definition deleteSession :: "auth_env \<Rightarrow> jv \<Rightarrow> endpoint" where
  "deleteSession env body = trying
     (let refreshToken = jget body ''refreshJwt''
      in if \<not> truthy refreshToken then done_with (err 400 ''InvalidRequest'')
         else
           andThen (lifted (hashToken env refreshToken)) (\<lambda>tokenHash.
           andThen (sql (\<lambda>s.
               let hit = (\<lambda>x. se_refresh_token_hash x = tokenHash)
               in Inr (map se_user_id (filter (\<lambda>x. hit x \<and> se_revoked_at x = None) (t_sessions s)),
                       revoke_sessions hit s))) (\<lambda>returned. case returned of
               [] \<Rightarrow> done_with (ok [(''success'', JBool True)])
             | userId # _ \<Rightarrow>
               andThen (change (on_user userId bump_version)) (\<lambda>_.
               andThen (audit ''session.delete'' (Some userId) (Some userId) []) (\<lambda>_.
               done_with (ok [(''success'', JBool True)]))))))
     (\<lambda>_. err 500 ''InternalServerError'')"

text \<open>
  \<open>revokeSession\<close> has no \<open>try\<close>: what it throws the router answers with status 500. The
  pattern \<open>LIKE sessionId%\<close> reads the wildcards in the identifier the caller sends.
\<close>

fun sql_like :: "string \<Rightarrow> string \<Rightarrow> bool" where
  "sql_like [] s = (s = [])"
| "sql_like (p # ps) s =
     (if p = CHR ''%'' then
        (case s of [] \<Rightarrow> sql_like ps [] | c # cs \<Rightarrow> sql_like ps (c # cs) \<or> sql_like (p # ps) cs)
      else if of_char p = (92 :: nat) then
        (case (ps, s) of (q # qs, c # cs) \<Rightarrow> q = c \<and> sql_like qs cs | _ \<Rightarrow> False)
      else (case s of [] \<Rightarrow> False | c # cs \<Rightarrow> (p = CHR ''_'' \<or> p = c) \<and> sql_like ps cs))"

definition text_of :: "auth_env \<Rightarrow> jv \<Rightarrow> string" where
  "text_of env v = (case v of JStr s \<Rightarrow> s | _ \<Rightarrow> ae_text env v)"

definition revoke_target :: "auth \<Rightarrow> jv \<Rightarrow> (reply + string) op" where
  "revoke_target a did =
     (if \<not> truthy did \<or> did = JStr (a_did a) then done_with (Inr (a_userId a))
      else if ''admin'' \<notin> set (a_roles a) then done_with (Inl (err 403 ''Forbidden''))
      else andThen (fetch (\<lambda>s. find (\<lambda>u. JStr (ac_did u) = did) (t_users s))) (\<lambda>row. case row of
          None \<Rightarrow> done_with (Inl (err 404 ''NotFound''))
        | Some u \<Rightarrow> done_with (Inr (ac_id u))))"

definition revoke_returning :: "(session \<Rightarrow> bool) \<Rightarrow> nat op" where
  "revoke_returning P = sql (\<lambda>s.
     Inr (length (filter (\<lambda>x. P x \<and> se_revoked_at x = None) (t_sessions s)), revoke_sessions P s))"

definition revokeSession :: "auth_env \<Rightarrow> request \<Rightarrow> endpoint" where
  "revokeSession env req = trying
     (case requireAuth req of
        Inl r \<Rightarrow> done_with r
      | Inr a \<Rightarrow>
        (let sessionId = jget (q_body req) ''sessionId''; revokeAll = jget (q_body req) ''revokeAll''
         in if \<not> truthy sessionId \<and> \<not> truthy revokeAll then done_with (err 400 ''InvalidRequest'')
            else andThen (revoke_target a (jget (q_body req) ''did'')) (\<lambda>target. case target of
              Inl r \<Rightarrow> done_with r
            | Inr userId \<Rightarrow>
              andThen (revoke_returning (\<lambda>x. se_user_id x = userId \<and> (truthy revokeAll \<or>
                  sql_like (text_of env sessionId @ ''%'') (se_id x))))
                (\<lambda>revokedCount.
              if \<not> truthy revokeAll \<and> revokedCount = 0 then done_with (err 404 ''NotFound'')
              else
              andThen (if 0 < revokedCount then change (on_user userId bump_version) else done_with ()) (\<lambda>_.
              andThen (audit ''session.revoke'' (Some (a_userId a)) (Some userId)
                [(''revokedCount'', jnat revokedCount), (''revokeAll'', JBool (truthy revokeAll)),
                 (''sessionIdPrefix'', js_or sessionId JNull)])
                (\<lambda>_. done_with (ok [(''revokedCount'', jnat revokedCount)])))))))
     (\<lambda>_. err 500 ''InternalServerError'')"

subsection \<open>\<open>createSession\<close>\<close>

definition checkPassword :: "auth_env \<Rightarrow> jv \<Rightarrow> string \<Rightarrow> exn + bool" where
  "checkPassword env password hash = (case password of
      JStr p \<Rightarrow> Inr (ae_compare env p hash) | _ \<Rightarrow> Inl (Failure ''Illegal arguments''))"

definition login_failed :: "string option \<Rightarrow> jv \<Rightarrow> string \<Rightarrow> jv \<Rightarrow> (string \<times> jv) list \<Rightarrow> unit op" where
  "login_failed target identifier reason ip extra =
     audit ''session.loginFailed'' None target
       ([(''identifier'', identifier), (''reason'', JStr reason), (''ip'', ip)] @ extra)"

text \<open>The delay after the \<open>n\<close>-th failure in a row.\<close>

definition lock_until :: "int \<Rightarrow> int \<Rightarrow> int option" where
  "lock_until n now =
     (if n \<ge> 20 then Some (now + 2 * 60 * 60 * 1000)
      else if n \<ge> 15 then Some (now + 30 * 60 * 1000)
      else if n \<ge> 10 then Some (now + 5 * 60 * 1000)
      else if n \<ge> 5 then Some (now + 60 * 1000)
      else None)"

definition count_failure :: "int \<Rightarrow> account \<Rightarrow> account" where
  "count_failure now u = u\<lparr>ac_failed_login_attempts := ac_failed_login_attempts u + 1,
     ac_locked_until := lock_until (ac_failed_login_attempts u + 1) now\<rparr>"

definition reset_failures :: "account \<Rightarrow> account" where
  "reset_failures u = u\<lparr>ac_failed_login_attempts := 0, ac_locked_until := None\<rparr>"

text \<open>The update with \<open>RETURNING\<close>: the first row it changed; \<open>failure.rows[0]\<close> throws without one.\<close>

definition record_failure :: "string \<Rightarrow> int op" where
  "record_failure userId =
     andThen (sql (\<lambda>s. let s' = on_user userId (count_failure (t_now s)) s
                       in Inr (map_option ac_failed_login_attempts (find (\<lambda>u. ac_id u = userId) (t_users s')), s')))
       (\<lambda>row. case row of None \<Rightarrow> raise (TypeError ''Cannot read properties of undefined'') | Some n \<Rightarrow> done_with n)"

definition find_login :: "string \<Rightarrow> accounts \<Rightarrow> account option" where
  "find_login identifier s = find (\<lambda>u. ac_handle u = identifier \<or> ac_email u = Some identifier) (t_users s)"

definition login_identifier :: "jv \<Rightarrow> exn + string" where
  "login_identifier identifier = (case identifier of
      JStr s \<Rightarrow> if CHR ''@'' \<in> set s then normalizeEmail identifier else normalizeHandle identifier
    | _ \<Rightarrow> Inl (TypeError ''input.identifier.includes is not a function''))"

definition refuse_login :: "account \<Rightarrow> jv \<Rightarrow> jv \<Rightarrow> string \<Rightarrow> reply \<Rightarrow> reply op" where
  "refuse_login user identifier ip reason r =
     andThen (login_failed (Some (ac_id user)) identifier reason ip []) (\<lambda>_. done_with r)"

text \<open>After the password was found correct.\<close>

definition login_accepted ::
  "auth_env \<Rightarrow> string \<Rightarrow> string \<Rightarrow> jv \<Rightarrow> jv \<Rightarrow> account \<Rightarrow> reply op" where
  "login_accepted env token sessionId identifier ip user =
     andThen (if ac_failed_login_attempts user > 0 then change (on_user (ac_id user) reset_failures)
              else done_with ()) (\<lambda>_.
     let refuse = refuse_login user identifier ip; deactivated = (ac_status user = ''deactivated'')
     in if ac_status user = ''suspended'' then refuse ''account_suspended'' (err 403 ''AccountSuspended'')
        else if ac_status user = ''takendown'' then refuse ''account_takendown'' (err 410 ''AccountTakenDown'')
        else if \<not> deactivated \<and> ac_status user \<noteq> ''approved''
        then refuse ''account_not_approved'' (err 403 ''AccountNotApproved'')
        else
          andThen (if ae_emailPolicy env = ''require-for-login''
              then fetch (\<lambda>s. Option.bind (find (\<lambda>u. ac_id u = ac_id user) (t_users s)) ac_email_verified_at \<noteq> None)
              else done_with True) (\<lambda>verified.
          if \<not> verified then refuse ''email_not_verified'' (err 403 ''EmailNotVerified'')
          else
            andThen (issueSession env token sessionId user False) (\<lambda>(accessJwt, refreshJwt, roles).
            done_with (ok
              ([(''did'', JStr (ac_did user)), (''handle'', JStr (ac_handle user)),
                (''email'', str_or_null (ac_email user)),
                (''accessJwt'', JStr accessJwt), (''refreshJwt'', JStr refreshJwt),
                (''active'', JBool (\<not> deactivated))]
               @ (if deactivated then [(''status'', JStr ''deactivated'')] else [])
               @ [(''roles'', JArr (map JStr roles))])))))"

text \<open>After the lock was found open.\<close>

definition login_unlocked ::
  "auth_env \<Rightarrow> string \<Rightarrow> string \<Rightarrow> jv \<Rightarrow> jv \<Rightarrow> jv \<Rightarrow> account \<Rightarrow> reply op" where
  "login_unlocked env token sessionId identifier password ip user =
     (let refuse = refuse_login user identifier ip
      in if ac_auth_type user = ''external'' then refuse ''external_account'' (err 400 ''ExternalAccount'')
      else (case ac_password_hash user of
          None \<Rightarrow> refuse ''no_password_hash'' (err 401 ''Unauthorized'')
        | Some hash \<Rightarrow>
          if hash = [] then refuse ''no_password_hash'' (err 401 ''Unauthorized'')
          else
          andThen (lifted (checkPassword env password hash)) (\<lambda>passwordOk.
            if passwordOk then login_accepted env token sessionId identifier ip user
            else andThen (record_failure (ac_id user)) (\<lambda>attempts.
                 andThen (login_failed (Some (ac_id user)) identifier ''wrong_password'' ip
                            [(''attempts'', jint attempts)])
                   (\<lambda>_. done_with (err 401 ''Unauthorized'')))))) "

definition createSession :: "auth_env \<Rightarrow> string \<Rightarrow> string \<Rightarrow> jv \<Rightarrow> jv \<Rightarrow> endpoint" where
  "createSession env token sessionId body ip = trying
     (let identifier = jget body ''identifier''; password = jget body ''password''
      in if \<not> truthy identifier \<or> \<not> truthy password then done_with (err 400 ''InvalidRequest'')
         else
           andThen (lifted (login_identifier identifier)) (\<lambda>normalized.
           andThen (fetch (find_login normalized)) (\<lambda>row. case row of
             None \<Rightarrow>
               andThen (login_failed None identifier ''user_not_found'' ip [])
                 (\<lambda>_. done_with (err 401 ''Unauthorized''))
           | Some user \<Rightarrow>
             if ac_auth_type user = ''pseudonym'' then done_with (err 401 ''Unauthorized'')
                else andThen (reading t_now) (\<lambda>now. case ac_locked_until user of
                  Some lock \<Rightarrow>
                    if lock > now then
                      andThen (reading t_now) (\<lambda>now2.
                      andThen (login_failed (Some (ac_id user)) identifier ''account_locked'' ip
                                 [(''lockedUntil'', JStr (iso lock))]) (\<lambda>_.
                      done_with (Reply 429 (JObj [(''error'', JStr ''AccountLocked''),
                        (''retryAfter'', jint (ceil_quotient (lock - now2) 1000))]))))
                    else login_unlocked env token sessionId identifier password ip user
                | None \<Rightarrow> login_unlocked env token sessionId identifier password ip user))))
     (\<lambda>_. err 500 ''InternalServerError'')"

end
