(* ===== verification/Credentials.thy ===== *)
theory Credentials
  imports Accounts
begin

text \<open>
  What replaces a credential: \<open>changePassword\<close>, \<open>requestPasswordReset\<close>,
  \<open>confirmPasswordReset\<close>, \<open>initiateRecovery\<close>, \<open>completeRecovery\<close> and the e-mail verification
  (\<^verbatim>\<open>src/api/net.openfederation.account.*\<close>, \<^verbatim>\<open>src/email/verification.ts\<close>,
  \<^verbatim>\<open>src/api/com.atproto.server.confirmEmail.ts\<close>).

  The identifiers, tokens and salts a request draws are its arguments. The password hash
  computed to pad the response time has no effect and is left out.
\<close>

definition set_password :: "string \<Rightarrow> account \<Rightarrow> account" where
  "set_password newHash u = u\<lparr>ac_password_hash := Some newHash, ac_token_version := ac_token_version u + 1\<rparr>"

definition hashPassword :: "auth_env \<Rightarrow> string \<Rightarrow> jv \<Rightarrow> exn + string" where
  "hashPassword env salt password = (case password of
      JStr p \<Rightarrow> Inr (ae_bcrypt env salt p) | _ \<Rightarrow> Inl (Failure ''Illegal arguments''))"

text \<open>\<open>isStrongPassword\<close> of a value that may not be a string: \<open>length\<close> and the patterns read its text.\<close>

definition js_length :: "jv \<Rightarrow> jv" where
  "js_length v = (case v of
      JStr s \<Rightarrow> jnat (length s) | JArr xs \<Rightarrow> jnat (length xs) | JObj _ \<Rightarrow> jget v ''length'' | _ \<Rightarrow> JUndef)"

definition weak :: "auth_env \<Rightarrow> jv \<Rightarrow> bool" where
  "weak env password \<longleftrightarrow>
     num_lt (to_number (js_length password)) (Fin 10) \<or> num_lt (Fin 128) (to_number (js_length password)) \<or>
     password_categories (text_of env password) < 3"

lemma weak_JStr [simp]: "weak env (JStr p) \<longleftrightarrow> \<not> isStrongPassword p"
  by (auto simp: weak_def js_length_def isStrongPassword_def text_of_def)

definition changePassword :: "auth_env \<Rightarrow> string \<Rightarrow> request \<Rightarrow> endpoint" where
  "changePassword env salt req = trying
     (case requireAuth req of
        Inl r \<Rightarrow> done_with r
      | Inr a \<Rightarrow>
        andThen (lifted (case jget (q_body req) ''currentPassword'' of
            JUndef \<Rightarrow> Inr []
          | JNull \<Rightarrow> Inr []
          | JStr s \<Rightarrow> Inr (js_trim s)
          | _ \<Rightarrow> Inl (TypeError ''trim is not a function''))) (\<lambda>currentPassword.
        let newPassword = jget (q_body req) ''newPassword''
        in if currentPassword = [] \<or> \<not> truthy newPassword then done_with (err 400 ''InvalidRequest'')
           else andThen (fetch (\<lambda>s. find (\<lambda>u. ac_id u = a_userId a) (t_users s))) (\<lambda>row. case row of
             None \<Rightarrow> done_with (err 404 ''NotFound'')
           | Some user \<Rightarrow>
             if ac_auth_type user \<noteq> ''local'' then done_with (err 400 ''InvalidRequest'')
             else (case ac_password_hash user of
               None \<Rightarrow> done_with (err 400 ''InvalidRequest'')
             | Some hash \<Rightarrow>
               if hash = [] then done_with (err 400 ''InvalidRequest'')
               else if \<not> ae_compare env currentPassword hash then done_with (err 400 ''InvalidPassword'')
               else if weak env newPassword then done_with (err 400 ''WeakPassword'')
               else andThen (lifted (hashPassword env salt newPassword)) (\<lambda>newHash.
                    andThen (change (on_user (a_userId a) (set_password newHash))) (\<lambda>_.
                    andThen (change (\<lambda>s. s\<lparr>t_sessions := filter (\<lambda>x. se_user_id x \<noteq> a_userId a) (t_sessions s)\<rparr>)) (\<lambda>_.
                    andThen (audit ''account.password.change'' (Some (a_userId a)) (Some (a_userId a))
                              [(''handle'', JStr (a_handle a))])
                      (\<lambda>_. done_with (ok [(''success'', JBool True)])))))))))
     (\<lambda>_. err 500 ''InternalServerError'')"

subsection \<open>Password reset\<close>

definition HOUR_MS :: int where "HOUR_MS = 60 * 60 * 1000"

text \<open>
  The reply is sent before the e-mail. The audit entry with the outcome of the delivery, which
  is written after that, is left out with the delivery.
\<close>

definition requestPasswordReset :: "auth_env \<Rightarrow> string \<Rightarrow> string \<Rightarrow> jv \<Rightarrow> endpoint" where
  "requestPasswordReset env token tokenId body = trying
     (let identifier = jget body ''identifier''
      in if \<not> truthy identifier then done_with (ok [(''success'', JBool True)])
         else
           andThen (lifted (login_identifier identifier)) (\<lambda>normalized.
           andThen (fetch (find_login normalized)) (\<lambda>row. case row of
             None \<Rightarrow> done_with (ok [(''success'', JBool True)])
           | Some user \<Rightarrow>
             if ac_auth_type user \<noteq> ''local'' then done_with (ok [(''success'', JBool True)])
             else
               andThen (reading t_now) (\<lambda>now.
               andThen (change (\<lambda>s. s\<lparr>t_resets := map (\<lambda>r.
                   if rt_user_id r = ac_id user \<and> rt_used_at r = None then r\<lparr>rt_used_at := Some (t_now s)\<rparr> else r)
                   (t_resets s)\<rparr>)) (\<lambda>_.
               andThen (lifted (timestamp (now + HOUR_MS))) (\<lambda>expires.
               andThen (change (\<lambda>s. s\<lparr>t_resets := t_resets s @ [\<lparr>rt_id = tokenId, rt_user_id = ac_id user,
                   rt_token_hash = ae_sha256 env token, rt_expires_at = expires, rt_used_at = None\<rparr>]\<rparr>))
                 (\<lambda>_. done_with (ok [(''success'', JBool True)]))))))))
     (\<lambda>_. ok [(''success'', JBool True)])"

definition confirmPasswordReset :: "auth_env \<Rightarrow> string \<Rightarrow> jv \<Rightarrow> endpoint" where
  "confirmPasswordReset env salt body = trying
     (let token = jget body ''token''; newPassword = jget body ''newPassword''
      in if \<not> truthy token \<or> \<not> truthy newPassword then done_with (err 400 ''InvalidRequest'')
         else
           andThen (lifted (hashToken env token)) (\<lambda>tokenHash.
           andThen (fetch (\<lambda>s. find (\<lambda>r. rt_token_hash r = tokenHash \<and> rt_used_at r = None \<and> rt_expires_at r > t_now s)
                     (t_resets s))) (\<lambda>row. case row of
             None \<Rightarrow> done_with (err 400 ''InvalidToken'')
           | Some resetToken \<Rightarrow>
             if weak env newPassword then done_with (err 400 ''WeakPassword'')
             else
               andThen (lifted (hashPassword env salt newPassword)) (\<lambda>newHash.
               andThen (change (on_user (rt_user_id resetToken) (set_password newHash))) (\<lambda>_.
               andThen (change (\<lambda>s. s\<lparr>t_resets := map (\<lambda>r. if rt_id r = rt_id resetToken
                   then r\<lparr>rt_used_at := Some (t_now s)\<rparr> else r) (t_resets s)\<rparr>)) (\<lambda>_.
               andThen (revoke_returning (\<lambda>x. se_user_id x = rt_user_id resetToken)) (\<lambda>revoked.
               andThen (change (on_user (rt_user_id resetToken) reset_failures)) (\<lambda>_.
               andThen (fetch (\<lambda>s. find (\<lambda>u. ac_id u = rt_user_id resetToken) (t_users s))) (\<lambda>user.
               andThen (if user = None then done_with ()
                        else audit ''account.password.reset.confirm'' None (Some (rt_user_id resetToken))
                               [(''sessionsRevoked'', jnat revoked)])
                 (\<lambda>_. done_with (ok [(''success'', JBool True)])))))))))))
     (\<lambda>_. err 500 ''InternalServerError'')"

subsection \<open>Recovery\<close>

definition recovery_reply :: reply where
  "recovery_reply = ok [(''success'', JBool True),
     (''message'', JStr ''If the account exists, a recovery email has been sent.'')]"

definition initiateRecovery :: "auth_env \<Rightarrow> string \<Rightarrow> string \<Rightarrow> jv \<Rightarrow> jv \<Rightarrow> endpoint" where
  "initiateRecovery env token attemptId body ip = trying
     (let handle = jget body ''handle''; email = jget body ''email''
      in if \<not> truthy handle \<or> \<not> truthy email then done_with (err 400 ''InvalidRequest'')
         else
           andThen (lifted (normalizeHandle handle)) (\<lambda>normalizedHandle.
           andThen (lifted (normalizeEmail email)) (\<lambda>normalizedEmail.
           andThen (fetch (\<lambda>s. find (\<lambda>u. ac_handle u = normalizedHandle \<and> ac_email u = Some normalizedEmail \<and>
                ac_auth_type u = ''local'') (t_users s))) (\<lambda>row. case row of
             None \<Rightarrow> done_with recovery_reply
           | Some user \<Rightarrow>
             andThen (fetch (\<lambda>s. \<exists>r \<in> set (t_recoveries s). ra_user_did r = ac_did user \<and>
                 ra_status r = ''pending'' \<and> ra_expires_at r > t_now s)) (\<lambda>active.
             if active then done_with recovery_reply
             else
               (let tier = (case ac_recovery_tier user of None \<Rightarrow> 1 | Some n \<Rightarrow> n)
                in andThen (reading t_now) (\<lambda>now.
                   andThen (lifted (timestamp (now + HOUR_MS))) (\<lambda>expires.
                   andThen (change (\<lambda>s. s\<lparr>t_recoveries := t_recoveries s @ [\<lparr>ra_id = attemptId,
                       ra_user_did = ac_did user, ra_tier = tier, ra_status = ''pending'',
                       ra_token_hash = ae_sha256 env token, ra_expires_at = expires, ra_completed_at = None,
                       ra_initiated_by = normalizedEmail\<rparr>]\<rparr>)) (\<lambda>_.
                   andThen (audit ''account.recovery.initiate'' None (Some (ac_id user))
                              [(''tier'', jint tier), (''ip'', ip)])
                     (\<lambda>_. done_with recovery_reply))))))))))
     (\<lambda>_. recovery_reply)"

text \<open>
  The transaction of \<open>completeRecovery\<close>: the rows it reads stay locked until it commits, so it
  is one step. It gives the user, the tier and the number of sessions revoked.
\<close>

definition recovery_transaction ::
  "string \<Rightarrow> string \<Rightarrow> accounts \<Rightarrow> (account \<times> int \<times> nat) option \<times> accounts" where
  "recovery_transaction tokenHash newHash s =
     (case find (\<lambda>r. ra_token_hash r = tokenHash \<and> ra_status r = ''pending'' \<and> ra_expires_at r > t_now s)
        (t_recoveries s) of
        None \<Rightarrow> (None, s)
      | Some row \<Rightarrow>
        (case find (\<lambda>u. ac_did u = ra_user_did row) (t_users s) of
           None \<Rightarrow> (None, s)
         | Some user \<Rightarrow>
           (let s1 = on_user (ac_id user) (\<lambda>u. set_password newHash (reset_failures u)) s;
                s2 = s1\<lparr>t_recoveries := map (\<lambda>r. if ra_id r = ra_id row
                       then r\<lparr>ra_status := ''completed'', ra_completed_at := Some (t_now s1)\<rparr> else r) (t_recoveries s1)\<rparr>;
                mine = (\<lambda>x. se_user_id x = ac_id user)
            in (Some (user, ra_tier row,
                  length (filter (\<lambda>x. mine x \<and> se_revoked_at x = None) (t_sessions s2))),
                revoke_sessions mine s2))))"

definition completeRecovery :: "auth_env \<Rightarrow> string \<Rightarrow> jv \<Rightarrow> endpoint" where
  "completeRecovery env salt body = trying
     (let token = jget body ''token''; newPassword = jget body ''newPassword''
      in if \<not> truthy token \<or> \<not> truthy newPassword then done_with (err 400 ''InvalidRequest'')
         else
           andThen (lifted (hashToken env token)) (\<lambda>tokenHash.
           if weak env newPassword then done_with (err 400 ''WeakPassword'')
           else
             andThen (lifted (hashPassword env salt newPassword)) (\<lambda>newHash.
             andThen (sql (\<lambda>s. Inr (recovery_transaction tokenHash newHash s))) (\<lambda>completed. case completed of
               None \<Rightarrow> done_with (err 400 ''InvalidToken'')
             | Some (user, tier, revoked) \<Rightarrow>
               andThen (audit ''account.recovery.complete'' None (Some (ac_id user))
                          [(''tier'', jint tier), (''sessionsRevoked'', jnat revoked)])
                 (\<lambda>_. done_with (ok [(''success'', JBool True)]))))))
     (\<lambda>_. err 500 ''InternalServerError'')"

subsection \<open>E-mail verification\<close>

definition issueEmailVerification :: "auth_env \<Rightarrow> string \<Rightarrow> string \<Rightarrow> string \<Rightarrow> string \<Rightarrow> unit op" where
  "issueEmailVerification env token tokenId userId email =
     andThen (reading t_now) (\<lambda>now.
     andThen (change (\<lambda>s. s\<lparr>t_verifications := filter (\<lambda>v. \<not> (ev_user_id v = userId \<and> ev_used_at v = None))
        (t_verifications s)\<rparr>)) (\<lambda>_.
     andThen (lifted (timestamp (now + 24 * HOUR_MS))) (\<lambda>expires.
     change (\<lambda>s. s\<lparr>t_verifications := t_verifications s @ [\<lparr>ev_id = tokenId, ev_user_id = userId,
        ev_email = js_lower email, ev_token_hash = ae_sha256 env token, ev_expires_at = expires,
        ev_used_at = None\<rparr>]\<rparr>))))"

definition confirmEmailToken :: "auth_env \<Rightarrow> string \<Rightarrow> string \<Rightarrow> (string + string) op" where
  "confirmEmailToken env email token =
     (let tokenHash = ae_sha256 env token; normalized = js_trim (js_lower email)
      in andThen (fetch (\<lambda>s. map_option (\<lambda>v. (v, ev_expires_at v < t_now s))
             (find (\<lambda>v. ev_token_hash v = tokenHash \<and> ev_used_at v = None) (t_verifications s)))) (\<lambda>row. case row of
           None \<Rightarrow> done_with (Inl ''InvalidToken'')
         | Some (v, expired) \<Rightarrow>
           if expired then done_with (Inl ''ExpiredToken'')
           else
             andThen (change (\<lambda>s. s\<lparr>t_verifications := map (\<lambda>w. if ev_id w = ev_id v
                 then w\<lparr>ev_used_at := Some (t_now s)\<rparr> else w) (t_verifications s)\<rparr>)) (\<lambda>_.
             if ev_email v \<noteq> normalized then done_with (Inl ''InvalidEmail'')
             else
               (let hit = (\<lambda>u. ac_id u = ev_user_id v \<and> map_option js_lower (ac_email u) = Some normalized)
                in andThen (sql (\<lambda>s. Inr (\<exists>u \<in> set (t_users s). hit u,
                     s\<lparr>t_users := map (\<lambda>u. if hit u
                        then u\<lparr>ac_email_verified_at := coalesce (ac_email_verified_at u) (Some (t_now s))\<rparr> else u)
                        (t_users s)\<rparr>))) (\<lambda>updated.
                   if \<not> updated then done_with (Inl ''InvalidEmail'')
                   else andThen (audit ''account.email.verified'' None (Some (ev_user_id v)) [(''email'', JStr normalized)])
                          (\<lambda>_. done_with (Inr (ev_user_id v))))))))"

text \<open>\<open>service\<close>: the caller is another server, whose claims say nothing of a mailbox.\<close>

definition own_email_problem :: "request \<Rightarrow> bool \<Rightarrow> string \<Rightarrow> reply option op" where
  "own_email_problem req service email =
     (case q_auth req of
        None \<Rightarrow> done_with None
      | Some a \<Rightarrow>
        if service then done_with None
        else andThen (fetch (\<lambda>s. map_option ac_email (find (\<lambda>u. ac_id u = a_userId a) (t_users s)))) (\<lambda>own.
          done_with (case own of
             None \<Rightarrow> None
           | Some None \<Rightarrow> Some (err 400 ''NoEmail'')
           | Some (Some e) \<Rightarrow>
             if e = [] then Some (err 400 ''NoEmail'')
             else if js_lower e \<noteq> js_trim (js_lower email) then Some (err 400 ''InvalidEmail'') else None)))"

definition confirmEmail :: "auth_env \<Rightarrow> request \<Rightarrow> bool \<Rightarrow> endpoint" where
  "confirmEmail env req service = trying
     (case (jget (q_body req) ''email'', jget (q_body req) ''token'') of
        (JStr email, JStr token) \<Rightarrow>
          if email = [] \<or> token = [] then done_with (err 400 ''InvalidRequest'')
          else andThen (own_email_problem req service email) (\<lambda>problem. case problem of
              Some r \<Rightarrow> done_with r
            | None \<Rightarrow> andThen (confirmEmailToken env email token) (\<lambda>result. case result of
                Inl code \<Rightarrow> done_with (err 400 code)
              | Inr _ \<Rightarrow> done_with (ok [(''verified'', JBool True)])))
      | _ \<Rightarrow> done_with (err 400 ''InvalidRequest''))
     (\<lambda>_. err 500 ''InternalServerError'')"

end
