(* ===== verification/AccountStatus.thy ===== *)
theory AccountStatus
  imports Credentials
begin

text \<open>
  What changes an account other than its credentials: registration and invites
  (\<^verbatim>\<open>src/auth/account-creation.ts\<close>, \<^verbatim>\<open>src/auth/invites.ts\<close>,
  \<^verbatim>\<open>src/api/net.openfederation.account.register.ts\<close>, \<^verbatim>\<open>invite.create\<close>), approval and
  rejection, deactivation and activation by the user, suspension and takedown, the roles, and
  deletion by an administrator.

  A transaction whose rows are locked is one step. The identity of a new account comes from the
  PLC directory and its repository is created afterwards: both are outside these tables.
\<close>

subsection \<open>Invites\<close>

text \<open>\<open>boundTo.toLowerCase().trim()\<close> of the two addresses.\<close>

definition folded :: "string \<Rightarrow> string" where
  "folded s = js_trim (js_lower s)"

definition claimed_row :: "string option \<Rightarrow> int \<Rightarrow> int \<Rightarrow> invite \<Rightarrow> invite" where
  "claimed_row userId max_uses now i =
     i\<lparr>in_uses_count := in_uses_count i + 1,
       in_used_by := (if max_uses = 1 \<and> userId \<notin> {None, Some []}
                      then coalesce userId (in_used_by i) else in_used_by i),
       in_used_at := Some now\<rparr>"

definition claimInvite ::
  "string \<Rightarrow> string option \<Rightarrow> string option \<Rightarrow> (accounts, exn, unit) prog" where
  "claimInvite code email userId s =
     (case find (\<lambda>i. in_code i = code) (t_invites s) of
        None \<Rightarrow> (Inl (HttpError 403 ''InviteInvalid'' ''Invite code is invalid''), s)
      | Some row \<Rightarrow>
        if (case in_expires_at row of None \<Rightarrow> False | Some t \<Rightarrow> t \<le> t_now s)
        then (Inl (HttpError 403 ''InviteExpired'' ''Invite code has expired''), s)
        else if in_uses_count row \<ge> in_max_uses row
        then (Inl (HttpError 403 ''InviteUsed'' ''Invite code has already been used''), s)
        else if (case in_bound_to row of None \<Rightarrow> False
                 | Some b \<Rightarrow> b \<noteq> [] \<and> folded b \<noteq> folded (case email of None \<Rightarrow> [] | Some e \<Rightarrow> e))
        then (Inl (HttpError 403 ''InviteBound'' ''This invite code is bound to a specific email address.''), s)
        else (Inr (), s\<lparr>t_invites := map (\<lambda>i. if in_code i = in_code row
               then claimed_row userId (in_max_uses row) (t_now s) i else i) (t_invites s)\<rparr>))"

definition insert_invite :: "invite \<Rightarrow> accounts \<Rightarrow> exn + unit \<times> accounts" where
  "insert_invite i s = (if in_code i \<in> in_code ` set (t_invites s)
     then Inl (Failure ''duplicate key value violates unique constraint'')
     else Inr ((), s\<lparr>t_invites := t_invites s @ [i]\<rparr>))"

definition createInvite :: "auth_env \<Rightarrow> (jv \<Rightarrow> int option) \<Rightarrow> string \<Rightarrow> request \<Rightarrow> endpoint" where
  "createInvite env parseDate code req = trying
     (case requireRole req [''admin'', ''moderator''] of
        Inl r \<Rightarrow> done_with r
      | Inr a \<Rightarrow>
        (let body = q_body req; maxUses = js_nullish (jget body ''maxUses'') (jint 1);
             boundTo = jget body ''boundTo''; note = jget body ''note''
         in if \<not> is_integer maxUses \<or> num_lt (to_number maxUses) (Fin 1) then done_with (err 400 ''InvalidRequest'')
            else
              andThen (lifted (if truthy (jget body ''expiresAt'')
                    then (case parseDate (jget body ''expiresAt'') of
                            None \<Rightarrow> Inr (Inl (err 400 ''InvalidRequest''))
                          | Some t \<Rightarrow> (case timestamp t of Inl e \<Rightarrow> Inl e | Inr u \<Rightarrow> Inr (Inr (Some u))))
                    else Inr (Inr None))) (\<lambda>expires. case expires of
                Inl r \<Rightarrow> done_with r
              | Inr expiresAt \<Rightarrow>
                (let optional = (\<lambda>v. if truthy v then Some (text_of env v) else None);
                     uses = (case to_number maxUses of Fin q \<Rightarrow> \<lfloor>q\<rfloor> | _ \<Rightarrow> 1)
                 in andThen (sql (insert_invite \<lparr>in_code = code,
                        in_created_by = Some (a_userId a), in_used_by = None, in_used_at = None,
                        in_expires_at = expiresAt, in_max_uses = uses, in_uses_count = 0,
                        in_bound_to = optional boundTo, in_note = optional note\<rparr>)) (\<lambda>_.
                    andThen (audit ''invite.create'' (Some (a_userId a)) None
                        [(''maxUses'', maxUses),
                         (''expiresAt'', case expiresAt of None \<Rightarrow> JNull | Some t \<Rightarrow> JStr (iso t)),
                         (''boundTo'', js_or boundTo JNull), (''note'', js_or note JNull)])
                      (\<lambda>_. done_with (Reply 201 (JObj
                         ([(''code'', JStr code), (''maxUses'', maxUses),
                           (''expiresAt'', case expiresAt of None \<Rightarrow> JNull | Some t \<Rightarrow> JStr (iso t))]
                          @ (if truthy boundTo then [(''boundTo'', boundTo)] else [])
                          @ (if truthy note then [(''note'', note)] else []))))))))))
     (\<lambda>_. err 500 ''InternalServerError'')"

subsection \<open>Registration\<close>

definition normalizeAndValidateCredentials :: "auth_env \<Rightarrow> jv \<Rightarrow> exn + (string \<times> string \<times> jv)" where
  "normalizeAndValidateCredentials env input =
     (let bad = Inl (HttpError 400 ''InvalidRequest'' ''handle, email, and password are required'');
          password = jget input ''password''
      in if \<not> truthy (jget input ''handle'') \<or> \<not> truthy (jget input ''email'') \<or> \<not> truthy password then bad
         else (case normalizeHandle (jget input ''handle'') of
             Inl e \<Rightarrow> Inl e
           | Inr handle \<Rightarrow> (case normalizeEmail (jget input ''email'') of
               Inl e \<Rightarrow> Inl e
             | Inr email \<Rightarrow>
               if \<not> isValidHandle handle then Inl (HttpError 400 ''InvalidRequest'' ''Handle must be 3-30 characters'')
               else if \<not> isValidEmail email then Inl (HttpError 400 ''InvalidRequest'' ''Email is invalid'')
               else if weak env password then Inl (HttpError 400 ''InvalidRequest'' ''Password must be 10-128 characters'')
               else Inr (handle, email, password))))"

definition ensureHandleEmailAvailable :: "string \<Rightarrow> string \<Rightarrow> (accounts, exn, unit) prog" where
  "ensureHandleEmailAvailable handle email s =
     (if \<exists>u \<in> set (t_users s). ac_handle u = handle \<or> ac_email u = Some email
      then (Inl (HttpError 409 ''AccountExists'' ''Handle or email is already in use''), s)
      else (Inr (), s))"

definition new_account ::
  "string \<Rightarrow> string \<Rightarrow> string option \<Rightarrow> string option \<Rightarrow> string \<Rightarrow> string \<Rightarrow> string \<Rightarrow> int option \<Rightarrow> bool \<Rightarrow> account" where
  "new_account userId handle email passwordHash did status authType approved migratingIn =
     \<lparr>ac_id = userId, ac_handle = handle, ac_email = email, ac_email_verified_at = None,
      ac_password_hash = passwordHash, ac_status = status, ac_did = did, ac_auth_type = authType,
      ac_approved_at = approved, ac_approved_by = None, ac_status_changed_at = None,
      ac_status_changed_by = None, ac_status_reason = JNull, ac_exported_at = None,
      ac_failed_login_attempts = 0, ac_locked_until = None, ac_recovery_tier = Some 1,
      ac_token_version = 0, ac_migrating_in = migratingIn\<rparr>"

text \<open>The columns of \<open>users\<close> that are \<open>UNIQUE\<close>.\<close>

definition account_conflict :: "accounts \<Rightarrow> account \<Rightarrow> bool" where
  "account_conflict s v \<longleftrightarrow> (\<exists>u \<in> set (t_users s). ac_id u = ac_id v \<or> ac_handle u = ac_handle v \<or>
     ac_did u = ac_did v \<or> ac_email u = ac_email v \<and> ac_email v \<noteq> None)"

definition insertUserWithRole :: "account \<Rightarrow> (accounts, exn, unit) prog" where
  "insertUserWithRole v s =
     (if account_conflict s v then (Inl (Failure ''duplicate key value violates unique constraint''), s)
      else (Inr (), s\<lparr>t_users := t_users s @ [v\<lparr>ac_approved_at :=
               (if ac_status v = ''approved'' then Some (t_now s) else None)\<rparr>],
             t_roles := t_roles s @ [(ac_id v, ''user'')]\<rparr>))"

text \<open>\<open>withTransaction\<close>: nothing is kept of a transaction that throws.\<close>

definition withTransaction :: "(accounts, exn, 'a) prog \<Rightarrow> 'a op" where
  "withTransaction body = sql (\<lambda>s. case body s of (Inl e, _) \<Rightarrow> Inl e | (Inr x, s') \<Rightarrow> Inr (x, s'))"

text \<open>
  \<open>registerAccount\<close>: \<open>identity\<close> is what \<open>createUserIdentity\<close> gives, the DID or an error; the
  verification e-mail, sent after the reply, is left out.
\<close>

definition register_transaction ::
  "auth_env \<Rightarrow> jv \<Rightarrow> account \<Rightarrow> (accounts, exn, unit) prog" where
  "register_transaction env input v =
     seqM (ensureHandleEmailAvailable (ac_handle v) (case ac_email v of None \<Rightarrow> [] | Some e \<Rightarrow> e))
       (seqM (insertUserWithRole v)
         (if ae_inviteRequired env
          then claimInvite (text_of env (jget input ''inviteCode'')) (Some (text_of env (jget input ''email'')))
                 (Some (ac_id v))
          else ret ()))"

definition registration_error :: "exn \<Rightarrow> reply" where
  "registration_error e = (case e of HttpError status code _ \<Rightarrow> err status code | _ \<Rightarrow> err 500 ''InternalServerError'')"

definition registerAccount :: "auth_env \<Rightarrow> string \<Rightarrow> string \<Rightarrow> (string \<Rightarrow> exn + string) \<Rightarrow> jv \<Rightarrow> endpoint" where
  "registerAccount env salt userId identity input = trying
     (andThen (lifted (normalizeAndValidateCredentials env input)) (\<lambda>(handle, email, password).
        if ae_inviteRequired env \<and> \<not> truthy (jget input ''inviteCode'')
        then done_with (err 403 ''InviteRequired'')
        else (case (identity handle, hashPassword env salt password) of
            (Inr did, Inr passwordHash) \<Rightarrow>
              andThen (withTransaction (register_transaction env input
                  (new_account userId handle (Some email) (Some passwordHash) did ''pending'' ''local'' None False)))
                (\<lambda>_. done_with (Reply 201 (JObj
                   [(''id'', JStr userId), (''handle'', JStr handle), (''did'', JStr did),
                    (''email'', JStr email), (''status'', JStr ''pending'')])))
          | _ \<Rightarrow> done_with (err 500 ''IdentityCreationFailed''))))
     registration_error"

subsection \<open>Approval\<close>

text \<open>
  \<open>approveAccount\<close> and \<open>rejectAccount\<close>: every pending account that matches one of the
  criteria given.
\<close>

definition account_criteria :: "jv \<Rightarrow> exn + (account \<Rightarrow> bool) option" where
  "account_criteria body =
     (case (case jget body ''userId'' of
              JUndef \<Rightarrow> Inr [] | JNull \<Rightarrow> Inr [] | JStr s \<Rightarrow> Inr (js_trim s)
            | _ \<Rightarrow> Inl (TypeError ''trim is not a function'')) of
        Inl e \<Rightarrow> Inl e
      | Inr userId \<Rightarrow>
        (case (if truthy (jget body ''handle'') then normalizeHandle (jget body ''handle'') else Inr []) of
           Inl e \<Rightarrow> Inl e
         | Inr handle \<Rightarrow>
           (case (if truthy (jget body ''email'') then normalizeEmail (jget body ''email'') else Inr []) of
              Inl e \<Rightarrow> Inl e
            | Inr email \<Rightarrow>
              Inr (if userId = [] \<and> handle = [] \<and> email = [] then None
                   else Some (\<lambda>u. userId \<noteq> [] \<and> ac_id u = userId \<or> handle \<noteq> [] \<and> ac_handle u = handle \<or>
                                  email \<noteq> [] \<and> ac_email u = Some email)))))"

text \<open>\<open>UPDATE ... WHERE (criteria) AND status = 'pending' RETURNING ...\<close>.\<close>

definition decide_pending :: "(account \<Rightarrow> bool) \<Rightarrow> (int \<Rightarrow> account \<Rightarrow> account) \<Rightarrow> account list op" where
  "decide_pending P f = sql (\<lambda>s.
     let hit = (\<lambda>u. P u \<and> ac_status u = ''pending'')
     in Inr (map (f (t_now s)) (filter hit (t_users s)),
             s\<lparr>t_users := map (\<lambda>u. if hit u then f (t_now s) u else u) (t_users s)\<rparr>))"

definition decide_account :: "string \<Rightarrow> (auth \<Rightarrow> int \<Rightarrow> account \<Rightarrow> account) \<Rightarrow> request \<Rightarrow> endpoint" where
  "decide_account action f req = trying
     (case requireRole req [''admin'', ''moderator''] of
        Inl r \<Rightarrow> done_with r
      | Inr a \<Rightarrow>
        andThen (lifted (account_criteria (q_body req))) (\<lambda>criteria. case criteria of
          None \<Rightarrow> done_with (err 400 ''InvalidRequest'')
        | Some P \<Rightarrow>
          andThen (decide_pending P (f a)) (\<lambda>rows. case rows of
            [] \<Rightarrow> done_with (err 404 ''NotFound'')
          | u # _ \<Rightarrow>
            andThen (audit action (Some (a_userId a)) (Some (ac_id u)) [(''handle'', JStr (ac_handle u))])
              (\<lambda>_. done_with (ok [(''id'', JStr (ac_id u)), (''handle'', JStr (ac_handle u)),
                 (''email'', str_or_null (ac_email u)), (''status'', JStr (ac_status u))])))))
     (\<lambda>_. err 500 ''InternalServerError'')"

definition approveAccount :: "request \<Rightarrow> endpoint" where
  "approveAccount = decide_account ''account.approve''
     (\<lambda>a now u. u\<lparr>ac_status := ''approved'', ac_approved_at := Some now, ac_approved_by := Some (a_userId a)\<rparr>)"

definition rejectAccount :: "request \<Rightarrow> endpoint" where
  "rejectAccount = decide_account ''account.reject'' (\<lambda>a now u. u\<lparr>ac_status := ''rejected''\<rparr>)"

subsection \<open>Deactivation and activation\<close>

definition find_user :: "string \<Rightarrow> accounts \<Rightarrow> account option" where
  "find_user userId s = find (\<lambda>u. ac_id u = userId) (t_users s)"

text \<open>\<open>UPDATE users SET status = ..., token_version = token_version + 1 ...\<close>\<close>

definition set_account_status :: "string \<Rightarrow> int option \<Rightarrow> string option \<Rightarrow> jv \<Rightarrow> account \<Rightarrow> account" where
  "set_account_status status changed_at changed_by reason u =
     u\<lparr>ac_status := status, ac_token_version := ac_token_version u + 1, ac_status_changed_at := changed_at,
       ac_status_changed_by := changed_by, ac_status_reason := reason\<rparr>"

definition deactivateAccount :: "request \<Rightarrow> endpoint" where
  "deactivateAccount req = trying
     (case requireAuth req of
        Inl r \<Rightarrow> done_with r
      | Inr a \<Rightarrow>
        andThen (fetch (find_user (a_userId a))) (\<lambda>row. case row of
          None \<Rightarrow> done_with (err 404 ''NotFound'')
        | Some user \<Rightarrow>
          if ac_status user = ''deactivated'' then done_with (err 400 ''AlreadyDeactivated'')
          else if ac_status user \<noteq> ''approved'' then done_with (err 400 ''InvalidStatus'')
          else
            (let stamped = (ac_auth_type user \<noteq> ''pseudonym'')
             in andThen (change (\<lambda>s. on_user (a_userId a) (set_account_status ''deactivated''
                    (if stamped then Some (t_now s) else None) (if stamped then Some (a_userId a) else None)
                    (JStr ''User-initiated deactivation'')) s)) (\<lambda>_.
                andThen (change (revoke_sessions (\<lambda>x. se_user_id x = a_userId a))) (\<lambda>_.
                andThen (audit ''account.deactivate'' (Some (a_userId a)) (Some (a_userId a))
                           [(''did'', JStr (a_did a))])
                  (\<lambda>_. done_with (ok [(''success'', JBool True)])))))))
     (\<lambda>_. err 500 ''InternalServerError'')"

text \<open>
  The PLC directory answers with nothing (it could not be reached), with no document, or with
  the service endpoint and the signing key of a document (\<open>pointsHere\<close>). The key held here and
  the address of this server are the other two parameters.
\<close>

definition pointsHere :: "(string option \<times> string option) \<Rightarrow> string \<Rightarrow> string \<Rightarrow> bool" where
  "pointsHere state serviceUrl signingKey \<longleftrightarrow> fst state = Some serviceUrl \<and> snd state = Some signingKey"

definition activateAccount ::
  "(string \<Rightarrow> (string option \<times> string option) option option) \<Rightarrow> (string \<Rightarrow> exn + string) \<Rightarrow> string \<Rightarrow> request \<Rightarrow> endpoint"
where
  "activateAccount plc signingKey serviceUrl req = trying
     (case requireAuth req of
        Inl r \<Rightarrow> done_with r
      | Inr a \<Rightarrow>
        andThen (fetch (find_user (a_userId a))) (\<lambda>row. case row of
          None \<Rightarrow> done_with (err 404 ''NotFound'')
        | Some user \<Rightarrow>
          if ac_status user \<noteq> ''deactivated'' then
            done_with (if ac_status user = ''suspended'' then err 403 ''AccountSuspended''
                       else if ac_status user = ''takendown'' then err 410 ''AccountTakenDown''
                       else err 400 ''InvalidStatus'')
          else (case plc (a_did a) of
              None \<Rightarrow> done_with (err 502 ''UpstreamFailure'')
            | Some state \<Rightarrow>
              andThen (lifted (case state of
                  None \<Rightarrow> Inr True
                | Some st \<Rightarrow> (case signingKey (a_did a) of
                    Inl e \<Rightarrow> Inl e | Inr key \<Rightarrow> Inr (pointsHere st serviceUrl key)))) (\<lambda>here.
              if \<not> here then done_with (err 400 ''IncompatibleDidDoc'')
              else
                (let stamped = (ac_auth_type user \<noteq> ''pseudonym'')
                 in andThen (change (\<lambda>s. on_user (a_userId a) (\<lambda>u.
                        (set_account_status ''approved'' (if stamped then Some (t_now s) else None)
                           (if stamped then Some (a_userId a) else None) JNull u)
                          \<lparr>ac_migrating_in := False,
                           ac_approved_at := coalesce (ac_approved_at u) (Some (t_now s))\<rparr>) s)) (\<lambda>_.
                    andThen (audit ''account.activate'' (Some (a_userId a)) (Some (a_userId a))
                        [(''did'', JStr (a_did a)), (''migrated'', JBool (ac_migrating_in user))])
                      (\<lambda>_. done_with (ok [(''success'', JBool True)]))))))))
     (\<lambda>_. err 500 ''InternalServerError'')"

subsection \<open>Roles\<close>

definition VALID_ROLES :: "string list" where
  "VALID_ROLES = [''admin'', ''moderator'', ''partner-manager'', ''auditor'', ''user'']"

definition add_role :: "string \<Rightarrow> string \<Rightarrow> accounts \<Rightarrow> accounts" where
  "add_role userId role s = (if (userId, role) \<in> set (t_roles s) then s
     else s\<lparr>t_roles := t_roles s @ [(userId, role)]\<rparr>)"

definition remove_role :: "string \<Rightarrow> string \<Rightarrow> accounts \<Rightarrow> accounts" where
  "remove_role userId role s = s\<lparr>t_roles := filter (\<lambda>r. r \<noteq> (userId, role)) (t_roles s)\<rparr>"

definition other_admins :: "string \<Rightarrow> accounts \<Rightarrow> nat" where
  "other_admins userId s = length (filter (\<lambda>r. snd r = ''admin'' \<and> fst r \<noteq> userId) (t_roles s))"

text \<open>From the account found to the reply; \<open>sort_strings\<close> is \<open>ORDER BY role\<close>.\<close>

definition update_roles_of :: "auth \<Rightarrow> string list \<Rightarrow> string list \<Rightarrow> account \<Rightarrow> reply op" where
  "update_roles_of a toAdd toRemove user =
     (if ''admin'' \<in> set toRemove \<and> ac_id user = a_userId a then done_with (err 400 ''InvalidRequest'')
      else
        andThen (if ''admin'' \<in> set toRemove then fetch (other_admins (ac_id user)) else done_with 1) (\<lambda>others.
        if others = 0 then done_with (err 400 ''InvalidRequest'')
        else
          andThen (each (\<lambda>r. change (add_role (ac_id user) r)) toAdd) (\<lambda>_.
          andThen (each (\<lambda>r. change (remove_role (ac_id user) r)) toRemove) (\<lambda>_.
          andThen (if toAdd \<noteq> [] \<or> toRemove \<noteq> [] then change (on_user (ac_id user) bump_version)
                   else done_with ()) (\<lambda>_.
          andThen (fetch (\<lambda>s. sort (user_roles s (ac_id user)))) (\<lambda>currentRoles.
          andThen (audit ''account.roles.update'' (Some (a_userId a)) (Some (ac_id user))
              [(''did'', JStr (ac_did user)), (''handle'', JStr (ac_handle user)),
               (''added'', if toAdd = [] then JUndef else JArr (map JStr toAdd)),
               (''removed'', if toRemove = [] then JUndef else JArr (map JStr toRemove)),
               (''currentRoles'', JArr (map JStr currentRoles))]) (\<lambda>_.
          done_with (ok [(''did'', JStr (ac_did user)), (''handle'', JStr (ac_handle user)),
            (''roles'', JArr (map JStr currentRoles))]))))))))"

definition updateRoles :: "request \<Rightarrow> endpoint" where
  "updateRoles req = trying
     (case requireRole req [''admin''] of
        Inl r \<Rightarrow> done_with r
      | Inr a \<Rightarrow>
        (let did = jget (q_body req) ''did'';
             toAdd = arr_or_nil (jget (q_body req) ''addRoles''); toRemove = arr_or_nil (jget (q_body req) ''removeRoles'')
         in if \<not> truthy did then done_with (err 400 ''InvalidRequest'')
            else if toAdd = [] \<and> toRemove = [] then done_with (err 400 ''InvalidRequest'')
            else if list_ex (\<lambda>r. r \<notin> JStr ` set VALID_ROLES) (toAdd @ toRemove)
            then done_with (err 400 ''InvalidRequest'')
            else andThen (fetch (\<lambda>s. find (\<lambda>u. JStr (ac_did u) = did) (t_users s))) (\<lambda>row. case row of
                None \<Rightarrow> done_with (err 404 ''NotFound'')
              | Some user \<Rightarrow> update_roles_of a (strings_of toAdd) (strings_of toRemove) user)))
     (\<lambda>_. err 500 ''InternalServerError'')"

subsection \<open>Suspension and takedown\<close>

text \<open>
  The two parts of \<open>updateSubjectStatus\<close>. Both decide by the row read at the start: \<open>Some r\<close>
  ends the request with the reply \<open>r\<close>.
\<close>

definition moderate ::
  "auth \<Rightarrow> account \<Rightarrow> string \<Rightarrow> jv \<Rightarrow> string \<Rightarrow> (string \<times> jv) list \<Rightarrow> bool \<Rightarrow> reply option op" where
  "moderate a user status reason action meta revoke =
     andThen (change (\<lambda>s. on_user (ac_id user)
         (set_account_status status (Some (t_now s)) (Some (a_userId a)) reason) s)) (\<lambda>_.
     andThen (if revoke then change (revoke_sessions (\<lambda>x. se_user_id x = ac_id user)) else done_with ()) (\<lambda>_.
     andThen (audit action (Some (a_userId a)) (Some (ac_id user)) meta) (\<lambda>_. done_with None)))"

definition apply_takedown :: "auth \<Rightarrow> account \<Rightarrow> jv \<Rightarrow> reply option op" where
  "apply_takedown a user takedown =
     andThen (lifted (jdot takedown ''applied'')) (\<lambda>applied.
       let did = (''did'', JStr (ac_did user)); reason = js_or (jget takedown ''ref'') JNull
       in if truthy applied then
            (if ac_status user = ''takendown'' then done_with (Some (err 400 ''AlreadyTakenDown''))
             else if ac_exported_at user = None then done_with (Some (err 409 ''ExportRequired''))
             else moderate a user ''takendown'' reason ''account.takedown''
                    [did, (''reason'', reason), (''previousStatus'', JStr (ac_status user))] True)
          else if ac_status user \<noteq> ''takendown'' then done_with (Some (err 400 ''NotTakenDown''))
          else moderate a user ''approved'' JNull ''account.unsuspend''
                 [did, (''previousStatus'', JStr ''takendown'')] False)"

definition apply_deactivated :: "auth \<Rightarrow> account \<Rightarrow> jv \<Rightarrow> reply option op" where
  "apply_deactivated a user deactivated =
     andThen (lifted (jdot deactivated ''applied'')) (\<lambda>applied.
       let did = (''did'', JStr (ac_did user)); reason = js_or (jget deactivated ''ref'') JNull
       in if truthy applied then
            (if ac_status user = ''suspended'' then done_with (Some (err 400 ''AlreadySuspended''))
             else if ac_status user = ''takendown'' then done_with (Some (err 400 ''AlreadyTakenDown''))
             else moderate a user ''suspended'' reason ''account.suspend''
                    [did, (''reason'', reason), (''previousStatus'', JStr (ac_status user))] True)
          else if ac_status user \<noteq> ''suspended'' then done_with (Some (err 400 ''NotSuspended''))
          else moderate a user ''approved'' JNull ''account.unsuspend''
                 [did, (''previousStatus'', JStr ''suspended'')] False)"

definition moderate_subject :: "auth \<Rightarrow> jv \<Rightarrow> jv \<Rightarrow> account \<Rightarrow> reply op" where
  "moderate_subject a takedown deactivated user =
     andThen (fetch (\<lambda>s. ''admin'' \<in> set (user_roles s (ac_id user)))) (\<lambda>isTargetAdmin.
     if isTargetAdmin then done_with (err 403 ''Forbidden'')
     else
       andThen (if takedown = JUndef then done_with None else apply_takedown a user takedown) (\<lambda>r1. case r1 of
         Some r \<Rightarrow> done_with r
       | None \<Rightarrow>
         andThen (if deactivated = JUndef then done_with None else apply_deactivated a user deactivated) (\<lambda>r2.
           case r2 of
             Some r \<Rightarrow> done_with r
           | None \<Rightarrow>
             andThen (fetch (find_user (ac_id user))) (\<lambda>updated.
             let current = (case updated of
                   None \<Rightarrow> ac_status user
                 | Some u \<Rightarrow> if ac_status u = [] then ac_status user else ac_status u)
             in done_with (ok
                [(''subject'', JObj [(''$type'', JStr ''com.atproto.admin.defs#repoRef''), (''did'', JStr (ac_did user))]),
                 (''takedown'', JObj [(''applied'', JBool (current = ''takendown''))]),
                 (''deactivated'', JObj [(''applied'', JBool (current = ''suspended'' \<or> current = ''deactivated''))])])))))"

definition updateSubjectStatus :: "request \<Rightarrow> endpoint" where
  "updateSubjectStatus req = trying
     (case requireRole req [''admin'', ''moderator''] of
        Inl r \<Rightarrow> done_with r
      | Inr a \<Rightarrow>
        (let takedown = jget (q_body req) ''takedown''; did = jget (jget (q_body req) ''subject'') ''did''
         in if takedown \<noteq> JUndef \<and> ''admin'' \<notin> set (a_roles a) then done_with (err 403 ''Forbidden'')
            else if \<not> truthy did then done_with (err 400 ''InvalidRequest'')
            else andThen (fetch (\<lambda>s. find (\<lambda>u. JStr (ac_did u) = did) (t_users s))) (\<lambda>row. case row of
                None \<Rightarrow> done_with (err 404 ''NotFound'')
              | Some user \<Rightarrow> moderate_subject a takedown (jget (q_body req) ''deactivated'') user)))
     (\<lambda>_. err 500 ''InternalServerError'')"

subsection \<open>Deletion\<close>

text \<open>\<open>deleteAccountData\<close>, of these tables: rows that refer to the user go with it.\<close>

definition delete_account_rows :: "account \<Rightarrow> accounts \<Rightarrow> accounts" where
  "delete_account_rows user s =
     s\<lparr>t_sessions := filter (\<lambda>x. se_user_id x \<noteq> ac_id user) (t_sessions s),
       t_roles := filter (\<lambda>r. fst r \<noteq> ac_id user) (t_roles s),
       t_resets := filter (\<lambda>r. rt_user_id r \<noteq> ac_id user) (t_resets s),
       t_verifications := filter (\<lambda>v. ev_user_id v \<noteq> ac_id user) (t_verifications s),
       t_users := filter (\<lambda>u. ac_id u \<noteq> ac_id user) (t_users s)\<rparr>"

definition adminDeleteAccount :: "request \<Rightarrow> endpoint" where
  "adminDeleteAccount req = trying
     (case requireRole req [''admin''] of
        Inl r \<Rightarrow> done_with r
      | Inr a \<Rightarrow>
        (let did = jget (q_body req) ''did''
         in if \<not> truthy did then done_with (err 400 ''InvalidRequest'')
            else andThen (fetch (\<lambda>s. find (\<lambda>u. JStr (ac_did u) = did) (t_users s))) (\<lambda>row. case row of
                None \<Rightarrow> done_with (err 404 ''NotFound'')
              | Some user \<Rightarrow>
                andThen (fetch (\<lambda>s. ''admin'' \<in> set (user_roles s (ac_id user)))) (\<lambda>isTargetAdmin.
                if isTargetAdmin then done_with (err 403 ''Forbidden'')
                else
                  andThen (audit ''account.delete'' (Some (a_userId a)) (Some (ac_id user))
                      [(''did'', JStr (ac_did user)), (''handle'', JStr (ac_handle user))]) (\<lambda>_.
                  andThen (change (delete_account_rows user))
                    (\<lambda>_. done_with (ok [(''success'', JBool True)])))))))
     (\<lambda>_. err 500 ''InternalServerError'')"

end
