(* ===== verification/AccountSteps.thy ===== *)
theory AccountSteps
  imports AccountStatus
begin

text \<open>
  Every request on the accounts as a constructor, and the steps they are made of: each
  statement of each request is a step of the relation \<open>account_step\<close>. What every step maintains
  holds for every way the requests of a pool may interleave.
\<close>

subsection \<open>The requests\<close>

text \<open>With each request, the random values it draws and what it asks of the outside.\<close>

datatype account_request =
    Refresh string jv "string option"
  | SignIn string string jv jv
  | SignOut jv
  | RevokeSession request
  | ChangePassword string request
  | RequestReset string string jv
  | ConfirmReset string jv
  | InitiateRecovery string string jv jv
  | CompleteRecovery string jv
  | ConfirmEmail request bool
  | Register string string "string \<Rightarrow> exn + string" jv
  | CreateInvite "jv \<Rightarrow> int option" string request
  | Approve request
  | Reject request
  | Deactivate request
  | Activate "string \<Rightarrow> (string option \<times> string option) option option" "string \<Rightarrow> exn + string" string request
  | UpdateRoles request
  | UpdateSubject request
  | DeleteAccount request

fun serve :: "auth_env \<Rightarrow> account_request \<Rightarrow> endpoint" where
  "serve env (Refresh newToken body header) = refreshSession env newToken body header"
| "serve env (SignIn token sessionId body ip) = createSession env token sessionId body ip"
| "serve env (SignOut body) = deleteSession env body"
| "serve env (RevokeSession req) = revokeSession env req"
| "serve env (ChangePassword salt req) = changePassword env salt req"
| "serve env (RequestReset token tokenId body) = requestPasswordReset env token tokenId body"
| "serve env (ConfirmReset salt body) = confirmPasswordReset env salt body"
| "serve env (InitiateRecovery token attemptId body ip) = initiateRecovery env token attemptId body ip"
| "serve env (CompleteRecovery salt body) = completeRecovery env salt body"
| "serve env (ConfirmEmail req service) = confirmEmail env req service"
| "serve env (Register salt userId identity body) = registerAccount env salt userId identity body"
| "serve env (CreateInvite parseDate code req) = createInvite env parseDate code req"
| "serve env (Approve req) = approveAccount req"
| "serve env (Reject req) = rejectAccount req"
| "serve env (Deactivate req) = deactivateAccount req"
| "serve env (Activate plc key url req) = activateAccount plc key url req"
| "serve env (UpdateRoles req) = updateRoles req"
| "serve env (UpdateSubject req) = updateSubjectStatus req"
| "serve env (DeleteAccount req) = adminDeleteAccount req"

text \<open>The refresh or recovery token a request would issue.\<close>

fun issues :: "account_request \<Rightarrow> string option" where
  "issues (Refresh newToken _ _) = Some newToken"
| "issues (SignIn token _ _ _) = Some token"
| "issues (InitiateRecovery token _ _ _) = Some token"
| "issues _ = None"

text \<open>The request presents the refresh token for rotation.\<close>

fun presents :: "string \<Rightarrow> account_request \<Rightarrow> bool" where
  "presents token (Refresh _ body header) =
     (js_or (jget body ''refreshJwt'') (JStr (header_token header)) = JStr token)"
| "presents token _ = False"

text \<open>The identifier a request would give to a new account.\<close>

fun registers :: "account_request \<Rightarrow> string option" where
  "registers (Register _ userId _ _) = Some userId"
| "registers _ = None"

subsection \<open>The steps\<close>

text \<open>An update of a user row keeps who the user is and never lowers the token version.\<close>

definition benign :: "(account \<Rightarrow> account) \<Rightarrow> bool" where
  "benign f \<longleftrightarrow> (\<forall>u. ac_id (f u) = ac_id u \<and> ac_did (f u) = ac_did u \<and> ac_handle (f u) = ac_handle u \<and>
     ac_email (f u) = ac_email u \<and> ac_auth_type (f u) = ac_auth_type u \<and>
     ac_token_version u \<le> ac_token_version (f u))"

text \<open>The sessions go on as they are, some of them revoked or dropped.\<close>

definition sessions_fewer :: "session list \<Rightarrow> session list \<Rightarrow> bool" where
  "sessions_fewer xs ys \<longleftrightarrow> (\<exists>f P. ys = map f (filter P xs) \<and>
     (\<forall>x. se_user_id (f x) = se_user_id x \<and> se_refresh_token_hash (f x) = se_refresh_token_hash x \<and>
          (se_revoked_at (f x) = None \<longrightarrow> se_revoked_at x = None)))"

text \<open>Recovery attempts are added, with a hash of \<open>H\<close>, or completed.\<close>

definition attempts_later :: "string set \<Rightarrow> recovery_attempt list \<Rightarrow> recovery_attempt list \<Rightarrow> bool" where
  "attempts_later H xs ys \<longleftrightarrow> (\<exists>x. ys = xs @ [x] \<and> ra_token_hash x \<in> H) \<or>
     (\<exists>f. ys = map f xs \<and> (\<forall>x. ra_token_hash (f x) = ra_token_hash x \<and> ra_expires_at (f x) = ra_expires_at x \<and>
        (ra_status (f x) = ''pending'' \<longrightarrow> ra_status x = ''pending'')))"

text \<open>
  \<open>H\<close> holds the hashes of the tokens that may be issued, \<open>D\<close> the identifiers that may be
  given to new accounts. A step of the first kind
  changes rows of users and sessions, completes
  or adds recovery attempts, and changes the other tables of tokens and the audit log freely.
\<close>

inductive account_step :: "string set \<Rightarrow> string set \<Rightarrow> accounts \<Rightarrow> accounts \<Rightarrow> bool" for H D where
  Updated: "t_users s' = map f (t_users s) \<Longrightarrow> benign f \<Longrightarrow> sessions_fewer (t_sessions s) (t_sessions s') \<Longrightarrow>
     attempts_later H (t_recoveries s) (t_recoveries s') \<Longrightarrow> t_roles s' = t_roles s \<Longrightarrow> t_invites s' = t_invites s \<Longrightarrow> t_now s' = t_now s \<Longrightarrow> account_step H D s s'"
| Opened: "se_refresh_token_hash x \<in> H \<Longrightarrow> account_step H D s (s\<lparr>t_sessions := t_sessions s @ [x]\<rparr>)"
| Rotated: "newHash \<in> H \<Longrightarrow> account_step H D s (snd (rotate sessionId oldHash newHash expires p s))"
| RoleAdded: "account_step H D s (add_role userId role s)"
| RoleRemoved: "account_step H D s (remove_role userId role s)"
| InviteCreated: "in_uses_count i = 0 \<Longrightarrow> 0 < in_max_uses i \<Longrightarrow> insert_invite i s = Inr ((), s') \<Longrightarrow> account_step H D s s'"
| Registered: "insertUserWithRole v s = (Inr (), s1) \<Longrightarrow> s' = s1 \<or> claimInvite code email userId s1 = (Inr (), s') \<Longrightarrow>
     ac_token_version v = 0 \<Longrightarrow> ac_id v \<in> D \<Longrightarrow> account_step H D s s'"
| Deleted: "account_step H D s (delete_account_rows user s)"

definition stepping :: "string set \<Rightarrow> string set \<Rightarrow> (accounts, exn, 'a) act \<Rightarrow> bool" where
  "stepping H D t = maintains (\<lambda>_. True) (account_step H D) t"

lemma benign_id [simp]: "benign (\<lambda>u. u)" "benign id"
  by (simp_all add: benign_def)

lemma fewer_refl [simp]: "sessions_fewer xs xs"
  unfolding sessions_fewer_def by (rule exI [of _ id], rule exI [of _ "\<lambda>_. True"]) simp

lemma fewer_filter [simp]: "sessions_fewer xs (filter P xs)"
  unfolding sessions_fewer_def by (rule exI [of _ id], rule exI [of _ P]) simp

lemma fewer_revoked:
  "t_sessions s' = t_sessions s \<Longrightarrow> sessions_fewer (t_sessions s) (t_sessions (revoke_sessions P s'))"
  unfolding sessions_fewer_def revoke_sessions_def
  by (rule exI [of _ "\<lambda>x. if P x \<and> se_revoked_at x = None then x\<lparr>se_revoked_at := Some (t_now s')\<rparr> else x"],
      rule exI [of _ "\<lambda>_. True"]) simp

lemma attempts_refl [simp]: "attempts_later H xs xs"
  unfolding attempts_later_def by (rule disjI2, rule exI [of _ id]) simp

lemma attempts_added [simp]: "ra_token_hash x \<in> H \<Longrightarrow> attempts_later H xs (xs @ [x])"
  by (auto simp: attempts_later_def)

lemma attempts_completed [simp]:
  "attempts_later H xs (map (\<lambda>r. if P r then r\<lparr>ra_status := ''completed'', ra_completed_at := t\<rparr> else r) xs)"
  unfolding attempts_later_def
  by (rule disjI2, rule exI [of _ "\<lambda>r. if P r then r\<lparr>ra_status := ''completed'', ra_completed_at := t\<rparr> else r"]) simp

text \<open>A step that leaves the users alone, and one that updates some rows.\<close>

lemma quiet_step:
  "t_users s' = t_users s \<Longrightarrow> sessions_fewer (t_sessions s) (t_sessions s') \<Longrightarrow>
   attempts_later H (t_recoveries s) (t_recoveries s') \<Longrightarrow> t_roles s' = t_roles s \<Longrightarrow>
   t_invites s' = t_invites s \<Longrightarrow> t_now s' = t_now s \<Longrightarrow> account_step H D s s'"
  by (rule Updated [of _ id]) simp_all

lemma user_step: "benign f \<Longrightarrow> account_step H D s (on_user i f s)"
  by (rule Updated [of _ "\<lambda>u. if ac_id u = i then f u else u"]) (auto simp: on_user_def benign_def)

lemma revoke_sessions_select [simp]:
  "t_users (revoke_sessions P s) = t_users s" "t_roles (revoke_sessions P s) = t_roles s"
  "t_invites (revoke_sessions P s) = t_invites s" "t_now (revoke_sessions P s) = t_now s"
  "t_recoveries (revoke_sessions P s) = t_recoveries s"
  by (simp_all add: revoke_sessions_def)

lemma on_user_select [simp]:
  "t_sessions (on_user i f s) = t_sessions s" "t_roles (on_user i f s) = t_roles s"
  "t_invites (on_user i f s) = t_invites s" "t_now (on_user i f s) = t_now s"
  "t_recoveries (on_user i f s) = t_recoveries s"
  by (simp_all add: on_user_def)

lemma revoke_step: "account_step H D s (revoke_sessions P s)"
  by (rule quiet_step) (simp_all add: fewer_revoked)

lemma step_refl [simp]: "account_step H D s s"
  by (rule quiet_step) simp_all

lemma benign_updates [simp]:
  "benign bump_version" "benign reset_failures" "benign (count_failure now)" "benign (set_password h)"
  "benign (set_account_status st t by r)"
  by (simp_all add: benign_def bump_version_def reset_failures_def count_failure_def set_password_def
      set_account_status_def)

subsection \<open>Every request takes these steps\<close>

lemma stepping_basic: "stepping H D (done_with x)" "stepping H D (raise e)" "stepping H D (lifted r)"
  "stepping H D (reading f)" "stepping H D (Finished y)"
  by (simp_all add: stepping_def maintains_basic)

lemma stepping_andThen: "stepping H D m \<Longrightarrow> (\<And>x. stepping H D (k x)) \<Longrightarrow> stepping H D (andThen m k)"
  by (simp add: stepping_def maintains_andThen)

lemma stepping_trying: "stepping H D m \<Longrightarrow> stepping H D (trying m h)"
  by (simp add: stepping_def maintains_trying)

lemma stepping_each: "(\<And>x. x \<in> set xs \<Longrightarrow> stepping H D (f x)) \<Longrightarrow> stepping H D (each f xs)"
  by (simp add: stepping_def maintains_each)

lemma stepping_fetch: "stepping H D (fetch f)"
  by (simp add: stepping_def maintains_fetch)

lemma stepping_change: "(\<And>s. account_step H D s (f s)) \<Longrightarrow> stepping H D (change f)"
  by (simp add: stepping_def maintains_change)

lemma stepping_sql: "(\<And>s x s'. f s = Inr (x, s') \<Longrightarrow> account_step H D s s') \<Longrightarrow> stepping H D (sql f)"
  unfolding stepping_def by (intro maintains_sql) auto

lemma stepping_audit: "stepping H D (audit action actor target meta)"
  unfolding audit_def stepping_def
  by (intro maintains_graft) (auto simp: done_with_def change_def sql_def intro!: quiet_step)

lemma stepping_if: "(b \<Longrightarrow> stepping H D m) \<Longrightarrow> (\<not> b \<Longrightarrow> stepping H D n) \<Longrightarrow> stepping H D (if b then m else n)"
  by simp

lemma stepping_option:
  "(v = None \<Longrightarrow> stepping H D m) \<Longrightarrow> (\<And>x. v = Some x \<Longrightarrow> stepping H D (f x)) \<Longrightarrow>
   stepping H D (case v of None \<Rightarrow> m | Some x \<Rightarrow> f x)"
  by (cases v) simp_all

lemma stepping_sum:
  "(\<And>x. stepping H D (f x)) \<Longrightarrow> (\<And>x. stepping H D (g x)) \<Longrightarrow> stepping H D (case v of Inl x \<Rightarrow> f x | Inr x \<Rightarrow> g x)"
  by (cases v) simp_all

lemma stepping_prod: "(\<And>x y. stepping H D (f x y)) \<Longrightarrow> stepping H D (case v of (x, y) \<Rightarrow> f x y)"
  by (cases v) simp

lemma stepping_list:
  "stepping H D m \<Longrightarrow> (\<And>x xs. stepping H D (f x xs)) \<Longrightarrow> stepping H D (case v of [] \<Rightarrow> m | x # xs \<Rightarrow> f x xs)"
  by (cases v) simp_all

lemma stepping_jv:
  assumes "stepping H D a" "stepping H D b" "\<And>x. stepping H D (c x)" "\<And>x. stepping H D (d x)" "\<And>x. stepping H D (e x)"
    "\<And>x. stepping H D (f x)" "\<And>x. stepping H D (g x)"
  shows "stepping H D (case_jv a b c d e f g v)"
  using assms by (cases v) simp_all

lemma stepping_let: "stepping H D (f v) \<Longrightarrow> stepping H D (let x = v in f x)"
  by simp

lemmas stepping_structure = stepping_basic stepping_andThen stepping_trying stepping_each stepping_fetch
  stepping_audit stepping_if stepping_option stepping_sum stepping_prod stepping_list stepping_let

lemmas stepping_rules = stepping_structure stepping_change

lemma stepping_revoke_for_reuse: "stepping H D (revoke_for_reuse h)"
  unfolding revoke_for_reuse_def by (intro stepping_rules) (simp_all add: revoke_step user_step)

lemma stepping_revoke_returning: "stepping H D (revoke_returning P)"
  unfolding revoke_returning_def by (intro stepping_sql) (auto intro: revoke_step)

lemma stepping_signAccessToken: "stepping H D (signAccessToken env u roles)"
  unfolding signAccessToken_def by (intro stepping_rules)

lemma stepping_issueSession:
  assumes "ae_sha256 env token \<in> H"
  shows "stepping H D (issueSession env token sessionId user pseudonym)"
  unfolding issueSession_def
  by (intro stepping_rules stepping_signAccessToken) (simp_all add: Opened new_session_def assms)

lemma stepping_refreshSession:
  assumes "ae_sha256 env newToken \<in> H"
  shows "stepping H D (refreshSession env newToken body header)"
proof -
  have "stepping H D (sql (\<lambda>s. Inr (rotate sid old (ae_sha256 env newToken) t p s)))" for sid old t p
    by (rule stepping_sql) (use Rotated [OF assms] in \<open>metis Inr_inject snd_conv\<close>)
  then show ?thesis
    unfolding refreshSession_def refresh_found_def
    by (intro stepping_rules stepping_signAccessToken stepping_revoke_for_reuse)
qed

lemma stepping_createSession:
  assumes "ae_sha256 env token \<in> H"
  shows "stepping H D (createSession env token sessionId body ip)"
  unfolding createSession_def login_unlocked_def login_accepted_def record_failure_def refuse_login_def
    login_failed_def
  by (intro stepping_structure stepping_issueSession stepping_sql stepping_change assms)
    (auto simp: Let_def user_step)

lemma stepping_deleteSession: "stepping H D (deleteSession env body)"
  unfolding deleteSession_def
  by (intro stepping_rules stepping_sql) (auto simp: Let_def user_step intro: revoke_step)

lemma stepping_revokeSession: "stepping H D (revokeSession env req)"
  unfolding revokeSession_def revoke_target_def
  by (intro stepping_rules stepping_revoke_returning) (simp_all add: user_step)

lemma stepping_changePassword: "stepping H D (changePassword env salt req)"
  unfolding changePassword_def
  by (intro stepping_rules) (simp_all add: user_step quiet_step)

lemma stepping_requestPasswordReset: "stepping H D (requestPasswordReset env token tokenId body)"
  unfolding requestPasswordReset_def by (intro stepping_rules) (simp_all add: quiet_step)

lemma stepping_confirmPasswordReset: "stepping H D (confirmPasswordReset env salt body)"
  unfolding confirmPasswordReset_def
  by (intro stepping_rules stepping_revoke_returning) (simp_all add: user_step quiet_step)

lemma stepping_initiateRecovery:
  assumes "ae_sha256 env token \<in> H"
  shows "stepping H D (initiateRecovery env token attemptId body ip)"
  unfolding initiateRecovery_def by (intro stepping_rules) (simp_all add: quiet_step assms)

lemma recovery_transaction_step: "account_step H D s (snd (recovery_transaction tokenHash newHash s))"
proof -
  have "account_step H D s (revoke_sessions P (on_user i f s\<lparr>t_recoveries := rs\<rparr>))"
    if "benign f" "attempts_later H (t_recoveries s) rs" for P i f rs
    by (rule Updated [of _ "\<lambda>u. if ac_id u = i then f u else u"])
      (use that in \<open>auto simp: benign_def on_user_def fewer_revoked\<close>)
  then show ?thesis
    by (auto simp: recovery_transaction_def Let_def benign_def set_password_def reset_failures_def
        split: option.split)
qed

lemma stepping_completeRecovery: "stepping H D (completeRecovery env salt body)"
  unfolding completeRecovery_def
  by (intro stepping_rules stepping_sql) (metis Inr_inject recovery_transaction_step snd_conv)

lemma stepping_confirmEmailToken: "stepping H D (confirmEmailToken env email token)"
proof -
  have "account_step H D s (s\<lparr>t_users := map (\<lambda>u. if P u
      then u\<lparr>ac_email_verified_at := v u\<rparr> else u) (t_users s)\<rparr>)" for s P v
    by (rule Updated [of _ "\<lambda>u. if P u then u\<lparr>ac_email_verified_at := v u\<rparr> else u"])
      (auto simp: benign_def)
  then show ?thesis
    unfolding confirmEmailToken_def
    by (intro stepping_rules stepping_sql) (auto simp: Let_def quiet_step)
qed

lemma stepping_confirmEmail: "stepping H D (confirmEmail env req service)"
  unfolding confirmEmail_def own_email_problem_def
  by (intro stepping_rules stepping_jv stepping_confirmEmailToken)

lemma stepping_createInvite: "stepping H D (createInvite env parseDate code req)"
proof -
  have "account_step H D s s'"
    if "insert_invite i s = Inr (x, s')" "in_uses_count i = 0" "0 < in_max_uses i" for i s x s'
    using that InviteCreated [of i s s' H D] by simp
  then show ?thesis
    unfolding createInvite_def
    by (intro stepping_rules stepping_sql) (auto split: jnum.splits simp: less_floor_iff)
qed

lemma register_transaction_step:
  "register_transaction env input v s = (Inr x, s') \<Longrightarrow> ac_token_version v = 0 \<Longrightarrow> ac_id v \<in> D \<Longrightarrow>
   account_step H D s s'"
  by (auto simp: register_transaction_def ensureHandleEmailAvailable_def run_simps
      split: if_splits prod.splits sum.splits intro: Registered)

lemma stepping_registerAccount:
  assumes "userId \<in> D"
  shows "stepping H D (registerAccount env salt userId identity body)"
proof -
  have "stepping H D (withTransaction (register_transaction env body v))"
    if "ac_token_version v = 0" "ac_id v \<in> D" for v
    unfolding withTransaction_def
    by (rule stepping_sql)
      (auto split: prod.splits sum.splits intro: register_transaction_step [OF _ that])
  then show ?thesis
    unfolding registerAccount_def
    by (intro stepping_rules) (auto intro!: stepping_rules simp: new_account_def assms split: sum.split)
qed

lemma stepping_decide_pending:
  assumes "\<And>now. benign (f now)"
  shows "stepping H D (decide_pending P f)"
  unfolding decide_pending_def Let_def
proof (rule stepping_sql, clarsimp)
  fix s
  show "account_step H D s (s\<lparr>t_users :=
      map (\<lambda>u. if P u \<and> ac_status u = ''pending'' then f (t_now s) u else u) (t_users s)\<rparr>)"
    by (rule Updated [of _ "\<lambda>u. if P u \<and> ac_status u = ''pending'' then f (t_now s) u else u"])
      (use assms in \<open>auto simp: benign_def\<close>)
qed

lemma stepping_decide_account:
  assumes "\<And>a now. benign (f a now)"
  shows "stepping H D (decide_account action f req)"
  unfolding decide_account_def
  by (intro stepping_rules stepping_decide_pending assms)

lemma stepping_approveAccount: "stepping H D (approveAccount req)"
  unfolding approveAccount_def by (rule stepping_decide_account) (simp add: benign_def)

lemma stepping_rejectAccount: "stepping H D (rejectAccount req)"
  unfolding rejectAccount_def by (rule stepping_decide_account) (simp add: benign_def)

lemma stepping_deactivateAccount: "stepping H D (deactivateAccount req)"
  unfolding deactivateAccount_def
  by (intro stepping_rules) (auto simp: revoke_step user_step Let_def intro!: stepping_rules user_step revoke_step)

lemma benign_activation [simp]:
  "benign (\<lambda>u. (set_account_status st t by r u)\<lparr>ac_migrating_in := False, ac_approved_at := f u\<rparr>)"
  by (simp add: benign_def set_account_status_def)

lemma stepping_activateAccount: "stepping H D (activateAccount plc signingKey url req)"
  unfolding activateAccount_def
  by (intro stepping_rules) (simp_all add: user_step)

lemma stepping_updateRoles: "stepping H D (updateRoles req)"
  unfolding updateRoles_def update_roles_of_def
  by (intro stepping_rules) (simp_all add: user_step RoleAdded RoleRemoved)

lemma stepping_moderate: "stepping H D (moderate a user status reason action meta revoke)"
  unfolding moderate_def by (intro stepping_rules) (simp_all add: user_step revoke_step)

lemma stepping_updateSubjectStatus: "stepping H D (updateSubjectStatus req)"
  unfolding updateSubjectStatus_def moderate_subject_def apply_takedown_def apply_deactivated_def
  by (intro stepping_rules stepping_moderate)

lemma stepping_adminDeleteAccount: "stepping H D (adminDeleteAccount req)"
  unfolding adminDeleteAccount_def by (intro stepping_rules) (rule Deleted)

lemmas stepping_requests = stepping_refreshSession stepping_createSession stepping_deleteSession
  stepping_revokeSession stepping_changePassword stepping_requestPasswordReset stepping_confirmPasswordReset
  stepping_initiateRecovery stepping_completeRecovery stepping_confirmEmail stepping_registerAccount
  stepping_createInvite stepping_approveAccount stepping_rejectAccount stepping_deactivateAccount
  stepping_activateAccount stepping_updateRoles stepping_updateSubjectStatus stepping_adminDeleteAccount

lemma serve_steps:
  assumes "\<And>t. issues r = Some t \<Longrightarrow> ae_sha256 env t \<in> H"
    and "\<And>i. registers r = Some i \<Longrightarrow> i \<in> D"
  shows "stepping H D (serve env r)"
  using assms by (cases r) (simp_all add: stepping_requests)

text \<open>Invariants of the steps are invariants of the requests.\<close>

lemma maintains_mono:
  assumes "maintains (\<lambda>_. True) S t" "\<And>s s'. I s \<Longrightarrow> S s s' \<Longrightarrow> I s' \<and> R s s'"
  shows "maintains I R t"
  using assms(1) by (induction t rule: act_induct) (simp_all add: assms(2))

lemma serve_maintains:
  assumes "\<And>t. issues r = Some t \<Longrightarrow> ae_sha256 env t \<in> H"
    and "\<And>i. registers r = Some i \<Longrightarrow> i \<in> D"
    and "\<And>s s'. I s \<Longrightarrow> account_step H D s s' \<Longrightarrow> I s' \<and> R s s'"
  shows "maintains I R (serve env r)"
  using serve_steps [OF assms(1,2)] assms(3) unfolding stepping_def by (rule maintains_mono)

end
