(* ===== verification/SessionSafety.thy ===== *)
theory SessionSafety
  imports AccountSteps
begin

text \<open>
  Refresh tokens and access tokens, for every way the requests of a pool may interleave: a
  refresh token is rotated by at most one request, the token version of an account never goes
  back, and what the reuse of an old token does.
\<close>

subsection \<open>What the steps keep of the sessions\<close>

definition at_most_one_session :: "string \<Rightarrow> accounts \<Rightarrow> bool" where
  "at_most_one_session h s \<longleftrightarrow> length (filter (\<lambda>x. se_refresh_token_hash x = h) (t_sessions s)) \<le> 1"

definition refreshable :: "string \<Rightarrow> accounts \<Rightarrow> bool" where
  "refreshable h s \<longleftrightarrow> (\<exists>x \<in> set (t_sessions s). se_refresh_token_hash x = h \<and> se_revoked_at x = None)"

lemma length_filter_le_imp:
  "(\<And>x. x \<in> set xs \<Longrightarrow> P x \<Longrightarrow> Q x) \<Longrightarrow> length (filter P xs) \<le> length (filter Q xs)"
  by (induction xs) (auto simp: le_SucI)

lemma length_filter_filter_le: "length (filter P (filter Q xs)) \<le> length (filter P xs)"
  by (induction xs) simp_all

text \<open>Each session after a step with hash \<open>h\<close> stood there before, when no step issues \<open>h\<close>.\<close>

lemma rotated_sessions:
  assumes "newHash \<noteq> h" "s' = snd (rotate sessionId oldHash newHash expires p s)"
  shows "length (filter (\<lambda>x. se_refresh_token_hash x = h) (t_sessions s')) \<le>
      length (filter (\<lambda>x. se_refresh_token_hash x = h) (t_sessions s))"
    and "refreshable h s' \<Longrightarrow> refreshable h s"
  using assms
  by (auto simp: rotate_def refreshable_def intro!: length_filter_le_imp split: if_splits)

lemma fewer_sessions:
  assumes "sessions_fewer (t_sessions s) (t_sessions s')"
  shows "length (filter (\<lambda>x. se_refresh_token_hash x = h) (t_sessions s')) \<le>
      length (filter (\<lambda>x. se_refresh_token_hash x = h) (t_sessions s))"
    and "refreshable h s' \<Longrightarrow> refreshable h s"
proof -
  obtain f P where f: "t_sessions s' = map f (filter P (t_sessions s))"
    "\<And>x. se_refresh_token_hash (f x) = se_refresh_token_hash x"
    "\<And>x. se_revoked_at (f x) = None \<Longrightarrow> se_revoked_at x = None"
    using assms by (auto simp: sessions_fewer_def)
  show "length (filter (\<lambda>x. se_refresh_token_hash x = h) (t_sessions s')) \<le>
      length (filter (\<lambda>x. se_refresh_token_hash x = h) (t_sessions s))"
    using length_filter_filter_le [of "\<lambda>x. se_refresh_token_hash x = h" P "t_sessions s"]
    by (simp add: f filter_map comp_def)
  show "refreshable h s' \<Longrightarrow> refreshable h s"
    using f by (auto simp: refreshable_def)
qed

lemma registered_select:
  assumes "insertUserWithRole v s = (Inr (), s1)" "s' = s1 \<or> claimInvite code email userId s1 = (Inr (), s')"
  shows "t_sessions s' = t_sessions s" "t_users s' = t_users s1" "t_roles s' = t_roles s1" "t_now s' = t_now s"
    "\<not> account_conflict s v"
    "t_users s1 = t_users s @ [v\<lparr>ac_approved_at := (if ac_status v = ''approved'' then Some (t_now s) else None)\<rparr>]"
  using assms by (auto simp: insertUserWithRole_def claimInvite_def split: if_splits option.splits)

lemma step_sessions:
  assumes "account_step H D s s'" "h \<notin> H" "at_most_one_session h s"
  shows "at_most_one_session h s' \<and> claimable (refreshable h) s s'"
  using assms(1)
proof cases
  case (Updated f)
  then show ?thesis using fewer_sessions [of s s' h] assms(3)
    by (auto simp: at_most_one_session_def claimable_def)
next
  case (Rotated newHash sessionId oldHash expires p)
  then have "newHash \<noteq> h" using assms(2) by auto
  from rotated_sessions [OF this Rotated(1)] show ?thesis using assms(3)
    by (auto simp: at_most_one_session_def claimable_def)
next
  case (Registered v s1 code email userId)
  then show ?thesis using registered_select [of v s s1 s'] assms(3)
    by (auto simp: at_most_one_session_def claimable_def refreshable_def)
next
  case (Deleted user)
  then have "sessions_fewer (t_sessions s) (t_sessions s')" by (simp add: delete_account_rows_def)
  then show ?thesis using fewer_sessions [of s s' h] assms(3)
    by (auto simp: at_most_one_session_def claimable_def)
qed (use assms(2,3) in \<open>auto simp: at_most_one_session_def claimable_def refreshable_def add_role_def
    remove_role_def insert_invite_def split: if_splits\<close>)

abbreviation gentle :: "string \<Rightarrow> (accounts, exn, 'a) act \<Rightarrow> bool" where
  "gentle h \<equiv> maintains (at_most_one_session h) (claimable (refreshable h))"

lemma gentle_of_stepping: "stepping {k. k \<noteq> h} D t \<Longrightarrow> gentle h t"
  unfolding stepping_def by (erule maintains_mono) (auto dest: step_sessions)

lemma gentle_serve:
  assumes "\<And>t. issues r = Some t \<Longrightarrow> ae_sha256 env t \<noteq> h"
  shows "gentle h (serve env r)"
  by (rule gentle_of_stepping [of _ UNIV]) (use assms in \<open>auto intro: serve_steps\<close>)

subsection \<open>A refresh token is rotated once\<close>

interpretation rotation: one_claim "at_most_one_session h" "refreshable h" pass_time for h
  by unfold_locales
    (auto simp: claimable_def pass_time_def at_most_one_session_def refreshable_def)

definition succeeded :: "reply \<Rightarrow> bool" where
  "succeeded r \<longleftrightarrow> reply_status r = 200"

lemma succeeded_simps [simp]: "\<not> succeeded (err 400 c)" "\<not> succeeded (err 401 c)" "\<not> succeeded (err 403 c)"
  "\<not> succeeded (err 404 c)" "\<not> succeeded (err 410 c)" "\<not> succeeded (err 500 c)" "succeeded (ok ps)"
  by (simp_all add: succeeded_def err_def ok_def)

lemma one_filtered:
  assumes "length (filter P xs) \<le> 1" "x \<in> set xs" "P x" "y \<in> set xs" "P y"
  shows "x = y"
proof -
  have "x \<in> set (filter P xs)" "y \<in> set (filter P xs)" using assms by simp_all
  then show ?thesis using assms(1) by (cases "filter P xs") auto
qed

lemma rotate_claims:
  assumes I: "at_most_one_session h s" and new: "newHash \<noteq> h"
    and r: "rotate sessionId h newHash expires p s = (Suc 0, s')"
  shows "refreshable h s \<and> \<not> refreshable h s'"
proof -
  let ?hit = "\<lambda>x. se_id x = sessionId \<and> se_refresh_token_hash x = h \<and> se_revoked_at x = None"
  from r have n: "length (filter ?hit (t_sessions s)) = Suc 0" by (simp add: rotate_def)
  then have "filter ?hit (t_sessions s) \<noteq> []" by force
  then obtain x where x: "x \<in> set (t_sessions s)" "?hit x" by (auto simp: filter_empty_conv)
  have only: "?hit y" if "y \<in> set (t_sessions s)" "se_refresh_token_hash y = h" for y
    using one_filtered [of "\<lambda>x. se_refresh_token_hash x = h" "t_sessions s" x y] that x I
    by (simp add: at_most_one_session_def)
  have "se_refresh_token_hash z \<noteq> h" if z: "z \<in> set (t_sessions s')" for z
  proof -
    from r z obtain y where y: "y \<in> set (t_sessions s)"
      "z = (if ?hit y then y\<lparr>se_refresh_token_hash := newHash, se_previous_token_hash := Some h,
          se_expires_at := expires, se_last_used_at := (if p then None else Some (t_now s))\<rparr> else y)"
      by (auto simp: rotate_def)
    with only [OF y(1)] new show ?thesis by (cases "?hit y") auto
  qed
  then have "\<not> refreshable h s'" by (auto simp: refreshable_def)
  moreover have "refreshable h s" using x by (auto simp: refreshable_def)
  ultimately show ?thesis by simp
qed

abbreviation wins_by :: "string \<Rightarrow> (accounts, exn, reply) act \<Rightarrow> bool" where
  "wins_by h \<equiv> rightful (at_most_one_session h) (refreshable h) succeeded"

lemma wins_by_reuse: "wins_by h (trying (andThen (revoke_for_reuse h') (\<lambda>_. done_with (err 401 c))) (\<lambda>_. err 500 d))"
  by (rule rightful_quiet [OF _ gentle_of_stepping [OF stepping_revoke_for_reuse]]) simp_all

lemma signAccessToken_wins_by:
  assumes "\<And>e. \<not> succeeded (hr e)" "\<And>x. wins_by h (trying (k x) hr)"
  shows "wins_by h (trying (andThen (signAccessToken env u roles) k) hr)"
  by (rule rightful_quiet [OF assms(1) gentle_of_stepping [OF stepping_signAccessToken] assms(2)])

lemma rotate_wins_by:
  assumes "ae_sha256 env newToken \<noteq> h" "\<And>e. \<not> succeeded (hr e)"
    and late: "\<And>n. n \<noteq> 1 \<Longrightarrow> wins_by h (trying (k n) hr)"
  shows "wins_by h (trying (andThen (sql (\<lambda>s. Inr (rotate sid h (ae_sha256 env newToken) t p s))) k) hr)"
proof (rule rightful_sql)
  fix s x s' assume I: "at_most_one_session h s"
    and eq: "Inr (rotate sid h (ae_sha256 env newToken) t p s) = (Inr (x, s') :: exn + _)"
  show "wins_by h (trying (k x) hr) \<or> refreshable h s \<and> \<not> refreshable h s'"
  proof (cases "x = 1")
    case True
    with eq rotate_claims [OF I assms(1)] show ?thesis by simp
  qed (simp add: late)
qed (rule assms(2))

lemma refresh_found_wins_by:
  assumes "ae_sha256 env newToken \<noteq> h"
  shows "wins_by h (trying (refresh_found env newToken h session) (\<lambda>_. err 500 c))"
  unfolding refresh_found_def
  by (intro rightful_structure signAccessToken_wins_by rotate_wins_by wins_by_reuse assms)
    (auto simp: session_status_problem_def split: if_splits)

lemma refresh_wins_by:
  assumes "presents token (Refresh newToken body header)" "ae_sha256 env newToken \<noteq> ae_sha256 env token"
  shows "wins_by (ae_sha256 env token) (refreshSession env newToken body header)"
proof -
  have "x = ae_sha256 env token"
    if "hashToken env (js_or (jget body ''refreshJwt'') (JStr (header_token header))) = Inr x" for x
    using that assms(1) by (simp add: hashToken_def)
  then show ?thesis
    unfolding refreshSession_def
    using refresh_found_wins_by [OF assms(2)]
    by (intro rightful_structure wins_by_reuse) auto
qed

text \<open>
  C25. Refresh requests that present one token, any number of them, run together with any other
  requests on the accounts: whatever the order of their statements, whichever of them fail, at
  most one is answered with a new pair of tokens.
\<close>

theorem token_is_rotated_once:
  assumes "at_most_one_session (ae_sha256 env token) s"
    and "\<And>r t. r \<in> set rs \<Longrightarrow> issues r = Some t \<Longrightarrow> ae_sha256 env t \<noteq> ae_sha256 env token"
    and "i < length rs" "presents token (rs ! i)" "j < length rs" "presents token (rs ! j)" "i \<noteq> j"
    and "replied (exec pass_time evs (map (serve env) rs, s)) i = Some x"
    and "replied (exec pass_time evs (map (serve env) rs, s)) j = Some y"
  shows "\<not> (succeeded x \<and> succeeded y)"
proof -
  let ?won = "\<lambda>k x. presents token (rs ! k) \<and> succeeded x"
  have "rightful (at_most_one_session (ae_sha256 env token)) (refreshable (ae_sha256 env token))
      (?won k) (map (serve env) rs ! k)" if "k < length rs" for k
  proof (cases "presents token (rs ! k)")
    case True
    then obtain nt b hr where r: "rs ! k = Refresh nt b hr" by (cases "rs ! k") auto
    moreover have "rs ! k \<in> set rs" using that by simp
    ultimately have "ae_sha256 env nt \<noteq> ae_sha256 env token" using assms(2) by simp
    with refresh_wins_by [of token nt b hr env] True r that show ?thesis by simp
  next
    case False
    then show ?thesis by (intro rightful_loses) simp
  qed
  moreover have "\<forall>t \<in> set (map (serve env) rs). gentle (ae_sha256 env token) t"
    using assms(2) by (auto intro: gentle_serve)
  ultimately show ?thesis
    using rotation.one_winner [of "map (serve env) rs" "ae_sha256 env token" ?won s evs i x j y] assms by auto
qed

subsection \<open>Samples\<close>

definition sample_auth :: auth_env where
  "sample_auth = \<lparr>ae_sha256 = (\<lambda>s. CHR ''#'' # s), ae_compare = (\<lambda>p h. h = CHR ''#'' # p),
     ae_bcrypt = (\<lambda>salt p. CHR ''#'' # p), ae_sign = (\<lambda>t p. ''jwt''), ae_jwt_verify = (\<lambda>t j. None),
     ae_refreshTokenTtl = ''30d'', ae_inviteRequired = True, ae_emailPolicy = ''off'', ae_text = (\<lambda>_. ''0'')\<rparr>"

definition sample_account :: "string \<Rightarrow> account" where
  "sample_account i = \<lparr>ac_id = i, ac_handle = i, ac_email = Some (i @ ''@x.y''), ac_email_verified_at = None,
     ac_password_hash = Some ''#old'', ac_status = ''approved'', ac_did = ''did:'' @ i, ac_auth_type = ''local'',
     ac_approved_at = None, ac_approved_by = None, ac_status_changed_at = None, ac_status_changed_by = None,
     ac_status_reason = JNull, ac_exported_at = None, ac_failed_login_attempts = 0, ac_locked_until = None,
     ac_recovery_tier = Some 1, ac_token_version = 0, ac_migrating_in = False\<rparr>"

definition sample_accounts :: accounts where
  "sample_accounts = \<lparr>t_now = 0, t_users = [sample_account ''u'', sample_account ''v''],
     t_roles = [(''u'', ''user''), (''u'', ''admin''), (''v'', ''admin'')],
     t_sessions = [new_session ''s'' ''u'' ''#tok'' 1000 None], t_invites = [],
     t_resets = [\<lparr>rt_id = ''r'', rt_user_id = ''u'', rt_token_hash = ''#t'', rt_expires_at = 1000, rt_used_at = None\<rparr>],
     t_recoveries = [], t_verifications = [], t_audit = []\<rparr>"

definition present :: "string \<Rightarrow> account_request" where
  "present newToken = Refresh newToken (JObj [(''refreshJwt'', JStr ''tok'')]) None"

subsection \<open>Token versions never go back\<close>

text \<open>Of the accounts that are not being created, none comes back with a lower version.\<close>

definition no_rollback :: "string set \<Rightarrow> accounts \<Rightarrow> accounts \<Rightarrow> bool" where
  "no_rollback D s s' \<longleftrightarrow> (\<forall>i u'. i \<notin> D \<longrightarrow> find_user i s' = Some u' \<longrightarrow>
     (\<exists>u. find_user i s = Some u \<and> ac_token_version u \<le> ac_token_version u'))"

lemma find_map_same:
  "(\<And>x. P (f x) = P x) \<Longrightarrow> find P (map f xs) = map_option f (find P xs)"
  by (induction xs) simp_all

lemma find_filter_id:
  "find (\<lambda>u. ac_id u = i) (filter (\<lambda>u. ac_id u \<noteq> k) us) = (if i = k then None else find (\<lambda>u. ac_id u = i) us)"
  by (induction us) auto

lemma find_append: "find P (xs @ ys) = (case find P xs of None \<Rightarrow> find P ys | Some x \<Rightarrow> Some x)"
  by (induction xs) simp_all

lemma step_no_rollback:
  assumes "account_step H D s s'"
  shows "no_rollback D s s'"
  using assms
proof cases
  case (Updated f)
  then have f: "ac_id (f u) = ac_id u" "ac_token_version u \<le> ac_token_version (f u)" for u
    by (simp_all add: benign_def)
  then have "find_user i s' = map_option f (find_user i s)" for i
    by (simp add: find_user_def Updated find_map_same)
  with f show ?thesis by (auto simp: no_rollback_def)
next
  case (Registered v s1 code email userId)
  then have "find_user i s' = find_user i s" if "i \<notin> D" for i
    using registered_select [of v s s1 s'] that
    by (auto simp: find_user_def find_append split: option.split)
  then show ?thesis by (auto simp: no_rollback_def)
next
  case (Deleted user)
  then show ?thesis by (auto simp: no_rollback_def find_user_def delete_account_rows_def find_filter_id)
qed (auto simp: no_rollback_def find_user_def rotate_def add_role_def remove_role_def insert_invite_def
    split: if_splits)

interpretation versions: stable "\<lambda>_. True" "no_rollback D" pass_time for D
proof
  show "no_rollback D s s" for s by (simp add: no_rollback_def)
  show "no_rollback D s t \<Longrightarrow> no_rollback D t u \<Longrightarrow> no_rollback D s u" for s t u
    unfolding no_rollback_def by (meson order_trans)
  show "True \<and> no_rollback D s (pass_time n s)" for s n
    by (simp add: no_rollback_def find_user_def pass_time_def)
qed

lemma verify_needs_version:
  assumes "\<And>t. ae_jwt_verify env t token \<in> {None, Some p}" "jget p ''sub'' = JStr i"
    and "jget p ''tokenVersion'' = jint v" "\<And>u. find_user i s = Some u \<Longrightarrow> v < ac_token_version u"
  shows "fst (alone (verifyAccessToken env token) s) = None"
proof -
  have "find (\<lambda>u. JStr (ac_id u) = JStr i) (t_users s) = find_user i s"
    by (simp add: find_user_def)
  moreover have "jint w = jint v \<longleftrightarrow> w = v" for w by simp
  ultimately show ?thesis
    using assms(1) [of "t_now s"] assms(2-4)
    by (auto simp: verifyAccessToken_def alone_simps split: option.split)
qed

text \<open>
  C26. An access token names the version it was signed for. Once the account has moved past that
  version, by a sign-out, a revocation, a changed password or role, the token is refused for
  good, whatever requests run in between, in whatever order their statements fall.
\<close>

theorem revoked_access_stays_revoked:
  assumes "\<And>t. ae_jwt_verify env t token \<in> {None, Some p}" "jget p ''sub'' = JStr i"
    and "jget p ''tokenVersion'' = jint v" "find_user i s = Some u" "v < ac_token_version u"
    and "\<And>r. r \<in> set rs \<Longrightarrow> registers r \<noteq> Some i"
  shows "fst (alone (verifyAccessToken env token) (snd (exec pass_time evs (map (serve env) rs, s)))) = None"
proof -
  have "maintains (\<lambda>_. True) (no_rollback (UNIV - {i})) (serve env r)" if "r \<in> set rs" for r
    using assms(6) [OF that]
    by (intro serve_maintains [of _ _ UNIV "UNIV - {i}"]) (auto intro: step_no_rollback)
  then have "no_rollback (UNIV - {i}) s (snd (exec pass_time evs (map (serve env) rs, s)))"
    using versions.exec_maintains [of "(map (serve env) rs, s)" "UNIV - {i}" evs] by simp
  with assms(4,5) have "v < ac_token_version u'"
    if "find_user i (snd (exec pass_time evs (map (serve env) rs, s))) = Some u'" for u'
    using that by (fastforce simp: no_rollback_def)
  then show ?thesis by (rule verify_needs_version [OF assms(1-3)])
qed

subsection \<open>Reuse of a rotated token\<close>

text \<open>
  A token that no session holds any more is refused. Where it is the immediate predecessor of a
  session's token, every session of that user is revoked and the token version raised; a token
  rotated more than once leaves no trace, and its reuse changes nothing.
\<close>

theorem reuse_of_rotated_token:
  assumes "\<forall>x \<in> set (t_sessions s). se_refresh_token_hash x \<noteq> ae_sha256 env token"
    and "jget body ''refreshJwt'' = JStr token" "token \<noteq> []"
  shows "alone (refreshSession env newToken body header) s = (err 401 ''Unauthorized'',
    case find (\<lambda>x. se_previous_token_hash x = Some (ae_sha256 env token)) (t_sessions s) of
      None \<Rightarrow> s
    | Some x \<Rightarrow> on_user (se_user_id x) bump_version (revoke_sessions (\<lambda>y. se_user_id y = se_user_id x) s))"
proof -
  have "find (\<lambda>x. se_refresh_token_hash x = ae_sha256 env token) (t_sessions s) = None"
    using assms(1) by (simp add: find_None_iff)
  with assms(2,3) show ?thesis
    by (simp add: refreshSession_def revoke_for_reuse_def alone_simps hashToken_def js_or_def
        split: option.split)
qed

definition body_with :: "string \<Rightarrow> jv" where
  "body_with token = JObj [(''refreshJwt'', JStr token)]"

theorem reuse_of_rotated_token_witness:
  "alone (refreshSession sample_auth ''x'' (body_with ''older'') None) sample_accounts =
     (err 401 ''Unauthorized'', sample_accounts)"
  using reuse_of_rotated_token [of sample_accounts sample_auth "''older''" "body_with ''older''" "''x''" None]
  by (simp add: sample_accounts_def sample_auth_def new_session_def body_with_def)

theorem token_is_rotated_once_witness:
  "let p = exec pass_time (concat (replicate 12 [Run 0, Run 1]))
             (map (serve sample_auth) [present ''a'', present ''b''], sample_accounts)
   in \<exists>x y. replied p 0 = Some x \<and> replied p 1 = Some y \<and> succeeded x \<and> \<not> succeeded y"
proof -
  let ?p = "exec pass_time (concat (replicate 12 [Run 0, Run 1]))
             (map (serve sample_auth) [present ''a'', present ''b''], sample_accounts)"
  have "map_option succeeded (replied ?p 0) = Some True" "replied ?p 1 \<noteq> None" by code_simp+
  then obtain x y where xy: "replied ?p 0 = Some x" "succeeded x" "replied ?p 1 = Some y" by auto
  have "at_most_one_session (ae_sha256 sample_auth ''tok'') sample_accounts"
    by (simp add: at_most_one_session_def sample_accounts_def)
  then have "\<not> (succeeded x \<and> succeeded y)"
    by (rule token_is_rotated_once [where i = 0 and j = 1, OF _ _ _ _ _ _ _ xy(1,3)])
      (auto simp: present_def sample_auth_def js_or_def)
  then show ?thesis using xy by auto
qed

definition signed_payload :: jv where
  "signed_payload = JObj [(''sub'', JStr ''u''), (''tokenVersion'', jint (- 1))]"

theorem revoked_access_stays_revoked_witness:
  "fst (alone (verifyAccessToken (sample_auth\<lparr>ae_jwt_verify := \<lambda>_ _. Some signed_payload\<rparr>) ''t'')
     (snd (exec pass_time [Run 0, Elapse 5, Run 0]
        (map (serve (sample_auth\<lparr>ae_jwt_verify := \<lambda>_ _. Some signed_payload\<rparr>)) [present ''a''], sample_accounts)))) = None"
  by (rule revoked_access_stays_revoked [where p = signed_payload and i = "''u''" and v = "- 1" and u = "sample_account ''u''"])
    (auto simp: signed_payload_def sample_accounts_def sample_account_def find_user_def present_def)

end
