(* ===== verification/CredentialSafety.thy ===== *)
theory CredentialSafety
  imports SessionSafety
begin

text \<open>
  Recovery tokens, invites and identities for every way the requests of a pool may interleave,
  and what the order of statements lets happen: an emailed reset token that is used twice, a
  sign-in that outlives the change of the password, administrators who remove each other.
\<close>

subsection \<open>A recovery token is used once\<close>

definition one_attempt :: "string \<Rightarrow> accounts \<Rightarrow> bool" where
  "one_attempt h s \<longleftrightarrow> length (filter (\<lambda>r. ra_token_hash r = h) (t_recoveries s)) \<le> 1"

definition recoverable :: "string \<Rightarrow> accounts \<Rightarrow> bool" where
  "recoverable h s \<longleftrightarrow>
     (\<exists>r \<in> set (t_recoveries s). ra_token_hash r = h \<and> ra_status r = ''pending'' \<and> ra_expires_at r > t_now s)"

lemma later_attempts:
  assumes "attempts_later H (t_recoveries s) (t_recoveries s')" "t_now s' = t_now s" "h \<notin> H" "one_attempt h s"
  shows "one_attempt h s' \<and> claimable (recoverable h) s s'"
proof (cases "\<exists>x. t_recoveries s' = t_recoveries s @ [x] \<and> ra_token_hash x \<in> H")
  case True
  then show ?thesis using assms(2-4) by (auto simp: one_attempt_def recoverable_def claimable_def)
next
  case False
  then obtain f where f: "t_recoveries s' = map f (t_recoveries s)"
    "\<And>x. ra_token_hash (f x) = ra_token_hash x" "\<And>x. ra_expires_at (f x) = ra_expires_at x"
    "\<And>x. ra_status (f x) = ''pending'' \<Longrightarrow> ra_status x = ''pending''"
    using assms(1) by (auto simp: attempts_later_def)
  then have "recoverable h s' \<Longrightarrow> recoverable h s"
    using assms(2) by (fastforce simp: recoverable_def)
  then show ?thesis using assms(4) f(1,2) by (simp add: one_attempt_def claimable_def filter_map comp_def)
qed

lemma step_attempts:
  assumes "account_step H D s s'" "h \<notin> H" "one_attempt h s"
  shows "one_attempt h s' \<and> claimable (recoverable h) s s'"
  using assms(1)
proof cases
  case (Updated f)
  then show ?thesis using later_attempts assms(2,3) by blast
next
  case (Registered v s1 code email userId)
  then have "t_recoveries s' = t_recoveries s" "t_now s' = t_now s"
    by (auto simp: insertUserWithRole_def claimInvite_def split: if_splits option.splits)
  then show ?thesis using assms(3) by (simp add: one_attempt_def claimable_def recoverable_def)
qed (use assms(2,3) in \<open>auto simp: one_attempt_def claimable_def recoverable_def rotate_def add_role_def
    remove_role_def insert_invite_def delete_account_rows_def
    split: if_splits\<close>)

interpretation recovery: one_claim "one_attempt h" "recoverable h" pass_time for h
  by unfold_locales (auto simp: claimable_def pass_time_def one_attempt_def recoverable_def)

lemma recovery_claims:
  assumes I: "one_attempt h s" and r: "recovery_transaction h newHash s = (Some x, s')"
  shows "recoverable h s \<and> \<not> recoverable h s'"
proof -
  let ?hit = "\<lambda>r. ra_token_hash r = h \<and> ra_status r = ''pending'' \<and> ra_expires_at r > t_now s"
  from r obtain row where row: "find ?hit (t_recoveries s) = Some row"
    by (auto simp: recovery_transaction_def split: option.splits)
  then have hit: "row \<in> set (t_recoveries s)" "?hit row"
    by (auto simp: find_Some_iff)
  have only: "y = row" if "y \<in> set (t_recoveries s)" "ra_token_hash y = h" for y
    using one_filtered [of "\<lambda>r. ra_token_hash r = h" "t_recoveries s" y row] that hit I
    by (simp add: one_attempt_def)
  obtain user where "find (\<lambda>u. ac_did u = ra_user_did row) (t_users s) = Some user"
    using r row by (cases "find (\<lambda>u. ac_did u = ra_user_did row) (t_users s)")
      (simp_all add: recovery_transaction_def)
  then have f: "t_recoveries s' = map (\<lambda>r. if ra_id r = ra_id row then r\<lparr>ra_status := ''completed'',
      ra_completed_at := Some (t_now s)\<rparr> else r) (t_recoveries s)"
    using r row by (auto simp: recovery_transaction_def Let_def)
  have "\<not> recoverable h s'"
  proof
    assume "recoverable h s'"
    then obtain z where z: "z \<in> set (t_recoveries s')" "ra_token_hash z = h" "ra_status z = ''pending''"
      by (auto simp: recoverable_def)
    then obtain y where "y \<in> set (t_recoveries s)" "z = (if ra_id y = ra_id row then y\<lparr>ra_status := ''completed'',
      ra_completed_at := Some (t_now s)\<rparr> else y)" using f by auto
    moreover from this z have "ra_token_hash y = h" by (simp split: if_split_asm)
    ultimately show False using only [of y] z by simp
  qed
  then show ?thesis using hit by (auto simp: recoverable_def)
qed

fun recovers_with :: "string \<Rightarrow> account_request \<Rightarrow> bool" where
  "recovers_with token (CompleteRecovery _ body) = (jget body ''token'' = JStr token)"
| "recovers_with token _ = False"

lemma recovery_transaction_rightful:
  fixes hr :: "exn \<Rightarrow> 'a"
  assumes "\<And>e. \<not> won (hr e)" "rightful (one_attempt h) (recoverable h) won (trying (k None) hr)"
  shows "rightful (one_attempt h) (recoverable h) won
    (trying (andThen (sql (\<lambda>s. Inr (recovery_transaction h newHash s))) k) hr)"
proof (rule rightful_sql)
  fix s x s' assume I: "one_attempt h s" and eq: "Inr (recovery_transaction h newHash s) = (Inr (x, s') :: exn + _)"
  show "rightful (one_attempt h) (recoverable h) won (trying (k x) hr) \<or> recoverable h s \<and> \<not> recoverable h s'"
    using recovery_claims [OF I] eq assms(2) by (cases x) auto
qed (rule assms(1))

lemma completeRecovery_rightful:
  assumes "jget body ''token'' = JStr token"
  shows "rightful (one_attempt (ae_sha256 env token)) (recoverable (ae_sha256 env token)) succeeded
    (completeRecovery env salt body)"
  unfolding completeRecovery_def assms hashToken_def
  by (intro rightful_structure) (auto intro!: rightful_structure recovery_transaction_rightful)

text \<open>
  C27. Requests that complete a recovery with one token, any number of them, among any other
  requests: at most one of them sets its password.
\<close>

theorem recovery_token_used_once:
  assumes "one_attempt (ae_sha256 env token) s"
    and "\<And>r t. r \<in> set rs \<Longrightarrow> issues r = Some t \<Longrightarrow> ae_sha256 env t \<noteq> ae_sha256 env token"
    and "i < length rs" "recovers_with token (rs ! i)" "j < length rs" "recovers_with token (rs ! j)" "i \<noteq> j"
    and "replied (exec pass_time evs (map (serve env) rs, s)) i = Some x"
    and "replied (exec pass_time evs (map (serve env) rs, s)) j = Some y"
  shows "\<not> (succeeded x \<and> succeeded y)"
proof -
  let ?h = "ae_sha256 env token" and ?won = "\<lambda>k x. recovers_with token (rs ! k) \<and> succeeded x"
  have "rightful (one_attempt ?h) (recoverable ?h) (?won k) (map (serve env) rs ! k)" if "k < length rs" for k
  proof (cases "recovers_with token (rs ! k)")
    case True
    then obtain salt body where "rs ! k = CompleteRecovery salt body" by (cases "rs ! k") auto
    with completeRecovery_rightful [of body token env salt] True that show ?thesis by simp
  next
    case False
    then show ?thesis by (intro rightful_loses) simp
  qed
  moreover have "maintains (one_attempt ?h) (claimable (recoverable ?h)) (serve env r)" if "r \<in> set rs" for r
    by (rule serve_maintains [of _ _ "{k. k \<noteq> ?h}" UNIV]) (use assms(2) that in \<open>auto dest: step_attempts\<close>)
  ultimately show ?thesis
    using recovery.one_winner [of "map (serve env) rs" ?h ?won s evs i x j y] assms by auto
qed

subsection \<open>Invites and identities\<close>

definition invites_within :: "accounts \<Rightarrow> bool" where
  "invites_within s \<longleftrightarrow> distinct (map in_code (t_invites s)) \<and>
     (\<forall>i \<in> set (t_invites s). in_uses_count i \<le> in_max_uses i)"

definition identities_distinct :: "accounts \<Rightarrow> bool" where
  "identities_distinct s \<longleftrightarrow> distinct (map ac_id (t_users s)) \<and> distinct (map ac_handle (t_users s)) \<and>
     distinct (map ac_did (t_users s)) \<and> distinct (filter (\<lambda>e. e \<noteq> None) (map ac_email (t_users s)))"

lemma claimed_invites:
  assumes "claimInvite code email userId s = (Inr (), s')" "invites_within s"
  shows "invites_within s'"
proof -
  from assms(1) obtain row where row: "find (\<lambda>i. in_code i = code) (t_invites s) = Some row"
    "in_uses_count row < in_max_uses row"
    by (auto simp: claimInvite_def split: option.splits if_splits)
  then have r: "row \<in> set (t_invites s)" "in_code row = code" by (auto simp: find_Some_iff)
  let ?f = "claimed_row userId (in_max_uses row) (t_now s)"
  have f: "t_invites s' = map (\<lambda>i. if in_code i = code then ?f i else i) (t_invites s)"
    using assms(1) row r by (auto simp: claimInvite_def split: if_splits)
  have g: "in_code (?f i) = in_code i" "in_max_uses (?f i) = in_max_uses i"
    "in_uses_count (?f i) = in_uses_count i + 1" for i
    by (simp_all add: claimed_row_def)
  have same: "i = row" if "i \<in> set (t_invites s)" "in_code i = code" for i
    using assms(2) that r by (auto simp: invites_within_def distinct_map inj_on_def)
  have "map in_code (t_invites s') = map in_code (t_invites s)" by (simp add: f g(1) comp_def)
  moreover have "in_uses_count i \<le> in_max_uses i" if i: "i \<in> set (t_invites s')" for i
  proof -
    from i f obtain i0 where i0: "i0 \<in> set (t_invites s)" "i = (if in_code i0 = code then ?f i0 else i0)" by auto
    show ?thesis
      using i0 same [OF i0(1)] row(2) g assms(2) by (cases "in_code i0 = code") (auto simp: invites_within_def)
  qed
  ultimately show ?thesis using assms(2) by (simp add: invites_within_def)
qed

lemma step_invites:
  assumes "account_step H D s s'" "invites_within s"
  shows "invites_within s'"
  using assms(1)
proof cases
  case (InviteCreated i)
  then show ?thesis using assms(2) by (auto simp: invites_within_def insert_invite_def split: if_splits)
next
  case (Registered v s1 code email userId)
  then have "invites_within s1" using assms(2)
    by (auto simp: invites_within_def insertUserWithRole_def split: if_splits)
  then show ?thesis using Registered claimed_invites by blast
qed (use assms(2) in \<open>auto simp: invites_within_def rotate_def add_role_def remove_role_def
    delete_account_rows_def split: if_splits\<close>)

lemma step_identities:
  assumes "account_step H D s s'" "identities_distinct s"
  shows "identities_distinct s'"
  using assms(1)
proof cases
  case (Updated f)
  then have "map ac_id (t_users s') = map ac_id (t_users s)" "map ac_handle (t_users s') = map ac_handle (t_users s)"
    "map ac_did (t_users s') = map ac_did (t_users s)" "map ac_email (t_users s') = map ac_email (t_users s)"
    by (simp_all add: benign_def comp_def)
  then show ?thesis using assms(2) by (simp only: identities_distinct_def)
next
  case (Registered v s1 code email userId)
  then have "t_users s' = t_users s @ [v\<lparr>ac_approved_at :=
      (if ac_status v = ''approved'' then Some (t_now s) else None)\<rparr>]" "\<not> account_conflict s v"
    using registered_select [of v s s1 s'] by auto
  then show ?thesis using assms(2) by (auto simp: identities_distinct_def account_conflict_def)
next
  case (Deleted user)
  have "map g (filter P xs) = filter (\<lambda>_. True) (map g (filter P xs))" for g :: "account \<Rightarrow> 'b" and P xs by simp
  have d: "distinct (map g xs) \<Longrightarrow> distinct (map g (filter P xs))" for g :: "account \<Rightarrow> string" and P xs
    by (induction xs) auto
  have e: "distinct (filter Q (map g xs)) \<Longrightarrow> distinct (filter Q (map g (filter P xs)))"
    for g :: "account \<Rightarrow> string option" and P Q xs
    by (induction xs) auto
  show ?thesis using assms(2) Deleted by (simp add: identities_distinct_def delete_account_rows_def d e)
qed (use assms(2) in \<open>auto simp: identities_distinct_def rotate_def add_role_def remove_role_def
    insert_invite_def split: if_splits\<close>)

definition accounts_ok :: "accounts \<Rightarrow> bool" where
  "accounts_ok s \<longleftrightarrow> invites_within s \<and> identities_distinct s"

interpretation tables: stable accounts_ok "\<lambda>_ _. True" pass_time
  by unfold_locales (auto simp: accounts_ok_def invites_within_def identities_distinct_def pass_time_def)

text \<open>
  C28. No invite is claimed more often than it may be, and no two accounts share an identifier, a
  handle, a DID or an address, whatever requests run together.
\<close>

theorem accounts_stay_ok:
  assumes "accounts_ok s"
  shows "accounts_ok (snd (exec pass_time evs (map (serve env) rs, s)))"
proof -
  have "maintains accounts_ok (\<lambda>_ _. True) (serve env r)" for r
    by (rule serve_maintains [of _ _ UNIV UNIV]) (auto simp: accounts_ok_def dest: step_invites step_identities)
  then show ?thesis
    using tables.exec_maintains [of "(map (serve env) rs, s)" evs] assms by simp
qed

subsection \<open>One request at a time\<close>

definition has_admin :: "accounts \<Rightarrow> bool" where
  "has_admin s \<longleftrightarrow> ''admin'' \<in> snd ` set (t_roles s)"

lemma alone_each: "alone (each (\<lambda>x. change (f x)) xs) s = (Inr (), fold f xs s)"
  by (induction xs arbitrary: s) (simp_all add: alone_simps)

lemma roles_added: "set (t_roles s) \<subseteq> set (t_roles (fold (add_role i) rs s))"
  by (induction rs arbitrary: s) (fastforce simp: add_role_def)+

lemma roles_removed:
  "set (t_roles (fold (remove_role i) rs s)) = set (t_roles s) - {i} \<times> set rs"
  by (induction rs arbitrary: s) (auto simp: remove_role_def)

lemma admin_remains_of:
  assumes "has_admin s"
  shows "has_admin (snd (alone (update_roles_of a toAdd toRemove user) s))"
proof -
  let ?s1 = "fold (remove_role (ac_id user)) toRemove (fold (add_role (ac_id user)) toAdd s)"
  have keep: "has_admin ?s1" if "''admin'' \<in> set toRemove \<Longrightarrow> other_admins (ac_id user) s \<noteq> 0"
  proof (cases "''admin'' \<in> set toRemove")
    case True
    with that obtain k where "(k, ''admin'') \<in> set (t_roles s)" "k \<noteq> ac_id user"
      by (auto simp: other_admins_def filter_empty_conv)
    then have "(k, ''admin'') \<in> set (t_roles ?s1)"
      using roles_added [of s "ac_id user" toAdd] by (auto simp: roles_removed)
    then show ?thesis by (force simp: has_admin_def)
  next
    case False
    obtain k where "(k, ''admin'') \<in> set (t_roles s)" using assms by (auto simp: has_admin_def)
    then have "(k, ''admin'') \<in> set (t_roles ?s1)"
      using roles_added [of s "ac_id user" toAdd] False by (auto simp: roles_removed)
    then show ?thesis by (force simp: has_admin_def)
  qed
  show ?thesis
    using assms keep
    by (auto simp: update_roles_of_def alone_simps alone_each has_admin_def on_user_def
        split: prod.split sum.split)
qed

text \<open>
  C29. Requests that run one after another never remove the last administrator by changing roles.
\<close>

theorem an_admin_remains:
  assumes "has_admin s"
  shows "has_admin (snd (alone (updateRoles req) s))"
proof -
  have "settles has_admin (updateRoles req)"
    unfolding updateRoles_def by (intro settles_rules) (rule settlesI, rule admin_remains_of)
  with assms show ?thesis by (simp add: settles_def)
qed

text \<open>
  A password that was changed ends every session of the account, when nothing runs in between.
\<close>

lemma find_updated:
  "(\<And>u. ac_id (f u) = ac_id u) \<Longrightarrow>
   find (\<lambda>u. ac_id u = i) (map (\<lambda>u. if ac_id u = i then f u else u) us) =
   map_option f (find (\<lambda>u. ac_id u = i) us)"
  by (induction us) auto

lemma find_user_on_user: "benign f \<Longrightarrow> find_user i (on_user i f s) = map_option f (find_user i s)"
  by (simp add: find_user_def on_user_def benign_def find_updated)

text \<open>
  A changed password ends every session of the user and raises the token version.
\<close>

theorem changed_password_ends_sessions:
  assumes "alone (changePassword env salt req) s = (r, s')" "succeeded r"
    and "requireAuth req = Inr a" "find_user (a_userId a) s = Some u"
  shows "(\<forall>x \<in> set (t_sessions s'). se_user_id x \<noteq> a_userId a) \<and>
    map_option ac_token_version (find_user (a_userId a) s') = Some (ac_token_version u + 1)"
proof -
  obtain h where s': "t_users s' = t_users (on_user (a_userId a) (set_password h) s)"
    "t_sessions s' = filter (\<lambda>x. se_user_id x \<noteq> a_userId a) (t_sessions s)"
    using assms(1-3)
    by (auto simp: changePassword_def alone_simps Let_def split: if_splits option.splits sum.splits prod.splits)
  then have "find_user (a_userId a) s' = map_option (set_password h) (find_user (a_userId a) s)"
    using find_user_on_user [of "set_password h" "a_userId a" s] by (simp add: find_user_def)
  then show ?thesis using assms(4) s' by (simp add: set_password_def)
qed

subsection \<open>Suspension\<close>

definition subject_request :: "auth \<Rightarrow> string \<Rightarrow> bool \<Rightarrow> request" where
  "subject_request a did applied = \<lparr>q_auth = Some a, q_serviceAuthError = None, q_partner = None,
     q_partnerError = None, q_body = JObj [(''subject'', JObj [(''did'', JStr did)]),
       (''deactivated'', JObj [(''applied'', JBool applied)])]\<rparr>"

text \<open>
  Suspending an account and lifting the suspension approves it, whatever it was before: pending,
  rejected, or deactivated by its user, also when the user has moved to another server.
  Activation asks the PLC directory first; this way back does not.
\<close>

lemma set_account_status_select [simp]:
  "ac_id (set_account_status st t by r u) = ac_id u" "ac_did (set_account_status st t by r u) = ac_did u"
  "ac_status (set_account_status st t by r u) = st"
  by (simp_all add: set_account_status_def)

lemma find_did_on_user:
  "find (\<lambda>u. ac_did u = did) (t_users s) = Some u \<Longrightarrow> benign f \<Longrightarrow>
   find (\<lambda>u. ac_did u = did) (t_users (on_user (ac_id u) f s)) = Some (f u)"
  by (simp add: on_user_def find_map_same benign_def)

lemma subject_request_alone:
  assumes "''moderator'' \<in> set (a_roles a)" "find (\<lambda>u. ac_did u = did) (t_users s) = Some u" "did \<noteq> []"
    and "''admin'' \<notin> set (user_roles s (ac_id u))"
    and "status = (if applied then ''suspended'' else ''approved'')"
    and "if applied then ac_status u \<notin> {''suspended'', ''takendown''} else ac_status u = ''suspended''"
  obtains s' t by' r where "snd (alone (updateSubjectStatus (subject_request a did applied)) s) = s'"
    "t_users s' = t_users (on_user (ac_id u) (set_account_status status t by' r) s)" "t_roles s' = t_roles s"
  using assms
  by (auto simp: updateSubjectStatus_def requireRole_def requireAuth_def subject_request_def moderate_subject_def
      apply_deactivated_def moderate_def alone_simps jdot_def Let_def split: if_splits option.splits)

text \<open>
  C30. Suspending an account that is not the approved kind and lifting the suspension makes it approved:
  one that its owner had deactivated, one still waiting for approval, one that moved in and whose
  DID was never checked, as \<open>activateAccount\<close> would.
\<close>

theorem unsuspension_approves:
  assumes "''moderator'' \<in> set (a_roles a)" "find (\<lambda>u. ac_did u = did) (t_users s) = Some u" "did \<noteq> []"
    and "''admin'' \<notin> set (user_roles s (ac_id u))" "ac_status u \<notin> {''suspended'', ''takendown''}"
  shows "map_option ac_status (find (\<lambda>u. ac_did u = did) (t_users
    (snd (alone (updateSubjectStatus (subject_request a did False))
      (snd (alone (updateSubjectStatus (subject_request a did True)) s)))))) = Some ''approved''"
proof -
  obtain s1 t b r where s1: "snd (alone (updateSubjectStatus (subject_request a did True)) s) = s1"
    "t_users s1 = t_users (on_user (ac_id u) (set_account_status ''suspended'' t b r) s)" "t_roles s1 = t_roles s"
    by (rule subject_request_alone [OF assms(1-4), of "''suspended''" True]) (use assms(5) in simp_all)
  then have u1: "find (\<lambda>u. ac_did u = did) (t_users s1) = Some (set_account_status ''suspended'' t b r u)"
    using find_did_on_user [OF assms(2)] by simp
  obtain s2 t' b' r' where s2: "snd (alone (updateSubjectStatus (subject_request a did False)) s1) = s2"
    "t_users s2 = t_users (on_user (ac_id u) (set_account_status ''approved'' t' b' r') s1)"
    by (rule subject_request_alone [OF assms(1) u1 assms(3), of "''approved''" False])
      (use assms(4) s1(3) in \<open>simp_all add: user_roles_def\<close>)
  then show ?thesis
    using find_did_on_user [OF u1] s1(1) by simp
qed

subsection \<open>What the order of statements lets happen\<close>

definition asking :: "string \<Rightarrow> string list \<Rightarrow> (string \<times> jv) list \<Rightarrow> request" where
  "asking userId roles body = \<lparr>q_auth = Some \<lparr>a_userId = userId, a_did = ''did:'' @ userId, a_handle = userId,
      a_status = ''approved'', a_roles = roles, a_emailVerified = None\<rparr>,
     q_serviceAuthError = None, q_partner = None, q_partnerError = None, q_body = JObj body\<rparr>"

definition sign_in_late :: account_request where
  "sign_in_late = SignIn ''new'' ''s2'' (JObj [(''identifier'', JStr ''u''), (''password'', JStr ''old'')]) JNull"

definition change_it :: account_request where
  "change_it = ChangePassword ''salt'' (asking ''u'' [''user'']
     [(''currentPassword'', JStr ''old''), (''newPassword'', JStr ''Newpass123!'')])"

text \<open>
  A sign-in that has read the old password hash when the password changes opens its session
  after the sessions were deleted. The session lives, and its refresh token gives new tokens.
\<close>

theorem old_password_outlives_change:
  "let p = exec pass_time (replicate 3 (Run 0) @ replicate 9 (Run 1) @ replicate 9 (Run 0))
             (map (serve sample_auth) [sign_in_late, change_it], sample_accounts)
   in map_option succeeded (replied p 0) = Some True \<and> map_option succeeded (replied p 1) = Some True \<and>
      map_option ac_password_hash (find_user ''u'' (snd p)) = Some (Some ''#Newpass123!'') \<and>
      succeeded (fst (alone (refreshSession sample_auth ''newer'' (JObj [(''refreshJwt'', JStr ''new'')]) None)
                       (snd p)))"
  by code_simp

definition reset_to :: "string \<Rightarrow> account_request" where
  "reset_to password = ConfirmReset ''salt'' (JObj [(''token'', JStr ''t''), (''newPassword'', JStr password)])"

text \<open>
  The token of a password reset is read in one statement and marked as used in a later one: two
  requests that both read it first both set their password. A recovery token cannot be used twice.
\<close>

theorem reset_token_used_twice:
  "let p = exec pass_time (Run 0 # replicate 9 (Run 1) @ replicate 9 (Run 0))
             (map (serve sample_auth) [reset_to ''Newpass123!'', reset_to ''Otherpass123!''], sample_accounts)
   in map_option succeeded (replied p 0) = Some True \<and> map_option succeeded (replied p 1) = Some True \<and>
      map_option ac_password_hash (find_user ''u'' (snd p)) = Some (Some ''#Newpass123!'')"
  by code_simp

definition demote :: "string \<Rightarrow> string \<Rightarrow> account_request" where
  "demote byUser user = UpdateRoles (asking byUser [''admin'']
     [(''did'', JStr (''did:'' @ user)), (''removeRoles'', JArr [JStr ''admin''])])"

text \<open>
  Two administrators who remove each other at the same time are both told that another one
  remains, and none does.
\<close>

theorem administrators_remove_each_other:
  "let p = exec pass_time (replicate 2 (Run 0) @ replicate 9 (Run 1) @ replicate 9 (Run 0))
             (map (serve sample_auth) [demote ''u'' ''v'', demote ''v'' ''u''], sample_accounts)
   in has_admin sample_accounts \<and> map_option succeeded (replied p 0) = Some True \<and>
      map_option succeeded (replied p 1) = Some True \<and> \<not> has_admin (snd p)"
  by code_simp

subsection \<open>Witnesses\<close>

definition recover_to :: "string \<Rightarrow> account_request" where
  "recover_to password = CompleteRecovery ''salt'' (JObj [(''token'', JStr ''t''), (''newPassword'', JStr password)])"

definition recovering_accounts :: accounts where
  "recovering_accounts = sample_accounts\<lparr>t_recoveries := [\<lparr>ra_id = ''r'', ra_user_did = ''did:u'', ra_tier = 1,
     ra_status = ''pending'', ra_token_hash = ''#t'', ra_expires_at = 1000, ra_completed_at = None,
     ra_initiated_by = ''u@x.y''\<rparr>]\<rparr>"

theorem recovery_token_used_once_witness:
  "let p = exec pass_time (concat (replicate 5 [Run 0, Run 1]))
             (map (serve sample_auth) [recover_to ''Newpass123!'', recover_to ''Otherpass123!''], recovering_accounts)
   in \<exists>x y. replied p 0 = Some x \<and> replied p 1 = Some y \<and> succeeded x \<and> \<not> succeeded y"
proof -
  let ?p = "exec pass_time (concat (replicate 5 [Run 0, Run 1]))
     (map (serve sample_auth) [recover_to ''Newpass123!'', recover_to ''Otherpass123!''], recovering_accounts)"
  have "map_option succeeded (replied ?p 0) = Some True" "replied ?p 1 \<noteq> None" by code_simp+
  then obtain x y where xy: "replied ?p 0 = Some x" "succeeded x" "replied ?p 1 = Some y" by auto
  have "one_attempt (ae_sha256 sample_auth ''t'') recovering_accounts"
    by (simp add: one_attempt_def recovering_accounts_def)
  then have "\<not> (succeeded x \<and> succeeded y)"
    by (rule recovery_token_used_once [where i = 0 and j = 1, OF _ _ _ _ _ _ _ xy(1,3)])
      (auto simp: recover_to_def)
  then show ?thesis using xy by auto
qed

theorem accounts_stay_ok_witness:
  "accounts_ok (snd (exec pass_time (replicate 9 (Run 1)) (map (serve sample_auth) [sign_in_late, change_it], sample_accounts)))"
  by (rule accounts_stay_ok) (simp add: accounts_ok_def invites_within_def identities_distinct_def
      sample_accounts_def sample_account_def)

theorem an_admin_remains_witness:
  "has_admin (snd (alone (updateRoles (asking ''u'' [''admin''] [(''did'', JStr ''did:v''),
     (''removeRoles'', JArr [JStr ''admin''])])) sample_accounts))"
  by (rule an_admin_remains) (simp add: has_admin_def sample_accounts_def)

theorem changed_password_ends_sessions_witness:
  "\<forall>x \<in> set (t_sessions (snd (alone (serve sample_auth change_it) sample_accounts))). se_user_id x \<noteq> ''u''"
proof -
  let ?req = "asking ''u'' [''user''] [(''currentPassword'', JStr ''old''), (''newPassword'', JStr ''Newpass123!'')]"
  have "succeeded (fst (alone (changePassword sample_auth ''salt'' ?req) sample_accounts))" by code_simp
  then obtain r s' where rs: "alone (changePassword sample_auth ''salt'' ?req) sample_accounts = (r, s')" "succeeded r"
    by (cases "alone (changePassword sample_auth ''salt'' ?req) sample_accounts") simp
  have req: "requireAuth ?req = Inr \<lparr>a_userId = ''u'', a_did = ''did:u'', a_handle = ''u'',
      a_status = ''approved'', a_roles = [''user''], a_emailVerified = None\<rparr>"
    by (simp add: requireAuth_def asking_def)
  have "find_user ''u'' sample_accounts = Some (sample_account ''u'')"
    by (simp add: find_user_def sample_accounts_def sample_account_def)
  with changed_password_ends_sessions [OF rs req] show ?thesis
    by (simp add: change_it_def rs(1))
qed

definition moved_accounts :: accounts where
  "moved_accounts = sample_accounts\<lparr>t_users := [(sample_account ''m'')\<lparr>ac_status := ''deactivated''\<rparr>]\<rparr>"

definition moderator :: auth where
  "moderator = \<lparr>a_userId = ''v'', a_did = ''did:v'', a_handle = ''v'', a_status = ''approved'',
     a_roles = [''moderator''], a_emailVerified = None\<rparr>"

theorem unsuspension_approves_witness:
  "map_option ac_status (find (\<lambda>u. ac_did u = ''did:m'') (t_users
    (snd (alone (updateSubjectStatus (subject_request moderator ''did:m'' False))
      (snd (alone (updateSubjectStatus (subject_request moderator ''did:m'' True)) moved_accounts)))))) = Some ''approved''"
  by (rule unsuspension_approves [where u = "(sample_account ''m'')\<lparr>ac_status := ''deactivated''\<rparr>"])
    (simp_all add: moderator_def moved_accounts_def sample_account_def sample_accounts_def user_roles_def)

end
