(* ===== verification/Effects.thy ===== *)
theory Effects
  imports Interleaving
begin

text \<open>
  Effects that happen at most once. A request may have its effect only after a statement by
  which it claims something that can be claimed once; whatever the schedule, the requests of a
  pool then have at most one effect between them.
\<close>

text \<open>A statement whose result the rest of the request knows something about.\<close>

lemma maintains_sql_then:
  assumes "\<And>s. R s s" "\<And>s x s'. I s \<Longrightarrow> f s = Inr (x, s') \<Longrightarrow> I s' \<and> R s s' \<and> maintains I R (k x)"
  shows "maintains I R (andThen (sql f) k)"
  using assms by (auto simp: andThen_def graft_sql split: sum.split)

subsection \<open>How often a request has an effect\<close>

text \<open>\<open>spends I effects n t\<close>: the statements of \<open>t\<close> raise the count \<open>effects\<close> by at most \<open>n\<close>.\<close>

primrec spends :: "('s \<Rightarrow> bool) \<Rightarrow> ('s \<Rightarrow> nat) \<Rightarrow> ('s, 'e, 'a) act \<Rightarrow> nat \<Rightarrow> bool" where
  "spends I effects (Finished x) = (\<lambda>n. True)"
| "spends I effects (Reading f) = (\<lambda>n. \<forall>s. spends I effects (f s) n)"
| "spends I effects (Statement f h) = (\<lambda>n. (\<forall>e. spends I effects (h e) n) \<and>
     (\<forall>s. I s \<longrightarrow> (case map_prod (spends I effects) id (f s) of (b, s') \<Rightarrow>
        effects s' \<le> effects s + n \<and> b (n - (effects s' - effects s)) \<and>
        (\<forall>e. spends I effects (h e) (n - (effects s' - effects s))))))"

lemma spends_Statement [simp]:
  "spends I effects (Statement f h) n \<longleftrightarrow> (\<forall>e. spends I effects (h e) n) \<and>
   (\<forall>s. I s \<longrightarrow> effects (snd (f s)) \<le> effects s + n \<and>
      spends I effects (fst (f s)) (n - (effects (snd (f s)) - effects s)) \<and>
      (\<forall>e. spends I effects (h e) (n - (effects (snd (f s)) - effects s))))"
  by (simp add: map_prod_def split_beta)

declare spends.simps(3) [simp del]

lemma spends_mono: "spends I effects t n \<Longrightarrow> n \<le> m \<Longrightarrow> spends I effects t m"
proof (induction t arbitrary: n m rule: act_induct)
  case (Statement f h)
  show ?case
    unfolding spends_Statement
  proof (intro conjI allI impI)
    fix e show "spends I effects (h e) m" using Statement.prems Statement.IH(2) by (meson spends_Statement)
  next
    fix s assume s: "I s"
    let ?d = "effects (snd (f s)) - effects s"
    from Statement.prems s have *: "effects (snd (f s)) \<le> effects s + n" "spends I effects (fst (f s)) (n - ?d)"
      "\<And>e. spends I effects (h e) (n - ?d)" by auto
    from * Statement.prems show "effects (snd (f s)) \<le> effects s + m" by simp
    show "spends I effects (fst (f s)) (m - ?d)"
      using Statement.IH(1) * Statement.prems by (meson diff_le_mono)
    fix e show "spends I effects (h e) (m - ?d)"
      using Statement.IH(2) * Statement.prems by (meson diff_le_mono)
  qed
qed auto

lemma spends_graft:
  assumes "spends I effects m n" "\<And>x. spends I effects (k x) 0"
  shows "spends I effects (graft m k) n"
  using assms
proof (induction m arbitrary: n rule: act_induct)
  case (Finished x)
  then show ?case using spends_mono by fastforce
next
  case (Statement f h)
  then show ?case by auto
qed auto

named_theorems spends_rules
  \<open>how often the parts of a request have an effect\<close>

lemma spends_basic [spends_rules]: "spends I effects (done_with x) n" "spends I effects (raise e) n"
  "spends I effects (lifted r) n" "spends I effects (reading f) n" "spends I effects (Finished y) n"
  by (simp_all add: done_with_def raise_def lifted_def reading_def)

lemma spends_andThen [spends_rules]:
  "spends I effects m n \<Longrightarrow> (\<And>x. spends I effects (k x) 0) \<Longrightarrow> spends I effects (andThen m k) n"
  unfolding andThen_def by (rule spends_graft) (auto split: sum.split)

lemma spends_sql [spends_rules]:
  assumes "\<And>s x s'. I s \<Longrightarrow> f s = Inr (x, s') \<Longrightarrow> effects s' = effects s"
  shows "spends I effects (sql f) n"
  using assms by (auto simp: sql_def split: sum.split)

lemma spends_fetch [spends_rules]: "spends I effects (fetch f) n"
  unfolding fetch_def by (rule spends_sql) auto

subsection \<open>Requests that claim before their effect\<close>

text \<open>
  \<open>lawful I claim effects t\<close>: no statement of \<open>t\<close> has an effect before one of them has
  taken the claim, and from then on \<open>t\<close> has at most one.
\<close>

primrec lawful :: "('s \<Rightarrow> bool) \<Rightarrow> ('s \<Rightarrow> bool) \<Rightarrow> ('s \<Rightarrow> nat) \<Rightarrow> ('s, 'e, 'a) act \<Rightarrow> bool" where
  "lawful I claim effects (Finished x) = True"
| "lawful I claim effects (Reading f) = (\<forall>s. lawful I claim effects (f s))"
| "lawful I claim effects (Statement f h) = ((\<forall>e. lawful I claim effects (h e)) \<and>
     (\<forall>s. I s \<longrightarrow> (case map_prod (\<lambda>t. (lawful I claim effects t, spends I effects t 1)) id (f s) of ((b, w), s') \<Rightarrow>
        effects s' = effects s \<and> (b \<or> claim s \<and> \<not> claim s' \<and> w))))"

lemma lawful_Statement [simp]:
  "lawful I claim effects (Statement f h) \<longleftrightarrow> (\<forall>e. lawful I claim effects (h e)) \<and>
   (\<forall>s. I s \<longrightarrow> effects (snd (f s)) = effects s \<and>
      (lawful I claim effects (fst (f s)) \<or> claim s \<and> \<not> claim (snd (f s)) \<and> spends I effects (fst (f s)) 1))"
  by (simp add: map_prod_def split_beta)

declare lawful.simps(3) [simp del]

lemma lawful_basic: "lawful I claim effects (done_with x)" "lawful I claim effects (raise e)"
  "lawful I claim effects (lifted r)" "lawful I claim effects (Finished y)"
  by (simp_all add: done_with_def raise_def lifted_def)

lemma lawful_reading:
  "(\<And>s. lawful I claim effects (k (f s))) \<Longrightarrow> lawful I claim effects (andThen (reading f) k)"
  by (simp add: andThen_def reading_def)

lemma lawful_lifted:
  "(\<And>x. r = Inr x \<Longrightarrow> lawful I claim effects (k x)) \<Longrightarrow> lawful I claim effects (andThen (lifted r) k)"
  by (auto simp: andThen_def lifted_def split: sum.split)

lemma lawful_sql:
  assumes "\<And>s x s'. I s \<Longrightarrow> f s = Inr (x, s') \<Longrightarrow> effects s' = effects s \<and>
    (lawful I claim effects (k x) \<or> claim s \<and> \<not> claim s' \<and> spends I effects (k x) 1)"
  shows "lawful I claim effects (andThen (sql f) k)"
  using assms by (auto simp: andThen_def graft_sql split: sum.split)

lemma lawful_fetch:
  "(\<And>s. I s \<Longrightarrow> lawful I claim effects (k (f s))) \<Longrightarrow> lawful I claim effects (andThen (fetch f) k)"
  unfolding fetch_def by (rule lawful_sql) auto

definition one_lawful_short :: "('s \<Rightarrow> bool) \<Rightarrow> ('s \<Rightarrow> bool) \<Rightarrow> ('s \<Rightarrow> nat) \<Rightarrow> nat \<Rightarrow> ('s, 'e, 'a) pool \<Rightarrow> bool" where
  "one_lawful_short I claim effects c p \<longleftrightarrow>
     (\<forall>i < length (fst p). lawful I claim effects (fst p ! i)) \<and> effects (snd p) = c \<or>
     \<not> claim (snd p) \<and> (\<exists>k < length (fst p). \<exists>n.
        (\<forall>i < length (fst p). i \<noteq> k \<longrightarrow> lawful I claim effects (fst p ! i)) \<and>
        spends I effects (fst p ! k) n \<and> effects (snd p) + n \<le> c + 1)"

locale one_effect = one_claim I claim el
  for I claim :: "'s \<Rightarrow> bool" and el :: "nat \<Rightarrow> 's \<Rightarrow> 's" +
  fixes effects :: "'s \<Rightarrow> nat"
  assumes time_passes: "effects (el n s) = effects s"
begin

lemma lawful_go_on:
  assumes "lawful I claim effects t" "I s"
  shows "effects (snd (go_on t s)) = effects s"
    and "lawful I claim effects (fst (go_on t s)) \<or>
      claim s \<and> \<not> claim (snd (go_on t s)) \<and> spends I effects (fst (go_on t s)) 1"
  using assms by (cases t; auto)+

lemma lawful_failing [simp]: "lawful I claim effects t \<Longrightarrow> lawful I claim effects (failing e t)"
  by (cases t) simp_all

lemma spends_go_on:
  assumes "spends I effects t n" "I s"
  shows "effects (snd (go_on t s)) \<le> effects s + n"
    and "spends I effects (fst (go_on t s)) (n - (effects (snd (go_on t s)) - effects s))"
    and "spends I effects (failing e t) (n - (effects (snd (go_on t s)) - effects s))"
    and "spends I effects (failing e t) n"
  using assms by (cases t; auto)+

text \<open>How one event moves the pool: only one request changes, and the others' knowledge stays.\<close>

lemma happen_one_lawful_short:
  assumes "one_lawful_short I claim effects c p"
    and "\<forall>t \<in> set (fst p). maintains I (claimable claim) t" "I (snd p)"
  shows "one_lawful_short I claim effects c (happen el v p)"
proof -
  obtain ts s where p: "p = (ts, s)" by (cases p)
  have I: "I s" using assms(3) p by simp
  show ?thesis
  proof (cases rule: happen_cases [of v ts s])
    case (state s')
    then have "\<not> claim s \<Longrightarrow> \<not> claim s'" "effects s' = effects s"
      using waits [of s] I time_passes by (auto simp: claimable_def)
    then show ?thesis using state(1) assms(1) p by (auto simp: one_lawful_short_def)
  next
    case (thread i t' s')
    have quiet: "\<not> claim s \<Longrightarrow> \<not> claim s'"
      using go_on_maintains [of "ts ! i" s] assms p thread by (auto simp: claimable_def)
    have step: "effects s' = effects s \<and> (lawful I claim effects t' \<or> claim s \<and> \<not> claim s' \<and> spends I effects t' 1)"
      if "lawful I claim effects (ts ! i)"
      using lawful_go_on [OF that I] that thread(3) by auto
    have spend: "\<exists>m. spends I effects t' m \<and> effects s' + m \<le> effects s + n"
      if "spends I effects (ts ! i) n" for n
    proof -
      note w = spends_go_on [OF that I]
      let ?s = "snd (go_on (ts ! i) s)"
      have "effects ?s + (n - (effects ?s - effects s)) \<le> effects s + n" using w(1) by simp
      with w(2-4) thread(3) show ?thesis
        by (metis order_refl)
    qed
    show ?thesis
    proof (cases "(\<forall>j < length ts. lawful I claim effects (ts ! j)) \<and> effects s = c")
      case True
      with step thread(2) have "effects s' = c" by simp
      from True step thread(2) consider "lawful I claim effects t'"
        | "\<not> claim s'" "spends I effects t' 1" by blast
      then show ?thesis
      proof cases
        case 1
        with True \<open>effects s' = c\<close> thread p show ?thesis
          by (auto simp: one_lawful_short_def nth_list_update)
      next
        case 2
        with True \<open>effects s' = c\<close> thread p show ?thesis
          unfolding one_lawful_short_def
          by (intro disjI2 conjI exI [of _ i] exI [of _ 1]) (auto simp: nth_list_update)
      qed
    next
      case False
      with assms(1) p obtain k n where k: "\<not> claim s" "k < length ts"
        "\<And>j. j < length ts \<Longrightarrow> j \<noteq> k \<Longrightarrow> lawful I claim effects (ts ! j)"
        "spends I effects (ts ! k) n" "effects s + n \<le> c + 1"
        by (auto simp: one_lawful_short_def)
      have "\<not> claim s'" using quiet k(1) .
      show ?thesis
      proof (cases "i = k")
        case True
        with spend k(4) obtain m where "spends I effects t' m" "effects s' + m \<le> effects s + n" by auto
        with True k \<open>\<not> claim s'\<close> thread p show ?thesis
          unfolding one_lawful_short_def
          by (intro disjI2 conjI exI [of _ k] exI [of _ m]) (auto simp: nth_list_update)
      next
        case False
        with step k thread(2) have "effects s' = effects s" "lawful I claim effects t'" by blast+
        with False k \<open>\<not> claim s'\<close> thread p show ?thesis
          unfolding one_lawful_short_def
          by (intro disjI2 conjI exI [of _ k] exI [of _ n]) (auto simp: nth_list_update)
      qed
    qed
  qed
qed

lemma exec_one_lawful_short:
  assumes "one_lawful_short I claim effects c p"
    and "\<forall>t \<in> set (fst p). maintains I (claimable claim) t" "I (snd p)"
  shows "one_lawful_short I claim effects c (exec el evs p)"
  using assms
proof (induction evs arbitrary: p)
  case (Cons v evs)
  from happen_one_lawful_short [OF Cons.prems] happen_maintains [OF Cons.prems(2,3)] Cons.IH
  show ?case by simp
qed simp

lemma at_most_one_effect:
  assumes "\<forall>t \<in> set ts. lawful I claim effects t" "\<forall>t \<in> set ts. maintains I (claimable claim) t" "I s"
  shows "effects (snd (exec el evs (ts, s))) \<le> effects s + 1"
proof -
  have "one_lawful_short I claim effects (effects s) (exec el evs (ts, s))"
    using assms by (intro exec_one_lawful_short) (auto simp: one_lawful_short_def)
  then show ?thesis by (auto simp: one_lawful_short_def)
qed

end

end
