(* ===== verification/OracleAudit.thy ===== *)
theory OracleAudit
  imports Enforcement Handles Effects
begin

text \<open>
  The chain module, \<^verbatim>\<open>src/modules/chain\<close>: oracle credentials, the proof a change of an on-chain
  community has to carry, the audit row that reserves the proof before the change
  (\<^verbatim>\<open>oracle-mutation-audit.ts\<close>), and the authority the module registers with governance
  (\<^verbatim>\<open>oracle-auth.ts\<close>). Requests run as a pool of statements; the reservation holds an advisory
  lock and is one step.

  Hashing, \<open>JSON.stringify\<close> and the content identifier of a record are parameters.
\<close>

subsection \<open>State\<close>

record oracle_ctx =
  oc_credentialId :: string
  oc_communityDid :: string
  oc_name :: string

text \<open>A row of \<open>audit_log\<close>; the metadata are JSON, \<open>JUndef\<close> for SQL \<open>NULL\<close>.\<close>

record oracle_row =
  oa_id :: nat
  oa_action :: string
  oa_actor :: string
  oa_target :: string
  oa_meta :: jv

record oracle_credential =
  ocr_id :: string
  ocr_community_did :: string
  ocr_key_prefix :: string
  ocr_key_hash :: string
  ocr_name :: jv
  ocr_created_by :: string
  ocr_status :: string
  ocr_allowed_origins :: "jv option"
  ocr_proofs_submitted :: nat
  ocr_last_used_at :: "int option"
  ocr_revoked_at :: "int option"

text \<open>A row of \<open>proof_verifications\<close>.\<close>

record proof_row =
  pv_community :: string
  pv_chain :: string
  pv_hash :: string
  pv_block :: "int option"
  pv_contract :: "string option"
  pv_verified :: bool
  pv_error :: "string option"
  pv_blockTimestamp :: "int option"
  pv_confirmations :: "int option"
  pv_verified_at :: int

record 'w oracle_state =
  od_now :: int
  od_rows :: "oracle_row list"
  od_serial :: nat
  od_credentials :: "oracle_credential list"
  od_communities :: "string list"
  od_proofs :: "proof_row list"
  od_world :: 'w

record oracle_env =
  oe_sha256 :: "string \<Rightarrow> string"
  oe_stringify :: "jv \<Rightarrow> string"
  oe_cid :: "jv \<Rightarrow> exn + string"

definition oracle_time :: "nat \<Rightarrow> 'w oracle_state \<Rightarrow> 'w oracle_state" where
  "oracle_time n s = s\<lparr>od_now := od_now s + int n\<rparr>"

subsection \<open>Canonical proofs\<close>

definition invalidProof :: "string \<Rightarrow> exn + 'a" where
  "invalidProof message = Inl (HttpError 400 ''InvalidRequest'' message)"

definition is_hex :: "char \<Rightarrow> bool" where
  "is_hex c \<longleftrightarrow> is_decimal c \<or> in_range CHR ''a'' CHR ''f'' c \<or> in_range CHR ''A'' CHR ''F'' c"

definition is_uuid :: "string \<Rightarrow> bool" where
  "is_uuid s \<longleftrightarrow> map length (split_char CHR ''-'' s) = [8, 4, 4, 4, 12] \<and>
     list_all (list_all is_hex) (split_char CHR ''-'' s)"

definition is_visible :: "string \<Rightarrow> bool" where
  "is_visible s \<longleftrightarrow> s \<noteq> [] \<and> list_all (\<lambda>c. 33 \<le> (of_char c :: nat) \<and> of_char c \<le> (126 :: nat)) s"

text \<open>\<open>/^0x.../i\<close>: what follows \<open>0x\<close>, if the text begins so.\<close>

definition after_0x :: "string \<Rightarrow> string option" where
  "after_0x s = (if 2 \<le> length s \<and> s ! 0 = CHR ''0'' \<and> s ! 1 \<in> {CHR ''x'', CHR ''X''} then Some (drop 2 s) else None)"

definition canonicalizeCredentialId :: "string \<Rightarrow> exn + string" where
  "canonicalizeCredentialId value = (let credentialId = js_trim value
     in if \<not> is_uuid credentialId then invalidProof ''Oracle credential ID is not a canonical UUID''
        else Inr (js_lower credentialId))"

definition canonicalizeCommunityDid :: "jv \<Rightarrow> exn + string" where
  "canonicalizeCommunityDid value = (case value of
      JStr s \<Rightarrow> (let communityDid = js_trim s
        in if take 4 communityDid \<noteq> ''did:'' \<or> length communityDid > 255 \<or> \<not> is_visible communityDid
           then invalidProof ''Oracle community DID is invalid'' else Inr communityDid)
    | _ \<Rightarrow> Inl (TypeError ''value.trim is not a function''))"

text \<open>\<open>BigInt(reference).toString()\<close>.\<close>

definition without_zeros :: "string \<Rightarrow> string" where
  "without_zeros digits = (let r = dropWhile (\<lambda>c. c = CHR ''0'') digits in if r = [] then ''0'' else r)"

definition caip2 :: "string \<Rightarrow> (string \<times> string) option" where
  "caip2 chainId =
     (let namespace = takeWhile (\<lambda>c. c \<noteq> CHR '':'') chainId; rest = dropWhile (\<lambda>c. c \<noteq> CHR '':'') chainId
      in if rest \<noteq> [] \<and> 3 \<le> length namespace \<and> length namespace \<le> 8
            \<and> list_all (\<lambda>c. is_alnum c \<or> c = CHR ''-'') namespace
            \<and> 1 \<le> length (tl rest) \<and> length (tl rest) \<le> 32
            \<and> list_all (\<lambda>c. is_alnum c \<or> c \<in> {CHR ''-'', CHR ''_''}) (tl rest)
         then Some (namespace, tl rest) else None)"

definition canonicalizeChainId :: "string \<Rightarrow> bool \<Rightarrow> exn + string" where
  "canonicalizeChainId value allowLegacyAliases =
     (let chainId = js_trim value
      in if length chainId > 64 then invalidProof ''governanceProof.chainId exceeds 64 characters''
         else (case caip2 chainId of
             None \<Rightarrow> invalidProof ''governanceProof.chainId must be a CAIP-2 identifier''
           | Some (n, reference) \<Rightarrow>
             (let namespace = js_lower n
              in if namespace = ''eip155'' then
                   (if \<not> list_all is_decimal reference
                    then invalidProof ''eip155 chain references must be decimal integers''
                    else if length reference > 1 \<and> hd reference = CHR ''0''
                    then (if \<not> allowLegacyAliases
                          then invalidProof ''eip155 chain references must not contain leading zeros''
                          else Inr (namespace @ '':'' @ without_zeros reference))
                    else Inr (namespace @ '':'' @ reference))
                 else Inr (namespace @ '':'' @ reference))))"

definition canonicalizeTransactionHash :: "string \<Rightarrow> string \<Rightarrow> bool \<Rightarrow> exn + string" where
  "canonicalizeTransactionHash value chainId allowLegacyAliases =
     (let transactionHash = js_trim value
      in if transactionHash = [] \<or> length transactionHash > 255 \<or> \<not> is_visible transactionHash
         then invalidProof ''governanceProof.transactionHash must contain 1-255 visible ASCII characters''
         else if take 7 chainId = ''eip155:'' then
           (case after_0x transactionHash of
              Some r \<Rightarrow>
                if length r = 64 \<and> list_all is_hex r then Inr (js_lower transactionHash)
                else if allowLegacyAliases \<and> r \<noteq> [] \<and> list_all (\<lambda>c. is_alnum c \<or> c = CHR ''-'') r
                then Inr (js_lower transactionHash)
                else invalidProof ''eip155 transaction hashes must be 0x-prefixed 32-byte hexadecimal values''
            | None \<Rightarrow> invalidProof ''eip155 transaction hashes must be 0x-prefixed 32-byte hexadecimal values'')
         else (case after_0x transactionHash of
             Some r \<Rightarrow> if r \<noteq> [] \<and> list_all is_hex r then Inr (js_lower transactionHash) else Inr transactionHash
           | None \<Rightarrow> Inr transactionHash))"

definition canonicalizeProofFields :: "jv \<Rightarrow> bool \<Rightarrow> exn + jv" where
  "canonicalizeProofFields value allowLegacyAliases =
     (case (is_obj value, jget value ''chainId'', jget value ''transactionHash'') of
        (True, JStr c, JStr t) \<Rightarrow>
          bindE (canonicalizeChainId c allowLegacyAliases) (\<lambda>chainId.
          bindE (canonicalizeTransactionHash t chainId allowLegacyAliases) (\<lambda>transactionHash.
          Inr (jassign value [(''chainId'', JStr chainId), (''transactionHash'', JStr transactionHash)])))
      | _ \<Rightarrow> invalidProof ''governanceProof with chainId and transactionHash is required'')"

definition parseGovernanceProof :: "jv \<Rightarrow> string \<Rightarrow> exn + string \<times> jv" where
  "parseGovernanceProof value credentialId =
     bindE (canonicalizeCredentialId credentialId) (\<lambda>i.
     bindE (canonicalizeProofFields value False) (\<lambda>proof. Inr (i, proof)))"

record oracle_audit =
  om_oracle :: oracle_ctx
  om_proof :: jv

definition prepareOracleMutationAudit ::
  "governance_result option \<Rightarrow> oracle_ctx option \<Rightarrow> jv \<Rightarrow> exn + oracle_audit option" where
  "prepareOracleMutationAudit governance oracle governanceProof =
     (case oracle of
        None \<Rightarrow> Inr None
      | Some ctx \<Rightarrow>
        if Option.bind governance gr_model \<noteq> Some (JStr ''on-chain'') then Inr None
        else bindE (parseGovernanceProof governanceProof (oc_credentialId ctx)) (\<lambda>(credentialId, proof).
             bindE (canonicalizeCommunityDid (JStr (oc_communityDid ctx))) (\<lambda>communityDid.
             Inr (Some \<lparr>om_oracle = ctx\<lparr>oc_credentialId := credentialId, oc_communityDid := communityDid\<rparr>,
                        om_proof = proof\<rparr>))))"

subsection \<open>Reserving a proof\<close>

definition hashJson :: "oracle_env \<Rightarrow> jv list \<Rightarrow> string" where
  "hashJson env xs = oe_sha256 env (oe_stringify env (JArr xs))"

definition proofReservationKey :: "oracle_env \<Rightarrow> string \<Rightarrow> jv \<Rightarrow> string" where
  "proofReservationKey env communityDid proof =
     hashJson env [JStr communityDid, jget proof ''chainId'', jget proof ''transactionHash'']"

record fingerprint =
  mf_operation :: string
  mf_repoDid :: string
  mf_collection :: string
  mf_rkey :: string
  mf_recordCid :: "string option"

definition mutationFingerprintHash :: "oracle_env \<Rightarrow> fingerprint \<Rightarrow> string" where
  "mutationFingerprintHash env f = hashJson env [JStr (mf_operation f), JStr (mf_repoDid f),
     JStr (mf_collection f), JStr (mf_rkey f), str_or_null (mf_recordCid f)]"

definition authorizationKey :: "oracle_env \<Rightarrow> string \<Rightarrow> string \<Rightarrow> string" where
  "authorizationKey env fingerprintHash proofKey = hashJson env [JStr proofKey, JStr fingerprintHash]"

definition fingerprint_json :: "fingerprint \<Rightarrow> jv" where
  "fingerprint_json f = JObj ([(''operation'', JStr (mf_operation f)), (''repoDid'', JStr (mf_repoDid f)),
     (''collection'', JStr (mf_collection f)), (''rkey'', JStr (mf_rkey f))] @
     (case mf_recordCid f of None \<Rightarrow> [] | Some c \<Rightarrow> [(''recordCid'', JStr c)]))"

record reservation =
  rs_row :: oracle_row
  rs_existing :: bool
  rs_conflicting :: bool

text \<open>\<open>stored.k === incoming.k\<close>, and the same with \<open>?? null\<close>.\<close>

definition same_field :: "jv \<Rightarrow> jv \<Rightarrow> string \<Rightarrow> bool" where
  "same_field a b k \<longleftrightarrow> jget a k = jget b k"

definition same_cid :: "jv \<Rightarrow> jv \<Rightarrow> bool" where
  "same_cid a b \<longleftrightarrow> js_nullish (jget a ''recordCid'') JNull = js_nullish (jget b ''recordCid'') JNull"

definition fingerprintsMatch :: "oracle_row \<Rightarrow> jv \<Rightarrow> bool" where
  "fingerprintsMatch row incoming =
     (let meta = oa_meta row; stored = jget meta ''mutationFingerprint'';
          fingerprint = jget incoming ''mutationFingerprint''
      in if truthy stored then
           list_all (same_field stored fingerprint) [''operation'', ''repoDid'', ''collection'', ''rkey'']
           \<and> same_cid stored fingerprint
           \<and> same_field meta incoming ''mutationFingerprintHash''
           \<and> (\<not> truthy (jget meta ''proofReservationKey'') \<or> same_field meta incoming ''authorizationKey'')
         else
           same_field meta fingerprint ''operation''
           \<and> js_or (jget meta ''oracleCommunityDid'') (JStr (oa_target row)) = jget fingerprint ''repoDid''
           \<and> same_field meta fingerprint ''collection''
           \<and> same_field meta fingerprint ''rkey''
           \<and> same_cid meta fingerprint)"

definition reservationMatchesProof :: "oracle_env \<Rightarrow> jv \<Rightarrow> oracle_row \<Rightarrow> bool" where
  "reservationMatchesProof env incoming row =
     (let meta = oa_meta row
      in if same_field meta incoming ''proofReservationKey'' then True
         else (case bindE (canonicalizeProofFields (jget meta ''proof'') True) (\<lambda>storedProof.
                    bindE (canonicalizeCommunityDid
                             (js_or (jget meta ''oracleCommunityDid'') (JStr (oa_target row)))) (\<lambda>storedCommunityDid.
                    Inr (proofReservationKey env storedCommunityDid storedProof))) of
                 Inl (_ :: exn) \<Rightarrow> False
               | Inr key \<Rightarrow> JStr key = jget incoming ''proofReservationKey''))"

text \<open>The rows of the query: of this community, with this key or from before there were keys.\<close>

definition candidate :: "oracle_env \<Rightarrow> string \<Rightarrow> string \<Rightarrow> oracle_row \<Rightarrow> bool" where
  "candidate env communityDid key row \<longleftrightarrow> oa_target row = communityDid \<and>
     oa_action row \<in> {''oracle.proofAuthorized'', ''oracle.proofApplied''} \<and> oa_meta row \<noteq> JUndef \<and>
     (json_text (oe_stringify env) (jget (oa_meta row) ''proofReservationKey'') = Some key \<or>
      map_of (entries (oa_meta row)) ''proofReservationKey'' = None)"

definition reserve_row ::
  "oracle_env \<Rightarrow> oracle_audit \<Rightarrow> string \<Rightarrow> jv \<Rightarrow> string \<Rightarrow> 'w oracle_state \<Rightarrow> exn + reservation \<times> 'w oracle_state" where
  "reserve_row env audit' communityDid meta key s =
     (let candidates = rev (sort_key oa_id (filter (candidate env communityDid key) (od_rows s)))
      in if \<exists>row \<in> set candidates. oa_meta row = JNull then Inl (TypeError ''Cannot read properties'')
         else (case filter (reservationMatchesProof env meta) candidates of
            row # rows \<Rightarrow> Inr (\<lparr>rs_row = row, rs_existing = True,
                rs_conflicting = list_ex (\<lambda>r. \<not> fingerprintsMatch r meta) (row # rows)\<rparr>, s)
          | [] \<Rightarrow>
            (let row = \<lparr>oa_id = od_serial s, oa_action = ''oracle.proofAuthorized'',
                        oa_actor = oc_credentialId (om_oracle audit'), oa_target = communityDid, oa_meta = json_clean meta\<rparr>
             in Inr (\<lparr>rs_row = row, rs_existing = False, rs_conflicting = False\<rparr>,
                     s\<lparr>od_rows := od_rows s @ [row], od_serial := Suc (od_serial s)\<rparr>))))"

definition reserveAudit ::
  "oracle_env \<Rightarrow> oracle_audit \<Rightarrow> string \<Rightarrow> jv \<Rightarrow> string \<Rightarrow> ('w oracle_state, exn, exn + reservation) act" where
  "reserveAudit env audit' communityDid meta key = sql (reserve_row env audit' communityDid meta key)"

text \<open>The update of the pending row, with the number of rows it changed.\<close>

definition apply_row :: "nat \<Rightarrow> jv \<Rightarrow> 'w oracle_state \<Rightarrow> nat \<times> 'w oracle_state" where
  "apply_row i appliedMeta s =
     (let hit = (\<lambda>row. oa_id row = i \<and> oa_action row = ''oracle.proofAuthorized'' \<and>
                       jget (oa_meta row) ''status'' = JStr ''pending'')
      in (length (filter hit (od_rows s)),
          s\<lparr>od_rows := map (\<lambda>row. if hit row
              then row\<lparr>oa_action := ''oracle.proofApplied'', oa_meta := json_clean appliedMeta\<rparr> else row) (od_rows s)\<rparr>))"

definition finalizeAudit :: "oracle_row \<Rightarrow> jv \<Rightarrow> ('w oracle_state, exn, exn + unit) act" where
  "finalizeAudit row result =
     andThen (reading od_now) (\<lambda>now.
     andThen (sql (\<lambda>s. Inr (apply_row (oa_id row)
         (jassign (oa_meta row) [(''status'', JStr ''applied''), (''appliedAt'', JStr (iso now)),
            (''result'', js_nullish result JNull)]) s))) (\<lambda>rowCount.
     if rowCount \<noteq> 1 then raise (Failure ''Failed to finalize Oracle mutation audit'') else done_with ()))"

subsection \<open>A governed change\<close>

record governed_mutation =
  gm_communityDid :: string
  gm_collection :: string
  gm_rkey :: string
  gm_action :: string
  gm_operation :: string
  gm_record :: "jv option"

definition mutation_fingerprint :: "governed_mutation \<Rightarrow> string option \<Rightarrow> fingerprint" where
  "mutation_fingerprint m recordCid = \<lparr>mf_operation = gm_operation m, mf_repoDid = gm_communityDid m,
     mf_collection = gm_collection m, mf_rkey = gm_rkey m, mf_recordCid = recordCid\<rparr>"

definition pending_meta :: "oracle_env \<Rightarrow> oracle_audit \<Rightarrow> governed_mutation \<Rightarrow> string option \<Rightarrow> int \<Rightarrow> jv" where
  "pending_meta env audit' m recordCid now =
     (let f = mutation_fingerprint m recordCid; h = mutationFingerprintHash env f;
          key = proofReservationKey env (oc_communityDid (om_oracle audit')) (om_proof audit')
      in JObj ([(''action'', JStr (gm_action m)), (''authorizationKey'', JStr (authorizationKey env h key)),
         (''authorizedAt'', JStr (iso now)), (''collection'', JStr (gm_collection m)),
         (''mutationFingerprint'', fingerprint_json f), (''mutationFingerprintHash'', JStr h),
         (''oracleCommunityDid'', JStr (oc_communityDid (om_oracle audit'))),
         (''oracleCredentialId'', JStr (oc_credentialId (om_oracle audit'))),
         (''oracleName'', JStr (oc_name (om_oracle audit'))), (''operation'', JStr (gm_operation m)),
         (''proof'', om_proof audit'), (''proofReservationKey'', JStr key)] @
        (case recordCid of None \<Rightarrow> [] | Some c \<Rightarrow> [(''recordCid'', JStr c)]) @
        [(''rkey'', JStr (gm_rkey m)), (''status'', JStr ''pending'')]))"

text \<open>After the reservation: an existing one answers, a new one lets the change run.\<close>

definition run_reserved ::
  "jv \<Rightarrow> ('w oracle_state, exn, exn + jv) act \<Rightarrow> reservation \<Rightarrow> ('w oracle_state, exn, exn + jv) act" where
  "run_reserved meta mutate r =
     (if rs_existing r then
        if rs_conflicting r \<or> \<not> fingerprintsMatch (rs_row r) meta
        then raise (HttpError 409 ''InvalidRequest'' ''bound to a different repository mutation'')
        else if oa_action (rs_row r) = ''oracle.proofApplied'' \<and> jget (oa_meta (rs_row r)) ''status'' = JStr ''applied''
        then done_with (jget (oa_meta (rs_row r)) ''result'')
        else raise (HttpError 409 ''InvalidRequest'' ''pending reconciliation'')
      else
        andThen mutate (\<lambda>result.
        andThen (finalizeAudit (rs_row r) result) (\<lambda>_.
        done_with result)))"

definition executeOracleGovernedMutation ::
  "oracle_env \<Rightarrow> oracle_audit option \<Rightarrow> governed_mutation \<Rightarrow> ('w oracle_state, exn, exn + jv) act
     \<Rightarrow> ('w oracle_state, exn, exn + jv) act" where
  "executeOracleGovernedMutation env audit' m mutate = (case audit' of
      None \<Rightarrow> mutate
    | Some au \<Rightarrow>
      if oc_communityDid (om_oracle au) \<noteq> gm_communityDid m
      then raise (HttpError 403 ''Forbidden'' ''Oracle credential does not authorize the target community'')
      else
        andThen (lifted (case gm_record m of None \<Rightarrow> Inr None | Some rec \<Rightarrow> map_sum id Some (oe_cid env rec))) (\<lambda>recordCid.
        andThen (reading (pending_meta env au m recordCid \<circ> od_now)) (\<lambda>meta.
        andThen (reserveAudit env au (gm_communityDid m) meta
                   (proofReservationKey env (oc_communityDid (om_oracle au)) (om_proof au))) (\<lambda>r.
        run_reserved meta mutate r))))"

subsection \<open>The authority the module registers\<close>

definition CHAIN_ORACLE_AUTHORITY :: string where "CHAIN_ORACLE_AUTHORITY = ''chain-oracle''"

definition toOracleContext :: "request_ctx option \<Rightarrow> oracle_ctx option" where
  "toOracleContext context = (case context of
      None \<Rightarrow> None
    | Some c \<Rightarrow> if gx_source c \<noteq> CHAIN_ORACLE_AUTHORITY then None
        else Some \<lparr>oc_credentialId = gx_credentialId c, oc_communityDid = gx_communityDid c, oc_name = gx_name c\<rparr>)"

definition getOracleContext :: "bool \<Rightarrow> oracle_ctx option \<Rightarrow> oracle_ctx option" where
  "getOracleContext enabled stored = (if \<not> enabled then None else stored)"

definition oracle_contextFor :: "bool \<Rightarrow> oracle_ctx option \<Rightarrow> request_ctx option" where
  "oracle_contextFor enabled stored = map_option (\<lambda>o'. \<lparr>gx_source = CHAIN_ORACLE_AUTHORITY,
     gx_communityDid = oc_communityDid o', gx_credentialId = oc_credentialId o', gx_name = oc_name o'\<rparr>)
     (getOracleContext enabled stored)"

text \<open>\<open>runMutation\<close>; \<open>governanceProofOf\<close> reads the body, \<open>undefined\<close> unless it is an object.\<close>

definition oracle_runMutation ::
  "oracle_env \<Rightarrow> bool \<Rightarrow> jv \<Rightarrow> request_ctx option \<Rightarrow> governance_result option \<Rightarrow> governed_mutation
     \<Rightarrow> ('w oracle_state, exn, exn + jv) act \<Rightarrow> ('w oracle_state, exn, exn + jv) act" where
  "oracle_runMutation env enabled body context governance m mutate =
     (if \<not> enabled then mutate
      else andThen (lifted (prepareOracleMutationAudit governance (toOracleContext context) (jget body ''governanceProof'')))
             (\<lambda>au. executeOracleGovernedMutation env au m mutate))"

end
