(* ===== verification/Oracles.thy ===== *)
theory Oracles
  imports OracleAudit
begin

text \<open>
  Oracle credentials and the proofs they submit, the rest of \<^verbatim>\<open>src/modules/chain\<close>:
  \<^verbatim>\<open>oracle-keys.ts\<close>, \<^verbatim>\<open>oracle-credentials.ts\<close>, \<^verbatim>\<open>proof-cache.ts\<close>, \<^verbatim>\<open>evm-adapter.ts\<close>, the middleware of
  \<^verbatim>\<open>oracle-auth.ts\<close>, and the four endpoints of the module. The node of a chain is a parameter.
\<close>

subsection \<open>Credentials\<close>

definition ORACLE_KEY_PREFIX :: string where "ORACLE_KEY_PREFIX = ''ofo_''"

definition isValidOracleKeyFormat :: "string \<Rightarrow> bool" where
  "isValidOracleKeyFormat key \<longleftrightarrow>
     take (length ORACLE_KEY_PREFIX) key = ORACLE_KEY_PREFIX \<and> length key > length ORACLE_KEY_PREFIX + 8"

text \<open>The key made of given random characters: the key, its hash, its prefix.\<close>

definition generateOracleKey :: "oracle_env \<Rightarrow> string \<Rightarrow> string \<times> string \<times> string" where
  "generateOracleKey env random = (let rawKey = ORACLE_KEY_PREFIX @ random
     in (rawKey, oe_sha256 env rawKey, take (length ORACLE_KEY_PREFIX + 12) rawKey))"

text \<open>\<open>credential.allowed_origins\<close>, if it is not empty, has to include the origin.\<close>

definition origin_allowed :: "jv option \<Rightarrow> string option \<Rightarrow> bool" where
  "origin_allowed origins origin = (case origins of
      Some (JArr os) \<Rightarrow> os = [] \<or> (case origin of None \<Rightarrow> False | Some o' \<Rightarrow> o' \<noteq> [] \<and> JStr o' \<in> set os)
    | _ \<Rightarrow> True)"

definition count_use :: "string \<Rightarrow> 'w oracle_state \<Rightarrow> 'w oracle_state" where
  "count_use i s = s\<lparr>od_credentials := map (\<lambda>c. if ocr_id c = i
     then c\<lparr>ocr_last_used_at := Some (od_now s), ocr_proofs_submitted := Suc (ocr_proofs_submitted c)\<rparr> else c)
     (od_credentials s)\<rparr>"

definition context_of_credential :: "oracle_credential \<Rightarrow> oracle_ctx" where
  "context_of_credential c = \<lparr>oc_credentialId = ocr_id c, oc_communityDid = ocr_community_did c,
     oc_name = (case ocr_name c of JStr n \<Rightarrow> n | _ \<Rightarrow> [])\<rparr>"

text \<open>The counting of a use is not waited for: its failure is swallowed.\<close>

definition verifyOracleKey ::
  "oracle_env \<Rightarrow> string \<Rightarrow> string option \<Rightarrow> ('w oracle_state, exn, exn + oracle_ctx option) act" where
  "verifyOracleKey env rawKey origin =
     (if rawKey = [] \<or> \<not> isValidOracleKeyFormat rawKey then done_with None
      else andThen (fetch (\<lambda>s. find (\<lambda>c. ocr_key_hash c = oe_sha256 env rawKey) (od_credentials s))) (\<lambda>row.
        case row of
          None \<Rightarrow> done_with None
        | Some c \<Rightarrow>
            if ocr_status c \<noteq> ''active'' \<or> \<not> origin_allowed (ocr_allowed_origins c) origin then done_with None
            else graft (change (count_use (ocr_id c))) (\<lambda>_. done_with (Some (context_of_credential c)))))"

text \<open>The middleware: the context it keeps for the request, if any. Nothing it meets is an error.\<close>

definition oracleAuthMiddleware ::
  "oracle_env \<Rightarrow> bool \<Rightarrow> jv \<Rightarrow> string option \<Rightarrow> ('w oracle_state, exn, oracle_ctx option) act" where
  "oracleAuthMiddleware env enabled header origin =
     (if \<not> enabled then Finished None
      else (case header of
          JStr rawKey \<Rightarrow> if rawKey = [] then Finished None
            else trying (verifyOracleKey env rawKey origin) (\<lambda>_. None)
        | _ \<Rightarrow> Finished None))"

definition requireOracleAuth :: "bool \<Rightarrow> oracle_ctx option \<Rightarrow> reply + oracle_ctx" where
  "requireOracleAuth enabled stored = (case getOracleContext enabled stored of
      None \<Rightarrow> Inl (err 401 ''AuthRequired'') | Some o' \<Rightarrow> Inr o')"

text \<open>\<open>auditLog\<close>, of these rows; an error is swallowed. Oracles are no pseudonyms.\<close>

definition log_oracle :: "string \<Rightarrow> string \<Rightarrow> string \<Rightarrow> jv \<Rightarrow> ('w oracle_state, exn, exn + unit) act" where
  "log_oracle action actor target meta = graft (change (\<lambda>s. s\<lparr>od_rows := od_rows s @ [\<lparr>oa_id = od_serial s,
     oa_action = action, oa_actor = actor, oa_target = target, oa_meta = json_clean meta\<rparr>],
     od_serial := Suc (od_serial s)\<rparr>)) (\<lambda>_. done_with ())"

definition createOracleCredential :: "oracle_env \<Rightarrow> string \<Rightarrow> string \<Rightarrow> request \<Rightarrow> ('w oracle_state, exn, reply) act" where
  "createOracleCredential env newId random req = trying
     (case requireRole req [''admin''] of
        Inl r \<Rightarrow> done_with r
      | Inr a \<Rightarrow>
        (let communityDid = jget (q_body req) ''communityDid''; name = jget (q_body req) ''name'';
             allowedOrigins = jget (q_body req) ''allowedOrigins''
         in if \<not> truthy communityDid \<or> \<not> truthy name then done_with (err 400 ''InvalidRequest'')
            else
              andThen (fetch (\<lambda>s. find (\<lambda>c. JStr c = communityDid) (od_communities s))) (\<lambda>community. case community of
                None \<Rightarrow> done_with (err 404 ''InvalidRequest'')
              | Some c \<Rightarrow>
                andThen (fetch (\<lambda>s. \<exists>x \<in> set (od_credentials s). ocr_community_did x = c \<and> ocr_status x = ''active'')) (\<lambda>held.
                if held then done_with (err 409 ''CredentialExists'')
                else
                  (case generateOracleKey env random of (rawKey, keyHash, keyPrefix) \<Rightarrow>
                    andThen (change (\<lambda>s. s\<lparr>od_credentials := od_credentials s @
                      [\<lparr>ocr_id = newId, ocr_community_did = c, ocr_key_prefix = keyPrefix, ocr_key_hash = keyHash,
                        ocr_name = name, ocr_created_by = a_userId a, ocr_status = ''active'',
                        ocr_allowed_origins = (if truthy allowedOrigins then Some (json_clean allowedOrigins) else None),
                        ocr_proofs_submitted = 0, ocr_last_used_at = None, ocr_revoked_at = None\<rparr>]\<rparr>)) (\<lambda>_.
                    andThen (log_oracle ''oracle.credential.create'' (a_userId a) c
                      (JObj [(''credentialId'', JStr newId), (''name'', name), (''keyPrefix'', JStr keyPrefix)])) (\<lambda>_.
                    done_with (Reply 201 (JObj [(''id'', JStr newId), (''key'', JStr rawKey),
                      (''keyPrefix'', JStr keyPrefix), (''communityDid'', JStr c), (''name'', name)])))))))))
     (\<lambda>_. err 500 ''InternalServerError'')"

definition credential_json :: "oracle_credential \<Rightarrow> jv" where
  "credential_json c = JObj [(''id'', JStr (ocr_id c)), (''communityDid'', JStr (ocr_community_did c)),
     (''keyPrefix'', JStr (ocr_key_prefix c)), (''name'', ocr_name c), (''status'', JStr (ocr_status c)),
     (''proofsSubmitted'', jnat (ocr_proofs_submitted c)),
     (''lastUsedAt'', case ocr_last_used_at c of None \<Rightarrow> JNull | Some t \<Rightarrow> JStr (iso t))]"

text \<open>The credentials are kept in the order of their creation.\<close>

definition listOracleCredentials :: "request \<Rightarrow> jv \<Rightarrow> ('w oracle_state, exn, reply) act" where
  "listOracleCredentials req communityDid = trying
     (case requireRole req [''admin''] of
        Inl r \<Rightarrow> done_with r
      | Inr _ \<Rightarrow>
        andThen (fetch (\<lambda>s. rev (filter (\<lambda>c. truthy communityDid \<longrightarrow> JStr (ocr_community_did c) = communityDid)
          (od_credentials s)))) (\<lambda>rows.
        done_with (Reply 200 (JObj [(''credentials'', JArr (map credential_json rows))]))))
     (\<lambda>_. err 500 ''InternalServerError'')"

definition revoke_credential :: "jv \<Rightarrow> 'w oracle_state \<Rightarrow> string list \<times> 'w oracle_state" where
  "revoke_credential credentialId s =
     (let hit = (\<lambda>c. JStr (ocr_id c) = credentialId \<and> ocr_status c = ''active'')
      in (map ocr_community_did (filter hit (od_credentials s)),
          s\<lparr>od_credentials := map (\<lambda>c. if hit c then c\<lparr>ocr_status := ''revoked'', ocr_revoked_at := Some (od_now s)\<rparr> else c)
             (od_credentials s)\<rparr>))"

definition revokeOracleCredential :: "request \<Rightarrow> ('w oracle_state, exn, reply) act" where
  "revokeOracleCredential req = trying
     (case requireRole req [''admin''] of
        Inl r \<Rightarrow> done_with r
      | Inr a \<Rightarrow>
        (let credentialId = jget (q_body req) ''credentialId''
         in if \<not> truthy credentialId then done_with (err 400 ''InvalidRequest'')
            else andThen (sql (\<lambda>s. Inr (revoke_credential credentialId s))) (\<lambda>communities. case communities of
                [] \<Rightarrow> done_with (err 404 ''NotFound'')
              | c # _ \<Rightarrow>
                andThen (log_oracle ''oracle.credential.revoke'' (a_userId a) c (JObj [(''credentialId'', credentialId)])) (\<lambda>_.
                done_with (Reply 200 (JObj [(''success'', JBool True)]))))))
     (\<lambda>_. err 500 ''InternalServerError'')"

subsection \<open>Proofs on an EVM chain\<close>

record governance_proof =
  gp_chainId :: string
  gp_transactionHash :: string
  gp_blockNumber :: "int option"
  gp_contractAddress :: "string option"

record verification_result =
  vr_verified :: bool
  vr_error :: "string option"
  vr_blockTimestamp :: "int option"
  vr_confirmations :: "int option"

record receipt =
  rc_status :: int
  rc_to :: "string option"
  rc_blockNumber :: int

text \<open>The answers of a node: a receipt, the time of a block, the number of the last block.\<close>

record chain_node =
  cn_receipt :: "string \<Rightarrow> exn + receipt option"
  cn_block :: "int \<Rightarrow> exn + int option"
  cn_blockNumber :: "exn + int"

definition MIN_CONFIRMATIONS :: int where "MIN_CONFIRMATIONS = 6"

definition not_verified :: "string \<Rightarrow> verification_result" where
  "not_verified message = \<lparr>vr_verified = False, vr_error = Some message, vr_blockTimestamp = None, vr_confirmations = None\<rparr>"

text \<open>The second part of the check: what \<open>catch\<close> finds, the two variables keep.\<close>

definition confirmed :: "chain_node \<Rightarrow> receipt \<Rightarrow> verification_result" where
  "confirmed node receipt = (case cn_block node (rc_blockNumber receipt) of
      Inl _ \<Rightarrow> \<lparr>vr_verified = True, vr_error = None, vr_blockTimestamp = None, vr_confirmations = None\<rparr>
    | Inr blockTimestamp \<Rightarrow>
      (case cn_blockNumber node of
         Inl _ \<Rightarrow> \<lparr>vr_verified = True, vr_error = None, vr_blockTimestamp = blockTimestamp, vr_confirmations = None\<rparr>
       | Inr currentBlock \<Rightarrow>
         (let confirmations = currentBlock - rc_blockNumber receipt + 1
          in if confirmations < MIN_CONFIRMATIONS
             then \<lparr>vr_verified = False, vr_error = Some ''confirmations required'',
                   vr_blockTimestamp = blockTimestamp, vr_confirmations = Some confirmations\<rparr>
             else \<lparr>vr_verified = True, vr_error = None,
                   vr_blockTimestamp = blockTimestamp, vr_confirmations = Some confirmations\<rparr>)))"

definition evm_verifyProof :: "chain_node \<Rightarrow> governance_proof \<Rightarrow> verification_result" where
  "evm_verifyProof node proof = (case cn_receipt node (gp_transactionHash proof) of
      Inl _ \<Rightarrow> not_verified ''RPC error''
    | Inr None \<Rightarrow> not_verified ''Transaction not found on chain''
    | Inr (Some receipt) \<Rightarrow>
      if rc_status receipt \<noteq> 1 then not_verified ''Transaction reverted (status !== 1)''
      else if (case gp_contractAddress proof of None \<Rightarrow> False
               | Some a \<Rightarrow> a \<noteq> [] \<and> map_option js_lower (rc_to receipt) \<noteq> Some (js_lower a))
      then not_verified ''Contract address mismatch''
      else if (case gp_blockNumber proof of None \<Rightarrow> False | Some b \<Rightarrow> rc_blockNumber receipt \<noteq> b)
      then not_verified ''Block number mismatch''
      else confirmed node receipt)"

subsection \<open>The cache of verdicts\<close>

definition VERIFIED_CACHE_TTL_SECONDS :: int where "VERIFIED_CACHE_TTL_SECONDS = 5 * 60"
definition NEGATIVE_CACHE_TTL_SECONDS :: int where "NEGATIVE_CACHE_TTL_SECONDS = 30"

definition same_proof :: "string \<Rightarrow> governance_proof \<Rightarrow> proof_row \<Rightarrow> bool" where
  "same_proof communityDid proof row \<longleftrightarrow> pv_community row = communityDid \<and> pv_chain row = gp_chainId proof \<and>
     pv_hash row = gp_transactionHash proof \<and> pv_block row = gp_blockNumber proof \<and> pv_contract row = gp_contractAddress proof"

definition getCachedVerification ::
  "string \<Rightarrow> governance_proof \<Rightarrow> ('w oracle_state, exn, exn + proof_row option) act" where
  "getCachedVerification communityDid proof = fetch (\<lambda>s. find (\<lambda>row. same_proof communityDid proof row \<and>
     pv_verified_at row > od_now s - 1000 *
       (if pv_verified row then VERIFIED_CACHE_TTL_SECONDS else NEGATIVE_CACHE_TTL_SECONDS)) (od_proofs s))"

text \<open>The unique index reads a missing block as -1 and a missing contract as the empty text.\<close>

definition conflicting_proof :: "proof_row \<Rightarrow> proof_row \<Rightarrow> bool" where
  "conflicting_proof a b \<longleftrightarrow> pv_community a = pv_community b \<and> pv_chain a = pv_chain b \<and> pv_hash a = pv_hash b \<and>
     (case pv_block a of None \<Rightarrow> -1 | Some x \<Rightarrow> x) = (case pv_block b of None \<Rightarrow> -1 | Some x \<Rightarrow> x) \<and>
     (case pv_contract a of None \<Rightarrow> [] | Some x \<Rightarrow> x) = (case pv_contract b of None \<Rightarrow> [] | Some x \<Rightarrow> x)"

definition upsert_proof :: "proof_row \<Rightarrow> 'w oracle_state \<Rightarrow> 'w oracle_state" where
  "upsert_proof new s =
     (if list_ex (conflicting_proof new) (od_proofs s)
      then s\<lparr>od_proofs := map (\<lambda>row. if conflicting_proof new row
             then row\<lparr>pv_verified := pv_verified new, pv_error := pv_error new, pv_blockTimestamp := pv_blockTimestamp new,
                      pv_confirmations := pv_confirmations new, pv_verified_at := od_now s\<rparr> else row) (od_proofs s)\<rparr>
      else s\<lparr>od_proofs := od_proofs s @ [new\<lparr>pv_verified_at := od_now s\<rparr>]\<rparr>)"

definition cacheVerification ::
  "string \<Rightarrow> governance_proof \<Rightarrow> verification_result \<Rightarrow> ('w oracle_state, exn, exn + unit) act" where
  "cacheVerification communityDid proof result = change (upsert_proof
     \<lparr>pv_community = communityDid, pv_chain = gp_chainId proof, pv_hash = gp_transactionHash proof,
      pv_block = gp_blockNumber proof, pv_contract = gp_contractAddress proof, pv_verified = vr_verified result,
      pv_error = vr_error result, pv_blockTimestamp = vr_blockTimestamp result,
      pv_confirmations = vr_confirmations result, pv_verified_at = 0\<rparr>)"

subsection \<open>Submitting a proof\<close>

definition opt_int :: "int option \<Rightarrow> jv" where
  "opt_int v = (case v of None \<Rightarrow> JUndef | Some i \<Rightarrow> jint i)"

definition opt_text :: "string option \<Rightarrow> jv" where
  "opt_text v = (case v of None \<Rightarrow> JUndef | Some s \<Rightarrow> JStr s)"

definition verdict_reply :: "bool \<Rightarrow> string option \<Rightarrow> int option \<Rightarrow> int option \<Rightarrow> bool \<Rightarrow> string \<Rightarrow> reply" where
  "verdict_reply verified message blockTimestamp confirmations cached method = Reply 200 (json_clean (JObj
     [(''verified'', JBool verified), (''error'', opt_text message), (''blockTimestamp'', opt_int blockTimestamp),
      (''confirmations'', opt_int confirmations), (''cached'', JBool cached), (''verificationMethod'', JStr method)]))"

text \<open>
  \<open>Number(blockNumber)\<close>, where it is a whole number. The contract address is a text, as its
  declared type says.
\<close>

definition block_number :: "jv \<Rightarrow> int option option" where
  "block_number v = (if v = JUndef then Some None
     else (case to_number v of Fin q \<Rightarrow> if of_int \<lfloor>q\<rfloor> = q \<and> 0 \<le> q then Some (Some \<lfloor>q\<rfloor>) else None | _ \<Rightarrow> None))"

definition contract_of :: "jv \<Rightarrow> string option" where
  "contract_of v = (case v of JStr a \<Rightarrow> if a = [] then None else Some a | _ \<Rightarrow> None)"

definition oracle_trust_meta :: "governance_proof \<Rightarrow> jv \<Rightarrow> jv" where
  "oracle_trust_meta proof expectedOutcome = JObj [(''chainId'', JStr (gp_chainId proof)),
     (''transactionHash'', JStr (gp_transactionHash proof)), (''verificationMethod'', JStr ''oracle-trust''),
     (''reason'', JStr (''No adapter registered for chain '' @ gp_chainId proof)), (''expectedOutcome'', expectedOutcome)]"

definition on_chain_meta :: "string \<Rightarrow> governance_proof \<Rightarrow> verification_result \<Rightarrow> jv \<Rightarrow> jv" where
  "on_chain_meta adapterName proof result expectedOutcome = JObj [(''chainId'', JStr (gp_chainId proof)),
     (''transactionHash'', JStr (gp_transactionHash proof)), (''verified'', JBool (vr_verified result)),
     (''verificationMethod'', JStr ''on-chain''), (''adapterName'', JStr adapterName),
     (''error'', opt_text (vr_error result)), (''blockTimestamp'', opt_int (vr_blockTimestamp result)),
     (''confirmations'', opt_int (vr_confirmations result)), (''expectedOutcome'', expectedOutcome)]"

text \<open>The registry of attestors: chain, name, check. The check may read the chain at any time.\<close>

type_synonym attestors = "(string \<times> string \<times> (governance_proof \<Rightarrow> exn + verification_result)) list"

definition submitProof ::
  "attestors \<Rightarrow> bool \<Rightarrow> oracle_ctx option \<Rightarrow> request \<Rightarrow> ('w oracle_state, exn, reply) act" where
  "submitProof attestors enabled stored req = trying
     (case requireOracleAuth enabled stored of
        Inl r \<Rightarrow> done_with r
      | Inr oracle \<Rightarrow>
        (case (jget (q_body req) ''chainId'', jget (q_body req) ''transactionHash'', block_number (jget (q_body req) ''blockNumber'')) of
           (JStr chainId, JStr transactionHash, Some blockNumber) \<Rightarrow>
             if chainId = [] \<or> transactionHash = [] \<or> length chainId > 64 \<or> length transactionHash > 255
             then done_with (err 400 ''InvalidRequest'')
             else
               (let proof = \<lparr>gp_chainId = chainId, gp_transactionHash = transactionHash, gp_blockNumber = blockNumber,
                             gp_contractAddress = contract_of (jget (q_body req) ''contractAddress'')\<rparr>;
                    expectedOutcome = jget (q_body req) ''expectedOutcome''
                in andThen (getCachedVerification (oc_communityDid oracle) proof) (\<lambda>cached. case cached of
                     Some row \<Rightarrow> done_with (verdict_reply (pv_verified row) (pv_error row) (pv_blockTimestamp row)
                       (pv_confirmations row) True ''cache'')
                   | None \<Rightarrow>
                     (case map_of attestors chainId of
                        None \<Rightarrow>
                          andThen (log_oracle ''oracle.proofApplied'' (oc_credentialId oracle) (oc_communityDid oracle)
                            (oracle_trust_meta proof expectedOutcome)) (\<lambda>_.
                          done_with (verdict_reply True None None None False ''oracle-trust''))
                      | Some (adapterName, verifyProof) \<Rightarrow>
                          andThen (lifted (verifyProof proof)) (\<lambda>result.
                          andThen (cacheVerification (oc_communityDid oracle) proof result) (\<lambda>_.
                          andThen (log_oracle ''oracle.proofApplied'' (oc_credentialId oracle) (oc_communityDid oracle)
                            (on_chain_meta adapterName proof result expectedOutcome)) (\<lambda>_.
                          done_with (verdict_reply (vr_verified result) (vr_error result) (vr_blockTimestamp result)
                            (vr_confirmations result) False ''on-chain'')))))))
         | _ \<Rightarrow> done_with (err 400 ''InvalidRequest'')))
     (\<lambda>_. err 500 ''InternalServerError'')"

end
