(* ===== verification/ServiceAuth.thy ===== *)
theory ServiceAuth
  imports Accounts
begin

text \<open>
  Requests signed by another server: \<^verbatim>\<open>src/auth/service-auth.ts\<close> with its replay cache and its
  rate limiter, the cache of \<^verbatim>\<open>src/auth/auth-context-cache.ts\<close>, and the choice of the way a request
  authenticates in \<^verbatim>\<open>src/auth/verification.ts\<close>.

  Decoding of bytes, \<open>JSON.parse\<close>, the resolution of a DID to keys and the check of a signature
  are parameters. A \<open>Map\<close> is an association list in insertion order; the parts of a request
  between two \<open>await\<close>s are functions of the caches and the clock.
\<close>

subsection \<open>Base64url\<close>

definition standard_char :: "char \<Rightarrow> char" where
  "standard_char c = (if c = CHR ''-'' then CHR ''+'' else if c = CHR ''_'' then CHR ''/'' else c)"

definition base64UrlToStandard :: "string \<Rightarrow> exn + string" where
  "base64UrlToStandard b64 = (let s = map standard_char b64; pad = length s mod 4
     in if pad = 2 then Inr (s @ ''=='') else if pad = 3 then Inr (s @ ''='')
        else if pad \<noteq> 0 then Inl (Failure ''Invalid base64url input'') else Inr s)"

text \<open>\<open>replace(/\\+/g, '-').replace(/\\//g, '_').replace(/=+$/, '')\<close> of standard base64.\<close>

definition url_char :: "char \<Rightarrow> char" where
  "url_char c = (if c = CHR ''+'' then CHR ''-'' else if c = CHR ''/'' then CHR ''_'' else c)"

definition base64StandardToUrl :: "string \<Rightarrow> string" where
  "base64StandardToUrl s = rev (dropWhile (\<lambda>c. c = CHR ''='') (rev (map url_char s)))"

subsection \<open>Tokens\<close>

record service_env =
  sv_serviceDid :: string
  sv_decode :: "string \<Rightarrow> string"
  sv_parse :: "string \<Rightarrow> exn + jv"
  sv_keys :: "string \<Rightarrow> exn + string list"
  sv_verifySignature :: "string \<Rightarrow> string \<Rightarrow> string \<Rightarrow> jv \<Rightarrow> exn + bool"

definition base64UrlDecode :: "service_env \<Rightarrow> string \<Rightarrow> exn + string" where
  "base64UrlDecode env b64 = bindE (base64UrlToStandard b64) (\<lambda>s. Inr (sv_decode env s))"

definition SUPPORTED_ALGS :: "string list" where "SUPPORTED_ALGS = [''ES256K'', ''ES256'']"

definition supported_alg :: "jv \<Rightarrow> bool" where
  "supported_alg alg \<longleftrightarrow> alg \<in> JStr ` set SUPPORTED_ALGS"

definition looksLikeServiceAuthJwt :: "service_env \<Rightarrow> string \<Rightarrow> bool" where
  "looksLikeServiceAuthJwt env token = (case split_char CHR ''.'' token of
      [h, p, s] \<Rightarrow> (case bindE (base64UrlDecode env h) (sv_parse env) of
          Inl _ \<Rightarrow> False | Inr header \<Rightarrow> supported_alg (jget header ''alg''))
    | _ \<Rightarrow> False)"

definition refuse_token :: "string \<Rightarrow> nat \<Rightarrow> exn + 'a" where
  "refuse_token code status = Inl (HttpError status code code)"

definition is_did :: "jv \<Rightarrow> bool" where
  "is_did v = (case v of JStr s \<Rightarrow> take 4 s = ''did:'' | _ \<Rightarrow> False)"

definition later_than :: "jv \<Rightarrow> int \<Rightarrow> int \<Rightarrow> bool" where
  "later_than v skew nowSec = (case v of JNum n \<Rightarrow> num_lt (Fin (of_int (nowSec + skew))) n | _ \<Rightarrow> False)"

text \<open>The claims of a token, before its signature is looked at.\<close>

definition check_claims :: "service_env \<Rightarrow> string option \<Rightarrow> int \<Rightarrow> jv \<Rightarrow> jv \<Rightarrow> exn + string \<times> rat" where
  "check_claims env expectedLxm now header payload =
     (if nullish header then Inl (TypeError ''Cannot read properties'')
      else if \<not> supported_alg (jget header ''alg'') then refuse_token ''InvalidToken'' 401
      else if nullish payload then Inl (TypeError ''Cannot destructure property'')
      else if \<not> is_did (jget payload ''iss'') then refuse_token ''InvalidToken'' 401
      else if \<not> is_did (jget payload ''aud'') then refuse_token ''InvalidToken'' 401
      else (case (jget payload ''iss'', jget payload ''exp'') of
          (JStr iss, JNum (Fin expSec)) \<Rightarrow>
            (let nowSec = now div 1000; skew = 30
             in if jget payload ''aud'' \<noteq> JStr (sv_serviceDid env) then refuse_token ''BadAudience'' 401
                else if expSec + of_int skew < of_int nowSec then refuse_token ''ExpiredToken'' 401
                else if later_than (jget payload ''nbf'') skew nowSec then refuse_token ''TokenNotYetValid'' 401
                else if later_than (jget payload ''iat'') skew nowSec then refuse_token ''InvalidToken'' 401
                else if (case expectedLxm of None \<Rightarrow> False | Some l \<Rightarrow> l \<noteq> [] \<and>
                    is_str (jget payload ''lxm'') \<and> jget payload ''lxm'' \<noteq> JStr l)
                then refuse_token ''BadLexiconMethod'' 403
                else if take 8 iss = ''did:web:'' then refuse_token ''IssuerResolutionFailed'' 401
                else Inr (iss, expSec))
        | _ \<Rightarrow> refuse_token ''InvalidToken'' 401))"

definition any_verifies :: "service_env \<Rightarrow> string list \<Rightarrow> string \<Rightarrow> string \<Rightarrow> jv \<Rightarrow> bool" where
  "any_verifies env candidateKeys signingInput sigBytes alg \<longleftrightarrow>
     list_ex (\<lambda>key. sv_verifySignature env key signingInput sigBytes alg = Inr True) candidateKeys"

text \<open>Everything up to the replay check, in one instant before the keys are resolved: the claims and the expiry.\<close>

definition verify_token :: "service_env \<Rightarrow> string option \<Rightarrow> int \<Rightarrow> string list \<Rightarrow> exn + jv \<times> rat" where
  "verify_token env expectedLxm now parts = (case parts of
      [headerB64, payloadB64, sigB64] \<Rightarrow>
        (case bindE (bindE (base64UrlDecode env headerB64) (sv_parse env)) (\<lambda>header.
              bindE (bindE (base64UrlDecode env payloadB64) (sv_parse env)) (\<lambda>payload. Inr (header, payload))) of
           Inl _ \<Rightarrow> refuse_token ''InvalidToken'' 401
         | Inr (header, payload) \<Rightarrow>
             bindE (check_claims env expectedLxm now header payload) (\<lambda>(iss, expSec).
             case sv_keys env iss of
               Inl _ \<Rightarrow> refuse_token ''IssuerResolutionFailed'' 401
             | Inr candidateKeys \<Rightarrow>
                 bindE (base64UrlDecode env sigB64) (\<lambda>sigBytes.
                 if \<not> any_verifies env candidateKeys (headerB64 @ ''.'' @ payloadB64) sigBytes (jget header ''alg'')
                 then refuse_token ''InvalidSignature'' 401 else Inr (payload, expSec))))
    | _ \<Rightarrow> refuse_token ''InvalidToken'' 401)"

subsection \<open>The replay cache\<close>

type_synonym seen = "(string \<times> rat) list"

definition MAX_SEEN :: nat where "MAX_SEEN = 10000"

text \<open>A sweep happens in one of a hundred calls: the throw of the dice is an argument.\<close>

definition pruneSeen :: "bool \<Rightarrow> int \<Rightarrow> seen \<Rightarrow> seen" where
  "pruneSeen dice now seen = (if dice then filter (\<lambda>(k, v). \<not> v < of_int now) seen else seen)"

text \<open>The loop that deletes expired entries, oldest first, until the map is below its bound.\<close>

fun evict_expired :: "int \<Rightarrow> nat \<Rightarrow> seen \<Rightarrow> seen" where
  "evict_expired cutoff n [] = []"
| "evict_expired cutoff n ((k, v) # seen) =
     (if v < of_int cutoff
      then (if n - 1 < MAX_SEEN then seen else evict_expired cutoff (n - 1) seen)
      else (k, v) # (if n < MAX_SEEN then seen else evict_expired cutoff n seen))"

definition evict_oldest :: "seen \<Rightarrow> seen" where
  "evict_oldest seen = (if length seen \<ge> MAX_SEEN \<and> fst (hd seen) \<noteq> [] then tl seen else seen)"

definition isReplay :: "bool \<Rightarrow> int \<Rightarrow> string \<Rightarrow> rat \<Rightarrow> seen \<Rightarrow> bool \<times> seen" where
  "isReplay dice now sigB64 expSec seen =
     (let seen' = pruneSeen dice now seen
      in if sigB64 \<in> fst ` set seen' then (True, seen')
         else (let seen'' = (if length seen' \<ge> MAX_SEEN
                             then evict_oldest (evict_expired now (length seen') seen') else seen')
               in (False, AList.update sigB64 (expSec * 1000) seen'')))"

definition verifyServiceAuthJwt ::
  "service_env \<Rightarrow> string option \<Rightarrow> bool \<Rightarrow> int \<Rightarrow> int \<Rightarrow> string \<Rightarrow> seen \<Rightarrow> (exn + jv) \<times> seen" where
  "verifyServiceAuthJwt env expectedLxm dice now later token seen =
     (let parts = split_char CHR ''.'' token
      in case verify_token env expectedLxm now parts of
           Inl e \<Rightarrow> (Inl e, seen)
         | Inr (payload, expSec) \<Rightarrow>
             (case isReplay dice later (parts ! 2) expSec seen of
                (True, seen') \<Rightarrow> (refuse_token ''ReplayedToken'' 401, seen')
              | (False, seen') \<Rightarrow> (Inr payload, seen')))"

subsection \<open>The rate limiter\<close>

definition WINDOW_MS :: int where "WINDOW_MS = 60 * 1000"

type_synonym windows = "(string \<times> int \<times> nat) list"

definition checkServiceAuthRateLimit :: "int \<Rightarrow> nat \<Rightarrow> string \<Rightarrow> windows \<Rightarrow> bool \<times> windows" where
  "checkServiceAuthRateLimit now limitPerMin did perDid = (case map_of perDid did of
      None \<Rightarrow> (True, AList.update did (now, 1) perDid)
    | Some (windowStart, count) \<Rightarrow>
        if now - windowStart \<ge> WINDOW_MS then (True, AList.update did (now, 1) perDid)
        else if count \<ge> limitPerMin then (False, perDid)
        else (True, AList.update did (windowStart, count + 1) perDid))"

subsection \<open>The cache of contexts\<close>

definition TTL_MS :: int where "TTL_MS = 60 * 1000"
definition MAX_ENTRIES :: nat where "MAX_ENTRIES = 5000"

type_synonym 'c contexts = "(string \<times> 'c \<times> int) list"

definition context_key :: "string \<Rightarrow> string \<Rightarrow> string" where
  "context_key authMethod did = authMethod @ '':'' @ did"

definition getCachedAuthContext :: "int \<Rightarrow> string \<Rightarrow> string \<Rightarrow> 'c contexts \<Rightarrow> 'c option \<times> 'c contexts" where
  "getCachedAuthContext now authMethod did cache = (case map_of cache (context_key authMethod did) of
      None \<Rightarrow> (None, cache)
    | Some (context', expiresAt) \<Rightarrow>
        if now > expiresAt then (None, AList.delete (context_key authMethod did) cache) else (Some context', cache))"

definition setCachedAuthContext :: "int \<Rightarrow> string \<Rightarrow> string \<Rightarrow> 'c \<Rightarrow> 'c contexts \<Rightarrow> 'c contexts" where
  "setCachedAuthContext now authMethod did context' cache =
     (let cache' = (if length cache \<ge> MAX_ENTRIES then AList.delete (fst (hd cache)) cache else cache)
      in AList.update (context_key authMethod did) (context', now + TTL_MS) cache')"

definition invalidateAuthContext :: "string \<Rightarrow> 'c contexts \<Rightarrow> 'c contexts" where
  "invalidateAuthContext did cache =
     AList.delete (context_key ''service-auth'' did) (AList.delete (context_key ''oauth'' did) cache)"

end
