(* ===== verification/ServiceAuthSafety.thy ===== *)
theory ServiceAuthSafety
  imports ServiceAuth
begin

text \<open>
  What the checks of \<open>ServiceAuth\<close> promise together: a signature is accepted once while its
  token lasts and fewer than \<open>MAX_SEEN\<close> others come after it; the caches stay within their
  bounds; the limiter lets at most two budgets through in any window. And what they do not: a
  token whose signature is spelled in the other alphabet is accepted again.
\<close>

subsection \<open>The replay cache as a queue\<close>

text \<open>The entry of a signature, and how many came after it.\<close>

definition held :: "string \<Rightarrow> rat \<Rightarrow> nat \<Rightarrow> seen \<Rightarrow> bool" where
  "held sig expMs n seen \<longleftrightarrow> (\<exists>older newer. seen = older @ (sig, expMs) # newer \<and> length newer \<le> n)"

lemma heldI: "length newer \<le> n \<Longrightarrow> held sig expMs n (older @ (sig, expMs) # newer)"
  by (auto simp: held_def)

lemma held_seen: "held sig expMs n seen \<Longrightarrow> sig \<in> fst ` set seen"
  by (auto simp: held_def)

lemma held_mono: "held sig expMs n seen \<Longrightarrow> n \<le> m \<Longrightarrow> held sig expMs m seen"
  by (metis held_def order_trans)

lemma held_prune:
  assumes "held sig expMs n seen" "of_int now \<le> expMs"
  shows "held sig expMs n (pruneSeen dice now seen)"
proof -
  from assms(1) obtain older newer where seen: "seen = older @ (sig, expMs) # newer" "length newer \<le> n"
    by (auto simp: held_def)
  have shorter: "length (filter P newer) \<le> n" for P :: "string \<times> rat \<Rightarrow> bool"
    using seen(2) length_filter_le [of P newer] by linarith
  show ?thesis
    using assms(2) seen(2) heldI [OF shorter] by (simp add: pruneSeen_def seen(1) heldI not_less)
qed

lemma length_evict_expired: "length (evict_expired cutoff n seen) \<le> length seen"
  by (induction cutoff n seen rule: evict_expired.induct) (auto simp: le_SucI)

lemma set_evict_expired: "set (evict_expired cutoff n seen) \<subseteq> set seen"
  by (induction cutoff n seen rule: evict_expired.induct) auto

lemma evict_expired_keeps:
  assumes "of_int cutoff \<le> expMs"
  shows "\<exists>older' newer'. evict_expired cutoff n (older @ (sig, expMs) # newer) = older' @ (sig, expMs) # newer'
    \<and> length newer' \<le> length newer"
proof (induction older arbitrary: n)
  case Nil
  have "evict_expired cutoff n ([] @ (sig, expMs) # newer) =
      [] @ (sig, expMs) # (if n < MAX_SEEN then newer else evict_expired cutoff n newer)"
    using assms by (simp add: not_less)
  moreover have "length (if n < MAX_SEEN then newer else evict_expired cutoff n newer) \<le> length newer"
    using length_evict_expired [of cutoff n newer] by simp
  ultimately show ?case by blast
next
  case (Cons p older)
  obtain k v where p: "p = (k, v)" by (cases p)
  show ?case
  proof (cases "v < of_int cutoff")
    case True
    then have "evict_expired cutoff n ((p # older) @ (sig, expMs) # newer) = (if n - 1 < MAX_SEEN
        then older @ (sig, expMs) # newer else evict_expired cutoff (n - 1) (older @ (sig, expMs) # newer))"
      by (simp add: p)
    then show ?thesis using Cons.IH [of "n - 1"] by (cases "n - 1 < MAX_SEEN") (simp_all, blast)
  next
    case False
    obtain older' newer' where kept: "evict_expired cutoff n (older @ (sig, expMs) # newer) = older' @ (sig, expMs) # newer'"
      "length newer' \<le> length newer" using Cons.IH by blast
    from False have "evict_expired cutoff n ((p # older) @ (sig, expMs) # newer) = p # (if n < MAX_SEEN
        then older @ (sig, expMs) # newer else evict_expired cutoff n (older @ (sig, expMs) # newer))"
      by (simp add: p)
    with kept have "evict_expired cutoff n ((p # older) @ (sig, expMs) # newer) =
        (p # (if n < MAX_SEEN then older else older')) @ (sig, expMs) # (if n < MAX_SEEN then newer else newer')"
      by simp
    then show ?thesis using kept(2) by (metis order_refl)
  qed
qed

lemma held_evict_expired:
  "held sig expMs n seen \<Longrightarrow> of_int now \<le> expMs \<Longrightarrow> held sig expMs n (evict_expired now m seen)"
  unfolding held_def using evict_expired_keeps by (meson order_trans)

lemma held_evict_oldest:
  assumes "held sig expMs n seen" "Suc n < MAX_SEEN"
  shows "held sig expMs n (evict_oldest seen)"
proof -
  from assms(1) obtain older newer where seen: "seen = older @ (sig, expMs) # newer" "length newer \<le> n"
    by (auto simp: held_def)
  show ?thesis
  proof (cases older)
    case Nil
    with seen assms(2) have "\<not> MAX_SEEN \<le> length seen" by simp
    with assms(1) show ?thesis by (simp add: evict_oldest_def)
  next
    case (Cons p older')
    with heldI [OF seen(2)] assms(1) show ?thesis by (simp add: evict_oldest_def seen(1))
  qed
qed

lemma AList_update_new: "k \<notin> fst ` set al \<Longrightarrow> AList.update k v al = al @ [(k, v)]"
  by (induction al) auto

lemma held_append: "held sig expMs n seen \<Longrightarrow> held sig expMs (Suc n) (seen @ [x])"
proof -
  assume "held sig expMs n seen"
  then obtain older newer where "seen = older @ (sig, expMs) # newer" "length newer \<le> n" by (auto simp: held_def)
  then have "seen @ [x] = older @ (sig, expMs) # (newer @ [x])" "length (newer @ [x]) \<le> Suc n" by simp_all
  then show ?thesis by (metis heldI)
qed

lemma evict_keys: "fst ` set (evict_oldest seen) \<subseteq> fst ` set seen"
  "fst ` set (evict_expired now n seen) \<subseteq> fst ` set seen"
  "fst ` set (pruneSeen dice now seen) \<subseteq> fst ` set seen"
  using set_evict_expired [of now n seen] by (auto simp: evict_oldest_def pruneSeen_def intro!: image_mono)
    (cases seen; force)+

text \<open>The cache after the sweeps of one check.\<close>

abbreviation swept :: "bool \<Rightarrow> int \<Rightarrow> seen \<Rightarrow> seen" where
  "swept dice now seen \<equiv> (if length (pruneSeen dice now seen) \<ge> MAX_SEEN
     then evict_oldest (evict_expired now (length (pruneSeen dice now seen)) (pruneSeen dice now seen))
     else pruneSeen dice now seen)"

lemma swept_keys: "fst ` set (swept dice now seen) \<subseteq> fst ` set (pruneSeen dice now seen)"
  using subset_trans [OF evict_keys(1) evict_keys(2)] by auto

lemma isReplay_cases:
  "isReplay dice now sig e seen = (if sig \<in> fst ` set (pruneSeen dice now seen) then (True, pruneSeen dice now seen)
     else (False, swept dice now seen @ [(sig, e * 1000)]))"
proof (cases "sig \<in> fst ` set (pruneSeen dice now seen)")
  case False
  with swept_keys [of dice now seen] have "sig \<notin> fst ` set (swept dice now seen)" by blast
  with False show ?thesis by (simp add: isReplay_def Let_def AList_update_new)
qed (simp add: isReplay_def)

text \<open>What one check does to the cache: nothing but pruning, or one entry more.\<close>

lemma isReplay_held:
  assumes "held sig expMs n seen" "of_int now \<le> expMs" "Suc n < MAX_SEEN"
  shows "held sig expMs (Suc n) (snd (isReplay dice now sig' e seen))"
proof -
  have pruned: "held sig expMs n (pruneSeen dice now seen)" using held_prune [OF assms(1,2)] .
  then have "held sig expMs n (swept dice now seen)"
    using held_evict_oldest [OF held_evict_expired [OF pruned assms(2)] assms(3)] by simp
  from held_append [OF this] held_mono [OF pruned] show ?thesis by (simp add: isReplay_cases)
qed

lemma isReplay_enters: "isReplay dice now sig e seen = (False, seen') \<Longrightarrow> held sig (e * 1000) 0 seen'"
  using heldI [where newer = "[]" and n = 0] by (auto simp: isReplay_cases split: if_split_asm)

lemma isReplay_refuses: "held sig expMs n seen \<Longrightarrow> of_int now \<le> expMs \<Longrightarrow> fst (isReplay dice now sig e seen)"
  using held_seen [OF held_prune] by (simp add: isReplay_def)

subsection \<open>A token is accepted once\<close>

text \<open>The tokens a server was shown, in order, and the cache they leave.\<close>

type_synonym token_call = "string option \<times> bool \<times> int \<times> int \<times> string"

fun show_token :: "service_env \<Rightarrow> token_call \<Rightarrow> seen \<Rightarrow> seen" where
  "show_token env (lxm, dice, now, later, token) seen = snd (verifyServiceAuthJwt env lxm dice now later token seen)"

definition show_tokens :: "service_env \<Rightarrow> token_call list \<Rightarrow> seen \<Rightarrow> seen" where
  "show_tokens env calls = fold (show_token env) calls"

fun checked_at :: "token_call \<Rightarrow> int" where
  "checked_at (lxm, dice, now, later, token) = later"

lemma verifyServiceAuthJwt_Inr:
  assumes "verifyServiceAuthJwt env lxm dice now later token seen = (Inr payload, seen')"
  obtains e where "verify_token env lxm now (split_char CHR ''.'' token) = Inr (payload, e)"
    "isReplay dice later (split_char CHR ''.'' token ! 2) e seen = (False, seen')"
  using assms by (auto simp: verifyServiceAuthJwt_def refuse_token_def Let_def split: sum.splits prod.splits bool.splits)

lemma show_token_held:
  assumes "held sig expMs n seen" "of_int (checked_at c) \<le> expMs" "Suc n < MAX_SEEN"
  shows "held sig expMs (Suc n) (show_token env c seen)"
proof (cases c)
  case (fields lxm dice now later token)
  show ?thesis
  proof (cases "verify_token env lxm now (split_char CHR ''.'' token)")
    case (Inl e)
    with held_mono [OF assms(1)] show ?thesis by (simp add: fields verifyServiceAuthJwt_def)
  next
    case (Inr p)
    with isReplay_held [OF assms(1) _ assms(3), of later dice "split_char CHR ''.'' token ! 2" "snd p"] assms(2)
    show ?thesis
      by (auto simp: fields verifyServiceAuthJwt_def Let_def split: prod.splits bool.splits)
  qed
qed

lemma show_tokens_held:
  "held sig expMs n seen \<Longrightarrow> (\<And>c. c \<in> set calls \<Longrightarrow> of_int (checked_at c) \<le> expMs) \<Longrightarrow>
   n + length calls < MAX_SEEN \<Longrightarrow> held sig expMs (n + length calls) (show_tokens env calls seen)"
proof (induction calls arbitrary: n seen)
  case (Cons c calls)
  have "held sig expMs (Suc n) (show_token env c seen)"
    using Cons.prems by (intro show_token_held) auto
  from Cons.IH [OF this] Cons.prems(2,3) show ?case by (simp add: show_tokens_def)
qed (simp add: show_tokens_def)

lemma check_claims_exp:
  assumes "check_claims env lxm now header payload = Inr (iss, e)"
  shows "jget payload ''exp'' = JNum (Fin e)"
proof -
  from assms have "\<exists>i x. jget payload ''iss'' = JStr i \<and> jget payload ''exp'' = JNum (Fin x)"
    unfolding check_claims_def refuse_token_def
    by (cases "jget payload ''iss''"; cases "jget payload ''exp''") (auto split: if_splits jnum.splits)
  then show ?thesis using assms by (auto simp: check_claims_def refuse_token_def Let_def split: if_splits)
qed

lemma verify_token_checks:
  assumes "verify_token env lxm now parts = Inr (payload, e)"
  obtains header iss keys h p s sigBytes where "parts = [h, p, s]"
    "check_claims env lxm now header payload = Inr (iss, e)" "sv_keys env iss = Inr keys"
    "base64UrlDecode env s = Inr sigBytes" "any_verifies env keys (h @ ''.'' @ p) sigBytes (jget header ''alg'')"
proof -
  from assms obtain h p s where parts: "parts = [h, p, s]"
    by (auto simp: verify_token_def refuse_token_def split: list.splits)
  with assms obtain header payload' where "bindE (check_claims env lxm now header payload') (\<lambda>(iss, expSec).
      case sv_keys env iss of Inl _ \<Rightarrow> refuse_token ''IssuerResolutionFailed'' 401
      | Inr keys \<Rightarrow> bindE (base64UrlDecode env s) (\<lambda>sigBytes.
          if \<not> any_verifies env keys (h @ ''.'' @ p) sigBytes (jget header ''alg'')
          then refuse_token ''InvalidSignature'' 401 else Inr (payload', expSec))) = Inr (payload, e)"
    by (auto simp: verify_token_def refuse_token_def split: sum.splits)
  then obtain iss x where checked: "check_claims env lxm now header payload' = Inr (iss, x)"
    and rest: "(case sv_keys env iss of Inl _ \<Rightarrow> refuse_token ''IssuerResolutionFailed'' 401
      | Inr keys \<Rightarrow> bindE (base64UrlDecode env s) (\<lambda>sigBytes.
          if \<not> any_verifies env keys (h @ ''.'' @ p) sigBytes (jget header ''alg'')
          then refuse_token ''InvalidSignature'' 401 else Inr (payload', x))) = Inr (payload, e)"
    by (auto simp: bindE_Inr_iff)
  from rest obtain keys where keys: "sv_keys env iss = Inr keys" by (auto simp: refuse_token_def split: sum.splits)
  with rest have "payload' = payload" "x = e"
    and "\<exists>sigBytes. base64UrlDecode env s = Inr sigBytes \<and> any_verifies env keys (h @ ''.'' @ p) sigBytes (jget header ''alg'')"
    by (auto simp: bindE_Inr_iff refuse_token_def split: if_splits)
  with that [OF parts] checked keys show ?thesis by blast
qed

lemma verify_token_exp: "verify_token env lxm now parts = Inr (payload, e) \<Longrightarrow> jget payload ''exp'' = JNum (Fin e)"
  by (erule verify_token_checks) (rule check_claims_exp)

text \<open>
  C34. A token that was accepted is not accepted again, whatever other tokens the server is shown
  in between, as long as they are fewer than the cache holds and the token has not expired.
\<close>

theorem accepted_token_is_spent:
  assumes "verifyServiceAuthJwt env lxm dice now later token seen = (Inr payload, seen1)"
    and "jget payload ''exp'' = JNum (Fin e)"
    and "Suc (length calls) < MAX_SEEN"
    and "\<And>c. c \<in> set calls \<Longrightarrow> of_int (checked_at c) \<le> e * 1000"
    and "of_int later' \<le> e * 1000"
  shows "\<nexists>p. fst (verifyServiceAuthJwt env lxm' dice' now' later' token (show_tokens env calls seen1)) = Inr p"
proof
  assume "\<exists>p. fst (verifyServiceAuthJwt env lxm' dice' now' later' token (show_tokens env calls seen1)) = Inr p"
  then obtain p seen2 where "verifyServiceAuthJwt env lxm' dice' now' later' token (show_tokens env calls seen1) = (Inr p, seen2)"
    by (metis prod.collapse)
  then obtain e' where again: "isReplay dice' later' (split_char CHR ''.'' token ! 2) e' (show_tokens env calls seen1) = (False, seen2)"
    by (rule verifyServiceAuthJwt_Inr)
  from assms(1) obtain f where f: "verify_token env lxm now (split_char CHR ''.'' token) = Inr (payload, f)"
    "isReplay dice later (split_char CHR ''.'' token ! 2) f seen = (False, seen1)" by (rule verifyServiceAuthJwt_Inr)
  have "f = e" using verify_token_exp [OF f(1)] assms(2) by simp
  with isReplay_enters [OF f(2)] have "held (split_char CHR ''.'' token ! 2) (e * 1000) 0 seen1" by simp
  from show_tokens_held [OF this assms(4)] assms(3)
  have "held (split_char CHR ''.'' token ! 2) (e * 1000) (length calls) (show_tokens env calls seen1)" by simp
  from isReplay_refuses [OF this assms(5)] again show False by (metis fst_conv)
qed

subsection \<open>A signature spelled differently\<close>

lemma split_char_free: "d \<notin> set cs \<Longrightarrow> split_char d cs = [cs]"
  by (induction cs) auto

lemma split_char_append: "d \<notin> set cs \<Longrightarrow> split_char d (cs @ d # ds) = cs # split_char d ds"
  by (induction cs) auto

lemma split_token:
  assumes "CHR ''.'' \<notin> set h" "CHR ''.'' \<notin> set p" "CHR ''.'' \<notin> set s"
  shows "split_char CHR ''.'' (h @ ''.'' @ p @ ''.'' @ s) = [h, p, s]"
  using assms by (simp add: split_char_append split_char_free)

text \<open>The standard alphabet of base64, in which \<open>+\<close> and \<open>/\<close> stand for \<open>-\<close> and \<open>_\<close>.\<close>

definition respell :: "string \<Rightarrow> string" where
  "respell = map standard_char"

lemma standard_char_idem [simp]: "standard_char (standard_char c) = standard_char c"
  by (simp add: standard_char_def)

lemma respell_decodes: "base64UrlDecode env (respell s) = base64UrlDecode env s"
  by (simp add: respell_def base64UrlDecode_def base64UrlToStandard_def comp_def)

lemma respell_verifies: "verify_token env lxm now [h, p, respell s] = verify_token env lxm now [h, p, s]"
  by (simp add: verify_token_def respell_decodes cong: sum.case_cong)

lemma respell_no_dot: "CHR ''.'' \<notin> set s \<Longrightarrow> CHR ''.'' \<notin> set (respell s)"
  by (auto simp: respell_def standard_char_def split: if_splits)

text \<open>
  C35. The replay cache knows a token by the letters of its signature, and the decoder reads two
  alphabets: a token that was just accepted is accepted once more with its signature in the
  other alphabet, with the same claims.
\<close>

theorem respelled_token_is_accepted_again:
  assumes "verifyServiceAuthJwt env lxm dice now later (h @ ''.'' @ p @ ''.'' @ s) seen = (Inr payload, seen1)"
    and "CHR ''.'' \<notin> set h" "CHR ''.'' \<notin> set p" "CHR ''.'' \<notin> set s"
    and "respell s \<noteq> s" "respell s \<notin> fst ` set seen"
  shows "fst (verifyServiceAuthJwt env lxm dice' now later' (h @ ''.'' @ p @ ''.'' @ respell s) seen1) = Inr payload"
proof -
  from assms(1) obtain e where e: "verify_token env lxm now [h, p, s] = Inr (payload, e)"
    "isReplay dice later s e seen = (False, seen1)"
    using verifyServiceAuthJwt_Inr [OF assms(1)] unfolding split_token [OF assms(2-4)] by auto
  from e(2) have seen1: "seen1 = swept dice later seen @ [(s, e * 1000)]"
    unfolding isReplay_cases by (metis prod.inject)
  have "fst ` set (swept dice later seen) \<subseteq> fst ` set seen"
    using swept_keys evict_keys(3) by (rule subset_trans)
  with assms(6) have "respell s \<notin> fst ` set (swept dice later seen)" by (meson subsetD)
  with assms(5) have "respell s \<notin> fst ` set seen1" unfolding seen1 by simp
  then have "respell s \<notin> fst ` set (pruneSeen dice' later' seen1)" using evict_keys(3) by blast
  then have "isReplay dice' later' (respell s) e seen1 =
      (False, swept dice' later' seen1 @ [(respell s, e * 1000)])" by (simp only: isReplay_cases if_False)
  with e(1) show ?thesis
    unfolding verifyServiceAuthJwt_def split_token [OF assms(2,3) respell_no_dot [OF assms(4)]]
    by (simp add: respell_verifies)
qed

subsection \<open>The limiter\<close>

text \<open>How many of a sequence of calls, each at its time and from its server, one server got through.\<close>

fun passed :: "nat \<Rightarrow> string \<Rightarrow> (int \<times> string) list \<Rightarrow> windows \<Rightarrow> nat" where
  "passed limit did [] perDid = 0"
| "passed limit did ((now, caller) # calls) perDid =
     (case checkServiceAuthRateLimit now limit caller perDid of
        (ok', perDid') \<Rightarrow> (if ok' \<and> caller = did then 1 else 0) + passed limit did calls perDid')"

text \<open>What is left of the budget of a server in the window it is in, and whether that window began by \<open>t\<close>.\<close>

definition budget :: "nat \<Rightarrow> string \<Rightarrow> windows \<Rightarrow> nat" where
  "budget limit did perDid = (case map_of perDid did of None \<Rightarrow> limit | Some (_, count) \<Rightarrow> limit - count)"

definition begun_since :: "int \<Rightarrow> string \<Rightarrow> windows \<Rightarrow> bool" where
  "begun_since t did perDid \<longleftrightarrow> (\<exists>start count. map_of perDid did = Some (start, count) \<and> t \<le> start)"

lemma limiter_other:
  assumes "caller \<noteq> did"
  shows "map_of (snd (checkServiceAuthRateLimit now limit caller perDid)) did = map_of perDid did"
  using assms by (auto simp: checkServiceAuthRateLimit_def update_conv' split: option.split)

lemma limiter_fresh:
  "map_of perDid did = None \<Longrightarrow> checkServiceAuthRateLimit now limit did perDid = (True, AList.update did (now, 1) perDid)"
  "map_of perDid did = Some (start, count) \<Longrightarrow> checkServiceAuthRateLimit now limit did perDid =
     (if now - start \<ge> WINDOW_MS then (True, AList.update did (now, 1) perDid)
      else if count \<ge> limit then (False, perDid) else (True, AList.update did (start, count + 1) perDid))"
  by (simp_all add: checkServiceAuthRateLimit_def)

lemma budget_update: "budget limit did (AList.update did (start, count) perDid) = limit - count"
  "begun_since t did (AList.update did (start, count) perDid) \<longleftrightarrow> t \<le> start"
  by (simp_all add: budget_def begun_since_def update_conv')

lemma limiter_own:
  assumes "0 < limit" "t \<le> now" "now < t + WINDOW_MS"
    and step: "checkServiceAuthRateLimit now limit did perDid = (ok', perDid')"
  shows "begun_since t did perDid \<Longrightarrow> begun_since t did perDid' \<and>
      (if ok' then 1 else 0) + budget limit did perDid' \<le> budget limit did perDid"
    and "begun_since t did perDid' \<and> (if ok' then 1 else 0) + budget limit did perDid' \<le> limit \<or>
      (if ok' then 1 else 0) + budget limit did perDid' \<le> budget limit did perDid"
proof -
  have some: "begun_since t did perDid \<longleftrightarrow> t \<le> start" "budget limit did perDid = limit - count"
    if "map_of perDid did = Some (start, count)" for start count
    using that by (simp_all add: begun_since_def budget_def)
  show "begun_since t did perDid' \<and> (if ok' then 1 else 0) + budget limit did perDid' \<le> budget limit did perDid"
    if "begun_since t did perDid"
  proof -
    from that obtain start count where at: "map_of perDid did = Some (start, count)" "t \<le> start"
      by (auto simp: begun_since_def)
    from some [OF at(1)] at assms(1-3) step show ?thesis
      by (auto simp: limiter_fresh(2) budget_update split: if_split_asm)
  qed
  show "begun_since t did perDid' \<and> (if ok' then 1 else 0) + budget limit did perDid' \<le> limit \<or>
      (if ok' then 1 else 0) + budget limit did perDid' \<le> budget limit did perDid"
  proof (cases "map_of perDid did")
    case None
    with assms(1-3) step show ?thesis by (auto simp: limiter_fresh(1) budget_update)
  next
    case (Some w)
    obtain start count where "w = (start, count)" by (cases w)
    with Some have at: "map_of perDid did = Some (start, count)" by simp
    from some [OF at] at assms(1-3) step show ?thesis
      by (auto simp: limiter_fresh(2) budget_update split: if_split_asm)
  qed
qed

abbreviation within_window :: "int \<Rightarrow> (int \<times> string) list \<Rightarrow> bool" where
  "within_window t \<equiv> list_all (\<lambda>(now, _). t \<le> now \<and> now < t + WINDOW_MS)"

lemma passed_begun:
  assumes "0 < limit" "within_window t calls" "begun_since t did perDid"
  shows "passed limit did calls perDid \<le> budget limit did perDid"
  using assms(2,3)
proof (induction calls arbitrary: perDid)
  case (Cons x calls)
  obtain now caller where x: "x = (now, caller)" by (cases x)
  obtain ok' perDid' where step: "checkServiceAuthRateLimit now limit caller perDid = (ok', perDid')"
    by (cases "checkServiceAuthRateLimit now limit caller perDid")
  have IH: "begun_since t did perDid' \<Longrightarrow> passed limit did calls perDid' \<le> budget limit did perDid'"
    using Cons by simp
  show ?case
  proof (cases "caller = did")
    case True
    with limiter_own(1) [OF assms(1) _ _ step [unfolded True] Cons.prems(2)] Cons.prems(1)
    have "begun_since t did perDid'" "(if ok' then 1 else 0) + budget limit did perDid' \<le> budget limit did perDid"
      by (simp_all add: x)
    with IH step show ?thesis by (simp add: x True)
  next
    case False
    with limiter_other [OF False, of now limit perDid] step
    have "begun_since t did perDid'" "budget limit did perDid' = budget limit did perDid"
      using Cons.prems(2) by (simp_all add: begun_since_def budget_def)
    with IH False step show ?thesis by (simp add: x)
  qed
qed simp

text \<open>
  C36. In any stretch of time as long as the window, a server gets at most twice the limit
  through, whatever else arrives: the rest of the window before, and one window that begins in
  the stretch.
\<close>

theorem limiter_bound:
  assumes "0 < limit" "within_window t calls"
  shows "passed limit did calls perDid \<le> 2 * limit"
proof -
  have "passed limit did calls perDid \<le> budget limit did perDid + limit"
    using assms(2)
  proof (induction calls arbitrary: perDid)
    case (Cons x calls)
    obtain now caller where x: "x = (now, caller)" by (cases x)
    obtain ok' perDid' where step: "checkServiceAuthRateLimit now limit caller perDid = (ok', perDid')"
      by (cases "checkServiceAuthRateLimit now limit caller perDid")
    have IH: "passed limit did calls perDid' \<le> budget limit did perDid' + limit" using Cons by simp
    show ?case
    proof (cases "caller = did")
      case True
      from limiter_own(2) [OF assms(1) _ _ step [unfolded True]] Cons.prems
      consider "begun_since t did perDid'" "(if ok' then 1 else 0) + budget limit did perDid' \<le> limit"
        | "(if ok' then 1 else 0) + budget limit did perDid' \<le> budget limit did perDid" by (auto simp: x)
      then show ?thesis
      proof cases
        case 1
        have "passed limit did calls perDid' \<le> budget limit did perDid'"
          using passed_begun [OF assms(1) _ 1(1)] Cons.prems by simp
        with 1 step show ?thesis by (simp add: x True)
      next
        case 2
        with IH step show ?thesis by (simp add: x True)
      qed
    next
      case False
      with limiter_other [OF False, of now limit perDid] step
      have "budget limit did perDid' = budget limit did perDid" by (simp add: budget_def)
      with IH False step show ?thesis by (simp add: x)
    qed
  qed simp
  also have "budget limit did perDid \<le> limit" by (auto simp: budget_def split: option.split)
  finally show ?thesis by simp
qed

subsection \<open>Concrete tokens\<close>

text \<open>Keys and signatures of a server that trusts one key and one signature, in bytes \<open>ab-c\<close>.\<close>

definition sample_claims :: jv where
  "sample_claims = JObj [(''iss'', JStr ''did:plc:a''), (''aud'', JStr ''did:web:us''), (''exp'', JNum (Fin 100))]"

definition sample_service :: service_env where
  "sample_service = \<lparr>sv_serviceDid = ''did:web:us'', sv_decode = id,
     sv_parse = (\<lambda>t. if t = ''head'' then Inr (JObj [(''alg'', JStr ''ES256'')]) else Inr sample_claims),
     sv_keys = (\<lambda>_. Inr [''key'']), sv_verifySignature = (\<lambda>_ _ sig _. Inr (sig = ''ab+c''))\<rparr>"

lemma sample_token_accepted:
  "verifyServiceAuthJwt sample_service None False 60000 60000 ''head.body.ab-c'' [] = (Inr sample_claims, [(''ab-c'', 100000)])"
  by code_simp

theorem accepted_token_is_spent_witness:
  "\<nexists>p. fst (verifyServiceAuthJwt sample_service None False 61000 61000 ''head.body.ab-c''
     (show_tokens sample_service [(None, True, 60500, 60500, ''head.body.other'')] [(''ab-c'', 100000)])) = Inr p"
  using accepted_token_is_spent [OF sample_token_accepted, of 100 "[(None, True, 60500, 60500, ''head.body.other'')]" 61000]
  by (simp add: sample_claims_def MAX_SEEN_def)

theorem respelled_token_is_accepted_again_witness:
  "fst (verifyServiceAuthJwt sample_service None False 60000 60000 ''head.body.ab+c'' [(''ab-c'', 100000)]) = Inr sample_claims"
proof -
  have "verifyServiceAuthJwt sample_service None False 60000 60000 (''head'' @ ''.'' @ ''body'' @ ''.'' @ ''ab-c'') [] =
      (Inr sample_claims, [(''ab-c'', 100000)])"
    using sample_token_accepted by simp
  from respelled_token_is_accepted_again [OF this, of False 60000]
  show ?thesis by (simp add: respell_def standard_char_def)
qed

theorem limiter_bound_witness:
  "passed 2 ''did:a'' [(59999, ''did:a''), (60000, ''did:a''), (60001, ''did:a'')] [(''did:a'', 0, 1)] = 3 \<and>
   passed 2 ''did:a'' [(59999, ''did:a''), (60000, ''did:a''), (60001, ''did:a'')] [(''did:a'', 0, 1)] \<le> 2 * 2"
proof
  show "passed 2 ''did:a'' [(59999, ''did:a''), (60000, ''did:a''), (60001, ''did:a'')] [(''did:a'', 0, 1)] = 3"
    by code_simp
  show "passed 2 ''did:a'' [(59999, ''did:a''), (60000, ''did:a''), (60001, ''did:a'')] [(''did:a'', 0, 1)] \<le> 2 * 2"
    by (rule limiter_bound [where t = 59999]) (simp_all add: WINDOW_MS_def)
qed

end
