(* ===== verification/RequestAuth.thy ===== *)
theory RequestAuth
  imports ServiceAuthSafety AccountStatus
begin

text \<open>
  Who a request is: \<^verbatim>\<open>src/auth/verification.ts\<close> and \<^verbatim>\<open>src/auth/middleware.ts\<close>, partner keys
  (\<^verbatim>\<open>src/auth/partner-keys.ts\<close>, \<^verbatim>\<open>src/auth/partner-guard.ts\<close>), and the endpoint
  \<open>updateSubjectStatus\<close> together with the cache it clears.

  The state is the account tables with what the process keeps in memory. The OAuth provider is
  a library: a parameter that names a subject or fails. An array in a header is its first
  element, as the source takes it. The origins the server answers to CORS with are not modelled.
\<close>

subsection \<open>State and environment\<close>

text \<open>The address a context carries is left out: nothing that is modelled reads it.\<close>

record auth_context = auth +
  ax_authMethod :: string

record partner_row =
  pk_id :: string
  pk_name :: string
  pk_partner_name :: string
  pk_key_hash :: string
  pk_permissions :: jv
  pk_allowed_origins :: jv
  pk_rate_limit_per_hour :: int
  pk_status :: string
  pk_verification_state :: string
  pk_last_used_at :: "int option"

record door =
  do_accounts :: accounts
  do_seen :: seen
  do_windows :: windows
  do_contexts :: "auth_context contexts"
  do_partners :: "partner_row list"

record door_env =
  de_auth :: auth_env
  de_service :: service_env
  de_limit :: nat
  de_oauth :: "(string \<Rightarrow> jv \<Rightarrow> exn + string) option"

definition door_time :: "nat \<Rightarrow> door \<Rightarrow> door" where
  "door_time n s = s\<lparr>do_accounts := pass_time n (do_accounts s)\<rparr>"

definition do_now :: "door \<Rightarrow> int" where
  "do_now s = t_now (do_accounts s)"

text \<open>An account request runs on the tables inside the larger state.\<close>

primrec zoom :: "(accounts, exn, 'a) act \<Rightarrow> (door, exn, 'a) act" where
  "zoom (Finished x) = Finished x"
| "zoom (Reading f) = Reading (\<lambda>s. zoom (f (do_accounts s)))"
| "zoom (Statement f h) = Statement
     (\<lambda>s. map_prod zoom (\<lambda>a. s\<lparr>do_accounts := a\<rparr>) (f (do_accounts s))) (\<lambda>e. zoom (h e))"

subsection \<open>The account behind a DID\<close>

definition context_of :: "account \<Rightarrow> string list \<Rightarrow> string \<Rightarrow> string \<Rightarrow> auth_context" where
  "context_of user roles did authMethod = \<lparr>a_userId = ac_id user, a_did = did, a_handle = ac_handle user,
     a_status = ac_status user, a_roles = roles, a_emailVerified = None, ax_authMethod = authMethod\<rparr>"

definition look_up_context :: "string \<Rightarrow> string \<Rightarrow> door \<Rightarrow> auth_context option \<times> door" where
  "look_up_context authMethod did s = (case getCachedAuthContext (do_now s) authMethod did (do_contexts s) of
     (cached, cache) \<Rightarrow> (cached, s\<lparr>do_contexts := cache\<rparr>))"

definition keep_context :: "string \<Rightarrow> string \<Rightarrow> auth_context \<Rightarrow> door \<Rightarrow> door" where
  "keep_context authMethod did c s =
     s\<lparr>do_contexts := setCachedAuthContext (do_now s) authMethod did c (do_contexts s)\<rparr>"

definition authContextForLocalDid :: "string \<Rightarrow> string \<Rightarrow> (door, exn, exn + auth_context option) act" where
  "authContextForLocalDid did authMethod =
     andThen (sql (\<lambda>s. Inr (look_up_context authMethod did s))) (\<lambda>cached. case cached of
       Some c \<Rightarrow> done_with (Some c)
     | None \<Rightarrow>
       andThen (fetch (\<lambda>s. find (\<lambda>u. ac_did u = did) (t_users (do_accounts s)))) (\<lambda>row. case row of
         None \<Rightarrow> done_with None
       | Some user \<Rightarrow>
         andThen (fetch (\<lambda>s. user_roles (do_accounts s) (ac_id user))) (\<lambda>roles.
         let c = context_of user roles did authMethod
         in andThen (change (keep_context authMethod did c)) (\<lambda>_. done_with (Some c)))))"

subsection \<open>The ways to authenticate\<close>

record auth_result =
  ar_auth :: "auth_context option"
  ar_error :: "string option"
  ar_service :: "(string \<times> nat) option"
  ar_www :: "string option"

definition authenticated :: "auth_context \<Rightarrow> auth_result" where
  "authenticated c = \<lparr>ar_auth = Some c, ar_error = None, ar_service = None, ar_www = None\<rparr>"

definition not_authenticated :: "string \<Rightarrow> auth_result" where
  "not_authenticated e = \<lparr>ar_auth = None, ar_error = Some e, ar_service = None, ar_www = None\<rparr>"

text \<open>\<open>path.match(/^\\/xrpc\\/([^/]+)/)\<close>.\<close>

definition method_of_path :: "string \<Rightarrow> string option" where
  "method_of_path path =
     (let nsid = takeWhile (\<lambda>c. c \<noteq> CHR ''/'') (drop 6 path)
      in if take 6 path = ''/xrpc/'' \<and> nsid \<noteq> [] then Some nsid else None)"

definition foreign_context :: "string \<Rightarrow> auth_context" where
  "foreign_context iss = \<lparr>a_userId = iss, a_did = iss, a_handle = iss, a_status = ''approved'', a_roles = [],
     a_emailVerified = None, ax_authMethod = ''service-auth''\<rparr>"

text \<open>The two parts of the check of a token: before the keys are there, and when they are.\<close>

definition spend_token :: "bool \<Rightarrow> string \<Rightarrow> jv \<times> rat \<Rightarrow> door \<Rightarrow> (exn + jv) \<times> door" where
  "spend_token dice sig verified s = (case isReplay dice (do_now s) sig (snd verified) (do_seen s) of
     (replayed, seen) \<Rightarrow> (if replayed then refuse_token ''ReplayedToken'' 401 else Inr (fst verified),
        s\<lparr>do_seen := seen\<rparr>))"

definition count_caller :: "door_env \<Rightarrow> string \<Rightarrow> door \<Rightarrow> bool \<times> door" where
  "count_caller env did s = (case checkServiceAuthRateLimit (do_now s) (de_limit env) did (do_windows s) of
     (allowed, perDid) \<Rightarrow> (allowed, s\<lparr>do_windows := perDid\<rparr>))"

definition issuer :: "jv \<Rightarrow> string" where
  "issuer claims = (case jget claims ''iss'' of JStr s \<Rightarrow> s | _ \<Rightarrow> [])"

definition service_failure :: "exn \<Rightarrow> auth_result" where
  "service_failure e = \<lparr>ar_auth = None, ar_error = Some ''invalid'', ar_service = Some (case e of
     HttpError status code message \<Rightarrow> (code, status) | _ \<Rightarrow> (''InvalidToken'', 401)), ar_www = None\<rparr>"

definition verifyServiceAuthRequest :: "door_env \<Rightarrow> bool \<Rightarrow> string \<Rightarrow> string \<Rightarrow> (door, exn, auth_result) act" where
  "verifyServiceAuthRequest env dice token path = trying
     (let parts = split_char CHR ''.'' token
      in andThen (reading do_now) (\<lambda>now.
         andThen (lifted (verify_token (de_service env) (method_of_path path) now parts)) (\<lambda>verified.
         andThen (sql (\<lambda>s. Inr (spend_token dice (parts ! 2) verified s))) (\<lambda>fresh.
         andThen (lifted fresh) (\<lambda>claims.
         andThen (sql (\<lambda>s. Inr (count_caller env (issuer claims) s))) (\<lambda>allowed.
           if \<not> allowed then done_with (service_failure (HttpError 429 ''RateLimitExceeded'' []))
           else andThen (authContextForLocalDid (issuer claims) ''service-auth'') (\<lambda>localAuth. case localAuth of
               Some c \<Rightarrow> done_with (authenticated c)
             | None \<Rightarrow> done_with (authenticated (foreign_context (issuer claims))))))))))
     service_failure"

definition verifyOAuthRequest ::
  "(string \<Rightarrow> jv \<Rightarrow> exn + string) \<Rightarrow> string \<Rightarrow> jv \<Rightarrow> (door, exn, auth_result) act" where
  "verifyOAuthRequest verifier url headers = trying
     (andThen (lifted (verifier url headers)) (\<lambda>sub.
      andThen (authContextForLocalDid sub ''oauth'') (\<lambda>auth'. case auth' of
        Some c \<Rightarrow> done_with (authenticated c)
      | None \<Rightarrow> done_with (not_authenticated ''invalid''))))
     (\<lambda>e. (not_authenticated ''invalid'')\<lparr>ar_www := (case e of
        HttpError status code message \<Rightarrow> Some message | _ \<Rightarrow> None)\<rparr>)"

definition header_text :: "jv \<Rightarrow> string \<Rightarrow> string option" where
  "header_text headers name = (case jget headers name of
      JStr s \<Rightarrow> if s = [] then None else Some s
    | JArr (JStr s # _) \<Rightarrow> if s = [] then None else Some s
    | _ \<Rightarrow> None)"

definition local_context :: "auth \<Rightarrow> auth_context" where
  "local_context a = auth.extend a \<lparr>ax_authMethod = ''local''\<rparr>"

definition verifyRequestAuth ::
  "door_env \<Rightarrow> bool \<Rightarrow> string \<Rightarrow> string \<Rightarrow> jv \<Rightarrow> (door, exn, auth_result) act" where
  "verifyRequestAuth env dice originalUrl path headers =
     (case (header_text headers ''dpop'', header_text headers ''authorization'', de_oauth env) of
        (dpop, None, _) \<Rightarrow> Finished (not_authenticated ''missing'')
      | (dpop, Some authHeader, oauth) \<Rightarrow>
        if dpop \<noteq> None \<and> take 5 authHeader = ''DPoP '' \<and> oauth \<noteq> None
        then verifyOAuthRequest (the oauth) originalUrl headers
        else if take 7 authHeader \<noteq> ''Bearer '' then Finished (not_authenticated ''invalid'')
        else
          (let token = js_trim (drop 7 authHeader)
           in if token = [] then Finished (not_authenticated ''missing'')
              else if looksLikeServiceAuthJwt (de_service env) token
              then verifyServiceAuthRequest env dice token path
              else graft (zoom (verifyAccessToken (de_auth env) token)) (\<lambda>found. case found of
                  None \<Rightarrow> Finished (not_authenticated ''invalid'')
                | Some a \<Rightarrow> Finished (authenticated (local_context a)))))"

subsection \<open>Partner keys\<close>

definition PARTNER_KEY_PREFIX :: string where "PARTNER_KEY_PREFIX = ''ofp_''"

definition isValidPartnerKeyFormat :: "string \<Rightarrow> bool" where
  "isValidPartnerKeyFormat key \<longleftrightarrow>
     take (length PARTNER_KEY_PREFIX) key = PARTNER_KEY_PREFIX \<and> length key > length PARTNER_KEY_PREFIX + 8"

text \<open>The raw key, its hash and the prefix that is shown; \<open>random\<close> is the encoded random part.\<close>

definition generatePartnerKey :: "auth_env \<Rightarrow> string \<Rightarrow> string \<times> string \<times> string" where
  "generatePartnerKey env random =
     (let rawKey = PARTNER_KEY_PREFIX @ random
      in (rawKey, ae_sha256 env rawKey, take (length PARTNER_KEY_PREFIX + 8) rawKey))"

record partner_context =
  pc_partnerId :: string
  pc_name :: string
  pc_partnerName :: string
  pc_permissions :: "jv list"
  pc_rateLimitPerHour :: int

definition partner_origin_allowed :: "jv \<Rightarrow> string option \<Rightarrow> bool" where
  "partner_origin_allowed allowed origin \<longleftrightarrow> (case allowed of
      JArr os \<Rightarrow> os = [] \<or> (\<exists>o' \<in> set_option origin. o' \<noteq> [] \<and> JStr o' \<in> set os)
    | _ \<Rightarrow> True)"

text \<open>What the row says of a request, in the order of the checks.\<close>

definition partner_refusal :: "partner_row \<Rightarrow> string option \<Rightarrow> string \<Rightarrow> (nat \<times> string) option" where
  "partner_refusal partner origin requiredPermission =
     (if pk_status partner \<noteq> ''active'' then Some (401, ''Unauthorized'')
      else if pk_verification_state partner \<noteq> ''verified'' then Some (403, ''PartnerKeyUnverified'')
      else if \<not> partner_origin_allowed (pk_allowed_origins partner) origin then Some (403, ''Forbidden'')
      else if requiredPermission \<noteq> [] \<and> JStr requiredPermission \<notin> set (arr_or_nil (pk_permissions partner))
      then Some (403, ''Forbidden'') else None)"

definition use_partner :: "string \<Rightarrow> door \<Rightarrow> door" where
  "use_partner i s = s\<lparr>do_partners := map (\<lambda>p. if pk_id p = i
     then p\<lparr>pk_last_used_at := Some (do_now s)\<rparr> else p) (do_partners s)\<rparr>"

definition verifyPartnerKey ::
  "auth_env \<Rightarrow> string option \<Rightarrow> string option \<Rightarrow> string
     \<Rightarrow> (door, exn, exn + (nat \<times> string) + partner_context) act" where
  "verifyPartnerKey env rawKey origin requiredPermission = (case rawKey of
      None \<Rightarrow> done_with (Inl (401, ''Unauthorized''))
    | Some key \<Rightarrow>
      if key = [] \<or> \<not> isValidPartnerKeyFormat key then done_with (Inl (401, ''Unauthorized''))
      else andThen (fetch (\<lambda>s. find (\<lambda>p. pk_key_hash p = ae_sha256 env key) (do_partners s))) (\<lambda>row. case row of
          None \<Rightarrow> done_with (Inl (401, ''Unauthorized''))
        | Some partner \<Rightarrow>
          (case partner_refusal partner origin requiredPermission of
             Some r \<Rightarrow> done_with (Inl r)
           | None \<Rightarrow> graft (change (use_partner (pk_id partner))) (\<lambda>_. done_with (Inr
               \<lparr>pc_partnerId = pk_id partner, pc_name = pk_name partner, pc_partnerName = pk_partner_name partner,
                pc_permissions = arr_or_nil (pk_permissions partner),
                pc_rateLimitPerHour = pk_rate_limit_per_hour partner\<rparr>)))))"

definition validatePartnerKey ::
  "auth_env \<Rightarrow> string option \<Rightarrow> string option \<Rightarrow> string \<Rightarrow> (door, exn, exn + reply + partner_context) act" where
  "validatePartnerKey env rawKey origin requiredPermission =
     andThen (verifyPartnerKey env rawKey origin requiredPermission) (\<lambda>result. case result of
        Inl (status, code) \<Rightarrow> done_with (Inl (err status code))
      | Inr partner \<Rightarrow> done_with (Inr partner))"

subsection \<open>The middleware\<close>

text \<open>Whether the account's address is verified, asked only under a policy that depends on it.\<close>

definition load_verified :: "door_env \<Rightarrow> auth_context option \<Rightarrow> (door, exn, auth_context option) act" where
  "load_verified env found = (case found of
      None \<Rightarrow> Finished None
    | Some c \<Rightarrow>
      if ax_authMethod c = ''service-auth'' \<or>
         ae_emailPolicy (de_auth env) \<notin> {''require-for-write'', ''require-for-login''} then Finished (Some c)
      else trying
        (andThen (fetch (\<lambda>s. map_option (\<lambda>u. ac_email_verified_at u \<noteq> None \<or> ac_auth_type u = ''pseudonym'')
             (find_user (a_userId c) (do_accounts s)))) (\<lambda>row.
         done_with (Some (c\<lparr>a_emailVerified := Some (case row of None \<Rightarrow> False | Some v \<Rightarrow> v)\<rparr>))))
        (\<lambda>_. Some (c\<lparr>a_emailVerified := Some False\<rparr>)))"

text \<open>The request the handlers see. A failing partner lookup rejects the middleware: \<open>Inl\<close>.\<close>

definition authMiddleware ::
  "door_env \<Rightarrow> bool \<Rightarrow> string \<Rightarrow> string \<Rightarrow> jv \<Rightarrow> jv \<Rightarrow> (door, exn, exn + request) act" where
  "authMiddleware env dice originalUrl path headers body =
     graft (verifyRequestAuth env dice originalUrl path headers) (\<lambda>result.
     graft (load_verified env (ar_auth result)) (\<lambda>found.
     andThen (case jget headers ''x-partner-key'' of
         JStr key \<Rightarrow> if key = [] then done_with None
           else andThen (verifyPartnerKey (de_auth env) (Some key) (header_text headers ''origin'') []) (\<lambda>r. done_with (Some r))
       | _ \<Rightarrow> done_with None) (\<lambda>partner.
     done_with \<lparr>q_auth = map_option auth.truncate found,
       q_serviceAuthError = map_option (\<lambda>(code, status). (status, code)) (ar_service result),
       q_partner = (case partner of Some (Inr p) \<Rightarrow> Some (strings_of (pc_permissions p)) | _ \<Rightarrow> None),
       q_partnerError = (case partner of Some (Inl r) \<Rightarrow> Some r | _ \<Rightarrow> None), q_body = body\<rparr>)))"

subsection \<open>Moderation and the cache\<close>

definition forget_contexts :: "string \<Rightarrow> door \<Rightarrow> door" where
  "forget_contexts did s = s\<lparr>do_contexts := invalidateAuthContext did (do_contexts s)\<rparr>"

text \<open>The endpoint with what it drops from the cache before it answers.\<close>

definition moderated_subject :: "request \<Rightarrow> (door, exn, reply) act" where
  "moderated_subject req = graft (zoom (updateSubjectStatus req)) (\<lambda>r.
     if reply_status r = 200
     then graft (change (forget_contexts (case jget (jget (q_body req) ''subject'') ''did'' of JStr d \<Rightarrow> d | _ \<Rightarrow> [])))
            (\<lambda>_ :: exn + unit. Finished r)
     else Finished r)"

end
