(* ===== verification/RequestSafety.thy ===== *)
theory RequestSafety
  imports RequestAuth
begin

text \<open>
  What a request that passed the middleware as another server's rests on, and the race by which
  a suspended account keeps its access for the life of a cache entry.
\<close>

subsection \<open>The cache and the tables\<close>

definition account_context :: "accounts \<Rightarrow> string \<Rightarrow> string \<Rightarrow> auth_context option" where
  "account_context a did authMethod = map_option (\<lambda>u. context_of u (user_roles a (ac_id u)) did authMethod)
     (find (\<lambda>u. ac_did u = did) (t_users a))"

definition contexts_true :: "door \<Rightarrow> bool" where
  "contexts_true s \<longleftrightarrow> (\<forall>k c expires. (k, c, expires) \<in> set (do_contexts s) \<longrightarrow>
     (\<forall>m did. m \<in> {''oauth'', ''service-auth''} \<longrightarrow> k = context_key m did \<longrightarrow>
        account_context (do_accounts s) did m = Some c))"

lemma context_key_inj:
  assumes "context_key m did = context_key m' did'" "m \<in> {''oauth'', ''service-auth''}" "m' \<in> {''oauth'', ''service-auth''}"
  shows "m = m' \<and> did = did'"
  using assms by (auto simp: context_key_def)

lemma alone_context:
  assumes "contexts_true s" "m \<in> {''oauth'', ''service-auth''}"
  obtains s' where "alone (authContextForLocalDid did m) s = (Inr (account_context (do_accounts s) did m), s')"
    "do_accounts s' = do_accounts s" "contexts_true s'"
proof (cases "fst (getCachedAuthContext (do_now s) m did (do_contexts s))")
  case (Some c)
  then obtain expires where at: "map_of (do_contexts s) (context_key m did) = Some (c, expires)"
    "snd (getCachedAuthContext (do_now s) m did (do_contexts s)) = do_contexts s"
    by (auto simp: getCachedAuthContext_def split: option.splits if_splits)
  then have "account_context (do_accounts s) did m = Some c"
    using assms map_of_SomeD [OF at(1)] unfolding contexts_true_def by blast
  with Some at(2) assms(1) show ?thesis
    by (intro that [of s])
      (auto simp: authContextForLocalDid_def look_up_context_def alone_simps split: prod.splits)
next
  case None
  define cache where "cache = snd (getCachedAuthContext (do_now s) m did (do_contexts s))"
  have "cache = do_contexts s \<or> cache = AList.delete (context_key m did) (do_contexts s)"
    by (auto simp: cache_def getCachedAuthContext_def split: option.split)
  then have sub: "set cache \<subseteq> set (do_contexts s)" by (auto simp: AList.delete_eq)
  let ?s1 = "s\<lparr>do_contexts := cache\<rparr>"
  have true1: "contexts_true ?s1" using assms(1) sub unfolding contexts_true_def by auto
  have looked: "look_up_context m did s = (None, ?s1)"
    using None by (simp add: look_up_context_def cache_def split_beta)
  show ?thesis
  proof (cases "find (\<lambda>u. ac_did u = did) (t_users (do_accounts s))")
    case no_user: None
    with looked true1 show ?thesis
      by (intro that [of ?s1]) (simp_all add: authContextForLocalDid_def alone_simps account_context_def)
  next
    case (Some u)
    let ?c = "context_of u (user_roles (do_accounts s) (ac_id u)) did m"
    have acc: "account_context (do_accounts s) did m = Some ?c" by (simp add: account_context_def Some)
    have "contexts_true (keep_context m did ?c ?s1)"
      unfolding contexts_true_def
    proof (intro allI impI)
      fix k c expires m' did'
      assume "(k, c, expires) \<in> set (do_contexts (keep_context m did ?c ?s1))"
        and m': "m' \<in> {''oauth'', ''service-auth''}" and k: "k = context_key m' did'"
      then have "(k, c, expires) \<in> set cache \<or> k = context_key m did \<and> c = ?c"
        using set_update_subset [of "context_key m did" "(?c, do_now s + TTL_MS)"]
        by (auto simp: keep_context_def setCachedAuthContext_def Let_def AList.delete_eq dest!: subsetD [OF set_update_subset]
            split: if_splits)
      then show "account_context (do_accounts (keep_context m did ?c ?s1)) did' m' = Some c"
        using true1 acc m' k context_key_inj [of m' did' m did] assms(2)
        unfolding contexts_true_def by (auto simp: keep_context_def)
    qed
    with looked Some acc show ?thesis
      by (intro that [of "keep_context m did ?c ?s1"])
        (simp_all add: authContextForLocalDid_def alone_simps keep_context_def Let_def)
  qed
qed

lemma zoom_local: "do_seen (snd (alone (zoom t) s)) = do_seen s"
  by (induction t arbitrary: s rule: act_induct) (auto simp: map_prod_def split_beta)

lemma alone_OAuth:
  assumes "contexts_true s" "alone (verifyOAuthRequest verifier url headers) s = (r, s')" "ar_auth r = Some c"
  shows "ax_authMethod c = ''oauth''"
proof -
  have "context_of u roles did m = c \<Longrightarrow> ax_authMethod c = m" for u roles did m by (auto simp: context_of_def)
  moreover obtain sub where sub: "verifier url headers = Inr sub"
    using assms(2,3) by (cases "verifier url headers") (auto simp: verifyOAuthRequest_def alone_simps not_authenticated_def)
  moreover obtain s1 where "alone (authContextForLocalDid sub ''oauth'') s =
      (Inr (account_context (do_accounts s) sub ''oauth''), s1)"
    by (rule alone_context [OF assms(1), where m = "''oauth''" and did = sub]) simp_all
  ultimately show ?thesis using assms(2,3)
    by (auto simp: verifyOAuthRequest_def alone_simps not_authenticated_def authenticated_def account_context_def
        split: option.splits)
qed

text \<open>What the account tables, or the lack of a row, say of the issuer of a token.\<close>

definition issuer_context :: "accounts \<Rightarrow> string \<Rightarrow> auth_context" where
  "issuer_context a did = (case account_context a did ''service-auth'' of
     Some c \<Rightarrow> c | None \<Rightarrow> foreign_context did)"

definition vouched :: "door_env \<Rightarrow> string \<Rightarrow> door \<Rightarrow> string \<Rightarrow> string \<Rightarrow> bool" where
  "vouched env path s token did \<longleftrightarrow> (\<exists>h p sig header payload e keys sigBytes.
     split_char CHR ''.'' token = [h, p, sig] \<and>
     check_claims (de_service env) (method_of_path path) (do_now s) header payload = Inr (did, e) \<and>
     sv_keys (de_service env) did = Inr keys \<and> base64UrlDecode (de_service env) sig = Inr sigBytes \<and>
     any_verifies (de_service env) keys (h @ ''.'' @ p) sigBytes (jget header ''alg''))"

lemma check_claims_iss: "check_claims env lxm now header payload = Inr (iss, e) \<Longrightarrow> issuer payload = iss"
  unfolding check_claims_def refuse_token_def
  by (cases "jget payload ''iss''"; cases "jget payload ''exp''")
    (auto simp: issuer_def Let_def split: if_splits jnum.splits)

lemma alone_service_eq:
  "alone (verifyServiceAuthRequest env dice token path) s =
    (case verify_token (de_service env) (method_of_path path) (do_now s) (split_char CHR ''.'' token) of
       Inl e \<Rightarrow> (service_failure e, s)
     | Inr verified \<Rightarrow>
       (case spend_token dice (split_char CHR ''.'' token ! 2) verified s of (fresh, s1) \<Rightarrow>
          (case fresh of
             Inl e \<Rightarrow> (service_failure e, s1)
           | Inr claims \<Rightarrow>
             (case count_caller env (issuer claims) s1 of (allowed, s2) \<Rightarrow>
                if \<not> allowed then (service_failure (HttpError 429 ''RateLimitExceeded'' []), s2)
                else (case alone (authContextForLocalDid (issuer claims) ''service-auth'') s2 of (found, s3) \<Rightarrow>
                  (case found of
                     Inl e \<Rightarrow> (service_failure e, s3)
                   | Inr localAuth \<Rightarrow> (authenticated (case localAuth of
                       Some c \<Rightarrow> c | None \<Rightarrow> foreign_context (issuer claims)), s3)))))))"
  unfolding verifyServiceAuthRequest_def Let_def
  by (simp add: alone_simps split_beta split: sum.split option.split prod.split)

lemma alone_service:
  assumes "contexts_true s" "alone (verifyServiceAuthRequest env dice token path) s = (r, s')" "ar_auth r = Some c"
  shows "vouched env path s token (a_did c) \<and> c = issuer_context (do_accounts s) (a_did c) \<and> contexts_true s' \<and>
    do_accounts s' = do_accounts s \<and>
    split_char CHR ''.'' token ! 2 \<notin> fst ` set (pruneSeen dice (do_now s) (do_seen s)) \<and>
    fst (checkServiceAuthRateLimit (do_now s) (de_limit env) (a_did c) (do_windows s))"
proof -
  let ?parts = "split_char CHR ''.'' token"
  have refused: "ar_auth (service_failure e) = None" for e by (simp add: service_failure_def)
  from assms(2,3) obtain payload e where
    verified: "verify_token (de_service env) (method_of_path path) (do_now s) ?parts = Inr (payload, e)"
    by (auto simp: alone_service_eq refused split: sum.splits)
  obtain fresh s1 where spent: "spend_token dice (?parts ! 2) (payload, e) s = (fresh, s1)" by fastforce
  with assms(2,3) verified have "fresh = Inr payload"
    by (auto simp: alone_service_eq refused spend_token_def refuse_token_def split: prod.splits if_splits)
  with spent have new: "?parts ! 2 \<notin> fst ` set (pruneSeen dice (do_now s) (do_seen s))"
    and s1: "do_accounts s1 = do_accounts s" "do_contexts s1 = do_contexts s" "do_windows s1 = do_windows s"
    by (auto simp: spend_token_def isReplay_cases refuse_token_def split: prod.splits if_split_asm)
  obtain allowed s2 where counted: "count_caller env (issuer payload) s1 = (allowed, s2)" by fastforce
  with assms(2,3) verified spent \<open>fresh = Inr payload\<close> have "allowed"
    by (auto simp: alone_service_eq refused split: if_splits)
  with counted s1 have limit: "fst (checkServiceAuthRateLimit (do_now s) (de_limit env) (issuer payload) (do_windows s))"
    and s2: "do_accounts s2 = do_accounts s" "do_contexts s2 = do_contexts s"
    by (auto simp: count_caller_def do_now_def split: prod.splits)
  from assms(1) s2 have "contexts_true s2" by (simp add: contexts_true_def)
  then obtain s3 where found: "alone (authContextForLocalDid (issuer payload) ''service-auth'') s2 =
      (Inr (account_context (do_accounts s2) (issuer payload) ''service-auth''), s3)"
    and s3: "do_accounts s3 = do_accounts s2" "contexts_true s3"
    by (rule alone_context [where m = "''service-auth''" and did = "issuer payload"]) simp_all
  with assms(2,3) verified spent \<open>fresh = Inr payload\<close> counted \<open>allowed\<close> s2
  have c: "c = issuer_context (do_accounts s) (issuer payload)" and s': "s' = s3"
    by (auto simp: alone_service_eq authenticated_def issuer_context_def)
  have did: "a_did c = issuer payload"
    by (auto simp: c issuer_context_def account_context_def context_of_def foreign_context_def split: option.split)
  have "vouched env path s token (issuer payload)"
    using verified by (elim verify_token_checks) (auto simp: vouched_def check_claims_iss)
  with new limit c s' s2 s3 did show ?thesis by simp
qed


subsection \<open>Concrete requests\<close>

definition sample_door_env :: door_env where
  "sample_door_env = \<lparr>de_auth = \<lparr>ae_sha256 = id, ae_compare = (=), ae_bcrypt = (\<lambda>_ p. p), ae_sign = (\<lambda>_ _. ''jwt''),
     ae_jwt_verify = (\<lambda>_ _. None), ae_refreshTokenTtl = ''30d'', ae_inviteRequired = False, ae_emailPolicy = ''off'',
     ae_text = (\<lambda>_. [])\<rparr>, de_service = sample_service, de_limit = 60, de_oauth = None\<rparr>"

definition sample_member :: account where
  "sample_member = \<lparr>ac_id = ''u'', ac_handle = ''u'', ac_email = None, ac_email_verified_at = None,
     ac_password_hash = None, ac_status = ''approved'', ac_did = ''did:plc:a'', ac_auth_type = ''password'', ac_approved_at = None,
     ac_approved_by = None, ac_status_changed_at = None, ac_status_changed_by = None, ac_status_reason = JNull,
     ac_exported_at = None, ac_failed_login_attempts = 0, ac_locked_until = None, ac_recovery_tier = None,
     ac_token_version = 0, ac_migrating_in = False\<rparr>"

definition sample_door :: door where
  "sample_door = \<lparr>do_accounts = \<lparr>t_now = 60000, t_users = [sample_member], t_roles = [(''u'', ''user'')], t_sessions = [],
     t_invites = [], t_resets = [], t_recoveries = [], t_verifications = [], t_audit = []\<rparr>,
     do_seen = [], do_windows = [], do_contexts = [], do_partners = []\<rparr>"

definition sample_headers :: jv where
  "sample_headers = JObj [(''authorization'', JStr ''Bearer head.body.ab-c'')]"


definition suspend_sample :: request where
  "suspend_sample = \<lparr>q_auth = Some \<lparr>a_userId = ''m'', a_did = ''did:plc:m'', a_handle = ''m'', a_status = ''approved'',
     a_roles = [''moderator''], a_emailVerified = None\<rparr>, q_serviceAuthError = None, q_partner = None, q_partnerError = None,
     q_body = JObj [(''subject'', JObj [(''did'', JStr ''did:plc:a'')]),
       (''deactivated'', JObj [(''applied'', JBool True)])]\<rparr>"

definition stale_pool :: "(door, exn, (exn + auth_context option) + reply) act list" where
  "stale_pool = [graft (authContextForLocalDid ''did:plc:a'' ''oauth'') (\<lambda>r. Finished (Inl r)),
     graft (moderated_subject suspend_sample) (\<lambda>r. Finished (Inr r))]"

definition stale_run :: "(door, exn, (exn + auth_context option) + reply) pool" where
  "stale_run = exec door_time (replicate 2 (Run 0) @ replicate 8 (Run 1) @ replicate 2 (Run 0)) (stale_pool, sample_door)"


end
