(* ===== verification/Contacts.thy ===== *)
theory Contacts
  imports Reading Display Membership
begin

text \<open>
  The contact graph, \<^verbatim>\<open>src/contact/index.ts\<close>, its endpoints \<open>net.openfederation.contact.*\<close>, and
  the notification inbox, \<^verbatim>\<open>src/notification/index.ts\<close>. The records live in the repositories of
  the two parties, through the operations of \<open>Store\<close>; the tables are an index beside them.

  The state adds the tables to \<open>world\<close>. Between two statements on the tables other requests may
  run: what they do is a parameter, \<open>ce_others\<close>. The lexicon has the fields of a body be texts;
  a field that is none reads as the empty text.
\<close>

subsection \<open>State\<close>

record contact_row =
  cn_user :: string
  cn_contact :: string
  cn_rkey :: string
  cn_accepted_at :: int
  cn_tags :: jv

record contact_request =
  cq_from :: string
  cq_to :: string
  cq_rkey :: string
  cq_note :: "string option"
  cq_created_at :: int

record block_row =
  bk_blocker :: string
  bk_blocked :: string
  bk_rkey :: string
  bk_created_at :: int

record notification =
  nt_id :: string
  nt_recipient :: string
  nt_category :: string
  nt_payload :: jv
  nt_created_at :: int
  nt_read_at :: "int option"

text \<open>\<open>so_discovery\<close>: the DIDs of the users with \<open>fof_discovery\<close>.\<close>

record social =
  so_world :: world
  so_contacts :: "contact_row list"
  so_requests :: "contact_request list"
  so_blocks :: "block_row list"
  so_notifications :: "notification list"
  so_discovery :: "string list"
  so_serial :: nat

record social_env =
  ce_env :: env
  ce_others :: "nat \<Rightarrow> social \<Rightarrow> social"

type_synonym 'a sio = "(social, exn, 'a) prog"

text \<open>A program on the repositories runs inside the larger state.\<close>

definition onWorld :: "'a io \<Rightarrow> 'a sio" where
  "onWorld m s = (case m (so_world s) of (r, w) \<Rightarrow> (r, s\<lparr>so_world := w\<rparr>))"

text \<open>One statement on the tables: after what others did, it fails or takes effect.\<close>

definition next_statement :: "social_env \<Rightarrow> social \<Rightarrow> fault option \<times> social" where
  "next_statement env s =
     (let t = ce_others env (w_ops (so_world s)) s
      in (e_fault (ce_env env) (w_ops (so_world s)),
          t\<lparr>so_world := (so_world t)\<lparr>w_ops := Suc (w_ops (so_world s))\<rparr>\<rparr>))"

definition soRead :: "social_env \<Rightarrow> (social \<Rightarrow> 'a) \<Rightarrow> 'a sio" where
  "soRead env f s = (case next_statement env s of
      (Some (Refused e), t) \<Rightarrow> (Inl e, t)
    | (Some (Unacked e), t) \<Rightarrow> (Inl e, t)
    | (None, t) \<Rightarrow> (Inr (f t), t))"

definition soWrite :: "social_env \<Rightarrow> (social \<Rightarrow> social) \<Rightarrow> unit sio" where
  "soWrite env f s = (case next_statement env s of
      (Some (Refused e), t) \<Rightarrow> (Inl e, t)
    | (Some (Unacked e), t) \<Rightarrow> (Inl e, f t)
    | (None, t) \<Rightarrow> (Inr (), f t))"

definition so_clock :: "social_env \<Rightarrow> social \<Rightarrow> int" where
  "so_clock env s = e_clock (ce_env env) (w_ticks (so_world s))"

definition so_handle :: "social \<Rightarrow> string \<Rightarrow> string option" where
  "so_handle s did = repo_handle (so_world s) did"

definition shown_handle :: "social \<Rightarrow> string \<Rightarrow> jv" where
  "shown_handle s did = JStr (case so_handle s did of None \<Rightarrow> did | Some h \<Rightarrow> h)"

definition REQUEST_COLLECTION :: string where "REQUEST_COLLECTION = ''net.openfederation.contact.request''"
definition CONTACT_COLLECTION :: string where "CONTACT_COLLECTION = ''net.openfederation.contact.contact''"
definition BLOCK_COLLECTION :: string where "BLOCK_COLLECTION = ''net.openfederation.contact.block''"

definition fails_with :: "nat \<Rightarrow> string \<Rightarrow> 'a sio" where
  "fails_with status code = throw (HttpError status code [])"

text \<open>A change of one repository: the key of its owner, then the operation.\<close>

definition put_in :: "social_env \<Rightarrow> string \<Rightarrow> string \<Rightarrow> string \<Rightarrow> jv \<Rightarrow> (string \<times> string) sio" where
  "put_in env did coll rkey rec = onWorld (putRecord (ce_env env) did coll rkey rec)"

definition delete_from :: "social_env \<Rightarrow> string \<Rightarrow> string \<Rightarrow> string \<Rightarrow> unit sio" where
  "delete_from env did coll rkey = onWorld (deleteRecord (ce_env env) did coll rkey)"

definition key_of :: "social_env \<Rightarrow> string \<Rightarrow> unit sio" where
  "key_of env did = onWorld (getKeypairForDid (ce_env env) did)"

definition best_effort :: "unit sio \<Rightarrow> unit sio" where
  "best_effort m = catchM m (\<lambda>_. ret ())"

subsection \<open>Notifications\<close>

definition createNotification :: "social_env \<Rightarrow> string \<Rightarrow> string \<Rightarrow> jv \<Rightarrow> unit sio" where
  "createNotification env recipientDid category payload = soWrite env (\<lambda>s. s\<lparr>
     so_notifications := so_notifications s @ [\<lparr>nt_id = e_uuid (ce_env env) (so_serial s), nt_recipient = recipientDid,
       nt_category = category, nt_payload = json_clean payload, nt_created_at = so_clock env s, nt_read_at = None\<rparr>],
     so_serial := Suc (so_serial s)\<rparr>)"

text \<open>The page of rows, and the cursor of the next one: \<open>LIMIT limit + 1\<close>.\<close>

definition cut_page :: "nat \<Rightarrow> ('a \<Rightarrow> string) \<Rightarrow> 'a list \<Rightarrow> 'a list \<times> string option" where
  "cut_page limit cursor_of rows =
     (let got = take (Suc limit) rows
      in if length got > limit then (take limit got, Some (cursor_of (last (take limit got)))) else (got, None))"

definition page_json :: "string \<Rightarrow> jv list \<Rightarrow> string option \<Rightarrow> jv" where
  "page_json name items cursor =
     JObj ([(name, JArr items)] @ (case cursor of None \<Rightarrow> [] | Some c \<Rightarrow> if c = [] then [] else [(''cursor'', JStr c)]))"

text \<open>An identifier is a UUID, and compares as its text in lower case does.\<close>

definition notification_page :: "string \<Rightarrow> string \<Rightarrow> bool \<Rightarrow> string \<Rightarrow> social \<Rightarrow> notification list" where
  "notification_page callerDid category unreadOnly cursor s =
     rev (sort_key nt_created_at (rev (filter (\<lambda>n. nt_recipient n = callerDid \<and> (category = [] \<or> nt_category n = category)
        \<and> (\<not> unreadOnly \<or> nt_read_at n = None) \<and> (cursor = [] \<or> nt_id n < cursor)) (so_notifications s))))"

definition notification_json :: "notification \<Rightarrow> jv" where
  "notification_json n = JObj ([(''id'', JStr (nt_id n)), (''category'', JStr (nt_category n)), (''payload'', nt_payload n),
     (''createdAt'', JStr (iso (nt_created_at n)))] @
     (case nt_read_at n of None \<Rightarrow> [] | Some t \<Rightarrow> [(''readAt'', JStr (iso t))]))"

definition listNotifications ::
  "social_env \<Rightarrow> auth \<Rightarrow> string \<Rightarrow> bool \<Rightarrow> nat \<Rightarrow> string \<Rightarrow> jv sio" where
  "listNotifications env a category unreadOnly limit cursor =
     bindM (soRead env (notification_page (a_did a) category unreadOnly cursor)) (\<lambda>rows.
     case cut_page limit nt_id rows of (shown, next_cursor) \<Rightarrow>
       ret (page_json ''notifications'' (map notification_json shown) next_cursor))"

text \<open>\<open>None\<close> is \<open>'all'\<close>. The result is the number of rows the update changed.\<close>

definition mark_read :: "social_env \<Rightarrow> string \<Rightarrow> string list option \<Rightarrow> social \<Rightarrow> social" where
  "mark_read env callerDid ids s = s\<lparr>so_notifications := map (\<lambda>n.
     if nt_recipient n = callerDid \<and> nt_read_at n = None \<and> (\<forall>l \<in> set_option ids. nt_id n \<in> set l)
     then n\<lparr>nt_read_at := Some (so_clock env s)\<rparr> else n) (so_notifications s)\<rparr>"

definition marked_count :: "string \<Rightarrow> string list option \<Rightarrow> social \<Rightarrow> nat" where
  "marked_count callerDid ids s = length (filter (\<lambda>n. nt_recipient n = callerDid \<and> nt_read_at n = None \<and>
     (\<forall>l \<in> set_option ids. nt_id n \<in> set l)) (so_notifications s))"

text \<open>One statement that changes the tables and returns a value.\<close>

definition soUpdate :: "social_env \<Rightarrow> (social \<Rightarrow> 'a) \<Rightarrow> (social \<Rightarrow> social) \<Rightarrow> 'a sio" where
  "soUpdate env out f s = (case next_statement env s of
      (Some (Refused e), t) \<Rightarrow> (Inl e, t)
    | (Some (Unacked e), t) \<Rightarrow> (Inl e, f t)
    | (None, t) \<Rightarrow> (Inr (out t), f t))"

definition markNotificationsRead :: "social_env \<Rightarrow> auth \<Rightarrow> string list option \<Rightarrow> nat sio" where
  "markNotificationsRead env a ids =
     (if ids = Some [] then ret 0
      else soUpdate env (marked_count (a_did a) ids) (mark_read env (a_did a) ids))"

definition unread_categories :: "string \<Rightarrow> social \<Rightarrow> (string \<times> nat) list" where
  "unread_categories callerDid s =
     (let unread = filter (\<lambda>n. nt_recipient n = callerDid \<and> nt_read_at n = None) (so_notifications s)
      in map (\<lambda>c. (c, length (filter (\<lambda>n. nt_category n = c) unread))) (remdups (map nt_category unread)))"

definition unreadCount :: "social_env \<Rightarrow> auth \<Rightarrow> jv sio" where
  "unreadCount env a = bindM (soRead env (unread_categories (a_did a))) (\<lambda>groups.
     ret (JObj [(''count'', jnat (sum_list (map snd groups))),
                (''byCategory'', JObj (map (\<lambda>(c, n). (c, jnat n)) groups))]))"

subsection \<open>Requests\<close>

definition blocked_pair :: "string \<Rightarrow> string \<Rightarrow> social \<Rightarrow> bool" where
  "blocked_pair a b s \<longleftrightarrow> (\<exists>r \<in> set (so_blocks s).
     bk_blocker r = a \<and> bk_blocked r = b \<or> bk_blocker r = b \<and> bk_blocked r = a)"

definition between :: "string \<Rightarrow> string \<Rightarrow> string \<Rightarrow> string \<Rightarrow> bool" where
  "between a b x y \<longleftrightarrow> x = a \<and> y = b \<or> x = b \<and> y = a"

definition related :: "string \<Rightarrow> string \<Rightarrow> social \<Rightarrow> bool" where
  "related a b s \<longleftrightarrow> (\<exists>r \<in> set (so_requests s). between a b (cq_from r) (cq_to r)) \<or>
     (\<exists>r \<in> set (so_contacts s). between a b (cn_user r) (cn_contact r))"

definition insert_request :: "contact_request \<Rightarrow> social \<Rightarrow> social" where
  "insert_request r s = (if \<exists>x \<in> set (so_requests s). cq_from x = cq_from r \<and> cq_to x = cq_to r then s
     else s\<lparr>so_requests := so_requests s @ [r]\<rparr>)"

definition opt_note :: "string option \<Rightarrow> (string \<times> jv) list" where
  "opt_note note = (case note of None \<Rightarrow> [] | Some n \<Rightarrow> if n = [] then [] else [(''note'', JStr n)])"

definition sendContactRequest :: "social_env \<Rightarrow> auth \<Rightarrow> string \<Rightarrow> string option \<Rightarrow> jv sio" where
  "sendContactRequest env a subject note =
     (let callerDid = a_did a
      in if callerDid = [] \<or> take 4 subject \<noteq> ''did:'' \<or> subject = callerDid then fails_with 400 ''InvalidRequest''
         else
           bindM (soRead env (blocked_pair callerDid subject)) (\<lambda>blocked.
           if blocked then fails_with 403 ''Blocked'' else
           bindM (soRead env (related callerDid subject)) (\<lambda>conflict.
           if conflict then fails_with 409 ''AlreadyExists'' else
           seqM (key_of env callerDid)
           (bindM (onWorld (generateTid (ce_env env))) (\<lambda>rkey.
           bindM (onWorld (nowMs (ce_env env))) (\<lambda>issuedAt.
           bindM (put_in env callerDid REQUEST_COLLECTION rkey (JObj
               ([(''subject'', JStr subject), (''createdAt'', JStr (iso issuedAt))] @ opt_note note))) (\<lambda>(cid, uri).
           seqM (soRead env (\<lambda>s. so_handle s subject))
           (seqM (soWrite env (insert_request
               \<lparr>cq_from = callerDid, cq_to = subject, cq_rkey = rkey, cq_note = note, cq_created_at = issuedAt\<rparr>))
           (seqM (best_effort (createNotification env subject ''contact-request'' (JObj
               ([(''fromDid'', JStr callerDid), (''fromHandle'', JStr (a_handle a)), (''rkey'', JStr rkey)] @ opt_note note))))
             (ret (JObj [(''rkey'', JStr rkey), (''uri'', JStr uri), (''cid'', JStr cid)])))))))))))"

definition insert_contact :: "contact_row \<Rightarrow> social \<Rightarrow> social" where
  "insert_contact r s = (if \<exists>x \<in> set (so_contacts s). cn_user x = cn_user r \<and> cn_contact x = cn_contact r then s
     else s\<lparr>so_contacts := so_contacts s @ [r]\<rparr>)"

definition insert_contacts :: "string \<Rightarrow> string \<Rightarrow> string \<Rightarrow> int \<Rightarrow> string \<Rightarrow> social \<Rightarrow> social" where
  "insert_contacts callerDid fromDid callerRkey acceptedAt fromRkey s =
     insert_contact \<lparr>cn_user = fromDid, cn_contact = callerDid, cn_rkey = fromRkey, cn_accepted_at = acceptedAt, cn_tags = JNull\<rparr>
       (insert_contact \<lparr>cn_user = callerDid, cn_contact = fromDid, cn_rkey = callerRkey, cn_accepted_at = acceptedAt, cn_tags = JNull\<rparr> s)"

definition contact_record :: "string \<Rightarrow> int \<Rightarrow> jv" where
  "contact_record subject acceptedAt = JObj [(''subject'', JStr subject), (''acceptedAt'', JStr (iso acceptedAt))]"

definition accept_request :: "social_env \<Rightarrow> string \<Rightarrow> string \<Rightarrow> string \<Rightarrow> unit sio" where
  "accept_request env callerDid fromDid rkey =
     bindM (onWorld (nowMs (ce_env env))) (\<lambda>acceptedAt.
     seqM (key_of env callerDid)
     (bindM (onWorld (generateTid (ce_env env))) (\<lambda>callerRkey.
     bindM (put_in env callerDid CONTACT_COLLECTION callerRkey (contact_record fromDid acceptedAt)) (\<lambda>_.
     seqM (key_of env fromDid)
     (bindM (onWorld (generateTid (ce_env env))) (\<lambda>fromContactRkey.
     bindM (put_in env fromDid CONTACT_COLLECTION fromContactRkey (contact_record callerDid acceptedAt)) (\<lambda>_.
     seqM (delete_from env fromDid REQUEST_COLLECTION rkey)
       (soWrite env (insert_contacts callerDid fromDid callerRkey acceptedAt fromContactRkey)))))))))"

definition respondToContactRequest :: "social_env \<Rightarrow> auth \<Rightarrow> string \<Rightarrow> string \<Rightarrow> unit sio" where
  "respondToContactRequest env a rkey action =
     (let callerDid = a_did a
      in if callerDid = [] \<or> action \<notin> {''accept'', ''reject''} then fails_with 400 ''InvalidRequest''
         else
           bindM (soRead env (\<lambda>s. find (\<lambda>r. cq_to r = callerDid \<and> cq_rkey r = rkey) (so_requests s))) (\<lambda>row.
           case row of
             None \<Rightarrow> fails_with 404 ''NotFound''
           | Some r \<Rightarrow>
             seqM (if action = ''accept'' then accept_request env callerDid (cq_from r) rkey
                   else seqM (key_of env (cq_from r)) (delete_from env (cq_from r) REQUEST_COLLECTION rkey))
               (soWrite env (\<lambda>s. s\<lparr>so_requests :=
                  filter (\<lambda>q. \<not> (cq_to q = callerDid \<and> cq_rkey q = rkey)) (so_requests s)\<rparr>))))"

definition withdrawContactRequest :: "social_env \<Rightarrow> auth \<Rightarrow> string \<Rightarrow> unit sio" where
  "withdrawContactRequest env a rkey =
     (let callerDid = a_did a
      in bindM (soRead env (\<lambda>s. find (\<lambda>r. cq_from r = callerDid \<and> cq_rkey r = rkey) (so_requests s))) (\<lambda>row.
         if row = None then fails_with 404 ''NotFound''
         else
           seqM (key_of env callerDid)
           (seqM (delete_from env callerDid REQUEST_COLLECTION rkey)
             (soWrite env (\<lambda>s. s\<lparr>so_requests :=
                filter (\<lambda>q. \<not> (cq_from q = callerDid \<and> cq_rkey q = rkey)) (so_requests s)\<rparr>)))))"

subsection \<open>Contacts\<close>

definition contact_at :: "string \<Rightarrow> string \<Rightarrow> social \<Rightarrow> contact_row option" where
  "contact_at userDid contactDid s = find (\<lambda>r. cn_user r = userDid \<and> cn_contact r = contactDid) (so_contacts s)"

definition drop_contact :: "string \<Rightarrow> string \<Rightarrow> social \<Rightarrow> social" where
  "drop_contact userDid contactDid s = s\<lparr>so_contacts :=
     filter (\<lambda>r. \<not> (cn_user r = userDid \<and> cn_contact r = contactDid)) (so_contacts s)\<rparr>"

definition removeContact :: "social_env \<Rightarrow> auth \<Rightarrow> string \<Rightarrow> unit sio" where
  "removeContact env a subject =
     (let callerDid = a_did a
      in if callerDid = [] \<or> subject = [] then fails_with 400 ''InvalidRequest''
         else
           bindM (soRead env (contact_at callerDid subject)) (\<lambda>callerRow. case callerRow of
             None \<Rightarrow> fails_with 404 ''NotFound''
           | Some own \<Rightarrow>
             bindM (soRead env (contact_at subject callerDid)) (\<lambda>subjectRow.
             seqM (key_of env callerDid)
             (seqM (delete_from env callerDid CONTACT_COLLECTION (cn_rkey own))
             (seqM (case subjectRow of
                  None \<Rightarrow> ret ()
                | Some other \<Rightarrow>
                  seqM (best_effort (seqM (key_of env subject) (delete_from env subject CONTACT_COLLECTION (cn_rkey other))))
                    (soWrite env (drop_contact subject callerDid)))
               (soWrite env (drop_contact callerDid subject)))))))"

definition optional_display :: "(string \<times> display_fields) list \<Rightarrow> string \<Rightarrow> display_fields" where
  "optional_display displayMap did = (case map_of displayMap did of
      None \<Rightarrow> \<lparr>df_displayName = JUndef, df_avatarUrl = JUndef\<rparr> | Some d \<Rightarrow> d)"

definition if_shown :: "string \<Rightarrow> jv \<Rightarrow> (string \<times> jv) list" where
  "if_shown k v = (if truthy v then [(k, v)] else [])"

definition contact_page :: "string \<Rightarrow> string \<Rightarrow> social \<Rightarrow> (contact_row \<times> jv) list" where
  "contact_page callerDid cursor s = map (\<lambda>r. (r, shown_handle s (cn_contact r)))
     (sort_key cn_rkey (filter (\<lambda>r. cn_user r = callerDid \<and> (cursor = [] \<or> cursor < cn_rkey r)) (so_contacts s)))"

definition contact_json :: "(string \<times> display_fields) list \<Rightarrow> contact_row \<times> jv \<Rightarrow> jv" where
  "contact_json displayMap p = (case p of (r, handle) \<Rightarrow>
     (let display = optional_display displayMap (cn_contact r)
      in JObj ([(''did'', JStr (cn_contact r)), (''handle'', handle)]
         @ if_shown ''displayName'' (df_displayName display) @ if_shown ''avatarUrl'' (df_avatarUrl display)
         @ [(''acceptedAt'', JStr (iso (cn_accepted_at r)))]
         @ (case cn_tags r of JArr (t # ts) \<Rightarrow> [(''tags'', JArr (t # ts))] | _ \<Rightarrow> []))))"

definition listContacts :: "social_env \<Rightarrow> auth \<Rightarrow> nat \<Rightarrow> string \<Rightarrow> jv sio" where
  "listContacts env a limit cursor =
     (if a_did a = [] then fails_with 400 ''InvalidRequest''
      else bindM (soRead env (contact_page (a_did a) cursor)) (\<lambda>rows.
        case cut_page limit (cn_rkey \<circ> fst) rows of (shown, next_cursor) \<Rightarrow>
          bindM (onWorld (batchResolveOptionalDisplayFields (ce_env env) (map (cn_contact \<circ> fst) shown))) (\<lambda>displayMap.
          ret (page_json ''contacts'' (map (contact_json displayMap) shown) next_cursor))))"

text \<open>The pages of requests: \<open>of_caller\<close> and \<open>other\<close> are the columns of the two parties.\<close>

definition request_page ::
  "(contact_request \<Rightarrow> string) \<Rightarrow> (contact_request \<Rightarrow> string) \<Rightarrow> string \<Rightarrow> string \<Rightarrow> social \<Rightarrow> (contact_request \<times> jv) list" where
  "request_page of_caller other callerDid cursor s = map (\<lambda>r. (r, shown_handle s (other r)))
     (sort_key cq_created_at (filter (\<lambda>r. of_caller r = callerDid \<and> (cursor = [] \<or> cursor < cq_rkey r)) (so_requests s)))"

definition request_json ::
  "string \<Rightarrow> (contact_request \<Rightarrow> string) \<Rightarrow> (string \<times> display_fields) list \<Rightarrow> contact_request \<times> jv \<Rightarrow> jv" where
  "request_json side other displayMap p = (case p of (r, handle) \<Rightarrow>
     (let display = optional_display displayMap (other r)
      in JObj ([(''rkey'', JStr (cq_rkey r)), (side @ ''Did'', JStr (other r)), (side @ ''Handle'', handle)]
         @ if_shown (side @ ''DisplayName'') (df_displayName display) @ if_shown (side @ ''AvatarUrl'') (df_avatarUrl display)
         @ [(''createdAt'', JStr (iso (cq_created_at r)))] @ opt_note (cq_note r))))"

definition list_requests ::
  "(contact_request \<Rightarrow> string) \<Rightarrow> (contact_request \<Rightarrow> string) \<Rightarrow> string \<Rightarrow> social_env \<Rightarrow> auth \<Rightarrow> nat \<Rightarrow> string \<Rightarrow> jv sio" where
  "list_requests of_caller other side env a limit cursor =
     (if a_did a = [] then fails_with 400 ''InvalidRequest''
      else bindM (soRead env (request_page of_caller other (a_did a) cursor)) (\<lambda>rows.
        case cut_page limit (cq_rkey \<circ> fst) rows of (shown, next_cursor) \<Rightarrow>
          bindM (onWorld (batchResolveOptionalDisplayFields (ce_env env) (map (other \<circ> fst) shown))) (\<lambda>displayMap.
          ret (page_json ''requests'' (map (request_json side other displayMap) shown) next_cursor))))"

definition listIncomingRequests :: "social_env \<Rightarrow> auth \<Rightarrow> nat \<Rightarrow> string \<Rightarrow> jv sio" where
  "listIncomingRequests = list_requests cq_to cq_from ''from''"

definition listOutgoingRequests :: "social_env \<Rightarrow> auth \<Rightarrow> nat \<Rightarrow> string \<Rightarrow> jv sio" where
  "listOutgoingRequests = list_requests cq_from cq_to ''to''"

subsection \<open>Blocks\<close>

text \<open>The records of a list of rows, deleted from the repositories of their owners as far as that goes.\<close>

definition delete_records :: "social_env \<Rightarrow> string \<Rightarrow> (string \<times> string) list \<Rightarrow> unit sio" where
  "delete_records env coll rows = foldM (\<lambda>_ (ownerDid, rkey).
     best_effort (seqM (key_of env ownerDid) (delete_from env ownerDid coll rkey))) () rows"

definition insert_block :: "block_row \<Rightarrow> social \<Rightarrow> social" where
  "insert_block b s = (if \<exists>x \<in> set (so_blocks s). bk_blocker x = bk_blocker b \<and> bk_blocked x = bk_blocked b then s
     else s\<lparr>so_blocks := so_blocks s @ [b]\<rparr>)"

definition contacts_of_pair :: "string \<Rightarrow> string \<Rightarrow> social \<Rightarrow> (string \<times> string) list" where
  "contacts_of_pair a b s = map (\<lambda>r. (cn_user r, cn_rkey r))
     (filter (\<lambda>r. cn_user r = a \<and> cn_contact r = b) (so_contacts s) @
      filter (\<lambda>r. cn_user r = b \<and> cn_contact r = a) (so_contacts s))"

definition requests_of_pair :: "string \<Rightarrow> string \<Rightarrow> social \<Rightarrow> (string \<times> string) list" where
  "requests_of_pair a b s = map (\<lambda>r. (cq_from r, cq_rkey r)) (filter (\<lambda>r. between a b (cq_from r) (cq_to r)) (so_requests s))"

definition blockContact :: "social_env \<Rightarrow> auth \<Rightarrow> string \<Rightarrow> unit sio" where
  "blockContact env a subject =
     (let callerDid = a_did a
      in if subject = [] \<or> subject = callerDid then fails_with 400 ''InvalidRequest''
         else
           bindM (soRead env (contacts_of_pair callerDid subject)) (\<lambda>existingContact.
           seqM (delete_records env CONTACT_COLLECTION existingContact)
           (seqM (soWrite env (\<lambda>s. s\<lparr>so_contacts :=
                filter (\<lambda>r. \<not> between callerDid subject (cn_user r) (cn_contact r)) (so_contacts s)\<rparr>))
           (bindM (soRead env (requests_of_pair callerDid subject)) (\<lambda>pendingReqs.
           seqM (delete_records env REQUEST_COLLECTION pendingReqs)
           (seqM (soWrite env (\<lambda>s. s\<lparr>so_requests :=
                filter (\<lambda>r. \<not> between callerDid subject (cq_from r) (cq_to r)) (so_requests s)\<rparr>))
           (seqM (key_of env callerDid)
           (bindM (onWorld (generateTid (ce_env env))) (\<lambda>blockRkey.
           bindM (onWorld (nowMs (ce_env env))) (\<lambda>createdAt.
           bindM (put_in env callerDid BLOCK_COLLECTION blockRkey (JObj
                [(''subject'', JStr subject), (''createdAt'', JStr (iso createdAt))])) (\<lambda>_.
           soWrite env (\<lambda>s. insert_block \<lparr>bk_blocker = callerDid, bk_blocked = subject, bk_rkey = blockRkey,
                bk_created_at = so_clock env s\<rparr> s))))))))))))"

definition unblockContact :: "social_env \<Rightarrow> auth \<Rightarrow> string \<Rightarrow> unit sio" where
  "unblockContact env a subject =
     (let callerDid = a_did a; hit = (\<lambda>b. bk_blocker b = callerDid \<and> bk_blocked b = subject)
      in bindM (soRead env (\<lambda>s. find hit (so_blocks s))) (\<lambda>row. case row of
           None \<Rightarrow> fails_with 404 ''NotFound''
         | Some b \<Rightarrow>
           seqM (key_of env callerDid)
           (seqM (delete_from env callerDid BLOCK_COLLECTION (bk_rkey b))
             (soWrite env (\<lambda>s. s\<lparr>so_blocks := filter (\<lambda>x. \<not> hit x) (so_blocks s)\<rparr>)))))"

definition block_page :: "string \<Rightarrow> string \<Rightarrow> social \<Rightarrow> (block_row \<times> jv) list" where
  "block_page callerDid cursor s = map (\<lambda>b. (b, shown_handle s (bk_blocked b)))
     (sort_key bk_created_at (filter (\<lambda>b. bk_blocker b = callerDid \<and> (cursor = [] \<or> cursor < bk_rkey b)) (so_blocks s)))"

definition listBlocks :: "social_env \<Rightarrow> auth \<Rightarrow> nat \<Rightarrow> string \<Rightarrow> jv sio" where
  "listBlocks env a limit cursor =
     bindM (soRead env (block_page (a_did a) cursor)) (\<lambda>rows.
     case cut_page limit (bk_rkey \<circ> fst) rows of (shown, next_cursor) \<Rightarrow>
       ret (page_json ''blocks'' (map (\<lambda>(b, handle). JObj [(''did'', JStr (bk_blocked b)), (''handle'', handle),
          (''createdAt'', JStr (iso (bk_created_at b)))]) shown) next_cursor))"

subsection \<open>Contacts of contacts\<close>

definition mutual_page :: "string \<Rightarrow> string \<Rightarrow> string \<Rightarrow> social \<Rightarrow> (string \<times> jv) list" where
  "mutual_page callerDid subject cursor s =
     (let theirs = (\<lambda>d. \<exists>r \<in> set (so_contacts s). cn_user r = subject \<and> cn_contact r = d);
          dids = map cn_contact (filter (\<lambda>r. cn_user r = callerDid \<and> cn_contact r \<noteq> subject \<and> theirs (cn_contact r)
                   \<and> (cursor = [] \<or> cursor < cn_contact r)) (so_contacts s))
      in map (\<lambda>d. (d, shown_handle s d)) (sort_key id dids))"

definition listMutualContacts :: "social_env \<Rightarrow> auth \<Rightarrow> string \<Rightarrow> nat \<Rightarrow> string \<Rightarrow> jv sio" where
  "listMutualContacts env a subject limit cursor =
     bindM (soRead env (contact_at (a_did a) subject)) (\<lambda>isContact.
     if isContact = None then fails_with 404 ''NotFound''
     else bindM (soRead env (mutual_page (a_did a) subject cursor)) (\<lambda>rows.
       case cut_page limit fst rows of (shown, next_cursor) \<Rightarrow>
         ret (page_json ''contacts'' (map (\<lambda>(d, handle). JObj [(''did'', JStr d), (''handle'', handle)]) shown) next_cursor)))"

text \<open>The DIDs the joins of the query reach, each as often as there are rows.\<close>

definition reached :: "string \<Rightarrow> social \<Rightarrow> string list" where
  "reached callerDid s = concat (map (\<lambda>my. map cn_contact (filter (\<lambda>fof. cn_user fof = cn_contact my) (so_contacts s)))
     (filter (\<lambda>my. cn_user my = callerDid) (so_contacts s)))"

definition suggestible :: "string \<Rightarrow> social \<Rightarrow> string \<Rightarrow> bool" where
  "suggestible callerDid s d \<longleftrightarrow> d \<noteq> callerDid \<and> so_handle s d \<noteq> None \<and> d \<in> set (so_discovery s) \<and>
     contact_at callerDid d s = None \<and> \<not> blocked_pair callerDid d s"

definition suggestion_groups :: "string \<Rightarrow> social \<Rightarrow> (string \<times> nat) list" where
  "suggestion_groups callerDid s =
     (let hits = filter (suggestible callerDid s) (reached callerDid s)
      in map (\<lambda>d. (d, count_list hits d)) (remdups hits))"

text \<open>\<open>parseInt(cursor, 10) || 0\<close> as a bound on the number of common contacts.\<close>

definition suggestion_page :: "string \<Rightarrow> string \<Rightarrow> social \<Rightarrow> (string \<times> nat) list" where
  "suggestion_page callerDid cursor s =
     (let groups = filter (\<lambda>(d, n). cursor = [] \<or> int n < or_else (parse_int cursor) 0) (suggestion_groups callerDid s)
      in sort_key (\<lambda>(d, n). - int n) (sort_key fst groups))"

fun decimal :: "nat \<Rightarrow> string" where
  "decimal n = (if n < 10 then [digit_char n] else decimal (n div 10) @ [digit_char (n mod 10)])"

declare decimal.simps [simp del]

definition listFriendOfFriends :: "social_env \<Rightarrow> auth \<Rightarrow> nat \<Rightarrow> string \<Rightarrow> jv sio" where
  "listFriendOfFriends env a limit cursor =
     bindM (soRead env (\<lambda>s. map (\<lambda>(d, n). (d, n, shown_handle s d)) (suggestion_page (a_did a) cursor s))) (\<lambda>rows.
     case cut_page limit (\<lambda>(d, n, handle). decimal n) rows of (shown, next_cursor) \<Rightarrow>
       ret (page_json ''suggestions'' (map (\<lambda>(d, n, handle). JObj [(''did'', JStr d), (''handle'', handle),
          (''mutualCount'', jnat n)]) shown) next_cursor))"

subsection \<open>Endpoints\<close>

text \<open>\<open>renderXrpcError\<close> after a handler of a method that declares \<open>errors\<close>.\<close>

definition social_handler :: "string list \<Rightarrow> reply sio \<Rightarrow> reply sio" where
  "social_handler errors m = catchM m (\<lambda>e.
     ret (renderXrpcError (\<lambda>code. code \<in> set STANDARD_XRPC_ERROR_CODES \<or> code \<in> set errors) e))"

definition authorized :: "request \<Rightarrow> (auth \<Rightarrow> reply sio) \<Rightarrow> reply sio" where
  "authorized req k = (case requireAuth req of Inl r \<Rightarrow> ret r | Inr a \<Rightarrow> k a)"

definition asserted :: "request \<Rightarrow> (auth \<Rightarrow> reply sio) \<Rightarrow> reply sio" where
  "asserted req k = bindM (liftE (assertAuth req)) k"

definition body_text :: "request \<Rightarrow> string \<Rightarrow> string" where
  "body_text req k = (case jget (q_body req) k of JStr t \<Rightarrow> t | _ \<Rightarrow> [])"

definition succeeded_reply :: reply where
  "succeeded_reply = ok [(''success'', JBool True)]"

definition sendRequest_endpoint :: "social_env \<Rightarrow> request \<Rightarrow> reply sio" where
  "sendRequest_endpoint env req = social_handler [''InvalidRequest'', ''AlreadyExists'', ''Blocked''] (authorized req (\<lambda>a.
     if body_text req ''subject'' = [] then ret (err 400 ''InvalidRequest'')
     else bindM (sendContactRequest env a (body_text req ''subject'')
            (case jget (q_body req) ''note'' of JStr n \<Rightarrow> Some n | _ \<Rightarrow> None)) (\<lambda>result. ret (Reply 200 result))))"

definition respondToRequest_endpoint :: "social_env \<Rightarrow> request \<Rightarrow> reply sio" where
  "respondToRequest_endpoint env req = social_handler [''InvalidRequest'', ''NotFound''] (authorized req (\<lambda>a.
     if body_text req ''rkey'' = [] \<or> body_text req ''action'' = [] then ret (err 400 ''InvalidRequest'')
     else seqM (respondToContactRequest env a (body_text req ''rkey'') (body_text req ''action'')) (ret succeeded_reply)))"

definition removeContact_endpoint :: "social_env \<Rightarrow> request \<Rightarrow> reply sio" where
  "removeContact_endpoint env req = social_handler [''InvalidRequest'', ''NotFound''] (authorized req (\<lambda>a.
     if body_text req ''subject'' = [] then ret (err 400 ''InvalidRequest'')
     else seqM (removeContact env a (body_text req ''subject'')) (ret succeeded_reply)))"

definition withdrawRequest_endpoint :: "social_env \<Rightarrow> request \<Rightarrow> reply sio" where
  "withdrawRequest_endpoint env req = social_handler [''NotFound''] (authorized req (\<lambda>a.
     if body_text req ''rkey'' = [] then ret (err 400 ''InvalidRequest'')
     else seqM (withdrawContactRequest env a (body_text req ''rkey'')) (ret succeeded_reply)))"

definition block_endpoint :: "social_env \<Rightarrow> request \<Rightarrow> reply sio" where
  "block_endpoint env req = social_handler [''InvalidRequest''] (authorized req (\<lambda>a.
     if body_text req ''subject'' = [] then ret (err 400 ''InvalidRequest'')
     else seqM (blockContact env a (body_text req ''subject'')) (ret succeeded_reply)))"

definition unblock_endpoint :: "social_env \<Rightarrow> request \<Rightarrow> reply sio" where
  "unblock_endpoint env req = social_handler [''NotFound''] (authorized req (\<lambda>a.
     if body_text req ''subject'' = [] then ret (err 400 ''InvalidRequest'')
     else seqM (unblockContact env a (body_text req ''subject'')) (ret succeeded_reply)))"

text \<open>The listing endpoints differ in the list: the request, then the query.\<close>

definition listing :: "social_env \<Rightarrow> request \<Rightarrow> jv \<Rightarrow> (auth \<Rightarrow> nat \<Rightarrow> string \<Rightarrow> jv sio) \<Rightarrow> reply sio" where
  "listing env req q list' = asserted req (\<lambda>a. case parsePagination (ce_env env) q 50 100 of
     (limit, cursor) \<Rightarrow> bindM (list' a limit cursor) (\<lambda>result. ret (Reply 200 result)))"

definition listContacts_endpoint :: "social_env \<Rightarrow> request \<Rightarrow> jv \<Rightarrow> reply sio" where
  "listContacts_endpoint env req q = social_handler [] (listing env req q (listContacts env))"

definition listIncomingRequests_endpoint :: "social_env \<Rightarrow> request \<Rightarrow> jv \<Rightarrow> reply sio" where
  "listIncomingRequests_endpoint env req q = social_handler [] (listing env req q (listIncomingRequests env))"

definition listOutgoingRequests_endpoint :: "social_env \<Rightarrow> request \<Rightarrow> jv \<Rightarrow> reply sio" where
  "listOutgoingRequests_endpoint env req q = social_handler [] (listing env req q (listOutgoingRequests env))"

definition listBlocks_endpoint :: "social_env \<Rightarrow> request \<Rightarrow> jv \<Rightarrow> reply sio" where
  "listBlocks_endpoint env req q = social_handler [] (listing env req q (listBlocks env))"

definition listFriendOfFriends_endpoint :: "social_env \<Rightarrow> request \<Rightarrow> jv \<Rightarrow> reply sio" where
  "listFriendOfFriends_endpoint env req q = social_handler [] (listing env req q (listFriendOfFriends env))"

definition listMutualContacts_endpoint :: "social_env \<Rightarrow> request \<Rightarrow> jv \<Rightarrow> reply sio" where
  "listMutualContacts_endpoint env req q = social_handler [''NotFound''] (asserted req (\<lambda>_.
     let subject = qstr (ce_env env) q ''subject''
     in if subject = [] then ret (err 400 ''InvalidRequest'')
        else listing env req q (\<lambda>a. listMutualContacts env a subject)))"

definition listNotifications_endpoint :: "social_env \<Rightarrow> request \<Rightarrow> jv \<Rightarrow> reply sio" where
  "listNotifications_endpoint env req q = social_handler [] (authorized req (\<lambda>_.
     listing env req q (\<lambda>a. listNotifications env a
       (case jget q ''category'' of JStr c \<Rightarrow> c | _ \<Rightarrow> []) (jget q ''unreadOnly'' = JStr ''true''))))"

definition markRead_endpoint :: "social_env \<Rightarrow> request \<Rightarrow> reply sio" where
  "markRead_endpoint env req = social_handler [] (authorized req (\<lambda>a.
     case jget (q_body req) ''ids'' of
       JArr ids \<Rightarrow> bindM (markNotificationsRead env a (Some (strings_of ids))) (\<lambda>n. ret (ok [(''marked'', jnat n)]))
     | JStr t \<Rightarrow>
         if t = ''all'' then bindM (markNotificationsRead env a None) (\<lambda>n. ret (ok [(''marked'', jnat n)]))
         else ret (err 400 ''InvalidRequest'')
     | _ \<Rightarrow> ret (err 400 ''InvalidRequest'')))"

definition unreadCount_endpoint :: "social_env \<Rightarrow> request \<Rightarrow> reply sio" where
  "unreadCount_endpoint env req = social_handler [] (authorized req (\<lambda>a.
     bindM (unreadCount env a) (\<lambda>result. ret (Reply 200 result))))"

end
