(* ===== verification/ContactSafety.thy ===== *)
theory ContactSafety
  imports Contacts
begin

text \<open>
  What the contact graph keeps when its requests run one after the other, whatever statement
  fails: who blocked whom has neither a contact nor a request with them. And what an accepted
  request leaves: both rows and a record in both repositories.
\<close>

subsection \<open>What touches the tables\<close>

definition tables :: "social \<Rightarrow> contact_row list \<times> contact_request list \<times> block_row list" where
  "tables s = (so_contacts s, so_requests s, so_blocks s)"

lemma tablesD: "tables t = tables s \<Longrightarrow> so_contacts t = so_contacts s"
  "tables t = tables s \<Longrightarrow> so_requests t = so_requests s" "tables t = tables s \<Longrightarrow> so_blocks t = so_blocks s"
  by (simp_all add: tables_def)

definition undisturbed :: "social_env \<Rightarrow> bool" where
  "undisturbed env \<longleftrightarrow> ce_others env = (\<lambda>_ s. s)"

named_theorems quiet_rules
  \<open>programs that leave the tables of the contact graph alone\<close>

definition quiet :: "'a sio \<Rightarrow> bool" where
  "quiet m \<longleftrightarrow> (\<forall>s. tables (snd (m s)) = tables s)"

lemma quiet_run: "quiet m \<Longrightarrow> m s = (r, t) \<Longrightarrow> tables t = tables s"
  by (metis quiet_def snd_conv)

lemma quiet_onWorld [quiet_rules]: "quiet (onWorld m)"
  by (simp add: quiet_def onWorld_def tables_def split: prod.split)

lemma quiet_ops [quiet_rules]: "quiet (put_in env did coll rkey rec)" "quiet (delete_from env did coll rkey)"
  "quiet (key_of env did)"
  by (simp_all add: put_in_def delete_from_def key_of_def quiet_onWorld)

lemma quiet_basic [quiet_rules]: "quiet (ret x)" "quiet (throw e)" "quiet (fails_with n c)"
  by (simp_all add: quiet_def ret_def throw_def fails_with_def)

lemma quiet_bind [quiet_rules]: "quiet m \<Longrightarrow> (\<And>x. quiet (k x)) \<Longrightarrow> quiet (bindM m k)"
  by (auto simp: quiet_def bindM_def split: prod.splits sum.splits) (metis snd_conv)+

lemma quiet_seq [quiet_rules]: "quiet m \<Longrightarrow> quiet k \<Longrightarrow> quiet (seqM m k)"
  unfolding seqM_def by (rule quiet_bind)

lemma quiet_catch: "quiet m \<Longrightarrow> (\<And>e. quiet (h e)) \<Longrightarrow> quiet (catchM m h)"
  by (auto simp: quiet_def catchM_def split: prod.splits sum.splits) (metis snd_conv)+

lemma quiet_best_effort [quiet_rules]: "quiet m \<Longrightarrow> quiet (best_effort m)"
  unfolding best_effort_def by (intro quiet_catch quiet_rules)

lemma statement_tables: "undisturbed env \<Longrightarrow> next_statement env s = (f, t) \<Longrightarrow> tables t = tables s"
  by (auto simp: next_statement_def undisturbed_def tables_def Let_def)

lemma quiet_read [quiet_rules]: "undisturbed env \<Longrightarrow> quiet (soRead env f)"
  by (auto simp: quiet_def soRead_def statement_tables split: prod.splits option.splits fault.splits)

lemma quiet_write: "undisturbed env \<Longrightarrow> (\<And>s. tables (f s) = tables s) \<Longrightarrow> quiet (soWrite env f)"
  by (auto simp: quiet_def soWrite_def statement_tables split: prod.splits option.splits fault.splits)

lemma quiet_notify [quiet_rules]: "undisturbed env \<Longrightarrow> quiet (createNotification env r c p)"
  unfolding createNotification_def by (rule quiet_write) (simp_all add: tables_def)

lemma quiet_delete_records [quiet_rules]: "quiet (delete_records env coll rows)"
proof -
  have "quiet (foldM (\<lambda>_ (d, k). best_effort (seqM (key_of env d) (delete_from env d coll k))) u rows)" for u
    by (induction rows arbitrary: u) (auto intro!: quiet_rules)
  then show ?thesis by (simp add: delete_records_def)
qed

subsection \<open>Blocked pairs stay apart\<close>

definition graph_ok :: "social \<Rightarrow> bool" where
  "graph_ok s \<longleftrightarrow> (\<forall>a b. blocked_pair a b s \<longrightarrow> \<not> related a b s) \<and>
     (\<forall>r \<in> set (so_requests s). cq_from r \<noteq> cq_to r) \<and> (\<forall>r \<in> set (so_contacts s). cn_user r \<noteq> cn_contact r)"

lemma tables_cong:
  assumes "tables t = tables s"
  shows "blocked_pair a b t = blocked_pair a b s" "related a b t = related a b s" "graph_ok t = graph_ok s"
  using tablesD [OF assms] by (simp_all add: blocked_pair_def related_def graph_ok_def)

lemma related_sym: "related a b s = related b a s"
  unfolding related_def between_def by blast

lemma graph_shrinks:
  assumes "graph_ok s" "so_blocks t = so_blocks s"
    and "set (so_requests t) \<subseteq> set (so_requests s)" "set (so_contacts t) \<subseteq> set (so_contacts s)"
  shows "graph_ok t"
proof -
  have "related a b t \<Longrightarrow> related a b s" for a b using assms(3,4) unfolding related_def by blast
  moreover have "blocked_pair a b t = blocked_pair a b s" for a b using assms(2) by (simp add: blocked_pair_def)
  ultimately show ?thesis using assms(1,3,4) unfolding graph_ok_def by (metis subsetD)
qed

text \<open>\<open>safe T m\<close>: from any state with the tables \<open>T\<close>, \<open>m\<close> leaves a graph that is well-formed.\<close>

definition well_formed :: "contact_row list \<times> contact_request list \<times> block_row list \<Rightarrow> bool" where
  "well_formed T \<longleftrightarrow> (\<forall>s. tables s = T \<longrightarrow> graph_ok s)"

definition safe :: "contact_row list \<times> contact_request list \<times> block_row list \<Rightarrow> 'a sio \<Rightarrow> bool" where
  "safe T m \<longleftrightarrow> (\<forall>s. tables s = T \<longrightarrow> graph_ok (snd (m s)))"

lemma well_formed_of: "graph_ok s \<Longrightarrow> well_formed (tables s)"
  unfolding well_formed_def using tables_cong(3) by blast

named_theorems safe_rules
  \<open>programs that leave a well-formed contact graph\<close>

lemma safe_quiet: "well_formed T \<Longrightarrow> quiet m \<Longrightarrow> safe T m"
  unfolding safe_def well_formed_def quiet_def by simp

lemma safe_bind [safe_rules]:
  assumes "well_formed T" "quiet m" "\<And>x. safe T (k x)"
  shows "safe T (bindM m k)"
  unfolding safe_def
proof (intro allI impI)
  fix s assume "tables s = T"
  moreover obtain r t where m: "m s = (r, t)" by fastforce
  ultimately have "tables t = T" using quiet_run [OF assms(2)] by blast
  with assms(1,3) show "graph_ok (snd (bindM m k s))"
    by (cases r) (simp_all add: bindM_def m safe_def well_formed_def)
qed

lemma safe_seq [safe_rules]: "well_formed T \<Longrightarrow> quiet m \<Longrightarrow> safe T k \<Longrightarrow> safe T (seqM m k)"
  unfolding seqM_def by (rule safe_bind)

lemma safe_read:
  assumes "undisturbed env" "well_formed T" "\<And>t. tables t = T \<Longrightarrow> safe T (k (f t))"
  shows "safe T (bindM (soRead env f) k)"
  unfolding safe_def
proof (intro allI impI)
  fix s assume s: "tables s = T"
  obtain fl t where n: "next_statement env s = (fl, t)" by fastforce
  then have "tables t = T" using statement_tables [OF assms(1) n] s by simp
  with n assms(2,3) show "graph_ok (snd (bindM (soRead env f) k s))"
    by (cases fl) (auto simp: bindM_def soRead_def safe_def well_formed_def split: fault.split)
qed

lemma safe_write:
  assumes "undisturbed env" "well_formed T" "\<And>t. tables t = T \<Longrightarrow> graph_ok (f t)"
  shows "safe T (soWrite env f)"
  unfolding safe_def
proof (intro allI impI)
  fix s assume s: "tables s = T"
  obtain fl t where n: "next_statement env s = (fl, t)" by fastforce
  then have "tables t = T" using statement_tables [OF assms(1) n] s by simp
  with n assms(2,3) show "graph_ok (snd (soWrite env f s))"
    by (cases fl) (auto simp: soWrite_def well_formed_def split: fault.split)
qed

lemma safe_write_then:
  assumes "undisturbed env" "well_formed T" "\<And>t. tables t = T \<Longrightarrow> tables (f t) = T'" "well_formed T'" "safe T' k"
  shows "safe T (seqM (soWrite env f) k)"
  unfolding safe_def
proof (intro allI impI)
  fix s assume s: "tables s = T"
  obtain fl t where n: "next_statement env s = (fl, t)" by fastforce
  then have "tables t = T" using statement_tables [OF assms(1) n] s by simp
  with n assms(2-5) show "graph_ok (snd (seqM (soWrite env f) k s))"
    by (cases fl) (auto simp: seqM_def bindM_def soWrite_def safe_def well_formed_def split: fault.split)
qed

lemma safe_then_quiet:
  assumes "safe T m" "quiet k"
  shows "safe T (seqM m k)"
  unfolding safe_def
proof (intro allI impI)
  fix s assume s: "tables s = T"
  obtain r t where m: "m s = (r, t)" by fastforce
  with assms(1) s have t: "graph_ok t" by (metis safe_def snd_conv)
  obtain r' t' where k: "k t = (r', t')" by fastforce
  from t have "graph_ok t'" using tables_cong(3) [OF quiet_run [OF assms(2) k]] by simp
  with t k m show "graph_ok (snd (seqM m k s))" by (cases r) (simp_all add: seqM_def bindM_def)
qed

lemma safe_then:
  assumes "safe T m" "\<And>T'. well_formed T' \<Longrightarrow> safe T' k"
  shows "safe T (seqM m k)"
  unfolding safe_def
proof (intro allI impI)
  fix s assume s: "tables s = T"
  obtain r t where m: "m s = (r, t)" by fastforce
  with assms(1) s have "graph_ok t" by (metis safe_def snd_conv)
  with assms(2) [OF well_formed_of] m show "graph_ok (snd (seqM m k s))"
    by (cases r) (simp_all add: seqM_def bindM_def safe_def)
qed

lemma safe_cases [safe_rules]:
  "\<lbrakk>b \<Longrightarrow> safe T m; \<not> b \<Longrightarrow> safe T m'\<rbrakk> \<Longrightarrow> safe T (if b then m else m')"
  "\<lbrakk>v = None \<Longrightarrow> safe T m; \<And>x. v = Some x \<Longrightarrow> safe T (g x)\<rbrakk> \<Longrightarrow> safe T (case v of None \<Rightarrow> m | Some x \<Rightarrow> g x)"
  "(\<And>x y. p = (x, y) \<Longrightarrow> safe T (h x y)) \<Longrightarrow> safe T (case p of (x, y) \<Rightarrow> h x y)"
  by (simp_all split: option.split prod.split)

lemma blocked_sym: "blocked_pair a b s = blocked_pair b a s"
  unfolding blocked_pair_def by blast

lemma blocked_between: "between a b x y \<Longrightarrow> blocked_pair a b s = blocked_pair x y s"
  unfolding between_def using blocked_sym by blast

text \<open>A graph that grew by rows between people who did not block each other.\<close>

lemma graph_grows:
  assumes "graph_ok s" "so_blocks t = so_blocks s" "x \<noteq> y" "\<not> blocked_pair x y s"
    and "\<And>r. r \<in> set (so_requests t) \<Longrightarrow> r \<in> set (so_requests s) \<or> between x y (cq_from r) (cq_to r)"
    and "\<And>r. r \<in> set (so_contacts t) \<Longrightarrow> r \<in> set (so_contacts s) \<or> between x y (cn_user r) (cn_contact r)"
  shows "graph_ok t"
proof -
  have blocks: "blocked_pair a b t = blocked_pair a b s" for a b using assms(2) by (simp add: blocked_pair_def)
  have grown: "related a b t \<Longrightarrow> related a b s \<or> between a b x y" for a b
    unfolding related_def using assms(5,6) unfolding between_def by metis
  have apart: "\<not> related a b t" if "blocked_pair a b t" for a b
  proof
    assume "related a b t"
    with grown consider "related a b s" | "between a b x y" by blast
    then show False
    proof cases
      case 1
      with assms(1) that blocks show False by (simp add: graph_ok_def)
    next
      case 2
      with blocked_between [OF this, of s] that blocks assms(4) show False by simp
    qed
  qed
  moreover have "cq_from r \<noteq> cq_to r" if "r \<in> set (so_requests t)" for r
    using assms(5) [OF that] assms(1,3) unfolding graph_ok_def between_def by metis
  moreover have "cn_user r \<noteq> cn_contact r" if "r \<in> set (so_contacts t)" for r
    using assms(6) [OF that] assms(1,3) unfolding graph_ok_def between_def by metis
  ultimately show ?thesis by (simp add: graph_ok_def)
qed

lemma send_safe:
  assumes "undisturbed env" "well_formed T"
  shows "safe T (sendContactRequest env a subject note)"
proof -
  let ?c = "a_did a"
  have stored: "graph_ok (insert_request r t)"
    if "tables t = T" "tables s = T" "\<not> blocked_pair ?c subject s" "subject \<noteq> ?c" "cq_from r = ?c" "cq_to r = subject" for r s t
  proof (rule graph_grows [where s = t and x = ?c and y = subject])
    show "graph_ok t" using assms(2) that(1) by (simp add: well_formed_def)
    show "\<not> blocked_pair ?c subject t" using that tables_cong(1) [of t s] by simp
    fix q assume "q \<in> set (so_requests (insert_request r t))"
    with that(5,6) show "q \<in> set (so_requests t) \<or> between ?c subject (cq_from q) (cq_to q)"
      by (auto simp: insert_request_def between_def split: if_splits)
  qed (use that in \<open>auto simp: insert_request_def split: if_splits\<close>)
  have rest: "safe T (seqM (soWrite env (insert_request r)) (seqM (best_effort (createNotification env subject c p)) (ret x)))"
    if "\<not> blocked_pair ?c subject s" "tables s = T" "subject \<noteq> ?c" "cq_from r = ?c" "cq_to r = subject"
    for s r c p and x :: jv
    by (intro safe_then_quiet safe_write assms quiet_rules) (use stored that in blast)
  show ?thesis
    unfolding sendContactRequest_def Let_def
    apply (rule safe_cases(1))
     apply (intro safe_quiet quiet_rules assms)
    apply (rule safe_read [OF assms])
    apply (rule safe_cases(1))
     apply (intro safe_quiet quiet_rules assms)
    apply (rule safe_read [OF assms])
    apply (rule safe_cases(1))
     apply (intro safe_quiet quiet_rules assms)
    apply (intro rest safe_rules quiet_rules assms)
        apply assumption+
      apply simp_all
    done
qed

lemma accept_safe:
  assumes env: "undisturbed env" and wf: "well_formed T" and T: "tables s = T" and free: "\<not> blocked_pair c d s" "c \<noteq> d"
  shows "safe T (accept_request env c d rkey)"
proof -
  have "graph_ok (insert_contacts c d k n k' t)" if "tables t = T" for k n k' t
  proof (rule graph_grows [where s = t and x = c and y = d])
    show "graph_ok t" using wf that by (simp add: well_formed_def)
    show "\<not> blocked_pair c d t" using that T free tables_cong(1) [of t s] by simp
  qed (auto simp: free(2) insert_contacts_def insert_contact_def between_def split: if_splits)
  then show ?thesis
    unfolding accept_request_def by (intro safe_rules quiet_rules safe_write env wf)
qed

lemma safe_filters:
  assumes "well_formed T" "tables t = T" "so_blocks t' = so_blocks t"
    "set (so_requests t') \<subseteq> set (so_requests t)" "set (so_contacts t') \<subseteq> set (so_contacts t)"
  shows "graph_ok t'"
  by (rule graph_shrinks [of t]) (use assms in \<open>auto simp: well_formed_def\<close>)

lemma respond_safe:
  assumes env: "undisturbed env" and wf: "well_formed T"
  shows "safe T (respondToContactRequest env a rkey action)"
proof -
  have accept: "safe T (accept_request env c (cq_from r) k)"
    if "tables t = T" "find (\<lambda>r. cq_to r = c \<and> cq_rkey r = k') (so_requests t) = Some r" for t c r k k'
  proof (rule accept_safe [OF env wf that(1)])
    from that(2) have r: "r \<in> set (so_requests t)" "cq_to r = c" by (auto simp: find_Some_iff)
    have ok: "graph_ok t" using wf that(1) by (simp add: well_formed_def)
    with r show "c \<noteq> cq_from r" by (auto simp: graph_ok_def)
    from r have "related c (cq_from r) t" by (auto simp: related_def between_def)
    with ok show "\<not> blocked_pair c (cq_from r) t" by (auto simp: graph_ok_def)
  qed
  have removed: "safe T' (soWrite env (\<lambda>t. t\<lparr>so_requests := filter P (so_requests t)\<rparr>))" if "well_formed T'" for T' P
    by (intro safe_write env that safe_filters [OF that]) auto
  show ?thesis
    unfolding respondToContactRequest_def Let_def
    apply (rule safe_cases(1), intro safe_quiet wf quiet_rules)
    apply (rule safe_read [OF env wf])
    apply (rule safe_cases(2), intro safe_quiet wf quiet_rules)
    apply (rule safe_then [OF _ removed])
     apply (rule safe_cases(1))
      apply (rule accept, assumption, assumption)
     apply (intro safe_quiet wf quiet_rules, assumption)
    done
qed

lemma withdraw_safe:
  assumes env: "undisturbed env" and wf: "well_formed T"
  shows "safe T (withdrawContactRequest env a rkey)"
proof -
  have "safe T (soWrite env (\<lambda>t. t\<lparr>so_requests := filter P (so_requests t)\<rparr>))" for P
    by (intro safe_write env wf safe_filters [OF wf]) auto
  then show ?thesis
    unfolding withdrawContactRequest_def Let_def
    apply (intro safe_read [OF env wf])
    apply (rule safe_cases(1), intro safe_quiet wf quiet_rules)
    apply (rule safe_seq [OF wf], intro quiet_rules)
    apply (rule safe_seq [OF wf], intro quiet_rules)
    apply assumption
    done
qed

lemma remove_safe:
  assumes env: "undisturbed env" and wf: "well_formed T"
  shows "safe T (removeContact env a subject)"
proof -
  have drop: "safe T' (soWrite env (drop_contact c d))" if "well_formed T'" for T' c d
    by (intro safe_write env that safe_filters [OF that]) (auto simp: drop_contact_def)
  show ?thesis
    unfolding removeContact_def Let_def
    apply (rule safe_cases(1), intro safe_quiet wf quiet_rules)
    apply (rule safe_read [OF env wf])
    apply (rule safe_cases(2), intro safe_quiet wf quiet_rules)
    apply (rule safe_read [OF env wf])
    apply (rule safe_seq [OF wf], intro quiet_rules)
    apply (rule safe_seq [OF wf], intro quiet_rules)
    apply (rule safe_then [OF _ drop])
     apply (rule safe_cases(2), intro safe_quiet wf quiet_rules)
     apply (rule safe_seq [OF wf], intro quiet_rules)
     apply (rule drop [OF wf])
    apply assumption
    done
qed

lemma block_safe:
  assumes env: "undisturbed env" and wf: "well_formed T"
  shows "safe T (blockContact env a subject)"
proof -
  let ?c = "a_did a"
  obtain cs rs bs where T: "T = (cs, rs, bs)" by (cases T)
  let ?cs = "filter (\<lambda>r. \<not> between ?c subject (cn_user r) (cn_contact r)) cs"
  let ?rs = "filter (\<lambda>r. \<not> between ?c subject (cq_from r) (cq_to r)) rs"
  have shrink: "well_formed (cs', rs', bs)" if "set cs' \<subseteq> set cs" "set rs' \<subseteq> set rs" for cs' rs'
    unfolding well_formed_def
  proof (intro allI impI)
    fix t assume t: "tables t = (cs', rs', bs)"
    have "tables (t\<lparr>so_contacts := cs, so_requests := rs\<rparr>) = T" using t by (simp add: tables_def T)
    then have "graph_ok (t\<lparr>so_contacts := cs, so_requests := rs\<rparr>)" using wf by (simp add: well_formed_def)
    then show "graph_ok t" by (rule graph_shrinks) (use t that in \<open>auto simp: tables_def\<close>)
  qed
  have wf1: "well_formed (?cs, rs, bs)" and wf2: "well_formed (?cs, ?rs, bs)" by (intro shrink; auto)+
  have added: "graph_ok (insert_block b t)"
    if t: "tables t = (?cs, ?rs, bs)" and b: "bk_blocker b = ?c" "bk_blocked b = subject" for b t
  proof -
    have ok: "graph_ok t" using wf2 t by (simp add: well_formed_def)
    have "\<not> related ?c subject t" "\<not> related subject ?c t"
      using t by (auto simp: related_def tables_def between_def)
    moreover have "blocked_pair x y (insert_block b t) \<Longrightarrow> blocked_pair x y t \<or> between ?c subject x y" for x y
      using b by (auto simp: blocked_pair_def insert_block_def between_def split: if_splits)
    moreover have "related x y (insert_block b t) = related x y t" for x y
      by (simp add: related_def insert_block_def)
    moreover have "so_requests (insert_block b t) = so_requests t" "so_contacts (insert_block b t) = so_contacts t"
      by (simp_all add: insert_block_def)
    ultimately show ?thesis using ok unfolding graph_ok_def between_def by metis
  qed
  show ?thesis
    unfolding blockContact_def Let_def
    apply (rule safe_cases(1), intro safe_quiet wf quiet_rules)
    apply (rule safe_read [OF env wf])
    apply (rule safe_seq [OF wf], intro quiet_rules)
    apply (rule safe_write_then [OF env wf _ wf1], simp add: tables_def T)
    apply (rule safe_read [OF env wf1])
    apply (rule safe_seq [OF wf1], intro quiet_rules)
    apply (rule safe_write_then [OF env wf1 _ wf2], simp add: tables_def)
    apply (intro safe_rules quiet_rules wf2 safe_write env added)
      apply simp_all
    done
qed

lemma unblock_safe:
  assumes env: "undisturbed env" and wf: "well_formed T"
  shows "safe T (unblockContact env a subject)"
proof -
  have "graph_ok (t\<lparr>so_blocks := filter P (so_blocks t)\<rparr>)" if "tables t = T" for t P
  proof -
    have "graph_ok t" using wf that by (simp add: well_formed_def)
    moreover have "blocked_pair x y (t\<lparr>so_blocks := filter P (so_blocks t)\<rparr>) \<Longrightarrow> blocked_pair x y t" for x y
      by (auto simp: blocked_pair_def)
    moreover have "related x y (t\<lparr>so_blocks := filter P (so_blocks t)\<rparr>) = related x y t" for x y
      by (simp add: related_def)
    ultimately show ?thesis unfolding graph_ok_def by auto
  qed
  then show ?thesis
    unfolding unblockContact_def Let_def
    apply (intro safe_read [OF env wf])
    apply (rule safe_cases(2), intro safe_quiet wf quiet_rules)
    apply (intro safe_seq wf safe_write env quiet_rules)
    apply assumption
    done
qed

subsection \<open>Every request\<close>

datatype contact_call = SendRequest | RespondToRequest | RemoveContact | WithdrawRequest | BlockContact | UnblockContact

fun contact_endpoint :: "contact_call \<Rightarrow> social_env \<Rightarrow> request \<Rightarrow> reply sio" where
  "contact_endpoint SendRequest = sendRequest_endpoint"
| "contact_endpoint RespondToRequest = respondToRequest_endpoint"
| "contact_endpoint RemoveContact = removeContact_endpoint"
| "contact_endpoint WithdrawRequest = withdrawRequest_endpoint"
| "contact_endpoint BlockContact = block_endpoint"
| "contact_endpoint UnblockContact = unblock_endpoint"

lemma safe_handler: "safe T m \<Longrightarrow> safe T (social_handler errors m)"
  by (auto simp: safe_def social_handler_def catchM_def ret_def split: prod.splits sum.splits)

lemma safe_authorized: "well_formed T \<Longrightarrow> (\<And>a. safe T (k a)) \<Longrightarrow> safe T (authorized req k)"
  by (auto simp: authorized_def intro!: safe_quiet quiet_rules split: sum.split)

lemma safe_result: "safe T m \<Longrightarrow> (\<And>x. quiet (k x)) \<Longrightarrow> safe T (bindM m k)"
proof -
  assume m: "safe T m" and k: "\<And>x. quiet (k x)"
  show ?thesis
    unfolding safe_def
  proof (intro allI impI)
    fix s assume s: "tables s = T"
    obtain r t where run: "m s = (r, t)" by fastforce
    with m s have t: "graph_ok t" by (metis safe_def snd_conv)
    show "graph_ok (snd (bindM m k s))"
    proof (cases r)
      case (Inr x)
      obtain r' t' where k': "k x t = (r', t')" by fastforce
      from t have "graph_ok t'" using tables_cong(3) [OF quiet_run [OF k k']] by simp
      with run Inr k' show ?thesis by (simp add: bindM_def)
    qed (use run t in \<open>simp add: bindM_def\<close>)
  qed
qed

lemma endpoint_safe:
  assumes "undisturbed env" "well_formed T"
  shows "safe T (contact_endpoint c env req)"
proof -
  note ops = send_safe [OF assms] respond_safe [OF assms] remove_safe [OF assms] withdraw_safe [OF assms]
    block_safe [OF assms] unblock_safe [OF assms]
  show ?thesis
    by (cases c; simp add: sendRequest_endpoint_def respondToRequest_endpoint_def removeContact_endpoint_def
        withdrawRequest_endpoint_def block_endpoint_def unblock_endpoint_def;
      intro ops safe_handler safe_authorized assms safe_cases(1) safe_result safe_then_quiet quiet_rules safe_quiet)
qed

text \<open>
  C39. Whatever contact requests run one after the other, and whichever of their statements fail:
  no two people of whom one blocked the other have a contact or a pending request between them,
  and nobody is their own contact.
\<close>

theorem blocked_pairs_stay_apart:
  assumes "undisturbed env" "graph_ok s"
  shows "graph_ok (fold (\<lambda>(c, req) t. snd (contact_endpoint c env req t)) calls s)"
  using assms(2)
proof (induction calls arbitrary: s)
  case (Cons x calls)
  obtain c req where x: "x = (c, req)" by (cases x)
  have "safe (tables s) (contact_endpoint c env req)"
    by (rule endpoint_safe [OF assms(1) well_formed_of]) (rule Cons.prems)
  then have "graph_ok (snd (contact_endpoint c env req s))" by (simp add: safe_def)
  with Cons.IH show ?case by (simp add: x)
qed simp

subsection \<open>What an accepted request leaves\<close>

definition rec_in :: "social \<Rightarrow> string \<Rightarrow> string \<Rightarrow> string \<Rightarrow> jv option" where
  "rec_in s did coll rkey = Option.bind (map_of (w_repos (so_world s)) did) (\<lambda>t. map_of t (coll, rkey))"

abbreviation same_repos :: "social \<Rightarrow> social \<Rightarrow> bool" where
  "same_repos s t \<equiv> w_repos (so_world t) = w_repos (so_world s)"

lemma rec_in_cong: "same_repos s t \<Longrightarrow> rec_in t = rec_in s"
  by (simp add: rec_in_def fun_eq_iff)

lemma seqM_InrE:
  assumes "seqM m k s = (Inr y, s')"
  obtains x t where "m s = (Inr x, t)" "k t = (Inr y, s')"
  using assms unfolding seqM_def by (rule bindM_InrE)

lemma soRead_Inr:
  assumes "undisturbed env" "soRead env f s = (Inr x, t)"
  shows "x = f t" "tables t = tables s" "same_repos s t"
  using assms
  by (auto simp: soRead_def next_statement_def undisturbed_def tables_def Let_def split: option.splits fault.splits)

lemma soWrite_Inr:
  assumes "undisturbed env" "soWrite env f s = (Inr x, t)"
  obtains u where "t = f u" "tables u = tables s" "same_repos s u"
  using assms
  by (auto simp: soWrite_def next_statement_def undisturbed_def tables_def Let_def split: option.splits fault.splits)

lemma onWorld_Inr:
  assumes "onWorld m s = (Inr x, t)"
  obtains w where "m (so_world s) = (Inr x, w)" "t = s\<lparr>so_world := w\<rparr>"
  using assms by (auto simp: onWorld_def split: prod.splits)

lemma small_steps:
  "key_of env did s = (Inr x, t) \<Longrightarrow> tables t = tables s \<and> same_repos s t"
  "onWorld (generateTid e) s = (Inr k, t) \<Longrightarrow> tables t = tables s \<and> same_repos s t"
  "onWorld (nowMs e) s = (Inr n, t) \<Longrightarrow> tables t = tables s \<and> same_repos s t"
  by (auto simp: key_of_def onWorld_def getKeypairForDid_def generateTid_def nowMs_def tables_def ret_def throw_def
      split: prod.splits option.splits)

text \<open>After a change of one repository that returned, every repository holds what it held, but for the change.\<close>

lemma commit_changes:
  assumes "commit_performs env" "one_commit env did [(wop, c)] w w'"
  shows "Option.bind (map_of (w_repos w') d) (\<lambda>t. map_of t (coll, k)) =
    (if d = did then op_effect (tree_op wop) (\<lambda>p. Option.bind (map_of (w_repos w) did) (\<lambda>t. map_of t p)) (coll, k)
     else Option.bind (map_of (w_repos w) d) (\<lambda>t. map_of t (coll, k)))"
proof -
  from assms(2) obtain t t' where t: "map_of (w_repos w) did = Some t" "e_commit env t [wop] = Inr t'"
    "w_repos w' = AList.update did t' (w_repos w)" by (auto simp: one_commit_def)
  with assms(1) have "map_of t' = op_effect (tree_op wop) (map_of t)" by (simp add: commit_performs_def ops_effect_def)
  with t show ?thesis by (simp add: update_conv')
qed

lemma put_in_Inr:
  assumes "commit_performs (ce_env env)" "put_in env did coll rkey rec s = (Inr x, t)"
  shows "tables t = tables s"
    and "rec_in t d c k = (if d = did \<and> c = coll \<and> k = rkey then Some rec else rec_in s d c k)"
proof -
  from assms(2) obtain w where w: "putRecord (ce_env env) did coll rkey rec (so_world s) = (Inr x, w)"
    "t = s\<lparr>so_world := w\<rparr>" unfolding put_in_def by (rule onWorld_Inr)
  then show "tables t = tables s" by (simp add: tables_def)
  have "runs (putRecord (ce_env env) did coll rkey rec) (so_world s) (\<lambda>r w. \<forall>x. r = Inr x \<longrightarrow>
      (\<exists>b cid. one_commit (ce_env env) did [put_op b coll rkey rec cid] (so_world s) w))"
    by (rule runs_putRecord) auto
  from runsD [OF this w(1)] obtain b cid where
    "one_commit (ce_env env) did [put_op b coll rkey rec cid] (so_world s) w" by auto
  then have "one_commit (ce_env env) did [(fst (put_op b coll rkey rec cid), snd (put_op b coll rkey rec cid))] (so_world s) w"
    by simp
  from commit_changes [OF assms(1) this]
  show "rec_in t d c k = (if d = did \<and> c = coll \<and> k = rkey then Some rec else rec_in s d c k)"
    by (simp add: rec_in_def w(2))
qed

lemma delete_from_Inr:
  assumes "commit_performs (ce_env env)" "delete_from env did coll rkey s = (Inr x, t)"
  shows "tables t = tables s"
    and "rec_in t d c k = (if d = did \<and> c = coll \<and> k = rkey then None else rec_in s d c k)"
proof -
  from assms(2) obtain w where w: "deleteRecord (ce_env env) did coll rkey (so_world s) = (Inr x, w)"
    "t = s\<lparr>so_world := w\<rparr>" unfolding delete_from_def by (rule onWorld_Inr)
  then show "tables t = tables s" by (simp add: tables_def)
  have "runs (deleteRecord (ce_env env) did coll rkey) (so_world s) (\<lambda>r w. \<forall>x. r = Inr x \<longrightarrow>
      one_commit (ce_env env) did [(DeleteOp coll rkey, None)] (so_world s) w)"
    by (rule runs_deleteRecord) auto
  from runsD [OF this w(1)] have "one_commit (ce_env env) did [(DeleteOp coll rkey, None)] (so_world s) w" by simp
  from commit_changes [OF assms(1) this]
  show "rec_in t d c k = (if d = did \<and> c = coll \<and> k = rkey then None else rec_in s d c k)"
    by (simp add: rec_in_def w(2))
qed

lemma collections_differ: "CONTACT_COLLECTION \<noteq> REQUEST_COLLECTION"
  by (simp add: CONTACT_COLLECTION_def REQUEST_COLLECTION_def)

lemma tables_insert_contact:
  assumes "tables u = tables s"
  shows "tables (insert_contact r u) = tables (insert_contact r s)"
  unfolding insert_contact_def tablesD(1) [OF assms] using assms tablesD(2,3) [OF assms]
  by (simp add: tables_def)

lemma tables_insert:
  "tables u = tables s \<Longrightarrow> tables (insert_contacts c d k n k' u) = tables (insert_contacts c d k n k' s)"
  unfolding insert_contacts_def by (intro tables_insert_contact)

lemma contact_at_iff:
  "contact_at x y t \<noteq> None \<longleftrightarrow> (\<exists>r \<in> set (so_contacts t). cn_user r = x \<and> cn_contact r = y)"
  by (auto simp: contact_at_def find_None_iff)

lemma insert_contact_in: "\<exists>x \<in> set (so_contacts (insert_contact r s)). cn_user x = cn_user r \<and> cn_contact x = cn_contact r"
  "set (so_contacts s) \<subseteq> set (so_contacts (insert_contact r s))"
  by (auto simp: insert_contact_def)

lemma inserted_contacts:
  "contact_at c d (insert_contacts c d k n k' s) \<noteq> None \<and> contact_at d c (insert_contacts c d k n k' s) \<noteq> None"
proof -
  let ?a = "\<lparr>cn_user = c, cn_contact = d, cn_rkey = k, cn_accepted_at = n, cn_tags = JNull\<rparr>"
  let ?b = "\<lparr>cn_user = d, cn_contact = c, cn_rkey = k', cn_accepted_at = n, cn_tags = JNull\<rparr>"
  obtain x where x: "x \<in> set (so_contacts (insert_contact ?a s))" "cn_user x = c" "cn_contact x = d"
    using insert_contact_in(1) [of ?a s] by auto
  obtain y where "y \<in> set (so_contacts (insert_contact ?b (insert_contact ?a s)))" "cn_user y = d" "cn_contact y = c"
    using insert_contact_in(1) [of ?b "insert_contact ?a s"] by auto
  with x insert_contact_in(2) [of "insert_contact ?a s" ?b] show ?thesis
    unfolding contact_at_iff insert_contacts_def by blast
qed

lemma accept_Inr:
  assumes env: "undisturbed env" "commit_performs (ce_env env)" and "c \<noteq> d"
    and run: "accept_request env c d rkey s = (Inr (), t)"
  obtains k k' n where "rec_in t c CONTACT_COLLECTION k = Some (contact_record d n)"
    "rec_in t d CONTACT_COLLECTION k' = Some (contact_record c n)" "rec_in t d REQUEST_COLLECTION rkey = None"
    "tables t = tables (insert_contacts c d k n k' s)"
proof -
  from run obtain n s1 where s1: "onWorld (nowMs (ce_env env)) s = (Inr n, s1)"
    and run1: "seqM (key_of env c) (bindM (onWorld (generateTid (ce_env env))) (\<lambda>callerRkey.
     bindM (put_in env c CONTACT_COLLECTION callerRkey (contact_record d n)) (\<lambda>_.
     seqM (key_of env d)
     (bindM (onWorld (generateTid (ce_env env))) (\<lambda>fromContactRkey.
     bindM (put_in env d CONTACT_COLLECTION fromContactRkey (contact_record c n)) (\<lambda>_.
     seqM (delete_from env d REQUEST_COLLECTION rkey)
       (soWrite env (insert_contacts c d callerRkey n fromContactRkey)))))))) s1 = (Inr (), t)"
    unfolding accept_request_def by (rule bindM_InrE)
  from run1 obtain x2 s2 k s3 x4 s4 x5 s5 k' s6 x7 s7 x8 s8 where
    s2: "key_of env c s1 = (Inr x2, s2)" and s3: "onWorld (generateTid (ce_env env)) s2 = (Inr k, s3)"
    and s4: "put_in env c CONTACT_COLLECTION k (contact_record d n) s3 = (Inr x4, s4)"
    and s5: "key_of env d s4 = (Inr x5, s5)" and s6: "onWorld (generateTid (ce_env env)) s5 = (Inr k', s6)"
    and s7: "put_in env d CONTACT_COLLECTION k' (contact_record c n) s6 = (Inr x7, s7)"
    and s8: "delete_from env d REQUEST_COLLECTION rkey s7 = (Inr x8, s8)"
    and run8: "soWrite env (insert_contacts c d k n k') s8 = (Inr (), t)"
    by (elim bindM_InrE seqM_InrE) blast
  from run8 obtain u where u: "t = insert_contacts c d k n k' u" "tables u = tables s8" "same_repos s8 u"
    by (rule soWrite_Inr [OF env(1)])
  have t8: "rec_in t = rec_in s8"
    using u by (simp add: rec_in_def fun_eq_iff insert_contacts_def insert_contact_def)
  have "tables s8 = tables s"
    using small_steps(3) [OF s1] small_steps(1) [OF s2] small_steps(2) [OF s3] put_in_Inr(1) [OF env(2) s4]
      small_steps(1) [OF s5] small_steps(2) [OF s6] put_in_Inr(1) [OF env(2) s7] delete_from_Inr(1) [OF env(2) s8]
    by simp
  then have "tables u = tables s" using u(2) by simp
  then have "tables t = tables (insert_contacts c d k n k' s)"
    unfolding u(1) by (rule tables_insert)
  moreover have "rec_in s6 = rec_in s4" using small_steps(1) [OF s5] small_steps(2) [OF s6] by (intro rec_in_cong) simp
  then have "rec_in s8 c CONTACT_COLLECTION k = Some (contact_record d n)"
    "rec_in s8 d CONTACT_COLLECTION k' = Some (contact_record c n)" "rec_in s8 d REQUEST_COLLECTION rkey = None"
    using assms(3) collections_differ
    by (simp_all add: delete_from_Inr(2) [OF env(2) s8] put_in_Inr(2) [OF env(2) s7] put_in_Inr(2) [OF env(2) s4])
  ultimately show ?thesis using that [of k n k'] by (simp add: t8)
qed

text \<open>
  C40. When a request was accepted, each of the two has a row for the other and a record of it in
  their repository, and the request is gone from the index and from the repository of who sent it.
\<close>

theorem accepted_request_links_both:
  assumes "undisturbed env" "commit_performs (ce_env env)" "graph_ok s"
    and "respondToContactRequest env a rkey ''accept'' s = (Inr (), t)"
  shows "\<exists>r k k' n. r \<in> set (so_requests s) \<and> cq_to r = a_did a \<and> cq_rkey r = rkey \<and>
    contact_at (a_did a) (cq_from r) t \<noteq> None \<and> contact_at (cq_from r) (a_did a) t \<noteq> None \<and>
    rec_in t (a_did a) CONTACT_COLLECTION k = Some (contact_record (cq_from r) n) \<and>
    rec_in t (cq_from r) CONTACT_COLLECTION k' = Some (contact_record (a_did a) n) \<and>
    rec_in t (cq_from r) REQUEST_COLLECTION rkey = None \<and>
    (\<forall>q \<in> set (so_requests t). \<not> (cq_to q = a_did a \<and> cq_rkey q = rkey))"
proof -
  let ?hit = "\<lambda>r. cq_to r = a_did a \<and> cq_rkey r = rkey"
  have caller: "a_did a \<noteq> []"
    using assms(4) by (auto simp: respondToContactRequest_def fails_with_def throw_def)
  then have checked: "\<not> (a_did a = [] \<or> ''accept'' \<notin> {''accept'', ''reject''})" by simp
  from assms(4) obtain row s1 where read: "soRead env (\<lambda>s. find ?hit (so_requests s)) s = (Inr row, s1)"
    and rest: "(case row of None \<Rightarrow> fails_with 404 ''NotFound''
       | Some r \<Rightarrow> seqM (accept_request env (a_did a) (cq_from r) rkey)
          (soWrite env (\<lambda>s. s\<lparr>so_requests := filter (\<lambda>q. \<not> ?hit q) (so_requests s)\<rparr>))) s1 = (Inr (), t)"
    unfolding respondToContactRequest_def Let_def if_not_P [OF checked] if_P [OF refl] by (rule bindM_InrE)
  note s1 = soRead_Inr [OF assms(1) read]
  from rest obtain r where row: "row = Some r" by (auto simp: fails_with_def throw_def split: option.splits)
  with s1(1) have "find ?hit (so_requests s) = Some r" using tablesD(2) [OF s1(2)] by simp
  then have r: "r \<in> set (so_requests s)" "cq_to r = a_did a" "cq_rkey r = rkey" by (auto simp: find_Some_iff)
  with assms(3) have apart: "a_did a \<noteq> cq_from r" by (auto simp: graph_ok_def)
  from rest row obtain s2 where accepted: "accept_request env (a_did a) (cq_from r) rkey s1 = (Inr (), s2)"
    and stored: "soWrite env (\<lambda>s. s\<lparr>so_requests := filter (\<lambda>q. \<not> ?hit q) (so_requests s)\<rparr>) s2 = (Inr (), t)"
    by (auto elim: seqM_InrE)
  from accept_Inr [OF assms(1,2) apart accepted] obtain k k' n where
    recs: "rec_in s2 (a_did a) CONTACT_COLLECTION k = Some (contact_record (cq_from r) n)"
      "rec_in s2 (cq_from r) CONTACT_COLLECTION k' = Some (contact_record (a_did a) n)"
      "rec_in s2 (cq_from r) REQUEST_COLLECTION rkey = None"
    and tabs: "tables s2 = tables (insert_contacts (a_did a) (cq_from r) k n k' s1)" .
  from stored obtain u where u: "t = u\<lparr>so_requests := filter (\<lambda>q. \<not> ?hit q) (so_requests u)\<rparr>"
    "tables u = tables s2" "same_repos s2 u" by (rule soWrite_Inr [OF assms(1)])
  have "so_contacts t = so_contacts (insert_contacts (a_did a) (cq_from r) k n k' s1)"
  proof -
    have "so_contacts t = so_contacts u" unfolding u(1) by simp
    also note tablesD(1) [OF u(2)]
    also note tablesD(1) [OF tabs]
    finally show ?thesis .
  qed
  then have "contact_at (a_did a) (cq_from r) t \<noteq> None" "contact_at (cq_from r) (a_did a) t \<noteq> None"
    using inserted_contacts [of "a_did a" "cq_from r" k n k' s1] unfolding contact_at_iff by simp_all
  moreover have "rec_in t = rec_in s2" using u(1,3) by (simp add: rec_in_def fun_eq_iff)
  ultimately show ?thesis using recs r u(1) by auto
qed

subsection \<open>Concrete people\<close>

definition quiet_env :: social_env where
  "quiet_env = \<lparr>ce_env = sample_env, ce_others = (\<lambda>_ s. s)\<rparr>"

definition person :: "string \<Rightarrow> auth" where
  "person did = \<lparr>a_userId = did, a_did = did, a_handle = did, a_status = ''approved'', a_roles = [], a_emailVerified = None\<rparr>"

text \<open>\<open>did:a\<close> has asked \<open>did:b\<close>.\<close>

definition asked :: social where
  "asked = \<lparr>so_world = empty_world\<lparr>w_repos := [(''did:a'', [((REQUEST_COLLECTION, ''k''), JNull)]), (''did:b'', [])],
       w_index := [((''did:a'', REQUEST_COLLECTION, ''k''), (''cid'', JNull))]\<rparr>,
     so_contacts = [], so_requests = [\<lparr>cq_from = ''did:a'', cq_to = ''did:b'', cq_rkey = ''k'', cq_note = None, cq_created_at = 0\<rparr>],
     so_blocks = [], so_notifications = [], so_discovery = [], so_serial = 0\<rparr>"

lemma asked_ok: "graph_ok asked" "undisturbed quiet_env" "commit_performs (ce_env quiet_env)"
  by (auto simp: graph_ok_def asked_def blocked_pair_def undisturbed_def quiet_env_def reference_commit_ok)

lemmas contact_run_simps = run_simps soRead_def soWrite_def next_statement_def onWorld_def put_in_def delete_from_def
  key_of_def putRecord_def deleteRecord_def commitRepo_def loadRepo_def dbRead_def dbWrite_def dbTxn_def Let_def
  cidForRecord_def getKeypairForDid_def generateTid_def nowMs_def syncRecordsIndex_def removeFromRecordsIndex_def

lemma tree_steps: "reference_commit t [CreateOp c k rec] = (if map_of t (c, k) = None then Inr (AList.update (c, k) rec t) else Inl (Failure ''invalid write''))"
  "reference_commit t [DeleteOp c k] = (if map_of t (c, k) \<noteq> None then Inr (AList.delete (c, k) t) else Inl (Failure ''invalid write''))"
  by (simp_all add: reference_commit_def)

lemma accepted_run: "fst (respondToContactRequest quiet_env (person ''did:b'') ''k'' ''accept'' asked) = Inr ()"
  by (simp add: respondToContactRequest_def accept_request_def contact_run_simps quiet_env_def person_def asked_def
      sample_env_def empty_world_def indexed_def tree_steps REQUEST_COLLECTION_def CONTACT_COLLECTION_def MEMBER_COLLECTION_def
      liftE_def index_put_def index_del_def)

theorem accepted_request_links_both_witness:
  "\<exists>k n. rec_in (snd (respondToContactRequest quiet_env (person ''did:b'') ''k'' ''accept'' asked)) ''did:a'' CONTACT_COLLECTION k
     = Some (contact_record ''did:b'' n)"
proof -
  have "respondToContactRequest quiet_env (person ''did:b'') ''k'' ''accept'' asked =
      (Inr (), snd (respondToContactRequest quiet_env (person ''did:b'') ''k'' ''accept'' asked))"
    using accepted_run by (simp add: prod_eq_iff)
  from accepted_request_links_both [OF asked_ok(2,3,1) this]
  show ?thesis by (auto simp: asked_def person_def)
qed

definition call_with :: "string \<Rightarrow> (string \<times> jv) list \<Rightarrow> request" where
  "call_with did ps = \<lparr>q_auth = Some (person did), q_serviceAuthError = None, q_partner = None, q_partnerError = None,
     q_body = JObj ps\<rparr>"

theorem blocked_pairs_stay_apart_witness:
  "graph_ok (fold (\<lambda>(c, req) t. snd (contact_endpoint c quiet_env req t))
     [(RespondToRequest, call_with ''did:b'' [(''rkey'', JStr ''k''), (''action'', JStr ''accept'')]),
      (BlockContact, call_with ''did:a'' [(''subject'', JStr ''did:b'')]),
      (SendRequest, call_with ''did:b'' [(''subject'', JStr ''did:a'')])] asked)"
  by (rule blocked_pairs_stay_apart [OF asked_ok(2,1)])

end
