(* ===== verification/Spec2Isabelle.thy ===== *)
theory Spec2Isabelle
  imports GovernedWrites DecisionEvidence Progress PrivateReads Paging CredentialSafety OracleSafety
    RequestSafety ContactSafety
begin

text \<open>
  \<^bold>\<open>OpenFederation PDS: community governance.\<close>

  A community is a repository of signed records. Its members propose changes to the
  records, vote with records in their own repositories, and the server decides, waits out a
  contest window, and applies the change. This development models that path from the
  statement that writes a record to the program that audits a finished decision offline.
  File names are relative to the server's \<^verbatim>\<open>src/\<close> directory.

  \<^bold>\<open>Theories.\<close>
  \<^item> \<open>Prelude\<close>: the state-and-exception monad for \<open>async\<close> functions, the triple \<open>runs m s Q\<close>
    (whatever the outcome of \<open>m\<close> from \<open>s\<close>, \<open>Q\<close> holds of it), the locales
    \<open>state_preorder\<close> (what a program may do to the state, along a preorder) and
    \<open>earliest_wins\<close> (a scan that keeps the least row of every key), sorting, association
    lists.
  \<^item> \<open>JsValue\<close>, \<open>JsDate\<close>: JavaScript values, coercions and exceptions; \<open>toISOString\<close> and the
    calendar, with the theorem that strings compare as instants do in the years 0 to 9999.
  \<^item> \<open>DecisionRules\<close>, \<open>SettingsRules\<close>: \<^verbatim>\<open>governance/decision-rules.ts\<close> and
    \<^verbatim>\<open>governance/settings-rules.ts\<close>.
  \<^item> \<open>Store\<close>: \<^verbatim>\<open>repo/repo-engine.ts\<close>, \<^verbatim>\<open>db/client.ts\<close>, \<^verbatim>\<open>db/audit.ts\<close>, the member projection of
    \<^verbatim>\<open>community/projections.ts\<close>. The state \<open>world\<close> holds the signed trees, the read cache
    \<open>records_index\<close>, the audit log, and the tables the governance code reads.
  \<^item> \<open>Permissions\<close>: \<^verbatim>\<open>auth/guards.ts\<close>, \<^verbatim>\<open>auth/permissions.ts\<close>, \<^verbatim>\<open>community/visibility.ts\<close>,
    \<^verbatim>\<open>governance/electorate.ts\<close>, \<^verbatim>\<open>repo/collection-policy.ts\<close>.
  \<^item> \<open>VoteRecords\<close>: \<^verbatim>\<open>governance/vote-records.ts\<close>, \<^verbatim>\<open>governance/eligibility-evidence.ts\<close>,
    \<^verbatim>\<open>governance/objection-records.ts\<close>.
  \<^item> \<open>Resolution\<close>, \<open>Timelock\<close>, \<open>Anchoring\<close>: \<^verbatim>\<open>governance/proposal-resolution.ts\<close>,
    \<^verbatim>\<open>governance/timelock.ts\<close>, \<^verbatim>\<open>governance/anchoring.ts\<close>, \<^verbatim>\<open>governance/attestor.ts\<close>.
  \<^item> \<open>Proposals\<close>, \<open>Voting\<close>, \<open>Enforcement\<close>: the endpoints \<open>createProposal\<close>, \<open>amendProposal\<close>,
    \<open>objectToProposal\<close>, \<open>getProposal\<close>, \<open>voteOnProposal\<close>, the delegation endpoints,
    \<open>setGovernanceModel\<close>, and \<^verbatim>\<open>governance/enforcement.ts\<close>, \<^verbatim>\<open>governance/request-authority.ts\<close>.
  \<^item> \<open>VoteEffect\<close>: what one vote, with everything it sets off, may change.
  \<^item> \<open>VerifyDecision\<close>, \<open>VerifyApplication\<close>, \<open>DecisionEvidence\<close>: the offline auditor in
    \<^verbatim>\<open>governance/verify-decision.ts\<close>, \<^verbatim>\<open>governance/verify-application.ts\<close>,
    \<^verbatim>\<open>governance/decision-evidence.ts\<close>.
  \<^item> \<open>Lexicon\<close>, \<open>Xrpc\<close>: \<^verbatim>\<open>lexicon/runtime.ts\<close>, with the relation \<open>conforms\<close> it decides;
    \<^verbatim>\<open>xrpc/errors.ts\<close> and \<^verbatim>\<open>server/xrpc-router.ts\<close>.
  \<^item> \<open>Membership\<close>: \<^verbatim>\<open>community/membership/\<close> and the endpoints \<open>join\<close>, \<open>leave\<close>, \<open>removeMember\<close>,
    \<open>resolveJoinRequest\<close>, \<open>updateMember\<close>. \<open>MembershipEffect\<close> has the step relation
    \<open>member_step\<close> their calls refine; \<open>JoinRequests\<close> has the life of a join request and the
    concrete communities on which the membership theorems are applied.
  \<^item> \<open>RepoWrites\<close>, \<open>CommunityAdmin\<close>: the generic endpoints \<open>putRecord\<close>, \<open>createRecord\<close>,
    \<open>deleteRecord\<close> with \<^verbatim>\<open>auth/pseudonym-probation.ts\<close>; the endpoints that create, update,
    delete and moderate a community and manage its roles and applications. \<open>GovernedWrites\<close>
    says which of them leave protected records alone, and which do not.
  \<^item> \<open>Reading\<close>: the endpoints that show repositories and communities, with \<^verbatim>\<open>xrpc/pagination.ts\<close>;
    \<open>Display\<close>: \<^verbatim>\<open>community/display-projection.ts\<close>. \<open>Redaction\<close> erases what a community keeps and shows
    which programs cannot tell; \<open>PrivateReads\<close> concludes that the reading endpoints tell an outsider
    of a private community nothing, and which three endpoints do. \<open>Paging\<close> follows the cursors.
  \<^item> \<open>Interleaving\<close>: requests that run together as a pool of programs, each a sequence of
    database statements; any statement of another request may come between two of one. The
    locale \<open>stable\<close> proves an invariant of every schedule from the single statements, the locale
    \<open>one_claim\<close> that at most one of several requests wins what only one may have.
  \<^item> \<open>Handles\<close>: \<^verbatim>\<open>auth/utils.ts\<close>. \<open>Accounts\<close>: sessions and their tokens (\<^verbatim>\<open>auth/tokens.ts\<close>,
    \<^verbatim>\<open>auth/session-issue.ts\<close>, sign-in, refresh, sign-out, revocation). \<open>Credentials\<close>: passwords,
    resets, recovery, e-mail confirmation. \<open>AccountStatus\<close>: registration, invites, approval,
    deactivation, roles, moderation, deletion. Their state \<open>accounts\<close> holds the account tables,
    apart from \<open>world\<close>; a row-locked transaction is one step.
  \<^item> \<open>AccountSteps\<close>: what one statement of any account request may do to the tables.
    \<open>SessionSafety\<close>, \<open>CredentialSafety\<close>: what therefore holds of every schedule, and the races
    that remain.
  \<^item> \<open>Effects\<close>: requests that may have an effect only after a claim (locale \<open>one_effect\<close>).
    \<open>OracleAudit\<close>, \<open>Oracles\<close>: \<^verbatim>\<open>modules/chain/\<close>, the proof an oracle's change of an on-chain
    community carries and the audit row that reserves it. \<open>OracleSafety\<close>: a proof carries one
    change, and an exact retry returns its result.
  \<^item> \<open>ServiceAuth\<close>: \<^verbatim>\<open>auth/service-auth.ts\<close> and \<^verbatim>\<open>auth/auth-context-cache.ts\<close>, as functions of
    the maps the process keeps. \<open>ServiceAuthSafety\<close>: how long the replay cache and the limiter
    hold. \<open>RequestAuth\<close>: \<^verbatim>\<open>auth/verification.ts\<close>, \<^verbatim>\<open>auth/middleware.ts\<close> and partner keys, as
    requests over the account tables together with those maps. \<open>RequestSafety\<close>: what lets a
    request in, and a context that outlives a suspension.
  \<^item> \<open>Contacts\<close>: \<^verbatim>\<open>contact/index.ts\<close>, \<^verbatim>\<open>notification/index.ts\<close> and their endpoints; the state
    \<open>social\<close> adds their tables to \<open>world\<close>. \<open>ContactSafety\<close>: blocks keep people apart, and what an
    accepted request leaves.
  \<^item> \<open>Progress\<close>: a due change that nothing holds up is applied.
  \<^item> \<open>Endpoints\<close>: invariants of all governance and membership endpoints together.

  \<^bold>\<open>Lemmas.\<close> For every operation there is a frame lemma for the locale \<open>store_preorder\<close> (or its
  extension \<open>member_preorder\<close>), so that an invariant of the whole system is one
  interpretation; for writes there are \<open>runs\<close> lemmas that state the exact commit; the
  offline checks have one lemma per check and verdict.

  \<^bold>\<open>How the code is translated.\<close> An \<open>async\<close> function is a function from the state to a
  result or a thrown value together with the state reached: a throw keeps what was committed.
  A database call consults the environment \<open>env\<close>, which says at every point whether the
  connection fails, what time the clock shows, and what another session does to the state
  while this one waits for an advisory lock (\<open>e_wait\<close>). Database transactions are atomic;
  the two statements of a repository write (the signed tree, then the index) are two
  transactions, and a failure between them is a behaviour of the model. A thrown value
  is a constructor of \<open>exn\<close>; an endpoint's response is its status and code.

  \<^bold>\<open>Parameters.\<close> Content identifiers, record keys, the signing of commits, the parsing of dates
  outside the ISO format, and the cryptographic and CAR libraries behind the offline check
  are fields of \<open>env\<close> or arguments. What a theorem needs of them is one of its hypotheses.

  \<^bold>\<open>Loops.\<close> Every loop is a recursion over a list and needs no fuel, with one exception: a
  lexicon may refer to itself, so \<open>validateAgainstSchema\<close> takes the number of stack frames and
  returns \<open>None\<close> when the call stack overflows. \<open>validation_returns\<close> shows that
  \<open>(k + 1) * (depth + 1)\<close> frames are enough for a value of the given nesting depth when no chain
  of references is longer than \<open>k\<close>.

  \<^bold>\<open>Not modelled.\<close> Of the accounts, sent e-mails, collisions of random identifiers, the
  overflow of counters in the database, migration and pseudonyms. Messages for people, logging, floating-point rounding,
  rate limiters (a parameter of the router), and the subsystems outside community governance:
  the OAuth provider, key custody, attestations, the forum, federation and the client programs.
\<close>

end
